(* ===== verification/Pisces_Prelude.thy ===== *)
theory Pisces_Prelude
  imports Main "HOL-Library.Monad_Syntax"
begin

text \<open>
  The vocabulary every component shares: the fixed-width Java integers \<open>jint\<close> and \<open>jlong\<close> of the
  native code, checked access to C buffers, and the \<open>for\<close> and pointer loops over them.

  A C value of type \<^verbatim>\<open>jint\<close> is an \<^typ>\<open>int\<close> in the range of 32-bit two's complement. Reduction
  to that range (\<open>i32\<close>) commutes with \<open>+\<close>, \<open>-\<close>, \<open>*\<close>, left shift and the bitwise operations, so it is
  written once around each maximal expression of these operations, before a right shift, a
  comparison, a division, a widening or a store looks at the value. On \<^typ>\<open>int\<close>, \<^const>\<open>drop_bit\<close>
  is the arithmetic right shift.

  A buffer is a list; reading or writing outside it has no defined result, which is \<^const>\<open>None\<close>.
  A \<^verbatim>\<open>NULL\<close> buffer is the empty list: every access through it faults.
\<close>

unbundle bit_operations_syntax

named_theorems c_int "evaluation of fixed-width integer expressions"
named_theorems px_simps "channels of packed pixels"

section \<open>Fixed-width integers\<close>

type_synonym jint = int
type_synonym jlong = int
type_synonym jbyte = int

definition i32 :: "int \<Rightarrow> jint" where
  "i32 x = signed_take_bit 31 x"

definition i64 :: "int \<Rightarrow> jlong" where
  "i64 x = signed_take_bit 63 x"

definition is_jint :: "int \<Rightarrow> bool" where
  "is_jint x \<longleftrightarrow> - (2 ^ 31) \<le> x \<and> x < 2 ^ 31"

definition is_jlong :: "int \<Rightarrow> bool" where
  "is_jlong x \<longleftrightarrow> - (2 ^ 63) \<le> x \<and> x < 2 ^ 63"

text \<open>C's \<^verbatim>\<open>/\<close> and \<^verbatim>\<open>%\<close> truncate towards zero; a zero divisor has no defined result.\<close>

definition c_div :: "int \<Rightarrow> int \<Rightarrow> int option" where
  "c_div a b = (if b = 0 then None else Some (sgn a * sgn b * (\<bar>a\<bar> div \<bar>b\<bar>)))"

definition c_mod :: "int \<Rightarrow> int \<Rightarrow> int option" where
  "c_mod a b = (if b = 0 then None else Some (sgn a * (\<bar>a\<bar> mod \<bar>b\<bar>)))"

lemma is_jint_i32 [simp, intro]: "is_jint (i32 x)"
  using signed_take_bit_int_greater_eq_minus_exp [of 31 x] signed_take_bit_int_less_exp [of 31 x]
  by (simp add: i32_def is_jint_def)

lemma i32_id [c_int]: "is_jint x \<Longrightarrow> i32 x = x"
  by (simp add: i32_def is_jint_def signed_take_bit_int_eq_self)

lemma i32_small: "- 2147483648 \<le> x \<Longrightarrow> x < 2147483648 \<Longrightarrow> i32 x = x"
  by (simp add: i32_id is_jint_def)

lemma i32_0 [simp]: "i32 0 = 0"
  by (simp add: i32_def)

lemma i32_mod: "i32 x = (x + 2 ^ 31) mod 2 ^ 32 - 2 ^ 31"
  by (simp add: i32_def signed_take_bit_eq_take_bit_shift take_bit_eq_mod)

lemma is_jlong_i64 [simp, intro]: "is_jlong (i64 x)"
  using signed_take_bit_int_greater_eq_minus_exp [of 63 x] signed_take_bit_int_less_exp [of 63 x]
  by (simp add: i64_def is_jlong_def)

lemma i64_id [c_int]: "is_jlong x \<Longrightarrow> i64 x = x"
  by (simp add: i64_def is_jlong_def signed_take_bit_int_eq_self)

lemma i64_small: "- 9223372036854775808 \<le> x \<Longrightarrow> x < 9223372036854775808 \<Longrightarrow> i64 x = x"
  by (simp add: i64_id is_jlong_def)

lemma i32_add_i32 [simp]: "i32 (i32 x + y) = i32 (x + y)" "i32 (x + i32 y) = i32 (x + y)"
  by (simp_all add: i32_mod mod_simps algebra_simps)

section \<open>Buffers\<close>

definition rd :: "'a list \<Rightarrow> int \<Rightarrow> 'a option" where
  "rd xs i = (if 0 \<le> i \<and> i < int (length xs) then Some (xs ! nat i) else None)"

definition wr :: "'a list \<Rightarrow> int \<Rightarrow> 'a \<Rightarrow> 'a list option" where
  "wr xs i v = (if 0 \<le> i \<and> i < int (length xs) then Some (xs[nat i := v]) else None)"

lemma rd_Some [simp]: "0 \<le> i \<Longrightarrow> i < int (length xs) \<Longrightarrow> rd xs i = Some (xs ! nat i)"
  by (simp add: rd_def)

lemma wr_Some [simp]: "0 \<le> i \<Longrightarrow> i < int (length xs) \<Longrightarrow> wr xs i v = Some (xs[nat i := v])"
  by (simp add: wr_def)

lemma rd_eq_Some_iff: "rd xs i = Some v \<longleftrightarrow> 0 \<le> i \<and> i < int (length xs) \<and> v = xs ! nat i"
  by (auto simp: rd_def)

lemma wr_eq_Some_iff: "wr xs i v = Some ys \<longleftrightarrow> 0 \<le> i \<and> i < int (length xs) \<and> ys = xs[nat i := v]"
  by (auto simp: wr_def)

lemma rd_wr_same: "wr xs i v = Some ys \<Longrightarrow> rd ys i = Some v"
  by (auto simp: wr_eq_Some_iff rd_eq_Some_iff)

lemma rd_wr_other: "wr xs i v = Some ys \<Longrightarrow> j \<noteq> i \<Longrightarrow> rd ys j = rd xs j"
  by (auto simp: wr_eq_Some_iff rd_def)

lemma wr_length: "wr xs i v = Some ys \<Longrightarrow> length ys = length xs"
  by (auto simp: wr_eq_Some_iff)

section \<open>Loops\<close>

text \<open>\<open>for_loop n body s\<close> is \<^verbatim>\<open>for (i = 0; i < n; i++) body\<close> on the loop state \<open>s\<close>.\<close>

fun iter_from :: "int \<Rightarrow> nat \<Rightarrow> (int \<Rightarrow> 's \<Rightarrow> 's option) \<Rightarrow> 's \<Rightarrow> 's option" where
  "iter_from i 0 f s = Some s"
| "iter_from i (Suc n) f s = (case f i s of None \<Rightarrow> None | Some s' \<Rightarrow> iter_from (i + 1) n f s')"

definition for_loop :: "int \<Rightarrow> (int \<Rightarrow> 's \<Rightarrow> 's option) \<Rightarrow> 's \<Rightarrow> 's option" where
  "for_loop n f s = iter_from 0 (nat n) f s"

text \<open>
  \<open>ptr_loop a am st body s\<close> is \<^verbatim>\<open>while (a < am) { body; a += st; }\<close>. With a step that is not
  positive the loop either never ends or runs below the buffer: it has no defined result.
\<close>

function ptr_loop :: "int \<Rightarrow> int \<Rightarrow> int \<Rightarrow> (int \<Rightarrow> 's \<Rightarrow> 's option) \<Rightarrow> 's \<Rightarrow> 's option" where
  "ptr_loop a am st f s =
     (if a < am then
        (if st \<le> 0 then None
         else (case f a s of None \<Rightarrow> None | Some s' \<Rightarrow> ptr_loop (a + st) am st f s'))
      else Some s)"
  by pat_completeness auto
termination
  by (relation "measure (\<lambda>(a, am, st, f, s). nat (am - a))") auto

declare ptr_loop.simps [simp del]

lemma iter_from_inv:
  assumes "P i s"
    and "\<And>j t. i \<le> j \<Longrightarrow> j < i + int n \<Longrightarrow> P j t \<Longrightarrow> \<exists>t'. f j t = Some t' \<and> P (j + 1) t'"
  shows "\<exists>t. iter_from i n f s = Some t \<and> P (i + int n) t"
  using assms
proof (induction n arbitrary: i s)
  case 0
  then show ?case by simp
next
  case (Suc n)
  from Suc.prems(2) [of i s] Suc.prems(1) obtain s' where s': "f i s = Some s'" "P (i + 1) s'"
    by auto
  have "\<exists>t. iter_from (i + 1) n f s' = Some t \<and> P ((i + 1) + int n) t"
    by (rule Suc.IH) (use s' Suc.prems(2) in auto)
  then show ?case using s' by (simp add: algebra_simps)
qed

lemma for_loop_inv:
  assumes "P 0 s" and "0 \<le> n"
    and "\<And>j t. 0 \<le> j \<Longrightarrow> j < n \<Longrightarrow> P j t \<Longrightarrow> \<exists>t'. f j t = Some t' \<and> P (j + 1) t'"
  shows "\<exists>t. for_loop n f s = Some t \<and> P n t"
  using iter_from_inv [of P 0 s "nat n" f] assms by (auto simp: for_loop_def)

lemma for_loop_0 [simp]: "n \<le> 0 \<Longrightarrow> for_loop n f s = Some s"
  by (simp add: for_loop_def)

lemma ptr_loop_stop [simp]: "am \<le> a \<Longrightarrow> ptr_loop a am st f s = Some s"
  by (simp add: ptr_loop.simps)

text \<open>With step 1 the pointer loop is a counted loop.\<close>

lemma ptr_loop_inv:
  assumes "P a s" and "a \<le> am"
    and "\<And>p t. a \<le> p \<Longrightarrow> p < am \<Longrightarrow> P p t \<Longrightarrow> \<exists>t'. f p t = Some t' \<and> P (p + 1) t'"
  shows "\<exists>t. ptr_loop a am 1 f s = Some t \<and> P am t"
  using assms
proof (induction "nat (am - a)" arbitrary: a s)
  case 0
  then show ?case by simp
next
  case (Suc n)
  then have lt: "a < am" by linarith
  from Suc.prems(3) [of a s] Suc.prems(1) lt obtain s' where s': "f a s = Some s'" "P (a + 1) s'"
    by auto
  have "\<exists>t. ptr_loop (a + 1) am 1 f s' = Some t \<and> P am t"
    by (rule Suc.hyps) (use s' lt Suc.hyps(2) Suc.prems(3) in auto)
  then show ?case using s' lt by (subst ptr_loop.simps) simp
qed

end
