(* ===== verification/Pisces_Blend.thy ===== *)
theory Pisces_Blend
  imports Pisces_Prelude
begin

text \<open>
  The per-pixel arithmetic of \<^verbatim>\<open>PiscesBlit.c\<close>: channel access, the division by 255 and the blend
  routines. A blend routine of the source reads the pixel \<^verbatim>\<open>*intData\<close> and stores a new one; here it
  maps the old pixel to the new one and the callers do the load and the store.
\<close>

section \<open>Channels\<close>

definition div255 :: "jint \<Rightarrow> jint" where
  "div255 x = drop_bit 16 (i32 (x * 257 + 257))"

definition pxA :: "jint \<Rightarrow> jint" where
  "pxA x = drop_bit 24 x AND 0xFF"

definition pxR :: "jint \<Rightarrow> jint" where
  "pxR x = drop_bit 16 x AND 0xFF"

definition pxG :: "jint \<Rightarrow> jint" where
  "pxG x = drop_bit 8 x AND 0xFF"

definition pxB :: "jint \<Rightarrow> jint" where
  "pxB x = x AND 0xFF"

text \<open>The expression \<^verbatim>\<open>(a << 24) | (r << 16) | (g << 8) | b\<close> every routine stores.\<close>

definition argb :: "jint \<Rightarrow> jint \<Rightarrow> jint \<Rightarrow> jint \<Rightarrow> jint" where
  "argb a r g b = i32 (push_bit 24 a OR push_bit 16 r OR push_bit 8 g OR b)"

definition MAX_ALPHA :: jint where
  "MAX_ALPHA = 255"

section \<open>Blend routines\<close>

definition blendSrcOver8888_pre :: "jint \<Rightarrow> jint \<Rightarrow> jint \<Rightarrow> jint \<Rightarrow> jint \<Rightarrow> jint" where
  "blendSrcOver8888_pre ival aval sred sgreen sblue =
     (let dalpha = drop_bit 24 ival AND 0xff;
          dred = drop_bit 16 ival AND 0xff;
          dgreen = drop_bit 8 ival AND 0xff;
          dblue = ival AND 0xff;
          oneminusaval = i32 (255 - aval);
          oalpha = div255 (i32 (255 * aval + oneminusaval * dalpha));
          ored = div255 (i32 (sred * aval + oneminusaval * dred));
          ogreen = div255 (i32 (sgreen * aval + oneminusaval * dgreen));
          oblue = div255 (i32 (sblue * aval + oneminusaval * dblue))
      in argb oalpha ored ogreen oblue)"

definition blendSrcOver8888_pre_pre ::
    "jint \<Rightarrow> jint \<Rightarrow> jint \<Rightarrow> jint \<Rightarrow> jint \<Rightarrow> jint \<Rightarrow> jint" where
  "blendSrcOver8888_pre_pre ival frac aval sred sgreen sblue =
     (let dalpha = drop_bit 24 ival AND 0xff;
          dred = drop_bit 16 ival AND 0xff;
          dgreen = drop_bit 8 ival AND 0xff;
          dblue = ival AND 0xff;
          aval2 = drop_bit 8 (i32 (aval * frac));
          oneminusaval = i32 (255 - aval2);
          oalpha = i32 (aval2 + div255 (i32 (oneminusaval * dalpha)));
          ored = i32 (drop_bit 8 (i32 (sred * frac)) + div255 (i32 (oneminusaval * dred)));
          ogreen = i32 (drop_bit 8 (i32 (sgreen * frac)) + div255 (i32 (oneminusaval * dgreen)));
          oblue = i32 (drop_bit 8 (i32 (sblue * frac)) + div255 (i32 (oneminusaval * dblue)))
      in argb oalpha ored ogreen oblue)"

definition blendSrcOver8888_pre_pre_fullFrac ::
    "jint \<Rightarrow> jint \<Rightarrow> jint \<Rightarrow> jint \<Rightarrow> jint \<Rightarrow> jint" where
  "blendSrcOver8888_pre_pre_fullFrac ival aval sred sgreen sblue =
     (let dalpha = drop_bit 24 ival AND 0xff;
          dred = drop_bit 16 ival AND 0xff;
          dgreen = drop_bit 8 ival AND 0xff;
          dblue = ival AND 0xff;
          oneminusaval = i32 (255 - aval);
          oalpha = i32 (aval + div255 (i32 (oneminusaval * dalpha)));
          ored = i32 (sred + div255 (i32 (oneminusaval * dred)));
          ogreen = i32 (sgreen + div255 (i32 (oneminusaval * dgreen)));
          oblue = i32 (sblue + div255 (i32 (oneminusaval * dblue)))
      in argb oalpha ored ogreen oblue)"

text \<open>
  The LCD blend goes through the file's static tables \<^verbatim>\<open>gammaArray\<close> and \<^verbatim>\<open>invGammaArray\<close>, both
  passed here; an index outside a table has no defined result.
\<close>

definition blendLCDSrcOver8888_pre ::
    "jint list \<Rightarrow> jint list \<Rightarrow> jint \<Rightarrow> jint \<Rightarrow> jint \<Rightarrow> jint \<Rightarrow> jint \<Rightarrow> jint \<Rightarrow> jint \<Rightarrow> jint option" where
  "blendLCDSrcOver8888_pre gammaArray invGammaArray ival ared agreen ablue sred sgreen sblue =
     do {
       let dred = drop_bit 16 ival AND 0xff;
       let dgreen = drop_bit 8 ival AND 0xff;
       let dblue = ival AND 0xff;
       dred \<leftarrow> rd invGammaArray dred;
       dgreen \<leftarrow> rd invGammaArray dgreen;
       dblue \<leftarrow> rd invGammaArray dblue;
       let ored = div255 (i32 (ared * sred + (255 - ared) * dred));
       let ogreen = div255 (i32 (agreen * sgreen + (255 - agreen) * dgreen));
       let oblue = div255 (i32 (ablue * sblue + (255 - ablue) * dblue));
       ored \<leftarrow> rd gammaArray ored;
       ogreen \<leftarrow> rd gammaArray ogreen;
       oblue \<leftarrow> rd gammaArray oblue;
       Some (i32 (0xFF000000 OR push_bit 16 ored OR push_bit 8 ogreen OR oblue))
     }"

definition blendSrc8888_pre :: "jint \<Rightarrow> jint \<Rightarrow> jint \<Rightarrow> jint \<Rightarrow> jint \<Rightarrow> jint \<Rightarrow> jint" where
  "blendSrc8888_pre ival aval raaval sred sgreen sblue =
     (let dalpha = drop_bit 24 ival AND 0xff;
          dred = drop_bit 16 ival AND 0xff;
          dgreen = drop_bit 8 ival AND 0xff;
          dblue = ival AND 0xff;
          denom = i32 (255 * aval + dalpha * raaval)
      in if denom = 0 then 0
         else
           let oalpha = div255 denom;
               ored = div255 (i32 (aval * sred + raaval * dred));
               ogreen = div255 (i32 (aval * sgreen + raaval * dgreen));
               oblue = div255 (i32 (aval * sblue + raaval * dblue))
           in argb oalpha ored ogreen oblue)"

definition blendSrc8888_pre_pre :: "jint \<Rightarrow> jint \<Rightarrow> jint \<Rightarrow> jint \<Rightarrow> jint \<Rightarrow> jint \<Rightarrow> jint" where
  "blendSrc8888_pre_pre ival aval raaval sred sgreen sblue =
     (let dalpha = drop_bit 24 ival AND 0xff;
          dred = drop_bit 16 ival AND 0xff;
          dgreen = drop_bit 8 ival AND 0xff;
          dblue = ival AND 0xff;
          denom = i32 (255 * aval + dalpha * raaval)
      in if denom = 0 then 0
         else
           let oalpha = div255 denom;
               ored = i32 (sred + div255 (i32 (raaval * dred)));
               ogreen = i32 (sgreen + div255 (i32 (raaval * dgreen)));
               oblue = i32 (sblue + div255 (i32 (raaval * dblue)))
           in argb oalpha ored ogreen oblue)"

section \<open>Channel arithmetic\<close>

abbreviation is_byte :: "int \<Rightarrow> bool" where
  "is_byte x \<equiv> 0 \<le> x \<and> x \<le> 255"

lemma and_255_eq_mod: "(x :: int) AND 255 = x mod 256"
  using take_bit_eq_mask [of 8 x] by (simp add: take_bit_eq_mod mask_eq_exp_minus_1)

lemma and_255_eq_take_bit: "(x :: int) AND 255 = take_bit 8 x"
  using take_bit_eq_mask [of 8 x] by (simp add: mask_eq_exp_minus_1)

lemma px_is_byte [px_simps]:
  "is_byte (pxA p)" "is_byte (pxR p)" "is_byte (pxG p)" "is_byte (pxB p)"
  by (simp_all add: pxA_def pxR_def pxG_def pxB_def and_255_eq_mod)

lemma px_i32 [simp]: "pxA (i32 x) = pxA x" "pxR (i32 x) = pxR x" "pxG (i32 x) = pxG x" "pxB (i32 x) = pxB x"
  by (simp_all add: pxA_def pxR_def pxG_def pxB_def i32_def and_255_eq_take_bit take_bit_drop_bit
        take_bit_signed_take_bit)

lemma push_bit_or: "0 \<le> y \<Longrightarrow> y < 2 ^ n \<Longrightarrow> push_bit n x OR y = x * 2 ^ n + (y :: int)"
  using concat_bit_eq [of n y x] by (simp add: concat_bit_def or.commute take_bit_int_eq_self push_bit_eq_mult)

lemma i32_add_multiple: "i32 (x + 4294967296 * k) = i32 x"
proof -
  have "(x + 4294967296 * k + 2147483648) mod 4294967296 = ((x + 2147483648) + 4294967296 * k) mod 4294967296"
    by (simp only: ac_simps)
  also have "\<dots> = (x + 2147483648) mod 4294967296" by (rule mod_mult_self2)
  finally show ?thesis by (simp add: i32_mod)
qed

lemma argb_sum:
  assumes "is_byte r" "is_byte g" "is_byte b"
  shows "argb a r g b = i32 (16777216 * a + (65536 * r + (256 * g + b)))"
proof -
  have "push_bit 8 g OR b = g * 256 + b"
    using push_bit_or [of b 8 g] assms by simp
  moreover have "push_bit 16 r OR (g * 256 + b) = r * 65536 + (g * 256 + b)"
    using push_bit_or [of "g * 256 + b" 16 r] assms by simp
  moreover have "push_bit 24 a OR (r * 65536 + (g * 256 + b)) = a * 16777216 + (r * 65536 + (g * 256 + b))"
    using push_bit_or [of "r * 65536 + (g * 256 + b)" 24 a] assms by simp
  ultimately show ?thesis by (simp add: argb_def mult.commute)
qed

lemma div_add_byte: "0 \<le> y \<Longrightarrow> y < k \<Longrightarrow> (k * x + y) div k = (x :: int)"
  by (simp add: div_add1_eq [of "k * x"] zmod_eq_0_iff)

lemma byte_mod: "is_byte x \<Longrightarrow> x mod 256 = x"
  by simp

lemma px_div:
  "pxA p = p div 16777216 mod 256" "pxR p = p div 65536 mod 256"
  "pxG p = p div 256 mod 256" "pxB p = p mod 256"
  by (simp_all add: pxA_def pxR_def pxG_def pxB_def and_255_eq_mod drop_bit_eq_div)

lemma px_sum:
  assumes "is_byte a" "is_byte r" "is_byte g" "is_byte b"
    and s: "s = 16777216 * a + (65536 * r + (256 * g + b))"
  shows "pxA s = a" "pxR s = r" "pxG s = g" "pxB s = b"
proof -
  have s1: "s = 65536 * (256 * a + r) + (256 * g + b)" and s2: "s = 256 * (256 * (256 * a + r) + g) + b"
    by (simp_all add: s)
  have "s div 16777216 = a" unfolding s using assms by (intro div_add_byte) auto
  moreover have "s div 65536 = 256 * a + r" unfolding s1 using assms by (intro div_add_byte) auto
  moreover have "s div 256 = 256 * (256 * a + r) + g" unfolding s2 using assms by (intro div_add_byte) auto
  moreover have "s mod 256 = b mod 256" unfolding s2 by (rule mod_mult_self4)
  ultimately show "pxA s = a" "pxR s = r" "pxG s = g" "pxB s = b"
    unfolding px_div by (simp_all only: mod_mult_self4 byte_mod [OF assms(1)] byte_mod [OF assms(2)]
        byte_mod [OF assms(3)] byte_mod [OF assms(4)])
qed

lemma px_argb [px_simps]:
  assumes "is_byte a" "is_byte r" "is_byte g" "is_byte b"
  shows "pxA (argb a r g b) = a" "pxR (argb a r g b) = r"
    and "pxG (argb a r g b) = g" "pxB (argb a r g b) = b"
  by (simp_all only: argb_sum [OF assms(2-4)] px_i32 px_sum [OF assms refl])

lemma is_jint_argb [simp, intro]: "is_jint (argb a r g b)"
  by (simp add: argb_def)

text \<open>A 32-bit pixel is determined by its channels.\<close>

lemma argb_channels:
  assumes "is_jint p"
  shows "argb (pxA p) (pxR p) (pxG p) (pxB p) = p"
proof -
  define p1 p2 p3 k where "p1 = p div 256" and "p2 = p1 div 256" and "p3 = p2 div 256" and "k = p3 div 256"
  have eqs: "p = 256 * p1 + p mod 256" "p1 = 256 * p2 + p1 mod 256" "p2 = 256 * p3 + p2 mod 256"
      "p3 = 256 * k + p3 mod 256"
    by (simp_all only: p1_def p2_def p3_def k_def mult_div_mod_eq)
  have "p2 = p div 65536" "p3 = p div 16777216"
    using zdiv_zmult2_eq [of 256 p 256] zdiv_zmult2_eq [of 256 p 65536]
    by (simp_all add: p1_def p2_def p3_def)
  then have px: "pxA p = p3 mod 256" "pxR p = p2 mod 256" "pxG p = p1 mod 256" "pxB p = p mod 256"
    by (simp_all only: px_div p1_def)
  from eqs have "16777216 * pxA p + (65536 * pxR p + (256 * pxG p + pxB p)) = p + 4294967296 * (- k)"
    unfolding px [symmetric] by linarith
  then have "argb (pxA p) (pxR p) (pxG p) (pxB p) = i32 (p + 4294967296 * (- k))"
    by (simp only: argb_sum px_is_byte)
  then show ?thesis using i32_id [OF assms] by (simp only: i32_add_multiple)
qed

lemma pixel_eqI:
  assumes "is_jint p" "is_jint q" "pxA p = pxA q" "pxR p = pxR q" "pxG p = pxG q" "pxB p = pxB q"
  shows "p = q"
  by (metis argb_channels assms)

text \<open>The shift-based division is exact on every value the blends pass it.\<close>

lemma div255_eq [px_simps]:
  assumes "0 \<le> x" "x \<le> 65535"
  shows "div255 x = x div 255"
proof -
  define q r where "q = x div 255" and "r = x mod 255"
  have x: "x = 255 * q + r" "0 \<le> r" "r < 255" by (simp_all add: q_def r_def)
  with assms have q: "0 \<le> q" "q \<le> 257" by linarith+
  from assms have "i32 (x * 257 + 257) = x * 257 + 257" by (intro i32_small) auto
  then have "div255 x = (x * 257 + 257) div 65536" by (simp add: div255_def drop_bit_eq_div)
  also have "x * 257 + 257 = 65536 * q + (257 * (r + 1) - q)" by (simp add: x)
  also have "\<dots> div 65536 = q" using x q by (intro div_add_byte) auto
  finally show ?thesis by (simp add: q_def)
qed

section \<open>Premultiplied pixels\<close>

text \<open>
  \<^verbatim>\<open>TYPE_INT_ARGB_PRE\<close> stores every colour channel multiplied by alpha, so no channel exceeds
  alpha. That is the invariant of a surface.
\<close>

definition premul :: "jint \<Rightarrow> bool" where
  "premul p \<longleftrightarrow> is_jint p \<and> pxR p \<le> pxA p \<and> pxG p \<le> pxA p \<and> pxB p \<le> pxA p"

lemma premul_argb:
  "is_byte a \<Longrightarrow> 0 \<le> r \<Longrightarrow> r \<le> a \<Longrightarrow> 0 \<le> g \<Longrightarrow> g \<le> a \<Longrightarrow> 0 \<le> b \<Longrightarrow> b \<le> a \<Longrightarrow> premul (argb a r g b)"
  by (simp add: premul_def px_simps)

lemma premul_0 [simp]: "premul 0"
  by (simp add: premul_def is_jint_def pxA_def pxR_def pxG_def pxB_def)

text \<open>A weighted sum of bytes with weights that sum to at most 255 is within the exact range of \<open>div255\<close>.\<close>

lemma weighted_sum_le:
  fixes v w x y :: int
  assumes "0 \<le> v" "0 \<le> w" "v + w \<le> 255" "0 \<le> x" "x \<le> 255" "0 \<le> y" "y \<le> 255"
  shows "0 \<le> v * x + w * y" "v * x + w * y \<le> 65025"
proof -
  have "v * x \<le> v * 255" "w * y \<le> w * 255" using assms by (simp_all add: mult_left_mono)
  then show "v * x + w * y \<le> 65025" using assms by linarith
  show "0 \<le> v * x + w * y" using assms by simp
qed

text \<open>The mean of two channels with weights in 255ths, rounded down: what the blends compute.\<close>

definition wmean :: "int \<Rightarrow> int \<Rightarrow> int \<Rightarrow> int \<Rightarrow> int" where
  "wmean v x w y = (v * x + w * y) div 255"

lemma div255_wmean:
  assumes "0 \<le> v" "0 \<le> w" "v + w \<le> 255" "is_byte x" "is_byte y"
  shows "div255 (i32 (v * x + w * y)) = wmean v x w y" and "div255 (i32 (x * v + w * y)) = wmean v x w y"
    and "div255 (i32 (w * y)) = wmean 0 x w y" and "is_byte (wmean v x w y)"
proof -
  have "0 \<le> v * x + w * y" "v * x + w * y \<le> 65025" "0 \<le> w * y" "w * y \<le> 65025"
    using weighted_sum_le [of v w x y] weighted_sum_le [of 0 w x y] assms by auto
  then show "div255 (i32 (v * x + w * y)) = wmean v x w y" "div255 (i32 (x * v + w * y)) = wmean v x w y"
    and "div255 (i32 (w * y)) = wmean 0 x w y" "is_byte (wmean v x w y)"
    by (auto simp: i32_small div255_eq wmean_def mult.commute [of x v]
          intro: order_trans [OF zdiv_mono1 [of _ 65025]])
qed

lemma wmean_mono:
  assumes "0 \<le> v" "0 \<le> w" "x \<le> x'" "y \<le> y'"
  shows "wmean v x w y \<le> wmean v x' w y'"
  unfolding wmean_def using assms by (intro zdiv_mono1 add_mono mult_left_mono) auto

lemma px_fold: "x AND 255 = pxB x" "pxB (drop_bit 24 x) = pxA x" "pxB (drop_bit 16 x) = pxR x"
    "pxB (drop_bit 8 x) = pxG x"
  by (simp_all add: pxA_def pxR_def pxG_def pxB_def)

text \<open>Source-over with a flat colour: each channel is the weighted mean, exactly.\<close>

lemma blendSrcOver8888_pre_channels:
  assumes "is_byte aval" "is_byte sred" "is_byte sgreen" "is_byte sblue"
  shows "blendSrcOver8888_pre p aval sred sgreen sblue =
      argb (wmean aval 255 (255 - aval) (pxA p)) (wmean aval sred (255 - aval) (pxR p))
           (wmean aval sgreen (255 - aval) (pxG p)) (wmean aval sblue (255 - aval) (pxB p))"
  using assms
  by (simp add: blendSrcOver8888_pre_def Let_def px_fold i32_small px_is_byte div255_wmean)

lemma blendSrcOver8888_pre_premul:
  assumes "premul p" "is_byte aval" "is_byte sred" "is_byte sgreen" "is_byte sblue"
  shows "premul (blendSrcOver8888_pre p aval sred sgreen sblue)"
  using assms
  by (auto simp: blendSrcOver8888_pre_channels premul_def [of p] px_is_byte div255_wmean
        intro!: premul_argb wmean_mono)

text \<open>
  Source-over with a premultiplied source faded by a coverage in 256ths. The destination keeps the
  share \<open>255 - a\<close> of the faded source alpha \<open>a\<close>.
\<close>

definition fade :: "int \<Rightarrow> int \<Rightarrow> int" where
  "fade f x = x * f div 256"

definition under :: "int \<Rightarrow> int \<Rightarrow> int" where
  "under a d = (255 - a) * d div 255"

lemma fade_bounds:
  assumes "0 \<le> f" "f \<le> 256" "is_byte x"
  shows "0 \<le> fade f x" "fade f x \<le> x"
    and "drop_bit 8 (i32 (x * f)) = fade f x"
proof -
  have b: "0 \<le> x * f" "x * f \<le> x * 256" using assms by (simp_all add: mult_left_mono)
  then show "0 \<le> fade f x" by (simp add: fade_def)
  have "x * f div 256 \<le> x * 256 div 256" using b(2) by (rule zdiv_mono1) simp
  then show "fade f x \<le> x" by (simp add: fade_def)
  from b assms have "i32 (x * f) = x * f" by (intro i32_small) linarith+
  then show "drop_bit 8 (i32 (x * f)) = fade f x" by (simp add: fade_def drop_bit_eq_div)
qed

lemma fade_mono: "0 \<le> f \<Longrightarrow> x \<le> y \<Longrightarrow> fade f x \<le> fade f y"
  unfolding fade_def by (intro zdiv_mono1 mult_right_mono) auto

lemma fade_256 [simp]: "fade 256 x = x"
  by (simp add: fade_def)

lemma under_bounds:
  assumes "is_byte a" "is_byte d"
  shows "div255 (i32 ((255 - a) * d)) = under a d" "0 \<le> under a d" "under a d \<le> 255 - a"
proof -
  have "(255 - a) * d \<le> (255 - a) * 255" using assms by (intro mult_left_mono) auto
  then have "(255 - a) * d div 255 \<le> (255 - a) * 255 div 255" by (intro zdiv_mono1) auto
  then show "under a d \<le> 255 - a" by (simp add: under_def)
  show "div255 (i32 ((255 - a) * d)) = under a d"
    using div255_wmean(3) [of 0 "255 - a" 0 d] assms by (simp add: wmean_def under_def)
  have "0 \<le> (255 - a) * d" using assms by (intro mult_nonneg_nonneg) auto
  then show "0 \<le> under a d" by (simp add: under_def pos_imp_zdiv_nonneg_iff)
qed

lemma under_mono: "a \<le> 255 \<Longrightarrow> d \<le> d' \<Longrightarrow> under a d \<le> under a d'"
  unfolding under_def by (intro zdiv_mono1 mult_left_mono) auto

lemma blendSrcOver8888_pre_pre_channels:
  assumes "0 \<le> frac" "frac \<le> 256" "is_byte aval" "is_byte sred" "is_byte sgreen" "is_byte sblue"
  shows "blendSrcOver8888_pre_pre p frac aval sred sgreen sblue =
      (let a = fade frac aval
       in argb (a + under a (pxA p)) (fade frac sred + under a (pxR p))
            (fade frac sgreen + under a (pxG p)) (fade frac sblue + under a (pxB p)))"
proof -
  have f: "is_byte (fade frac aval)" "is_byte (fade frac sred)" "is_byte (fade frac sgreen)"
      "is_byte (fade frac sblue)"
    using assms by (auto intro: fade_bounds order_trans [OF fade_bounds(2)])
  note u = under_bounds [OF f(1) px_is_byte(1)] under_bounds [OF f(1) px_is_byte(2)]
    under_bounds [OF f(1) px_is_byte(3)] under_bounds [OF f(1) px_is_byte(4)]
  have [simp]: "i32 (255 - fade frac aval) = 255 - fade frac aval" using f by (intro i32_small) auto
  have [simp]: "i32 (fade frac x + under (fade frac aval) y) = fade frac x + under (fade frac aval) y"
    if "is_byte x" "is_byte y" for x y
    using fade_bounds [of frac x] under_bounds [OF f(1), of y] that f assms by (intro i32_small) auto
  show ?thesis
    using assms by (simp add: blendSrcOver8888_pre_pre_def Let_def px_fold fade_bounds under_bounds f px_is_byte)
qed

text \<open>The full-coverage routine is the general one at coverage 256/256.\<close>

lemma blendSrcOver8888_pre_pre_fullFrac_eq:
  assumes "is_byte aval" "is_byte sred" "is_byte sgreen" "is_byte sblue"
  shows "blendSrcOver8888_pre_pre_fullFrac p aval sred sgreen sblue =
    blendSrcOver8888_pre_pre p 256 aval sred sgreen sblue"
  using assms fade_bounds(3) [of 256]
  by (simp add: blendSrcOver8888_pre_pre_fullFrac_def blendSrcOver8888_pre_pre_def Let_def)

lemma blendSrcOver8888_pre_pre_premul:
  assumes "premul p" "0 \<le> frac" "frac \<le> 256" "is_byte aval"
    and "0 \<le> sred" "sred \<le> aval" "0 \<le> sgreen" "sgreen \<le> aval" "0 \<le> sblue" "sblue \<le> aval"
  shows "premul (blendSrcOver8888_pre_pre p frac aval sred sgreen sblue)"
proof -
  let ?a = "fade frac aval"
  have a: "is_byte ?a" using assms fade_bounds [of frac aval] by auto
  have chan: "0 \<le> fade frac s + under ?a d \<and> fade frac s + under ?a d \<le> ?a + under ?a (pxA p)"
    if "0 \<le> s" "s \<le> aval" "is_byte d" "d \<le> pxA p" for s d
    using that assms a fade_bounds(1) [of frac s] under_bounds [of ?a d] fade_mono [of frac s aval]
      under_mono [of ?a d "pxA p"] by auto
  have "is_byte (?a + under ?a (pxA p))"
    using a under_bounds [of ?a "pxA p"] px_is_byte(1) [of p] by auto
  then show ?thesis
    using assms chan [of sred "pxR p"] chan [of sgreen "pxG p"] chan [of sblue "pxB p"]
    by (simp add: blendSrcOver8888_pre_pre_channels Let_def premul_argb premul_def [of p] px_is_byte)
qed

text \<open>
  Plain source with partial coverage: correct when the two weights sum to at most 255, as they do in
  the coverage-driven blits.
\<close>

lemma blendSrc8888_pre_channels:
  assumes "0 \<le> aval" "0 \<le> raaval" "aval + raaval \<le> 255"
    and "is_byte sred" "is_byte sgreen" "is_byte sblue" and "premul p"
  shows "blendSrc8888_pre p aval raaval sred sgreen sblue =
      argb (wmean aval 255 raaval (pxA p)) (wmean aval sred raaval (pxR p))
           (wmean aval sgreen raaval (pxG p)) (wmean aval sblue raaval (pxB p))"
proof -
  let ?d = "255 * aval + pxA p * raaval"
  have d: "0 \<le> ?d" "?d \<le> 65025" "0 \<le> pxA p * raaval"
    using assms weighted_sum_le [of aval raaval 255 "pxA p"] px_is_byte(1) [of p] by (auto simp: mult.commute)
  then have i: "i32 ?d = ?d" by (intro i32_small) auto
  show ?thesis
  proof (cases "?d = 0")
    case True
    then have "aval = 0" "pxA p * raaval = 0" using d assms by linarith+
    moreover have "raaval * pxR p = 0" "raaval * pxG p = 0" "raaval * pxB p = 0"
      using \<open>pxA p * raaval = 0\<close> assms(7) px_is_byte [of p] by (auto simp: premul_def)
    moreover have "blendSrc8888_pre p aval raaval sred sgreen sblue = 0"
      using True by (simp add: blendSrc8888_pre_def Let_def px_fold i)
    ultimately show ?thesis
      by (simp add: wmean_def mult.commute [of raaval] argb_def i32_def del: mult_eq_0_iff)
  next
    case False
    have "div255 ?d = wmean aval 255 raaval (pxA p)"
      using div255_wmean(2) [of aval raaval 255 "pxA p"] assms px_is_byte(1) [of p] i
      by (simp add: mult.commute)
    with False assms show ?thesis
      by (simp add: blendSrc8888_pre_def Let_def px_fold i px_is_byte div255_wmean)
  qed
qed

lemma blendSrc8888_pre_premul:
  assumes "premul p" "0 \<le> aval" "0 \<le> raaval" "aval + raaval \<le> 255"
    and "is_byte sred" "is_byte sgreen" "is_byte sblue"
  shows "premul (blendSrc8888_pre p aval raaval sred sgreen sblue)"
  using assms
  by (auto simp: blendSrc8888_pre_channels premul_def [of p] px_is_byte div255_wmean
        intro!: premul_argb wmean_mono)

end
