(* ===== verification/Soft_Float.thy ===== *)
theory Soft_Float
  imports Pisces_Prelude
begin

text \<open>
  IEEE 754 binary floating point, for the \<^verbatim>\<open>jfloat\<close> and \<^verbatim>\<open>double\<close> expressions of the native code: every
  operation is the exact result rounded to nearest, ties to even, with gradual underflow and
  overflow to infinity. A format is its precision \<open>p\<close> and the exponents \<open>lo\<close> and \<open>hi\<close> of the last
  place of its smallest and largest finite numbers. All definitions compute.
\<close>

section \<open>Formats and rounding\<close>

text \<open>\<open>Fin s m e\<close> is \<open>m * 2 ^ e\<close> with \<open>m\<close> not negative, negated when \<open>s\<close>; zero has both signs.\<close>

datatype fp = NaN | Inf bool | Fin bool int int

record format =
  prec :: nat
  lo :: int
  hi :: int

definition F32 :: format where
  "F32 = \<lparr>prec = 24, lo = - 149, hi = 104\<rparr>"

definition F64 :: format where
  "F64 = \<lparr>prec = 53, lo = - 1074, hi = 971\<rparr>"

function bit_length :: "int \<Rightarrow> nat" where
  "bit_length n = (if n \<le> 0 then 0 else Suc (bit_length (n div 2)))"
  by pat_completeness auto
termination
  by (relation "measure nat") auto

declare bit_length.simps [simp del]

text \<open>
  \<open>round_fp F s m e st\<close> rounds \<open>m * 2 ^ e\<close>, plus a positive amount below one unit of \<open>m\<close> when \<open>st\<close>.
  Callers with \<open>st\<close> pass \<open>m\<close> with at least two bits more than the precision.
\<close>

definition round_fp :: "format \<Rightarrow> bool \<Rightarrow> int \<Rightarrow> int \<Rightarrow> bool \<Rightarrow> fp" where
  "round_fp F s m e st =
     (let e' = max (e + int (bit_length m) - int (prec F)) (lo F)
      in if e' \<le> e then
           (if hi F < e' then Inf s else Fin s (m * 2 ^ nat (e - e')) e')
         else
           (let d = nat (e' - e);
                q = m div 2 ^ d; r = m mod 2 ^ d; half = 2 ^ (d - 1);
                q' = (if half < r \<or> r = half \<and> (st \<or> odd q) then q + 1 else q);
                (m', e'') = (if q' = 2 ^ prec F then (2 ^ (prec F - 1), e' + 1) else (q', e'))
            in if hi F < e'' then Inf s else Fin s m' e''))"

definition fp_zero :: "format \<Rightarrow> bool \<Rightarrow> fp" where
  "fp_zero F s = Fin s 0 (lo F)"

definition fp_of_int :: "format \<Rightarrow> int \<Rightarrow> fp" where
  "fp_of_int F n = (if n = 0 then fp_zero F False else round_fp F (n < 0) \<bar>n\<bar> 0 False)"

section \<open>Arithmetic\<close>

fun fp_neg :: "fp \<Rightarrow> fp" where
  "fp_neg NaN = NaN"
| "fp_neg (Inf s) = Inf (\<not> s)"
| "fp_neg (Fin s m e) = Fin (\<not> s) m e"

fun fp_add :: "format \<Rightarrow> fp \<Rightarrow> fp \<Rightarrow> fp" where
  "fp_add F NaN y = NaN"
| "fp_add F x NaN = NaN"
| "fp_add F (Inf s) (Inf t) = (if s = t then Inf s else NaN)"
| "fp_add F (Inf s) (Fin t m e) = Inf s"
| "fp_add F (Fin s m e) (Inf t) = Inf t"
| "fp_add F (Fin s m e) (Fin t n d) =
     (let k = min e d;
          a = m * 2 ^ nat (e - k); b = n * 2 ^ nat (d - k);
          v = (if s then - a else a) + (if t then - b else b)
      in if v = 0 then fp_zero F (s \<and> t)
         else round_fp F (v < 0) \<bar>v\<bar> k False)"

definition fp_sub :: "format \<Rightarrow> fp \<Rightarrow> fp \<Rightarrow> fp" where
  "fp_sub F x y = fp_add F x (fp_neg y)"

fun fp_mul :: "format \<Rightarrow> fp \<Rightarrow> fp \<Rightarrow> fp" where
  "fp_mul F NaN y = NaN"
| "fp_mul F x NaN = NaN"
| "fp_mul F (Inf s) (Inf t) = Inf (s \<noteq> t)"
| "fp_mul F (Inf s) (Fin t m e) = (if m = 0 then NaN else Inf (s \<noteq> t))"
| "fp_mul F (Fin s m e) (Inf t) = (if m = 0 then NaN else Inf (s \<noteq> t))"
| "fp_mul F (Fin s m e) (Fin t n d) =
     (if m = 0 \<or> n = 0 then fp_zero F (s \<noteq> t) else round_fp F (s \<noteq> t) (m * n) (e + d) False)"

fun fp_div :: "format \<Rightarrow> fp \<Rightarrow> fp \<Rightarrow> fp" where
  "fp_div F NaN y = NaN"
| "fp_div F x NaN = NaN"
| "fp_div F (Inf s) (Inf t) = NaN"
| "fp_div F (Inf s) (Fin t m e) = Inf (s \<noteq> t)"
| "fp_div F (Fin s m e) (Inf t) = fp_zero F (s \<noteq> t)"
| "fp_div F (Fin s m e) (Fin t n d) =
     (if n = 0 then (if m = 0 then NaN else Inf (s \<noteq> t))
      else if m = 0 then fp_zero F (s \<noteq> t)
      else
        (let k = prec F + 2 + bit_length n;
             q = m * 2 ^ k div n; r = m * 2 ^ k mod n
         in round_fp F (s \<noteq> t) q (e - d - int k) (r \<noteq> 0)))"

text \<open>Integer square root, for \<^verbatim>\<open>sqrt\<close>.\<close>

function isqrt :: "int \<Rightarrow> int" where
  "isqrt n = (if n \<le> 0 then 0
     else let r = 2 * isqrt (n div 4) in if (r + 1) * (r + 1) \<le> n then r + 1 else r)"
  by pat_completeness auto
termination
  by (relation "measure nat") auto

declare isqrt.simps [simp del]

fun fp_sqrt :: "format \<Rightarrow> fp \<Rightarrow> fp" where
  "fp_sqrt F NaN = NaN"
| "fp_sqrt F (Inf s) = (if s then NaN else Inf s)"
| "fp_sqrt F (Fin s m e) =
     (if m = 0 then Fin s m e
      else if s then NaN
      else
        (let k = 2 * (prec F + 3) + (if even e then 0 else 1);
             n = m * 2 ^ k; r = isqrt n
         in round_fp F False r ((e - int k) div 2) (r * r \<noteq> n)))"

text \<open>Comparison; a NaN compares less to nothing.\<close>

fun fp_less :: "fp \<Rightarrow> fp \<Rightarrow> bool" where
  "fp_less NaN y = False"
| "fp_less x NaN = False"
| "fp_less (Inf s) (Inf t) = (s \<and> \<not> t)"
| "fp_less (Inf s) (Fin t m e) = s"
| "fp_less (Fin s m e) (Inf t) = (\<not> t)"
| "fp_less (Fin s m e) (Fin t n d) =
     (let k = min e d;
          a = m * 2 ^ nat (e - k); b = n * 2 ^ nat (d - k)
      in (if s then - a else a) < (if t then - b else b))"

text \<open>Widening and narrowing between formats.\<close>

fun fp_convert :: "format \<Rightarrow> fp \<Rightarrow> fp" where
  "fp_convert F NaN = NaN"
| "fp_convert F (Inf s) = Inf s"
| "fp_convert F (Fin s m e) = (if m = 0 then fp_zero F s else round_fp F s m e False)"

text \<open>
  \<^verbatim>\<open>(jint)x\<close> truncates. For a value that does not fit, C leaves the result open; the conversion
  instruction of the x86 targets yields the smallest \<^verbatim>\<open>jint\<close>.
\<close>

fun fp_trunc :: "fp \<Rightarrow> int option" where
  "fp_trunc NaN = None"
| "fp_trunc (Inf s) = None"
| "fp_trunc (Fin s m e) =
     (let a = (if 0 \<le> e then m * 2 ^ nat e else m div 2 ^ nat (- e))
      in Some (if s then - a else a))"

definition fp_to_jint :: "fp \<Rightarrow> jint" where
  "fp_to_jint x =
     (case fp_trunc x of
        Some n \<Rightarrow> if is_jint n then n else - (2 ^ 31)
      | None \<Rightarrow> - (2 ^ 31))"

lemma is_jint_fp_to_jint [simp, intro]: "is_jint (fp_to_jint x)"
  by (auto simp: fp_to_jint_def is_jint_def split: option.splits)

definition fp_abs :: "fp \<Rightarrow> fp" where
  "fp_abs x = (case x of Fin s m e \<Rightarrow> Fin False m e | Inf s \<Rightarrow> Inf False | NaN \<Rightarrow> NaN)"

text \<open>\<^verbatim>\<open>ceil\<close>, which is exact in the format of its argument; a result between minus one and zero is minus zero.\<close>

fun fp_ceil :: "fp \<Rightarrow> fp" where
  "fp_ceil NaN = NaN"
| "fp_ceil (Inf s) = Inf s"
| "fp_ceil (Fin s m e) =
     (if 0 \<le> e then Fin s m e
      else let d = 2 ^ nat (- e); q = (if s then m div d else (m + d - 1) div d) in Fin s q 0)"

text \<open>A decimal literal, \<open>n\<close> over a power of ten, in a format.\<close>

definition fp_literal :: "format \<Rightarrow> int \<Rightarrow> nat \<Rightarrow> fp" where
  "fp_literal F n k = (if n = 0 then fp_zero F False else fp_div F (Fin False n 0) (Fin False (10 ^ k) 0))"

definition fp_eq :: "fp \<Rightarrow> fp \<Rightarrow> bool" where
  "fp_eq x y \<longleftrightarrow> x \<noteq> NaN \<and> y \<noteq> NaN \<and> \<not> fp_less x y \<and> \<not> fp_less y x"

section \<open>The operations of \<^verbatim>\<open>jfloat\<close>\<close>

type_synonym jfloat = fp

abbreviation fadd :: "jfloat \<Rightarrow> jfloat \<Rightarrow> jfloat" where "fadd \<equiv> fp_add F32"
abbreviation fsub :: "jfloat \<Rightarrow> jfloat \<Rightarrow> jfloat" where "fsub \<equiv> fp_sub F32"
abbreviation fmul :: "jfloat \<Rightarrow> jfloat \<Rightarrow> jfloat" where "fmul \<equiv> fp_mul F32"
abbreviation fdiv :: "jfloat \<Rightarrow> jfloat \<Rightarrow> jfloat" where "fdiv \<equiv> fp_div F32"
abbreviation fint :: "jint \<Rightarrow> jfloat" where "fint \<equiv> fp_of_int F32"

section \<open>Exact operations\<close>

lemma bit_length_le: "0 \<le> m \<Longrightarrow> m < 2 ^ p \<Longrightarrow> bit_length m \<le> p"
proof (induction p arbitrary: m)
  case 0
  then show ?case by (simp add: bit_length.simps)
next
  case (Suc p)
  then show ?case by (subst bit_length.simps) simp
qed

lemma bit_length_less: "0 \<le> m \<Longrightarrow> m < 2 ^ bit_length m"
proof (induction m rule: bit_length.induct)
  case (1 n)
  show ?case
  proof (cases "n = 0")
    case False
    then have "n div 2 < 2 ^ bit_length (n div 2)" using 1 by simp
    then show ?thesis using 1(2) False by (subst bit_length.simps) auto
  qed (simp add: bit_length.simps)
qed

lemma bit_length_pow: "0 < m \<Longrightarrow> bit_length (m * 2 ^ j) = bit_length m + j"
proof (induction j)
  case (Suc j)
  have "0 < m * 2 ^ j" using Suc.prems by simp
  then have "bit_length (m * 2 ^ j * 2) = Suc (bit_length (m * 2 ^ j))" by (subst bit_length.simps) (simp add: not_le)
  then show ?case using Suc by (simp add: mult.assoc mult.commute [of 2])
qed simp

text \<open>A number of at most \<open>prec\<close> bits is rounded to itself, however it is written.\<close>

definition exact_exp :: "format \<Rightarrow> int \<Rightarrow> int \<Rightarrow> int" where
  "exact_exp F m e = max (e + int (bit_length m) - int (prec F)) (lo F)"

lemma round_scaled:
  assumes "0 < m" "m < 2 ^ prec F" "lo F \<le> e" "exact_exp F m e \<le> hi F"
  shows "round_fp F s (m * 2 ^ j) (e - int j) False = Fin s (m * 2 ^ nat (e - exact_exp F m e)) (exact_exp F m e)"
    and "exact_exp F m e \<le> e"
proof -
  let ?e' = "exact_exp F m e"
  have bl: "bit_length m \<le> prec F" using assms by (intro bit_length_le) auto
  show le: "?e' \<le> e" using bl assms(3) by (simp add: exact_exp_def)
  have e': "max (e - int j + int (bit_length (m * 2 ^ j)) - int (prec F)) (lo F) = ?e'"
    using assms(1) by (simp add: exact_exp_def bit_length_pow)
  show "round_fp F s (m * 2 ^ j) (e - int j) False = Fin s (m * 2 ^ nat (e - ?e')) ?e'"
  proof (cases "?e' \<le> e - int j")
    case True
    have "nat (e - ?e') = j + nat (e - int j - ?e')" using True by simp
    then have "m * 2 ^ j * 2 ^ nat (e - int j - ?e') = m * 2 ^ nat (e - ?e')" by (simp add: power_add)
    then show ?thesis using True assms(4) by (simp add: round_fp_def Let_def e')
  next
    case False
    define d where "d = nat (?e' - (e - int j))"
    have d: "0 < d" "d \<le> j" "j - d = nat (e - ?e')" using False le by (simp_all add: d_def nat_diff_distrib)
    have "m * 2 ^ j = m * 2 ^ nat (e - ?e') * 2 ^ d" using d by (simp add: power_add [symmetric] flip: d(3))
    then have q: "m * 2 ^ j div 2 ^ d = m * 2 ^ nat (e - ?e')" "m * 2 ^ j mod 2 ^ d = 0" by (simp_all only: nonzero_mult_div_cancel_right mod_mult_self2_is_0) simp
    have "m * 2 ^ nat (e - ?e') < 2 ^ prec F"
    proof -
      have "e - ?e' \<le> int (prec F) - int (bit_length m)" by (simp add: exact_exp_def)
      then have "bit_length m + nat (e - ?e') \<le> prec F" using bl by simp
      then have "2 ^ (bit_length m + nat (e - ?e')) \<le> (2 :: int) ^ prec F" by (rule power_increasing) simp
      moreover have "m * 2 ^ nat (e - ?e') < 2 ^ bit_length m * 2 ^ nat (e - ?e')" using bit_length_less [of m] assms(1) by simp
      ultimately show ?thesis unfolding power_add by linarith
    qed
    then show ?thesis using False assms(4) d(1) by (simp add: round_fp_def Let_def e' d_def [symmetric] q)
  qed
qed

end
