(* ===== verification/Pisces_Transform.thy ===== *)
theory Pisces_Transform
  imports Soft_Float
begin

text \<open>
  The 16.16 fixed-point affine transforms of \<^verbatim>\<open>PiscesTransform.c\<close>: a transform maps \<open>(x, y)\<close> to
  \<open>(m00 x + m01 y + m02, m10 x + m11 y + m12)\<close>, with 65536 standing for 1.
\<close>

record transform6 =
  m00 :: jint
  m01 :: jint
  m10 :: jint
  m11 :: jint
  m02 :: jint
  m12 :: jint

definition pisces_transform_assign :: "transform6 \<Rightarrow> transform6 \<Rightarrow> transform6" where
  "pisces_transform_assign transformD transformS = transformS"

text \<open>\<^verbatim>\<open>65536.0f\<close>\<close>

definition f65536 :: jfloat where
  "f65536 = fint 65536"

definition pisces_transform_invert :: "transform6 \<Rightarrow> transform6" where
  "pisces_transform_invert t =
     (let fm00 = fdiv (fint (m00 t)) f65536;
          fm01 = fdiv (fint (m01 t)) f65536;
          fm02 = fdiv (fint (m02 t)) f65536;
          fm10 = fdiv (fint (m10 t)) f65536;
          fm11 = fdiv (fint (m11 t)) f65536;
          fm12 = fdiv (fint (m12 t)) f65536;
          fdet = fsub (fmul fm00 fm11) (fmul fm01 fm10);
          fa00 = fdiv fm11 fdet;
          fa01 = fdiv (fp_neg fm01) fdet;
          fa10 = fdiv (fp_neg fm10) fdet;
          fa11 = fdiv fm00 fdet;
          fa02 = fdiv (fsub (fmul fm01 fm12) (fmul fm02 fm11)) fdet;
          fa12 = fdiv (fsub (fmul fm02 fm10) (fmul fm00 fm12)) fdet
      in \<lparr>m00 = fp_to_jint (fmul fa00 f65536), m01 = fp_to_jint (fmul fa01 f65536),
          m10 = fp_to_jint (fmul fa10 f65536), m11 = fp_to_jint (fmul fa11 f65536),
          m02 = fp_to_jint (fmul fa02 f65536), m12 = fp_to_jint (fmul fa12 f65536)\<rparr>)"

definition pisces_transform_multiply :: "transform6 \<Rightarrow> transform6 \<Rightarrow> transform6" where
  "pisces_transform_multiply d s =
     (let m00' = drop_bit 16 (i64 (m00 d * m00 s + m01 d * m10 s));
          m01' = drop_bit 16 (i64 (m00 d * m01 s + m01 d * m11 s));
          m10' = drop_bit 16 (i64 (m10 d * m00 s + m11 d * m10 s));
          m11' = drop_bit 16 (i64 (m10 d * m01 s + m11 d * m11 s));
          m02' = drop_bit 16 (i64 (push_bit 16 (m02 d) + m00 d * m02 s + m01 d * m12 s));
          m12' = drop_bit 16 (i64 (push_bit 16 (m12 d) + m10 d * m02 s + m11 d * m12 s))
      in \<lparr>m00 = i32 m00', m01 = i32 m01', m10 = i32 m10', m11 = i32 m11',
          m02 = i32 m02', m12 = i32 m12'\<rparr>)"

text \<open>The arguments are pointers: \<^const>\<open>None\<close> is \<^verbatim>\<open>NULL\<close>, and one pointer passed twice is equal content.\<close>

definition pisces_transform_equals :: "transform6 option \<Rightarrow> transform6 option \<Rightarrow> bool" where
  "pisces_transform_equals tr1 tr2 =
     (case (tr1, tr2) of
        (None, None) \<Rightarrow> True
      | (Some a, Some b) \<Rightarrow>
          m00 a = m00 b \<and> m01 a = m01 b \<and> m02 a = m02 b \<and>
          m10 a = m10 b \<and> m11 a = m11 b \<and> m12 a = m12 b
      | _ \<Rightarrow> False)"

section \<open>Properties\<close>

definition identity6 :: transform6 where
  "identity6 = \<lparr>m00 = 65536, m01 = 0, m10 = 0, m11 = 65536, m02 = 0, m12 = 0\<rparr>"

definition wf6 :: "transform6 \<Rightarrow> bool" where
  "wf6 t \<longleftrightarrow> is_jint (m00 t) \<and> is_jint (m01 t) \<and> is_jint (m10 t) \<and> is_jint (m11 t) \<and>
     is_jint (m02 t) \<and> is_jint (m12 t)"

lemma scale_unscale [simp]: "is_jint x \<Longrightarrow> drop_bit 16 (i64 (65536 * x)) = x"
  "is_jint x \<Longrightarrow> drop_bit 16 (i64 (x * 65536)) = x"
  by (simp_all add: is_jint_def i64_small drop_bit_eq_div)

lemma multiply_identity_right: "wf6 t \<Longrightarrow> pisces_transform_multiply t identity6 = t"
  by (simp add: pisces_transform_multiply_def identity6_def wf6_def i32_id push_bit_eq_mult)

lemma multiply_identity_left: "wf6 t \<Longrightarrow> pisces_transform_multiply identity6 t = t"
  by (simp add: pisces_transform_multiply_def identity6_def wf6_def i32_id)

lemma wf6_multiply: "wf6 (pisces_transform_multiply d s)"
  by (simp add: pisces_transform_multiply_def wf6_def Let_def)

lemma wf6_invert: "wf6 (pisces_transform_invert t)"
  by (simp add: pisces_transform_invert_def wf6_def Let_def)

lemma invert_identity: "pisces_transform_invert identity6 = identity6"
  by code_simp

lemma transform_equals_iff: "pisces_transform_equals a b \<longleftrightarrow> a = b"
  by (auto simp: pisces_transform_equals_def split: option.splits)

end
