(* ===== verification/Pisces_Renderer.thy ===== *)
theory Pisces_Renderer
  imports Pisces_Blend Pisces_Transform
begin

text \<open>
  The renderer state of \<^verbatim>\<open>PiscesRenderer.h\<close> and the operations of \<^verbatim>\<open>PiscesRenderer.inl\<close> that change it:
  the setters mark parts of the state stale in \<^verbatim>\<open>_rendererState\<close>, and \<^verbatim>\<open>VALIDATE_BLITTING\<close> recomputes
  what is stale before anything is drawn.

  Function pointers are values of the enumerations below (\<^const>\<open>None\<close> is \<^verbatim>\<open>NULL\<close>); what they run is
  defined with the blitters and paint generators. Fields no code reads (\<^verbatim>\<open>_lgradient_color_888\<close>,
  \<^verbatim>\<open>_colorAlphaMap\<close>, \<^verbatim>\<open>_paintAlphaMap\<close>, \<^verbatim>\<open>_antialiasingOn\<close>, \<^verbatim>\<open>_texture_renderMode\<close>, the byte textures) are left out.
  The surface behind the pointer \<^verbatim>\<open>_surface\<close> is an argument of the operations that read it.
\<close>

section \<open>Constants\<close>

abbreviation (input) COMPOSITE_CLEAR :: jint where "COMPOSITE_CLEAR \<equiv> 0"
abbreviation (input) COMPOSITE_SRC :: jint where "COMPOSITE_SRC \<equiv> 1"
abbreviation (input) COMPOSITE_SRC_OVER :: jint where "COMPOSITE_SRC_OVER \<equiv> 2"
abbreviation (input) TYPE_INT_ARGB_PRE :: jint where "TYPE_INT_ARGB_PRE \<equiv> 1"
abbreviation (input) IMAGE_MODE_NORMAL :: jint where "IMAGE_MODE_NORMAL \<equiv> 1"
abbreviation (input) IMAGE_FRAC_EDGE_KEEP :: jint where "IMAGE_FRAC_EDGE_KEEP \<equiv> 0"
abbreviation (input) IMAGE_FRAC_EDGE_PAD :: jint where "IMAGE_FRAC_EDGE_PAD \<equiv> 1"
abbreviation (input) IMAGE_FRAC_EDGE_TRIM :: jint where "IMAGE_FRAC_EDGE_TRIM \<equiv> 2"

abbreviation (input) PAINT_FLAT_COLOR :: jint where "PAINT_FLAT_COLOR \<equiv> 0"
abbreviation (input) PAINT_LINEAR_GRADIENT :: jint where "PAINT_LINEAR_GRADIENT \<equiv> 1"
abbreviation (input) PAINT_RADIAL_GRADIENT :: jint where "PAINT_RADIAL_GRADIENT \<equiv> 2"
abbreviation (input) PAINT_TEXTURE8888 :: jint where "PAINT_TEXTURE8888 \<equiv> 4"
abbreviation (input) PAINT_TEXTURE8888_MULTIPLY :: jint where "PAINT_TEXTURE8888_MULTIPLY \<equiv> 5"

abbreviation (input) CYCLE_NONE :: jint where "CYCLE_NONE \<equiv> 0"
abbreviation (input) CYCLE_REPEAT :: jint where "CYCLE_REPEAT \<equiv> 1"
abbreviation (input) CYCLE_REFLECT :: jint where "CYCLE_REFLECT \<equiv> 2"

abbreviation (input) NO_MASK :: jint where "NO_MASK \<equiv> 0"
abbreviation (input) ALPHA_MASK :: jint where "ALPHA_MASK \<equiv> 1"
abbreviation (input) LCD_ALPHA_MASK :: jint where "LCD_ALPHA_MASK \<equiv> 2"

abbreviation (input) TEXTURE_TRANSFORM_IDENTITY :: jint where "TEXTURE_TRANSFORM_IDENTITY \<equiv> 1"
abbreviation (input) TEXTURE_TRANSFORM_TRANSLATE :: jint where "TEXTURE_TRANSFORM_TRANSLATE \<equiv> 2"
abbreviation (input) TEXTURE_TRANSFORM_SCALE_TRANSLATE :: jint where "TEXTURE_TRANSFORM_SCALE_TRANSLATE \<equiv> 3"
abbreviation (input) TEXTURE_TRANSFORM_GENERIC :: jint where "TEXTURE_TRANSFORM_GENERIC \<equiv> 4"

abbreviation (input) LG_GRADIENT_MAP_SIZE :: nat where "LG_GRADIENT_MAP_SIZE \<equiv> 8"
abbreviation (input) NUM_ALPHA_ROWS :: jint where "NUM_ALPHA_ROWS \<equiv> 8"

text \<open>
  The bits of \<^verbatim>\<open>_rendererState\<close>. The composite masks are the disjunctions of the header, written out.
\<close>

abbreviation (input) INVALID_COLOR_ALPHA_MAP :: jint where "INVALID_COLOR_ALPHA_MAP \<equiv> 1"
abbreviation (input) INVALID_PAINT_ALPHA_MAP :: jint where "INVALID_PAINT_ALPHA_MAP \<equiv> 2"
abbreviation (input) INVALID_INTERNAL_COLOR :: jint where "INVALID_INTERNAL_COLOR \<equiv> 8"
abbreviation (input) INVALID_RENDERER_SURFACE :: jint where "INVALID_RENDERER_SURFACE \<equiv> 16"
abbreviation (input) INVALID_COMPOSITE_DEPENDED_ROUTINES :: jint where "INVALID_COMPOSITE_DEPENDED_ROUTINES \<equiv> 32"
abbreviation (input) INVALID_PAINT_DEPENDED_ROUTINES :: jint where "INVALID_PAINT_DEPENDED_ROUTINES \<equiv> 64"
abbreviation (input) INVALID_MASK_DEPENDED_ROUTINES :: jint where "INVALID_MASK_DEPENDED_ROUTINES \<equiv> 128"

definition INVALID_BLITTING_MASK :: jint where
  "INVALID_BLITTING_MASK = INVALID_INTERNAL_COLOR OR INVALID_RENDERER_SURFACE OR
     INVALID_COMPOSITE_DEPENDED_ROUTINES OR INVALID_PAINT_DEPENDED_ROUTINES OR INVALID_MASK_DEPENDED_ROUTINES"

definition INVALID_ALL :: jint where
  "INVALID_ALL = INVALID_COLOR_ALPHA_MAP OR INVALID_PAINT_ALPHA_MAP OR INVALID_BLITTING_MASK"

section \<open>State\<close>

record surface =
  s_width :: jint
  s_height :: jint
  s_offset :: jint
  s_scanlineStride :: jint
  s_pixelStride :: jint
  s_imageType :: jint
  s_data :: "jint list"

datatype blit_fn =
    F_blitSrcOver8888_pre | F_blitPTSrcOver8888_pre | F_blitSrc8888_pre | F_blitPTSrc8888_pre
  | F_blitSrcOverMask8888_pre | F_blitPTSrcOverMask8888_pre | F_blitSrcMask8888_pre | F_blitPTSrcMask8888_pre
  | F_blitSrcOverLCDMask8888_pre

datatype emit_fn =
    F_emitLineSource8888_pre | F_emitLineSourceOver8888_pre
  | F_emitLinePTSource8888_pre | F_emitLinePTSourceOver8888_pre

datatype gen_fn =
    F_genLinearGradientPaint | F_genRadialGradientPaint | F_genTexturePaint | F_genTexturePaintMultiply

datatype clear_fn = F_clearRect8888_any

text \<open>The routines that depend on the surface type only, \<^verbatim>\<open>_bl_SourceOverMask\<close> to \<^verbatim>\<open>_el_PT_SourceOver\<close>.\<close>

record surface_routines =
  sr_bl_SourceOverMask :: "blit_fn option"
  sr_bl_PT_SourceOverMask :: "blit_fn option"
  sr_bl_SourceMask :: "blit_fn option"
  sr_bl_PT_SourceMask :: "blit_fn option"
  sr_bl_SourceOverLCDMask :: "blit_fn option"
  sr_bl_PT_SourceOverLCDMask :: "blit_fn option"
  sr_bl_SourceLCDMask :: "blit_fn option"
  sr_bl_PT_SourceLCDMask :: "blit_fn option"
  sr_bl_SourceOverNoMask :: "blit_fn option"
  sr_bl_PT_SourceOverNoMask :: "blit_fn option"
  sr_bl_SourceNoMask :: "blit_fn option"
  sr_bl_PT_SourceNoMask :: "blit_fn option"
  sr_el_Source :: "emit_fn option"
  sr_el_SourceOver :: "emit_fn option"
  sr_el_PT_Source :: "emit_fn option"
  sr_el_PT_SourceOver :: "emit_fn option"
  sr_bl_Clear :: "blit_fn option"
  sr_bl_PT_Clear :: "blit_fn option"
  sr_clearRect :: "clear_fn option"

text \<open>Gradient geometry, \<^verbatim>\<open>_lg_mx\<close> to \<^verbatim>\<open>_rg_a00a10\<close>.\<close>

record gradient_geometry =
  lg_mx :: jfloat
  lg_my :: jfloat
  lg_b :: jfloat
  rg_a00 :: jfloat
  rg_a01 :: jfloat
  rg_a02 :: jfloat
  rg_a10 :: jfloat
  rg_a11 :: jfloat
  rg_a12 :: jfloat
  rg_cx :: jfloat
  rg_cy :: jfloat
  rg_fx :: jfloat
  rg_fy :: jfloat
  rg_r :: jfloat
  rg_rsq :: jfloat
  rg_a00a00 :: jfloat
  rg_a10a10 :: jfloat
  rg_a00a10 :: jfloat

text \<open>The texture paint, \<^verbatim>\<open>_texture_intData\<close> to \<^verbatim>\<open>_texture_free\<close>.\<close>

record texture =
  tx_intData :: "jint list"
  tx_hasAlpha :: bool
  tx_imageWidth :: jint
  tx_imageHeight :: jint
  tx_stride :: jint
  tx_txMin :: jint
  tx_tyMin :: jint
  tx_txMax :: jint
  tx_tyMax :: jint
  tx_repeat :: bool
  tx_m00 :: jlong
  tx_m01 :: jlong
  tx_m02 :: jlong
  tx_m10 :: jlong
  tx_m11 :: jlong
  tx_m12 :: jlong
  tx_interpolate :: bool
  tx_transformType :: jint
  tx_free :: bool

record renderer =
  r_paintMode :: jint
  r_prevPaintMode :: jint
  r_ured :: jint
  r_ugreen :: jint
  r_ublue :: jint
  r_ualpha :: jint
  r_cred :: jint
  r_cgreen :: jint
  r_cblue :: jint
  r_calpha :: jint
  r_compositeRule :: jint
  r_data :: "jint list"
  r_width :: jint
  r_height :: jint
  r_imageOffset :: jint
  r_imageScanlineStride :: jint
  r_imagePixelStride :: jint
  r_imageType :: jint
  r_routines :: surface_routines
  r_bl_SourceOver :: "blit_fn option"
  r_bl_PT_SourceOver :: "blit_fn option"
  r_bl_Source :: "blit_fn option"
  r_bl_PT_Source :: "blit_fn option"
  r_bl :: "blit_fn option"
  r_bl_PT :: "blit_fn option"
  r_el :: "emit_fn option"
  r_el_PT :: "emit_fn option"
  r_emitRows :: "blit_fn option"
  r_emitLine :: "emit_fn option"
  r_genPaint :: "gen_fn option"
  r_rowNum :: jint
  r_alphaWidth :: jint
  r_minTouched :: jint
  r_maxTouched :: jint
  r_currX :: jint
  r_currY :: jint
  r_currImageOffset :: jint
  r_alphaMap :: "jbyte list"
  r_rowAAInt :: "jint list"
  r_rectX :: jint
  r_rectY :: jint
  r_mask_free :: bool
  r_maskType :: jint
  r_mask_byteData :: "jbyte list"
  r_maskOffset :: jint
  r_mask_width :: jint
  r_mask_height :: jint
  r_paint :: "jint list"
  r_paint_transform :: transform6
  r_gradient_transform :: transform6
  r_gradient_inverse_transform :: transform6
  r_gradient :: gradient_geometry
  r_gradient_colors :: "jint list"
  r_gradient_cycleMethod :: jint
  r_texture :: texture
  r_clip_bbMinX :: jint
  r_clip_bbMinY :: jint
  r_clip_bbMaxX :: jint
  r_clip_bbMaxY :: jint
  r_el_lfrac :: jint
  r_el_rfrac :: jint
  r_rendererState :: jint

section \<open>Setters\<close>

definition set_state :: "jint \<Rightarrow> renderer \<Rightarrow> renderer" where
  "set_state bits rdr = rdr\<lparr>r_rendererState := r_rendererState rdr OR bits\<rparr>"

definition clear_state :: "jint \<Rightarrow> renderer \<Rightarrow> renderer" where
  "clear_state bits rdr = rdr\<lparr>r_rendererState := r_rendererState rdr AND NOT bits\<rparr>"

text \<open>\<^verbatim>\<open>INVALIDATE_RENDERER_SURFACE\<close>\<close>

definition invalidate_renderer_surface :: "renderer \<Rightarrow> renderer" where
  "invalidate_renderer_surface rdr = set_state INVALID_RENDERER_SURFACE rdr"

definition renderer_setClip :: "renderer \<Rightarrow> jint \<Rightarrow> jint \<Rightarrow> jint \<Rightarrow> jint \<Rightarrow> renderer" where
  "renderer_setClip rdr minX minY width height =
     rdr\<lparr>r_clip_bbMinX := minX, r_clip_bbMinY := minY,
         r_clip_bbMaxX := i32 (minX + width - 1), r_clip_bbMaxY := i32 (minY + height - 1)\<rparr>"

text \<open>A freed or dropped texture buffer is \<^verbatim>\<open>NULL\<close>, the empty list.\<close>

definition setPaintMode :: "renderer \<Rightarrow> jint \<Rightarrow> renderer" where
  "setPaintMode rdr newPaintMode =
     (if r_paintMode rdr \<noteq> newPaintMode then
        (set_state INVALID_PAINT_DEPENDED_ROUTINES
          (rdr\<lparr>r_texture := (r_texture rdr)\<lparr>tx_intData := []\<rparr>\<rparr>))
          \<lparr>r_prevPaintMode := r_paintMode rdr, r_paintMode := newPaintMode\<rparr>
      else rdr)"

definition renderer_setColor :: "renderer \<Rightarrow> jint \<Rightarrow> jint \<Rightarrow> jint \<Rightarrow> jint \<Rightarrow> renderer" where
  "renderer_setColor rdr red green blue alpha =
     (let rdr1 =
        (if r_ured rdr \<noteq> red \<or> r_ugreen rdr \<noteq> green \<or> r_ublue rdr \<noteq> blue \<or> r_ualpha rdr \<noteq> alpha then
           (let rdr2 = set_state INVALID_INTERNAL_COLOR rdr;
                rdr3 = (if r_ualpha rdr \<noteq> alpha
                        then set_state (INVALID_COLOR_ALPHA_MAP OR INVALID_PAINT_ALPHA_MAP) rdr2 else rdr2)
            in rdr3\<lparr>r_ured := red, r_ugreen := green, r_ublue := blue, r_ualpha := alpha\<rparr>)
         else rdr)
      in setPaintMode rdr1 PAINT_FLAT_COLOR)"

definition renderer_setCompositeRule :: "renderer \<Rightarrow> jint \<Rightarrow> renderer" where
  "renderer_setCompositeRule rdr compositeRule =
     (if r_compositeRule rdr \<noteq> compositeRule then
        (let rdr1 = set_state (INVALID_INTERNAL_COLOR OR INVALID_COMPOSITE_DEPENDED_ROUTINES) rdr;
             rdr2 =
               (if compositeRule = COMPOSITE_SRC_OVER \<or>
                   (compositeRule = COMPOSITE_CLEAR \<or> compositeRule = COMPOSITE_SRC) \<and>
                   r_imageType rdr = TYPE_INT_ARGB_PRE
                then set_state (INVALID_COLOR_ALPHA_MAP OR INVALID_PAINT_ALPHA_MAP) rdr1 else rdr1)
         in rdr2\<lparr>r_compositeRule := compositeRule\<rparr>)
      else rdr)"

definition renderer_setMask :: "renderer \<Rightarrow> jint \<Rightarrow> jbyte list \<Rightarrow> jint \<Rightarrow> jint \<Rightarrow> bool \<Rightarrow> renderer" where
  "renderer_setMask rdr maskType data width height freeData =
     set_state (INVALID_BLITTING_MASK OR INVALID_MASK_DEPENDED_ROUTINES)
       (rdr\<lparr>r_mask_free := freeData, r_maskType := maskType, r_mask_byteData := data,
           r_mask_width := width, r_mask_height := height\<rparr>)"

definition renderer_removeMask :: "renderer \<Rightarrow> renderer" where
  "renderer_removeMask rdr =
     set_state (INVALID_BLITTING_MASK OR INVALID_MASK_DEPENDED_ROUTINES)
       (rdr\<lparr>r_maskType := NO_MASK, r_mask_byteData := []\<rparr>)"

text \<open>
  The colour table holds \<^verbatim>\<open>GRADIENT_MAP_SIZE\<close> entries; copying from a shorter buffer faults.
\<close>

abbreviation (input) GRADIENT_MAP_SIZE :: nat where "GRADIENT_MAP_SIZE \<equiv> 256"

definition copy_gradient_colors :: "jint list \<Rightarrow> renderer \<Rightarrow> renderer option" where
  "copy_gradient_colors colors rdr =
     (if GRADIENT_MAP_SIZE \<le> length colors
      then Some (rdr\<lparr>r_gradient_colors := take GRADIENT_MAP_SIZE colors\<rparr>) else None)"

definition linear_geometry :: "jint \<Rightarrow> jint \<Rightarrow> jint \<Rightarrow> jint \<Rightarrow> transform6 \<Rightarrow> gradient_geometry \<Rightarrow> gradient_geometry" where
  "linear_geometry x0 y0 x1 y1 gi g =
     (let a00 = fint (m00 gi);
          a01 = fint (m01 gi);
          a02 = fdiv (fint (m02 gi)) f65536;
          a10 = fint (m10 gi);
          a11 = fint (m11 gi);
          a12 = fdiv (fint (m12 gi)) f65536;
          fx0 = fdiv (fint x0) f65536;
          fx1 = fdiv (fint x1) f65536;
          fy0 = fdiv (fint y0) f65536;
          fy1 = fdiv (fint y1) f65536;
          fdx = fsub fx1 fx0;
          fdy = fsub fy1 fy0;
          flensq = fadd (fmul fdx fdx) (fmul fdy fdy);
          t = fadd (fmul fdx fx0) (fmul fdy fy0)
      in g\<lparr>lg_mx := fdiv (fadd (fmul a00 fdx) (fmul a10 fdy)) flensq,
           lg_my := fdiv (fadd (fmul a01 fdx) (fmul a11 fdy)) flensq,
           lg_b := fdiv (fmul f65536 (fsub (fadd (fmul a02 fdx) (fmul a12 fdy)) t)) flensq\<rparr>)"

definition renderer_setLinearGradient ::
    "renderer \<Rightarrow> jint \<Rightarrow> jint \<Rightarrow> jint \<Rightarrow> jint \<Rightarrow> jint list \<Rightarrow> transform6 \<Rightarrow> renderer option" where
  "renderer_setLinearGradient rdr x0 y0 x1 y1 colors transform =
     (let gt = pisces_transform_assign (r_gradient_transform rdr) transform;
          gi = pisces_transform_invert (pisces_transform_assign (r_gradient_inverse_transform rdr) transform);
          rdr1 = rdr\<lparr>r_gradient_transform := gt, r_gradient_inverse_transform := gi,
                     r_gradient := linear_geometry x0 y0 x1 y1 gi (r_gradient rdr)\<rparr>
      in copy_gradient_colors colors (setPaintMode rdr1 PAINT_LINEAR_GRADIENT))"

text \<open>\<^verbatim>\<open>0.94f\<close> and \<^verbatim>\<open>0.97f\<close>. \<^verbatim>\<open>PISCESsqrt\<close> is the \<^verbatim>\<open>double\<close> square root, rounded back to \<^verbatim>\<open>jfloat\<close>.\<close>

definition f0_94 :: jfloat where
  "f0_94 = Fin False 15770583 (- 24)"

definition f0_97 :: jfloat where
  "f0_97 = Fin False 16273900 (- 24)"

definition fsqrt :: "jfloat \<Rightarrow> jfloat" where
  "fsqrt x = fp_convert F32 (fp_sqrt F64 (fp_convert F64 x))"

definition radial_geometry ::
    "jint \<Rightarrow> jint \<Rightarrow> jint \<Rightarrow> jint \<Rightarrow> jint \<Rightarrow> transform6 \<Rightarrow> gradient_geometry \<Rightarrow> gradient_geometry" where
  "radial_geometry cx cy fx fy radius gi g =
     (let a00 = fdiv (fint (m00 gi)) f65536;
          a01 = fdiv (fint (m01 gi)) f65536;
          a02 = fdiv (fint (m02 gi)) f65536;
          a10 = fdiv (fint (m10 gi)) f65536;
          a11 = fdiv (fint (m11 gi)) f65536;
          a12 = fdiv (fint (m12 gi)) f65536;
          cx' = fdiv (fint cx) f65536;
          cy' = fdiv (fint cy) f65536;
          fx' = fdiv (fint fx) f65536;
          fy' = fdiv (fint fy) f65536;
          r = fdiv (fint radius) f65536;
          rsq = fmul r r;
          fcx = fsub fx' cx';
          fcy = fsub fy' cy';
          dsq = fadd (fmul fcx fcx) (fmul fcy fcy);
          (fx'', fy'') =
            (if fp_less (fmul rsq f0_94) dsq then
               (let f = fdiv (fmul r f0_97) (fsqrt dsq)
                in (fadd cx' (fmul f fcx), fadd cy' (fmul f fcy)))
             else (fx', fy'))
      in g\<lparr>rg_a00 := a00, rg_a01 := a01, rg_a02 := a02, rg_a10 := a10, rg_a11 := a11, rg_a12 := a12,
           rg_a00a00 := fmul a00 a00, rg_a10a10 := fmul a10 a10, rg_a00a10 := fmul a00 a10,
           rg_r := r, rg_rsq := rsq, rg_cx := cx', rg_cy := cy', rg_fx := fx'', rg_fy := fy''\<rparr>)"

definition renderer_setRadialGradient ::
    "renderer \<Rightarrow> jint \<Rightarrow> jint \<Rightarrow> jint \<Rightarrow> jint \<Rightarrow> jint \<Rightarrow> jint list \<Rightarrow> transform6 \<Rightarrow> renderer option" where
  "renderer_setRadialGradient rdr cx cy fx fy radius colors transform =
     (let gt = pisces_transform_assign (r_gradient_transform rdr) transform;
          gi = pisces_transform_invert (pisces_transform_assign (r_gradient_inverse_transform rdr) transform);
          rdr1 = rdr\<lparr>r_gradient_transform := gt, r_gradient_inverse_transform := gi,
                     r_gradient := radial_geometry cx cy fx fy radius gi (r_gradient rdr)\<rparr>
      in copy_gradient_colors colors (setPaintMode rdr1 PAINT_RADIAL_GRADIENT))"

text \<open>
  The texture transform: half a pixel is added for interpolation, the kind of transform is
  classified, and interpolation is dropped when the translation has no fraction.
\<close>

definition texture_transform :: "bool \<Rightarrow> transform6 \<Rightarrow> texture \<Rightarrow> texture" where
  "texture_transform smooth ct tx =
     (let t00 = m00 ct; t01 = m01 ct; t10 = m10 ct; t11 = m11 ct;
          t02 = (if smooth then i64 (m02 ct + (drop_bit 1 t00 + drop_bit 1 t01 - 32768)) else m02 ct);
          t12 = (if smooth then i64 (m12 ct + (drop_bit 1 t10 + drop_bit 1 t11 - 32768)) else m12 ct);
          (kind, interp) =
            (if t00 = 65536 \<and> t11 = 65536 \<and> t01 = 0 \<and> t10 = 0 then
               (if t02 = 0 \<and> t12 = 0 then (TEXTURE_TRANSFORM_IDENTITY, False)
                else (TEXTURE_TRANSFORM_TRANSLATE,
                      if t02 AND 0xFFFF = 0 \<and> t12 AND 0xFFFF = 0 then False else smooth))
             else if t01 = 0 \<and> t10 = 0 then (TEXTURE_TRANSFORM_SCALE_TRANSLATE, smooth)
             else (TEXTURE_TRANSFORM_GENERIC, smooth))
      in tx\<lparr>tx_m00 := t00, tx_m01 := t01, tx_m10 := t10, tx_m11 := t11, tx_m02 := t02, tx_m12 := t12,
            tx_interpolate := interp, tx_transformType := kind\<rparr>)"

definition renderer_setTexture ::
    "renderer \<Rightarrow> jint \<Rightarrow> jint list \<Rightarrow> jint \<Rightarrow> jint \<Rightarrow> jint \<Rightarrow> bool \<Rightarrow> bool \<Rightarrow> transform6 \<Rightarrow> bool \<Rightarrow> bool \<Rightarrow>
     jint \<Rightarrow> jint \<Rightarrow> jint \<Rightarrow> jint \<Rightarrow> renderer" where
  "renderer_setTexture rdr renderMode data width height stride repeat_x smooth transform freeData
       textureHasAlpha txMin tyMin txMax tyMax =
     (let rdr1 = rdr\<lparr>r_paint_transform := pisces_transform_assign (r_paint_transform rdr) transform\<rparr>;
          ct = pisces_transform_invert transform;
          rdr2 = setPaintMode rdr1
            (if renderMode = IMAGE_MODE_NORMAL then PAINT_TEXTURE8888 else PAINT_TEXTURE8888_MULTIPLY);
          tx = (r_texture rdr2)\<lparr>tx_free := freeData, tx_hasAlpha := textureHasAlpha, tx_intData := data,
            tx_imageWidth := width, tx_imageHeight := height, tx_stride := stride, tx_repeat := repeat_x,
            tx_txMin := txMin, tx_tyMin := tyMin, tx_txMax := txMax, tx_tyMax := tyMax\<rparr>
      in rdr2\<lparr>r_texture := texture_transform smooth ct tx\<rparr>)"

section \<open>Creation\<close>

text \<open>\<^verbatim>\<open>my_malloc\<close> clears the block it allocates: every field \<open>createCommon\<close> does not set is zero.\<close>

definition cleared_routines :: surface_routines where
  "cleared_routines =
     \<lparr>sr_bl_SourceOverMask = None, sr_bl_PT_SourceOverMask = None, sr_bl_SourceMask = None,
      sr_bl_PT_SourceMask = None, sr_bl_SourceOverLCDMask = None, sr_bl_PT_SourceOverLCDMask = None,
      sr_bl_SourceLCDMask = None, sr_bl_PT_SourceLCDMask = None, sr_bl_SourceOverNoMask = None,
      sr_bl_PT_SourceOverNoMask = None, sr_bl_SourceNoMask = None, sr_bl_PT_SourceNoMask = None,
      sr_el_Source = None, sr_el_SourceOver = None, sr_el_PT_Source = None, sr_el_PT_SourceOver = None,
      sr_bl_Clear = None, sr_bl_PT_Clear = None, sr_clearRect = None\<rparr>"

definition cleared_gradient :: gradient_geometry where
  "cleared_gradient =
     (let z = fp_zero F32 False
      in \<lparr>lg_mx = z, lg_my = z, lg_b = z, rg_a00 = z, rg_a01 = z, rg_a02 = z, rg_a10 = z, rg_a11 = z,
          rg_a12 = z, rg_cx = z, rg_cy = z, rg_fx = z, rg_fy = z, rg_r = z, rg_rsq = z, rg_a00a00 = z,
          rg_a10a10 = z, rg_a00a10 = z\<rparr>)"

definition cleared_texture :: texture where
  "cleared_texture =
     \<lparr>tx_intData = [], tx_hasAlpha = False, tx_imageWidth = 0, tx_imageHeight = 0, tx_stride = 0,
      tx_txMin = 0, tx_tyMin = 0, tx_txMax = 0, tx_tyMax = 0, tx_repeat = False, tx_m00 = 0, tx_m01 = 0,
      tx_m02 = 0, tx_m10 = 0, tx_m11 = 0, tx_m12 = 0, tx_interpolate = False, tx_transformType = 0,
      tx_free = False\<rparr>"

definition cleared_renderer :: renderer where
  "cleared_renderer =
     (let t = \<lparr>m00 = 0, m01 = 0, m10 = 0, m11 = 0, m02 = 0, m12 = 0\<rparr>
      in \<lparr>r_paintMode = 0, r_prevPaintMode = 0, r_ured = 0, r_ugreen = 0, r_ublue = 0, r_ualpha = 0,
          r_cred = 0, r_cgreen = 0, r_cblue = 0, r_calpha = 0, r_compositeRule = 0, r_data = [],
          r_width = 0, r_height = 0, r_imageOffset = 0, r_imageScanlineStride = 0, r_imagePixelStride = 0,
          r_imageType = 0, r_routines = cleared_routines, r_bl_SourceOver = None, r_bl_PT_SourceOver = None,
          r_bl_Source = None, r_bl_PT_Source = None, r_bl = None, r_bl_PT = None, r_el = None, r_el_PT = None,
          r_emitRows = None, r_emitLine = None, r_genPaint = None, r_rowNum = 0, r_alphaWidth = 0,
          r_minTouched = 0, r_maxTouched = 0, r_currX = 0, r_currY = 0, r_currImageOffset = 0,
          r_alphaMap = [], r_rowAAInt = [], r_rectX = 0, r_rectY = 0, r_mask_free = False, r_maskType = 0,
          r_mask_byteData = [], r_maskOffset = 0, r_mask_width = 0, r_mask_height = 0, r_paint = [],
          r_paint_transform = t, r_gradient_transform = t, r_gradient_inverse_transform = t,
          r_gradient = cleared_gradient, r_gradient_colors = replicate GRADIENT_MAP_SIZE 0,
          r_gradient_cycleMethod = 0, r_texture = cleared_texture, r_clip_bbMinX = 0, r_clip_bbMinY = 0,
          r_clip_bbMaxX = 0, r_clip_bbMaxY = 0, r_el_lfrac = 0, r_el_rfrac = 0, r_rendererState = 0\<rparr>)"

definition createCommon :: "surface \<Rightarrow> renderer" where
  "createCommon surface =
     cleared_renderer\<lparr>r_imageType := - 1, r_compositeRule := COMPOSITE_SRC_OVER, r_maskType := NO_MASK,
       r_paintMode := PAINT_FLAT_COLOR, r_clip_bbMinX := 0, r_clip_bbMinY := 0,
       r_clip_bbMaxX := i32 (s_width surface - 1), r_clip_bbMaxY := i32 (s_height surface - 1),
       r_rendererState := INVALID_ALL\<rparr>"

section \<open>Validation\<close>

definition updateInternalColor :: "renderer \<Rightarrow> renderer" where
  "updateInternalColor rdr =
     (let rdr1 =
        (if r_compositeRule rdr = COMPOSITE_CLEAR
         then rdr\<lparr>r_cred := 0, r_cgreen := 0, r_cblue := 0, r_calpha := 0\<rparr>
         else rdr\<lparr>r_cred := r_ured rdr, r_cgreen := r_ugreen rdr, r_cblue := r_ublue rdr,
                  r_calpha := r_ualpha rdr\<rparr>)
      in clear_state INVALID_INTERNAL_COLOR rdr1)"

definition updatePaintDependedRoutines :: "renderer \<Rightarrow> renderer" where
  "updatePaintDependedRoutines rdr =
     (let pt = (\<lambda>g. rdr\<lparr>r_genPaint := Some g, r_emitRows := r_bl_PT rdr, r_emitLine := r_el_PT rdr\<rparr>);
          mode = r_paintMode rdr;
          rdr1 =
            (if mode = PAINT_LINEAR_GRADIENT then pt F_genLinearGradientPaint
             else if mode = PAINT_RADIAL_GRADIENT then pt F_genRadialGradientPaint
             else if mode = PAINT_TEXTURE8888 then pt F_genTexturePaint
             else if mode = PAINT_TEXTURE8888_MULTIPLY then pt F_genTexturePaintMultiply
             else if mode = PAINT_FLAT_COLOR
             then rdr\<lparr>r_genPaint := None, r_emitRows := r_bl rdr, r_emitLine := r_el rdr\<rparr>
             else rdr)
      in clear_state INVALID_PAINT_DEPENDED_ROUTINES rdr1)"

definition updateCompositeDependedRoutines :: "renderer \<Rightarrow> renderer" where
  "updateCompositeDependedRoutines rdr =
     (let s = r_routines rdr; rule = r_compositeRule rdr;
          rdr1 =
            (if rule = COMPOSITE_SRC_OVER
             then rdr\<lparr>r_bl := r_bl_SourceOver rdr, r_bl_PT := r_bl_PT_SourceOver rdr,
                      r_el := sr_el_SourceOver s, r_el_PT := sr_el_PT_SourceOver s\<rparr>
             else if rule = COMPOSITE_SRC
             then rdr\<lparr>r_bl := r_bl_Source rdr, r_bl_PT := r_bl_PT_Source rdr,
                      r_el := sr_el_Source s, r_el_PT := sr_el_PT_Source s\<rparr>
             else if rule = COMPOSITE_CLEAR
             then rdr\<lparr>r_bl := sr_bl_Clear s, r_bl_PT := sr_bl_PT_Clear s,
                      r_el := sr_el_Source s, r_el_PT := sr_el_Source s\<rparr>
             else rdr)
      in clear_state INVALID_COMPOSITE_DEPENDED_ROUTINES (updatePaintDependedRoutines rdr1))"

definition updateMaskDependedRoutines :: "renderer \<Rightarrow> renderer" where
  "updateMaskDependedRoutines rdr =
     (let s = r_routines rdr; mask_type = r_maskType rdr;
          rdr1 =
            (if mask_type = NO_MASK
             then rdr\<lparr>r_bl_SourceOver := sr_bl_SourceOverNoMask s, r_bl_PT_SourceOver := sr_bl_PT_SourceOverNoMask s,
                      r_bl_Source := sr_bl_SourceNoMask s, r_bl_PT_Source := sr_bl_PT_SourceNoMask s\<rparr>
             else if mask_type = ALPHA_MASK
             then rdr\<lparr>r_bl_SourceOver := sr_bl_SourceOverMask s, r_bl_PT_SourceOver := sr_bl_PT_SourceOverMask s,
                      r_bl_Source := sr_bl_SourceMask s, r_bl_PT_Source := sr_bl_PT_SourceMask s\<rparr>
             else if mask_type = LCD_ALPHA_MASK
             then rdr\<lparr>r_bl_SourceOver := sr_bl_SourceOverLCDMask s,
                      r_bl_PT_SourceOver := sr_bl_PT_SourceOverLCDMask s,
                      r_bl_Source := sr_bl_SourceLCDMask s, r_bl_PT_Source := sr_bl_PT_SourceLCDMask s\<rparr>
             else rdr)
      in clear_state INVALID_MASK_DEPENDED_ROUTINES (updateCompositeDependedRoutines rdr1))"

text \<open>The routines for \<^verbatim>\<open>TYPE_INT_ARGB_PRE\<close>; there is no blitter for LCD masks with a paint or with \<^verbatim>\<open>COMPOSITE_SRC\<close>.\<close>

definition routines8888_pre :: surface_routines where
  "routines8888_pre =
     \<lparr>sr_bl_SourceOverMask = Some F_blitSrcOverMask8888_pre,
      sr_bl_PT_SourceOverMask = Some F_blitPTSrcOverMask8888_pre,
      sr_bl_SourceMask = Some F_blitSrcMask8888_pre,
      sr_bl_PT_SourceMask = Some F_blitPTSrcMask8888_pre,
      sr_bl_SourceOverLCDMask = Some F_blitSrcOverLCDMask8888_pre,
      sr_bl_PT_SourceOverLCDMask = None,
      sr_bl_SourceLCDMask = None,
      sr_bl_PT_SourceLCDMask = None,
      sr_bl_SourceOverNoMask = Some F_blitSrcOver8888_pre,
      sr_bl_PT_SourceOverNoMask = Some F_blitPTSrcOver8888_pre,
      sr_bl_SourceNoMask = Some F_blitSrc8888_pre,
      sr_bl_PT_SourceNoMask = Some F_blitPTSrc8888_pre,
      sr_el_Source = Some F_emitLineSource8888_pre,
      sr_el_SourceOver = Some F_emitLineSourceOver8888_pre,
      sr_el_PT_Source = Some F_emitLinePTSource8888_pre,
      sr_el_PT_SourceOver = Some F_emitLinePTSourceOver8888_pre,
      sr_bl_Clear = Some F_blitSrc8888_pre,
      sr_bl_PT_Clear = Some F_blitSrc8888_pre,
      sr_clearRect = Some F_clearRect8888_any\<rparr>"

definition updateSurfaceDependedRoutines :: "renderer \<Rightarrow> renderer" where
  "updateSurfaceDependedRoutines rdr =
     (let rdr1 = (if r_imageType rdr = TYPE_INT_ARGB_PRE then rdr\<lparr>r_routines := routines8888_pre\<rparr> else rdr)
      in updateMaskDependedRoutines rdr1)"

definition updateRendererSurface :: "surface \<Rightarrow> renderer \<Rightarrow> renderer" where
  "updateRendererSurface surface rdr =
     (let rdr1 = rdr\<lparr>r_width := s_width surface, r_height := s_height surface, r_data := s_data surface,
                     r_imageOffset := s_offset surface, r_imageScanlineStride := s_scanlineStride surface,
                     r_imagePixelStride := s_pixelStride surface\<rparr>;
          rdr2 =
            (if r_imageType rdr1 \<noteq> s_imageType surface then
               (let rdr3 =
                  (if r_compositeRule rdr1 \<noteq> COMPOSITE_SRC_OVER \<and> s_imageType surface = TYPE_INT_ARGB_PRE
                   then set_state (INVALID_COLOR_ALPHA_MAP OR INVALID_PAINT_ALPHA_MAP) rdr1 else rdr1)
                in updateSurfaceDependedRoutines (rdr3\<lparr>r_imageType := s_imageType surface\<rparr>))
             else rdr1)
      in clear_state INVALID_RENDERER_SURFACE rdr2)"

text \<open>\<^verbatim>\<open>VALIDATE_BLITTING\<close>: the branches look at the state saved before the first update.\<close>

definition stale :: "jint \<Rightarrow> jint \<Rightarrow> bool" where
  "stale state bits \<longleftrightarrow> state AND bits \<noteq> 0"

definition validate_blitting :: "surface \<Rightarrow> renderer \<Rightarrow> renderer" where
  "validate_blitting surface rdr =
     (if stale (r_rendererState rdr) INVALID_BLITTING_MASK then
        (let state = r_rendererState rdr;
             rdr1 = (if stale state INVALID_RENDERER_SURFACE then updateRendererSurface surface rdr else rdr);
             rdr2 = (if stale state INVALID_INTERNAL_COLOR then updateInternalColor rdr1 else rdr1)
         in if stale state INVALID_MASK_DEPENDED_ROUTINES then updateMaskDependedRoutines rdr2
            else if stale state INVALID_COMPOSITE_DEPENDED_ROUTINES then updateCompositeDependedRoutines rdr2
            else if stale state INVALID_PAINT_DEPENDED_ROUTINES then updatePaintDependedRoutines rdr2
            else rdr2)
      else rdr)"

end
