(* ===== verification/Pisces_Validate.thy ===== *)
theory Pisces_Validate
  imports Pisces_Renderer
begin

text \<open>
  Correctness of the lazy validation in \<^verbatim>\<open>PiscesRenderer.inl\<close>. The setters only mark what became
  stale; \<^verbatim>\<open>VALIDATE_BLITTING\<close> refreshes it in stages (surface, colour, mask, composite rule, paint),
  each stage built on the routines the stage before selected. The invariant \<open>coherent\<close> says that
  whatever is not marked stale is what the current modes select, and the specification
  \<open>select_rows\<close>, \<open>select_line\<close> and \<open>select_gen\<close> states the selection directly, without stages.
\<close>

section \<open>State bits\<close>

named_theorems stale_simps "which parts of the renderer state are stale"

lemma stale_0 [stale_simps]: "\<not> stale 0 m"
  by (simp add: stale_def)

lemma stale_or [stale_simps]: "stale (s OR t) m \<longleftrightarrow> stale s m \<or> stale t m"
  by (simp add: stale_def bit.conj_disj_distrib2 or_eq_0_iff)

lemma stale_or_right: "stale s (m OR n) \<longleftrightarrow> stale s m \<or> stale s n"
  by (simp add: stale_def bit.conj_disj_distrib or_eq_0_iff)

lemma stale_none [stale_simps]: "\<not> stale s 0"
  by (simp add: stale_def)

lemma stale_and_mask [stale_simps]:
  "stale (s AND - numeral b) (numeral m) \<longleftrightarrow> stale s (- numeral b AND numeral m)"
  by (simp add: stale_def and.assoc)

lemma stale_numeral [stale_simps]:
  "stale (numeral b) (numeral m) \<longleftrightarrow> numeral b AND numeral m \<noteq> (0 :: int)"
  "stale 1 (numeral m) \<longleftrightarrow> 1 AND numeral m \<noteq> (0 :: int)"
  by (simp_all add: stale_def)

lemma stale_blitting [stale_simps]:
  "stale s INVALID_BLITTING_MASK \<longleftrightarrow> stale s 8 \<or> stale s 16 \<or> stale s 32 \<or> stale s 64 \<or> stale s 128"
  by (simp only: INVALID_BLITTING_MASK_def stale_or_right ac_simps)

lemma stale_blitting_mask [stale_simps]:
  "stale INVALID_BLITTING_MASK 8" "stale INVALID_BLITTING_MASK 16" "stale INVALID_BLITTING_MASK 32"
  "stale INVALID_BLITTING_MASK 64" "stale INVALID_BLITTING_MASK 128"
  by (simp_all add: INVALID_BLITTING_MASK_def stale_simps)

lemmas update_defs = updateInternalColor_def updatePaintDependedRoutines_def
  updateCompositeDependedRoutines_def updateMaskDependedRoutines_def set_state_def clear_state_def Let_def

section \<open>What each stage clears\<close>

lemma updateInternalColor_stale [stale_simps]:
  "\<not> stale (r_rendererState (updateInternalColor rdr)) 8"
  "stale (r_rendererState (updateInternalColor rdr)) 16 \<longleftrightarrow> stale (r_rendererState rdr) 16"
  "stale (r_rendererState (updateInternalColor rdr)) 32 \<longleftrightarrow> stale (r_rendererState rdr) 32"
  "stale (r_rendererState (updateInternalColor rdr)) 64 \<longleftrightarrow> stale (r_rendererState rdr) 64"
  "stale (r_rendererState (updateInternalColor rdr)) 128 \<longleftrightarrow> stale (r_rendererState rdr) 128"
  by (simp_all add: updateInternalColor_def clear_state_def Let_def stale_simps)

lemma updatePaint_state:
  "r_rendererState (updatePaintDependedRoutines rdr) = r_rendererState rdr AND NOT 64"
  by (simp add: updatePaintDependedRoutines_def clear_state_def Let_def)

lemma updateComposite_state:
  "r_rendererState (updateCompositeDependedRoutines rdr) = (r_rendererState rdr AND NOT 64) AND NOT 32"
  by (simp add: updateCompositeDependedRoutines_def clear_state_def Let_def updatePaint_state)

lemma updateMask_state:
  "r_rendererState (updateMaskDependedRoutines rdr) = ((r_rendererState rdr AND NOT 64) AND NOT 32) AND NOT 128"
  by (simp add: updateMaskDependedRoutines_def clear_state_def Let_def updateComposite_state)

lemma updateSurface_state:
  "r_rendererState (updateSurfaceDependedRoutines rdr) = ((r_rendererState rdr AND NOT 64) AND NOT 32) AND NOT 128"
  by (simp add: updateSurfaceDependedRoutines_def Let_def updateMask_state)

lemma updateRendererSurface_state:
  "r_rendererState (updateRendererSurface sf rdr) = r_rendererState rdr AND NOT 16 \<or>
   (\<exists>s \<in> {r_rendererState rdr, r_rendererState rdr OR 3}.
      r_rendererState (updateRendererSurface sf rdr) = (((s AND NOT 64) AND NOT 32) AND NOT 128) AND NOT 16)"
  by (simp add: updateRendererSurface_def updateSurface_state clear_state_def set_state_def Let_def)

lemma updateRendererSurface_stale:
  "stale (r_rendererState (updateRendererSurface sf rdr)) 8 \<longleftrightarrow> stale (r_rendererState rdr) 8"
  "\<not> stale (r_rendererState (updateRendererSurface sf rdr)) 16"
  "stale (r_rendererState (updateRendererSurface sf rdr)) 32 \<longrightarrow> stale (r_rendererState rdr) 32"
  "stale (r_rendererState (updateRendererSurface sf rdr)) 64 \<longrightarrow> stale (r_rendererState rdr) 64"
  "stale (r_rendererState (updateRendererSurface sf rdr)) 128 \<longrightarrow> stale (r_rendererState rdr) 128"
  using updateRendererSurface_state [of sf rdr] by (auto simp: stale_simps)

lemmas update_state = updatePaint_state updateComposite_state updateMask_state

lemma validate_blitting_clean:
  "\<not> stale (r_rendererState (validate_blitting sf rdr)) INVALID_BLITTING_MASK"
  using updateRendererSurface_stale [of sf rdr]
  by (auto simp add: validate_blitting_def Let_def stale_simps update_state)

section \<open>The routines the modes select\<close>

text \<open>\<open>flat\<close> is whether the paint is a flat colour; the other paints draw from the generated paint row.\<close>

definition select_rows :: "jint \<Rightarrow> jint \<Rightarrow> bool \<Rightarrow> blit_fn option" where
  "select_rows mask_type rule flat =
     (if rule = COMPOSITE_CLEAR then Some F_blitSrc8888_pre
      else if rule = COMPOSITE_SRC then
        (if mask_type = NO_MASK then Some (if flat then F_blitSrc8888_pre else F_blitPTSrc8888_pre)
         else if mask_type = ALPHA_MASK then Some (if flat then F_blitSrcMask8888_pre else F_blitPTSrcMask8888_pre)
         else None)
      else
        (if mask_type = NO_MASK then Some (if flat then F_blitSrcOver8888_pre else F_blitPTSrcOver8888_pre)
         else if mask_type = ALPHA_MASK
         then Some (if flat then F_blitSrcOverMask8888_pre else F_blitPTSrcOverMask8888_pre)
         else if flat then Some F_blitSrcOverLCDMask8888_pre else None))"

definition select_line :: "jint \<Rightarrow> bool \<Rightarrow> emit_fn option" where
  "select_line rule flat =
     Some (if rule = COMPOSITE_CLEAR then F_emitLineSource8888_pre
           else if rule = COMPOSITE_SRC then (if flat then F_emitLineSource8888_pre else F_emitLinePTSource8888_pre)
           else if flat then F_emitLineSourceOver8888_pre else F_emitLinePTSourceOver8888_pre)"

definition select_gen :: "jint \<Rightarrow> gen_fn option" where
  "select_gen mode =
     (if mode = PAINT_LINEAR_GRADIENT then Some F_genLinearGradientPaint
      else if mode = PAINT_RADIAL_GRADIENT then Some F_genRadialGradientPaint
      else if mode = PAINT_TEXTURE8888 then Some F_genTexturePaint
      else if mode = PAINT_TEXTURE8888_MULTIPLY then Some F_genTexturePaintMultiply
      else None)"

definition modes_ok :: "renderer \<Rightarrow> bool" where
  "modes_ok rdr \<longleftrightarrow> r_maskType rdr \<in> {NO_MASK, ALPHA_MASK, LCD_ALPHA_MASK} \<and>
     r_compositeRule rdr \<in> {COMPOSITE_CLEAR, COMPOSITE_SRC, COMPOSITE_SRC_OVER} \<and>
     r_paintMode rdr \<in> {PAINT_FLAT_COLOR, PAINT_LINEAR_GRADIENT, PAINT_RADIAL_GRADIENT,
       PAINT_TEXTURE8888, PAINT_TEXTURE8888_MULTIPLY}"

definition mask_stage :: "renderer \<Rightarrow> bool" where
  "mask_stage rdr \<longleftrightarrow>
     r_bl_SourceOver rdr = select_rows (r_maskType rdr) COMPOSITE_SRC_OVER True \<and>
     r_bl_PT_SourceOver rdr = select_rows (r_maskType rdr) COMPOSITE_SRC_OVER False \<and>
     r_bl_Source rdr = select_rows (r_maskType rdr) COMPOSITE_SRC True \<and>
     r_bl_PT_Source rdr = select_rows (r_maskType rdr) COMPOSITE_SRC False"

definition composite_stage :: "renderer \<Rightarrow> bool" where
  "composite_stage rdr \<longleftrightarrow>
     r_bl rdr = select_rows (r_maskType rdr) (r_compositeRule rdr) True \<and>
     r_bl_PT rdr = select_rows (r_maskType rdr) (r_compositeRule rdr) False \<and>
     r_el rdr = select_line (r_compositeRule rdr) True \<and>
     r_el_PT rdr = select_line (r_compositeRule rdr) False"

definition paint_stage :: "renderer \<Rightarrow> bool" where
  "paint_stage rdr \<longleftrightarrow>
     r_genPaint rdr = select_gen (r_paintMode rdr) \<and>
     r_emitRows rdr = select_rows (r_maskType rdr) (r_compositeRule rdr) (r_paintMode rdr = PAINT_FLAT_COLOR) \<and>
     r_emitLine rdr = select_line (r_compositeRule rdr) (r_paintMode rdr = PAINT_FLAT_COLOR)"

definition colour_stage :: "renderer \<Rightarrow> bool" where
  "colour_stage rdr \<longleftrightarrow>
     (if r_compositeRule rdr = COMPOSITE_CLEAR
      then r_cred rdr = 0 \<and> r_cgreen rdr = 0 \<and> r_cblue rdr = 0 \<and> r_calpha rdr = 0
      else r_cred rdr = r_ured rdr \<and> r_cgreen rdr = r_ugreen rdr \<and> r_cblue rdr = r_ublue rdr \<and>
        r_calpha rdr = r_ualpha rdr)"

text \<open>
  The image type is \<open>-1\<close> until the first surface is seen. A stage that is not stale is up to date
  provided the stages it is built on are.
\<close>

definition coherent :: "renderer \<Rightarrow> bool" where
  "coherent rdr \<longleftrightarrow> modes_ok rdr \<and>
     (let st = r_rendererState rdr
      in (r_imageType rdr = TYPE_INT_ARGB_PRE \<or> r_imageType rdr = - 1 \<and> stale st INVALID_RENDERER_SURFACE) \<and>
         (\<not> stale st INVALID_INTERNAL_COLOR \<longrightarrow> colour_stage rdr) \<and>
         (r_imageType rdr = TYPE_INT_ARGB_PRE \<longrightarrow>
            r_routines rdr = routines8888_pre \<and>
            (\<not> stale st INVALID_MASK_DEPENDED_ROUTINES \<longrightarrow> mask_stage rdr \<and>
               (\<not> stale st INVALID_COMPOSITE_DEPENDED_ROUTINES \<longrightarrow> composite_stage rdr \<and>
                  (\<not> stale st INVALID_PAINT_DEPENDED_ROUTINES \<longrightarrow> paint_stage rdr)))))"

lemmas stage_defs = mask_stage_def composite_stage_def paint_stage_def colour_stage_def modes_ok_def

section \<open>The stages\<close>

lemma clear_state_other [simp]:
  "mask_stage (clear_state b rdr) = mask_stage rdr" "composite_stage (clear_state b rdr) = composite_stage rdr"
  "paint_stage (clear_state b rdr) = paint_stage rdr" "colour_stage (clear_state b rdr) = colour_stage rdr"
  "modes_ok (clear_state b rdr) = modes_ok rdr" "r_imageType (clear_state b rdr) = r_imageType rdr"
  "r_routines (clear_state b rdr) = r_routines rdr"
  by (simp_all add: clear_state_def stage_defs)

text \<open>A stage does not depend on the routines of the later stages.\<close>

lemma colour_stage_upd [simp]:
  "colour_stage (rdr\<lparr>r_genPaint := g\<rparr>) = colour_stage rdr" "colour_stage (rdr\<lparr>r_emitRows := b\<rparr>) = colour_stage rdr"
  "colour_stage (rdr\<lparr>r_emitLine := e\<rparr>) = colour_stage rdr" "colour_stage (rdr\<lparr>r_bl := b\<rparr>) = colour_stage rdr"
  "colour_stage (rdr\<lparr>r_bl_PT := b\<rparr>) = colour_stage rdr" "colour_stage (rdr\<lparr>r_el := e\<rparr>) = colour_stage rdr"
  "colour_stage (rdr\<lparr>r_el_PT := e\<rparr>) = colour_stage rdr" "colour_stage (rdr\<lparr>r_bl_SourceOver := b\<rparr>) = colour_stage rdr"
  "colour_stage (rdr\<lparr>r_bl_PT_SourceOver := b\<rparr>) = colour_stage rdr" "colour_stage (rdr\<lparr>r_bl_Source := b\<rparr>) = colour_stage rdr"
  "colour_stage (rdr\<lparr>r_bl_PT_Source := b\<rparr>) = colour_stage rdr"
  by (simp_all add: stage_defs)

lemma modes_ok_upd [simp]:
  "modes_ok (rdr\<lparr>r_genPaint := g\<rparr>) = modes_ok rdr" "modes_ok (rdr\<lparr>r_emitRows := b\<rparr>) = modes_ok rdr"
  "modes_ok (rdr\<lparr>r_emitLine := e\<rparr>) = modes_ok rdr" "modes_ok (rdr\<lparr>r_bl := b\<rparr>) = modes_ok rdr"
  "modes_ok (rdr\<lparr>r_bl_PT := b\<rparr>) = modes_ok rdr" "modes_ok (rdr\<lparr>r_el := e\<rparr>) = modes_ok rdr"
  "modes_ok (rdr\<lparr>r_el_PT := e\<rparr>) = modes_ok rdr" "modes_ok (rdr\<lparr>r_bl_SourceOver := b\<rparr>) = modes_ok rdr"
  "modes_ok (rdr\<lparr>r_bl_PT_SourceOver := b\<rparr>) = modes_ok rdr" "modes_ok (rdr\<lparr>r_bl_Source := b\<rparr>) = modes_ok rdr"
  "modes_ok (rdr\<lparr>r_bl_PT_Source := b\<rparr>) = modes_ok rdr"
  by (simp_all add: stage_defs)

lemma mask_stage_upd [simp]:
  "mask_stage (rdr\<lparr>r_genPaint := g\<rparr>) = mask_stage rdr" "mask_stage (rdr\<lparr>r_emitRows := b\<rparr>) = mask_stage rdr"
  "mask_stage (rdr\<lparr>r_emitLine := e\<rparr>) = mask_stage rdr" "mask_stage (rdr\<lparr>r_bl := b\<rparr>) = mask_stage rdr"
  "mask_stage (rdr\<lparr>r_bl_PT := b\<rparr>) = mask_stage rdr" "mask_stage (rdr\<lparr>r_el := e\<rparr>) = mask_stage rdr"
  "mask_stage (rdr\<lparr>r_el_PT := e\<rparr>) = mask_stage rdr"
  by (simp_all add: stage_defs)

lemma composite_stage_upd [simp]:
  "composite_stage (rdr\<lparr>r_genPaint := g\<rparr>) = composite_stage rdr" "composite_stage (rdr\<lparr>r_emitRows := b\<rparr>) = composite_stage rdr"
  "composite_stage (rdr\<lparr>r_emitLine := e\<rparr>) = composite_stage rdr"
  by (simp_all add: stage_defs)

lemma updatePaint_stages:
  "mask_stage (updatePaintDependedRoutines rdr) = mask_stage rdr"
  "composite_stage (updatePaintDependedRoutines rdr) = composite_stage rdr"
  "modes_ok rdr \<Longrightarrow> composite_stage rdr \<Longrightarrow> paint_stage (updatePaintDependedRoutines rdr)"
  by (simp_all add: updatePaintDependedRoutines_def Let_def)
    (auto simp: modes_ok_def composite_stage_def paint_stage_def select_gen_def)

lemma updatePaint_other [simp]:
  "modes_ok (updatePaintDependedRoutines rdr) = modes_ok rdr"
  "r_imageType (updatePaintDependedRoutines rdr) = r_imageType rdr"
  "r_routines (updatePaintDependedRoutines rdr) = r_routines rdr"
  "colour_stage (updatePaintDependedRoutines rdr) = colour_stage rdr"
  by (simp_all add: updatePaintDependedRoutines_def Let_def)

lemma updateComposite_other [simp]:
  "modes_ok (updateCompositeDependedRoutines rdr) = modes_ok rdr"
  "r_imageType (updateCompositeDependedRoutines rdr) = r_imageType rdr"
  "r_routines (updateCompositeDependedRoutines rdr) = r_routines rdr"
  "colour_stage (updateCompositeDependedRoutines rdr) = colour_stage rdr"
  by (simp_all add: updateCompositeDependedRoutines_def Let_def)

lemma updateComposite_stages:
  assumes "modes_ok rdr" "r_routines rdr = routines8888_pre" "mask_stage rdr"
  shows "mask_stage (updateCompositeDependedRoutines rdr)" (is ?m)
    and "composite_stage (updateCompositeDependedRoutines rdr)" (is ?c)
    and "paint_stage (updateCompositeDependedRoutines rdr)" (is ?p)
proof -
  obtain rdr1 where r: "updateCompositeDependedRoutines rdr =
      clear_state INVALID_COMPOSITE_DEPENDED_ROUTINES (updatePaintDependedRoutines rdr1)"
    and "modes_ok rdr1" "mask_stage rdr1" "composite_stage rdr1"
    by (rule that, unfold updateCompositeDependedRoutines_def Let_def, rule refl)
      (use assms in \<open>auto simp: modes_ok_def mask_stage_def composite_stage_def routines8888_pre_def select_rows_def select_line_def\<close>)
  then show ?m ?c ?p by (simp_all add: updatePaint_stages)
qed

lemma updateMask_other [simp]:
  "modes_ok (updateMaskDependedRoutines rdr) = modes_ok rdr"
  "r_imageType (updateMaskDependedRoutines rdr) = r_imageType rdr"
  "r_routines (updateMaskDependedRoutines rdr) = r_routines rdr"
  "colour_stage (updateMaskDependedRoutines rdr) = colour_stage rdr"
  by (simp_all add: updateMaskDependedRoutines_def Let_def)

lemma updateMask_stages:
  assumes "modes_ok rdr" "r_routines rdr = routines8888_pre"
  shows "mask_stage (updateMaskDependedRoutines rdr)" (is ?m)
    and "composite_stage (updateMaskDependedRoutines rdr)" (is ?c)
    and "paint_stage (updateMaskDependedRoutines rdr)" (is ?p)
proof -
  obtain rdr1 where r: "updateMaskDependedRoutines rdr =
      clear_state INVALID_MASK_DEPENDED_ROUTINES (updateCompositeDependedRoutines rdr1)"
    and "modes_ok rdr1" "r_routines rdr1 = routines8888_pre" "mask_stage rdr1"
    by (rule that, unfold updateMaskDependedRoutines_def Let_def, rule refl)
      (use assms in \<open>auto simp: modes_ok_def mask_stage_def routines8888_pre_def select_rows_def\<close>)
  then show ?m ?c ?p by (simp_all add: updateComposite_stages)
qed

section \<open>Every operation keeps the invariant\<close>

text \<open>The fields that are no cache and no mode: drawing and the geometry of paints change only these.\<close>

lemma coherent_upd [simp]:
  "coherent (rdr\<lparr>r_prevPaintMode := n\<rparr>) = coherent rdr" "coherent (rdr\<lparr>r_data := xs\<rparr>) = coherent rdr"
  "coherent (rdr\<lparr>r_width := n\<rparr>) = coherent rdr" "coherent (rdr\<lparr>r_height := n\<rparr>) = coherent rdr"
  "coherent (rdr\<lparr>r_imageOffset := n\<rparr>) = coherent rdr" "coherent (rdr\<lparr>r_imageScanlineStride := n\<rparr>) = coherent rdr"
  "coherent (rdr\<lparr>r_imagePixelStride := n\<rparr>) = coherent rdr" "coherent (rdr\<lparr>r_rowNum := n\<rparr>) = coherent rdr"
  "coherent (rdr\<lparr>r_alphaWidth := n\<rparr>) = coherent rdr" "coherent (rdr\<lparr>r_minTouched := n\<rparr>) = coherent rdr"
  "coherent (rdr\<lparr>r_maxTouched := n\<rparr>) = coherent rdr" "coherent (rdr\<lparr>r_currX := n\<rparr>) = coherent rdr"
  "coherent (rdr\<lparr>r_currY := n\<rparr>) = coherent rdr" "coherent (rdr\<lparr>r_currImageOffset := n\<rparr>) = coherent rdr"
  "coherent (rdr\<lparr>r_alphaMap := bs\<rparr>) = coherent rdr" "coherent (rdr\<lparr>r_rowAAInt := xs\<rparr>) = coherent rdr"
  "coherent (rdr\<lparr>r_rectX := n\<rparr>) = coherent rdr" "coherent (rdr\<lparr>r_rectY := n\<rparr>) = coherent rdr"
  "coherent (rdr\<lparr>r_mask_free := f\<rparr>) = coherent rdr" "coherent (rdr\<lparr>r_mask_byteData := bs\<rparr>) = coherent rdr"
  "coherent (rdr\<lparr>r_maskOffset := n\<rparr>) = coherent rdr" "coherent (rdr\<lparr>r_mask_width := n\<rparr>) = coherent rdr"
  "coherent (rdr\<lparr>r_mask_height := n\<rparr>) = coherent rdr" "coherent (rdr\<lparr>r_paint := xs\<rparr>) = coherent rdr"
  "coherent (rdr\<lparr>r_paint_transform := t\<rparr>) = coherent rdr" "coherent (rdr\<lparr>r_gradient_transform := t\<rparr>) = coherent rdr"
  "coherent (rdr\<lparr>r_gradient_inverse_transform := t\<rparr>) = coherent rdr" "coherent (rdr\<lparr>r_gradient := g\<rparr>) = coherent rdr"
  "coherent (rdr\<lparr>r_gradient_colors := xs\<rparr>) = coherent rdr" "coherent (rdr\<lparr>r_gradient_cycleMethod := n\<rparr>) = coherent rdr"
  "coherent (rdr\<lparr>r_texture := tx\<rparr>) = coherent rdr" "coherent (rdr\<lparr>r_clip_bbMinX := n\<rparr>) = coherent rdr"
  "coherent (rdr\<lparr>r_clip_bbMinY := n\<rparr>) = coherent rdr" "coherent (rdr\<lparr>r_clip_bbMaxX := n\<rparr>) = coherent rdr"
  "coherent (rdr\<lparr>r_clip_bbMaxY := n\<rparr>) = coherent rdr" "coherent (rdr\<lparr>r_el_lfrac := n\<rparr>) = coherent rdr"
  "coherent (rdr\<lparr>r_el_rfrac := n\<rparr>) = coherent rdr"
  by (simp_all add: coherent_def stage_defs)

lemma createCommon_coherent: "coherent (createCommon sf)"
  by (simp add: createCommon_def cleared_renderer_def coherent_def modes_ok_def Let_def INVALID_ALL_def stale_simps)

lemma set_state_coherent:
  assumes "coherent rdr"
  shows "coherent (set_state b rdr)"
  using assms by (auto simp: coherent_def Let_def set_state_def stale_simps stage_defs)

lemma renderer_setClip_coherent: "coherent rdr \<Longrightarrow> coherent (renderer_setClip rdr x y w h)"
  by (simp add: renderer_setClip_def)

lemma coherent_set_mode:
  assumes "coherent rdr" "stale (r_rendererState rdr) INVALID_PAINT_DEPENDED_ROUTINES"
    and "mode \<in> {PAINT_FLAT_COLOR, PAINT_LINEAR_GRADIENT, PAINT_RADIAL_GRADIENT, PAINT_TEXTURE8888,
      PAINT_TEXTURE8888_MULTIPLY}"
  shows "coherent (rdr\<lparr>r_paintMode := mode\<rparr>)"
  using assms by (simp add: coherent_def Let_def mask_stage_def composite_stage_def colour_stage_def modes_ok_def)

lemma setPaintMode_coherent:
  assumes "coherent rdr"
    and "mode \<in> {PAINT_FLAT_COLOR, PAINT_LINEAR_GRADIENT, PAINT_RADIAL_GRADIENT, PAINT_TEXTURE8888,
      PAINT_TEXTURE8888_MULTIPLY}"
  shows "coherent (setPaintMode rdr mode)"
proof (cases "r_paintMode rdr = mode")
  case True
  then show ?thesis using assms by (simp add: setPaintMode_def)
next
  case False
  let ?r = "(set_state INVALID_PAINT_DEPENDED_ROUTINES (rdr\<lparr>r_texture := (r_texture rdr)\<lparr>tx_intData := []\<rparr>\<rparr>))
    \<lparr>r_prevPaintMode := r_paintMode rdr\<rparr>"
  have "coherent ?r" using assms(1) by (simp add: set_state_coherent)
  moreover have "stale (r_rendererState ?r) INVALID_PAINT_DEPENDED_ROUTINES"
    by (simp add: set_state_def stale_simps)
  ultimately have "coherent (?r\<lparr>r_paintMode := mode\<rparr>)"
    using assms(2) by (rule coherent_set_mode)
  then show ?thesis using False by (simp add: setPaintMode_def)
qed

text \<open>Changing the colour, the composite rule or the mask after marking what depends on it.\<close>

lemma coherent_set_colour:
  assumes "coherent rdr" "stale (r_rendererState rdr) INVALID_INTERNAL_COLOR"
  shows "coherent (rdr\<lparr>r_ured := r, r_ugreen := g, r_ublue := b, r_ualpha := a\<rparr>)"
  using assms by (simp add: coherent_def Let_def mask_stage_def composite_stage_def paint_stage_def modes_ok_def)

lemma coherent_set_rule:
  assumes "coherent rdr" "stale (r_rendererState rdr) INVALID_INTERNAL_COLOR"
    and "stale (r_rendererState rdr) INVALID_COMPOSITE_DEPENDED_ROUTINES"
    and "rule \<in> {COMPOSITE_CLEAR, COMPOSITE_SRC, COMPOSITE_SRC_OVER}"
  shows "coherent (rdr\<lparr>r_compositeRule := rule\<rparr>)"
  using assms by (simp add: coherent_def Let_def mask_stage_def modes_ok_def)

lemma coherent_set_mask:
  assumes "coherent rdr" "stale (r_rendererState rdr) INVALID_INTERNAL_COLOR"
    and "stale (r_rendererState rdr) INVALID_MASK_DEPENDED_ROUTINES"
    and "mt \<in> {NO_MASK, ALPHA_MASK, LCD_ALPHA_MASK}"
  shows "coherent (rdr\<lparr>r_maskType := mt\<rparr>)"
  using assms by (simp add: coherent_def Let_def modes_ok_def)

lemma set_state_stale [stale_simps]:
  "stale (r_rendererState (set_state b rdr)) m \<longleftrightarrow> stale (r_rendererState rdr) m \<or> stale b m"
  by (simp add: set_state_def stale_simps)

lemma renderer_setColor_coherent:
  assumes "coherent rdr"
  shows "coherent (renderer_setColor rdr r g b a)"
  unfolding renderer_setColor_def Let_def using assms
  by (auto intro!: setPaintMode_coherent coherent_set_colour set_state_coherent simp: stale_simps)

lemma renderer_setCompositeRule_coherent:
  assumes "coherent rdr" "rule \<in> {COMPOSITE_CLEAR, COMPOSITE_SRC, COMPOSITE_SRC_OVER}"
  shows "coherent (renderer_setCompositeRule rdr rule)"
  unfolding renderer_setCompositeRule_def Let_def using assms
  by (auto intro!: coherent_set_rule set_state_coherent simp: stale_simps)

lemma set_state_mask_type: "set_state b (rdr\<lparr>r_maskType := mt\<rparr>) = (set_state b rdr)\<lparr>r_maskType := mt\<rparr>"
  by (simp add: set_state_def)

lemma coherent_new_mask:
  assumes "coherent rdr" "mt \<in> {NO_MASK, ALPHA_MASK, LCD_ALPHA_MASK}"
  shows "coherent (set_state (INVALID_BLITTING_MASK OR INVALID_MASK_DEPENDED_ROUTINES) (rdr\<lparr>r_maskType := mt\<rparr>))"
  unfolding set_state_mask_type using assms
  by (intro coherent_set_mask set_state_coherent) (simp_all add: stale_simps)

lemma renderer_setMask_coherent:
  assumes "coherent rdr" "mt \<in> {NO_MASK, ALPHA_MASK, LCD_ALPHA_MASK}"
  shows "coherent (renderer_setMask rdr mt data w h fd)"
proof -
  let ?r = "rdr\<lparr>r_mask_free := fd, r_mask_byteData := data, r_mask_width := w, r_mask_height := h\<rparr>"
  have "renderer_setMask rdr mt data w h fd =
      set_state (INVALID_BLITTING_MASK OR INVALID_MASK_DEPENDED_ROUTINES) (?r\<lparr>r_maskType := mt\<rparr>)"
    by (auto simp: renderer_setMask_def set_state_def intro!: renderer.equality)
  moreover have "coherent ?r" using assms(1) by simp
  ultimately show ?thesis using coherent_new_mask [OF _ assms(2)] by simp
qed

lemma renderer_removeMask_coherent:
  assumes "coherent rdr"
  shows "coherent (renderer_removeMask rdr)"
proof -
  have "renderer_removeMask rdr = set_state (INVALID_BLITTING_MASK OR INVALID_MASK_DEPENDED_ROUTINES)
      (rdr\<lparr>r_mask_byteData := [], r_maskType := NO_MASK\<rparr>)"
    by (auto simp: renderer_removeMask_def set_state_def intro!: renderer.equality)
  then show ?thesis using coherent_new_mask [of "rdr\<lparr>r_mask_byteData := []\<rparr>" NO_MASK] assms by simp
qed

lemma copy_gradient_colors_coherent:
  "copy_gradient_colors colors rdr = Some rdr' \<Longrightarrow> coherent rdr \<Longrightarrow> coherent rdr'"
  by (auto simp: copy_gradient_colors_def split: if_splits)

lemma renderer_setLinearGradient_coherent:
  "coherent rdr \<Longrightarrow> renderer_setLinearGradient rdr x0 y0 x1 y1 colors t = Some rdr' \<Longrightarrow> coherent rdr'"
  unfolding renderer_setLinearGradient_def Let_def
  by (erule copy_gradient_colors_coherent) (rule setPaintMode_coherent, simp_all)

lemma renderer_setRadialGradient_coherent:
  "coherent rdr \<Longrightarrow> renderer_setRadialGradient rdr cx cy fx fy r colors t = Some rdr' \<Longrightarrow> coherent rdr'"
  unfolding renderer_setRadialGradient_def Let_def
  by (erule copy_gradient_colors_coherent) (rule setPaintMode_coherent, simp_all)

lemma renderer_setTexture_coherent:
  "coherent rdr \<Longrightarrow>
   coherent (renderer_setTexture rdr mode data w h stride rep smooth t fd ha txMin tyMin txMax tyMax)"
  unfolding renderer_setTexture_def Let_def coherent_upd by (rule setPaintMode_coherent) simp_all

section \<open>Validation establishes the selection\<close>

lemma updateInternalColor_stages:
  "mask_stage (updateInternalColor rdr) = mask_stage rdr"
  "composite_stage (updateInternalColor rdr) = composite_stage rdr"
  "paint_stage (updateInternalColor rdr) = paint_stage rdr"
  "modes_ok (updateInternalColor rdr) = modes_ok rdr"
  "r_imageType (updateInternalColor rdr) = r_imageType rdr"
  "r_routines (updateInternalColor rdr) = r_routines rdr"
  "colour_stage (updateInternalColor rdr)"
  by (simp_all add: updateInternalColor_def Let_def mask_stage_def composite_stage_def paint_stage_def
        modes_ok_def colour_stage_def clear_state_def)

text \<open>The surface update keeps a coherent renderer coherent and learns the image type.\<close>

lemma updateRendererSurface_coherent:
  assumes "coherent rdr" "s_imageType sf = TYPE_INT_ARGB_PRE"
  shows "coherent (updateRendererSurface sf rdr)" "r_imageType (updateRendererSurface sf rdr) = TYPE_INT_ARGB_PRE"
proof -
  let ?r1 = "rdr\<lparr>r_width := s_width sf, r_height := s_height sf, r_data := s_data sf,
    r_imageOffset := s_offset sf, r_imageScanlineStride := s_scanlineStride sf,
    r_imagePixelStride := s_pixelStride sf\<rparr>"
  have c1: "coherent ?r1" using assms(1) by simp
  have "coherent (updateRendererSurface sf rdr) \<and> r_imageType (updateRendererSurface sf rdr) = TYPE_INT_ARGB_PRE"
  proof (cases "r_imageType rdr = TYPE_INT_ARGB_PRE")
    case True
    then have "updateRendererSurface sf rdr = clear_state INVALID_RENDERER_SURFACE ?r1"
      by (simp add: updateRendererSurface_def Let_def assms(2))
    moreover have "coherent (clear_state INVALID_RENDERER_SURFACE r)"
      if "coherent r" "r_imageType r = TYPE_INT_ARGB_PRE" for r
      using that by (simp add: coherent_def Let_def) (simp add: clear_state_def stale_simps)
    ultimately show ?thesis using c1 True by simp
  next
    case False
    define r2 where "r2 = (if r_compositeRule ?r1 \<noteq> COMPOSITE_SRC_OVER
      then set_state (INVALID_COLOR_ALPHA_MAP OR INVALID_PAINT_ALPHA_MAP) ?r1 else ?r1)\<lparr>r_imageType := TYPE_INT_ARGB_PRE\<rparr>"
    have upd: "updateRendererSurface sf rdr = clear_state INVALID_RENDERER_SURFACE
        (updateMaskDependedRoutines (r2\<lparr>r_routines := routines8888_pre\<rparr>))"
      using False by (simp add: updateRendererSurface_def updateSurfaceDependedRoutines_def Let_def assms(2) r2_def)
    have "coherent (if r_compositeRule ?r1 \<noteq> COMPOSITE_SRC_OVER
        then set_state (INVALID_COLOR_ALPHA_MAP OR INVALID_PAINT_ALPHA_MAP) ?r1 else ?r1)"
      using c1 by (simp add: set_state_coherent)
    then have "modes_ok r2" "\<not> stale (r_rendererState r2) 8 \<longrightarrow> colour_stage r2"
      unfolding r2_def by (simp_all add: coherent_def Let_def modes_ok_def colour_stage_def)
    moreover have "modes_ok (r2\<lparr>r_routines := routines8888_pre\<rparr>) = modes_ok r2"
      "colour_stage (r2\<lparr>r_routines := routines8888_pre\<rparr>) = colour_stage r2" "r_imageType r2 = TYPE_INT_ARGB_PRE"
      by (simp_all add: modes_ok_def colour_stage_def r2_def)
    moreover note updateMask_stages [of "r2\<lparr>r_routines := routines8888_pre\<rparr>"]
    ultimately show ?thesis
      by (simp add: upd coherent_def Let_def) (simp add: clear_state_def updateMask_state stale_simps)
  qed
  then show "coherent (updateRendererSurface sf rdr)" "r_imageType (updateRendererSurface sf rdr) = TYPE_INT_ARGB_PRE"
    by simp_all
qed

text \<open>After validation every cache is what the modes select.\<close>

lemma validate_blitting_stages:
  assumes "coherent rdr" "s_imageType sf = TYPE_INT_ARGB_PRE"
  defines "v \<equiv> validate_blitting sf rdr"
  shows "modes_ok v \<and> r_imageType v = TYPE_INT_ARGB_PRE \<and> r_routines v = routines8888_pre \<and>
    colour_stage v \<and> mask_stage v \<and> composite_stage v \<and> paint_stage v"
proof -
  define st where "st = r_rendererState rdr"
  define r1 where "r1 = (if stale st INVALID_RENDERER_SURFACE then updateRendererSurface sf rdr else rdr)"
  define r2 where "r2 = (if stale st INVALID_INTERNAL_COLOR then updateInternalColor r1 else r1)"
  have c1: "coherent r1" "r_imageType r1 = TYPE_INT_ARGB_PRE"
    using assms updateRendererSurface_coherent [OF assms(1,2)] unfolding r1_def st_def
    by (auto simp: coherent_def Let_def)
  have st1: "stale (r_rendererState r1) m \<longrightarrow> stale st m" if "m \<in> {8, 32, 64, 128}" for m
    using that updateRendererSurface_stale [of sf rdr] by (auto simp: r1_def st_def)
  have r2: "modes_ok r2" "r_imageType r2 = TYPE_INT_ARGB_PRE" "r_routines r2 = routines8888_pre" "colour_stage r2"
    "\<not> stale st 128 \<longrightarrow> mask_stage r2" "\<not> stale st 128 \<and> \<not> stale st 32 \<longrightarrow> composite_stage r2"
    "\<not> stale st 128 \<and> \<not> stale st 32 \<and> \<not> stale st 64 \<longrightarrow> paint_stage r2"
    using c1 st1 [of 8] st1 [of 32] st1 [of 64] st1 [of 128]
    by (auto simp: r2_def coherent_def Let_def updateInternalColor_stages)
  have v: "v = (if stale st 128 then updateMaskDependedRoutines r2
      else if stale st 32 then updateCompositeDependedRoutines r2
      else if stale st 64 then updatePaintDependedRoutines r2 else r2)"
    unfolding v_def validate_blitting_def Let_def st_def [symmetric] r1_def [symmetric] r2_def [symmetric]
    by (auto simp: stale_simps r1_def r2_def)
  show ?thesis
    using r2 updateMask_stages [of r2] updateComposite_stages [of r2] updatePaint_stages [of r2]
    by (simp add: v)
qed

lemma validate_blitting_coherent:
  assumes "coherent rdr" "s_imageType sf = TYPE_INT_ARGB_PRE"
  shows "coherent (validate_blitting sf rdr)"
  using validate_blitting_stages [OF assms] by (simp add: coherent_def)

section \<open>What validation keeps\<close>

text \<open>Validation changes no mode, paint, clip or mask; \<open>kept r r'\<close> says so, and the pixels are the surface's.\<close>

definition kept :: "renderer \<Rightarrow> renderer \<Rightarrow> bool" where
  "kept r r' \<longleftrightarrow>
     r_clip_bbMinX r' = r_clip_bbMinX r \<and> r_clip_bbMinY r' = r_clip_bbMinY r \<and>
     r_clip_bbMaxX r' = r_clip_bbMaxX r \<and> r_clip_bbMaxY r' = r_clip_bbMaxY r \<and>
     r_texture r' = r_texture r \<and> r_gradient r' = r_gradient r \<and> r_gradient_colors r' = r_gradient_colors r \<and>
     r_gradient_cycleMethod r' = r_gradient_cycleMethod r \<and> r_paint r' = r_paint r \<and>
     r_paintMode r' = r_paintMode r \<and> r_prevPaintMode r' = r_prevPaintMode r \<and> r_compositeRule r' = r_compositeRule r \<and>
     r_maskType r' = r_maskType r \<and> r_mask_byteData r' = r_mask_byteData r \<and>
     r_ured r' = r_ured r \<and> r_ugreen r' = r_ugreen r \<and> r_ublue r' = r_ublue r \<and> r_ualpha r' = r_ualpha r"

lemma kept_trans: "kept a b \<Longrightarrow> kept b c \<Longrightarrow> kept a c"
  by (simp add: kept_def)

lemma kept_state [simp]:
  "kept r (clear_state b r') = kept r r'" "kept r (set_state b r') = kept r r'"
  "r_data (clear_state b r') = r_data r'" "r_data (set_state b r') = r_data r'"
  by (simp_all add: kept_def clear_state_def set_state_def)

lemma updateInternalColor_kept [simp]:
  "kept r (updateInternalColor rdr) = kept r rdr" "r_data (updateInternalColor rdr) = r_data rdr"
  by (simp_all add: updateInternalColor_def Let_def) (simp_all add: kept_def)

lemma updatePaint_kept [simp]:
  "kept r (updatePaintDependedRoutines rdr) = kept r rdr" "r_data (updatePaintDependedRoutines rdr) = r_data rdr"
  by (simp_all add: updatePaintDependedRoutines_def Let_def) (simp_all add: kept_def)

lemma updateComposite_kept [simp]:
  "kept r (updateCompositeDependedRoutines rdr) = kept r rdr" "r_data (updateCompositeDependedRoutines rdr) = r_data rdr"
  by (simp_all add: updateCompositeDependedRoutines_def Let_def) (simp_all add: kept_def)

lemma updateMask_kept [simp]:
  "kept r (updateMaskDependedRoutines rdr) = kept r rdr" "r_data (updateMaskDependedRoutines rdr) = r_data rdr"
  by (simp_all add: updateMaskDependedRoutines_def Let_def) (simp_all add: kept_def)

lemma updateRendererSurface_kept [simp]:
  "kept r (updateRendererSurface s rdr) = kept r rdr" "r_data (updateRendererSurface s rdr) = s_data s"
proof -
  have "kept r (updateSurfaceDependedRoutines rdr) = kept r rdr" "r_data (updateSurfaceDependedRoutines rdr) = r_data rdr" for rdr
    by (simp_all add: updateSurfaceDependedRoutines_def Let_def) (simp_all add: kept_def)
  then show "kept r (updateRendererSurface s rdr) = kept r rdr" "r_data (updateRendererSurface s rdr) = s_data s"
    by (simp_all add: updateRendererSurface_def Let_def) (simp_all add: kept_def set_state_def)
qed

lemma validate_invalidated:
  shows "kept rdr (validate_blitting s (invalidate_renderer_surface rdr))"
    and "r_data (validate_blitting s (invalidate_renderer_surface rdr)) = s_data s"
proof -
  define r where "r = invalidate_renderer_surface rdr"
  have st: "stale (r_rendererState r) 16" by (simp add: r_def invalidate_renderer_surface_def stale_simps)
  have k: "kept rdr r" by (simp add: r_def kept_def invalidate_renderer_surface_def set_state_def)
  define r1 where "r1 = updateRendererSurface s r"
  define r2 where "r2 = (if stale (r_rendererState r) 8 then updateInternalColor r1 else r1)"
  have v: "validate_blitting s r = (if stale (r_rendererState r) 128 then updateMaskDependedRoutines r2
      else if stale (r_rendererState r) 32 then updateCompositeDependedRoutines r2
      else if stale (r_rendererState r) 64 then updatePaintDependedRoutines r2 else r2)"
    using st by (simp add: validate_blitting_def Let_def stale_simps r1_def r2_def)
  have "kept rdr r2" using k by (simp add: r2_def r1_def)
  then show "kept rdr (validate_blitting s (invalidate_renderer_surface rdr))"
    unfolding r_def [symmetric] v by simp
  show "r_data (validate_blitting s (invalidate_renderer_surface rdr)) = s_data s"
    unfolding r_def [symmetric] v by (simp add: r2_def r1_def)
qed

end
