(* ===== verification/Pisces_Blit.thy ===== *)
theory Pisces_Blit
  imports Pisces_Renderer
begin

text \<open>
  The blitters of \<^verbatim>\<open>PiscesBlit.c\<close>. Each reads the renderer, writes the pixel buffer \<^verbatim>\<open>_data\<close> (and clears
  the coverage row \<^verbatim>\<open>_rowAAInt\<close>) and returns the renderer with the buffers it changed; an access
  outside a buffer is \<^const>\<open>None\<close>. A pointer \<^verbatim>\<open>a\<close> into a buffer is its index there. The locals
  \<^verbatim>\<open>maxX\<close>, \<^verbatim>\<open>alphaOffset\<close> and \<^verbatim>\<open>alphaStride\<close> are left out where nothing reads them.
\<close>

text \<open>\<^verbatim>\<open>blend(&intData[i], ...)\<close>: load, blend, store.\<close>

definition upd :: "jint list \<Rightarrow> int \<Rightarrow> (jint \<Rightarrow> jint) \<Rightarrow> jint list option" where
  "upd intData i blend = do { p \<leftarrow> rd intData i; wr intData i (blend p) }"

section \<open>Spans of constant coverage\<close>

text \<open>
  A row of the \<^verbatim>\<open>emitLine\<close> routines: the pixel of the left edge when it is fractional, \<open>w\<close> pixels, the
  pixel of the right edge when it is fractional. \<open>a\<close> is the pointer into the pixel buffer, \<open>aidx\<close> the
  index into the paint row. A plain store is a blend that ignores the old pixel.
\<close>

definition flat_row :: "jint \<Rightarrow> bool \<Rightarrow> bool \<Rightarrow> jint \<Rightarrow> (jint \<Rightarrow> jint) \<Rightarrow> (jint \<Rightarrow> jint) \<Rightarrow> (jint \<Rightarrow> jint) \<Rightarrow>
    int \<Rightarrow> jint list \<Rightarrow> jint list option" where
  "flat_row imagePixelStride lfrac rfrac w left mid right a intData = do {
     (intData, a) \<leftarrow>
       (if lfrac then do {
          intData \<leftarrow> upd intData a left;
          Some (intData, a + imagePixelStride)
        } else Some (intData, a));
     (intData, a) \<leftarrow> ptr_loop a (a + w) imagePixelStride (\<lambda>a (intData, _). do {
       intData \<leftarrow> upd intData a mid;
       Some (intData, a + imagePixelStride)
     }) (intData, a);
     (if rfrac then upd intData a right else Some intData)
   }"

definition paint_row :: "jint \<Rightarrow> bool \<Rightarrow> bool \<Rightarrow> jint \<Rightarrow> (jint \<Rightarrow> jint \<Rightarrow> jint) \<Rightarrow>
    (jint \<Rightarrow> jint list \<Rightarrow> int \<Rightarrow> jint list option) \<Rightarrow> (jint \<Rightarrow> jint \<Rightarrow> jint) \<Rightarrow>
    jint list \<Rightarrow> int \<Rightarrow> jint \<Rightarrow> jint list \<Rightarrow> jint list option" where
  "paint_row imagePixelStride lfrac rfrac w left mid right paint a aidx intData = do {
     (intData, a, aidx) \<leftarrow>
       (if lfrac then do {
          cval \<leftarrow> rd paint aidx;
          intData \<leftarrow> upd intData a (left cval);
          Some (intData, a + imagePixelStride, i32 (aidx + 1))
        } else Some (intData, a, aidx));
     (intData, a, aidx) \<leftarrow> ptr_loop a (a + w) imagePixelStride (\<lambda>a (intData, _, aidx). do {
       cval \<leftarrow> rd paint aidx;
       intData \<leftarrow> mid cval intData a;
       Some (intData, a + imagePixelStride, i32 (aidx + 1))
     }) (intData, a, aidx);
     (if rfrac then do {
        cval \<leftarrow> rd paint aidx;
        upd intData a (right cval)
      } else Some intData)
   }"

definition emitLineSource8888_pre :: "renderer \<Rightarrow> jint \<Rightarrow> jint \<Rightarrow> renderer option" where
  "emitLineSource8888_pre rdr height frac =
     (let imageScanlineStride = r_imageScanlineStride rdr;
          imagePixelStride = r_imagePixelStride rdr;
          calpha = r_calpha rdr; cred = r_cred rdr; cgreen = r_cgreen rdr; cblue = r_cblue rdr;
          lfrac = r_el_lfrac rdr;
          rfrac = r_el_rfrac rdr;
          minX = r_minTouched rdr;
          w = i32 (r_alphaWidth rdr - (if lfrac \<noteq> 0 then 1 else 0) - (if rfrac \<noteq> 0 then 1 else 0));
          blend = (\<lambda>raaval p. blendSrc8888_pre p calpha raaval cred cgreen cblue)
      in if frac = 0x10000 then
           (let pre_red = drop_bit 8 (i32 ((calpha + 1) * cred));
                pre_green = drop_bit 8 (i32 ((calpha + 1) * cgreen));
                pre_blue = drop_bit 8 (i32 ((calpha + 1) * cblue));
                pixel = argb calpha pre_red pre_green pre_blue
            in do {
              (intData, _) \<leftarrow> for_loop height (\<lambda>j (intData, imageOffset). do {
                let iidx = i32 (imageOffset + minX * imagePixelStride);
                intData \<leftarrow> flat_row imagePixelStride (lfrac \<noteq> 0) (rfrac \<noteq> 0) w
                  (blend (i32 (255 - drop_bit 8 lfrac))) (\<lambda>p. pixel) (blend (i32 (255 - drop_bit 8 rfrac))) iidx intData;
                Some (intData, i32 (imageOffset + imageScanlineStride))
              }) (r_data rdr, r_currImageOffset rdr);
              Some (rdr\<lparr>r_data := intData\<rparr>)
            })
         else
           (let comp_frac = i32 (255 - drop_bit 8 frac);
                lfrac = i32 (drop_bit 16 (i64 (lfrac * frac)));
                rfrac = i32 (drop_bit 16 (i64 (rfrac * frac)))
            in do {
              (intData, _) \<leftarrow> for_loop height (\<lambda>j (intData, imageOffset). do {
                let iidx = i32 (imageOffset + minX * imagePixelStride);
                intData \<leftarrow> flat_row imagePixelStride (lfrac \<noteq> 0) (rfrac \<noteq> 0) w
                  (blend (i32 (255 - drop_bit 8 lfrac))) (blend comp_frac) (blend (i32 (255 - drop_bit 8 rfrac)))
                  iidx intData;
                Some (intData, i32 (imageOffset + imageScanlineStride))
              }) (r_data rdr, r_currImageOffset rdr);
              Some (rdr\<lparr>r_data := intData\<rparr>)
            }))"

definition emitLinePTSource8888_pre :: "renderer \<Rightarrow> jint \<Rightarrow> jint \<Rightarrow> renderer option" where
  "emitLinePTSource8888_pre rdr height frac =
     (let imageScanlineStride = r_imageScanlineStride rdr;
          imagePixelStride = r_imagePixelStride rdr;
          comp_frac = i32 (255 - drop_bit 8 frac);
          lfrac = i32 (drop_bit 16 (i64 (r_el_lfrac rdr * frac)));
          rfrac = i32 (drop_bit 16 (i64 (r_el_rfrac rdr * frac)));
          minX = r_minTouched rdr;
          paint_stride = r_alphaWidth rdr;
          w = i32 (r_alphaWidth rdr - (if lfrac \<noteq> 0 then 1 else 0) - (if rfrac \<noteq> 0 then 1 else 0));
          blend = (\<lambda>raaval cval p. blendSrc8888_pre_pre p (pxA cval) raaval (pxR cval) (pxG cval) (pxB cval))
      in do {
        (intData, _) \<leftarrow> for_loop height (\<lambda>j (intData, imageOffset, paint_offset). do {
          let iidx = i32 (imageOffset + minX * imagePixelStride);
          intData \<leftarrow> paint_row imagePixelStride (lfrac \<noteq> 0) (rfrac \<noteq> 0) w
            (blend (i32 (255 - drop_bit 8 lfrac)))
            (\<lambda>cval intData a. if frac = 0x10000 then wr intData a cval else upd intData a (blend comp_frac cval))
            (blend (i32 (255 - drop_bit 8 rfrac))) (r_paint rdr) iidx paint_offset intData;
          Some (intData, i32 (imageOffset + imageScanlineStride), i32 (paint_offset + paint_stride))
        }) (r_data rdr, r_currImageOffset rdr, 0);
        Some (rdr\<lparr>r_data := intData\<rparr>)
      })"

definition emitLineSourceOver8888_pre :: "renderer \<Rightarrow> jint \<Rightarrow> jint \<Rightarrow> renderer option" where
  "emitLineSourceOver8888_pre rdr height frac =
     (let imageScanlineStride = r_imageScanlineStride rdr;
          imagePixelStride = r_imagePixelStride rdr;
          calpha = r_calpha rdr; cred = r_cred rdr; cgreen = r_cgreen rdr; cblue = r_cblue rdr;
          alpha = drop_bit 16 (i32 (calpha * frac));
          lfrac = r_el_lfrac rdr;
          rfrac = r_el_rfrac rdr;
          minX = r_minTouched rdr;
          w = i32 (r_alphaWidth rdr - (if lfrac \<noteq> 0 then 1 else 0) - (if rfrac \<noteq> 0 then 1 else 0));
          blend = (\<lambda>aval p. blendSrcOver8888_pre p aval cred cgreen cblue)
      in if alpha = MAX_ALPHA then
           (let solid_pixel = argb 0xFF cred cgreen cblue
            in do {
              (intData, _) \<leftarrow> for_loop height (\<lambda>j (intData, imageOffset). do {
                let iidx = i32 (imageOffset + minX * imagePixelStride);
                intData \<leftarrow> flat_row imagePixelStride (lfrac \<noteq> 0) (rfrac \<noteq> 0) w
                  (blend (drop_bit 8 lfrac)) (\<lambda>p. solid_pixel) (blend (drop_bit 8 rfrac)) iidx intData;
                Some (intData, i32 (imageOffset + imageScanlineStride))
              }) (r_data rdr, r_currImageOffset rdr);
              Some (rdr\<lparr>r_data := intData\<rparr>)
            })
         else
           (let lalpha = drop_bit 16 (i32 (lfrac * alpha));
                ralpha = drop_bit 16 (i32 (rfrac * alpha))
            in do {
              (intData, _) \<leftarrow> for_loop height (\<lambda>j (intData, imageOffset). do {
                let iidx = i32 (imageOffset + minX * imagePixelStride);
                intData \<leftarrow> flat_row imagePixelStride (lfrac \<noteq> 0) (rfrac \<noteq> 0) w
                  (blend lalpha) (blend alpha) (blend ralpha) iidx intData;
                Some (intData, i32 (imageOffset + imageScanlineStride))
              }) (r_data rdr, r_currImageOffset rdr);
              Some (rdr\<lparr>r_data := intData\<rparr>)
            }))"

definition emitLinePTSourceOver8888_pre :: "renderer \<Rightarrow> jint \<Rightarrow> jint \<Rightarrow> renderer option" where
  "emitLinePTSourceOver8888_pre rdr height frac =
     (let imageScanlineStride = r_imageScanlineStride rdr;
          imagePixelStride = r_imagePixelStride rdr;
          lfrac = i32 (drop_bit 16 (i64 (r_el_lfrac rdr * frac)));
          rfrac = i32 (drop_bit 16 (i64 (r_el_rfrac rdr * frac)));
          minX = r_minTouched rdr;
          paint_stride = r_alphaWidth rdr;
          w = i32 (r_alphaWidth rdr - (if lfrac \<noteq> 0 then 1 else 0) - (if rfrac \<noteq> 0 then 1 else 0));
          blend = (\<lambda>f cval p. blendSrcOver8888_pre_pre p f (pxA cval) (pxR cval) (pxG cval) (pxB cval))
      in do {
        (intData, _) \<leftarrow> for_loop height (\<lambda>j (intData, imageOffset, paint_offset). do {
          let iidx = i32 (imageOffset + minX * imagePixelStride);
          intData \<leftarrow> paint_row imagePixelStride (lfrac \<noteq> 0) (rfrac \<noteq> 0) w
            (blend (drop_bit 8 lfrac))
            (\<lambda>cval intData a.
              if frac = 0x10000 then
                (let palpha = pxA cval
                 in if palpha = 0 then Some intData
                    else if palpha = MAX_ALPHA then wr intData a cval
                    else upd intData a
                      (\<lambda>p. blendSrcOver8888_pre_pre_fullFrac p palpha (pxR cval) (pxG cval) (pxB cval)))
              else upd intData a (blend (drop_bit 8 frac) cval))
            (blend (drop_bit 8 rfrac)) (r_paint rdr) iidx paint_offset intData;
          Some (intData, i32 (imageOffset + imageScanlineStride), i32 (paint_offset + paint_stride))
        }) (r_data rdr, r_currImageOffset rdr, 0);
        Some (rdr\<lparr>r_data := intData\<rparr>)
      })"

section \<open>Rows of accumulated coverage\<close>

text \<open>
  \<^verbatim>\<open>_rowAAInt\<close> holds the differences of the coverage along a row. A blitter sums them up, clears each
  entry it has read, and maps the sum through \<^verbatim>\<open>alphaMap\<close> to a coverage in 0..255. The body of the
  inner loop, one pixel, is the definition ending in \<open>_step\<close>.
\<close>

definition blitSrc8888_pre_step :: "renderer \<Rightarrow> int \<Rightarrow> jint list \<times> jint list \<times> jint \<times> jint \<Rightarrow> (jint list \<times> jint list \<times> jint \<times> jint) option" where
  "blitSrc8888_pre_step rdr = (\<lambda>a (intData, alpha, iidx, aval_relative).
     do {
       d \<leftarrow> rd alpha a;
       let aval_relative = i32 (aval_relative + d);
       alpha \<leftarrow> wr alpha a 0;
       m \<leftarrow> rd (r_alphaMap rdr) aval_relative;
       let acoverage = m AND 0xff;
       intData \<leftarrow>
         (if acoverage = MAX_ALPHA then wr intData iidx (argb (r_calpha rdr) (r_cred rdr) (r_cgreen rdr) (r_cblue rdr))
          else if 0 < acoverage then
            (let aval = drop_bit 8 (i32 ((acoverage + 1) * r_calpha rdr))
             in upd intData iidx (\<lambda>p. blendSrc8888_pre p aval (255 - acoverage) (r_cred rdr) (r_cgreen rdr) (r_cblue rdr)))
          else Some intData);
       Some (intData, alpha, i32 (iidx + r_imagePixelStride rdr), aval_relative)
     })"

definition blitSrc8888_pre :: "renderer \<Rightarrow> jint \<Rightarrow> renderer option" where
  "blitSrc8888_pre rdr height =
     (let imageScanlineStride = r_imageScanlineStride rdr;
          imagePixelStride = r_imagePixelStride rdr;
          minX = r_minTouched rdr;
          maxX = r_maxTouched rdr;
          w = (if minX \<le> maxX then i32 (maxX - minX + 1) else 0)
      in do {
        (intData, alpha, _) \<leftarrow> for_loop height (\<lambda>j (intData, alpha, imageOffset). do {
          let iidx = i32 (imageOffset + minX * imagePixelStride);
          (intData, alpha, _) \<leftarrow> ptr_loop 0 w 1 (blitSrc8888_pre_step rdr) (intData, alpha, iidx, 0);
          Some (intData, alpha, i32 (imageOffset + imageScanlineStride))
        }) (r_data rdr, r_rowAAInt rdr, r_currImageOffset rdr);
        Some (rdr\<lparr>r_data := intData, r_rowAAInt := alpha\<rparr>)
      })"

definition blitPTSrc8888_pre_step :: "renderer \<Rightarrow> int \<Rightarrow> jint list \<times> jint list \<times> jint \<times> jint \<times> jint \<Rightarrow> (jint list \<times> jint list \<times> jint \<times> jint \<times> jint) option" where
  "blitPTSrc8888_pre_step rdr = (\<lambda>a (intData, alpha, aidx, iidx, aval_relative).
     do {
       cval \<leftarrow> rd (r_paint rdr) aidx;
       let palpha = pxA cval;
       d \<leftarrow> rd alpha a;
       let aval_relative = i32 (aval_relative + d);
       alpha \<leftarrow> wr alpha a 0;
       m \<leftarrow> rd (r_alphaMap rdr) aval_relative;
       let acoverage = m AND 0xff;
       intData \<leftarrow>
         (if acoverage = MAX_ALPHA then wr intData iidx cval
          else if 0 < acoverage then
            (let aval = drop_bit 8 (i32 ((acoverage + 1) * palpha))
             in upd intData iidx
                  (\<lambda>p. blendSrc8888_pre_pre p aval (255 - acoverage) (pxR cval) (pxG cval) (pxB cval)))
          else Some intData);
       Some (intData, alpha, i32 (aidx + 1), i32 (iidx + r_imagePixelStride rdr), aval_relative)
     })"

definition blitPTSrc8888_pre :: "renderer \<Rightarrow> jint \<Rightarrow> renderer option" where
  "blitPTSrc8888_pre rdr height =
     (let imageScanlineStride = r_imageScanlineStride rdr;
          imagePixelStride = r_imagePixelStride rdr;
          minX = r_minTouched rdr;
          maxX = r_maxTouched rdr;
          w = (if minX \<le> maxX then i32 (maxX - minX + 1) else 0)
      in do {
        (intData, alpha, _) \<leftarrow> for_loop height (\<lambda>j (intData, alpha, imageOffset). do {
          let iidx = i32 (imageOffset + minX * imagePixelStride);
          (intData, alpha, _) \<leftarrow> ptr_loop 0 w 1 (blitPTSrc8888_pre_step rdr) (intData, alpha, 0, iidx, 0);
          Some (intData, alpha, i32 (imageOffset + imageScanlineStride))
        }) (r_data rdr, r_rowAAInt rdr, r_currImageOffset rdr);
        Some (rdr\<lparr>r_data := intData, r_rowAAInt := alpha\<rparr>)
      })"

definition blitSrcOver8888_pre_step :: "renderer \<Rightarrow> int \<Rightarrow> jint list \<times> jint list \<times> jint \<times> jint \<Rightarrow> (jint list \<times> jint list \<times> jint \<times> jint) option" where
  "blitSrcOver8888_pre_step rdr = (\<lambda>a (intData, alpha, iidx, aval_relative).
     do {
       d \<leftarrow> rd alpha a;
       let aval_relative = i32 (aval_relative + d);
       alpha \<leftarrow> wr alpha a 0;
       intData \<leftarrow>
         (if aval_relative \<noteq> 0 then do {
            m \<leftarrow> rd (r_alphaMap rdr) aval_relative;
            let aval = m AND 0xff;
            let aval = drop_bit 8 (i32 ((aval + 1) * r_calpha rdr));
            (if aval = MAX_ALPHA then wr intData iidx (argb 0xff (r_cred rdr) (r_cgreen rdr) (r_cblue rdr))
             else if 0 < aval then upd intData iidx (\<lambda>p. blendSrcOver8888_pre p aval (r_cred rdr) (r_cgreen rdr) (r_cblue rdr))
             else Some intData)
          } else Some intData);
       Some (intData, alpha, i32 (iidx + r_imagePixelStride rdr), aval_relative)
     })"

definition blitSrcOver8888_pre :: "renderer \<Rightarrow> jint \<Rightarrow> renderer option" where
  "blitSrcOver8888_pre rdr height =
     (let imageScanlineStride = r_imageScanlineStride rdr;
          imagePixelStride = r_imagePixelStride rdr;
          minX = r_minTouched rdr;
          maxX = r_maxTouched rdr;
          w = (if minX \<le> maxX then i32 (maxX - minX + 1) else 0)
      in do {
        (intData, alpha, _) \<leftarrow> for_loop height (\<lambda>j (intData, alpha, imageOffset). do {
          let iidx = i32 (imageOffset + minX * imagePixelStride);
          (intData, alpha, _) \<leftarrow> ptr_loop 0 w 1 (blitSrcOver8888_pre_step rdr) (intData, alpha, iidx, 0);
          Some (intData, alpha, i32 (imageOffset + imageScanlineStride))
        }) (r_data rdr, r_rowAAInt rdr, r_currImageOffset rdr);
        Some (rdr\<lparr>r_data := intData, r_rowAAInt := alpha\<rparr>)
      })"

definition blitPTSrcOver8888_pre_step :: "renderer \<Rightarrow> int \<Rightarrow> jint list \<times> jint list \<times> jint \<times> jint \<times> jint \<Rightarrow> (jint list \<times> jint list \<times> jint \<times> jint \<times> jint) option" where
  "blitPTSrcOver8888_pre_step rdr = (\<lambda>a (intData, alpha, aidx, iidx, aval_relative).
     do {
       cval \<leftarrow> rd (r_paint rdr) aidx;
       let palpha = pxA cval;
       d \<leftarrow> rd alpha a;
       let aval_relative = i32 (aval_relative + d);
       alpha \<leftarrow> wr alpha a 0;
       intData \<leftarrow>
         (if aval_relative \<noteq> 0 then do {
            m \<leftarrow> rd (r_alphaMap rdr) aval_relative;
            let malpha = m AND 0xff;
            let aval = drop_bit 8 (i32 ((malpha + 1) * palpha));
            (if aval = MAX_ALPHA then wr intData iidx cval
             else if 0 < aval then upd intData iidx
               (\<lambda>p. blendSrcOver8888_pre_pre p (malpha + 1) palpha (pxR cval) (pxG cval) (pxB cval))
             else Some intData)
          } else Some intData);
       Some (intData, alpha, i32 (aidx + 1), i32 (iidx + r_imagePixelStride rdr), aval_relative)
     })"

definition blitPTSrcOver8888_pre :: "renderer \<Rightarrow> jint \<Rightarrow> renderer option" where
  "blitPTSrcOver8888_pre rdr height =
     (let imageScanlineStride = r_imageScanlineStride rdr;
          imagePixelStride = r_imagePixelStride rdr;
          minX = r_minTouched rdr;
          maxX = r_maxTouched rdr;
          w = (if minX \<le> maxX then i32 (maxX - minX + 1) else 0)
      in do {
        (intData, alpha, _) \<leftarrow> for_loop height (\<lambda>j (intData, alpha, imageOffset). do {
          let iidx = i32 (imageOffset + minX * imagePixelStride);
          (intData, alpha, _) \<leftarrow> ptr_loop 0 w 1 (blitPTSrcOver8888_pre_step rdr) (intData, alpha, 0, iidx, 0);
          Some (intData, alpha, i32 (imageOffset + imageScanlineStride))
        }) (r_data rdr, r_rowAAInt rdr, r_currImageOffset rdr);
        Some (rdr\<lparr>r_data := intData, r_rowAAInt := alpha\<rparr>)
      })"

section \<open>Masks\<close>

text \<open>
  The mask blitters take the coverage from the bytes of \<^verbatim>\<open>_mask_byteData\<close>. Those for a flat colour
  advance by \<^verbatim>\<open>_alphaWidth\<close> bytes per row; those for a paint are called for one row at a time.
\<close>

definition blitSrcMask8888_pre_step :: "renderer \<Rightarrow> int \<Rightarrow> jint list \<times> jint \<Rightarrow> (jint list \<times> jint) option" where
  "blitSrcMask8888_pre_step rdr = (\<lambda>a (intData, iidx).
     do {
       m \<leftarrow> rd (r_mask_byteData rdr) a;
       let acoverage = m AND 0xff;
       intData \<leftarrow>
         (if acoverage = MAX_ALPHA then wr intData iidx (argb (r_calpha rdr) (r_cred rdr) (r_cgreen rdr) (r_cblue rdr))
          else if 0 < acoverage then
            (let aval = drop_bit 8 (i32 ((acoverage + 1) * r_calpha rdr))
             in upd intData iidx (\<lambda>p. blendSrc8888_pre p aval (255 - acoverage) (r_cred rdr) (r_cgreen rdr) (r_cblue rdr)))
          else Some intData);
       Some (intData, i32 (iidx + r_imagePixelStride rdr))
     })"

definition blitSrcMask8888_pre :: "renderer \<Rightarrow> jint \<Rightarrow> renderer option" where
  "blitSrcMask8888_pre rdr height =
     (let imageScanlineStride = r_imageScanlineStride rdr;
          imagePixelStride = r_imagePixelStride rdr;
          alphaStride = r_alphaWidth rdr;
          minX = r_minTouched rdr;
          maxX = r_maxTouched rdr;
          w = (if minX \<le> maxX then i32 (maxX - minX + 1) else 0)
      in do {
        (intData, _) \<leftarrow> for_loop height (\<lambda>j (intData, imageOffset, alphaOffset). do {
          let iidx = i32 (imageOffset + minX * imagePixelStride);
          (intData, _) \<leftarrow> ptr_loop alphaOffset (alphaOffset + w) 1 (blitSrcMask8888_pre_step rdr) (intData, iidx);
          Some (intData, i32 (imageOffset + imageScanlineStride), i32 (alphaOffset + alphaStride))
        }) (r_data rdr, r_currImageOffset rdr, r_maskOffset rdr);
        Some (rdr\<lparr>r_data := intData\<rparr>)
      })"

definition blitPTSrcMask8888_pre_step :: "renderer \<Rightarrow> int \<Rightarrow> jint list \<times> jint \<times> jint \<Rightarrow> (jint list \<times> jint \<times> jint) option" where
  "blitPTSrcMask8888_pre_step rdr = (\<lambda>a (intData, aidx, iidx).
     do {
       cval \<leftarrow> rd (r_paint rdr) aidx;
       let palpha = pxA cval;
       m \<leftarrow> rd (r_mask_byteData rdr) a;
       let acoverage = m AND 0xff;
       intData \<leftarrow>
         (if acoverage = MAX_ALPHA then wr intData iidx cval
          else if 0 < acoverage then
            (let aval = drop_bit 8 (i32 ((acoverage + 1) * palpha))
             in upd intData iidx
                  (\<lambda>p. blendSrc8888_pre_pre p aval (255 - acoverage) (pxR cval) (pxG cval) (pxB cval)))
          else Some intData);
       Some (intData, i32 (aidx + 1), i32 (iidx + r_imagePixelStride rdr))
     })"

definition blitPTSrcMask8888_pre :: "renderer \<Rightarrow> jint \<Rightarrow> renderer option" where
  "blitPTSrcMask8888_pre rdr height =
     (let imageScanlineStride = r_imageScanlineStride rdr;
          imagePixelStride = r_imagePixelStride rdr;
          alphaOffset = r_maskOffset rdr;
          minX = r_minTouched rdr;
          maxX = r_maxTouched rdr;
          w = (if minX \<le> maxX then i32 (maxX - minX + 1) else 0)
      in do {
        (intData, _) \<leftarrow> for_loop height (\<lambda>j (intData, imageOffset). do {
          let iidx = i32 (imageOffset + minX * imagePixelStride);
          (intData, _) \<leftarrow> ptr_loop alphaOffset (alphaOffset + w) 1 (blitPTSrcMask8888_pre_step rdr) (intData, 0, iidx);
          Some (intData, i32 (imageOffset + imageScanlineStride))
        }) (r_data rdr, r_currImageOffset rdr);
        Some (rdr\<lparr>r_data := intData\<rparr>)
      })"

definition blitSrcOverMask8888_pre_step :: "renderer \<Rightarrow> int \<Rightarrow> jint list \<times> jint \<Rightarrow> (jint list \<times> jint) option" where
  "blitSrcOverMask8888_pre_step rdr = (\<lambda>a (intData, iidx).
     do {
       m \<leftarrow> rd (r_mask_byteData rdr) a;
       intData \<leftarrow>
         (if m \<noteq> 0 then
            (let aval = m AND 0xff;
                 aval = drop_bit 8 (i32 ((aval + 1) * r_calpha rdr))
             in if aval = MAX_ALPHA then wr intData iidx (argb 0xff (r_cred rdr) (r_cgreen rdr) (r_cblue rdr))
                else if 0 < aval then upd intData iidx (\<lambda>p. blendSrcOver8888_pre p aval (r_cred rdr) (r_cgreen rdr) (r_cblue rdr))
                else Some intData)
          else Some intData);
       Some (intData, i32 (iidx + r_imagePixelStride rdr))
     })"

definition blitSrcOverMask8888_pre :: "renderer \<Rightarrow> jint \<Rightarrow> renderer option" where
  "blitSrcOverMask8888_pre rdr height =
     (let imageScanlineStride = r_imageScanlineStride rdr;
          imagePixelStride = r_imagePixelStride rdr;
          alphaStride = r_alphaWidth rdr;
          minX = r_minTouched rdr;
          maxX = r_maxTouched rdr;
          w = (if minX \<le> maxX then i32 (maxX - minX + 1) else 0)
      in do {
        (intData, _) \<leftarrow> for_loop height (\<lambda>j (intData, imageOffset, alphaOffset). do {
          let iidx = i32 (imageOffset + minX * imagePixelStride);
          (intData, _) \<leftarrow> ptr_loop alphaOffset (alphaOffset + w) 1 (blitSrcOverMask8888_pre_step rdr) (intData, iidx);
          Some (intData, i32 (imageOffset + imageScanlineStride), i32 (alphaOffset + alphaStride))
        }) (r_data rdr, r_currImageOffset rdr, r_maskOffset rdr);
        Some (rdr\<lparr>r_data := intData\<rparr>)
      })"

definition blitPTSrcOverMask8888_pre_step :: "renderer \<Rightarrow> int \<Rightarrow> jint list \<times> jint \<times> jint \<Rightarrow> (jint list \<times> jint \<times> jint) option" where
  "blitPTSrcOverMask8888_pre_step rdr = (\<lambda>a (intData, aidx, iidx).
     do {
       m \<leftarrow> rd (r_mask_byteData rdr) a;
       intData \<leftarrow>
         (if m \<noteq> 0 then do {
            cval \<leftarrow> rd (r_paint rdr) aidx;
            let palpha = pxA cval;
            let malpha = m AND 0xff;
            let aval = drop_bit 8 (i32 ((malpha + 1) * palpha));
            (if aval = MAX_ALPHA then wr intData iidx cval
             else if 0 < aval then upd intData iidx
               (\<lambda>p. blendSrcOver8888_pre_pre p (malpha + 1) palpha (pxR cval) (pxG cval) (pxB cval))
             else Some intData)
          } else Some intData);
       Some (intData, i32 (aidx + 1), i32 (iidx + r_imagePixelStride rdr))
     })"

definition blitPTSrcOverMask8888_pre :: "renderer \<Rightarrow> jint \<Rightarrow> renderer option" where
  "blitPTSrcOverMask8888_pre rdr height =
     (let imageScanlineStride = r_imageScanlineStride rdr;
          imagePixelStride = r_imagePixelStride rdr;
          alphaOffset = r_maskOffset rdr;
          minX = r_minTouched rdr;
          maxX = r_maxTouched rdr;
          w = (if minX \<le> maxX then i32 (maxX - minX + 1) else 0)
      in do {
        (intData, _) \<leftarrow> for_loop height (\<lambda>j (intData, imageOffset). do {
          let iidx = i32 (imageOffset + minX * imagePixelStride);
          (intData, _) \<leftarrow> ptr_loop alphaOffset (alphaOffset + w) 1 (blitPTSrcOverMask8888_pre_step rdr) (intData, 0, iidx);
          Some (intData, i32 (imageOffset + imageScanlineStride))
        }) (r_data rdr, r_currImageOffset rdr);
        Some (rdr\<lparr>r_data := intData\<rparr>)
      })"

text \<open>The static gamma tables of the file; \<^verbatim>\<open>pow\<close> is the C library's and a parameter.\<close>

record gamma_state =
  currentGamma :: jfloat
  gammaArray :: "jint list"
  invGammaArray :: "jint list"

definition gamma_init :: gamma_state where
  "gamma_init = \<lparr>currentGamma = fint (- 1), gammaArray = replicate 256 0, invGammaArray = replicate 256 0\<rparr>"

text \<open>C's \<^verbatim>\<open>!=\<close> on floats: true when an operand is not a number.\<close>

definition fp_neq :: "fp \<Rightarrow> fp \<Rightarrow> bool" where
  "fp_neq x y \<longleftrightarrow> x = NaN \<or> y = NaN \<or> fp_less x y \<or> fp_less y x"

definition gamma_entry :: "(fp \<Rightarrow> fp \<Rightarrow> fp) \<Rightarrow> jfloat \<Rightarrow> int \<Rightarrow> jint" where
  "gamma_entry pow g i =
     fp_to_jint (fp_mul F64 (fp_of_int F64 255)
       (pow (fp_div F64 (fp_of_int F64 i) (fp_of_int F64 255)) (fp_convert F64 g)))"

definition initGammaArrays :: "(fp \<Rightarrow> fp \<Rightarrow> fp) \<Rightarrow> jfloat \<Rightarrow> gamma_state \<Rightarrow> gamma_state" where
  "initGammaArrays pow gamma st =
     (if fp_neq (currentGamma st) gamma then
        (let invgamma = fdiv (fint 1) gamma
         in \<lparr>currentGamma = gamma,
             gammaArray = map (gamma_entry pow gamma) [0..255],
             invGammaArray = map (gamma_entry pow invgamma) [0..255]\<rparr>)
      else st)"

definition blitSrcOverLCDMask8888_pre_step ::
    "gamma_state \<Rightarrow> renderer \<Rightarrow> jint \<times> jint \<times> jint \<times> jint \<Rightarrow> int \<Rightarrow> jint list \<times> jint \<Rightarrow> (jint list \<times> jint) option" where
  "blitSrcOverLCDMask8888_pre_step gs rdr = (\<lambda>(calpha, cred, cgreen, cblue) a (intData, iidx).
     do {
       mr \<leftarrow> rd (r_mask_byteData rdr) a;
       mg \<leftarrow> rd (r_mask_byteData rdr) (a + 1);
       mb \<leftarrow> rd (r_mask_byteData rdr) (a + 2);
       let ared = mr AND 0xff;
       let agreen = mg AND 0xff;
       let ablue = mb AND 0xff;
       let (ared, agreen, ablue) =
         (if calpha < MAX_ALPHA
          then (drop_bit 8 (i32 ((ared + 1) * calpha)), drop_bit 8 (i32 ((agreen + 1) * calpha)),
                drop_bit 8 (i32 ((ablue + 1) * calpha)))
          else (ared, agreen, ablue));
       let aval_ismax = ared AND agreen AND ablue;
       intData \<leftarrow>
         (if aval_ismax = MAX_ALPHA then wr intData iidx (argb 0xff cred cgreen cblue)
          else do {
            p \<leftarrow> rd intData iidx;
            q \<leftarrow> blendLCDSrcOver8888_pre (gammaArray gs) (invGammaArray gs) p ared agreen ablue cred cgreen cblue;
            wr intData iidx q
          });
       Some (intData, i32 (iidx + r_imagePixelStride rdr))
     })"

definition blitSrcOverLCDMask8888_pre :: "gamma_state \<Rightarrow> renderer \<Rightarrow> jint \<Rightarrow> renderer option" where
  "blitSrcOverLCDMask8888_pre gs rdr height =
     (let imageScanlineStride = r_imageScanlineStride rdr;
          imagePixelStride = r_imagePixelStride rdr;
          alphaStride = r_alphaWidth rdr;
          minX = r_minTouched rdr;
          maxX = r_maxTouched rdr;
          w = (if minX \<le> maxX then i32 (maxX - minX + 1) else 0)
      in do {
        calpha \<leftarrow> rd (invGammaArray gs) (r_calpha rdr);
        cred \<leftarrow> rd (invGammaArray gs) (r_cred rdr);
        cgreen \<leftarrow> rd (invGammaArray gs) (r_cgreen rdr);
        cblue \<leftarrow> rd (invGammaArray gs) (r_cblue rdr);
        (intData, _) \<leftarrow> for_loop height (\<lambda>j (intData, imageOffset, alphaOffset). do {
          let iidx = i32 (imageOffset + minX * imagePixelStride);
          (intData, _) \<leftarrow> ptr_loop alphaOffset (alphaOffset + i32 (3 * w)) 3 (blitSrcOverLCDMask8888_pre_step gs rdr (calpha, cred, cgreen, cblue)) (intData, iidx);
          Some (intData, i32 (imageOffset + imageScanlineStride), i32 (alphaOffset + alphaStride))
        }) (r_data rdr, r_currImageOffset rdr, r_maskOffset rdr);
        Some (rdr\<lparr>r_data := intData\<rparr>)
      })"

section \<open>Clearing\<close>

text \<open>
  \<^verbatim>\<open>memset(p, 0, n)\<close> and \<^verbatim>\<open>memcpy(p, q, n)\<close> on 32-bit cells of one buffer, with \<open>n\<close> in bytes. A negative
  \<open>n\<close> becomes a huge \<^verbatim>\<open>size_t\<close>; copying between overlapping ranges has no defined result.
\<close>

definition memset0 :: "jint list \<Rightarrow> int \<Rightarrow> int \<Rightarrow> jint list option" where
  "memset0 xs p bytes =
     (let n = bytes div 4
      in if bytes < 0 then None
         else if n = 0 then Some xs
         else if 0 \<le> p \<and> p + n \<le> int (length xs)
         then Some (take (nat p) xs @ replicate (nat n) 0 @ drop (nat (p + n)) xs)
         else None)"

definition memcpy32 :: "jint list \<Rightarrow> int \<Rightarrow> int \<Rightarrow> int \<Rightarrow> jint list option" where
  "memcpy32 xs p q bytes =
     (let n = bytes div 4
      in if bytes < 0 then None
         else if n = 0 then Some xs
         else if 0 \<le> p \<and> p + n \<le> int (length xs) \<and> 0 \<le> q \<and> q + n \<le> int (length xs) \<and> n \<le> \<bar>p - q\<bar>
         then Some (take (nat p) xs @ take (nat n) (drop (nat q) xs) @ drop (nat (p + n)) xs)
         else None)"

definition clearRect8888_any :: "renderer \<Rightarrow> jint \<Rightarrow> jint \<Rightarrow> jint \<Rightarrow> jint \<Rightarrow> renderer option" where
  "clearRect8888_any rdr x y w h =
     (let cval = argb (r_calpha rdr) (r_cred rdr) (r_cgreen rdr) (r_cblue rdr);
          pixelStride = r_imagePixelStride rdr;
          stride = r_imageScanlineStride rdr;
          p = r_imageOffset rdr + i32 (y * stride) + i32 (x * pixelStride);
          size = i32 (4 * w)
      in do {
        intData \<leftarrow>
          (if cval = 0 then
             (if x = 0 \<and> w = r_width rdr then memset0 (r_data rdr) p (i32 (size * h))
              else do {
                (d, _) \<leftarrow> for_loop h (\<lambda>j (d, p). do {
                  d \<leftarrow> memset0 d p size;
                  Some (d, p + stride)
                }) (r_data rdr, p);
                Some d
              })
           else do {
             d \<leftarrow> ptr_loop p (p + w) 1 (\<lambda>a d. wr d a cval) (r_data rdr);
             (d, _) \<leftarrow> for_loop (i32 (h - 1)) (\<lambda>j (d, q). do {
               d \<leftarrow> memcpy32 d q p size;
               Some (d, q + stride)
             }) (d, p + stride);
             Some d
           });
        Some (rdr\<lparr>r_data := intData\<rparr>)
      })"

end
