(* ===== verification/Pisces_Paint.thy ===== *)
theory Pisces_Paint
  imports Pisces_Renderer
begin

text \<open>
  The paint generators of \<^verbatim>\<open>PiscesPaint.c\<close>: they fill the paint buffer with the colours of a gradient or
  a texture for the pixels about to be drawn. Reads of the texture and writes of the paint buffer are
  checked; \<^const>\<open>None\<close> is an access outside them or a division by zero.
\<close>

section \<open>Gradients\<close>

definition lmod :: "jlong \<Rightarrow> jlong \<Rightarrow> jlong option" where
  "lmod x y = do {
     x \<leftarrow> c_mod x y;
     Some (if x < 0 then i64 (x + y) else x)
   }"

definition interp :: "jint \<Rightarrow> jint \<Rightarrow> jint \<Rightarrow> jint" where
  "interp x0 x1 frac = drop_bit 16 (i32 (push_bit 16 x0 + (x1 - x0) * frac + 0x8000))"

definition pad :: "jint \<Rightarrow> jint \<Rightarrow> jint" where
  "pad ifrac cycleMethod =
     (if cycleMethod = CYCLE_NONE then
        (if ifrac < 0 then 0 else if 0xffff < ifrac then 0xffff else ifrac)
      else if cycleMethod = CYCLE_REPEAT then ifrac AND 0xffff
      else if cycleMethod = CYCLE_REFLECT then
        (let ifrac = (if ifrac < 0 then i32 (- ifrac) else ifrac);
             ifrac = ifrac AND 0x1ffff
         in if 0xffff < ifrac then 0x1ffff - ifrac else ifrac)
      else ifrac)"

text \<open>One row of a gradient: \<open>width\<close> entries from \<open>paintOffset\<close> on.\<close>

definition linear_gradient_row :: "renderer \<Rightarrow> jint \<Rightarrow> jint \<Rightarrow> jint list \<Rightarrow> jint list option" where
  "linear_gradient_row rdr y paintOffset paint =
     (let width = r_alphaWidth rdr;
          cycleMethod = r_gradient_cycleMethod rdr;
          mx = lg_mx (r_gradient rdr);
          my = lg_my (r_gradient rdr);
          b = lg_b (r_gradient rdr);
          colors = r_gradient_colors rdr;
          x = r_currX rdr;
          frac = fadd (fadd (fmul (fint x) mx) (fmul (fint y) my)) b
      in do {
        (paint, _) \<leftarrow> for_loop width (\<lambda>i (paint, frac, pidx). do {
          let ifrac = pad (fp_to_jint frac) cycleMethod;
          let ifrac = drop_bit (16 - LG_GRADIENT_MAP_SIZE) ifrac;
          c \<leftarrow> rd colors ifrac;
          paint \<leftarrow> wr paint pidx c;
          Some (paint, fadd frac mx, i32 (pidx + 1))
        }) (paint, frac, paintOffset);
        Some paint
      })"

definition genLinearGradientPaint :: "renderer \<Rightarrow> jint \<Rightarrow> renderer option" where
  "genLinearGradientPaint rdr height = do {
     (paint, _) \<leftarrow> for_loop height (\<lambda>j (paint, y, paintOffset). do {
       paint \<leftarrow> linear_gradient_row rdr y paintOffset paint;
       Some (paint, i32 (y + 1), i32 (paintOffset + r_alphaWidth rdr))
     }) (r_paint rdr, r_currY rdr, 0);
     Some (rdr\<lparr>r_paint := paint\<rparr>)
   }"

text \<open>
  The start of a row of the radial gradient: \<open>(U, V, dU, dV, ddV)\<close> in the fixed point of the loop.
\<close>

definition radial_row :: "gradient_geometry \<Rightarrow> jint \<Rightarrow> jint \<Rightarrow> jfloat \<times> jfloat \<times> jfloat \<times> jfloat \<times> jfloat" where
  "radial_row g x y =
     (let a00 = rg_a00 g; a01 = rg_a01 g; a02 = rg_a02 g; a10 = rg_a10 g; a11 = rg_a11 g; a12 = rg_a12 g;
          a00a00 = rg_a00a00 g; a10a10 = rg_a10a10 g; a00a10 = rg_a00a10 g;
          cx = rg_cx g; cy = rg_cy g; fx = rg_fx g; fy = rg_fy g; rsq = rg_rsq g;
          two = fint 2; f65536sq = fmul f65536 f65536;
          txx = fadd (fadd (fmul (fint x) a00) (fmul (fint y) a01)) a02;
          tyy = fadd (fadd (fmul (fint x) a10) (fmul (fint y) a11)) a12;
          fxx = fsub fx txx;
          fyy = fsub fy tyy;
          A = fadd (fmul fxx fxx) (fmul fyy fyy);
          cfx = fsub cx fx;
          cfy = fsub cy fy;
          cfxcfx = fmul cfx cfx;
          cfycfy = fmul cfy cfy;
          cfxcfy = fmul cfx cfy;
          B = fadd (fmul cfx fxx) (fmul cfy fyy);
          B2 = fmul (fp_neg B) two;
          C = fsub (fadd cfxcfx cfycfy) rsq;
          C2 = fmul two C;
          C' = fdiv (fint 1) C;
          Csq' = fmul C' C';
          U = fmul (fp_neg B) C';
          dU = fmul (fadd (fmul a00 cfx) (fmul a10 cfy)) C';
          V = fmul (fsub (fmul B B) (fmul A C)) Csq';
          sube = fmul (fmul two a00a10) cfxcfy;
          dV = fmul
            (fadd (fadd sube
              (fadd (fmul a00a00 (fsub cfxcfx C)) (fmul a00 (fadd (fmul B2 cfx) (fmul C2 fxx)))))
              (fadd (fmul a10a10 (fsub cfycfy C)) (fmul a10 (fadd (fmul B2 cfy) (fmul C2 fyy)))))
            Csq';
          tmp = fadd (fsub (fmul a00a00 cfycfy) sube) (fmul a10a10 cfxcfx);
          ddV = fmul (fmul two (fsub (fmul (fadd a00a00 a10a10) rsq) tmp)) Csq'
      in (fmul f65536 U, fmul f65536sq V, fmul f65536 dU, fmul f65536sq dV, fmul f65536sq ddV))"

definition radial_gradient_row :: "renderer \<Rightarrow> jint \<Rightarrow> jint \<Rightarrow> jint list \<Rightarrow> jint list option" where
  "radial_gradient_row rdr y paintOffset paint =
     (let width = r_alphaWidth rdr;
          cycleMethod = r_gradient_cycleMethod rdr;
          colors = r_gradient_colors rdr;
          x = r_currX rdr;
          (U, V, dU, dV, ddV) = radial_row (r_gradient rdr) x y
      in do {
        (paint, _) \<leftarrow> for_loop width (\<lambda>i (paint, U, V, dV, pidx). do {
          let V = (if fp_less V (fint 0) then fint 0 else V);
          let ifrac = fp_to_jint (fp_add F64 (fp_convert F64 U) (fp_sqrt F64 (fp_convert F64 V)));
          let U = fadd U dU;
          let V = fadd V dV;
          let dV = fadd dV ddV;
          let ifrac = pad ifrac cycleMethod;
          let ifrac = drop_bit (16 - LG_GRADIENT_MAP_SIZE) ifrac;
          c \<leftarrow> rd colors ifrac;
          paint \<leftarrow> wr paint pidx c;
          Some (paint, U, V, dV, i32 (pidx + 1))
        }) (paint, U, V, dV, paintOffset);
        Some paint
      })"

definition genRadialGradientPaint :: "renderer \<Rightarrow> jint \<Rightarrow> renderer option" where
  "genRadialGradientPaint rdr height = do {
     (paint, _) \<leftarrow> for_loop height (\<lambda>j (paint, y, paintOffset). do {
       paint \<leftarrow> radial_gradient_row rdr y paintOffset paint;
       Some (paint, i32 (y + 1), i32 (paintOffset + r_alphaWidth rdr))
     }) (r_paint rdr, r_currY rdr, 0);
     Some (rdr\<lparr>r_paint := paint\<rparr>)
   }"

section \<open>Interpolation\<close>

definition interpolate2points :: "jint \<Rightarrow> jint \<Rightarrow> jint \<Rightarrow> jint" where
  "interpolate2points p0 p1 frac =
     (let aa = interp (pxA p0) (pxA p1) frac;
          rr = interp (pxR p0) (pxR p1) frac;
          gg = interp (pxG p0) (pxG p1) frac;
          bb = interp (pxB p0) (pxB p1) frac
      in argb aa rr gg bb)"

definition interpolate4points :: "jint \<Rightarrow> jint \<Rightarrow> jint \<Rightarrow> jint \<Rightarrow> jint \<Rightarrow> jint \<Rightarrow> jint" where
  "interpolate4points p00 p01 p10 p11 hfrac vfrac =
     (let a0 = interp (pxA p00) (pxA p01) hfrac;
          r0 = interp (pxR p00) (pxR p01) hfrac;
          g0 = interp (pxG p00) (pxG p01) hfrac;
          b0 = interp (pxB p00) (pxB p01) hfrac;
          a1 = interp (pxA p10) (pxA p11) hfrac;
          r1 = interp (pxR p10) (pxR p11) hfrac;
          g1 = interp (pxG p10) (pxG p11) hfrac;
          b1 = interp (pxB p10) (pxB p11) hfrac
      in argb (interp a0 a1 vfrac) (interp r0 r1 vfrac) (interp g0 g1 vfrac) (interp b0 b1 vfrac))"

definition interpolate2pointsNoAlpha :: "jint \<Rightarrow> jint \<Rightarrow> jint \<Rightarrow> jint" where
  "interpolate2pointsNoAlpha p0 p1 frac =
     (let rr = interp (pxR p0) (pxR p1) frac;
          gg = interp (pxG p0) (pxG p1) frac;
          bb = interp (pxB p0) (pxB p1) frac
      in argb 0xff rr gg bb)"

definition interpolate4pointsNoAlpha :: "jint \<Rightarrow> jint \<Rightarrow> jint \<Rightarrow> jint \<Rightarrow> jint \<Rightarrow> jint \<Rightarrow> jint" where
  "interpolate4pointsNoAlpha p00 p01 p10 p11 hfrac vfrac =
     (let r0 = interp (pxR p00) (pxR p01) hfrac;
          g0 = interp (pxG p00) (pxG p01) hfrac;
          b0 = interp (pxB p00) (pxB p01) hfrac;
          r1 = interp (pxR p10) (pxR p11) hfrac;
          g1 = interp (pxG p10) (pxG p11) hfrac;
          b1 = interp (pxB p10) (pxB p11) hfrac
      in argb 0xff (interp r0 r1 vfrac) (interp g0 g1 vfrac) (interp b0 b1 vfrac))"

section \<open>Texture addressing\<close>

definition isInBoundsNoRepeat :: "jint \<Rightarrow> jint \<Rightarrow> jint \<Rightarrow> bool" where
  "isInBoundsNoRepeat aval mn mx = (\<not> (aval < mn \<or> mx < aval))"

text \<open>The pair is \<^verbatim>\<open>(*a, *la)\<close>. The shift \<^verbatim>\<open>(max+1) << 16\<close> is one of 32-bit integers.\<close>

definition checkBoundsRepeat :: "jint \<times> jlong \<Rightarrow> jint \<Rightarrow> jint \<Rightarrow> (jint \<times> jlong) option" where
  "checkBoundsRepeat = (\<lambda>(a, la) mn mx.
     if a < mn \<or> mx < a then
       (if 0 \<le> mx then do {
          la \<leftarrow> lmod la (i32 (push_bit 16 (mx + 1)));
          Some (i32 (drop_bit 16 la), la)
        } else Some (0, 0))
     else Some (a, la))"

definition checkBoundsNoRepeat :: "jint \<Rightarrow> jint \<Rightarrow> jint \<Rightarrow> jint" where
  "checkBoundsNoRepeat a mn mx = (if a < mn then mn else if mx < a then mx else a)"

definition getPointsToInterpolate ::
    "jint list \<Rightarrow> jint \<Rightarrow> jint \<Rightarrow> jint \<Rightarrow> jint \<Rightarrow> jint \<Rightarrow> jint \<Rightarrow> jint \<Rightarrow> (jint \<times> jint \<times> jint) option" where
  "getPointsToInterpolate data sidx stride p00 tx txMax ty tyMax = do {
     let sidx2 = (if tyMax \<le> ty then sidx else i32 (sidx + stride));
     let isXin = tx < txMax;
     q0 \<leftarrow> (if isXin then rd data (i32 (sidx + 1)) else Some p00);
     q1 \<leftarrow> rd data sidx2;
     q2 \<leftarrow> (if isXin then rd data (i32 (sidx2 + 1)) else rd data sidx2);
     Some (q0, q1, q2)
   }"

definition getPointsToInterpolateRepeat ::
    "jint list \<Rightarrow> jint \<Rightarrow> jint \<Rightarrow> jint \<Rightarrow> jint \<Rightarrow> jint \<Rightarrow> jint \<Rightarrow> jint \<Rightarrow> (jint \<times> jint \<times> jint) option" where
  "getPointsToInterpolateRepeat data sidx stride p00 tx txMax ty tyMax = do {
     let sidx2 = (if tyMax \<le> ty then max tx 0 else i32 (sidx + stride));
     let isXin = tx < txMax;
     q0 \<leftarrow> (if isXin then rd data (i32 (sidx + 1)) else rd data (i32 (sidx - max tx 0)));
     q1 \<leftarrow> rd data sidx2;
     q2 \<leftarrow> (if isXin then rd data (i32 (sidx2 + 1)) else rd data (i32 (sidx2 - max tx 0)));
     Some (q0, q1, q2)
   }"

section \<open>Texture sampling\<close>

text \<open>
  The blocks the eighteen loops of \<^verbatim>\<open>genTexturePaintTarget\<close> share: the address of a texel, and the
  choice between four, two and one neighbours.
\<close>

definition texel_index :: "texture \<Rightarrow> jint \<Rightarrow> jint \<Rightarrow> jint" where
  "texel_index t tx ty = i32 (max 0 ty * tx_stride t + max 0 tx)"

definition sample_points :: "bool \<Rightarrow> jint \<Rightarrow> jint \<times> jint \<times> jint \<Rightarrow> jint \<Rightarrow> jint \<Rightarrow> jint" where
  "sample_points hasAlpha p00 = (\<lambda>(q0, q1, q2) hfrac vfrac.
     if hfrac \<noteq> 0 \<and> vfrac \<noteq> 0 then
       (if hasAlpha then interpolate4points p00 q0 q1 q2 hfrac vfrac
        else interpolate4pointsNoAlpha p00 q0 q1 q2 hfrac vfrac)
     else if hfrac \<noteq> 0 then
       (if hasAlpha then interpolate2points p00 q0 hfrac else interpolate2pointsNoAlpha p00 q0 hfrac)
     else if vfrac \<noteq> 0 then
       (if hasAlpha then interpolate2points p00 q1 vfrac else interpolate2pointsNoAlpha p00 q1 vfrac)
     else p00)"

definition sample_texture :: "texture \<Rightarrow> bool \<Rightarrow> bool \<Rightarrow> jint \<Rightarrow> jint \<Rightarrow> jint \<Rightarrow> jint \<Rightarrow> jint option" where
  "sample_texture t rep hasAlpha tx ty hfrac vfrac = do {
     let sidx = texel_index t tx ty;
     p00 \<leftarrow> rd (tx_intData t) sidx;
     pts \<leftarrow> (if rep then getPointsToInterpolateRepeat else getPointsToInterpolate) (tx_intData t) sidx (tx_stride t) p00
       tx (i32 (tx_imageWidth t - 1)) ty (i32 (tx_imageHeight t - 1));
     Some (sample_points hasAlpha p00 pts hfrac vfrac)
   }"

definition boundsX :: "texture \<Rightarrow> bool \<Rightarrow> jint \<times> jlong \<Rightarrow> (jint \<times> jlong) option" where
  "boundsX t rep = (\<lambda>(tx, ltx).
     if rep then checkBoundsRepeat (tx, ltx) (i32 (tx_txMin t - 1)) (tx_txMax t)
     else Some (checkBoundsNoRepeat tx (i32 (tx_txMin t - 1)) (tx_txMax t), ltx))"

definition boundsY :: "texture \<Rightarrow> bool \<Rightarrow> jint \<times> jlong \<Rightarrow> (jint \<times> jlong) option" where
  "boundsY t rep = (\<lambda>(ty, lty).
     if rep then checkBoundsRepeat (ty, lty) (i32 (tx_tyMin t - 1)) (tx_tyMax t)
     else Some (checkBoundsNoRepeat ty (i32 (tx_tyMin t - 1)) (tx_tyMax t), lty))"

section \<open>Translated textures\<close>

text \<open>
  \<^verbatim>\<open>NO_REPEAT_NO_INTERPOLATE\<close>: the left border, a block copied from the texture row, the right border.
  \<open>row\<close> is the index of the texture row, \<open>a\<close> and \<open>am\<close> are indices of the paint buffer.
\<close>

function border_loop :: "jint list \<Rightarrow> int \<Rightarrow> jint \<Rightarrow> jint list \<Rightarrow> int \<Rightarrow> int \<Rightarrow> jint \<Rightarrow> (jint list \<times> int \<times> jint) option" where
  "border_loop txtData row txMin paint a am tx =
     (if tx < txMin \<and> a < am then
        (case rd txtData (row + txMin) of
           None \<Rightarrow> None
         | Some c \<Rightarrow>
             (case wr paint a c of
                None \<Rightarrow> None
              | Some paint' \<Rightarrow> border_loop txtData row txMin paint' (a + 1) am (i32 (tx + 1))))
      else Some (paint, a, tx))"
  by pat_completeness auto
termination
  by (relation "measure (\<lambda>(txtData, row, txMin, paint, a, am, tx). nat (am - a))") auto

declare border_loop.simps [simp del]

definition memcpy_from :: "jint list \<Rightarrow> int \<Rightarrow> jint list \<Rightarrow> int \<Rightarrow> int \<Rightarrow> jint list option" where
  "memcpy_from dst p src q n =
     (if 0 \<le> p \<and> p + n \<le> int (length dst) \<and> 0 \<le> q \<and> q + n \<le> int (length src)
      then Some (take (nat p) dst @ take (nat n) (drop (nat q) src) @ drop (nat (p + n)) dst)
      else None)"

definition translate_copy_row :: "texture \<Rightarrow> jint \<Rightarrow> jlong \<Rightarrow> int \<Rightarrow> int \<Rightarrow> jint list \<Rightarrow> jint list option" where
  "translate_copy_row t ty ltx a am paint = do {
     let row = i32 (max 0 ty * tx_stride t);
     let tx = i32 (drop_bit 16 ltx);
     (paint, a, tx) \<leftarrow> border_loop (tx_intData t) row (tx_txMin t) paint a am tx;
     let len = i32 (min (am - a) (i32 (tx_txMax t - tx + 1)));
     (paint, a) \<leftarrow>
       (if 0 < len then do {
          paint \<leftarrow> memcpy_from paint a (tx_intData t) (row + tx) len;
          Some (paint, a + len)
        } else Some (paint, a));
     ptr_loop a am 1 (\<lambda>a paint. do {
       c \<leftarrow> rd (tx_intData t) (row + tx_txMax t);
       wr paint a c
     }) paint
   }"

definition translate_repeat_step :: "texture \<Rightarrow> jint \<Rightarrow> int \<Rightarrow> jint list \<times> jlong \<Rightarrow> (jint list \<times> jlong) option" where
  "translate_repeat_step t ty = (\<lambda>pidx (paint, ltx). do {
     let tx = i32 (drop_bit 16 ltx);
     (tx, ltx) \<leftarrow> boundsX t True (tx, ltx);
     c \<leftarrow> rd (tx_intData t) (texel_index t tx ty);
     paint \<leftarrow> wr paint pidx c;
     Some (paint, i64 (ltx + 0x10000))
   })"

definition translate_interpolate_step ::
    "texture \<Rightarrow> bool \<Rightarrow> bool \<Rightarrow> jint \<Rightarrow> jint \<Rightarrow> jint \<Rightarrow> int \<Rightarrow> jint list \<times> jlong \<Rightarrow> (jint list \<times> jlong) option" where
  "translate_interpolate_step t rep hasAlpha ty hfrac vfrac = (\<lambda>pidx (paint, ltx). do {
     let tx = i32 (drop_bit 16 ltx);
     (tx, ltx) \<leftarrow> boundsX t rep (tx, ltx);
     cval \<leftarrow> sample_texture t rep hasAlpha tx ty hfrac vfrac;
     paint \<leftarrow> wr paint pidx cval;
     Some (paint, i64 (ltx + 0x10000))
   })"

text \<open>The 32-bit shifts \<^verbatim>\<open>x << 16\<close> and \<^verbatim>\<open>y << 16\<close> come before the 64-bit sum.\<close>

definition translate_row :: "renderer \<Rightarrow> jint \<Rightarrow> int \<Rightarrow> jint list \<Rightarrow> jint list option" where
  "translate_row rdr y pidx paint =
     (let t = r_texture rdr;
          x = r_currX rdr;
          ltx = i64 (i32 (push_bit 16 x) + tx_m02 t);
          lty = i64 (i32 (push_bit 16 y) + tx_m12 t);
          ty = i32 (drop_bit 16 lty);
          hfrac = ltx AND 0xffff;
          vfrac = lty AND 0xffff;
          am = pidx + r_alphaWidth rdr
      in do {
        (ty, lty) \<leftarrow> boundsY t (tx_repeat t) (ty, lty);
        (if tx_interpolate t then do {
           (paint, _) \<leftarrow> ptr_loop pidx am 1
             (translate_interpolate_step t (tx_repeat t) (tx_hasAlpha t) ty hfrac vfrac) (paint, ltx);
           Some paint
         }
         else if tx_repeat t then do {
           (paint, _) \<leftarrow> ptr_loop pidx am 1 (translate_repeat_step t ty) (paint, ltx);
           Some paint
         }
         else translate_copy_row t ty ltx pidx am paint)
      })"

section \<open>Scaled and general textures\<close>

text \<open>The state is \<open>(paint, ltx, lty)\<close>; the bounds checks of the repeating modes also reduce \<open>ltx\<close> and \<open>lty\<close>.\<close>

definition scale_plain_step ::
    "texture \<Rightarrow> bool \<Rightarrow> int \<Rightarrow> jint list \<times> jlong \<times> jlong \<Rightarrow> (jint list \<times> jlong \<times> jlong) option" where
  "scale_plain_step t rep = (\<lambda>pidx (paint, ltx, lty). do {
     let tx = i32 (drop_bit 16 ltx);
     let ty = i32 (drop_bit 16 lty);
     (tx, ltx) \<leftarrow> boundsX t rep (tx, ltx);
     (ty, lty) \<leftarrow> boundsY t rep (ty, lty);
     c \<leftarrow> rd (tx_intData t) (texel_index t tx ty);
     paint \<leftarrow> wr paint pidx c;
     Some (paint, i64 (ltx + tx_m00 t), i64 (lty + tx_m10 t))
   })"

definition scale_interpolate_step ::
    "texture \<Rightarrow> bool \<Rightarrow> bool \<Rightarrow> int \<Rightarrow> jint list \<times> jlong \<times> jlong \<Rightarrow> (jint list \<times> jlong \<times> jlong) option" where
  "scale_interpolate_step t rep hasAlpha = (\<lambda>pidx (paint, ltx, lty). do {
     let tx = i32 (drop_bit 16 ltx);
     let ty = i32 (drop_bit 16 lty);
     let hfrac = ltx AND 0xffff;
     let vfrac = lty AND 0xffff;
     (tx, ltx) \<leftarrow> boundsX t rep (tx, ltx);
     (ty, lty) \<leftarrow> boundsY t rep (ty, lty);
     cval \<leftarrow> sample_texture t rep hasAlpha tx ty hfrac vfrac;
     paint \<leftarrow> wr paint pidx cval;
     Some (paint, i64 (ltx + tx_m00 t), i64 (lty + tx_m10 t))
   })"

definition in_texture :: "texture \<Rightarrow> jint \<Rightarrow> jint \<Rightarrow> bool" where
  "in_texture t tx ty =
     (isInBoundsNoRepeat tx (i32 (tx_txMin t - 1)) (tx_txMax t) \<and>
      isInBoundsNoRepeat ty (i32 (tx_tyMin t - 1)) (tx_tyMax t))"

text \<open>Without repetition, a general transform leaves pixels outside the texture transparent.\<close>

definition generic_plain_step ::
    "texture \<Rightarrow> bool \<Rightarrow> int \<Rightarrow> jint list \<times> jlong \<times> jlong \<Rightarrow> (jint list \<times> jlong \<times> jlong) option" where
  "generic_plain_step t rep = (\<lambda>pidx (paint, ltx, lty).
     if rep then scale_plain_step t True pidx (paint, ltx, lty)
     else do {
       let tx = i32 (drop_bit 16 ltx);
       let ty = i32 (drop_bit 16 lty);
       c \<leftarrow> (if in_texture t tx ty then rd (tx_intData t) (texel_index t tx ty) else Some 0);
       paint \<leftarrow> wr paint pidx c;
       Some (paint, i64 (ltx + tx_m00 t), i64 (lty + tx_m10 t))
     })"

definition generic_interpolate_step ::
    "texture \<Rightarrow> bool \<Rightarrow> bool \<Rightarrow> int \<Rightarrow> jint list \<times> jlong \<times> jlong \<Rightarrow> (jint list \<times> jlong \<times> jlong) option" where
  "generic_interpolate_step t rep hasAlpha = (\<lambda>pidx (paint, ltx, lty).
     if rep then scale_interpolate_step t True hasAlpha pidx (paint, ltx, lty)
     else do {
       let tx = i32 (drop_bit 16 ltx);
       let ty = i32 (drop_bit 16 lty);
       let hfrac = ltx AND 0xffff;
       let vfrac = lty AND 0xffff;
       c \<leftarrow> (if in_texture t tx ty then sample_texture t False hasAlpha tx ty hfrac vfrac else Some 0);
       paint \<leftarrow> wr paint pidx c;
       Some (paint, i64 (ltx + tx_m00 t), i64 (lty + tx_m10 t))
     })"

definition transform_row ::
    "(int \<Rightarrow> jint list \<times> jlong \<times> jlong \<Rightarrow> (jint list \<times> jlong \<times> jlong) option) \<Rightarrow>
     renderer \<Rightarrow> jint \<Rightarrow> int \<Rightarrow> jint list \<Rightarrow> jint list option" where
  "transform_row step rdr y pidx paint =
     (let t = r_texture rdr;
          x = r_currX rdr;
          ltx = i64 (x * tx_m00 t + y * tx_m01 t + tx_m02 t);
          lty = i64 (x * tx_m10 t + y * tx_m11 t + tx_m12 t)
      in do {
        (paint, _) \<leftarrow> ptr_loop pidx (pidx + r_alphaWidth rdr) 1 step (paint, ltx, lty);
        Some paint
      })"

definition texture_row :: "renderer \<Rightarrow> jint \<Rightarrow> int \<Rightarrow> jint list \<Rightarrow> jint list option" where
  "texture_row rdr =
     (let t = r_texture rdr; kind = tx_transformType t; rep = tx_repeat t; alpha = tx_hasAlpha t
      in if kind = TEXTURE_TRANSFORM_IDENTITY \<or> kind = TEXTURE_TRANSFORM_TRANSLATE then translate_row rdr
         else if kind = TEXTURE_TRANSFORM_SCALE_TRANSLATE then
           transform_row (if tx_interpolate t then scale_interpolate_step t rep alpha else scale_plain_step t rep) rdr
         else if kind = TEXTURE_TRANSFORM_GENERIC then
           transform_row (if tx_interpolate t then generic_interpolate_step t rep alpha else generic_plain_step t rep) rdr
         else (\<lambda>y pidx paint. Some paint))"

definition genTexturePaintTarget :: "renderer \<Rightarrow> jint list \<Rightarrow> jint \<Rightarrow> jint list option" where
  "genTexturePaintTarget rdr paint height = do {
     (paint, _) \<leftarrow> for_loop height (\<lambda>j (paint, y, paintOffset). do {
       paint \<leftarrow> texture_row rdr y paintOffset paint;
       Some (paint, i32 (y + 1), i32 (paintOffset + r_alphaWidth rdr))
     }) (paint, r_currY rdr, 0);
     Some paint
   }"

definition genTexturePaint :: "renderer \<Rightarrow> jint \<Rightarrow> renderer option" where
  "genTexturePaint rdr height = do {
     paint \<leftarrow> genTexturePaintTarget rdr (r_paint rdr) height;
     Some (rdr\<lparr>r_paint := paint\<rparr>)
   }"

section \<open>Modulated textures\<close>

definition multiply_white_px :: "jint \<Rightarrow> jint \<Rightarrow> jint" where
  "multiply_white_px palpha_1 tval =
     argb (drop_bit 8 (i32 (palpha_1 * pxA tval))) (drop_bit 8 (i32 (palpha_1 * pxR tval)))
       (drop_bit 8 (i32 (palpha_1 * pxG tval))) (drop_bit 8 (i32 (palpha_1 * pxB tval)))"

definition multiply_px :: "jint \<Rightarrow> jint \<Rightarrow> jint \<Rightarrow> jint \<Rightarrow> jint \<Rightarrow> jint" where
  "multiply_px palpha_1 cred cgreen cblue tval =
     argb (drop_bit 8 (i32 (palpha_1 * pxA tval)))
       (drop_bit 8 (i32 (drop_bit 8 (i32 ((cred + 1) * pxR tval)) * palpha_1)))
       (drop_bit 8 (i32 (drop_bit 8 (i32 ((cgreen + 1) * pxG tval)) * palpha_1)))
       (drop_bit 8 (i32 (drop_bit 8 (i32 ((cblue + 1) * pxB tval)) * palpha_1)))"

text \<open>The two nested loops over the touched part of the paint rows; \<open>f k old\<close> is the new value at index \<open>k\<close>.\<close>

definition modulate :: "renderer \<Rightarrow> jint \<Rightarrow> (int \<Rightarrow> jint \<Rightarrow> jint option) \<Rightarrow> jint list \<Rightarrow> jint list option" where
  "modulate rdr height f paint =
     (let w = i32 (r_maxTouched rdr - r_minTouched rdr + 1)
      in for_loop height (\<lambda>i paint. do {
           let idx = i32 (i * r_alphaWidth rdr);
           for_loop w (\<lambda>j paint. do {
             v \<leftarrow> rd paint (i32 (idx + j));
             o' \<leftarrow> f (i32 (idx + j)) v;
             wr paint (i32 (idx + j)) o'
           }) paint
         }) paint)"

text \<open>
  The temporary image is allocated for the touched width, \<open>w * height\<close> pixels, and cleared; \<open>alloc\<close> is
  whether the allocation succeeds.
\<close>

definition genTexturePaintMultiply :: "bool \<Rightarrow> renderer \<Rightarrow> jint \<Rightarrow> renderer option" where
  "genTexturePaintMultiply alloc rdr height =
     (let mode = r_prevPaintMode rdr;
          calpha = r_calpha rdr; cred = r_cred rdr; cgreen = r_cgreen rdr; cblue = r_cblue rdr;
          w = i32 (r_maxTouched rdr - r_minTouched rdr + 1)
      in if mode = PAINT_FLAT_COLOR then do {
           paint \<leftarrow> genTexturePaintTarget rdr (r_paint rdr) height;
           let palpha_1 = i32 (calpha + 1);
           paint \<leftarrow>
             (if cred = 0xFF \<and> cgreen = 0xFF \<and> cblue = 0xFF then
                (if calpha < 0xFF then modulate rdr height (\<lambda>k tval. Some (multiply_white_px palpha_1 tval)) paint
                 else Some paint)
              else modulate rdr height (\<lambda>k tval. Some (multiply_px palpha_1 cred cgreen cblue tval)) paint);
           Some (rdr\<lparr>r_paint := paint\<rparr>)
         }
         else if mode = PAINT_LINEAR_GRADIENT \<or> mode = PAINT_RADIAL_GRADIENT then
           (if alloc then do {
              rdr1 \<leftarrow> (if mode = PAINT_LINEAR_GRADIENT then genLinearGradientPaint rdr height
                      else genRadialGradientPaint rdr height);
              imagePaint \<leftarrow> genTexturePaintTarget rdr1 (replicate (nat (i32 (w * height))) 0) height;
              paint \<leftarrow> modulate rdr1 height (\<lambda>k pval. do {
                tval \<leftarrow> rd imagePaint k;
                Some (multiply_px (pxA pval + 1) (pxR pval) (pxG pval) (pxB pval) tval)
              }) (r_paint rdr1);
              Some (rdr1\<lparr>r_paint := paint\<rparr>)
            } else Some rdr)
         else Some rdr)"

end
