(* ===== verification/Pisces_JNI.thy ===== *)
theory Pisces_JNI
  imports Pisces_Validate Pisces_Blit Pisces_Paint
begin

text \<open>
  The entry points Java calls: \<^verbatim>\<open>JPiscesRenderer.c\<close>, \<^verbatim>\<open>JAbstractSurface.c\<close> and \<^verbatim>\<open>JJavaSurface.c\<close>, with the
  error flag of \<^verbatim>\<open>PiscesSysutils.c\<close> and the exceptions of \<^verbatim>\<open>JNIUtil.c\<close>.

  A call ends in one of three ways: it returns, the virtual machine is aborted by \<^verbatim>\<open>FatalError\<close>, or
  the code does something that has no defined result. Whether the virtual machine can pin an array or
  memory can be allocated is not up to the code; the answers are the fields of \<open>jni_env\<close>.
\<close>

section \<open>Outcomes and the environment\<close>

datatype java_exception = OutOfMemoryError | IllegalArgumentException | IllegalStateException

datatype 'a outcome = Fault | Fatal | Done 'a

primrec chain :: "'a outcome \<Rightarrow> ('a \<Rightarrow> 'b outcome) \<Rightarrow> 'b outcome" where
  "chain Fault f = Fault"
| "chain Fatal f = Fatal"
| "chain (Done x) f = f x"

definition lift_op :: "'a option \<Rightarrow> 'a outcome" where
  "lift_op x = (case x of None \<Rightarrow> Fault | Some y \<Rightarrow> Done y)"

lemma lift_op_simps [simp]: "lift_op None = Fault" "lift_op (Some x) = Done x"
  by (simp_all add: lift_op_def)

lemma chain_eq_Done: "chain x f = Done y \<longleftrightarrow> (\<exists>z. x = Done z \<and> f z = Done y)"
  by (cases x) auto

lemma lift_op_eq_Done: "lift_op x = Done y \<longleftrightarrow> x = Some y"
  by (cases x) auto

record jni_env =
  env_surface :: bool
  env_array :: bool
  env_array2 :: bool
  env_alloc :: bool
  env_temp :: bool
  env_class :: bool
  env_thrown :: bool

text \<open>
  \<open>jn_dataInt\<close> is the Java array behind the surface; while it is acquired, \<^verbatim>\<open>surface->data\<close> and
  \<^verbatim>\<open>rdr->_data\<close> point to it.
\<close>

record jni_state =
  jn_pending :: "java_exception option"
  jn_memError :: bool
  jn_surface :: surface
  jn_dataInt :: "jint list"
  jn_rdr :: renderer
  jn_gamma :: gamma_state

text \<open>
  \<^verbatim>\<open>JNI_ThrowNew\<close>: \<open>env_class\<close> is whether \<^verbatim>\<open>FindClass\<close> finds the class, \<open>env_thrown\<close> whether \<^verbatim>\<open>ThrowNew\<close>
  returns 0, in which case the exception is pending; \<^verbatim>\<open>ExceptionCheck\<close> asks whether one is pending.
\<close>

definition JNI_ThrowNew :: "jni_env \<Rightarrow> java_exception \<Rightarrow> jni_state \<Rightarrow> jni_state outcome" where
  "JNI_ThrowNew env e st =
     (if jn_pending st \<noteq> None \<or> \<not> env_class env then Fatal
      else
        (let st = (if env_thrown env then st\<lparr>jn_pending := Some e\<rparr> else st)
         in if jn_pending st \<noteq> None \<or> \<not> env_thrown env then Fatal else Done st))"

definition setMemErrorFlag :: "jni_state \<Rightarrow> jni_state" where
  "setMemErrorFlag st = st\<lparr>jn_memError := True\<rparr>"

text \<open>\<^verbatim>\<open>if (JNI_TRUE == readAndClearMemErrorFlag()) JNI_ThrowNew(..., "OutOfMemoryError", ...)\<close>\<close>

definition oom_check :: "jni_env \<Rightarrow> jni_state \<Rightarrow> jni_state outcome" where
  "oom_check env st =
     (if jn_memError st then JNI_ThrowNew env OutOfMemoryError (st\<lparr>jn_memError := False\<rparr>) else Done st)"

section \<open>Surfaces\<close>

definition JavaSurface_initialize :: "jint \<Rightarrow> jint \<Rightarrow> jint \<Rightarrow> surface" where
  "JavaSurface_initialize dataType width height =
     \<lparr>s_width = width, s_height = height, s_offset = 0, s_scanlineStride = width, s_pixelStride = 1,
      s_imageType = dataType, s_data = []\<rparr>"

text \<open>
  A surface of another type has no field id for its array. The division is C's: a surface of width zero
  divides by zero.
\<close>

definition surface_acquire :: "jni_env \<Rightarrow> jni_state \<Rightarrow> jni_state outcome" where
  "surface_acquire env st =
     (let s = jn_surface st; width = s_width s; height = s_height s;
          null = st\<lparr>jn_surface := s\<lparr>s_data := []\<rparr>\<rparr>
      in if s_imageType s \<noteq> TYPE_INT_ARGB_PRE then Fault
         else if width < 0 \<or> height < 0 then JNI_ThrowNew env IllegalArgumentException null
         else
           (case c_div (int (length (jn_dataInt st))) width of
              None \<Rightarrow> Fault
            | Some q \<Rightarrow>
                if q < height then JNI_ThrowNew env IllegalArgumentException null
                else if env_surface env then Done (st\<lparr>jn_surface := s\<lparr>s_data := jn_dataInt st\<rparr>\<rparr>)
                else Done (setMemErrorFlag null)))"

text \<open>
  \<^verbatim>\<open>ACQUIRE_SURFACE\<close> to \<^verbatim>\<open>RELEASE_SURFACE\<close>. What is drawn through \<^verbatim>\<open>rdr->_data\<close> is drawn into the Java array.
\<close>

definition acquired :: "jni_env \<Rightarrow> (jni_state \<Rightarrow> jni_state outcome) \<Rightarrow> jni_state \<Rightarrow> jni_state outcome" where
  "acquired env body st = chain (surface_acquire env st) (\<lambda>st. if jn_memError st then Done st else body st)"

definition drawn :: "jni_state \<Rightarrow> renderer \<Rightarrow> jni_state" where
  "drawn st rdr = st\<lparr>jn_rdr := rdr, jn_dataInt := r_data rdr\<rparr>"

text \<open>\<^verbatim>\<open>CORRECT_DIMS\<close> on one axis: position, extent and the part cut off at the start.\<close>

definition correct_dim :: "jint \<Rightarrow> jint \<Rightarrow> jint \<Rightarrow> jint \<times> jint \<times> jint" where
  "correct_dim extent x w =
     (let (x, w, x1) = (if x < 0 then (0, i32 (w + x), i32 (0 - x)) else (x, w, 0));
          w = (if extent < i32 (x + w) then i32 (extent - x) else w)
      in (x, w, x1))"

text \<open>
  The copy loops of \<^verbatim>\<open>setRGB\<close> and \<^verbatim>\<open>getRGBImpl\<close>: \<open>height\<close> rows of \<open>width\<close> pixels between two buffers; \<open>p\<close>
  and \<open>q\<close> are the positions of the pointers, advanced by the rest of the scan line after each row.
\<close>

definition copy_rows :: "jint \<Rightarrow> jint \<Rightarrow> jint list \<Rightarrow> int \<Rightarrow> jint \<Rightarrow> jint list \<Rightarrow> int \<Rightarrow> jint \<Rightarrow> jint list option" where
  "copy_rows width height dst p dstScan src q srcScan = do {
     (dst, _) \<leftarrow> for_loop height (\<lambda>j (dst, p, q). do {
       (dst, p, q) \<leftarrow> for_loop width (\<lambda>k (dst, p, q). do {
         c \<leftarrow> rd src q;
         dst \<leftarrow> wr dst p c;
         Some (dst, p + 1, q + 1)
       }) (dst, p, q);
       Some (dst, p + i32 (dstScan - width), q + i32 (srcScan - width))
     }) (dst, p, q);
     Some dst
   }"

text \<open>
  \<open>pixels\<close> is the Java array read or written; \<open>getRGBImpl\<close> also returns it. \<^verbatim>\<open>env_array\<close> is whether it can be
  pinned.
\<close>

definition getRGBImpl ::
    "jni_env \<Rightarrow> jint list \<Rightarrow> jint \<Rightarrow> jint \<Rightarrow> jint \<Rightarrow> jint \<Rightarrow> jint \<Rightarrow> jint \<Rightarrow> jni_state \<Rightarrow> (jni_state \<times> jint list) outcome" where
  "getRGBImpl env pixels offset scanLength x y width height st =
     (let s = jn_surface st;
          (x, width, dstX) = correct_dim (s_width s) x width;
          (y, height, dstY) = correct_dim (s_height s) y height
      in if 0 < width \<and> 0 < height then
           (let len = int (length pixels);
                dstStart = i32 (offset + dstY * scanLength + dstX);
                dstEnd = i32 (dstStart + height * scanLength - 1)
            in if dstStart < 0 \<or> len \<le> dstStart \<or> dstEnd < 0 \<or> len \<le> dstEnd
               then chain (JNI_ThrowNew env IllegalArgumentException st) (\<lambda>st. Done (st, pixels))
               else if env_array env then
                 chain (surface_acquire env st) (\<lambda>st.
                   if jn_memError st then chain (oom_check env st) (\<lambda>st. Done (st, pixels))
                   else
                     chain (lift_op (copy_rows width height pixels dstStart scanLength
                              (s_data (jn_surface st)) (i32 (y * s_width s + x)) (s_width s))) (\<lambda>pixels.
                       chain (oom_check env st) (\<lambda>st. Done (st, pixels))))
               else chain (JNI_ThrowNew env OutOfMemoryError st) (\<lambda>st. Done (st, pixels)))
         else Done (st, pixels))"

definition surface_setRGB :: "surface \<Rightarrow> jint \<Rightarrow> jint \<Rightarrow> jint \<Rightarrow> jint \<Rightarrow> jint list \<Rightarrow> int \<Rightarrow> jint \<Rightarrow> jint list option" where
  "surface_setRGB s x y width height src q scanLength =
     (if s_data s = [] then Some []
      else copy_rows width height (s_data s) (i32 (y * s_width s + x)) (s_width s) src q scanLength)"

definition setRGBImpl ::
    "jni_env \<Rightarrow> jint list \<Rightarrow> jint \<Rightarrow> jint \<Rightarrow> jint \<Rightarrow> jint \<Rightarrow> jint \<Rightarrow> jint \<Rightarrow> jni_state \<Rightarrow> jni_state outcome" where
  "setRGBImpl env pixels offset scanLength x y width height st =
     (let s = jn_surface st;
          (x, width, srcX) = correct_dim (s_width s) x width;
          (y, height, srcY) = correct_dim (s_height s) y height
      in if 0 < width \<and> 0 < height then
           (let len = int (length pixels);
                srcStart = i32 (offset + srcY * scanLength + srcX);
                srcEnd = i32 (srcStart + height * scanLength - 1)
            in if srcStart < 0 \<or> len \<le> srcStart \<or> srcEnd < 0 \<or> len \<le> srcEnd
               then JNI_ThrowNew env IllegalArgumentException st
               else if env_array env then
                 chain (surface_acquire env st) (\<lambda>st.
                   chain (if jn_memError st then Done st
                          else chain (lift_op (surface_setRGB (jn_surface st) x y width height pixels srcStart scanLength))
                            (\<lambda>d. Done (st\<lparr>jn_dataInt := d\<rparr>))) (oom_check env))
               else JNI_ThrowNew env OutOfMemoryError st)
         else Done st)"

section \<open>Dispatch through the function pointers\<close>

definition run_blit :: "gamma_state \<Rightarrow> blit_fn option \<Rightarrow> renderer \<Rightarrow> jint \<Rightarrow> renderer option" where
  "run_blit gamma f rdr height =
     (case f of
        None \<Rightarrow> None
      | Some F_blitSrcOver8888_pre \<Rightarrow> blitSrcOver8888_pre rdr height
      | Some F_blitPTSrcOver8888_pre \<Rightarrow> blitPTSrcOver8888_pre rdr height
      | Some F_blitSrc8888_pre \<Rightarrow> blitSrc8888_pre rdr height
      | Some F_blitPTSrc8888_pre \<Rightarrow> blitPTSrc8888_pre rdr height
      | Some F_blitSrcOverMask8888_pre \<Rightarrow> blitSrcOverMask8888_pre rdr height
      | Some F_blitPTSrcOverMask8888_pre \<Rightarrow> blitPTSrcOverMask8888_pre rdr height
      | Some F_blitSrcMask8888_pre \<Rightarrow> blitSrcMask8888_pre rdr height
      | Some F_blitPTSrcMask8888_pre \<Rightarrow> blitPTSrcMask8888_pre rdr height
      | Some F_blitSrcOverLCDMask8888_pre \<Rightarrow> blitSrcOverLCDMask8888_pre gamma rdr height)"

definition run_emit :: "emit_fn option \<Rightarrow> renderer \<Rightarrow> jint \<Rightarrow> jint \<Rightarrow> renderer option" where
  "run_emit f rdr height frac =
     (case f of
        None \<Rightarrow> None
      | Some F_emitLineSource8888_pre \<Rightarrow> emitLineSource8888_pre rdr height frac
      | Some F_emitLineSourceOver8888_pre \<Rightarrow> emitLineSourceOver8888_pre rdr height frac
      | Some F_emitLinePTSource8888_pre \<Rightarrow> emitLinePTSource8888_pre rdr height frac
      | Some F_emitLinePTSourceOver8888_pre \<Rightarrow> emitLinePTSourceOver8888_pre rdr height frac)"

definition run_gen :: "bool \<Rightarrow> gen_fn \<Rightarrow> renderer \<Rightarrow> jint \<Rightarrow> renderer option" where
  "run_gen alloc g rdr height =
     (case g of
        F_genLinearGradientPaint \<Rightarrow> genLinearGradientPaint rdr height
      | F_genRadialGradientPaint \<Rightarrow> genRadialGradientPaint rdr height
      | F_genTexturePaint \<Rightarrow> genTexturePaint rdr height
      | F_genTexturePaintMultiply \<Rightarrow> genTexturePaintMultiply alloc rdr height)"

definition run_clear :: "clear_fn option \<Rightarrow> renderer \<Rightarrow> jint \<Rightarrow> jint \<Rightarrow> jint \<Rightarrow> jint \<Rightarrow> renderer option" where
  "run_clear f rdr x y w h = (case f of None \<Rightarrow> None | Some F_clearRect8888_any \<Rightarrow> clearRect8888_any rdr x y w h)"

text \<open>\<^verbatim>\<open>ALLOC3(rdr->_paint, jint, l)\<close>: a buffer that is too small is replaced by a cleared one.\<close>

definition alloc_paint :: "bool \<Rightarrow> jint \<Rightarrow> renderer \<Rightarrow> renderer" where
  "alloc_paint ok l rdr =
     (if r_paint rdr = [] \<or> int (length (r_paint rdr)) < l
      then rdr\<lparr>r_paint := (if ok \<and> 0 \<le> l then replicate (nat l) 0 else [])\<rparr> else rdr)"

definition gen_paint :: "jni_env \<Rightarrow> jint \<Rightarrow> jint \<Rightarrow> renderer \<Rightarrow> renderer option" where
  "gen_paint env l rows rdr =
     (case r_genPaint rdr of
        None \<Rightarrow> Some rdr
      | Some g \<Rightarrow> run_gen (env_temp env) g (alloc_paint (env_alloc env) l rdr) rows)"

section \<open>Setters\<close>

text \<open>The field id lookup of \<^verbatim>\<open>initialize\<close> succeeds; a renderer is created for the surface.\<close>

definition initialize :: "jni_env \<Rightarrow> jni_state \<Rightarrow> jni_state outcome" where
  "initialize env st = oom_check env (st\<lparr>jn_rdr := createCommon (jn_surface st)\<rparr>)"

definition setClipImpl :: "jni_env \<Rightarrow> jint \<Rightarrow> jint \<Rightarrow> jint \<Rightarrow> jint \<Rightarrow> jni_state \<Rightarrow> jni_state outcome" where
  "setClipImpl env minX minY width height st =
     oom_check env (st\<lparr>jn_rdr := renderer_setClip (jn_rdr st) minX minY width height\<rparr>)"

definition setColorImpl :: "jni_env \<Rightarrow> jint \<Rightarrow> jint \<Rightarrow> jint \<Rightarrow> jint \<Rightarrow> jni_state \<Rightarrow> jni_state outcome" where
  "setColorImpl env red green blue alpha st =
     oom_check env (st\<lparr>jn_rdr := renderer_setColor (jn_rdr st) red green blue alpha\<rparr>)"

definition setCompositeRuleImpl :: "jni_env \<Rightarrow> jint \<Rightarrow> jni_state \<Rightarrow> jni_state outcome" where
  "setCompositeRuleImpl env rule st = oom_check env (st\<lparr>jn_rdr := renderer_setCompositeRule (jn_rdr st) rule\<rparr>)"

definition setLinearGradientImpl ::
    "jni_env \<Rightarrow> jint \<Rightarrow> jint \<Rightarrow> jint \<Rightarrow> jint \<Rightarrow> jint list \<Rightarrow> jint \<Rightarrow> transform6 \<Rightarrow> jni_state \<Rightarrow> jni_state outcome" where
  "setLinearGradientImpl env x0 y0 x1 y1 ramp cycleMethod transform st =
     chain (if env_array env then
              chain (lift_op (renderer_setLinearGradient ((jn_rdr st)\<lparr>r_gradient_cycleMethod := cycleMethod\<rparr>)
                       x0 y0 x1 y1 ramp transform))
                (\<lambda>rdr. Done (st\<lparr>jn_rdr := rdr\<rparr>))
            else Done (setMemErrorFlag st)) (oom_check env)"

definition setRadialGradientImpl ::
    "jni_env \<Rightarrow> jint \<Rightarrow> jint \<Rightarrow> jint \<Rightarrow> jint \<Rightarrow> jint \<Rightarrow> jint list \<Rightarrow> jint \<Rightarrow> transform6 \<Rightarrow> jni_state \<Rightarrow> jni_state outcome" where
  "setRadialGradientImpl env cx cy fx fy radius ramp cycleMethod transform st =
     chain (if env_array env then
              chain (lift_op (renderer_setRadialGradient ((jn_rdr st)\<lparr>r_gradient_cycleMethod := cycleMethod\<rparr>)
                       cx cy fx fy radius ramp transform))
                (\<lambda>rdr. Done (st\<lparr>jn_rdr := rdr\<rparr>))
            else Done (setMemErrorFlag st)) (oom_check env)"

text \<open>The copy of the image: one block when the rows have no gaps, row by row otherwise.\<close>

definition copy_image :: "jint list \<Rightarrow> jint \<Rightarrow> jint \<Rightarrow> jint \<Rightarrow> jint list option" where
  "copy_image data width height stride =
     (let alloc_data = replicate (nat (i32 (width * height))) 0
      in if stride = width then memcpy_from alloc_data 0 data 0 (width * height)
         else for_loop height (\<lambda>i alloc_data.
           memcpy_from alloc_data (i32 (i * width)) data (i32 (i * stride)) width) alloc_data)"

definition setTextureImpl ::
    "jni_env \<Rightarrow> jint list \<Rightarrow> jint \<Rightarrow> jint \<Rightarrow> jint \<Rightarrow> transform6 \<Rightarrow> bool \<Rightarrow> bool \<Rightarrow> jni_state \<Rightarrow> jni_state outcome" where
  "setTextureImpl env data width height stride transform rep hasAlpha st =
     chain (if env_array env \<and> env_alloc env then
              chain (lift_op (copy_image data width height stride)) (\<lambda>alloc_data.
                Done (st\<lparr>jn_rdr := renderer_setTexture (jn_rdr st) IMAGE_MODE_NORMAL alloc_data width height width
                  rep True transform True hasAlpha 0 0 (i32 (width - 1)) (i32 (height - 1))\<rparr>))
            else Done (setMemErrorFlag st)) (oom_check env)"

definition setLCDGammaCorrectionImpl :: "(fp \<Rightarrow> fp \<Rightarrow> fp) \<Rightarrow> jfloat \<Rightarrow> jni_state \<Rightarrow> jni_state outcome" where
  "setLCDGammaCorrectionImpl pow gamma st = Done (st\<lparr>jn_gamma := initGammaArrays pow gamma (jn_gamma st)\<rparr>)"

section \<open>Drawing\<close>

definition renderer_clearRect :: "surface \<Rightarrow> renderer \<Rightarrow> jint \<Rightarrow> jint \<Rightarrow> jint \<Rightarrow> jint \<Rightarrow> renderer option" where
  "renderer_clearRect surface rdr x y w h =
     (let maxX = i32 (x + w - 1);
          maxY = i32 (y + h - 1);
          rdr = validate_blitting surface rdr;
          x = max (max x 0) (r_clip_bbMinX rdr);
          y = max (max y 0) (r_clip_bbMinY rdr);
          maxX = min (min maxX (i32 (r_width rdr - 1))) (r_clip_bbMaxX rdr);
          maxY = min (min maxY (i32 (r_height rdr - 1))) (r_clip_bbMaxY rdr)
      in if x \<le> maxX \<and> y \<le> maxY
         then run_clear (sr_clearRect (r_routines rdr)) rdr x y (i32 (maxX - x + 1)) (i32 (maxY - y + 1))
         else Some rdr)"

definition clearRectImpl :: "jni_env \<Rightarrow> jint \<Rightarrow> jint \<Rightarrow> jint \<Rightarrow> jint \<Rightarrow> jni_state \<Rightarrow> jni_state outcome" where
  "clearRectImpl env x y w h st =
     chain (acquired env (\<lambda>st.
       (let s = jn_surface st;
            rdr = (invalidate_renderer_surface (jn_rdr st))\<lparr>r_imagePixelStride := 1, r_imageScanlineStride := s_width s\<rparr>
        in chain (lift_op (renderer_clearRect s rdr x y w h)) (\<lambda>rdr. Done (drawn st rdr)))) st) (oom_check env)"

text \<open>
  The rectangle of pixels a fixed-point rectangle touches, with the fractions at its edges.
  \<open>low_edge\<close> and \<open>high_edge\<close> are the switches over the edge modes.
\<close>

definition low_edge :: "jint \<Rightarrow> jint \<times> jint \<Rightarrow> jint \<times> jint" where
  "low_edge e = (\<lambda>(from, frac).
     if e = IMAGE_FRAC_EDGE_PAD then (from, 0)
     else if e = IMAGE_FRAC_EDGE_TRIM then (if frac \<noteq> 0 then i32 (from + 1) else from, 0)
     else (from, frac))"

definition high_edge :: "jint \<Rightarrow> jint \<times> jint \<Rightarrow> jint \<times> jint" where
  "high_edge e = (\<lambda>(to, frac).
     if e = IMAGE_FRAC_EDGE_PAD then (to, 0)
     else if e = IMAGE_FRAC_EDGE_TRIM then (if frac \<noteq> 0 then i32 (to - 1) else to, 0)
     else (to, frac))"

text \<open>One axis: \<open>(from, to, low fraction, high fraction)\<close> after the edge modes and the clip.\<close>

definition rect_axis :: "jint \<Rightarrow> jint \<Rightarrow> jint \<Rightarrow> jint \<Rightarrow> jint \<Rightarrow> jint \<Rightarrow> jint \<times> jint \<times> jint \<times> jint" where
  "rect_axis clipMin clipMax x w lEdge hEdge =
     (let lfrac = (0x10000 - (x AND 0xFFFF)) AND 0xFFFF;
          hfrac = i32 (x + w) AND 0xFFFF;
          from = drop_bit 16 x;
          to = i32 (x + w);
          to = (if hfrac \<noteq> 0 then drop_bit 16 to else drop_bit 16 to - 1);
          (from, lfrac) = low_edge lEdge (from, lfrac);
          (to, hfrac) = high_edge hEdge (to, hfrac);
          (from, lfrac) = (if from < clipMin then (clipMin, 0) else (from, lfrac));
          (to, hfrac) = (if clipMax < to then (clipMax, 0) else (to, hfrac))
      in (from, to, lfrac, hfrac))"

text \<open>A single pixel with fractions on both sides becomes one fraction at the low side.\<close>

definition single_frac :: "jint \<Rightarrow> jint \<Rightarrow> jint \<times> jint \<Rightarrow> jint \<times> jint" where
  "single_frac from to = (\<lambda>(lfrac, hfrac).
     if from = to \<and> lfrac OR hfrac \<noteq> 0 then ((hfrac - 0x10000 + lfrac) AND 0xFFFF, 0) else (lfrac, hfrac))"

definition draw_line :: "jni_env \<Rightarrow> jint \<Rightarrow> jint \<Rightarrow> jint \<Rightarrow> renderer \<Rightarrow> renderer option" where
  "draw_line env width rows frac rdr = do {
     rdr \<leftarrow> gen_paint env (i32 (width * rows)) rows rdr;
     run_emit (r_emitLine rdr) rdr rows frac
   }"

definition next_rows :: "jint \<Rightarrow> jint \<Rightarrow> jint \<Rightarrow> renderer \<Rightarrow> renderer" where
  "next_rows surface_width x_from rows rdr =
     (let y = i32 (r_currY rdr + rows)
      in rdr\<lparr>r_currX := x_from, r_currY := y, r_currImageOffset := i32 (y * surface_width),
             r_rowNum := i32 (r_rowNum rdr + rows)\<rparr>)"

function full_lines :: "jni_env \<Rightarrow> jint \<Rightarrow> jint \<Rightarrow> jint \<Rightarrow> jint \<Rightarrow> renderer \<Rightarrow> renderer option" where
  "full_lines env surface_width x_from width rows_to_render_by_loop rdr =
     (if 0 < rows_to_render_by_loop then
        (let rows = min rows_to_render_by_loop NUM_ALPHA_ROWS
         in case draw_line env width rows 0x10000 rdr of
              None \<Rightarrow> None
            | Some rdr' \<Rightarrow> full_lines env surface_width x_from width (rows_to_render_by_loop - rows)
                (next_rows surface_width x_from rows rdr'))
      else Some rdr)"
  by pat_completeness auto
termination
  by (relation "measure (\<lambda>(env, sw, x, w, rows, rdr). nat rows)") auto

declare full_lines.simps [simp del]

text \<open>The fractional top line, the full lines, the fractional bottom line.\<close>

definition rect_lines :: "jni_env \<Rightarrow> jint \<Rightarrow> jint \<Rightarrow> jint \<Rightarrow> jint \<Rightarrow> jint \<Rightarrow> jint \<Rightarrow> renderer \<Rightarrow> renderer option" where
  "rect_lines env surface_width x_from width rows tfrac bfrac rdr =
     (let rows = (if bfrac \<noteq> 0 then rows - 1 else rows)
      in do {
        (rows, rdr) \<leftarrow>
          (if tfrac \<noteq> 0 then do {
             rdr \<leftarrow> draw_line env width 1 tfrac rdr;
             Some (rows - 1, next_rows surface_width x_from 1 rdr)
           } else Some (rows, rdr));
        rdr \<leftarrow> full_lines env surface_width x_from width rows rdr;
        (if bfrac \<noteq> 0 then draw_line env width 1 bfrac rdr else Some rdr)
      })"

definition setup_rect :: "surface \<Rightarrow> jint \<Rightarrow> jint \<Rightarrow> jint \<Rightarrow> jint \<Rightarrow> jint \<Rightarrow> renderer \<Rightarrow> renderer" where
  "setup_rect surface x_from x_to y_from lfrac rfrac rdr =
     (validate_blitting surface (invalidate_renderer_surface rdr))
       \<lparr>r_minTouched := x_from, r_maxTouched := x_to, r_currX := x_from, r_currY := y_from,
        r_alphaWidth := i32 (x_to - x_from + 1), r_currImageOffset := i32 (y_from * s_width surface),
        r_imageScanlineStride := s_width surface, r_imagePixelStride := 1, r_rowNum := 0,
        r_el_lfrac := lfrac, r_el_rfrac := rfrac\<rparr>"

definition render_rect ::
    "jni_env \<Rightarrow> surface \<Rightarrow> jint \<times> jint \<times> jint \<times> jint \<Rightarrow> jint \<times> jint \<times> jint \<times> jint \<Rightarrow> renderer \<Rightarrow> renderer option" where
  "render_rect env surface = (\<lambda>(x_from, x_to, lfrac, rfrac) (y_from, y_to, tfrac, bfrac) rdr.
     let (tfrac, bfrac) = single_frac y_from y_to (tfrac, bfrac);
         (lfrac, rfrac) = single_frac x_from x_to (lfrac, rfrac)
     in rect_lines env (s_width surface) x_from (i32 (x_to - x_from + 1)) (i32 (y_to - y_from + 1)) tfrac bfrac
          (setup_rect surface x_from x_to y_from lfrac rfrac rdr))"

definition fillRect ::
    "jni_env \<Rightarrow> jint \<Rightarrow> jint \<Rightarrow> jint \<Rightarrow> jint \<Rightarrow> jint \<Rightarrow> jint \<Rightarrow> jint \<Rightarrow> jint \<Rightarrow> jni_state \<Rightarrow> jni_state outcome" where
  "fillRect env x y w h lEdge rEdge tEdge bEdge st =
     (let rdr = (jn_rdr st)\<lparr>r_rectX := drop_bit 16 x, r_rectY := drop_bit 16 y\<rparr>;
          st = st\<lparr>jn_rdr := rdr\<rparr>;
          xs = rect_axis (r_clip_bbMinX rdr) (r_clip_bbMaxX rdr) x w lEdge rEdge;
          ys = rect_axis (r_clip_bbMinY rdr) (r_clip_bbMaxY rdr) y h tEdge bEdge
      in if fst xs \<le> fst (snd xs) \<and> fst ys \<le> fst (snd ys) then
           chain (acquired env (\<lambda>st. chain (lift_op (render_rect env (jn_surface st) xs ys (jn_rdr st)))
             (\<lambda>rdr. Done (drawn st rdr))) st) (oom_check env)
         else Done st)"

definition fillRectImpl :: "jni_env \<Rightarrow> jint \<Rightarrow> jint \<Rightarrow> jint \<Rightarrow> jint \<Rightarrow> jni_state \<Rightarrow> jni_state outcome" where
  "fillRectImpl env x y w h st =
     fillRect env x y w h IMAGE_FRAC_EDGE_KEEP IMAGE_FRAC_EDGE_KEEP IMAGE_FRAC_EDGE_KEEP IMAGE_FRAC_EDGE_KEEP st"


text \<open>
  One row of coverage. The Java arrays are \<open>alphaMap\<close> and \<open>alphaDeltas\<close>; the blitter clears the
  deltas it consumes, so they are returned. \<^verbatim>\<open>alphaRow + x_off\<close> is the list from that position on.
\<close>

definition emitAndClearAlphaRowImpl ::
    "jni_env \<Rightarrow> jbyte list \<Rightarrow> jint list \<Rightarrow> jint \<Rightarrow> jint \<Rightarrow> jint \<Rightarrow> jint \<Rightarrow> jint \<Rightarrow> jni_state \<Rightarrow>
     (jni_state \<times> jint list) outcome" where
  "emitAndClearAlphaRowImpl env alphaMap alphaDeltas y x_from x_to x_off rowNum st =
     chain (surface_acquire env st) (\<lambda>st.
       if jn_memError st then chain (oom_check env st) (\<lambda>st. Done (st, alphaDeltas))
       else
         (let s = jn_surface st;
              rdr = validate_blitting s (invalidate_renderer_surface (jn_rdr st));
              st = st\<lparr>jn_rdr := rdr\<rparr>
          in chain
            (if env_array env \<and> env_array2 env then
               (let x_from = max x_from (r_clip_bbMinX rdr);
                    x_to = min x_to (r_clip_bbMaxX rdr)
                in if x_from \<le> x_to \<and> r_clip_bbMinY rdr \<le> y \<and> y \<le> r_clip_bbMaxY rdr then
                     (if x_off < 0 \<or> int (length alphaDeltas) < x_off then Fault
                      else
                        chain (lift_op (do {
                          let width = i32 (x_to - x_from + 1);
                          let rdr = rdr\<lparr>r_minTouched := x_from, r_maxTouched := x_to, r_currX := x_from, r_currY := y,
                            r_rowNum := rowNum, r_alphaMap := alphaMap, r_rowAAInt := drop (nat x_off) alphaDeltas,
                            r_alphaWidth := width, r_currImageOffset := i32 (y * s_width s),
                            r_imageScanlineStride := s_width s, r_imagePixelStride := 1\<rparr>;
                          rdr \<leftarrow> gen_paint env width 1 rdr;
                          run_blit (jn_gamma st) (r_emitRows rdr) rdr 1
                        })) (\<lambda>rdr.
                          Done (drawn st (rdr\<lparr>r_rowAAInt := []\<rparr>),
                                take (nat x_off) alphaDeltas @ r_rowAAInt rdr)))
                   else Done (st, alphaDeltas))
             else Done (setMemErrorFlag st, alphaDeltas))
            (\<lambda>(st, deltas).
              chain (oom_check env st) (\<lambda>st. Done (st, deltas)))))"

text \<open>
  Masks are drawn one row at a time. After the first row \<^verbatim>\<open>_currX\<close> is the left edge of the mask, not of its
  clipped part.
\<close>

function mask_lines :: "jni_env \<Rightarrow> gamma_state \<Rightarrow> jint \<Rightarrow> jint \<Rightarrow> jint \<Rightarrow> jint \<Rightarrow> jint \<Rightarrow> renderer \<Rightarrow> renderer option" where
  "mask_lines env gamma surface_width x width maskWidth rowsToBeRendered rdr =
     (if 0 < rowsToBeRendered then
        (case (do {
           let rdr = rdr\<lparr>r_currImageOffset := i32 (r_currY rdr * surface_width)\<rparr>;
           rdr \<leftarrow> gen_paint env (i32 (width * 1)) 1 rdr;
           run_blit gamma (r_emitRows rdr) rdr 1
         }) of
           None \<Rightarrow> None
         | Some rdr' \<Rightarrow>
             mask_lines env gamma surface_width x width maskWidth (rowsToBeRendered - 1)
               (rdr'\<lparr>r_maskOffset := i32 (r_maskOffset rdr' + maskWidth), r_rowNum := i32 (r_rowNum rdr' + 1),
                    r_currX := x, r_currY := i32 (r_currY rdr' + 1)\<rparr>))
      else Some rdr)"
  by pat_completeness auto
termination
  by (relation "measure (\<lambda>(env, g, sw, x, w, mw, rows, rdr). nat rows)") auto

declare mask_lines.simps [simp del]

definition fillAlphaMask ::
    "jni_env \<Rightarrow> jint \<Rightarrow> jint \<Rightarrow> jint \<Rightarrow> jint \<Rightarrow> jint \<Rightarrow> jbyte list \<Rightarrow> jint \<Rightarrow> jint \<Rightarrow> jint \<Rightarrow> jint \<Rightarrow> jint \<Rightarrow> jni_state \<Rightarrow>
     jni_state outcome" where
  "fillAlphaMask env minX minY maxX maxY maskType jmask x y maskWidth maskHeight offset st =
     (if minX \<le> maxX \<and> minY \<le> maxY then
        chain (acquired env (\<lambda>st.
          if env_array env then
            (let s = jn_surface st;
                 width = i32 (maxX - minX + 1);
                 height = i32 (maxY - minY + 1);
                 rdr = renderer_setMask (jn_rdr st) maskType jmask maskWidth maskHeight False;
                 rdr = validate_blitting s (invalidate_renderer_surface rdr);
                 rdr = rdr\<lparr>r_minTouched := minX, r_maxTouched := maxX, r_currX := minX, r_currY := minY,
                   r_alphaWidth := width, r_imageScanlineStride := s_width s, r_imagePixelStride := 1,
                   r_rowNum := 0, r_maskOffset := offset\<rparr>
             in chain (lift_op (mask_lines env (jn_gamma st) (s_width s) x width maskWidth height rdr))
                  (\<lambda>rdr. Done (drawn st (renderer_removeMask rdr))))
          else Done (setMemErrorFlag st)) st) (oom_check env)
      else Done st)"

definition fillAlphaMaskImpl ::
    "jni_env \<Rightarrow> jbyte list \<Rightarrow> jint \<Rightarrow> jint \<Rightarrow> jint \<Rightarrow> jint \<Rightarrow> jint \<Rightarrow> jint \<Rightarrow> jni_state \<Rightarrow> jni_state outcome" where
  "fillAlphaMaskImpl env jmask x y maskWidth maskHeight offset stride st =
     (let rdr = jn_rdr st;
          minX = max x (r_clip_bbMinX rdr);
          minY = max y (r_clip_bbMinY rdr);
          maxX = min (i32 (x + maskWidth - 1)) (r_clip_bbMaxX rdr);
          maxY = min (i32 (y + maskHeight - 1)) (r_clip_bbMaxY rdr);
          maskOffset = i32 (offset + (minY - y) * maskWidth + minX - x)
      in fillAlphaMask env minX minY maxX maxY ALPHA_MASK jmask x y maskWidth maskHeight maskOffset st)"

definition fillLCDAlphaMaskImpl ::
    "jni_env \<Rightarrow> jbyte list \<Rightarrow> jint \<Rightarrow> jint \<Rightarrow> jint \<Rightarrow> jint \<Rightarrow> jint \<Rightarrow> jint \<Rightarrow> jni_state \<Rightarrow> jni_state outcome" where
  "fillLCDAlphaMaskImpl env jmask x y maskWidth maskHeight offset stride st =
     (let rdr = jn_rdr st;
          minX = max x (r_clip_bbMinX rdr);
          minY = max y (r_clip_bbMinY rdr);
          maxX = min (i32 (x + sgn maskWidth * (\<bar>maskWidth\<bar> div 3) - 1)) (r_clip_bbMaxX rdr);
          maxY = min (i32 (y + maskHeight - 1)) (r_clip_bbMaxY rdr);
          maskOffset = i32 (offset + (minY - y) * maskWidth + (minX - x) * 3)
      in fillAlphaMask env minX minY maxX maxY LCD_ALPHA_MASK jmask x y maskWidth maskHeight maskOffset st)"

text \<open>The image is used in place, from \<open>offset\<close> on, and dropped after drawing.\<close>

definition drawImageImpl ::
    "jni_env \<Rightarrow> jint \<Rightarrow> jint list \<Rightarrow> jint \<Rightarrow> jint \<Rightarrow> jint \<Rightarrow> jint \<Rightarrow> transform6 \<Rightarrow> bool \<Rightarrow>
     jint \<Rightarrow> jint \<Rightarrow> jint \<Rightarrow> jint \<Rightarrow> jint \<Rightarrow> jint \<Rightarrow> jint \<Rightarrow> jint \<Rightarrow>
     jint \<Rightarrow> jint \<Rightarrow> jint \<Rightarrow> jint \<Rightarrow> bool \<Rightarrow> jni_state \<Rightarrow> jni_state outcome" where
  "drawImageImpl env imageMode data width height offset stride transform rep
       bboxX bboxY bboxW bboxH lEdge rEdge tEdge bEdge txMin tyMin txMax tyMax hasAlpha st =
     chain (if env_array env then
              (if offset < 0 \<or> int (length data) < offset then Fault
               else
                 chain (fillRect env bboxX bboxY bboxW bboxH lEdge rEdge tEdge bEdge
                   (st\<lparr>jn_rdr := renderer_setTexture (jn_rdr st) imageMode (drop (nat offset) data) width height stride
                     rep True transform False hasAlpha txMin tyMin txMax tyMax\<rparr>)) (\<lambda>st.
                   Done (st\<lparr>jn_rdr := (jn_rdr st)\<lparr>r_texture := (r_texture (jn_rdr st))\<lparr>tx_intData := []\<rparr>\<rparr>\<rparr>)))
            else Done (setMemErrorFlag st)) (oom_check env)"

section \<open>Conversion of coordinates\<close>

text \<open>
  \<open>ff\<close> is the 32-bit pattern of a \<^verbatim>\<open>float\<close>. A shift by 32 or more has no defined result.
\<close>

definition toPiscesCoords :: "int \<Rightarrow> jint option" where
  "toPiscesCoords ff =
     (let gg = (ff AND 0xffffff) OR 0x800000;
          shift = 134 - (drop_bit 23 ff AND 0xff);
          sign = drop_bit 31 ff
      in if 32 \<le> \<bar>shift\<bar> then None
         else
           (let gg = (if shift < 0 then take_bit 32 (push_bit (nat (- shift)) gg) else drop_bit (nat shift) gg);
                gg = take_bit 32 (take_bit 32 (gg XOR - sign) + sign);
                gg = (if ff \<noteq> 0 then gg else 0)
            in Some (i32 gg)))"

end
