(* ===== verification/Pisces_Span.thy ===== *)
theory Pisces_Span
  imports Pisces_Blend
begin

text \<open>
  Spans: what a drawing loop does to a pixel buffer, as one function of the buffer. \<open>paint_span f p n\<close>
  replaces each of the \<open>n\<close> pixels from \<open>p\<close> on by its image under \<open>f\<close>; \<open>paint_rows\<close> does so for the rows
  of a rectangle. The lemmas turn the loops of the source into spans and carry the surface invariant
  (every pixel premultiplied) through them.
\<close>

section \<open>One row\<close>

definition paint_span :: "(int \<Rightarrow> 'a \<Rightarrow> 'a) \<Rightarrow> int \<Rightarrow> int \<Rightarrow> 'a list \<Rightarrow> 'a list" where
  "paint_span f p n xs =
     map (\<lambda>i. if p \<le> int i \<and> int i < p + n then f (int i - p) (xs ! i) else xs ! i) [0..<length xs]"

lemma length_paint_span [simp]: "length (paint_span f p n xs) = length xs"
  by (simp add: paint_span_def)

lemma nth_paint_span:
  "i < length xs \<Longrightarrow>
   paint_span f p n xs ! i = (if p \<le> int i \<and> int i < p + n then f (int i - p) (xs ! i) else xs ! i)"
  by (simp add: paint_span_def)

lemma paint_span_empty [simp]: "n \<le> 0 \<Longrightarrow> paint_span f p n xs = xs"
  by (rule nth_equalityI) (auto simp: nth_paint_span)

lemma paint_span_step:
  assumes "0 \<le> p" "0 \<le> k"
  shows "(paint_span f p k xs)[nat (p + k) := f k (paint_span f p k xs ! nat (p + k))] = paint_span f p (k + 1) xs"
proof (rule nth_equalityI)
  fix i assume "i < length ((paint_span f p k xs)[nat (p + k) := f k (paint_span f p k xs ! nat (p + k))])"
  then have i: "i < length xs" by simp
  show "(paint_span f p k xs)[nat (p + k) := f k (paint_span f p k xs ! nat (p + k))] ! i = paint_span f p (k + 1) xs ! i"
  proof (cases "int i = p + k")
    case True
    then have "nat (p + k) = i" by simp
    then show ?thesis using i True assms by (simp add: nth_paint_span)
  next
    case False
    then have "nat (p + k) \<noteq> i" using assms by auto
    then show ?thesis using i False by (auto simp: nth_paint_span)
  qed
qed simp

lemma paint_span_cong:
  assumes "\<And>k x. 0 \<le> k \<Longrightarrow> k < n \<Longrightarrow> f k x = g k x"
  shows "paint_span f p n xs = paint_span g p n xs"
  by (rule nth_equalityI) (simp_all add: nth_paint_span assms)

lemma paint_span_prepend:
  assumes "0 < n"
  shows "paint_span (\<lambda>k. f (k + 1)) (p + 1) (n - 1) (paint_span f p 1 xs) = paint_span f p n xs"
  using assms by (intro nth_equalityI) (auto simp: nth_paint_span)

lemma paint_span_append:
  assumes "0 \<le> n"
  shows "paint_span (\<lambda>k. f n) (p + n) 1 (paint_span f p n xs) = paint_span f p (n + 1) xs"
  using assms by (intro nth_equalityI) (auto simp: nth_paint_span)

lemma paint_span_one:
  assumes "0 \<le> p"
  shows "paint_span f p 1 xs = (if p < int (length xs) then xs[nat p := f 0 (xs ! nat p)] else xs)"
  using assms by (auto intro!: nth_equalityI simp: nth_paint_span nth_list_update nat_eq_iff)

text \<open>
  A loop whose body changes the pixel \<open>p + k\<close> in step \<open>k\<close>, and whose other variables run through the
  values \<open>aux 0, aux 1, ...\<close>, paints the span.
\<close>

lemma ptr_loop_steps:
  assumes "0 < st" "0 \<le> n" "P 0 s"
    and "\<And>k t. 0 \<le> k \<Longrightarrow> k < n \<Longrightarrow> P k t \<Longrightarrow> \<exists>t'. f (a + st * k) t = Some t' \<and> P (k + 1) t'"
  shows "\<exists>t. ptr_loop a (a + st * n) st f s = Some t \<and> P n t"
proof -
  have "\<exists>t. ptr_loop (a + st * k) (a + st * n) st f t0 = Some t \<and> P n t"
    if "0 \<le> k" "k \<le> n" "P k t0" for k t0
    using that
  proof (induction "nat (n - k)" arbitrary: k t0)
    case 0
    then show ?case by (simp add: ptr_loop_stop)
  next
    case (Suc m)
    then have k: "k < n" by linarith
    then have lt: "st * k < st * n" using assms(1) by simp
    from assms(4) [OF Suc.prems(1) k Suc.prems(3)] obtain t' where t': "f (a + st * k) t0 = Some t'" "P (k + 1) t'"
      by auto
    have "\<exists>t. ptr_loop (a + st * (k + 1)) (a + st * n) st f t' = Some t \<and> P n t"
      using Suc.hyps Suc.prems k t' by (intro Suc.hyps(1)) auto
    then show ?case using lt t' assms(1)
      by (subst ptr_loop.simps) (simp add: algebra_simps)
  qed
  from this [of 0 s] show ?thesis using assms by simp
qed

lemma ptr_loop_span:
  assumes st: "0 < st" and n: "0 \<le> n" and p: "0 \<le> p" "p + n \<le> int (length d)"
    and body: "\<And>k d'. 0 \<le> k \<Longrightarrow> k < n \<Longrightarrow> length d' = length d \<Longrightarrow>
      body (a + st * k) (d', aux k) = Some (d'[nat (p + k) := f k (d' ! nat (p + k))], aux (k + 1))"
  shows "ptr_loop a (a + st * n) st body (d, aux 0) = Some (paint_span f p n d, aux n)"
proof -
  let ?P = "\<lambda>k t. t = (paint_span f p k d, aux k)"
  have "\<exists>t. ptr_loop a (a + st * n) st body (d, aux 0) = Some t \<and> ?P n t"
    using st n
  proof (rule ptr_loop_steps)
    fix k t assume k: "0 \<le> k" "k < n" "?P k t"
    show "\<exists>t'. body (a + st * k) t = Some t' \<and> ?P (k + 1) t'"
      using k body [of k "paint_span f p k d"] paint_span_step [OF p(1) k(1), of f d] by simp
  qed simp
  then show ?thesis by simp
qed

lemmas ptr_loop_span1 = ptr_loop_span [where st = 1, simplified]

section \<open>Rows of a rectangle\<close>

fun paint_rows :: "(int \<Rightarrow> int \<Rightarrow> 'a \<Rightarrow> 'a) \<Rightarrow> int \<Rightarrow> int \<Rightarrow> int \<Rightarrow> nat \<Rightarrow> 'a list \<Rightarrow> 'a list" where
  "paint_rows f p st n 0 xs = xs"
| "paint_rows f p st n (Suc h) xs = paint_span (f (int h)) (p + int h * st) n (paint_rows f p st n h xs)"

lemma length_paint_rows [simp]: "length (paint_rows f p st n h xs) = length xs"
  by (induction h) simp_all

text \<open>
  With rows that do not overlap every pixel of the rectangle is painted once and every other pixel is
  left alone.
\<close>

definition in_rows :: "int \<Rightarrow> int \<Rightarrow> int \<Rightarrow> int \<Rightarrow> int \<Rightarrow> bool" where
  "in_rows p st n h i \<longleftrightarrow> p \<le> i \<and> (i - p) div st < h \<and> (i - p) mod st < n"

lemma row_index:
  fixes st n p i j :: int
  assumes "0 < st" "n \<le> st" "p + j * st \<le> i" "i < p + j * st + n"
  shows "(i - p) div st = j" "(i - p) mod st = i - (p + j * st)"
proof -
  have "i - p = st * j + (i - (p + j * st))" by (simp add: algebra_simps)
  moreover have "0 \<le> i - (p + j * st)" "i - (p + j * st) < st" using assms by auto
  ultimately show "(i - p) div st = j" "(i - p) mod st = i - (p + j * st)"
    by (metis div_mult_self4 div_pos_pos_trivial add_0_right add.commute assms(1) order_less_irrefl,
        metis mod_mult_self4 mod_pos_pos_trivial)
qed

lemma row_pixel:
  fixes st n p i :: int
  assumes "0 < st" "p \<le> i" "(i - p) mod st < n"
  shows "p + (i - p) div st * st \<le> i" "i < p + (i - p) div st * st + n"
proof -
  have "i - p = st * ((i - p) div st) + (i - p) mod st" by (simp only: mult_div_mod_eq)
  moreover have "0 \<le> (i - p) mod st" using assms(1) by simp
  ultimately show "p + (i - p) div st * st \<le> i" "i < p + (i - p) div st * st + n"
    using assms(3) by (simp_all only: mult.commute [of _ st])
qed

lemma nth_paint_rows:
  assumes "0 < st" "n \<le> st" "i < length xs"
  shows "paint_rows f p st n h xs ! i =
    (if in_rows p st n (int h) (int i)
     then f ((int i - p) div st) ((int i - p) mod st) (xs ! i) else xs ! i)"
proof (induction h)
  case 0
  then show ?case
    using assms by (auto simp: in_rows_def pos_imp_zdiv_neg_iff)
next
  case (Suc h)
  let ?r = "p + int h * st"
  show ?case
  proof (cases "?r \<le> int i \<and> int i < ?r + n")
    case True
    note ix = row_index [OF assms(1,2) conjunct1 [OF True] conjunct2 [OF True]]
    have "0 \<le> int h * st" using assms(1) by simp
    then have "p \<le> int i" using True by linarith
    then have "in_rows p st n (int (Suc h)) (int i)" "\<not> in_rows p st n (int h) (int i)"
      using True ix by (simp_all add: in_rows_def)
    then show ?thesis using True ix assms(3) Suc.IH by (simp add: nth_paint_span)
  next
    case False
    have "in_rows p st n (int (Suc h)) (int i) \<longleftrightarrow> in_rows p st n (int h) (int i)"
      using False row_pixel [OF assms(1), of p "int i" n] by (auto simp: in_rows_def order_less_le)
    then show ?thesis using False assms(3) Suc.IH by (auto simp: nth_paint_span)
  qed
qed

lemma for_loop_rows:
  assumes h: "0 \<le> h" and s0: "s0 = aux 0"
    and body: "\<And>j d'. 0 \<le> j \<Longrightarrow> j < h \<Longrightarrow> length d' = length d \<Longrightarrow>
      body j (d', aux j) = Some (paint_span (f j) (p + j * st) n d', aux (j + 1))"
  shows "for_loop h body (d, s0) = Some (paint_rows f p st n (nat h) d, aux h)"
proof -
  let ?P = "\<lambda>j t. t = (paint_rows f p st n (nat j) d, aux j)"
  have "\<exists>t. for_loop h body (d, aux 0) = Some t \<and> ?P h t"
  proof (rule for_loop_inv [where P = ?P])
    fix j t assume j: "0 \<le> j" "j < h" "?P j t"
    then show "\<exists>t'. body j t = Some t' \<and> ?P (j + 1) t'"
      using body [of j "paint_rows f p st n (nat j) d"] by (simp add: nat_add_distrib)
  qed (use h in auto)
  then show ?thesis by (simp add: s0)
qed

section \<open>The surface invariant\<close>

definition premul_buf :: "jint list \<Rightarrow> bool" where
  "premul_buf d \<longleftrightarrow> (\<forall>p \<in> set d. premul p)"

lemmas premul_eval = premul_buf_def premul_def is_jint_def pxA_def pxR_def pxG_def pxB_def

lemma premul_buf_update: "premul_buf d \<Longrightarrow> premul v \<Longrightarrow> premul_buf (d[i := v])"
  using set_update_subset_insert [of d i v] by (auto simp: premul_buf_def)

lemma premul_buf_nth: "premul_buf d \<Longrightarrow> i < length d \<Longrightarrow> premul (d ! i)"
  by (simp add: premul_buf_def)

lemma paint_span_premul:
  assumes "premul_buf d" "\<And>k p. 0 \<le> k \<Longrightarrow> k < n \<Longrightarrow> premul p \<Longrightarrow> premul (f k p)"
  shows "premul_buf (paint_span f p n d)"
  using assms by (auto simp: premul_buf_def paint_span_def)

lemma paint_rows_premul:
  assumes "premul_buf d"
    and "\<And>j k p. 0 \<le> j \<Longrightarrow> j < int h \<Longrightarrow> 0 \<le> k \<Longrightarrow> k < n \<Longrightarrow> premul p \<Longrightarrow> premul (f j k p)"
  shows "premul_buf (paint_rows f p st n h d)"
  using assms by (induction h) (auto intro!: paint_span_premul)

text \<open>
  A pixel kernel maps a colour, a coverage and the old pixel to the new pixel. Its contract: legal
  colours keep premultiplied pixels premultiplied, and no coverage leaves the pixel as it is.
\<close>

locale pixel_kernel =
  fixes legal :: "'c \<Rightarrow> bool"
    and kernel :: "'c \<Rightarrow> int \<Rightarrow> jint \<Rightarrow> jint"
  assumes kernel_premul: "legal c \<Longrightarrow> is_byte cov \<Longrightarrow> premul p \<Longrightarrow> premul (kernel c cov p)"
    and kernel_none: "legal c \<Longrightarrow> kernel c 0 p = p"
begin

lemma span_premul:
  assumes "premul_buf d" "\<And>k. 0 \<le> k \<Longrightarrow> k < n \<Longrightarrow> legal (c k) \<and> is_byte (cov k)"
  shows "premul_buf (paint_span (\<lambda>k. kernel (c k) (cov k)) p n d)"
  using assms by (intro paint_span_premul kernel_premul) auto

lemma rows_premul:
  assumes "premul_buf d"
    and "\<And>j k. 0 \<le> j \<Longrightarrow> j < int h \<Longrightarrow> 0 \<le> k \<Longrightarrow> k < n \<Longrightarrow> legal (c j k) \<and> is_byte (cov j k)"
  shows "premul_buf (paint_rows (\<lambda>j k. kernel (c j k) (cov j k)) p st n h d)"
  using assms by (intro paint_rows_premul kernel_premul) auto

lemma span_untouched:
  assumes "i < length d" "\<And>k. k = int i - p \<Longrightarrow> 0 \<le> k \<Longrightarrow> k < n \<Longrightarrow> legal (c k) \<and> cov k = 0"
  shows "paint_span (\<lambda>k. kernel (c k) (cov k)) p n d ! i = d ! i"
  using assms by (auto simp: nth_paint_span kernel_none)

end

end
