(* ===== verification/Pisces_Blit_Correct.thy ===== *)
theory Pisces_Blit_Correct
  imports Pisces_Blit Pisces_Span
begin

text \<open>
  Correctness of the blitters: each one is a span (or the rows of a rectangle) of a pixel kernel. The
  kernels are the branches of the inner loops; what is left of a blitter is which pixel gets which
  colour and coverage. From that follow memory safety (the result is defined whenever the rectangle
  lies in the buffers), the frame (no other pixel changes), the clearing of the coverage row, and the
  surface invariant.
\<close>

section \<open>Pixel kernels\<close>

type_synonym colour = "jint \<times> jint \<times> jint \<times> jint"

definition src_over_px :: "colour \<Rightarrow> int \<Rightarrow> jint \<Rightarrow> jint" where
  "src_over_px = (\<lambda>(calpha, cred, cgreen, cblue) cov p.
     let aval = (cov + 1) * calpha div 256
     in if aval = 255 then argb 255 cred cgreen cblue
        else if 0 < aval then blendSrcOver8888_pre p aval cred cgreen cblue else p)"

definition pt_src_over_px :: "jint \<Rightarrow> int \<Rightarrow> jint \<Rightarrow> jint" where
  "pt_src_over_px cval cov p =
     (let aval = (cov + 1) * pxA cval div 256
      in if aval = 255 then cval
         else if 0 < aval then blendSrcOver8888_pre_pre p (cov + 1) (pxA cval) (pxR cval) (pxG cval) (pxB cval)
         else p)"

definition src_px :: "colour \<Rightarrow> int \<Rightarrow> jint \<Rightarrow> jint" where
  "src_px = (\<lambda>(calpha, cred, cgreen, cblue) cov p.
     if cov = 255 then argb calpha cred cgreen cblue
     else if 0 < cov then blendSrc8888_pre p ((cov + 1) * calpha div 256) (255 - cov) cred cgreen cblue else p)"

definition pt_src_px :: "jint \<Rightarrow> int \<Rightarrow> jint \<Rightarrow> jint" where
  "pt_src_px cval cov p =
     (if cov = 255 then cval
      else if 0 < cov
      then blendSrc8888_pre_pre p ((cov + 1) * pxA cval div 256) (255 - cov) (pxR cval) (pxG cval) (pxB cval)
      else p)"

definition byte_colour :: "colour \<Rightarrow> bool" where
  "byte_colour = (\<lambda>(a, r, g, b). is_byte a \<and> is_byte r \<and> is_byte g \<and> is_byte b)"

text \<open>
  A colour that is stored as it is at full coverage, by the plain source rule, must be premultiplied.
\<close>

definition pre_colour :: "colour \<Rightarrow> bool" where
  "pre_colour = (\<lambda>(a, r, g, b). is_byte a \<and> 0 \<le> r \<and> r \<le> a \<and> 0 \<le> g \<and> g \<le> a \<and> 0 \<le> b \<and> b \<le> a)"

lemma scaled_alpha:
  assumes "is_byte a" "is_byte cov"
  shows "drop_bit 8 (i32 ((cov + 1) * a)) = (cov + 1) * a div 256" "0 \<le> (cov + 1) * a div 256"
    "(cov + 1) * a div 256 \<le> cov" "(cov + 1) * a div 256 \<le> a" "(cov + 1) * a div 256 = fade (cov + 1) a"
proof -
  have f: "(cov + 1) * a div 256 = fade (cov + 1) a" by (simp add: fade_def mult.commute)
  have b: "0 \<le> (cov + 1) * a" "(cov + 1) * a \<le> (cov + 1) * 255"
    using assms mult_left_mono [of a 255 "cov + 1"] by auto
  have "(cov + 1) * a div 256 \<le> (cov * 256 + 255) div 256" using b assms by (intro zdiv_mono1) auto
  also have "\<dots> = cov" using div_add_byte [of 255 256 cov] by (simp add: mult.commute)
  finally show "(cov + 1) * a div 256 \<le> cov" .
  show "drop_bit 8 (i32 ((cov + 1) * a)) = (cov + 1) * a div 256"
    using fade_bounds(3) [of "cov + 1" a] assms by (simp add: fade_def mult.commute)
  show "0 \<le> (cov + 1) * a div 256" "(cov + 1) * a div 256 \<le> a" "(cov + 1) * a div 256 = fade (cov + 1) a"
    using fade_bounds [of "cov + 1" a] assms by (simp_all add: f)
qed

lemma premul_channels:
  "premul p \<Longrightarrow> 0 \<le> pxR p \<and> pxR p \<le> pxA p" "premul p \<Longrightarrow> 0 \<le> pxG p \<and> pxG p \<le> pxA p"
  "premul p \<Longrightarrow> 0 \<le> pxB p \<and> pxB p \<le> pxA p"
  using px_is_byte [of p] by (auto simp: premul_def)

interpretation over: pixel_kernel byte_colour src_over_px
proof
  fix c :: colour and cov p :: int
  assume c: "byte_colour c" "is_byte cov" and p: "premul p"
  obtain a r g b where ce: "c = (a, r, g, b)" by (cases c)
  from c have bytes: "is_byte a" "is_byte r" "is_byte g" "is_byte b" by (simp_all add: byte_colour_def ce)
  note s = scaled_alpha [OF bytes(1) c(2)]
  from s(2,4) bytes(1) have "is_byte ((cov + 1) * a div 256)" by linarith
  then show "premul (src_over_px c cov p)"
    using bytes p by (auto simp: src_over_px_def ce Let_def intro!: blendSrcOver8888_pre_premul premul_argb)
next
  fix c :: colour and p :: int
  assume "byte_colour c"
  then show "src_over_px c 0 p = p"
    by (cases c) (auto simp: byte_colour_def src_over_px_def Let_def)
qed

interpretation pt_over: pixel_kernel premul pt_src_over_px
proof
  fix c cov p :: int
  assume c: "premul c" "is_byte cov" and p: "premul p"
  then show "premul (pt_src_over_px c cov p)"
    using premul_channels [of c] px_is_byte(1) [of c]
    by (auto simp: pt_src_over_px_def Let_def intro!: blendSrcOver8888_pre_pre_premul)
next
  fix c p :: int
  assume "premul c"
  then show "pt_src_over_px c 0 p = p"
    using px_is_byte(1) [of c] by (auto simp: pt_src_over_px_def Let_def)
qed

interpretation src: pixel_kernel pre_colour src_px
proof
  fix c :: colour and cov p :: int
  assume c: "pre_colour c" "is_byte cov" and p: "premul p"
  obtain a r g b where ce: "c = (a, r, g, b)" by (cases c)
  from c have pre: "is_byte a" "0 \<le> r" "r \<le> a" "0 \<le> g" "g \<le> a" "0 \<le> b" "b \<le> a"
    by (simp_all add: pre_colour_def ce)
  note s = scaled_alpha [OF pre(1) c(2)]
  show "premul (src_px c cov p)"
    using pre p c(2) s(2,3) by (auto simp: src_px_def ce intro!: blendSrc8888_pre_premul premul_argb)
next
  fix c :: colour and p :: int
  show "src_px c 0 p = p" by (cases c) (simp add: src_px_def)
qed

section \<open>Rows of accumulated coverage\<close>

text \<open>The coverage of pixel \<open>k\<close> is looked up with the sum of the first \<open>k + 1\<close> entries of the row.\<close>

definition psum :: "jint list \<Rightarrow> int \<Rightarrow> int" where
  "psum xs k = sum_list (take (nat k) xs)"

lemma psum_0 [simp]: "psum xs 0 = 0"
  by (simp add: psum_def)

lemma psum_step: "0 \<le> k \<Longrightarrow> k < int (length xs) \<Longrightarrow> psum xs (k + 1) = psum xs k + xs ! nat k"
  by (simp add: psum_def nat_add_distrib take_Suc_conv_app_nth)

definition span_width :: "renderer \<Rightarrow> int" where
  "span_width rdr = (if r_minTouched rdr \<le> r_maxTouched rdr then r_maxTouched rdr - r_minTouched rdr + 1 else 0)"

definition span_start :: "renderer \<Rightarrow> int" where
  "span_start rdr = r_currImageOffset rdr + r_minTouched rdr"

definition aa_cov :: "renderer \<Rightarrow> int \<Rightarrow> int" where
  "aa_cov rdr k = r_alphaMap rdr ! nat (psum (r_rowAAInt rdr) (k + 1)) AND 0xff"

text \<open>The source-over blitters do not look up a sum of zero: no coverage.\<close>

definition aa_cov0 :: "renderer \<Rightarrow> int \<Rightarrow> int" where
  "aa_cov0 rdr k = (if psum (r_rowAAInt rdr) (k + 1) = 0 then 0 else aa_cov rdr k)"

text \<open>The touched span lies in the pixel buffer.\<close>

definition span_ok :: "renderer \<Rightarrow> bool" where
  "span_ok rdr \<longleftrightarrow> r_imagePixelStride rdr = 1 \<and> 0 \<le> r_currImageOffset rdr \<and> 0 \<le> r_minTouched rdr \<and>
     span_start rdr + span_width rdr \<le> int (length (r_data rdr)) \<and> is_jint (r_currImageOffset rdr) \<and>
     is_jint (r_minTouched rdr) \<and> is_jint (r_maxTouched rdr) \<and>
     int (length (r_data rdr)) < 2 ^ 31"

text \<open>The coverage row is long enough and its sums stay in \<^verbatim>\<open>alphaMap\<close>.\<close>

definition aa_ok :: "renderer \<Rightarrow> bool" where
  "aa_ok rdr \<longleftrightarrow> span_width rdr \<le> int (length (r_rowAAInt rdr)) \<and> int (length (r_alphaMap rdr)) < 2 ^ 31 \<and>
     (\<forall>k \<in> {0..<span_width rdr}. 0 \<le> psum (r_rowAAInt rdr) (k + 1) \<and>
        psum (r_rowAAInt rdr) (k + 1) < int (length (r_alphaMap rdr)))"

definition colour_of :: "renderer \<Rightarrow> colour" where
  "colour_of rdr = (r_calpha rdr, r_cred rdr, r_cgreen rdr, r_cblue rdr)"

definition zero_prefix :: "int \<Rightarrow> jint list \<Rightarrow> jint list" where
  "zero_prefix k xs = replicate (nat k) 0 @ drop (nat k) xs"

lemma zero_prefix_0 [simp]: "zero_prefix 0 xs = xs"
  by (simp add: zero_prefix_def)

lemma zero_prefix_step:
  assumes "0 \<le> k" "k < int (length xs)"
  shows "rd (zero_prefix k xs) k = Some (xs ! nat k)"
    and "wr (zero_prefix k xs) k 0 = Some (zero_prefix (k + 1) xs)"
proof -
  have len: "length (zero_prefix k xs) = length xs" using assms by (simp add: zero_prefix_def)
  show "rd (zero_prefix k xs) k = Some (xs ! nat k)"
    using assms len by (simp add: zero_prefix_def nth_append)
  have "drop (nat k) xs = xs ! nat k # drop (nat k + 1) xs"
    using assms by (simp add: Cons_nth_drop_Suc)
  then have "(zero_prefix k xs)[nat k := 0] = zero_prefix (k + 1) xs"
    using assms by (simp add: zero_prefix_def list_update_append nat_add_distrib replicate_append_same)
  then show "wr (zero_prefix k xs) k 0 = Some (zero_prefix (k + 1) xs)"
    using assms len by simp
qed

lemma span_width_nonneg [simp]: "0 \<le> span_width rdr"
  by (simp add: span_width_def)

lemma span_ok_facts:
  assumes "span_ok rdr" "0 < span_width rdr"
  shows "0 \<le> span_start rdr" "span_start rdr + span_width rdr \<le> int (length (r_data rdr))"
    "i32 (r_currImageOffset rdr + r_minTouched rdr) = span_start rdr"
    "span_width rdr < 2147483648"
proof -
  have b: "0 \<le> span_start rdr" "span_start rdr + span_width rdr < 2147483648" "0 \<le> span_width rdr"
    "span_width rdr = r_maxTouched rdr - r_minTouched rdr + 1" "r_minTouched rdr \<le> r_maxTouched rdr"
    using assms by (auto simp: span_ok_def span_start_def span_width_def is_jint_def split: if_splits)
  then show "0 \<le> span_start rdr" "span_width rdr < 2147483648" by linarith+
  show "span_start rdr + span_width rdr \<le> int (length (r_data rdr))" using assms by (simp add: span_ok_def)
  show "i32 (r_currImageOffset rdr + r_minTouched rdr) = span_start rdr"
    using b by (simp add: span_start_def i32_small)
qed

lemma span_width_jint:
  assumes "span_ok rdr"
  shows "(if r_minTouched rdr \<le> r_maxTouched rdr then i32 (r_maxTouched rdr - r_minTouched rdr + 1) else 0) = span_width rdr"
  using assms by (auto simp: span_ok_def span_width_def span_start_def is_jint_def intro!: i32_small)

lemma for_loop_1 [simp]: "for_loop 1 f s = f 0 s"
  by (cases "f 0 s") (simp_all add: for_loop_def numeral_eq_Suc)

text \<open>One step of the coverage sum.\<close>

lemma aa_sum_step:
  assumes "aa_ok rdr" "0 \<le> k" "k < span_width rdr"
  shows "i32 (psum (r_rowAAInt rdr) k + r_rowAAInt rdr ! nat k) = psum (r_rowAAInt rdr) (k + 1)"
    and "rd (r_alphaMap rdr) (psum (r_rowAAInt rdr) (k + 1)) =
      Some (r_alphaMap rdr ! nat (psum (r_rowAAInt rdr) (k + 1)))"
proof -
  have b: "0 \<le> psum (r_rowAAInt rdr) (k + 1)" "psum (r_rowAAInt rdr) (k + 1) < int (length (r_alphaMap rdr))"
    "int (length (r_alphaMap rdr)) < 2 ^ 31"
    using assms by (auto simp: aa_ok_def)
  have "psum (r_rowAAInt rdr) k + r_rowAAInt rdr ! nat k = psum (r_rowAAInt rdr) (k + 1)"
    using assms by (simp add: psum_step aa_ok_def)
  then show "i32 (psum (r_rowAAInt rdr) k + r_rowAAInt rdr ! nat k) = psum (r_rowAAInt rdr) (k + 1)"
    using b by (simp add: i32_small)
  show "rd (r_alphaMap rdr) (psum (r_rowAAInt rdr) (k + 1)) =
      Some (r_alphaMap rdr ! nat (psum (r_rowAAInt rdr) (k + 1)))"
    using b by simp
qed

lemma span_step:
  assumes "span_ok rdr" "0 \<le> k" "k < span_width rdr"
  shows "i32 (span_start rdr + k + r_imagePixelStride rdr) = span_start rdr + (k + 1)" "i32 (k + 1) = k + 1"
proof -
  have w: "0 < span_width rdr" using assms by linarith
  have "span_start rdr + span_width rdr < 2147483648"
    using span_ok_facts(2) [OF assms(1) w] assms(1) by (simp add: span_ok_def)
  then show "i32 (span_start rdr + k + r_imagePixelStride rdr) = span_start rdr + (k + 1)" "i32 (k + 1) = k + 1"
    using span_ok_facts(1) [OF assms(1) w] assms by (simp_all add: span_ok_def i32_small)
qed

lemma aa_row_step:
  assumes "aa_ok rdr" "0 \<le> k" "k < span_width rdr"
  shows "rd (zero_prefix k (r_rowAAInt rdr)) k = Some (r_rowAAInt rdr ! nat k)"
    and "wr (zero_prefix k (r_rowAAInt rdr)) k 0 = Some (zero_prefix (k + 1) (r_rowAAInt rdr))"
  using assms zero_prefix_step [of k "r_rowAAInt rdr"] by (auto simp: aa_ok_def)

text \<open>The two accesses a blitter makes to its pixel, when it is in the buffer.\<close>

lemma pixel_access:
  assumes "0 \<le> i" "i < int (length d)"
  shows "wr d i v = Some (d[nat i := v])" "upd d i g = Some (d[nat i := g (d ! nat i)])"
  using assms by (simp_all add: upd_def)

lemma is_byte_and [simp]: "is_byte (x AND 255)"
  by (simp add: and_255_eq_mod)

lemma is_byte_aa_cov [simp]: "is_byte (aa_cov rdr k)" "is_byte (aa_cov0 rdr k)"
  unfolding aa_cov_def aa_cov0_def by auto

text \<open>
  The contract of a coverage-row blitter's inner step: with the sum \<open>s'\<close> and its table entry \<open>m\<close> it
  applies the kernel to its pixel, clears its entry and steps the loop variables.
\<close>

locale aa_blitter =
  fixes step :: "renderer \<Rightarrow> int \<Rightarrow> jint list \<times> jint list \<times> 'v \<Rightarrow> (jint list \<times> jint list \<times> 'v) option"
    and vars :: "int \<Rightarrow> int \<Rightarrow> int \<Rightarrow> 'v"
    and pre :: "renderer \<Rightarrow> bool"
    and kernel :: "renderer \<Rightarrow> int \<Rightarrow> int \<Rightarrow> jint \<Rightarrow> jint"
    and cov :: "int \<Rightarrow> jbyte \<Rightarrow> int"
  assumes step: "pre rdr \<Longrightarrow> r_imagePixelStride rdr = 1 \<Longrightarrow> 0 \<le> k \<Longrightarrow> k < span_width rdr \<Longrightarrow>
    0 \<le> i \<Longrightarrow> i < int (length d) \<Longrightarrow> i32 (k + 1) = k + 1 \<Longrightarrow> i32 (i + 1) = i + 1 \<Longrightarrow>
    rd al k = Some v \<Longrightarrow> wr al k 0 = Some al' \<Longrightarrow> i32 (s + v) = s' \<Longrightarrow> rd (r_alphaMap rdr) s' = Some m \<Longrightarrow>
    step rdr k (d, al, vars k i s) =
      Some (d[nat i := kernel rdr k (cov s' m) (d ! nat i)], al', vars (k + 1) (i + 1) s')"
begin

lemma row:
  assumes ok: "span_ok rdr" "aa_ok rdr" "pre rdr"
  shows "\<exists>e. ptr_loop 0 (span_width rdr) 1 (step rdr)
      (r_data rdr, r_rowAAInt rdr, vars 0 (i32 (r_currImageOffset rdr + r_minTouched rdr)) 0) =
    Some (paint_span (\<lambda>k. kernel rdr k (cov (psum (r_rowAAInt rdr) (k + 1))
        (r_alphaMap rdr ! nat (psum (r_rowAAInt rdr) (k + 1))))) (span_start rdr) (span_width rdr) (r_data rdr),
      zero_prefix (span_width rdr) (r_rowAAInt rdr), e)"
proof (cases "span_width rdr = 0")
  case False
  then have w: "0 < span_width rdr" using span_width_nonneg [of rdr] by linarith
  note sf = span_ok_facts [OF ok(1) w]
  let ?a = "r_rowAAInt rdr" and ?p = "span_start rdr"
  let ?aux = "\<lambda>k. (zero_prefix k ?a, vars k (?p + k) (psum ?a k))"
  let ?f = "\<lambda>k. kernel rdr k (cov (psum ?a (k + 1)) (r_alphaMap rdr ! nat (psum ?a (k + 1))))"
  have "step rdr k (d, ?aux k) = Some (d[nat (?p + k) := ?f k (d ! nat (?p + k))], ?aux (k + 1))"
    if k: "0 \<le> k" "k < span_width rdr" and d: "length d = length (r_data rdr)" for k d
    using step [OF ok(3) _ k _ _ span_step(2) [OF ok(1) k] _ aa_row_step [OF ok(2) k] aa_sum_step [OF ok(2) k],
        of "?p + k" d] span_step(1) [OF ok(1) k] sf k d ok(1)
    by (simp add: span_ok_def add.assoc)
  then have "ptr_loop 0 (span_width rdr) 1 (step rdr) (r_data rdr, ?aux 0) =
      Some (paint_span ?f ?p (span_width rdr) (r_data rdr), ?aux (span_width rdr))"
    using ptr_loop_span1 [of "span_width rdr" ?p "r_data rdr" "step rdr" 0 ?aux ?f] sf by simp
  then show ?thesis by (simp add: sf(3))
qed simp

end

text \<open>The paint row covers the span.\<close>

definition paint_ok :: "renderer \<Rightarrow> bool" where
  "paint_ok rdr \<longleftrightarrow> span_width rdr \<le> int (length (r_paint rdr))"

lemma flat_alpha:
  assumes "byte_colour (colour_of rdr)"
  shows "is_byte (r_calpha rdr)" "r_calpha rdr div 256 = 0"
  using assms by (simp_all add: byte_colour_def colour_of_def)

lemma paint_alpha:
  assumes "paint_ok rdr" "0 \<le> k" "k < span_width rdr"
  shows "rd (r_paint rdr) k = Some (r_paint rdr ! nat k)" "pxA p div 256 = 0"
  using assms px_is_byte(1) [of p] by (simp_all add: paint_ok_def)

interpretation aa_over: aa_blitter blitSrcOver8888_pre_step "\<lambda>k i s. (i, s)" "\<lambda>rdr. byte_colour (colour_of rdr)"
  "\<lambda>rdr k. src_over_px (colour_of rdr)" "\<lambda>s m. if s = 0 then 0 else m AND 0xff"
  by unfold_locales
    (simp add: blitSrcOver8888_pre_step_def Let_def pixel_access scaled_alpha(1) flat_alpha src_over_px_def
      colour_of_def MAX_ALPHA_def)

interpretation aa_pt_over: aa_blitter blitPTSrcOver8888_pre_step "\<lambda>k i s. (k, i, s)" paint_ok
  "\<lambda>rdr k. pt_src_over_px (r_paint rdr ! nat k)" "\<lambda>s m. if s = 0 then 0 else m AND 0xff"
  by unfold_locales
    (simp add: blitPTSrcOver8888_pre_step_def Let_def pixel_access scaled_alpha(1) [OF px_is_byte(1)] paint_alpha
      pt_src_over_px_def MAX_ALPHA_def)

interpretation aa_src: aa_blitter blitSrc8888_pre_step "\<lambda>k i s. (i, s)" "\<lambda>rdr. byte_colour (colour_of rdr)"
  "\<lambda>rdr k. src_px (colour_of rdr)" "\<lambda>s m. m AND 0xff"
  by unfold_locales
    (simp add: blitSrc8888_pre_step_def Let_def pixel_access scaled_alpha(1) flat_alpha src_px_def
      colour_of_def MAX_ALPHA_def)

interpretation aa_pt_src: aa_blitter blitPTSrc8888_pre_step "\<lambda>k i s. (k, i, s)" paint_ok
  "\<lambda>rdr k. pt_src_px (r_paint rdr ! nat k)" "\<lambda>s m. m AND 0xff"
  by unfold_locales
    (simp add: blitPTSrc8888_pre_step_def Let_def pixel_access scaled_alpha(1) [OF px_is_byte(1)] paint_alpha
      pt_src_px_def MAX_ALPHA_def)

lemma blitSrcOver8888_pre_span:
  assumes ok: "span_ok rdr" "aa_ok rdr" "byte_colour (colour_of rdr)"
  shows "blitSrcOver8888_pre rdr 1 = Some (rdr\<lparr>
      r_data := paint_span (\<lambda>k. src_over_px (colour_of rdr) (aa_cov0 rdr k)) (span_start rdr) (span_width rdr) (r_data rdr),
      r_rowAAInt := zero_prefix (span_width rdr) (r_rowAAInt rdr)\<rparr>)"
  using aa_over.row [OF ok] ok(1)
  unfolding aa_cov0_def aa_cov_def
  by (auto simp: blitSrcOver8888_pre_def Let_def span_width_jint span_ok_def)

lemma blitPTSrcOver8888_pre_span:
  assumes ok: "span_ok rdr" "aa_ok rdr" "paint_ok rdr"
  shows "blitPTSrcOver8888_pre rdr 1 = Some (rdr\<lparr>
      r_data := paint_span (\<lambda>k. pt_src_over_px (r_paint rdr ! nat k) (aa_cov0 rdr k)) (span_start rdr) (span_width rdr) (r_data rdr),
      r_rowAAInt := zero_prefix (span_width rdr) (r_rowAAInt rdr)\<rparr>)"
  using aa_pt_over.row [OF ok] ok(1)
  unfolding aa_cov0_def aa_cov_def
  by (auto simp: blitPTSrcOver8888_pre_def Let_def span_width_jint span_ok_def)

lemma blitSrc8888_pre_span:
  assumes ok: "span_ok rdr" "aa_ok rdr" "byte_colour (colour_of rdr)"
  shows "blitSrc8888_pre rdr 1 = Some (rdr\<lparr>
      r_data := paint_span (\<lambda>k. src_px (colour_of rdr) (aa_cov rdr k)) (span_start rdr) (span_width rdr) (r_data rdr),
      r_rowAAInt := zero_prefix (span_width rdr) (r_rowAAInt rdr)\<rparr>)"
  using aa_src.row [OF ok] ok(1)
  by (auto simp: blitSrc8888_pre_def Let_def span_width_jint span_ok_def aa_cov_def)

lemma blitPTSrc8888_pre_span:
  assumes ok: "span_ok rdr" "aa_ok rdr" "paint_ok rdr"
  shows "blitPTSrc8888_pre rdr 1 = Some (rdr\<lparr>
      r_data := paint_span (\<lambda>k. pt_src_px (r_paint rdr ! nat k) (aa_cov rdr k)) (span_start rdr) (span_width rdr) (r_data rdr),
      r_rowAAInt := zero_prefix (span_width rdr) (r_rowAAInt rdr)\<rparr>)"
  using aa_pt_src.row [OF ok] ok(1)
  by (auto simp: blitPTSrc8888_pre_def Let_def span_width_jint span_ok_def aa_cov_def)

section \<open>Masks\<close>

text \<open>Every row of the touched rectangle lies in the pixel buffer.\<close>

definition rows_ok :: "renderer \<Rightarrow> int \<Rightarrow> bool" where
  "rows_ok rdr h \<longleftrightarrow> r_imagePixelStride rdr = 1 \<and> 0 \<le> r_imageScanlineStride rdr \<and>
     0 \<le> r_currImageOffset rdr \<and> 0 \<le> r_minTouched rdr \<and> is_jint (r_currImageOffset rdr) \<and>
     is_jint (r_minTouched rdr) \<and> is_jint (r_maxTouched rdr) \<and> 0 < h \<and>
     span_start rdr + (h - 1) * r_imageScanlineStride rdr + span_width rdr \<le> int (length (r_data rdr)) \<and>
     int (length (r_data rdr)) < 2 ^ 31"

text \<open>So does every row of the mask in the mask buffer; \<open>step\<close> is the advance per row.\<close>

definition mask_ok :: "renderer \<Rightarrow> int \<Rightarrow> int \<Rightarrow> int \<Rightarrow> bool" where
  "mask_ok rdr step n h \<longleftrightarrow> 0 \<le> r_maskOffset rdr \<and> is_jint (r_maskOffset rdr) \<and> 0 \<le> step \<and>
     r_maskOffset rdr + (h - 1) * step + n \<le> int (length (r_mask_byteData rdr)) \<and>
     int (length (r_mask_byteData rdr)) < 2 ^ 31"

definition mask_cov :: "renderer \<Rightarrow> int \<Rightarrow> int \<Rightarrow> int" where
  "mask_cov rdr off k = r_mask_byteData rdr ! nat (r_maskOffset rdr + off + k) AND 0xff"

lemma is_byte_mask_cov [simp]: "is_byte (mask_cov rdr off k)"
  by (simp add: mask_cov_def)

lemma rows_ok_row:
  assumes "rows_ok rdr h" "0 \<le> j" "j < h" "0 < span_width rdr"
  defines "r \<equiv> span_start rdr + j * r_imageScanlineStride rdr"
  shows "0 \<le> r" "r + span_width rdr \<le> int (length (r_data rdr))" "r + span_width rdr < 2147483648"
    and "i32 (r_currImageOffset rdr + j * r_imageScanlineStride rdr + r_minTouched rdr) = r"
proof -
  have m: "j * r_imageScanlineStride rdr \<le> (h - 1) * r_imageScanlineStride rdr" "0 \<le> j * r_imageScanlineStride rdr"
    using assms by (auto simp: rows_ok_def intro!: mult_right_mono)
  then have b: "r + span_width rdr \<le> int (length (r_data rdr))" "0 \<le> r"
    using assms(1) unfolding r_def by (auto simp: rows_ok_def span_start_def)
  moreover have "int (length (r_data rdr)) < 2147483648" using assms(1) by (simp add: rows_ok_def)
  ultimately show "0 \<le> r" "r + span_width rdr \<le> int (length (r_data rdr))" "r + span_width rdr < 2147483648"
    by linarith+
  then have "i32 r = r" using assms(4) by (intro i32_small) linarith+
  then show "i32 (r_currImageOffset rdr + j * r_imageScanlineStride rdr + r_minTouched rdr) = r"
    by (simp add: r_def span_start_def algebra_simps)
qed

lemma rows_ok_width:
  assumes "rows_ok rdr h"
  shows "(if r_minTouched rdr \<le> r_maxTouched rdr then i32 (r_maxTouched rdr - r_minTouched rdr + 1) else 0) = span_width rdr"
proof -
  define q where "q = (h - 1) * r_imageScanlineStride rdr"
  have "0 \<le> q" "0 \<le> r_currImageOffset rdr" "0 \<le> r_minTouched rdr" "int (length (r_data rdr)) < 2147483648"
    "r_currImageOffset rdr + r_minTouched rdr + q + span_width rdr \<le> int (length (r_data rdr))"
    using assms by (simp_all add: rows_ok_def q_def span_start_def)
  then have "span_width rdr < 2147483648" by linarith
  then show ?thesis by (auto simp: span_width_def split: if_splits intro!: i32_small)
qed

lemma mask_byte:
  assumes "mask_ok rdr step n h" "0 \<le> j" "j < h" "0 \<le> k" "k < n"
  shows "rd (r_mask_byteData rdr) (i32 (r_maskOffset rdr + j * step) + k) =
    Some (r_mask_byteData rdr ! nat (r_maskOffset rdr + j * step + k))"
proof -
  define x y where "x = j * step" and "y = (h - 1) * step"
  have b: "x \<le> y" "0 \<le> x" "0 \<le> r_maskOffset rdr" "r_maskOffset rdr + y + n \<le> int (length (r_mask_byteData rdr))"
    "int (length (r_mask_byteData rdr)) < 2147483648"
    using assms by (auto simp: mask_ok_def x_def y_def intro!: mult_right_mono)
  then have "i32 (r_maskOffset rdr + x) = r_maskOffset rdr + x"
    using assms(4,5) by (intro i32_small) linarith+
  then show ?thesis unfolding x_def [symmetric] using b assms(4,5) by simp
qed

text \<open>
  The contract of a mask blitter's inner step, and its row: \<open>mo\<close> is the place of the row in the mask,
  \<open>r\<close> the one in the pixel buffer.
\<close>

locale mask_blitter =
  fixes step :: "renderer \<Rightarrow> int \<Rightarrow> jint list \<times> 'v \<Rightarrow> (jint list \<times> 'v) option"
    and vars :: "int \<Rightarrow> int \<Rightarrow> 'v"
    and pre :: "renderer \<Rightarrow> bool"
    and kernel :: "renderer \<Rightarrow> int \<Rightarrow> int \<Rightarrow> jint \<Rightarrow> jint"
  assumes step: "pre rdr \<Longrightarrow> r_imagePixelStride rdr = 1 \<Longrightarrow> 0 \<le> k \<Longrightarrow> k < span_width rdr \<Longrightarrow>
    0 \<le> i \<Longrightarrow> i < int (length d) \<Longrightarrow> i32 (k + 1) = k + 1 \<Longrightarrow> i32 (i + 1) = i + 1 \<Longrightarrow>
    rd (r_mask_byteData rdr) a = Some m \<Longrightarrow>
    step rdr a (d, vars k i) = Some (d[nat i := kernel rdr k (m AND 0xff) (d ! nat i)], vars (k + 1) (i + 1))"
begin

lemma row:
  assumes ok: "rows_ok rdr h" "mask_ok rdr st (span_width rdr) h" "pre rdr"
    and j: "0 \<le> j" "j < h" and d: "length d = length (r_data rdr)"
    and mo: "mo = i32 (r_maskOffset rdr + j * st)"
  shows "\<exists>e. ptr_loop mo (mo + span_width rdr) 1 (step rdr)
      (d, vars 0 (i32 (r_currImageOffset rdr + j * r_imageScanlineStride rdr + r_minTouched rdr))) =
    Some (paint_span (\<lambda>k. kernel rdr k (mask_cov rdr (j * st) k))
      (span_start rdr + j * r_imageScanlineStride rdr) (span_width rdr) d, e)"
proof (cases "span_width rdr = 0")
  case False
  then have w: "0 < span_width rdr" using span_width_nonneg [of rdr] by linarith
  let ?r = "span_start rdr + j * r_imageScanlineStride rdr"
  let ?f = "\<lambda>k. kernel rdr k (mask_cov rdr (j * st) k)"
  note ro = rows_ok_row [OF ok(1) j w]
  have st1: "r_imagePixelStride rdr = 1" using ok(1) by (simp add: rows_ok_def)
  have "step rdr (mo + k) (d', vars k (?r + k)) =
      Some (d'[nat (?r + k) := ?f k (d' ! nat (?r + k))], vars (k + 1) (?r + (k + 1)))"
    if k: "0 \<le> k" "k < span_width rdr" and d': "length d' = length d" for k d'
  proof -
    have "i32 (k + 1) = k + 1" "i32 (?r + k + 1) = ?r + k + 1" "0 \<le> ?r + k" "?r + k < int (length d')"
      using ro k d d' by (auto intro!: i32_small)
    then show ?thesis
      using step [OF ok(3) st1 k _ _ _ _ mask_byte [OF ok(2) j k], of "?r + k" d']
      by (simp add: mask_cov_def add.assoc mo)
  qed
  then show ?thesis
    using ptr_loop_span1 [of "span_width rdr" ?r d "step rdr" mo "\<lambda>k. vars k (?r + k)" ?f] ro d by simp
qed simp

text \<open>The two outer loops: with the mask offset advancing from row to row, and with it fixed.\<close>

lemma rows_advancing:
  assumes ok: "rows_ok rdr h" "mask_ok rdr (r_alphaWidth rdr) (span_width rdr) h" "pre rdr"
  shows "\<exists>e. for_loop h (\<lambda>j (intData, imageOffset, alphaOffset). do {
      (intData, _) \<leftarrow> ptr_loop alphaOffset (alphaOffset + span_width rdr) 1 (step rdr)
        (intData, vars 0 (i32 (imageOffset + r_minTouched rdr)));
      Some (intData, i32 (imageOffset + r_imageScanlineStride rdr), i32 (alphaOffset + r_alphaWidth rdr))
    }) (r_data rdr, r_currImageOffset rdr, r_maskOffset rdr) =
    Some (paint_rows (\<lambda>j k. kernel rdr k (mask_cov rdr (j * r_alphaWidth rdr) k)) (span_start rdr)
      (r_imageScanlineStride rdr) (span_width rdr) (nat h) (r_data rdr), e)"
proof -
  let ?aux = "\<lambda>j. (i32 (r_currImageOffset rdr + j * r_imageScanlineStride rdr), i32 (r_maskOffset rdr + j * r_alphaWidth rdr))"
  have "0 \<le> h" "(r_currImageOffset rdr, r_maskOffset rdr) = ?aux 0"
    using ok by (simp_all add: rows_ok_def mask_ok_def i32_id)
  then have "for_loop h (\<lambda>j (intData, imageOffset, alphaOffset). do {
      (intData, _) \<leftarrow> ptr_loop alphaOffset (alphaOffset + span_width rdr) 1 (step rdr)
        (intData, vars 0 (i32 (imageOffset + r_minTouched rdr)));
      Some (intData, i32 (imageOffset + r_imageScanlineStride rdr), i32 (alphaOffset + r_alphaWidth rdr))
    }) (r_data rdr, r_currImageOffset rdr, r_maskOffset rdr) =
    Some (paint_rows (\<lambda>j k. kernel rdr k (mask_cov rdr (j * r_alphaWidth rdr) k)) (span_start rdr)
      (r_imageScanlineStride rdr) (span_width rdr) (nat h) (r_data rdr), ?aux h)"
  proof (rule for_loop_rows)
    fix j and d :: "jint list" assume "0 \<le> j" "j < h" "length d = length (r_data rdr)"
    from row [OF ok this refl]
    show "(\<lambda>(intData, imageOffset, alphaOffset). do {
        (intData, _) \<leftarrow> ptr_loop alphaOffset (alphaOffset + span_width rdr) 1 (step rdr)
          (intData, vars 0 (i32 (imageOffset + r_minTouched rdr)));
        Some (intData, i32 (imageOffset + r_imageScanlineStride rdr), i32 (alphaOffset + r_alphaWidth rdr))
      }) (d, ?aux j) =
      Some (paint_span (\<lambda>k. kernel rdr k (mask_cov rdr (j * r_alphaWidth rdr) k))
        (span_start rdr + j * r_imageScanlineStride rdr) (span_width rdr) d, ?aux (j + 1))"
      by (auto simp: distrib_right add.assoc)
  qed
  then show ?thesis by blast
qed

lemma rows_fixed:
  assumes ok: "rows_ok rdr h" "mask_ok rdr 0 (span_width rdr) h" "pre rdr"
  shows "\<exists>e. for_loop h (\<lambda>j (intData, imageOffset). do {
      (intData, _) \<leftarrow> ptr_loop (r_maskOffset rdr) (r_maskOffset rdr + span_width rdr) 1 (step rdr)
        (intData, vars 0 (i32 (imageOffset + r_minTouched rdr)));
      Some (intData, i32 (imageOffset + r_imageScanlineStride rdr))
    }) (r_data rdr, r_currImageOffset rdr) =
    Some (paint_rows (\<lambda>j k. kernel rdr k (mask_cov rdr 0 k)) (span_start rdr)
      (r_imageScanlineStride rdr) (span_width rdr) (nat h) (r_data rdr), e)"
proof -
  let ?aux = "\<lambda>j. i32 (r_currImageOffset rdr + j * r_imageScanlineStride rdr)"
  have h: "0 \<le> h" "r_currImageOffset rdr = ?aux 0" and mo: "r_maskOffset rdr = i32 (r_maskOffset rdr + j * 0)" for j
    using ok by (simp_all add: rows_ok_def mask_ok_def i32_id)
  from h have "for_loop h (\<lambda>j (intData, imageOffset). do {
      (intData, _) \<leftarrow> ptr_loop (r_maskOffset rdr) (r_maskOffset rdr + span_width rdr) 1 (step rdr)
        (intData, vars 0 (i32 (imageOffset + r_minTouched rdr)));
      Some (intData, i32 (imageOffset + r_imageScanlineStride rdr))
    }) (r_data rdr, r_currImageOffset rdr) =
    Some (paint_rows (\<lambda>j k. kernel rdr k (mask_cov rdr 0 k)) (span_start rdr)
      (r_imageScanlineStride rdr) (span_width rdr) (nat h) (r_data rdr), ?aux h)"
  proof (rule for_loop_rows)
    fix j and d :: "jint list" assume "0 \<le> j" "j < h" "length d = length (r_data rdr)"
    from row [OF ok this mo [of j]]
    show "(\<lambda>(intData, imageOffset). do {
        (intData, _) \<leftarrow> ptr_loop (r_maskOffset rdr) (r_maskOffset rdr + span_width rdr) 1 (step rdr)
          (intData, vars 0 (i32 (imageOffset + r_minTouched rdr)));
        Some (intData, i32 (imageOffset + r_imageScanlineStride rdr))
      }) (d, ?aux j) =
      Some (paint_span (\<lambda>k. kernel rdr k (mask_cov rdr 0 k))
        (span_start rdr + j * r_imageScanlineStride rdr) (span_width rdr) d, ?aux (j + 1))"
      by (auto simp: distrib_right add.assoc)
  qed
  then show ?thesis by blast
qed

end

interpretation m_over: mask_blitter blitSrcOverMask8888_pre_step "\<lambda>k i. i" "\<lambda>rdr. byte_colour (colour_of rdr)"
  "\<lambda>rdr k. src_over_px (colour_of rdr)"
  by unfold_locales
    (simp add: blitSrcOverMask8888_pre_step_def Let_def pixel_access scaled_alpha(1) flat_alpha src_over_px_def
      colour_of_def MAX_ALPHA_def)

interpretation m_src: mask_blitter blitSrcMask8888_pre_step "\<lambda>k i. i" "\<lambda>rdr. byte_colour (colour_of rdr)"
  "\<lambda>rdr k. src_px (colour_of rdr)"
  by unfold_locales
    (simp add: blitSrcMask8888_pre_step_def Let_def pixel_access scaled_alpha(1) flat_alpha src_px_def
      colour_of_def MAX_ALPHA_def)

interpretation m_pt_over: mask_blitter blitPTSrcOverMask8888_pre_step "\<lambda>k i. (k, i)" paint_ok
  "\<lambda>rdr k. pt_src_over_px (r_paint rdr ! nat k)"
  by unfold_locales
    (simp add: blitPTSrcOverMask8888_pre_step_def Let_def pixel_access scaled_alpha(1) [OF px_is_byte(1)] paint_alpha
      pt_src_over_px_def MAX_ALPHA_def)

interpretation m_pt_src: mask_blitter blitPTSrcMask8888_pre_step "\<lambda>k i. (k, i)" paint_ok
  "\<lambda>rdr k. pt_src_px (r_paint rdr ! nat k)"
  by unfold_locales
    (simp add: blitPTSrcMask8888_pre_step_def Let_def pixel_access scaled_alpha(1) [OF px_is_byte(1)] paint_alpha
      pt_src_px_def MAX_ALPHA_def)

lemma rows_ok_stride: "rows_ok rdr h \<Longrightarrow> r_imagePixelStride rdr = 1"
  by (simp add: rows_ok_def)

lemma blitSrcOverMask8888_pre_rows:
  assumes ok: "rows_ok rdr h" "mask_ok rdr (r_alphaWidth rdr) (span_width rdr) h" "byte_colour (colour_of rdr)"
  shows "blitSrcOverMask8888_pre rdr h = Some (rdr\<lparr>r_data :=
      paint_rows (\<lambda>j k. src_over_px (colour_of rdr) (mask_cov rdr (j * r_alphaWidth rdr) k)) (span_start rdr) (r_imageScanlineStride rdr)
        (span_width rdr) (nat h) (r_data rdr)\<rparr>)"
  using m_over.rows_advancing [OF ok] rows_ok_stride [OF ok(1)]
  by (auto simp: blitSrcOverMask8888_pre_def Let_def rows_ok_width [OF ok(1)])

lemma blitSrcMask8888_pre_rows:
  assumes ok: "rows_ok rdr h" "mask_ok rdr (r_alphaWidth rdr) (span_width rdr) h" "byte_colour (colour_of rdr)"
  shows "blitSrcMask8888_pre rdr h = Some (rdr\<lparr>r_data :=
      paint_rows (\<lambda>j k. src_px (colour_of rdr) (mask_cov rdr (j * r_alphaWidth rdr) k)) (span_start rdr) (r_imageScanlineStride rdr)
        (span_width rdr) (nat h) (r_data rdr)\<rparr>)"
  using m_src.rows_advancing [OF ok] rows_ok_stride [OF ok(1)]
  by (auto simp: blitSrcMask8888_pre_def Let_def rows_ok_width [OF ok(1)])

lemma blitPTSrcOverMask8888_pre_rows:
  assumes ok: "rows_ok rdr h" "mask_ok rdr 0 (span_width rdr) h" "paint_ok rdr"
  shows "blitPTSrcOverMask8888_pre rdr h = Some (rdr\<lparr>r_data :=
      paint_rows (\<lambda>j k. pt_src_over_px (r_paint rdr ! nat k) (mask_cov rdr 0 k)) (span_start rdr) (r_imageScanlineStride rdr)
        (span_width rdr) (nat h) (r_data rdr)\<rparr>)"
  using m_pt_over.rows_fixed [OF ok] rows_ok_stride [OF ok(1)]
  by (auto simp: blitPTSrcOverMask8888_pre_def Let_def rows_ok_width [OF ok(1)])

lemma blitPTSrcMask8888_pre_rows:
  assumes ok: "rows_ok rdr h" "mask_ok rdr 0 (span_width rdr) h" "paint_ok rdr"
  shows "blitPTSrcMask8888_pre rdr h = Some (rdr\<lparr>r_data :=
      paint_rows (\<lambda>j k. pt_src_px (r_paint rdr ! nat k) (mask_cov rdr 0 k)) (span_start rdr) (r_imageScanlineStride rdr)
        (span_width rdr) (nat h) (r_data rdr)\<rparr>)"
  using m_pt_src.rows_fixed [OF ok] rows_ok_stride [OF ok(1)]
  by (auto simp: blitPTSrcMask8888_pre_def Let_def rows_ok_width [OF ok(1)])

section \<open>One formula per rule\<close>

text \<open>
  The branches of the source-over kernels for full and for no coverage are shortcuts: one formula
  covers all cases. For a flat colour the source weighs \<open>cov_alpha\<close> 255ths; a premultiplied paint
  is faded by the coverage and put over what the destination keeps.
\<close>

definition cov_alpha :: "int \<Rightarrow> int \<Rightarrow> int" where
  "cov_alpha cov a = (cov + 1) * a div 256"

definition over_ref :: "colour \<Rightarrow> int \<Rightarrow> jint \<Rightarrow> jint" where
  "over_ref = (\<lambda>(a, r, g, b) cov p.
     let v = cov_alpha cov a; w = 255 - v
     in argb (wmean v 255 w (pxA p)) (wmean v r w (pxR p)) (wmean v g w (pxG p)) (wmean v b w (pxB p)))"

definition pt_over_ref :: "jint \<Rightarrow> int \<Rightarrow> jint \<Rightarrow> jint" where
  "pt_over_ref cval cov p =
     (let f = fade (cov + 1); a = f (pxA cval)
      in argb (a + under a (pxA p)) (f (pxR cval) + under a (pxR p)) (f (pxG cval) + under a (pxG p))
           (f (pxB cval) + under a (pxB p)))"

lemma wmean_extreme [simp]: "wmean 255 x 0 y = x" "wmean 0 x 255 y = y"
  by (simp_all add: wmean_def)

lemma under_extreme [simp]: "under 0 d = d" "under 255 d = 0"
  by (simp_all add: under_def)

lemma src_over_px_ref:
  assumes "byte_colour c" "is_byte cov" "is_jint p"
  shows "src_over_px c cov p = over_ref c cov p"
proof -
  obtain a r g b where ce: "c = (a, r, g, b)" by (cases c)
  from assms(1) have bytes: "is_byte a" "is_byte r" "is_byte g" "is_byte b" by (simp_all add: byte_colour_def ce)
  have v: "is_byte (cov_alpha cov a)"
    using scaled_alpha(2,4) [OF bytes(1) assms(2)] bytes(1) unfolding cov_alpha_def by linarith
  consider "cov_alpha cov a = 255" | "cov_alpha cov a = 0" | "0 < cov_alpha cov a" "cov_alpha cov a \<noteq> 255"
    using v by linarith
  then show ?thesis
  proof cases
    case 3
    then show ?thesis
      using blendSrcOver8888_pre_channels [OF v bytes(2-4), of p]
      by (simp add: src_over_px_def over_ref_def ce Let_def cov_alpha_def)
  qed (simp_all add: src_over_px_def over_ref_def ce Let_def cov_alpha_def argb_channels [OF assms(3)])
qed

lemma fade_0:
  assumes "premul c" "0 \<le> f" "f \<le> 256" "fade f (pxA c) = 0"
  shows "fade f (pxR c) = 0" "fade f (pxG c) = 0" "fade f (pxB c) = 0"
  using premul_channels [OF assms(1)] fade_mono [OF assms(2), of _ "pxA c"] fade_bounds(1) [OF assms(2,3)]
    px_is_byte [of c] assms(4) by (metis order_antisym order_trans)+

lemma pt_src_over_px_ref:
  assumes "premul c" "is_byte cov" "is_jint p"
  shows "pt_src_over_px c cov p = pt_over_ref c cov p"
proof -
  have f: "0 \<le> cov + 1" "cov + 1 \<le> 256" using assms(2) by auto
  have e: "(cov + 1) * pxA c div 256 = fade (cov + 1) (pxA c)" by (simp add: fade_def mult.commute)
  have b: "0 \<le> fade (cov + 1) (pxA c)" "fade (cov + 1) (pxA c) \<le> 255"
    using fade_bounds [OF f px_is_byte(1) [of c]] px_is_byte(1) [of c] by auto
  consider "fade (cov + 1) (pxA c) = 255" | "fade (cov + 1) (pxA c) = 0"
    | "0 < fade (cov + 1) (pxA c)" "fade (cov + 1) (pxA c) \<noteq> 255" using b by linarith
  then show ?thesis
  proof cases
    case 1
    have "fade (cov + 1) (pxA c) \<le> cov" using scaled_alpha(3) [OF px_is_byte(1) [of c] assms(2)] by (simp only: e)
    then have "cov = 255" using 1 assms(2) by linarith
    then show ?thesis using 1 argb_channels [of c] assms(1)
      by (simp add: pt_src_over_px_def pt_over_ref_def e premul_def)
  next
    case 2
    then show ?thesis
      using fade_0 [OF assms(1) f 2] argb_channels [OF assms(3)]
      by (simp add: pt_src_over_px_def pt_over_ref_def Let_def e)
  next
    case 3
    then show ?thesis
      using blendSrcOver8888_pre_pre_channels [OF f px_is_byte [of c], of p]
      by (simp add: pt_src_over_px_def pt_over_ref_def Let_def e)
  qed
qed

section \<open>The blitters meet their specification\<close>

text \<open>
  \<open>span_drawn rdr f rdr'\<close>: pixel \<open>k\<close> of the touched span became its image under \<open>f k\<close>, every other
  pixel is as before, and the surface is still premultiplied. \<open>rows_drawn\<close> is the same for \<open>h\<close> rows.
\<close>

definition span_drawn :: "renderer \<Rightarrow> (int \<Rightarrow> jint \<Rightarrow> jint) \<Rightarrow> renderer \<Rightarrow> bool" where
  "span_drawn rdr f rdr' \<longleftrightarrow> length (r_data rdr') = length (r_data rdr) \<and> premul_buf (r_data rdr') \<and>
     (\<forall>i < length (r_data rdr). r_data rdr' ! i =
        (let k = int i - span_start rdr
         in if 0 \<le> k \<and> k < span_width rdr then f k (r_data rdr ! i) else r_data rdr ! i))"

definition rows_drawn :: "renderer \<Rightarrow> int \<Rightarrow> (int \<Rightarrow> int \<Rightarrow> jint \<Rightarrow> jint) \<Rightarrow> renderer \<Rightarrow> bool" where
  "rows_drawn rdr h f rdr' \<longleftrightarrow> length (r_data rdr') = length (r_data rdr) \<and> premul_buf (r_data rdr') \<and>
     (\<forall>i < length (r_data rdr). r_data rdr' ! i =
        (let p = int i - span_start rdr; j = p div r_imageScanlineStride rdr; k = p mod r_imageScanlineStride rdr
         in if 0 \<le> p \<and> j < h \<and> k < span_width rdr then f j k (r_data rdr ! i) else r_data rdr ! i))"

lemma span_drawnI:
  assumes "premul_buf (r_data rdr)" and d: "r_data rdr' = paint_span g (span_start rdr) (span_width rdr) (r_data rdr)"
    and "premul_buf (r_data rdr')"
    and "\<And>k p. 0 \<le> k \<Longrightarrow> k < span_width rdr \<Longrightarrow> is_jint p \<Longrightarrow> g k p = f k p"
  shows "span_drawn rdr f rdr'"
  using assms(1,3,4) premul_buf_nth [OF assms(1)] unfolding span_drawn_def d
  by (auto simp: nth_paint_span Let_def premul_def)

lemma rows_drawnI:
  assumes "premul_buf (r_data rdr)" "0 < r_imageScanlineStride rdr" "span_width rdr \<le> r_imageScanlineStride rdr"
    and d: "r_data rdr' = paint_rows g (span_start rdr) (r_imageScanlineStride rdr) (span_width rdr) (nat h) (r_data rdr)"
    and "premul_buf (r_data rdr')"
    and eq: "\<And>j k p. 0 \<le> j \<Longrightarrow> j < h \<Longrightarrow> 0 \<le> k \<Longrightarrow> k < span_width rdr \<Longrightarrow> is_jint p \<Longrightarrow> g j k p = f j k p"
  shows "rows_drawn rdr h f rdr'"
proof -
  have "r_data rdr' ! i = (let p = int i - span_start rdr; j = p div r_imageScanlineStride rdr;
          k = p mod r_imageScanlineStride rdr
        in if 0 \<le> p \<and> j < h \<and> k < span_width rdr then f j k (r_data rdr ! i) else r_data rdr ! i)"
    if i: "i < length (r_data rdr)" for i
  proof (cases "span_start rdr \<le> int i")
    case True
    then have "0 \<le> (int i - span_start rdr) div r_imageScanlineStride rdr"
      "0 \<le> (int i - span_start rdr) mod r_imageScanlineStride rdr"
      using assms(2) by (simp_all add: pos_imp_zdiv_nonneg_iff)
    then show ?thesis
      using True i premul_buf_nth [OF assms(1) i] eq
      by (simp add: d nth_paint_rows [OF assms(2,3)] in_rows_def Let_def premul_def)
  qed (simp add: d nth_paint_rows [OF assms(2,3) i] in_rows_def Let_def)
  then show ?thesis using assms(5) by (simp add: rows_drawn_def d)
qed

text \<open>A renderer set up for one row of four pixels, two of them touched, for concrete runs.\<close>

definition sample_row :: renderer where
  "sample_row = cleared_renderer\<lparr>r_data := [0, -16776961, -2139062144, -1], r_width := 4, r_height := 1,
     r_imageScanlineStride := 4, r_imagePixelStride := 1, r_calpha := 128, r_cred := 100, r_cgreen := 50,
     r_cblue := 7, r_minTouched := 1, r_maxTouched := 2, r_alphaWidth := 4, r_alphaMap := [0, -128, -1],
     r_rowAAInt := [1, 1, -2, 0], r_mask_byteData := [0, 64, -1, 3], r_maskOffset := 1,
     r_paint := [-2139062144, 1077952576, 0, 0]\<rparr>"

lemma sample_row_premul: "premul_buf (r_data sample_row)" "premul_buf (r_paint sample_row)"
  by (simp_all add: sample_row_def premul_eval)

lemma sample_row_span: "span_ok sample_row"
  by (simp add: sample_row_def cleared_renderer_def Let_def span_ok_def span_start_def span_width_def is_jint_def)

lemma sample_row_aa: "aa_ok sample_row"
proof -
  have "span_width sample_row = 2" by (simp add: sample_row_def span_width_def)
  moreover have "{0..<2 :: int} = {0, 1}" by auto
  ultimately show ?thesis by (simp add: aa_ok_def sample_row_def psum_def)
qed

lemma sample_row_rows: "rows_ok sample_row 1"
  by (simp add: sample_row_def cleared_renderer_def Let_def rows_ok_def span_start_def span_width_def is_jint_def)

lemma sample_row_colour: "pre_colour (colour_of sample_row)" "byte_colour (colour_of sample_row)"
  by (simp_all add: sample_row_def colour_of_def pre_colour_def byte_colour_def)

lemma sample_row_mask: "mask_ok sample_row (r_alphaWidth sample_row) (span_width sample_row) 1"
    "mask_ok sample_row 0 (span_width sample_row) 1" "paint_ok sample_row"
  by (simp_all add: sample_row_def mask_ok_def span_width_def is_jint_def paint_ok_def)

lemmas sample_row_ok = sample_row_premul sample_row_span sample_row_aa sample_row_rows sample_row_colour sample_row_mask

lemma pre_byte_colour: "pre_colour c \<Longrightarrow> byte_colour c"
  by (auto simp: pre_colour_def byte_colour_def)

lemma paint_premul:
  assumes "paint_ok rdr" "premul_buf (r_paint rdr)" "0 \<le> k" "k < span_width rdr"
  shows "premul (r_paint rdr ! nat k)"
  using assms by (intro premul_buf_nth) (auto simp: paint_ok_def)

text \<open>
  Source-over of a flat colour along a row of accumulated coverage always returns, draws exactly the
  touched span with the weighted-mean formula, leaves every other pixel alone, keeps the surface
  premultiplied, and clears the coverage it has consumed.
\<close>

theorem blitSrcOver8888_pre_correct:
  assumes "span_ok rdr" "aa_ok rdr" "byte_colour (colour_of rdr)" "premul_buf (r_data rdr)"
  shows "\<exists>rdr'. blitSrcOver8888_pre rdr 1 = Some rdr' \<and>
    span_drawn rdr (\<lambda>k. over_ref (colour_of rdr) (aa_cov0 rdr k)) rdr' \<and>
    r_rowAAInt rdr' = zero_prefix (span_width rdr) (r_rowAAInt rdr)"
  using assms
  by (auto simp: blitSrcOver8888_pre_span intro!: span_drawnI over.span_premul src_over_px_ref)

theorem blitSrcOver8888_pre_correct_witness:
  "\<exists>rdr'. blitSrcOver8888_pre sample_row 1 = Some rdr' \<and>
    span_drawn sample_row (\<lambda>k. over_ref (colour_of sample_row) (aa_cov0 sample_row k)) rdr' \<and>
    r_rowAAInt rdr' = zero_prefix (span_width sample_row) (r_rowAAInt sample_row)"
  by (rule blitSrcOver8888_pre_correct) (rule sample_row_ok)+

text \<open>
  Source-over of a generated paint row along a row of accumulated coverage always returns, puts each
  premultiplied paint pixel, faded by its coverage, over the touched span and nothing else, keeps the
  surface premultiplied, and clears the coverage it has consumed.
\<close>

theorem blitPTSrcOver8888_pre_correct:
  assumes "span_ok rdr" "aa_ok rdr" "paint_ok rdr" "premul_buf (r_paint rdr)" "premul_buf (r_data rdr)"
  shows "\<exists>rdr'. blitPTSrcOver8888_pre rdr 1 = Some rdr' \<and>
    span_drawn rdr (\<lambda>k. pt_over_ref (r_paint rdr ! nat k) (aa_cov0 rdr k)) rdr' \<and>
    r_rowAAInt rdr' = zero_prefix (span_width rdr) (r_rowAAInt rdr)"
  using assms
  by (auto simp: blitPTSrcOver8888_pre_span intro!: span_drawnI pt_over.span_premul pt_src_over_px_ref paint_premul)

theorem blitPTSrcOver8888_pre_correct_witness:
  "\<exists>rdr'. blitPTSrcOver8888_pre sample_row 1 = Some rdr' \<and>
    span_drawn sample_row (\<lambda>k. pt_over_ref (r_paint sample_row ! nat k) (aa_cov0 sample_row k)) rdr' \<and>
    r_rowAAInt rdr' = zero_prefix (span_width sample_row) (r_rowAAInt sample_row)"
  by (rule blitPTSrcOver8888_pre_correct) (rule sample_row_ok)+

text \<open>
  The plain source rule along a row of accumulated coverage always returns, replaces the touched span
  in proportion to the coverage and nothing else and clears the coverage; the surface stays premultiplied
  for colours whose channels do not exceed their alpha.
\<close>

theorem blitSrc8888_pre_correct:
  assumes "span_ok rdr" "aa_ok rdr" "pre_colour (colour_of rdr)" "premul_buf (r_data rdr)"
  shows "\<exists>rdr'. blitSrc8888_pre rdr 1 = Some rdr' \<and>
    span_drawn rdr (\<lambda>k. src_px (colour_of rdr) (aa_cov rdr k)) rdr' \<and>
    r_rowAAInt rdr' = zero_prefix (span_width rdr) (r_rowAAInt rdr)"
  using assms
  by (auto simp: blitSrc8888_pre_span pre_byte_colour intro!: span_drawnI src.span_premul)

theorem blitSrc8888_pre_correct_witness:
  "\<exists>rdr'. blitSrc8888_pre sample_row 1 = Some rdr' \<and>
    span_drawn sample_row (\<lambda>k. src_px (colour_of sample_row) (aa_cov sample_row k)) rdr' \<and>
    r_rowAAInt rdr' = zero_prefix (span_width sample_row) (r_rowAAInt sample_row)"
  by (rule blitSrc8888_pre_correct) (rule sample_row_ok)+

text \<open>The rows of the rectangle do not overlap.\<close>

definition rows_apart :: "renderer \<Rightarrow> bool" where
  "rows_apart rdr \<longleftrightarrow> 0 < r_imageScanlineStride rdr \<and> span_width rdr \<le> r_imageScanlineStride rdr"

lemma sample_row_apart: "rows_apart sample_row"
  by (simp add: sample_row_def rows_apart_def span_width_def)

text \<open>
  The plain source rule for paints breaks the surface: with the half transparent paint 0x80808080 at half
  coverage over the same, premultiplied, pixel, the pixel stored is 0x80c0c0c0, which is not premultiplied
  (the paint channels are added unscaled to the share the destination keeps).
\<close>

theorem blitPTSrcMask8888_pre_overflow:
  "\<exists>rdr rdr'. rows_ok rdr 1 \<and> mask_ok rdr 0 (span_width rdr) 1 \<and> paint_ok rdr \<and>
     r_data rdr = [-2139062144] \<and> r_paint rdr = [-2139062144] \<and> r_mask_byteData rdr = [127] \<and>
     premul_buf (r_data rdr) \<and> premul_buf (r_paint rdr) \<and>
     blitPTSrcMask8888_pre rdr 1 = Some rdr' \<and> r_data rdr' = [-2134851392] \<and> \<not> premul_buf (r_data rdr')"
proof -
  define r where "r = cleared_renderer\<lparr>r_data := [-2139062144], r_paint := [-2139062144], r_mask_byteData := [127],
    r_imagePixelStride := 1, r_imageScanlineStride := 1, r_maxTouched := 0\<rparr>"
  have ok: "rows_ok r 1" "mask_ok r 0 (span_width r) 1" "paint_ok r"
    by (simp_all add: r_def cleared_renderer_def Let_def rows_ok_def mask_ok_def paint_ok_def span_start_def
        span_width_def is_jint_def)
  have "pt_src_px (-2139062144) 127 (-2139062144) = -2134851392" by code_simp
  then have "paint_rows (\<lambda>j k. pt_src_px (r_paint r ! nat k) (mask_cov r 0 k)) (span_start r)
      (r_imageScanlineStride r) (span_width r) (nat 1) (r_data r) = [-2134851392]"
    by (simp add: r_def cleared_renderer_def Let_def paint_span_def span_start_def span_width_def mask_cov_def)
  then have res: "blitPTSrcMask8888_pre r 1 = Some (r\<lparr>r_data := [-2134851392]\<rparr>)"
    by (simp only: blitPTSrcMask8888_pre_rows [OF ok])
  have pre: "premul_buf [-2139062144]" "\<not> premul_buf [-2134851392]" by (simp_all add: premul_eval)
  show ?thesis
    by (intro exI [of _ r] exI [of _ "r\<lparr>r_data := [-2134851392]\<rparr>"] conjI ok res)
      (simp_all add: r_def pre)
qed

end
