(* ===== verification/Pisces_Line_Correct.thy ===== *)
theory Pisces_Line_Correct
  imports Pisces_Blit_Correct
begin

text \<open>
  Correctness of the \<^verbatim>\<open>emitLine\<close> routines, which fill rectangles whose rows all have one coverage
  \<^verbatim>\<open>frac\<close> and whose left and right edges may cover a pixel in part, and of \<^verbatim>\<open>clearRect8888_any\<close>.
\<close>

section \<open>One row\<close>

definition edge_px :: "bool \<Rightarrow> bool \<Rightarrow> int \<Rightarrow> 'a \<Rightarrow> 'a \<Rightarrow> 'a \<Rightarrow> int \<Rightarrow> 'a" where
  "edge_px l r n left mid right k = (if l \<and> k = 0 then left else if r \<and> k = n - 1 then right else mid)"

lemma upd_span:
  assumes "0 \<le> a" "a < int (length d)"
  shows "upd d a g = Some (paint_span (\<lambda>k. g) a 1 d)"
  using assms by (simp add: pixel_access paint_span_one)

text \<open>Left part, middle and right part of a span, one after the other, are the span.\<close>

lemma paint_span_left:
  assumes "0 \<le> w"
  shows "paint_span (\<lambda>k. f (k + of_bool l)) (a + of_bool l) w (if l then paint_span (\<lambda>k. f 0) a 1 d else d) =
    paint_span f a (w + of_bool l) d"
proof (rule nth_equalityI)
  fix i assume "i < length (paint_span (\<lambda>k. f (k + of_bool l)) (a + of_bool l) w (if l then paint_span (\<lambda>k. f 0) a 1 d else d))"
  then have i: "i < length d" by (simp split: if_splits)
  show "paint_span (\<lambda>k. f (k + of_bool l)) (a + of_bool l) w (if l then paint_span (\<lambda>k. f 0) a 1 d else d) ! i =
      paint_span f a (w + of_bool l) d ! i"
    using i assms by (cases "int i = a") (auto simp: nth_paint_span)
qed simp

lemma paint_span_right:
  "(if r then paint_span (\<lambda>k. f n) (a + n) 1 (paint_span f a n d) else paint_span f a n d) =
   paint_span f a (n + of_bool r) d" if "0 \<le> n"
  using that by (auto intro!: nth_equalityI simp: nth_paint_span)

lemma flat_row_span:
  assumes w: "0 \<le> w" and a: "0 \<le> a" "a + n \<le> int (length d)" and n: "n = w + of_bool l + of_bool r"
  shows "flat_row 1 l r w left mid right a d = Some (paint_span (edge_px l r n left mid right) a n d)"
proof -
  let ?f = "edge_px l r n left mid right" and ?a = "a + of_bool l"
  define d1 where "d1 = (if l then paint_span (\<lambda>k. ?f 0) a 1 d else d)"
  have al: "a < int (length d)" if l using that a n w by (cases r) auto
  have l: "(if l then do { intData \<leftarrow> upd d a left; Some (intData, a + 1) } else Some (d, a)) = Some (d1, ?a)"
    using upd_span [OF a(1) al, of left] by (cases l) (simp_all add: d1_def edge_px_def)
  have len: "length d1 = length d" by (simp add: d1_def)
  have bnd: "0 \<le> ?a" "?a + w \<le> int (length d)" using a n w by (cases l; cases r; simp)+
  have m: "ptr_loop ?a (?a + w) 1 (\<lambda>a (intData, _). do {
        intData \<leftarrow> upd intData a mid; Some (intData, a + 1) }) (d1, ?a + 0) =
      Some (paint_span (\<lambda>k. mid) ?a w d1, ?a + w)"
  proof (rule ptr_loop_span1)
    show "(\<lambda>a (intData, _). do { intData \<leftarrow> upd intData a mid; Some (intData, a + 1) }) (?a + k) (d', ?a + k) =
        Some (d'[nat (?a + k) := mid (d' ! nat (?a + k))], ?a + (k + 1))"
      if "0 \<le> k" "k < w" "length d' = length d1" for k d'
      using that bnd len by (simp add: pixel_access)
  qed (use w bnd len in simp_all)
  have mid: "paint_span (\<lambda>k. mid) ?a w d1 = paint_span ?f a (w + of_bool l) d"
    unfolding paint_span_left [OF w, symmetric, of ?f] d1_def [symmetric]
    by (rule paint_span_cong) (auto simp: edge_px_def n)
  have rpx: "?f (w + of_bool l) = right" if r using that w by (simp add: edge_px_def n)
  have "?a + w < int (length d)" if r using that a n by simp
  then have right: "(if r then upd (paint_span ?f a (w + of_bool l) d) (?a + w) right
      else Some (paint_span ?f a (w + of_bool l) d)) = Some (paint_span ?f a n d)"
    using paint_span_right [of "w + of_bool l" r ?f a d] w bnd rpx
    by (cases r) (simp_all add: upd_span n ac_simps)
  show ?thesis unfolding flat_row_def using l m mid right by simp
qed

text \<open>The same with a paint; \<open>q\<close> is where the row starts in the paint buffer.\<close>

lemma paint_row_span:
  assumes w: "0 \<le> w" and a: "0 \<le> a" "a + n \<le> int (length d)" and n: "n = w + of_bool l + of_bool r"
    and q: "0 \<le> q" "q + n \<le> int (length paint)" "int (length paint) < 2 ^ 31"
    and mid: "\<And>k d' i. 0 \<le> i \<Longrightarrow> i < int (length d') \<Longrightarrow> 0 \<le> k \<Longrightarrow> k < n \<Longrightarrow>
      mid (paint ! nat (q + k)) d' i = Some (d'[nat i := md k (d' ! nat i)])"
  shows "paint_row 1 l r w left mid right paint a q d =
    Some (paint_span (\<lambda>k. edge_px l r n (left (paint ! nat (q + k))) (md k) (right (paint ! nat (q + k))) k) a n d)"
proof -
  let ?f = "\<lambda>k. edge_px l r n (left (paint ! nat (q + k))) (md k) (right (paint ! nat (q + k))) k"
    and ?a = "a + of_bool l" and ?q = "q + of_bool l"
  define d1 where "d1 = (if l then paint_span (\<lambda>k. ?f 0) a 1 d else d)"
  have rdp: "rd paint (q + k) = Some (paint ! nat (q + k))" "i32 (q + k + 1) = q + k + 1" if "0 \<le> k" "k < n" for k
    using that q by (auto intro!: i32_small)
  have rd0: "rd paint q = Some (paint ! nat q)" "i32 (q + 1) = q + 1" if "0 < n" using rdp [of 0] that by simp_all
  have al: "a < int (length d)" if l using that a n w by (cases r) auto
  have l: "(if l then do { cval \<leftarrow> rd paint q; intData \<leftarrow> upd d a (left cval); Some (intData, a + 1, i32 (q + 1)) }
      else Some (d, a, q)) = Some (d1, ?a, ?q)"
    using rd0 upd_span [OF a(1) al, of "left (paint ! nat q)"] w n by (cases l; cases r) (simp_all add: d1_def edge_px_def)
  have len: "length d1 = length d" by (simp add: d1_def)
  have bnd: "0 \<le> ?a" "?a + w \<le> int (length d)" using a n w by (cases l; cases r; simp)+
  have m: "ptr_loop ?a (?a + w) 1 (\<lambda>a (intData, _, aidx). do {
        cval \<leftarrow> rd paint aidx; intData \<leftarrow> mid cval intData a; Some (intData, a + 1, i32 (aidx + 1)) })
        (d1, (\<lambda>k. (?a + k, ?q + k)) 0) =
      Some (paint_span (\<lambda>k. md (k + of_bool l)) ?a w d1, (\<lambda>k. (?a + k, ?q + k)) w)"
  proof (rule ptr_loop_span1)
    fix k and d' :: "jint list" assume k: "0 \<le> k" "k < w" and d': "length d' = length d1"
    have k1: "0 \<le> k + of_bool l" "k + of_bool l < n" using k n by (cases l; cases r; simp)+
    have e: "q + (k + of_bool l) = ?q + k" by simp
    show "(\<lambda>a (intData, _, aidx). do {
        cval \<leftarrow> rd paint aidx; intData \<leftarrow> mid cval intData a; Some (intData, a + 1, i32 (aidx + 1)) })
        (?a + k) (d', (\<lambda>k. (?a + k, ?q + k)) k) =
        Some (d'[nat (?a + k) := md (k + of_bool l) (d' ! nat (?a + k))], (\<lambda>k. (?a + k, ?q + k)) (k + 1))"
      using rdp [OF k1] mid [OF _ _ k1, of "?a + k" d'] k d' bnd len unfolding e by simp
  qed (use w bnd len in simp_all)
  have mid: "paint_span (\<lambda>k. md (k + of_bool l)) ?a w d1 = paint_span ?f a (w + of_bool l) d"
    unfolding paint_span_left [OF w, symmetric, of ?f] d1_def [symmetric]
    by (rule paint_span_cong) (auto simp: edge_px_def n)
  have rpx: "?f (w + of_bool l) = right (paint ! nat (?q + w))" if r using that w by (simp add: edge_px_def n ac_simps)
  have "?a + w < int (length d)" "rd paint (?q + w) = Some (paint ! nat (?q + w))" if r
    using that a n w q by (cases l; simp)+
  then have right: "(if r then do { cval \<leftarrow> rd paint (?q + w); upd (paint_span ?f a (w + of_bool l) d) (?a + w) (right cval) }
      else Some (paint_span ?f a (w + of_bool l) d)) = Some (paint_span ?f a n d)"
    using paint_span_right [of "w + of_bool l" r ?f a d] w bnd rpx
    by (cases r) (simp_all add: upd_span n ac_simps)
  show ?thesis unfolding paint_row_def using l m mid right by simp
qed

section \<open>All rows\<close>

text \<open>
  The rectangle lies in the buffer, spans the touched columns, and is wide enough for its fractional
  edges.
\<close>

definition line_ok :: "renderer \<Rightarrow> int \<Rightarrow> bool \<Rightarrow> bool \<Rightarrow> bool" where
  "line_ok rdr h l r \<longleftrightarrow> rows_ok rdr h \<and> 0 < span_width rdr \<and> r_alphaWidth rdr = span_width rdr \<and>
     of_bool l + of_bool r \<le> span_width rdr"

lemma line_ok_width:
  assumes "line_ok rdr h l r"
  shows "i32 (r_alphaWidth rdr - (if l then 1 else 0) - (if r then 1 else 0)) = span_width rdr - of_bool l - of_bool r"
    and "0 \<le> span_width rdr - of_bool l - of_bool r"
proof -
  have "0 \<le> (0 :: int)" "(0 :: int) < h" using assms by (simp_all add: line_ok_def rows_ok_def)
  with assms have "span_width rdr < 2147483648"
    using rows_ok_row(1,3) [of rdr h 0] by (simp add: line_ok_def)
  then show "i32 (r_alphaWidth rdr - (if l then 1 else 0) - (if r then 1 else 0)) = span_width rdr - of_bool l - of_bool r"
    "0 \<le> span_width rdr - of_bool l - of_bool r"
    using assms by (cases l; cases r; simp add: line_ok_def i32_small)+
qed

lemma emit_flat_rows:
  assumes ok: "rows_ok rdr h" "0 < span_width rdr"
    and row: "\<And>a d. length d = length (r_data rdr) \<Longrightarrow> 0 \<le> a \<Longrightarrow> a + span_width rdr \<le> int (length d) \<Longrightarrow>
      row a d = Some (paint_span f a (span_width rdr) d)"
  shows "\<exists>e. for_loop h (\<lambda>j (intData, imageOffset). do {
      intData \<leftarrow> row (i32 (imageOffset + r_minTouched rdr)) intData;
      Some (intData, i32 (imageOffset + r_imageScanlineStride rdr))
    }) (r_data rdr, r_currImageOffset rdr) =
    Some (paint_rows (\<lambda>j. f) (span_start rdr) (r_imageScanlineStride rdr) (span_width rdr) (nat h) (r_data rdr), e)"
proof -
  let ?aux = "\<lambda>j. i32 (r_currImageOffset rdr + j * r_imageScanlineStride rdr)"
  have h: "0 \<le> h" "r_currImageOffset rdr = ?aux 0"
    using ok(1) by (simp_all add: rows_ok_def i32_id)
  have "for_loop h (\<lambda>j (intData, imageOffset). do {
      intData \<leftarrow> row (i32 (imageOffset + r_minTouched rdr)) intData;
      Some (intData, i32 (imageOffset + r_imageScanlineStride rdr))
    }) (r_data rdr, r_currImageOffset rdr) =
    Some (paint_rows (\<lambda>j. f) (span_start rdr) (r_imageScanlineStride rdr) (span_width rdr) (nat h) (r_data rdr), ?aux h)"
    using h
  proof (rule for_loop_rows)
    fix j and d :: "jint list" assume j: "0 \<le> j" "j < h" and d: "length d = length (r_data rdr)"
    from rows_ok_row [OF ok(1) j ok(2)] row [OF d, of "span_start rdr + j * r_imageScanlineStride rdr"] d
    show "(\<lambda>(intData, imageOffset). do {
        intData \<leftarrow> row (i32 (imageOffset + r_minTouched rdr)) intData;
        Some (intData, i32 (imageOffset + r_imageScanlineStride rdr))
      }) (d, ?aux j) =
      Some (paint_span f (span_start rdr + j * r_imageScanlineStride rdr) (span_width rdr) d, ?aux (j + 1))"
      by (simp add: distrib_right add.assoc)
  qed
  then show ?thesis by blast
qed

lemma emit_paint_rows:
  assumes ok: "rows_ok rdr h" "0 < span_width rdr" "0 \<le> s"
    and paint: "h * s \<le> int (length (r_paint rdr))" "int (length (r_paint rdr)) < 2 ^ 31"
    and row: "\<And>j a d. 0 \<le> j \<Longrightarrow> j < h \<Longrightarrow> length d = length (r_data rdr) \<Longrightarrow> 0 \<le> a \<Longrightarrow>
      a + span_width rdr \<le> int (length d) \<Longrightarrow> row a (j * s) d = Some (paint_span (f j) a (span_width rdr) d)"
  shows "\<exists>e. for_loop h (\<lambda>j (intData, imageOffset, paint_offset). do {
      intData \<leftarrow> row (i32 (imageOffset + r_minTouched rdr)) paint_offset intData;
      Some (intData, i32 (imageOffset + r_imageScanlineStride rdr), i32 (paint_offset + s))
    }) (r_data rdr, r_currImageOffset rdr, 0) =
    Some (paint_rows f (span_start rdr) (r_imageScanlineStride rdr) (span_width rdr) (nat h) (r_data rdr), e)"
proof -
  let ?aux = "\<lambda>j. (i32 (r_currImageOffset rdr + j * r_imageScanlineStride rdr), i32 (j * s))"
  have h: "0 \<le> h" "(r_currImageOffset rdr, 0) = ?aux 0"
    using ok(1) by (simp_all add: rows_ok_def i32_id)
  have "for_loop h (\<lambda>j (intData, imageOffset, paint_offset). do {
      intData \<leftarrow> row (i32 (imageOffset + r_minTouched rdr)) paint_offset intData;
      Some (intData, i32 (imageOffset + r_imageScanlineStride rdr), i32 (paint_offset + s))
    }) (r_data rdr, r_currImageOffset rdr, 0) =
    Some (paint_rows f (span_start rdr) (r_imageScanlineStride rdr) (span_width rdr) (nat h) (r_data rdr), ?aux h)"
    using h
  proof (rule for_loop_rows)
    fix j and d :: "jint list" assume j: "0 \<le> j" "j < h" and d: "length d = length (r_data rdr)"
    have "j * s \<le> h * s" "0 \<le> j * s" using j ok(3) by (simp_all add: mult_right_mono)
    moreover have "int (length (r_paint rdr)) < 2147483648" using paint(2) by simp
    ultimately have js: "i32 (j * s) = j * s" using paint(1) by (intro i32_small) linarith+
    from rows_ok_row [OF ok(1) j ok(2)] row [OF j d, of "span_start rdr + j * r_imageScanlineStride rdr"] d js
    show "(\<lambda>(intData, imageOffset, paint_offset). do {
        intData \<leftarrow> row (i32 (imageOffset + r_minTouched rdr)) paint_offset intData;
        Some (intData, i32 (imageOffset + r_imageScanlineStride rdr), i32 (paint_offset + s))
      }) (d, ?aux j) =
      Some (paint_span (f j) (span_start rdr + j * r_imageScanlineStride rdr) (span_width rdr) d, ?aux (j + 1))"
      by (simp add: distrib_right add.assoc)
  qed
  then show ?thesis by blast
qed

section \<open>Source-over\<close>

text \<open>The source weight of column \<open>k\<close>: the alpha of the colour times the coverage of the row, reduced at the edges.\<close>

definition line_weight :: "renderer \<Rightarrow> int \<Rightarrow> int \<Rightarrow> int" where
  "line_weight rdr frac k =
     (let alpha = r_calpha rdr * frac div 65536;
          edge = (\<lambda>f. if alpha = 255 then f div 256 else f * alpha div 65536)
      in edge_px (r_el_lfrac rdr \<noteq> 0) (r_el_rfrac rdr \<noteq> 0) (span_width rdr)
           (edge (r_el_lfrac rdr)) alpha (edge (r_el_rfrac rdr)) k)"

definition fracs_ok :: "renderer \<Rightarrow> int \<Rightarrow> bool" where
  "fracs_ok rdr frac \<longleftrightarrow> 0 \<le> frac \<and> frac \<le> 65536 \<and> 0 \<le> r_el_lfrac rdr \<and> r_el_lfrac rdr < 65536 \<and>
     0 \<le> r_el_rfrac rdr \<and> r_el_rfrac rdr < 65536"

definition mean_px :: "colour \<Rightarrow> int \<Rightarrow> jint \<Rightarrow> jint" where
  "mean_px = (\<lambda>(a, r, g, b) v p.
     argb (wmean v 255 (255 - v) (pxA p)) (wmean v r (255 - v) (pxR p)) (wmean v g (255 - v) (pxG p))
       (wmean v b (255 - v) (pxB p)))"

lemma prod_shift:
  assumes "0 \<le> x" "x \<le> 65536" "is_byte y"
  shows "drop_bit 16 (i32 (y * x)) = y * x div 65536" "drop_bit 16 (i32 (x * y)) = x * y div 65536"
    and "is_byte (y * x div 65536)" "is_byte (x * y div 65536)"
proof -
  have b: "0 \<le> y * x" "y * x \<le> y * 65536" using assms by (simp_all add: mult_left_mono)
  then have "i32 (y * x) = y * x" using assms by (intro i32_small) linarith+
  then show s: "drop_bit 16 (i32 (y * x)) = y * x div 65536" "drop_bit 16 (i32 (x * y)) = x * y div 65536"
    by (simp_all add: drop_bit_eq_div mult.commute)
  have "y * x div 65536 \<le> y * 65536 div 65536" using b(2) by (rule zdiv_mono1) simp
  moreover have "0 \<le> y * x div 65536" using b(1) by simp
  ultimately show "is_byte (y * x div 65536)" "is_byte (x * y div 65536)" using assms by (simp_all add: mult.commute)
qed

lemma byte_shift:
  assumes "0 \<le> x" "x < 65536"
  shows "drop_bit 8 x = x div 256" "is_byte (x div 256)"
proof -
  have "x div 256 \<le> 65535 div 256" using assms by (intro zdiv_mono1) auto
  then show "is_byte (x div 256)" using assms by (simp add: pos_imp_zdiv_nonneg_iff)
qed (simp add: drop_bit_eq_div)

text \<open>Every weight is a byte, and the pixels are weighted means; the stored solid pixel is the mean of weight 255.\<close>

lemma emitLineSourceOver8888_pre_rows:
  assumes ok: "line_ok rdr h (r_el_lfrac rdr \<noteq> 0) (r_el_rfrac rdr \<noteq> 0)" and f: "fracs_ok rdr frac"
    and c: "byte_colour (colour_of rdr)"
  shows "emitLineSourceOver8888_pre rdr h frac = Some (rdr\<lparr>r_data :=
      paint_rows (\<lambda>j k. mean_px (colour_of rdr) (line_weight rdr frac k)) (span_start rdr)
        (r_imageScanlineStride rdr) (span_width rdr) (nat h) (r_data rdr)\<rparr>)"
proof -
  define al where "al = r_calpha rdr * frac div 65536"
  define edge where "edge = (\<lambda>f. if al = 255 then f div 256 else f * al div 65536)"
  define px where "px = (\<lambda>k. mean_px (colour_of rdr) (line_weight rdr frac k))"
  let ?l = "r_el_lfrac rdr" and ?r = "r_el_rfrac rdr" and ?n = "span_width rdr"
  let ?b = "\<lambda>v p. blendSrcOver8888_pre p v (r_cred rdr) (r_cgreen rdr) (r_cblue rdr)"
  have cb: "is_byte (r_calpha rdr)" "is_byte (r_cred rdr)" "is_byte (r_cgreen rdr)" "is_byte (r_cblue rdr)"
    using c by (simp_all add: byte_colour_def colour_of_def)
  have fr: "0 \<le> frac" "frac \<le> 65536" "0 \<le> ?l" "?l < 65536" "0 \<le> ?r" "?r < 65536" "?l \<le> 65536" "?r \<le> 65536"
    using f by (simp_all add: fracs_ok_def)
  note alpha = prod_shift(1,3) [OF fr(1,2) cb(1), folded al_def]
  have edge: "is_byte (edge f)" "(if al = 255 then drop_bit 8 f else drop_bit 16 (i32 (f * al))) = edge f"
    if "0 \<le> f" "f < 65536" for f
    using byte_shift [OF that] prod_shift(2,4) [OF that(1) order_less_imp_le [OF that(2)] alpha(2)]
    by (simp_all only: edge_def split: if_split) simp_all
  have mean: "?b v p = mean_px (colour_of rdr) v p" if "is_byte v" for v p
    using blendSrcOver8888_pre_channels [OF that cb(2-4), of p] by (simp add: mean_px_def colour_of_def)
  have solid: "argb 255 (r_cred rdr) (r_cgreen rdr) (r_cblue rdr) = mean_px (colour_of rdr) 255 p" for p
    by (simp add: mean_px_def colour_of_def)
  have ro: "rows_ok rdr h" "0 < ?n" "r_imagePixelStride rdr = 1" using ok by (simp_all add: line_ok_def rows_ok_def)
  define w where "w = ?n - of_bool (?l \<noteq> 0) - of_bool (?r \<noteq> 0)"
  have w: "i32 (r_alphaWidth rdr - (if ?l \<noteq> 0 then 1 else 0) - (if ?r \<noteq> 0 then 1 else 0)) = w" "0 \<le> w"
    "?n = w + of_bool (?l \<noteq> 0) + of_bool (?r \<noteq> 0)"
    using line_ok_width [OF ok] by (simp_all add: w_def)
  have px: "edge_px (?l \<noteq> 0) (?r \<noteq> 0) ?n (?b (edge ?l)) (mean_px (colour_of rdr) al) (?b (edge ?r)) k p = px k p" for k p
    using edge(1) [OF fr(3,4)] edge(1) [OF fr(5,6)]
    by (simp add: px_def line_weight_def edge_px_def mean Let_def edge_def al_def)
  have row: "flat_row 1 (?l \<noteq> 0) (?r \<noteq> 0) w (?b (edge ?l)) (mean_px (colour_of rdr) al) (?b (edge ?r)) a d =
      Some (paint_span px a ?n d)" if "0 \<le> a" "a + ?n \<le> int (length d)" for a d
    unfolding flat_row_span [OF w(2) that w(3)] by (simp add: paint_span_def px)
  have mid: "(if al = 255 then (\<lambda>p. argb 255 (r_cred rdr) (r_cgreen rdr) (r_cblue rdr)) else ?b al) =
      mean_px (colour_of rdr) al"
    using mean [OF alpha(2)] solid by auto
  show ?thesis
    using emit_flat_rows [OF ro(1,2) row] mid edge(2) [OF fr(3,4)] edge(2) [OF fr(5,6)]
    by (cases "al = 255") (auto simp: emitLineSourceOver8888_pre_def Let_def alpha(1) w(1) ro(3) MAX_ALPHA_def px_def)
qed

text \<open>
  With a paint the edges are scaled by the coverage of the row first; an edge that vanishes is not
  drawn as an edge. \<open>line_fade\<close> is the coverage of column \<open>k\<close> in 256ths.
\<close>

definition scaled_frac :: "int \<Rightarrow> int \<Rightarrow> int" where
  "scaled_frac f frac = f * frac div 65536"

definition line_fade :: "renderer \<Rightarrow> int \<Rightarrow> int \<Rightarrow> int" where
  "line_fade rdr frac k =
     (let l = scaled_frac (r_el_lfrac rdr) frac; r = scaled_frac (r_el_rfrac rdr) frac
      in edge_px (l \<noteq> 0) (r \<noteq> 0) (span_width rdr) (l div 256) (frac div 256) (r div 256) k)"

lemma scaled_frac:
  assumes "0 \<le> f" "f < 65536" "0 \<le> frac" "frac \<le> 65536"
  shows "i32 (drop_bit 16 (i64 (f * frac))) = scaled_frac f frac" "0 \<le> scaled_frac f frac" "scaled_frac f frac < 65536"
proof -
  have b: "0 \<le> f * frac" "f * frac \<le> f * 65536" using assms by (simp_all add: mult_left_mono)
  then have "i64 (f * frac) = f * frac" using assms by (intro i64_small) linarith+
  moreover have "f * frac div 65536 \<le> f * 65536 div 65536" using b(2) by (rule zdiv_mono1) simp
  then have s: "0 \<le> scaled_frac f frac" "scaled_frac f frac \<le> f" using b(1) by (simp_all add: scaled_frac_def)
  moreover have "i32 (scaled_frac f frac) = scaled_frac f frac" using s assms(2) by (intro i32_small) linarith+
  ultimately show "i32 (drop_bit 16 (i64 (f * frac))) = scaled_frac f frac"
    by (simp add: scaled_frac_def drop_bit_eq_div)
  show "0 \<le> scaled_frac f frac" "scaled_frac f frac < 65536" using s assms by linarith+
qed

lemma pre_pre_ref:
  assumes "0 \<le> f" "f \<le> 256"
  shows "blendSrcOver8888_pre_pre p f (pxA c) (pxR c) (pxG c) (pxB c) = pt_over_ref c (f - 1) p"
  using blendSrcOver8888_pre_pre_channels [OF assms px_is_byte [of c], of p] by (simp add: pt_over_ref_def Let_def)

lemma full_paint_ref:
  assumes "premul c" "is_jint p"
  shows "(if pxA c = 0 then p else if pxA c = 255 then c
     else blendSrcOver8888_pre_pre_fullFrac p (pxA c) (pxR c) (pxG c) (pxB c)) = pt_over_ref c 255 p"
proof -
  have "(256 :: int) * pxA c div 256 = pxA c" by simp
  then show ?thesis
    using pt_src_over_px_ref [OF assms(1) _ assms(2), of 255] px_is_byte [of c]
    by (auto simp: pt_src_over_px_def Let_def blendSrcOver8888_pre_pre_fullFrac_eq split: if_splits)
qed

definition paint_rows_ok :: "renderer \<Rightarrow> int \<Rightarrow> bool" where
  "paint_rows_ok rdr h \<longleftrightarrow> h * span_width rdr \<le> int (length (r_paint rdr)) \<and> int (length (r_paint rdr)) < 2 ^ 31"

text \<open>
  The pixel function of the loop body for full coverage only equals the formula on 32-bit pixels, so
  the equation is between painted buffers of such pixels.
\<close>

definition mid_px :: "int \<Rightarrow> jint \<Rightarrow> jint \<Rightarrow> jint" where
  "mid_px frac c p =
     (if frac = 65536 then
        (if pxA c = 0 then p else if pxA c = 255 then c
         else blendSrcOver8888_pre_pre_fullFrac p (pxA c) (pxR c) (pxG c) (pxB c))
      else pt_over_ref c (frac div 256 - 1) p)"

lemma mid_px_ref:
  assumes "premul c" "is_jint p" "frac \<le> 65536"
  shows "mid_px frac c p = pt_over_ref c (frac div 256 - 1) p"
  using full_paint_ref [OF assms(1,2)] by (simp add: mid_px_def)

lemma emitLinePTSourceOver8888_pre_rows:
  assumes ok: "line_ok rdr h (scaled_frac (r_el_lfrac rdr) frac \<noteq> 0) (scaled_frac (r_el_rfrac rdr) frac \<noteq> 0)"
    and f: "fracs_ok rdr frac" and pt: "paint_rows_ok rdr h"
  shows "emitLinePTSourceOver8888_pre rdr h frac = Some (rdr\<lparr>r_data :=
      paint_rows (\<lambda>j k. let c = r_paint rdr ! nat (j * span_width rdr + k)
          in edge_px (scaled_frac (r_el_lfrac rdr) frac \<noteq> 0) (scaled_frac (r_el_rfrac rdr) frac \<noteq> 0) (span_width rdr)
               (pt_over_ref c (line_fade rdr frac k - 1)) (mid_px frac c) (pt_over_ref c (line_fade rdr frac k - 1)) k)
        (span_start rdr) (r_imageScanlineStride rdr) (span_width rdr) (nat h) (r_data rdr)\<rparr>)"
proof -
  define l r where "l = scaled_frac (r_el_lfrac rdr) frac" and "r = scaled_frac (r_el_rfrac rdr) frac"
  let ?n = "span_width rdr"
  let ?b = "\<lambda>f c p. blendSrcOver8888_pre_pre p f (pxA c) (pxR c) (pxG c) (pxB c)"
  let ?mid = "\<lambda>cval intData a. if frac = 65536 then
      (if pxA cval = 0 then Some intData else if pxA cval = 255 then wr intData a cval
       else upd intData a (\<lambda>p. blendSrcOver8888_pre_pre_fullFrac p (pxA cval) (pxR cval) (pxG cval) (pxB cval)))
     else upd intData a (?b (frac div 256) cval)"
  have fr: "0 \<le> frac" "frac \<le> 65536" and lr: "0 \<le> l" "l < 65536" "0 \<le> r" "r < 65536"
    "i32 (drop_bit 16 (i64 (r_el_lfrac rdr * frac))) = l" "i32 (drop_bit 16 (i64 (r_el_rfrac rdr * frac))) = r"
    using f scaled_frac [of "r_el_lfrac rdr" frac] scaled_frac [of "r_el_rfrac rdr" frac]
    by (simp_all add: fracs_ok_def l_def r_def)
  have ro: "rows_ok rdr h" "0 < ?n" "r_imagePixelStride rdr = 1" "r_alphaWidth rdr = ?n"
    using ok by (simp_all add: line_ok_def rows_ok_def)
  note wd = line_ok_width [OF ok, folded l_def r_def]
  have fb: "0 \<le> frac div 256" "frac div 256 \<le> 256" using fr zdiv_mono1 [OF fr(2), of 256] by (simp_all add: pos_imp_zdiv_nonneg_iff)
  have edge: "?b (x div 256) c = pt_over_ref c (x div 256 - 1)" if "0 \<le> x" "x < 65536" for x c
    using byte_shift(2) [OF that] by (intro ext pre_pre_ref) linarith+
  have mid: "?mid c d i = Some (d[nat i := mid_px frac c (d ! nat i)])" if "0 \<le> i" "i < int (length d)" for c d i
    using that pre_pre_ref [OF fb] by (auto simp: pixel_access mid_px_def)
  have row: "paint_row 1 (l \<noteq> 0) (r \<noteq> 0) (?n - of_bool (l \<noteq> 0) - of_bool (r \<noteq> 0)) (?b (l div 256)) ?mid (?b (r div 256))
      (r_paint rdr) a (j * ?n) d =
    Some (paint_span (\<lambda>k. let c = r_paint rdr ! nat (j * ?n + k) in edge_px (l \<noteq> 0) (r \<noteq> 0) ?n
        (pt_over_ref c (line_fade rdr frac k - 1)) (mid_px frac c) (pt_over_ref c (line_fade rdr frac k - 1)) k) a ?n d)"
    if j: "0 \<le> j" "j < h" and d: "length d = length (r_data rdr)" and a: "0 \<le> a" "a + ?n \<le> int (length d)" for j a d
  proof -
    have "j * ?n + ?n \<le> h * ?n" using mult_right_mono [of "j + 1" h ?n] j ro(2) by (simp add: distrib_right)
    then have q: "0 \<le> j * ?n" "j * ?n + ?n \<le> int (length (r_paint rdr))" "int (length (r_paint rdr)) < 2 ^ 31"
      using pt j ro(2) by (simp_all add: paint_rows_ok_def)
    have "paint_row 1 (l \<noteq> 0) (r \<noteq> 0) (?n - of_bool (l \<noteq> 0) - of_bool (r \<noteq> 0)) (?b (l div 256)) ?mid (?b (r div 256))
        (r_paint rdr) a (j * ?n) d =
      Some (paint_span (\<lambda>k. edge_px (l \<noteq> 0) (r \<noteq> 0) ?n (?b (l div 256) (r_paint rdr ! nat (j * ?n + k)))
        (mid_px frac (r_paint rdr ! nat (j * ?n + k))) (?b (r div 256) (r_paint rdr ! nat (j * ?n + k))) k) a ?n d)"
      by (rule paint_row_span [OF wd(2) a _ q]) (use mid in simp_all)
    then show ?thesis
      by (auto simp: edge [OF lr(1,2)] edge [OF lr(3,4)] edge_px_def line_fade_def Let_def l_def [symmetric] r_def [symmetric]
          intro!: paint_span_cong)
  qed
  have sh: "drop_bit 8 l = l div 256" "drop_bit 8 r = r div 256" "drop_bit 8 frac = frac div 256"
    by (simp_all add: drop_bit_eq_div)
  have px: "0 \<le> ?n" "h * ?n \<le> int (length (r_paint rdr))" "int (length (r_paint rdr)) < 2 ^ 31"
    using pt by (simp_all add: paint_rows_ok_def)
  show ?thesis
    unfolding emitLinePTSourceOver8888_pre_def Let_def lr(5,6) wd(1) [unfolded ro(4)] ro(3,4) MAX_ALPHA_def
      l_def [symmetric] r_def [symmetric] sh mult_1_right
    by (rule exE [OF emit_paint_rows [where row = "paint_row 1 (l \<noteq> 0) (r \<noteq> 0)
        (?n - of_bool (l \<noteq> 0) - of_bool (r \<noteq> 0)) (?b (l div 256)) ?mid (?b (r div 256)) (r_paint rdr)",
        OF ro(1,2) px]], erule (4) row [unfolded Let_def]) (simp only: Option.bind.simps prod.case)
qed

section \<open>Clearing\<close>

text \<open>The block operations of the C library paint spans.\<close>

lemma memset0_span:
  assumes "0 \<le> n" "0 \<le> p" "p + n \<le> int (length d)"
  shows "memset0 d p (4 * n) = Some (paint_span (\<lambda>k x. 0) p n d)"
proof -
  have "take (nat p) d @ replicate (nat n) 0 @ drop (nat (p + n)) d = paint_span (\<lambda>k x. 0) p n d"
    using assms by (intro nth_equalityI) (auto simp: nth_append nth_paint_span nat_add_distrib)
  then show ?thesis using assms by (auto simp: memset0_def Let_def)
qed

lemma memcpy32_span:
  assumes "0 \<le> n" "0 \<le> p" "p + n \<le> int (length d)" "0 \<le> q" "q + n \<le> p"
    and row: "\<And>k. 0 \<le> k \<Longrightarrow> k < n \<Longrightarrow> d ! nat (q + k) = v"
  shows "memcpy32 d p q (4 * n) = Some (paint_span (\<lambda>k x. v) p n d)"
proof -
  have "take (nat p) d @ take (nat n) (drop (nat q) d) @ drop (nat (p + n)) d = paint_span (\<lambda>k x. v) p n d"
  proof (rule nth_equalityI)
    fix i assume "i < length (take (nat p) d @ take (nat n) (drop (nat q) d) @ drop (nat (p + n)) d)"
    then have i: "i < length d" using assms by simp
    have "d ! (nat q + (i - nat p)) = v" if "p \<le> int i" "int i < p + n"
    proof -
      have "nat q + (i - nat p) = nat (q + (int i - p))" using that assms by linarith
      then show ?thesis using row [of "int i - p"] that by simp
    qed
    then show "(take (nat p) d @ take (nat n) (drop (nat q) d) @ drop (nat (p + n)) d) ! i = paint_span (\<lambda>k x. v) p n d ! i"
      using i assms by (auto simp: nth_append nth_paint_span nat_add_distrib)
  qed (use assms in simp)
  then show ?thesis using assms by (auto simp: memcpy32_def Let_def)
qed

lemma fill_loop:
  assumes "0 \<le> n" "0 \<le> p" "p + n \<le> int (length d)"
  shows "ptr_loop p (p + n) 1 (\<lambda>a d. wr d a v) d = Some (paint_span (\<lambda>k x. v) p n d)"
proof -
  have "\<exists>t. ptr_loop p (p + n) 1 (\<lambda>a d. wr d a v) d = Some t \<and> t = paint_span (\<lambda>k x. v) p (p + n - p) d"
  proof (rule ptr_loop_inv [where P = "\<lambda>a t. t = paint_span (\<lambda>k x. v) p (a - p) d"])
    fix a t assume "p \<le> a" "a < p + n" "t = paint_span (\<lambda>k x. v) p (a - p) d"
    then show "\<exists>t'. wr t a v = Some t' \<and> t' = paint_span (\<lambda>k x. v) p (a + 1 - p) d"
      using assms paint_span_step [OF assms(2), of "a - p" "\<lambda>k x. v" d] by (auto simp: algebra_simps)
  qed (use assms in auto)
  then show ?thesis by simp
qed

lemma contiguous_rows:
  assumes "0 \<le> n"
  shows "paint_rows (\<lambda>j k x. v) p n n h d = paint_span (\<lambda>k x. v) p (int h * n) d"
proof (induction h)
  case (Suc h)
  define q where "q = int h * n"
  have "0 \<le> q" "int (Suc h) * n = q + n" using assms by (simp_all add: q_def algebra_simps)
  then show ?case
    using assms unfolding paint_rows.simps Suc.IH q_def [symmetric]
    by (intro nth_equalityI) (auto simp: nth_paint_span)
qed simp

definition clear_ok :: "renderer \<Rightarrow> int \<Rightarrow> int \<Rightarrow> int \<Rightarrow> int \<Rightarrow> bool" where
  "clear_ok rdr x y w h \<longleftrightarrow> r_imagePixelStride rdr = 1 \<and> 0 \<le> r_imageOffset rdr \<and> 0 \<le> x \<and> 0 \<le> y \<and> 0 < w \<and> 0 < h \<and>
     x + w \<le> r_width rdr \<and> r_width rdr \<le> r_imageScanlineStride rdr \<and>
     r_imageOffset rdr + (y + h - 1) * r_imageScanlineStride rdr + x + w \<le> int (length (r_data rdr)) \<and>
     4 * int (length (r_data rdr)) < 2 ^ 31"

definition clear_value :: "renderer \<Rightarrow> jint" where
  "clear_value rdr = argb (r_calpha rdr) (r_cred rdr) (r_cgreen rdr) (r_cblue rdr)"

definition clear_start :: "renderer \<Rightarrow> int \<Rightarrow> int \<Rightarrow> int" where
  "clear_start rdr x y = r_imageOffset rdr + y * r_imageScanlineStride rdr + x"

lemma clear_ok_facts:
  assumes "clear_ok rdr x y w h"
  defines "st \<equiv> r_imageScanlineStride rdr" and "p \<equiv> clear_start rdr x y"
  shows "0 < st" "w \<le> st" "0 \<le> p" "0 < w" "0 < h" "i32 (y * st) = y * st" "i32 x = x" "i32 (4 * w) = 4 * w"
    and "\<And>j. 0 \<le> j \<Longrightarrow> j < h \<Longrightarrow> 0 \<le> p + j * st \<and> p + j * st + w \<le> int (length (r_data rdr))"
    and "i32 (h - 1) = h - 1"
proof -
  define Y where "Y = y * st"
  have st: "0 < st" "w \<le> st" "0 < w" "0 < h" "0 \<le> x" "0 \<le> y" "0 \<le> r_imageOffset rdr"
    using assms(1) by (auto simp: clear_ok_def st_def)
  have Y: "0 \<le> Y" using st by (simp add: Y_def)
  have p: "p = r_imageOffset rdr + Y + x" by (simp add: p_def clear_start_def Y_def st_def)
  have "(y + h - 1) * st = Y + (h - 1) * st" by (simp add: Y_def algebra_simps)
  then have top: "p + (h - 1) * st + w \<le> int (length (r_data rdr))" and len: "4 * int (length (r_data rdr)) < 2147483648"
    using assms(1) by (simp_all add: clear_ok_def st_def p algebra_simps)
  have hs: "h - 1 \<le> (h - 1) * st" "0 \<le> (h - 1) * st"
    using st mult_left_mono [of 1 st "h - 1"] by auto
  show "0 < st" "w \<le> st" "0 < w" "0 < h" using st by auto
  show "0 \<le> p" using p Y st by linarith
  have "Y < 2147483648" "x < 2147483648" "4 * w < 2147483648" "h - 1 < 2147483648" using top len hs p Y st by linarith+
  then show "i32 (y * st) = y * st" "i32 x = x" "i32 (4 * w) = 4 * w" "i32 (h - 1) = h - 1"
    using Y st by (auto simp: Y_def [symmetric] intro!: i32_small)
  fix j assume j: "0 \<le> j" "j < h"
  have "j * st \<le> (h - 1) * st" "0 \<le> j * st" using j st by (simp_all add: mult_right_mono)
  then show "0 \<le> p + j * st \<and> p + j * st + w \<le> int (length (r_data rdr))" using top \<open>0 \<le> p\<close> by linarith
qed

lemma clearRect8888_any_rows:
  assumes ok: "clear_ok rdr x y w h"
    and full: "x = 0 \<and> w = r_width rdr \<and> clear_value rdr = 0 \<longrightarrow> r_imageScanlineStride rdr = w"
  shows "clearRect8888_any rdr x y w h = Some (rdr\<lparr>r_data :=
      paint_rows (\<lambda>j k p. clear_value rdr) (clear_start rdr x y) (r_imageScanlineStride rdr) w (nat h) (r_data rdr)\<rparr>)"
proof -
  define p st v where "p = clear_start rdr x y" and "st = r_imageScanlineStride rdr" and "v = clear_value rdr"
  note cf = clear_ok_facts [OF ok, folded st_def p_def]
  have row: "p + j * st + w \<le> int (length (r_data rdr))" "0 \<le> p + j * st" if "0 \<le> j" "j < h" for j
    using cf(9) [OF that] by simp_all
  have st1: "r_imagePixelStride rdr = 1" and start: "r_imageOffset rdr + y * st + x = p"
    using ok by (simp_all add: clear_ok_def p_def clear_start_def st_def)
  have partial: "for_loop h (\<lambda>j (d, p). do { d \<leftarrow> memset0 d p (4 * w); Some (d, p + st) }) (r_data rdr, p) =
      Some (paint_rows (\<lambda>j k p. 0) p st w (nat h) (r_data rdr), p + h * st)"
    using cf(4,5) row
    by (intro for_loop_rows [where aux = "\<lambda>j. p + j * st"]) (auto simp: memset0_span distrib_right)
  have copies: "\<exists>t. for_loop (h - 1) (\<lambda>j (d, q). do { d \<leftarrow> memcpy32 d q p (4 * w); Some (d, q + st) })
        (paint_span (\<lambda>k x. v) p w (r_data rdr), p + st) = Some t \<and>
      t = (paint_rows (\<lambda>j k p. v) p st w (nat (h - 1 + 1)) (r_data rdr), p + (h - 1 + 1) * st)"
  proof (rule for_loop_inv [where P = "\<lambda>j t. t = (paint_rows (\<lambda>j k p. v) p st w (nat (j + 1)) (r_data rdr), p + (j + 1) * st)"])
    fix j t assume j: "0 \<le> j" "j < h - 1"
      and t: "t = (paint_rows (\<lambda>j k p. v) p st w (nat (j + 1)) (r_data rdr), p + (j + 1) * st)"
    let ?d = "paint_rows (\<lambda>j k p. v) p st w (nat (j + 1)) (r_data rdr)"
    have "?d ! nat (p + k) = v" if "0 \<le> k" "k < w" for k
      using that cf row [of 0] j by (subst nth_paint_rows) (auto simp: in_rows_def)
    moreover have "1 * st \<le> (j + 1) * st" using j cf(1) by (intro mult_right_mono) auto
    then have "w \<le> (j + 1) * st" using cf(2) by (simp only: mult_1)
    ultimately have "memcpy32 ?d (p + (j + 1) * st) p (4 * w) = Some (paint_span (\<lambda>k x. v) (p + (j + 1) * st) w ?d)"
      using row [of "j + 1"] cf(3,4) j by (intro memcpy32_span) simp_all
    moreover have "nat (j + 1 + 1) = Suc (nat (j + 1))" "int (nat (j + 1)) = j + 1" using j by simp_all
    ultimately show "\<exists>t'. (\<lambda>(d, q). do { d \<leftarrow> memcpy32 d q p (4 * w); Some (d, q + st) }) t = Some t' \<and>
        t' = (paint_rows (\<lambda>j k p. v) p st w (nat (j + 1 + 1)) (r_data rdr), p + (j + 1 + 1) * st)"
      by (simp only: t paint_rows.simps) (simp add: distrib_right)
  qed (use cf in auto)
  have first: "ptr_loop p (p + w) 1 (\<lambda>a d. wr d a v) (r_data rdr) = Some (paint_span (\<lambda>k x. v) p w (r_data rdr))"
    using row [of 0] cf by (intro fill_loop) simp_all
  have whole: "memset0 (r_data rdr) p (i32 (4 * w * h)) = Some (paint_rows (\<lambda>j k x. 0) p st w (nat h) (r_data rdr))"
    if "st = w"
  proof -
    have e: "p + w * h \<le> int (length (r_data rdr))" using row [of "h - 1"] cf(5) that by (simp add: algebra_simps)
    moreover have "0 \<le> w * h" using cf by simp
    moreover have "4 * int (length (r_data rdr)) < 2147483648" using ok by (simp add: clear_ok_def)
    ultimately have "i32 (4 * (w * h)) = 4 * (w * h)" using cf(3) by (intro i32_small) linarith+
    then show ?thesis
      using e cf memset0_span [of "w * h" p "r_data rdr"] contiguous_rows [of w 0 p "nat h" "r_data rdr"] that
      by (simp add: mult.assoc mult.commute [of h])
  qed
  show ?thesis
    unfolding clearRect8888_any_def Let_def clear_value_def [symmetric] v_def [symmetric] st_def [symmetric] st1
      mult_1_right cf(6-8,10) start p_def [symmetric]
    using partial whole full [folded v_def st_def] first copies by auto
qed

section \<open>The routines meet their specification\<close>

lemma line_weight_byte:
  assumes "fracs_ok rdr frac" "byte_colour (colour_of rdr)"
  shows "is_byte (line_weight rdr frac k)"
proof -
  define al where "al = r_calpha rdr * frac div 65536"
  have f: "0 \<le> frac" "frac \<le> 65536" "0 \<le> r_el_lfrac rdr" "r_el_lfrac rdr < 65536" "0 \<le> r_el_rfrac rdr" "r_el_rfrac rdr < 65536"
    and c: "is_byte (r_calpha rdr)" using assms by (simp_all add: fracs_ok_def byte_colour_def colour_of_def)
  note al = prod_shift(3) [OF f(1,2) c, folded al_def]
  note e = byte_shift(2) [OF f(3,4)] byte_shift(2) [OF f(5,6)] prod_shift(4) [OF f(3) order_less_imp_le [OF f(4)] al]
    prod_shift(4) [OF f(5) order_less_imp_le [OF f(6)] al]
  show ?thesis
    unfolding line_weight_def Let_def al_def [symmetric] edge_px_def using al e by (auto simp del: div_mult_self1)
qed

lemma mean_px_premul: "byte_colour c \<Longrightarrow> is_byte v \<Longrightarrow> premul p \<Longrightarrow> premul (mean_px c v p)"
  using blendSrcOver8888_pre_premul [of p v "fst (snd c)" "fst (snd (snd c))" "snd (snd (snd c))"]
  by (cases c) (simp add: mean_px_def byte_colour_def blendSrcOver8888_pre_channels)

text \<open>A renderer set up for a rectangle of two rows of a 4 by 2 surface, with a fractional left edge.\<close>

definition sample_line :: renderer where
  "sample_line = cleared_renderer\<lparr>r_data := [0, -16776961, -2139062144, -1, 0, 0, 0, 0], r_width := 4, r_height := 2,
     r_imageScanlineStride := 4, r_imagePixelStride := 1, r_calpha := 128, r_cred := 100, r_cgreen := 50,
     r_cblue := 7, r_minTouched := 1, r_maxTouched := 2, r_alphaWidth := 2, r_el_lfrac := 32768,
     r_paint := [-2139062144, 1077952576, 0, 0]\<rparr>"

lemma sample_line_premul: "premul_buf (r_data sample_line)" "premul_buf (r_paint sample_line)"
  by (simp_all add: sample_line_def premul_eval)

lemma sample_line_width: "span_width sample_line = 2"
  by (simp add: sample_line_def span_width_def)

lemma sample_line_ok: "line_ok sample_line 2 (r_el_lfrac sample_line \<noteq> 0) (r_el_rfrac sample_line \<noteq> 0)"
    "line_ok sample_line 2 (scaled_frac (r_el_lfrac sample_line) 65536 \<noteq> 0) (scaled_frac (r_el_rfrac sample_line) 65536 \<noteq> 0)"
    "fracs_ok sample_line 65536" "rows_apart sample_line" "paint_rows_ok sample_line 2" "byte_colour (colour_of sample_line)"
  by (simp_all add: line_ok_def sample_line_width paint_rows_ok_def rows_apart_def)
    (simp_all add: sample_line_def cleared_renderer_def Let_def rows_ok_def span_start_def span_width_def is_jint_def
      fracs_ok_def byte_colour_def colour_of_def scaled_frac_def)

lemma emitLineSourceOver8888_pre_drawn:
  assumes "line_ok rdr h (r_el_lfrac rdr \<noteq> 0) (r_el_rfrac rdr \<noteq> 0)" "rows_apart rdr" "fracs_ok rdr frac"
    and "byte_colour (colour_of rdr)" "premul_buf (r_data rdr)"
  shows "\<exists>rdr'. emitLineSourceOver8888_pre rdr h frac = Some rdr' \<and>
    rows_drawn rdr h (\<lambda>j k. mean_px (colour_of rdr) (line_weight rdr frac k)) rdr'"
  using assms
  by (auto simp: emitLineSourceOver8888_pre_rows rows_apart_def
      intro!: rows_drawnI paint_rows_premul mean_px_premul line_weight_byte)

text \<open>
  Filling a rectangle of constant coverage with a flat colour by source-over always returns: each
  pixel becomes the weighted mean of colour and destination, with the row's coverage and the edge's
  fraction in the weight; nothing outside the rectangle changes and the surface stays premultiplied.
\<close>

theorem emitLineSourceOver8888_pre_correct:
  assumes "line_ok rdr h (r_el_lfrac rdr \<noteq> 0) (r_el_rfrac rdr \<noteq> 0)" "rows_apart rdr" "fracs_ok rdr frac"
    and "byte_colour (colour_of rdr)" "premul_buf (r_data rdr)"
  shows "\<exists>rdr'. emitLineSourceOver8888_pre rdr h frac = Some rdr' \<and>
    rows_drawn rdr h (\<lambda>j k. mean_px (colour_of rdr) (line_weight rdr frac k)) rdr'"
  by (rule emitLineSourceOver8888_pre_drawn) (rule assms)+

theorem emitLineSourceOver8888_pre_correct_witness:
  "\<exists>rdr'. emitLineSourceOver8888_pre sample_line 2 65536 = Some rdr' \<and>
    rows_drawn sample_line 2 (\<lambda>j k. mean_px (colour_of sample_line) (line_weight sample_line 65536 k)) rdr'"
  by (rule emitLineSourceOver8888_pre_correct) (rule sample_line_ok sample_line_premul)+

lemma pt_over_ref_premul:
  assumes "premul c" "0 \<le> f" "f \<le> 256" "premul p"
  shows "premul (pt_over_ref c (f - 1) p)"
  using blendSrcOver8888_pre_pre_premul [OF assms(4,2,3), of "pxA c" "pxR c" "pxG c" "pxB c"]
    premul_channels [OF assms(1)] px_is_byte(1) [of c] by (simp add: pre_pre_ref [OF assms(2,3)])

lemma line_fade_bounds:
  assumes "fracs_ok rdr frac"
  shows "0 \<le> line_fade rdr frac k" "line_fade rdr frac k \<le> 256"
proof -
  have f: "0 \<le> frac" "frac \<le> 65536" "0 \<le> r_el_lfrac rdr" "r_el_lfrac rdr < 65536" "0 \<le> r_el_rfrac rdr" "r_el_rfrac rdr < 65536"
    using assms by (simp_all add: fracs_ok_def)
  note e = byte_shift(2) [OF scaled_frac(2,3) [OF f(3,4,1,2)]] byte_shift(2) [OF scaled_frac(2,3) [OF f(5,6,1,2)]]
  have "frac div 256 \<le> 65536 div 256" using f(2) by (rule zdiv_mono1) simp
  moreover have "0 \<le> frac div 256" using f(1) by (simp add: pos_imp_zdiv_nonneg_iff)
  ultimately show "0 \<le> line_fade rdr frac k" "line_fade rdr frac k \<le> 256"
    using e by (auto simp: line_fade_def Let_def edge_px_def)
qed

lemma line_px_ref:
  assumes "fracs_ok rdr frac" "premul c" "is_jint p"
  shows "edge_px (scaled_frac (r_el_lfrac rdr) frac \<noteq> 0) (scaled_frac (r_el_rfrac rdr) frac \<noteq> 0) (span_width rdr)
      (pt_over_ref c (line_fade rdr frac k - 1)) (mid_px frac c) (pt_over_ref c (line_fade rdr frac k - 1)) k p =
    pt_over_ref c (line_fade rdr frac k - 1) p"
  using mid_px_ref [OF assms(2,3), of frac] assms(1)
  by (auto simp: edge_px_def line_fade_def Let_def fracs_ok_def)

lemma line_px_premul:
  assumes "fracs_ok rdr frac" "premul c" "premul p"
  shows "premul (edge_px (scaled_frac (r_el_lfrac rdr) frac \<noteq> 0) (scaled_frac (r_el_rfrac rdr) frac \<noteq> 0) (span_width rdr)
      (pt_over_ref c (line_fade rdr frac k - 1)) (mid_px frac c) (pt_over_ref c (line_fade rdr frac k - 1)) k p)"
  using assms line_px_ref [OF assms(1,2), of p k] pt_over_ref_premul [OF assms(2) line_fade_bounds [OF assms(1)] assms(3)]
  by (simp add: premul_def [of p])

lemma paint_rows_premul_nth:
  assumes "paint_rows_ok rdr h" "premul_buf (r_paint rdr)" "0 \<le> j" "j < h" "0 \<le> k" "k < span_width rdr"
  shows "premul (r_paint rdr ! nat (j * span_width rdr + k))"
proof -
  have "j * span_width rdr + span_width rdr \<le> h * span_width rdr"
    using mult_right_mono [of "j + 1" h "span_width rdr"] assms by (simp add: distrib_right)
  moreover have "0 \<le> j * span_width rdr" using assms by simp
  ultimately show ?thesis using assms by (intro premul_buf_nth) (simp_all add: paint_rows_ok_def nat_less_iff)
qed

lemma emitLinePTSourceOver8888_pre_drawn:
  assumes "line_ok rdr h (scaled_frac (r_el_lfrac rdr) frac \<noteq> 0) (scaled_frac (r_el_rfrac rdr) frac \<noteq> 0)"
    and "rows_apart rdr" "fracs_ok rdr frac" "paint_rows_ok rdr h" "premul_buf (r_paint rdr)" "premul_buf (r_data rdr)"
  shows "\<exists>rdr'. emitLinePTSourceOver8888_pre rdr h frac = Some rdr' \<and>
    rows_drawn rdr h
      (\<lambda>j k. pt_over_ref (r_paint rdr ! nat (j * span_width rdr + k)) (line_fade rdr frac k - 1)) rdr'"
  using assms line_px_ref [OF assms(3)] paint_rows_premul_nth [OF assms(4,5)]
  by (auto simp: emitLinePTSourceOver8888_pre_rows rows_apart_def Let_def split: if_splits
      intro!: rows_drawnI paint_rows_premul line_px_premul)

text \<open>
  Clearing a rectangle inside the surface always returns; whichever of its three paths it takes (one
  block, one block per row, or copies of a first row) it stores the clear colour in exactly the pixels
  of the rectangle. A whole-width clear to zero needs rows without gaps.
\<close>

theorem clearRect8888_any_correct:
  assumes "clear_ok rdr x y w h" "i < length (r_data rdr)"
    and "x = 0 \<and> w = r_width rdr \<and> clear_value rdr = 0 \<longrightarrow> r_imageScanlineStride rdr = w"
  shows "\<exists>rdr'. clearRect8888_any rdr x y w h = Some rdr' \<and> length (r_data rdr') = length (r_data rdr) \<and>
    r_data rdr' ! i =
      (if in_rows (clear_start rdr x y) (r_imageScanlineStride rdr) w h (int i) then clear_value rdr
       else r_data rdr ! i)"
  using clearRect8888_any_rows [OF assms(1,3)] clear_ok_facts(1,2,5) [OF assms(1)]
    nth_paint_rows [of "r_imageScanlineStride rdr" w i "r_data rdr"] assms(2) by simp

theorem clearRect8888_any_correct_witness:
  "\<exists>rdr'. clearRect8888_any sample_line 1 0 2 2 = Some rdr' \<and> length (r_data rdr') = 8 \<and>
    r_data rdr' ! 6 = clear_value sample_line"
proof -
  have ok: "clear_ok sample_line 1 0 2 2" "6 < length (r_data sample_line)"
    "in_rows (clear_start sample_line 1 0) (r_imageScanlineStride sample_line) 2 2 (int 6)" "length (r_data sample_line) = 8"
    by (simp_all add: sample_line_def cleared_renderer_def Let_def clear_ok_def clear_start_def in_rows_def)
  from clearRect8888_any_correct [OF ok(1,2)] ok(3,4) show ?thesis by auto
qed

text \<open>
  The plain source rule mishandles a fractional edge: it adds the unscaled colour to the share the
  destination keeps. Opaque white over opaque white with a half covered left edge, in bounds and at full
  row coverage, leaves the pixel 0x7d7d7d7d instead of opaque white.
\<close>

theorem emitLineSource8888_pre_edge_overflow:
  "\<exists>rdr rdr'. line_ok rdr 1 True False \<and> fracs_ok rdr 65536 \<and> r_el_lfrac rdr = 32768 \<and>
     colour_of rdr = (255, 255, 255, 255) \<and> r_data rdr = [-1] \<and> premul_buf (r_data rdr) \<and>
     emitLineSource8888_pre rdr 1 65536 = Some rdr' \<and> r_data rdr' = [2105376125]"
proof -
  define r where "r = cleared_renderer\<lparr>r_data := [-1], r_imagePixelStride := 1, r_imageScanlineStride := 1,
    r_calpha := 255, r_cred := 255, r_cgreen := 255, r_cblue := 255, r_alphaWidth := 1, r_el_lfrac := 32768\<rparr>"
  have ok: "line_ok r 1 True False" "fracs_ok r 65536"
    by (simp_all add: r_def cleared_renderer_def Let_def line_ok_def rows_ok_def fracs_ok_def span_start_def
        span_width_def is_jint_def)
  have px: "blendSrc8888_pre (-1) 255 127 255 255 255 = 2105376125" by code_simp
  have "flat_row 1 True False 0 left mid right 0 [-1] = Some [left (-1)]" for left mid right
    using flat_row_span [of 0 0 1 "[-1]" True False left mid right]
    by (simp add: paint_span_def edge_px_def)
  then have res: "emitLineSource8888_pre r 1 65536 = Some (r\<lparr>r_data := [2105376125]\<rparr>)"
    using px by (simp add: emitLineSource8888_pre_def Let_def r_def cleared_renderer_def i32_small drop_bit_eq_div)
  show ?thesis
    by (intro exI [of _ r] exI [of _ "r\<lparr>r_data := [2105376125]\<rparr>"] conjI ok res)
      (simp_all add: r_def premul_eval colour_of_def)
qed

end
