(* ===== verification/Pisces_Paint_Correct.thy ===== *)
theory Pisces_Paint_Correct
  imports Pisces_Paint Pisces_Span
begin

text \<open>
  Correctness of the gradient generators: whatever the geometry (degenerate transforms, infinities and
  values that are no numbers included), a generator stays inside its buffers, fills exactly the rows
  asked for, and yields colours of the gradient.
\<close>

section \<open>Bounds of the addressing arithmetic\<close>

lemma pad_bounds:
  assumes "is_jint x" "c \<in> {CYCLE_NONE, CYCLE_REPEAT, CYCLE_REFLECT}"
  shows "0 \<le> pad x c" "pad x c \<le> 65535"
proof -
  have m: "y AND 65535 = y mod 65536" "y AND 131071 = y mod 131072" for y :: int
    using take_bit_eq_mask [of 16 y] take_bit_eq_mask [of 17 y]
    by (simp_all add: take_bit_eq_mod mask_eq_exp_minus_1)
  have "0 \<le> y mod 131072" "y mod 131072 < 131072" "0 \<le> y mod 65536" "y mod 65536 < 65536" for y :: int
    by simp_all
  then show "0 \<le> pad x c" "pad x c \<le> 65535"
    using assms(2) by (auto simp: pad_def Let_def m not_less intro: order_less_imp_le)
qed

lemma gradient_index:
  assumes "is_jint x" "c \<in> {CYCLE_NONE, CYCLE_REPEAT, CYCLE_REFLECT}"
  shows "0 \<le> drop_bit (16 - LG_GRADIENT_MAP_SIZE) (pad x c)" "drop_bit (16 - LG_GRADIENT_MAP_SIZE) (pad x c) \<le> 255"
proof -
  have "pad x c div 256 \<le> 65535 div 256" using pad_bounds(2) [OF assms] by (rule zdiv_mono1) simp
  then show "0 \<le> drop_bit (16 - LG_GRADIENT_MAP_SIZE) (pad x c)" "drop_bit (16 - LG_GRADIENT_MAP_SIZE) (pad x c) \<le> 255"
    using pad_bounds(1) [OF assms] by (simp_all add: drop_bit_eq_div pos_imp_zdiv_nonneg_iff)
qed

section \<open>Filling rows\<close>

text \<open>\<open>filled Q l u old new\<close>: the entries from \<open>l\<close> below \<open>u\<close> satisfy \<open>Q\<close>, the others are unchanged.\<close>

definition filled :: "('a \<Rightarrow> bool) \<Rightarrow> int \<Rightarrow> int \<Rightarrow> 'a list \<Rightarrow> 'a list \<Rightarrow> bool" where
  "filled Q l u old new \<longleftrightarrow> length new = length old \<and>
     (\<forall>i < length old. if l \<le> int i \<and> int i < u then Q (new ! i) else new ! i = old ! i)"

lemma filled_empty [simp]: "u \<le> l \<Longrightarrow> filled Q l u xs xs"
  by (auto simp: filled_def)

lemma filled_extend:
  assumes "filled Q l m xs ys" "filled Q m u ys zs" "l \<le> m" "m \<le> u"
  shows "filled Q l u xs zs"
proof -
  have len: "length ys = length xs" "length zs = length xs" using assms(1,2) by (simp_all add: filled_def)
  have "if l \<le> int i \<and> int i < u then Q (zs ! i) else zs ! i = xs ! i" if i: "i < length xs" for i
  proof -
    have "if l \<le> int i \<and> int i < m then Q (ys ! i) else ys ! i = xs ! i"
      "if m \<le> int i \<and> int i < u then Q (zs ! i) else zs ! i = ys ! i"
      using assms(1,2) i len by (simp_all add: filled_def)
    then show ?thesis using assms(3,4) by (cases "int i < m") (auto split: if_splits)
  qed
  then show ?thesis using len by (simp add: filled_def)
qed

lemma filled_write:
  assumes "filled Q l k xs ys" "0 \<le> k" "l \<le> k" "Q v"
  shows "filled Q l (k + 1) xs (ys[nat k := v])"
proof -
  have "filled Q k (k + 1) ys (ys[nat k := v])"
    using assms(2,4) by (auto simp: filled_def nth_list_update)
  then show ?thesis using filled_extend [OF assms(1)] assms(3) by simp
qed

text \<open>
  The contract of a row generator, and what a loop over rows then does: both outer loops of gradients
  and of textures have this shape.
\<close>

locale row_generator =
  fixes row :: "renderer \<Rightarrow> jint \<Rightarrow> jint \<Rightarrow> jint list \<Rightarrow> jint list option"
    and pre :: "renderer \<Rightarrow> bool"
    and good :: "renderer \<Rightarrow> jint \<Rightarrow> bool"
  assumes row: "pre rdr \<Longrightarrow> 0 \<le> r_alphaWidth rdr \<Longrightarrow> 0 \<le> off \<Longrightarrow> off + r_alphaWidth rdr \<le> int (length paint) \<Longrightarrow>
    int (length paint) < 2 ^ 31 \<Longrightarrow>
    \<exists>paint'. row rdr y off paint = Some paint' \<and> filled (good rdr) off (off + r_alphaWidth rdr) paint paint'"
begin

lemma rows:
  assumes "pre rdr" "0 \<le> r_alphaWidth rdr" "0 \<le> h" "h * r_alphaWidth rdr \<le> int (length paint)" "int (length paint) < 2 ^ 31"
  shows "\<exists>paint' e. for_loop h (\<lambda>j (paint, y, paintOffset). do {
      paint \<leftarrow> row rdr y paintOffset paint;
      Some (paint, i32 (y + 1), i32 (paintOffset + r_alphaWidth rdr))
    }) (paint, y0, 0) = Some (paint', e) \<and> filled (good rdr) 0 (h * r_alphaWidth rdr) paint paint'"
proof -
  let ?w = "r_alphaWidth rdr"
  let ?P = "\<lambda>j t. \<exists>p (y :: int). t = (p, y, i32 (j * ?w)) \<and> filled (good rdr) 0 (j * ?w) paint p"
  have "\<exists>t. for_loop h (\<lambda>j (paint, y, paintOffset). do {
      paint \<leftarrow> row rdr y paintOffset paint;
      Some (paint, i32 (y + 1), i32 (paintOffset + ?w))
    }) (paint, y0, 0) = Some t \<and> ?P h t"
  proof (rule for_loop_inv [where P = ?P])
    fix j t assume j: "0 \<le> j" "j < h" and "?P j t"
    then obtain p y where t: "t = (p, y, i32 (j * ?w))" and p: "filled (good rdr) 0 (j * ?w) paint p" by blast
    have len: "length p = length paint" using p by (simp add: filled_def)
    define q where "q = j * ?w"
    have q: "0 \<le> q" "q + ?w \<le> h * ?w" "(j + 1) * ?w = q + ?w"
      using j assms(2) mult_right_mono [of "j + 1" h ?w] by (simp_all add: q_def distrib_right)
    then have "i32 q = q" using assms by (intro i32_small) auto
    moreover obtain p' where "row rdr y q p = Some p'" "filled (good rdr) q (q + ?w) p p'"
      using row [OF assms(1,2), of q p y] q assms len by auto
    ultimately show "\<exists>t'. (\<lambda>(paint, y, paintOffset). do {
        paint \<leftarrow> row rdr y paintOffset paint;
        Some (paint, i32 (y + 1), i32 (paintOffset + ?w))
      }) t = Some t' \<and> ?P (j + 1) t'"
      using filled_extend [OF p [folded q_def]] q assms(2) by (simp add: t q_def [symmetric])
  qed (use assms in auto)
  then show ?thesis by auto
qed

end

section \<open>Gradients\<close>

definition gradient_ok :: "renderer \<Rightarrow> bool" where
  "gradient_ok rdr \<longleftrightarrow> r_gradient_cycleMethod rdr \<in> {CYCLE_NONE, CYCLE_REPEAT, CYCLE_REFLECT} \<and>
     length (r_gradient_colors rdr) = GRADIENT_MAP_SIZE"

lemma gradient_colour:
  assumes "gradient_ok rdr" "is_jint x"
  shows "\<exists>c \<in> set (r_gradient_colors rdr).
    rd (r_gradient_colors rdr) (drop_bit 8 (pad x (r_gradient_cycleMethod rdr))) = Some c"
  using gradient_index [OF assms(2), of "r_gradient_cycleMethod rdr"] assms(1)
  by (auto simp: gradient_ok_def rd_def intro!: nth_mem)

text \<open>
  The inner loops: any loop that stores a colour of the table at successive indices, whatever its other
  variables \<open>s\<close> do, as long as they stay related to the index by \<open>R\<close>.
\<close>

lemma colour_loop:
  fixes body :: "int \<Rightarrow> jint list \<times> 's \<Rightarrow> (jint list \<times> 's) option"
  assumes "0 \<le> n" "0 \<le> off" "off + n \<le> int (length paint)" "R 0 s0"
    and body: "\<And>i p s. 0 \<le> i \<Longrightarrow> i < n \<Longrightarrow> R i s \<Longrightarrow> 0 \<le> off + i \<Longrightarrow> off + i < int (length p) \<Longrightarrow> length p = length paint \<Longrightarrow>
      \<exists>c s'. c \<in> S \<and> R (i + 1) s' \<and> body i (p, s) = Some (p[nat (off + i) := c], s')"
  shows "\<exists>paint' e. for_loop n body (paint, s0) = Some (paint', e) \<and> filled (\<lambda>c. c \<in> S) off (off + n) paint paint'"
proof -
  let ?P = "\<lambda>i t. \<exists>p (s :: 's). t = (p, s) \<and> R i s \<and> filled (\<lambda>c. c \<in> S) off (off + i) paint p"
  have "\<exists>t. for_loop n body (paint, s0) = Some t \<and> ?P n t"
  proof (rule for_loop_inv [where P = ?P])
    fix i t assume i: "0 \<le> i" "i < n" and "?P i t"
    then obtain p s where t: "t = (p, s)" "R i s" and p: "filled (\<lambda>c. c \<in> S) off (off + i) paint p" by blast
    have "length p = length paint" using p by (simp add: filled_def)
    then obtain c s' where c: "c \<in> S" "R (i + 1) s'" "body i (p, s) = Some (p[nat (off + i) := c], s')"
      using body [OF i t(2), of p] i assms by auto
    then show "\<exists>t'. body i t = Some t' \<and> ?P (i + 1) t'"
      using i assms filled_write [OF p, of c] by (simp add: t add.assoc)
  qed (use assms in auto)
  then show ?thesis by auto
qed

lemma index_step:
  "0 \<le> off \<Longrightarrow> 0 \<le> i \<Longrightarrow> off + i < int n \<Longrightarrow> int n < 2 ^ 31 \<Longrightarrow> i32 (off + i + 1) = off + (i + 1)"
  by (simp add: i32_small)

interpretation linear: row_generator linear_gradient_row gradient_ok "\<lambda>rdr c. c \<in> set (r_gradient_colors rdr)"
proof
  fix rdr :: renderer and off y :: int and paint :: "jint list"
  assume ok: "gradient_ok rdr" and b: "0 \<le> r_alphaWidth rdr" "0 \<le> off" "off + r_alphaWidth rdr \<le> int (length paint)"
    "int (length paint) < 2 ^ 31"
  let ?g = "r_gradient rdr"
  have "\<exists>paint' e. for_loop (r_alphaWidth rdr) (\<lambda>i (paint, frac, pidx). do {
          let ifrac = pad (fp_to_jint frac) (r_gradient_cycleMethod rdr);
          let ifrac = drop_bit (16 - LG_GRADIENT_MAP_SIZE) ifrac;
          c \<leftarrow> rd (r_gradient_colors rdr) ifrac;
          paint \<leftarrow> wr paint pidx c;
          Some (paint, fadd frac (lg_mx ?g), i32 (pidx + 1))
        }) (paint, fadd (fadd (fmul (fint (r_currX rdr)) (lg_mx ?g)) (fmul (fint y) (lg_my ?g))) (lg_b ?g), off) =
      Some (paint', e) \<and> filled (\<lambda>c. c \<in> set (r_gradient_colors rdr)) off (off + r_alphaWidth rdr) paint paint'"
    using b(1-3)
  proof (rule colour_loop [where R = "\<lambda>i (frac, pidx). pidx = off + i"], goal_cases start body)
    case (body i p s)
    from gradient_colour [OF ok is_jint_fp_to_jint [of "fst s"]] obtain c where "c \<in> set (r_gradient_colors rdr)"
      "rd (r_gradient_colors rdr) (drop_bit 8 (pad (fp_to_jint (fst s)) (r_gradient_cycleMethod rdr))) = Some c" by blast
    with body b index_step [of off i "length p"] show ?case by (cases s) (auto simp: Let_def)
  qed simp
  then show "\<exists>paint'. linear_gradient_row rdr y off paint = Some paint' \<and>
      filled (\<lambda>c. c \<in> set (r_gradient_colors rdr)) off (off + r_alphaWidth rdr) paint paint'"
    unfolding linear_gradient_row_def Let_def by fastforce
qed

interpretation radial: row_generator radial_gradient_row gradient_ok "\<lambda>rdr c. c \<in> set (r_gradient_colors rdr)"
proof
  fix rdr :: renderer and off y :: int and paint :: "jint list"
  assume ok: "gradient_ok rdr" and b: "0 \<le> r_alphaWidth rdr" "0 \<le> off" "off + r_alphaWidth rdr \<le> int (length paint)"
    "int (length paint) < 2 ^ 31"
  obtain U V dU dV ddV where row: "radial_row (r_gradient rdr) (r_currX rdr) y = (U, V, dU, dV, ddV)"
    by (cases "radial_row (r_gradient rdr) (r_currX rdr) y")
  have "\<exists>paint' e. for_loop (r_alphaWidth rdr) (\<lambda>i (paint, U, V, dV, pidx). do {
          let V = (if fp_less V (fint 0) then fint 0 else V);
          let ifrac = fp_to_jint (fp_add F64 (fp_convert F64 U) (fp_sqrt F64 (fp_convert F64 V)));
          let U = fadd U dU;
          let V = fadd V dV;
          let dV = fadd dV ddV;
          let ifrac = pad ifrac (r_gradient_cycleMethod rdr);
          let ifrac = drop_bit (16 - LG_GRADIENT_MAP_SIZE) ifrac;
          c \<leftarrow> rd (r_gradient_colors rdr) ifrac;
          paint \<leftarrow> wr paint pidx c;
          Some (paint, U, V, dV, i32 (pidx + 1))
        }) (paint, U, V, dV, off) =
      Some (paint', e) \<and> filled (\<lambda>c. c \<in> set (r_gradient_colors rdr)) off (off + r_alphaWidth rdr) paint paint'"
    using b(1-3)
  proof (rule colour_loop [where R = "\<lambda>i (U, V, dV, pidx). pidx = off + i"], goal_cases start body)
    case (body i p s)
    obtain U V dV where s: "s = (U, V, dV, off + i)" using body(3) by (cases s) auto
    from gradient_colour [OF ok is_jint_fp_to_jint [of "fp_add F64 (fp_convert F64 U)
        (fp_sqrt F64 (fp_convert F64 (if fp_less V (fint 0) then fint 0 else V)))"]]
    show ?case using body b index_step [of off i "length p"] by (auto simp: Let_def s)
  qed simp
  then show "\<exists>paint'. radial_gradient_row rdr y off paint = Some paint' \<and>
      filled (\<lambda>c. c \<in> set (r_gradient_colors rdr)) off (off + r_alphaWidth rdr) paint paint'"
    unfolding radial_gradient_row_def Let_def row prod.case by fastforce
qed

text \<open>A renderer with a gradient, for the examples.\<close>

definition sample_gradient :: renderer where
  "sample_gradient = cleared_renderer\<lparr>
     r_gradient_cycleMethod := CYCLE_REFLECT, r_gradient_colors := replicate 256 0xFF, r_alphaWidth := 2,
     r_paint := [1, 2, 3, 4, 5], r_currX := 0, r_currY := 0\<rparr>"

lemma genLinearGradientPaint_filled:
  assumes "gradient_ok rdr" "0 \<le> r_alphaWidth rdr" "0 \<le> h" "h * r_alphaWidth rdr \<le> int (length (r_paint rdr))"
    "int (length (r_paint rdr)) < 2 ^ 31"
  shows "\<exists>paint. genLinearGradientPaint rdr h = Some (rdr\<lparr>r_paint := paint\<rparr>) \<and>
    filled (\<lambda>c. c \<in> set (r_gradient_colors rdr)) 0 (h * r_alphaWidth rdr) (r_paint rdr) paint"
  using linear.rows [OF assms, of "r_currY rdr"] unfolding genLinearGradientPaint_def by (metis (no_types, lifting) bind.bind_lunit prod.case)

text \<open>
  C31: a linear gradient is generated whatever its geometry: no transform, control points or position
  make the generator read outside the colour table or write outside its rows, each of the \<open>h * w\<close>
  entries becomes a colour of the table, and nothing else changes.
\<close>

theorem genLinearGradientPaint_ok:
  assumes "gradient_ok rdr" "0 \<le> r_alphaWidth rdr" "0 \<le> h" "h * r_alphaWidth rdr \<le> int (length (r_paint rdr))"
    "int (length (r_paint rdr)) < 2 ^ 31"
  shows "\<exists>paint. genLinearGradientPaint rdr h = Some (rdr\<lparr>r_paint := paint\<rparr>) \<and>
    filled (\<lambda>c. c \<in> set (r_gradient_colors rdr)) 0 (h * r_alphaWidth rdr) (r_paint rdr) paint"
  by (rule genLinearGradientPaint_filled) (rule assms)+

theorem genLinearGradientPaint_ok_witness:
  "\<exists>paint. genLinearGradientPaint sample_gradient 2 = Some (sample_gradient\<lparr>r_paint := paint\<rparr>) \<and>
    filled (\<lambda>c. c \<in> {0xFF}) 0 4 [1, 2, 3, 4, 5] paint"
  using genLinearGradientPaint_ok [of sample_gradient 2]
  by (simp add: gradient_ok_def sample_gradient_def)

lemma genRadialGradientPaint_filled:
  assumes "gradient_ok rdr" "0 \<le> r_alphaWidth rdr" "0 \<le> h" "h * r_alphaWidth rdr \<le> int (length (r_paint rdr))"
    "int (length (r_paint rdr)) < 2 ^ 31"
  shows "\<exists>paint. genRadialGradientPaint rdr h = Some (rdr\<lparr>r_paint := paint\<rparr>) \<and>
    filled (\<lambda>c. c \<in> set (r_gradient_colors rdr)) 0 (h * r_alphaWidth rdr) (r_paint rdr) paint"
  using radial.rows [OF assms, of "r_currY rdr"] unfolding genRadialGradientPaint_def by (metis (no_types, lifting) bind.bind_lunit prod.case)

text \<open>A radial gradient is generated whatever its geometry, with the same guarantees.\<close>

theorem genRadialGradientPaint_ok:
  assumes "gradient_ok rdr" "0 \<le> r_alphaWidth rdr" "0 \<le> h" "h * r_alphaWidth rdr \<le> int (length (r_paint rdr))"
    "int (length (r_paint rdr)) < 2 ^ 31"
  shows "\<exists>paint. genRadialGradientPaint rdr h = Some (rdr\<lparr>r_paint := paint\<rparr>) \<and>
    filled (\<lambda>c. c \<in> set (r_gradient_colors rdr)) 0 (h * r_alphaWidth rdr) (r_paint rdr) paint"
  by (rule genRadialGradientPaint_filled) (rule assms)+

theorem genRadialGradientPaint_ok_witness:
  "\<exists>paint. genRadialGradientPaint sample_gradient 2 = Some (sample_gradient\<lparr>r_paint := paint\<rparr>) \<and>
    filled (\<lambda>c. c \<in> {0xFF}) 0 4 [1, 2, 3, 4, 5] paint"
  using genRadialGradientPaint_ok [of sample_gradient 2]
  by (simp add: gradient_ok_def sample_gradient_def)

end
