(* ===== verification/Pisces_Texture_Correct.thy ===== *)
theory Pisces_Texture_Correct
  imports Pisces_Paint_Correct
begin

text \<open>
  Correctness of texture paints: the sampling loops read only texels of the image, mix premultiplied
  texels into premultiplied colours, and the optimised copy of a translated texture is the reference
  picture. Two inputs on which the addressing arithmetic fails are given as theorems.
\<close>

section \<open>Interpolation\<close>

definition mix :: "int \<Rightarrow> int \<Rightarrow> int \<Rightarrow> int" where
  "mix f x y = (x * (65536 - f) + y * f + 32768) div 65536"

lemma mix_mono:
  assumes "0 \<le> f" "f \<le> 65535" "x \<le> x'" "y \<le> y'"
  shows "mix f x y \<le> mix f x' y'"
proof -
  have "x * (65536 - f) \<le> x' * (65536 - f)" "y * f \<le> y' * f"
    using assms by (auto intro: mult_right_mono)
  then show ?thesis unfolding mix_def by (intro zdiv_mono1) linarith+
qed

lemma mix_same [simp]: "mix f x x = x"
proof -
  have "x * (65536 - f) + x * f + 32768 = 32768 + x * 65536" by (simp add: algebra_simps)
  then show ?thesis by (simp only: mix_def)
qed

lemma mix_bounds:
  assumes "0 \<le> f" "f \<le> 65535" "l \<le> x" "x \<le> u" "l \<le> y" "y \<le> u"
  shows "l \<le> mix f x y" "mix f x y \<le> u"
  using mix_mono [OF assms(1,2,3,5)] mix_mono [OF assms(1,2,4,6)] by simp_all

lemma interp_mix:
  assumes "is_byte x" "is_byte y" "0 \<le> f" "f \<le> 65535"
  shows "interp x y f = mix f x y"
proof -
  have e: "push_bit 16 x + (y - x) * f + 0x8000 = x * (65536 - f) + y * f + 32768"
    by (simp add: push_bit_eq_mult algebra_simps)
  have "0 \<le> x * (65536 - f)" "x * (65536 - f) \<le> 255 * 65536" "0 \<le> y * f" "y * f \<le> 255 * 65536"
    using assms mult_mono [of x 255 "65536 - f" 65536] mult_mono [of y 255 f 65536] by auto
  then have "i32 (x * (65536 - f) + y * f + 32768) = x * (65536 - f) + y * f + 32768"
    by (intro i32_small) linarith+
  then show ?thesis by (simp only: interp_def e mix_def drop_bit_eq_div) simp
qed

abbreviation is_frac :: "int \<Rightarrow> bool" where
  "is_frac f \<equiv> 0 \<le> f \<and> f \<le> 65535"

lemma is_frac_and: "is_frac (x AND 0xffff)"
proof -
  have "(x :: int) AND 0xffff = x mod 65536"
    using take_bit_eq_mask [of 16 x] by (simp add: take_bit_eq_mod mask_eq_exp_minus_1)
  then show ?thesis using pos_mod_bound [of 65536 x] pos_mod_sign [of 65536 x] by simp
qed


lemma interp_bounds:
  assumes "is_byte x" "is_byte y" "is_frac f"
  shows "0 \<le> interp x y f" "interp x y f \<le> 255"
  using mix_bounds [of f 0 x 255 y] assms by (simp_all add: interp_mix)

lemma interp_le:
  assumes "is_byte x" "is_byte y" "is_byte x'" "is_byte y'" "is_frac f" "x \<le> x'" "y \<le> y'"
  shows "interp x y f \<le> interp x' y' f"
  using assms by (simp add: interp_mix mix_mono)

lemmas interp_pixel = premul_argb premul_def px_is_byte interp_bounds interp_le

lemma premul_interpolate2points:
  assumes "premul p" "premul q" "is_frac f"
  shows "premul (interpolate2points p q f)"
  using assms unfolding interpolate2points_def Let_def
  by (intro premul_argb) (simp_all add: interp_pixel)

lemma premul_interpolate4points:
  assumes "premul p" "premul q" "premul p'" "premul q'" "is_frac f" "is_frac v"
  shows "premul (interpolate4points p q p' q' f v)"
  using assms unfolding interpolate4points_def Let_def
  by (intro premul_argb) (simp_all add: interp_pixel)

lemma premul_interpolate2pointsNoAlpha:
  "is_frac f \<Longrightarrow> premul (interpolate2pointsNoAlpha p q f)"
  unfolding interpolate2pointsNoAlpha_def Let_def
  by (intro premul_argb) (simp_all add: interp_pixel)

lemma premul_interpolate4pointsNoAlpha:
  "is_frac f \<Longrightarrow> is_frac v \<Longrightarrow> premul (interpolate4pointsNoAlpha p q p' q' f v)"
  unfolding interpolate4pointsNoAlpha_def Let_def
  by (intro premul_argb) (simp_all add: interp_pixel)

lemma premul_sample_points:
  assumes "premul p" "premul q0" "premul q1" "premul q2" "is_frac f" "is_frac v"
  shows "premul (sample_points al p (q0, q1, q2) f v)"
  using assms
  by (simp add: sample_points_def premul_interpolate2points premul_interpolate4points
      premul_interpolate2pointsNoAlpha premul_interpolate4pointsNoAlpha)

section \<open>Texture addressing\<close>

text \<open>
  A texture the addressing arithmetic can handle: its window lies in the image, its rows lie in the
  data, an interpolated one has two columns and two rows, and a repeated one fits the 16 integer bits
  of the 32-bit period.
\<close>

definition texture_ok :: "texture \<Rightarrow> bool" where
  "texture_ok t \<longleftrightarrow>
     0 \<le> tx_txMin t \<and> tx_txMin t \<le> tx_txMax t \<and> tx_txMax t < tx_imageWidth t \<and>
     0 \<le> tx_tyMin t \<and> tx_tyMin t \<le> tx_tyMax t \<and> tx_tyMax t < tx_imageHeight t \<and>
     tx_imageWidth t \<le> tx_stride t \<and>
     (tx_imageHeight t - 1) * tx_stride t + tx_imageWidth t \<le> int (length (tx_intData t)) \<and>
     int (length (tx_intData t)) < 2 ^ 31 \<and>
     (tx_interpolate t \<longrightarrow> 2 \<le> tx_imageWidth t \<and> 2 \<le> tx_imageHeight t) \<and>
     (tx_repeat t \<longrightarrow> tx_txMax t \<le> 32766 \<and> tx_tyMax t \<le> 32766) \<and>
     tx_transformType t \<in> {TEXTURE_TRANSFORM_IDENTITY, TEXTURE_TRANSFORM_TRANSLATE,
       TEXTURE_TRANSFORM_SCALE_TRANSLATE, TEXTURE_TRANSFORM_GENERIC} \<and>
     premul_buf (tx_intData t)"

text \<open>Where a texel lies in the data.\<close>

lemma texel_bound:
  assumes "texture_ok t" "0 \<le> r" "r < tx_imageHeight t" "0 \<le> c" "c < tx_imageWidth t"
  shows "0 \<le> r * tx_stride t + c" "r * tx_stride t + c < int (length (tx_intData t))"
    "i32 (r * tx_stride t + c) = r * tx_stride t + c"
proof -
  define s where "s = r * tx_stride t"
  define s' where "s' = (tx_imageHeight t - 1) * tx_stride t"
  have "0 \<le> s" using assms by (simp add: s_def texture_ok_def)
  moreover have "s \<le> s'" using assms by (simp add: s_def s'_def texture_ok_def mult_right_mono)
  moreover have "s' + tx_imageWidth t \<le> int (length (tx_intData t))" "int (length (tx_intData t)) < 2 ^ 31"
    using assms(1) by (simp_all add: texture_ok_def s'_def)
  ultimately show "0 \<le> r * tx_stride t + c" "r * tx_stride t + c < int (length (tx_intData t))"
      "i32 (r * tx_stride t + c) = r * tx_stride t + c"
    using assms(4,5) by (simp_all add: s_def [symmetric] i32_small)
qed

lemma texel_premul: "texture_ok t \<Longrightarrow> 0 \<le> i \<Longrightarrow> i < int (length (tx_intData t)) \<Longrightarrow> premul (tx_intData t ! nat i)"
  by (simp add: texture_ok_def premul_buf_nth)

lemma rd_texel:
  assumes "texture_ok t" "0 \<le> r" "r < tx_imageHeight t" "0 \<le> c" "c < tx_imageWidth t"
  shows "\<exists>p. rd (tx_intData t) (r * tx_stride t + c) = Some p \<and> premul p"
  using texel_bound [OF assms] texel_premul [OF assms(1)] by auto

definition col_ok :: "texture \<Rightarrow> int \<Rightarrow> bool" where
  "col_ok t tx \<longleftrightarrow> - 1 \<le> tx \<and> tx \<le> tx_txMax t"

definition row_ok :: "texture \<Rightarrow> int \<Rightarrow> bool" where
  "row_ok t ty \<longleftrightarrow> - 1 \<le> ty \<and> ty \<le> tx_tyMax t"

lemma rd_texel_index:
  assumes "texture_ok t" "col_ok t tx" "row_ok t ty"
  shows "\<exists>p. rd (tx_intData t) (texel_index t tx ty) = Some p \<and> premul p"
proof -
  have b: "0 \<le> max 0 ty" "max 0 ty < tx_imageHeight t" "0 \<le> max 0 tx" "max 0 tx < tx_imageWidth t"
    using assms by (auto simp: texture_ok_def col_ok_def row_ok_def)
  show ?thesis using rd_texel [OF assms(1) b] texel_bound(3) [OF assms(1) b] by (simp add: texel_index_def)
qed


lemma texture_dims:
  assumes "texture_ok t"
  shows "i32 (tx_imageWidth t - 1) = tx_imageWidth t - 1" "i32 (tx_imageHeight t - 1) = tx_imageHeight t - 1"
    "tx_txMax t < 2 ^ 31 - 1" "tx_tyMax t < 2 ^ 31 - 1"
proof -
  let ?w = "tx_imageWidth t" and ?h = "tx_imageHeight t" and ?s = "tx_stride t"
  have b: "0 \<le> tx_txMax t" "tx_txMax t < ?w" "0 \<le> tx_tyMax t" "tx_tyMax t < ?h" "?w \<le> ?s"
      "(?h - 1) * ?s + ?w \<le> int (length (tx_intData t))" "int (length (tx_intData t)) < 2 ^ 31"
    using assms by (auto simp: texture_ok_def)
  have "(?h - 1) * 1 \<le> (?h - 1) * ?s" using b by (intro mult_left_mono) auto
  then show "i32 (?w - 1) = ?w - 1" "i32 (?h - 1) = ?h - 1" "tx_txMax t < 2 ^ 31 - 1" "tx_tyMax t < 2 ^ 31 - 1"
    using b by (auto intro!: i32_small)
qed

text \<open>The neighbours of a texel, in both modes.\<close>

lemma sample_texture_ok:
  assumes t: "texture_ok t" "tx_interpolate t" and c: "col_ok t tx" "row_ok t ty" "is_frac f" "is_frac v"
  shows "\<exists>p. sample_texture t rep al tx ty f v = Some p \<and> premul p"
proof -
  let ?w = "tx_imageWidth t" and ?h = "tx_imageHeight t" and ?s = "tx_stride t" and ?d = "tx_intData t"
  define r q where "r = max 0 ty" and "q = max 0 tx"
  define r' where "r' = (if ?h - 1 \<le> ty then (if rep then 0 else r) else r + 1)"
  define q' where "q' = (if tx < ?w - 1 then q + 1 else (if rep then 0 else q))"
  have dim: "2 \<le> ?w" "2 \<le> ?h" "tx \<le> ?w - 1" "ty \<le> ?h - 1" "- 1 \<le> tx" "- 1 \<le> ty"
    using assms by (auto simp: texture_ok_def col_ok_def row_ok_def)
  then have b: "0 \<le> r" "r < ?h" "0 \<le> r'" "r' < ?h" "0 \<le> q" "q < ?w" "0 \<le> q'" "q' < ?w"
    by (auto simp: r_def q_def r'_def q'_def)
  have e: "i32 (?w - 1) = ?w - 1" "i32 (?h - 1) = ?h - 1"
    using texture_dims [OF t(1)] by simp_all
  note tb = texel_bound [OF t(1)]
  have idx: "texel_index t tx ty = r * ?s + q" using tb(3) [OF b(1,2,5,6)] by (simp add: texel_index_def r_def q_def)
  obtain p00 where p00: "rd ?d (r * ?s + q) = Some p00" "premul p00" using rd_texel [OF t(1) b(1,2,5,6)] by blast
  obtain p01 where p01: "rd ?d (r * ?s + q') = Some p01" "premul p01" using rd_texel [OF t(1) b(1,2,7,8)] by blast
  obtain p10 where p10: "rd ?d (r' * ?s + q) = Some p10" "premul p10" using rd_texel [OF t(1) b(3,4,5,6)] by blast
  obtain p11 where p11: "rd ?d (r' * ?s + q') = Some p11" "premul p11" using rd_texel [OF t(1) b(3,4,7,8)] by blast
  have "(if rep then getPointsToInterpolateRepeat else getPointsToInterpolate) ?d (r * ?s + q) ?s p00 tx (?w - 1) ty (?h - 1)
      = Some (p01, p10, p11)"
  proof (cases rep)
    case True
    have row: "(if ?h - 1 \<le> ty then max tx 0 else i32 (r * ?s + q + ?s)) = r' * ?s + q"
      using tb(3) [OF b(3,4,5,6)] True by (auto simp: r'_def q_def algebra_simps)
    have col: "rd ?d (if tx < ?w - 1 then i32 (x * ?s + q + 1) else i32 (x * ?s + q - max tx 0)) = rd ?d (x * ?s + q')"
      if "0 \<le> x" "x < ?h" for x
      using tb(3) [OF that b(7,8)] True by (auto simp: q'_def q_def max.commute [of tx 0] algebra_simps)
    show ?thesis
      using True p01 p10 p11 col [OF b(1,2)] col [OF b(3,4)] by (simp add: getPointsToInterpolateRepeat_def Let_def row split: if_splits)
  next
    case False
    have row: "(if ?h - 1 \<le> ty then r * ?s + q else i32 (r * ?s + q + ?s)) = r' * ?s + q"
      using tb(3) [OF b(3,4,5,6)] False by (auto simp: r'_def algebra_simps)
    have col: "rd ?d (if tx < ?w - 1 then i32 (x * ?s + q + 1) else x * ?s + q) = rd ?d (x * ?s + q')"
      if "0 \<le> x" "x < ?h" for x
      using tb(3) [OF that b(7,8)] False by (auto simp: q'_def algebra_simps)
    show ?thesis
      using False p00 p01 p10 p11 col [OF b(1,2)] col [OF b(3,4)] by (simp add: getPointsToInterpolate_def Let_def row split: if_splits)
  qed
  then have "sample_texture t rep al tx ty f v = Some (sample_points al p00 (p01, p10, p11) f v)"
    by (simp add: sample_texture_def Let_def idx p00 e)
  then show ?thesis using p00 p01 p10 p11 c by (simp add: premul_sample_points)
qed


text \<open>On periods that fit 32 bits, \<^const>\<open>lmod\<close> is the mathematical remainder.\<close>

lemma lmod_eq:
  assumes "0 < m" "m < 2 ^ 31"
  shows "lmod x m = Some (x mod m)"
proof (cases "x < 0")
  case True
  then have c: "c_mod x m = Some (- ((- x) mod m))" using assms by (simp add: c_mod_def)
  define y where "y = (- x) mod m"
  have m: "0 \<le> y" "y < m" using assms by (simp_all add: y_def)
  have e: "x mod m = (if y = 0 then 0 else m - y)"
    using zmod_zminus1_eq_if [of "- x" m] by (simp add: y_def)
  have "i64 (m - y) = m - y" using m assms by (intro i64_small) auto
  then show ?thesis using c m assms by (auto simp: lmod_def e y_def [symmetric])
next
  case False
  then have "c_mod x m = Some (x mod m)" using assms by (cases "x = 0") (simp_all add: c_mod_def)
  moreover have "\<not> x mod m < 0" using pos_mod_sign [of m x] assms(1) by linarith
  ultimately show ?thesis by (simp add: lmod_def)
qed

lemma period_div:
  assumes "0 < n"
  shows "(a :: int) mod (n * 65536) div 65536 = a div 65536 mod n"
proof -
  have "a mod (n * 65536) = 65536 * (a div 65536 mod n) + a mod 65536"
    using zmod_zmult2_eq [of n a 65536] assms by (simp add: mult.commute [of _ 65536])
  then show ?thesis using div_add_byte [of "a mod 65536" 65536 "a div 65536 mod n"] by simp
qed

lemma checkBoundsRepeat_eq:
  assumes "0 \<le> mx" "mx \<le> 32766"
  shows "checkBoundsRepeat (a, la) mn mx =
    (if mn \<le> a \<and> a \<le> mx then Some (a, la) else Some (la div 65536 mod (mx + 1), la mod ((mx + 1) * 65536)))"
proof -
  have "push_bit 16 (mx + 1) = (mx + 1) * 65536" by (simp add: push_bit_eq_mult)
  moreover have "i32 ((mx + 1) * 65536) = (mx + 1) * 65536" using assms by (intro i32_small) auto
  moreover have "la mod ((mx + 1) * 65536) div 65536 = la div 65536 mod (mx + 1)"
    by (rule period_div) (use assms in simp)
  moreover have "0 \<le> la div 65536 mod (mx + 1)" "la div 65536 mod (mx + 1) < mx + 1"
    using assms(1) pos_mod_bound [of "mx + 1"] pos_mod_sign [of "mx + 1"] by auto
  then have "i32 (la div 65536 mod (mx + 1)) = la div 65536 mod (mx + 1)" using assms by (intro i32_small) linarith+
  ultimately show ?thesis using assms by (simp add: checkBoundsRepeat_def lmod_eq drop_bit_eq_div)
qed

lemma bounds_repeat:
  assumes "0 \<le> mx" "mx \<le> 32766" "- 1 \<le> mn"
  shows "\<exists>a' la'. checkBoundsRepeat (a, la) mn mx = Some (a', la') \<and> - 1 \<le> a' \<and> a' \<le> mx"
proof -
  have "0 \<le> la div 65536 mod (mx + 1)" "la div 65536 mod (mx + 1) < mx + 1"
    using assms(1) pos_mod_bound [of "mx + 1"] pos_mod_sign [of "mx + 1"] by auto
  then have "- 1 \<le> la div 65536 mod (mx + 1) \<and> la div 65536 mod (mx + 1) \<le> mx" by linarith
  then show ?thesis unfolding checkBoundsRepeat_eq [OF assms(1,2)] using assms(3) by (metis order_trans)
qed

lemma boundsX_ok:
  assumes "texture_ok t" "rep \<longrightarrow> tx_repeat t"
  shows "\<exists>tx' ltx'. boundsX t rep (tx, ltx) = Some (tx', ltx') \<and> col_ok t tx'"
proof -
  have "i32 (tx_txMin t - 1) = tx_txMin t - 1"
    using assms(1) texture_dims(3) [OF assms(1)] by (intro i32_small) (auto simp: texture_ok_def)
  then show ?thesis
    using assms bounds_repeat [of "tx_txMax t" "tx_txMin t - 1" tx ltx]
    by (auto simp: boundsX_def checkBoundsNoRepeat_def col_ok_def texture_ok_def)
qed

lemma boundsY_ok:
  assumes "texture_ok t" "rep \<longrightarrow> tx_repeat t"
  shows "\<exists>ty' lty'. boundsY t rep (ty, lty) = Some (ty', lty') \<and> row_ok t ty'"
proof -
  have "i32 (tx_tyMin t - 1) = tx_tyMin t - 1"
    using assms(1) texture_dims(4) [OF assms(1)] by (intro i32_small) (auto simp: texture_ok_def)
  then show ?thesis
    using assms bounds_repeat [of "tx_tyMax t" "tx_tyMin t - 1" ty lty]
    by (auto simp: boundsY_def checkBoundsNoRepeat_def row_ok_def texture_ok_def)
qed

lemma in_texture_ok:
  assumes "texture_ok t" "in_texture t tx ty"
  shows "col_ok t tx" "row_ok t ty"
proof -
  have "i32 (tx_txMin t - 1) = tx_txMin t - 1" "i32 (tx_tyMin t - 1) = tx_tyMin t - 1"
    using assms(1) texture_dims(3,4) [OF assms(1)] by (auto simp: texture_ok_def intro!: i32_small)
  then show "col_ok t tx" "row_ok t ty"
    using assms by (auto simp: in_texture_def isInBoundsNoRepeat_def col_ok_def row_ok_def texture_ok_def)
qed

section \<open>Texture rows\<close>

text \<open>
  A step of an inner loop: it stores one good colour at the current index, whatever becomes of its
  other variables. Every loop of such steps fills its part of the paint buffer.
\<close>

definition stores :: "(jint \<Rightarrow> bool) \<Rightarrow> (int \<Rightarrow> jint list \<times> 's \<Rightarrow> (jint list \<times> 's) option) \<Rightarrow> bool" where
  "stores Q step \<longleftrightarrow> (\<forall>k p s. 0 \<le> k \<longrightarrow> k < int (length p) \<longrightarrow> (\<exists>c s'. Q c \<and> step k (p, s) = Some (p[nat k := c], s')))"

lemma stores_loop:
  fixes step :: "int \<Rightarrow> jint list \<times> 's \<Rightarrow> (jint list \<times> 's) option"
  assumes "stores Q step" "0 \<le> a" "a \<le> am" "am \<le> int (length p)"
  shows "\<exists>p' e. ptr_loop a am 1 step (p, s) = Some (p', e) \<and> filled Q a am p p'"
proof -
  let ?P = "\<lambda>k t. \<exists>p' (s' :: 's). t = (p', s') \<and> filled Q a k p p'"
  have "\<exists>t. ptr_loop a am 1 step (p, s) = Some t \<and> ?P am t"
  proof (rule ptr_loop_inv [where P = ?P])
    fix k t assume k: "a \<le> k" "k < am" and "?P k t"
    then obtain p' s' where t: "t = (p', s')" "filled Q a k p p'" by blast
    then have "length p' = length p" by (simp add: filled_def)
    then obtain c s'' where "Q c" "step k (p', s') = Some (p'[nat k := c], s'')"
      using assms k unfolding stores_def by (metis order_trans order_less_le_trans)
    then show "\<exists>t'. step k t = Some t' \<and> ?P (k + 1) t'"
      using t k assms(2) filled_write by fastforce
  qed (use assms in auto)
  then show ?thesis by auto
qed

lemma stores_scale_plain:
  assumes "texture_ok t" "rep \<longrightarrow> tx_repeat t"
  shows "stores premul (scale_plain_step t rep)"
  unfolding stores_def
proof (intro allI impI)
  fix k :: int and p :: "jint list" and s :: "jlong \<times> jlong"
  assume k: "0 \<le> k" "k < int (length p)"
  obtain ltx lty where s: "s = (ltx, lty)" by (cases s)
  obtain tx' ltx' where x: "boundsX t rep (i32 (drop_bit 16 ltx), ltx) = Some (tx', ltx')" "col_ok t tx'"
    using boundsX_ok [OF assms] by blast
  obtain ty' lty' where y: "boundsY t rep (i32 (drop_bit 16 lty), lty) = Some (ty', lty')" "row_ok t ty'"
    using boundsY_ok [OF assms] by blast
  obtain c where "rd (tx_intData t) (texel_index t tx' ty') = Some c" "premul c"
    using rd_texel_index [OF assms(1) x(2) y(2)] by blast
  then show "\<exists>c s'. premul c \<and> scale_plain_step t rep k (p, s) = Some (p[nat k := c], s')"
    using x y k by (auto simp: scale_plain_step_def s Let_def)
qed

lemma stores_scale_interpolate:
  assumes "texture_ok t" "rep \<longrightarrow> tx_repeat t" "tx_interpolate t"
  shows "stores premul (scale_interpolate_step t rep al)"
  unfolding stores_def
proof (intro allI impI)
  fix k :: int and p :: "jint list" and s :: "jlong \<times> jlong"
  assume k: "0 \<le> k" "k < int (length p)"
  obtain ltx lty where s: "s = (ltx, lty)" by (cases s)
  obtain tx' ltx' where x: "boundsX t rep (i32 (drop_bit 16 ltx), ltx) = Some (tx', ltx')" "col_ok t tx'"
    using boundsX_ok [OF assms(1,2)] by blast
  obtain ty' lty' where y: "boundsY t rep (i32 (drop_bit 16 lty), lty) = Some (ty', lty')" "row_ok t ty'"
    using boundsY_ok [OF assms(1,2)] by blast
  obtain c where "sample_texture t rep al tx' ty' (ltx AND 0xffff) (lty AND 0xffff) = Some c" "premul c"
    using sample_texture_ok [OF assms(1,3) x(2) y(2) is_frac_and is_frac_and] by blast
  then show "\<exists>c s'. premul c \<and> scale_interpolate_step t rep al k (p, s) = Some (p[nat k := c], s')"
    using x y k by (auto simp: scale_interpolate_step_def s Let_def)
qed

lemma stores_generic_plain:
  assumes "texture_ok t"  "rep \<longrightarrow> tx_repeat t"
  shows "stores premul (generic_plain_step t rep)"
proof (cases rep)
  case True
  then have "generic_plain_step t rep = scale_plain_step t rep"
    by (intro ext) (simp add: generic_plain_step_def)
  then show ?thesis using stores_scale_plain [OF assms] by simp
next
  case False
  have "\<exists>c. (if in_texture t tx ty then rd (tx_intData t) (texel_index t tx ty) else Some 0) = Some c \<and> premul c" for tx ty
    using rd_texel_index [OF assms(1)] in_texture_ok [OF assms(1), of tx ty] by auto
  note colour = this
  show ?thesis unfolding stores_def
  proof (intro allI impI)
    fix k :: int and p :: "jint list" and s :: "jlong \<times> jlong"
    assume k: "0 \<le> k" "k < int (length p)"
    obtain ltx lty where s: "s = (ltx, lty)" by (cases s)
    show "\<exists>c s'. premul c \<and> generic_plain_step t rep k (p, s) = Some (p[nat k := c], s')"
      using colour [of "i32 (drop_bit 16 ltx)" "i32 (drop_bit 16 lty)"] k False
      by (auto simp: generic_plain_step_def s Let_def split: if_splits) (rule exI [of _ 0], simp)
  qed
qed

lemma stores_generic_interpolate:
  assumes "texture_ok t" "rep \<longrightarrow> tx_repeat t" "tx_interpolate t"
  shows "stores premul (generic_interpolate_step t rep al)"
proof (cases rep)
  case True
  then have "generic_interpolate_step t rep al = scale_interpolate_step t rep al"
    by (intro ext) (simp add: generic_interpolate_step_def)
  then show ?thesis using stores_scale_interpolate [OF assms] by simp
next
  case False
  have "\<exists>c. (if in_texture t tx ty then sample_texture t False al tx ty (x AND 0xffff) (y AND 0xffff) else Some 0) = Some c \<and> premul c"
    for tx ty x y
    using sample_texture_ok [OF assms(1,3) _ _ is_frac_and is_frac_and] in_texture_ok [OF assms(1), of tx ty] by auto
  note colour = this
  show ?thesis unfolding stores_def
  proof (intro allI impI)
    fix k :: int and p :: "jint list" and s :: "jlong \<times> jlong"
    assume k: "0 \<le> k" "k < int (length p)"
    obtain ltx lty where s: "s = (ltx, lty)" by (cases s)
    show "\<exists>c s'. premul c \<and> generic_interpolate_step t rep al k (p, s) = Some (p[nat k := c], s')"
      using colour [of "i32 (drop_bit 16 ltx)" "i32 (drop_bit 16 lty)" ltx lty] k False
      by (auto simp: generic_interpolate_step_def s Let_def split: if_splits) (rule exI [of _ 0], simp)
  qed
qed


lemma paint_span_join:
  assumes "0 \<le> n" "0 \<le> m" "\<And>k x. 0 \<le> k \<Longrightarrow> k < n \<Longrightarrow> f k x = h k x" "\<And>k x. 0 \<le> k \<Longrightarrow> k < m \<Longrightarrow> g k x = h (n + k) x"
  shows "paint_span g (p + n) m (paint_span f p n xs) = paint_span h p (n + m) xs"
  using assms(1,2) by (intro nth_equalityI) (auto simp: nth_paint_span assms(3,4))

lemma border_loop_span:
  assumes "0 \<le> row + mn" "row + mn < int (length d)" "0 \<le> a" "am \<le> int (length p)" "mn < 2 ^ 31" "is_jint tx"
  shows "border_loop d row mn p a am tx =
    Some (paint_span (\<lambda>k _. d ! nat (row + mn)) a (max 0 (min (mn - tx) (am - a))) p,
      a + max 0 (min (mn - tx) (am - a)), tx + max 0 (min (mn - tx) (am - a)))"
  using assms(3,4,6)
proof (induction "nat (am - a)" arbitrary: p a tx)
  case 0
  then show ?case by (subst border_loop.simps) simp
next
  case (Suc n)
  let ?c = "d ! nat (row + mn)"
  show ?case
  proof (cases "tx < mn")
    case True
    have lt: "a < am" using Suc.hyps(2) by linarith
    have m: "max 0 (min (mn - tx) (am - a)) = 1 + max 0 (min (mn - (tx + 1)) (am - (a + 1)))" using True lt by auto
    have j: "is_jint (tx + 1)" using Suc.prems(3) True assms(5) by (simp add: is_jint_def)
    have one: "p[nat a := ?c] = paint_span (\<lambda>k _. ?c) a 1 p"
      using Suc.prems lt by (simp add: paint_span_one)
    have "border_loop d row mn p a am tx = border_loop d row mn (paint_span (\<lambda>k _. ?c) a 1 p) (a + 1) am (tx + 1)"
      using True lt Suc.prems assms(1,2) one i32_id [OF j] by (subst border_loop.simps) simp
    also have "\<dots> = Some (paint_span (\<lambda>k _. ?c) (a + 1) (max 0 (min (mn - (tx + 1)) (am - (a + 1)))) (paint_span (\<lambda>k _. ?c) a 1 p),
      a + 1 + max 0 (min (mn - (tx + 1)) (am - (a + 1))), tx + 1 + max 0 (min (mn - (tx + 1)) (am - (a + 1))))"
      using Suc.hyps(2) Suc.prems j by (intro Suc.hyps(1)) auto
    also have "paint_span (\<lambda>k _. ?c) (a + 1) (max 0 (min (mn - (tx + 1)) (am - (a + 1)))) (paint_span (\<lambda>k _. ?c) a 1 p) =
      paint_span (\<lambda>k _. ?c) a (max 0 (min (mn - tx) (am - a))) p" unfolding m by (rule paint_span_join) auto
    finally show ?thesis by (simp only: m add.assoc)
  next
    case False
    then show ?thesis by (subst border_loop.simps) simp
  qed
qed

lemma memcpy_from_span:
  assumes "0 \<le> p" "p + n \<le> int (length dst)" "0 \<le> q" "q + n \<le> int (length src)" "0 \<le> n"
  shows "memcpy_from dst p src q n = Some (paint_span (\<lambda>k _. src ! nat (q + k)) p n dst)"
proof -
  obtain p' n' q' where i: "p = int p'" "n = int n'" "q = int q'" using assms by (metis zero_le_imp_eq_int)
  have l: "p' + n' \<le> length dst" "q' + n' \<le> length src" using assms by (auto simp: i)
  have "take p' dst @ take n' (drop q' src) @ drop (p' + n') dst =
      paint_span (\<lambda>k _. src ! nat (int q' + k)) (int p') (int n') dst" (is "?l = ?r")
  proof (rule nth_equalityI)
    show "length ?l = length ?r" using l by simp
    fix j assume "j < length ?l"
    then have j: "j < length dst" using l by simp
    consider "j < p'" | "p' \<le> j" "j < p' + n'" | "p' + n' \<le> j" by linarith
    then show "?l ! j = ?r ! j"
    proof cases
      case 1
      then show ?thesis using j l by (simp add: nth_append nth_paint_span)
    next
      case 2
      then have "nat (int q' + (int j - int p')) = q' + (j - p')" by linarith
      then show ?thesis using 2 j l by (simp add: nth_append nth_paint_span less_diff_conv2)
    next
      case 3
      then have "\<not> j - p' < n'" by linarith
      with 3 show ?thesis using j l by (simp add: nth_append nth_paint_span)
    qed
  qed
  then show ?thesis using assms by (simp add: memcpy_from_def i nat_int_add)
qed


text \<open>
  What the optimised copy of a row amounts to: each pixel is the texel of its column, with columns
  outside the window of the texture replaced by the nearest column inside.
\<close>

definition clamp :: "int \<Rightarrow> int \<Rightarrow> int \<Rightarrow> int" where
  "clamp lw up x = (if x < lw then lw else if up < x then up else x)"

definition nearest_texel :: "texture \<Rightarrow> int \<Rightarrow> int \<Rightarrow> jint" where
  "nearest_texel t x y = tx_intData t ! nat (y * tx_stride t + clamp (tx_txMin t) (tx_txMax t) x)"

lemma const_loop:
  assumes "0 \<le> row" "row < int (length d)" "0 \<le> a" "a \<le> am" "am \<le> int (length p)"
  shows "ptr_loop a am 1 (\<lambda>a p. rd d row \<bind> wr p a) p = Some (paint_span (\<lambda>k _. d ! nat row) a (am - a) p)"
proof -
  let ?P = "\<lambda>k t. t = paint_span (\<lambda>k _. d ! nat row) a (k - a) p"
  have "\<exists>t. ptr_loop a am 1 (\<lambda>a p. rd d row \<bind> wr p a) p = Some t \<and> ?P am t"
  proof (rule ptr_loop_inv [where P = ?P])
    fix k t assume k: "a \<le> k" "k < am" "?P k t"
    then show "\<exists>t'. rd d row \<bind> wr t k = Some t' \<and> ?P (k + 1) t'"
      using paint_span_step [OF assms(3), of "k - a" "\<lambda>k _. d ! nat row" p] assms by (simp add: diff_add_eq)
  qed (use assms in auto)
  then show ?thesis by simp
qed

lemma translate_copy_row_eq:
  assumes t: "texture_ok t" and ty: "row_ok t ty" and a: "0 \<le> a" "a \<le> am" "am \<le> int (length p)" "int (length p) < 2 ^ 31"
  shows "translate_copy_row t ty ltx a am p =
    Some (paint_span (\<lambda>k _. nearest_texel t (i32 (drop_bit 16 ltx) + k) (max 0 ty)) a (am - a) p)"
proof -
  let ?d = "tx_intData t" and ?mn = "tx_txMin t" and ?mx = "tx_txMax t"
  define tx where "tx = i32 (drop_bit 16 ltx)"
  define row where "row = max 0 ty * tx_stride t"
  define n1 where "n1 = max 0 (min (?mn - tx) (am - a))"
  define len where "len = min (am - (a + n1)) (?mx - (tx + n1) + 1)"
  define n2 where "n2 = max 0 len"
  define n3 where "n3 = am - (a + n1 + n2)"
  have w: "0 \<le> ?mn" "?mn \<le> ?mx" "?mx < tx_imageWidth t" "?mx < 2 ^ 31 - 1"
    using t texture_dims [OF t] by (auto simp: texture_ok_def)
  have y: "0 \<le> max 0 ty" "max 0 ty < tx_imageHeight t" using t ty by (auto simp: texture_ok_def row_ok_def)
  have tx: "- (2 ^ 31) \<le> tx" "tx < 2 ^ 31" using is_jint_i32 [of "drop_bit 16 ltx"] by (simp_all only: tx_def is_jint_def)
  have in_row: "0 \<le> row + c" "row + c < int (length ?d)" if "0 \<le> c" "c \<le> ?mx" for c
    using texel_bound [OF t y, of c] that w by (simp_all add: row_def)
  have "i32 row = row" using texel_bound(3) [OF t y, of 0] w by (simp add: row_def)
  then have row32: "i32 (max 0 ty * tx_stride t) = row" by (simp add: row_def)
  have n1: "0 \<le> n1" "n1 \<le> am - a" using a by (auto simp: n1_def)
  have n2: "0 \<le> n2" "n2 \<le> am - (a + n1)" using n1 by (auto simp: n2_def len_def)
  note n = n1 n2
  let ?f = "\<lambda>k (_ :: jint). nearest_texel t (tx + k) (max 0 ty)"
  let ?p1 = "paint_span (\<lambda>k _. ?d ! nat (row + ?mn)) a n1 p"
  let ?p2 = "paint_span (\<lambda>k _. ?d ! nat (row + (tx + n1) + k)) (a + n1) n2 ?p1"
  let ?p3 = "paint_span (\<lambda>k _. ?d ! nat (row + ?mx)) (a + n1 + n2) n3 ?p2"
  have s1: "border_loop ?d row ?mn p a am tx = Some (?p1, a + n1, tx + n1)"
    unfolding n1_def using in_row [of ?mn] w a by (intro border_loop_span) (auto simp: tx_def)
  have in_window: "a + n1 < am \<Longrightarrow> ?mn \<le> tx + n1" using a by (auto simp: n1_def)
  have tx1: "tx + n1 < 2 ^ 31" using tx w by (auto simp: n1_def)
  define len' where "len' = i32 (min (am - (a + n1)) (i32 (?mx - (tx + n1) + 1)))"
  have len_eq: "len' = len" if "a + n1 < am"
  proof -
    have "i32 (?mx - (tx + n1) + 1) = ?mx - (tx + n1) + 1"
      using in_window [OF that] w tx1 n by (intro i32_small) auto
    moreover have "i32 len = len" using in_window [OF that] that w tx1 a n by (intro i32_small) (auto simp: len_def)
    ultimately show ?thesis by (simp add: len'_def len_def)
  qed
  have len_0: "len' \<le> 0" "len \<le> 0" if "\<not> a + n1 < am"
  proof -
    have "a + n1 = am" using that n by linarith
    moreover have "i32 (min 0 (i32 x)) \<le> 0" for x
      using is_jint_i32 [of x] i32_id [of "i32 x"] by (cases "0 \<le> i32 x") (auto simp: min_def)
    ultimately show "len' \<le> 0" "len \<le> 0" by (simp_all add: len'_def len_def)
  qed
  have s3: "ptr_loop (a + n1 + n2) am 1 (\<lambda>a p. rd ?d (row + ?mx) \<bind> wr p a) ?p2 = Some ?p3"
    unfolding n3_def using in_row [of ?mx] w a n by (intro const_loop) auto
  have s2: "(if 0 < len' then memcpy_from ?p1 (a + n1) ?d (row + (tx + n1)) len' \<bind> (\<lambda>p. Some (p, a + n1 + len'))
      else Some (?p1, a + n1)) = Some (?p2, a + n1 + n2)"
  proof (cases "0 < len'")
    case True
    then have lt: "a + n1 < am" using len_0 by linarith
    have len: "len' = n2" "tx + n1 + n2 - 1 \<le> ?mx" using True len_eq [OF lt] by (auto simp: n2_def len_def)
    have "memcpy_from ?p1 (a + n1) ?d (row + (tx + n1)) n2 = Some ?p2"
      using in_row [of "tx + n1"] in_row [of "tx + n1 + n2 - 1"] in_window [OF lt] w len True n a
      by (intro memcpy_from_span) auto
    then show ?thesis using True len by simp
  next
    case False
    then have "n2 = 0" using len_eq len_0 by (cases "a + n1 < am") (auto simp: n2_def)
    then show ?thesis using False by simp
  qed
  have "?p2 = paint_span ?f a (n1 + n2) p"
  proof (rule paint_span_join)
    fix k x assume k: "0 \<le> k" "k < n2"
    then have "0 < len" by (auto simp: n2_def)
    then have "a + n1 < am" "tx + (n1 + k) \<le> ?mx" using k by (auto simp: n2_def len_def)
    then show "?d ! nat (row + (tx + n1) + k) = ?f (n1 + k) x"
      using in_window k by (auto simp: nearest_texel_def clamp_def row_def add.assoc)
  qed (use n w in \<open>auto simp: nearest_texel_def clamp_def row_def n1_def\<close>)
  then have "?p3 = paint_span (\<lambda>k _. ?d ! nat (row + ?mx)) (a + (n1 + n2)) n3 (paint_span ?f a (n1 + n2) p)"
    by (simp add: add.assoc)
  also have "\<dots> = paint_span ?f a (n1 + n2 + n3) p"
  proof (rule paint_span_join)
    fix k x assume k: "0 \<le> k" "k < n3"
    then have lt: "a + n1 < am" using n by (auto simp: n3_def)
    have "?mx < tx + (n1 + n2 + k)" using k by (auto simp: n3_def n2_def len_def split: if_splits)
    then show "?d ! nat (row + ?mx) = ?f (n1 + n2 + k) x"
      using in_window [OF lt] k w n by (auto simp: nearest_texel_def clamp_def row_def)
  qed (use n in \<open>auto simp: n3_def\<close>)
  finally have p3: "?p3 = paint_span ?f a (am - a) p" by (simp add: n3_def)
  show ?thesis
    unfolding translate_copy_row_def Let_def row32 tx_def [symmetric]
    by (simp only: s1 bind.bind_lunit prod.case len'_def [symmetric] s2 s3 p3)
qed

lemma filled_paint_span:
  assumes "\<And>k x. 0 \<le> k \<Longrightarrow> k < n \<Longrightarrow> Q (f k x)"
  shows "filled Q p (p + n) xs (paint_span f p n xs)"
  using assms by (auto simp: filled_def nth_paint_span)

lemma premul_nearest_texel:
  assumes "texture_ok t" "0 \<le> y" "y < tx_imageHeight t"
  shows "premul (nearest_texel t x y)"
proof -
  have "0 \<le> clamp (tx_txMin t) (tx_txMax t) x" "clamp (tx_txMin t) (tx_txMax t) x < tx_imageWidth t"
    using assms(1) by (auto simp: clamp_def texture_ok_def)
  from texel_bound [OF assms this] show ?thesis
    unfolding nearest_texel_def by (intro texel_premul assms(1))
qed

lemma translate_row_ok:
  assumes t: "texture_ok (r_texture rdr)"
    and b: "0 \<le> r_alphaWidth rdr" "0 \<le> off" "off + r_alphaWidth rdr \<le> int (length p)" "int (length p) < 2 ^ 31"
  shows "\<exists>p'. translate_row rdr y off p = Some p' \<and> filled premul off (off + r_alphaWidth rdr) p p'"
proof -
  let ?t = "r_texture rdr" and ?am = "off + r_alphaWidth rdr"
  define ltx where "ltx = i64 (i32 (push_bit 16 (r_currX rdr)) + tx_m02 ?t)"
  define lty where "lty = i64 (i32 (push_bit 16 y) + tx_m12 ?t)"
  obtain ty' lty' where ty: "boundsY ?t (tx_repeat ?t) (i32 (drop_bit 16 lty), lty) = Some (ty', lty')" "row_ok ?t ty'"
    using boundsY_ok [OF t] by blast
  have interp: "stores premul (translate_interpolate_step ?t (tx_repeat ?t) al ty' (ltx AND 0xffff) (lty AND 0xffff))"
    if i: "tx_interpolate ?t" for al
    unfolding stores_def
  proof (intro allI impI)
    fix k :: int and p :: "jint list" and s :: jlong assume k: "0 \<le> k" "k < int (length p)"
    obtain tx' ltx' where x: "boundsX ?t (tx_repeat ?t) (i32 (drop_bit 16 s), s) = Some (tx', ltx')" "col_ok ?t tx'"
      using boundsX_ok [OF t] by blast
    obtain c where "sample_texture ?t (tx_repeat ?t) al tx' ty' (ltx AND 0xffff) (lty AND 0xffff) = Some c" "premul c"
      using sample_texture_ok [OF t i x(2) ty(2) is_frac_and is_frac_and] by blast
    then show "\<exists>c s'. premul c \<and> translate_interpolate_step ?t (tx_repeat ?t) al ty' (ltx AND 0xffff) (lty AND 0xffff) k (p, s) =
        Some (p[nat k := c], s')"
      using x k by (auto simp: translate_interpolate_step_def Let_def)
  qed
  have plain: "stores premul (translate_repeat_step ?t ty')" if rep: "tx_repeat ?t"
    unfolding stores_def
  proof (intro allI impI)
    fix k :: int and p :: "jint list" and s :: jlong assume k: "0 \<le> k" "k < int (length p)"
    obtain tx' ltx' where x: "boundsX ?t True (i32 (drop_bit 16 s), s) = Some (tx', ltx')" "col_ok ?t tx'"
      using boundsX_ok [OF t, of True] rep by blast
    from rd_texel_index [OF t x(2) ty(2)]
    show "\<exists>c s'. premul c \<and> translate_repeat_step ?t ty' k (p, s) = Some (p[nat k := c], s')"
      using x k by (fastforce simp: translate_repeat_step_def Let_def)
  qed
  have row: "translate_row rdr y off p =
      (if tx_interpolate ?t then ptr_loop off ?am 1
         (translate_interpolate_step ?t (tx_repeat ?t) (tx_hasAlpha ?t) ty' (ltx AND 0xffff) (lty AND 0xffff)) (p, ltx) \<bind> (\<lambda>(p, _). Some p)
       else if tx_repeat ?t then ptr_loop off ?am 1 (translate_repeat_step ?t ty') (p, ltx) \<bind> (\<lambda>(p, _). Some p)
       else translate_copy_row ?t ty' ltx off ?am p)"
    by (simp only: translate_row_def Let_def ltx_def [symmetric] lty_def [symmetric] ty(1) bind.bind_lunit prod.case)
  have y': "0 \<le> max 0 ty'" "max 0 ty' < tx_imageHeight ?t" using t ty(2) by (auto simp: texture_ok_def row_ok_def)
  have ord: "off \<le> ?am" using b by simp
  show ?thesis
    unfolding row
    using stores_loop [OF interp b(2) ord b(3), of "tx_hasAlpha ?t" ltx] stores_loop [OF plain b(2) ord b(3), of ltx]
      translate_copy_row_eq [OF t ty(2) b(2) ord b(3,4), of ltx]
      filled_paint_span [of "r_alphaWidth rdr" premul "\<lambda>k _. nearest_texel ?t (i32 (drop_bit 16 ltx) + k) (max 0 ty')" off p]
      premul_nearest_texel [OF t y']
    by auto
qed

interpretation tex: row_generator texture_row "\<lambda>rdr. texture_ok (r_texture rdr)" "\<lambda>rdr. premul"
proof
  fix rdr :: renderer and off y :: int and p :: "jint list"
  assume t: "texture_ok (r_texture rdr)" and b: "0 \<le> r_alphaWidth rdr" "0 \<le> off" "off + r_alphaWidth rdr \<le> int (length p)"
    "int (length p) < 2 ^ 31"
  let ?t = "r_texture rdr"
  have ord: "off \<le> off + r_alphaWidth rdr" using b by simp
  have gen: "\<exists>p'. transform_row step rdr y off p = Some p' \<and> filled premul off (off + r_alphaWidth rdr) p p'"
    if "stores premul step" for step
    using stores_loop [OF that b(2) ord b(3)] unfolding transform_row_def Let_def by (metis bind.bind_lunit prod.case)
  note steps = stores_scale_plain [OF t] stores_scale_interpolate [OF t] stores_generic_plain [OF t] stores_generic_interpolate [OF t]
  have kind: "tx_transformType ?t \<in> {TEXTURE_TRANSFORM_IDENTITY, TEXTURE_TRANSFORM_TRANSLATE,
       TEXTURE_TRANSFORM_SCALE_TRANSLATE, TEXTURE_TRANSFORM_GENERIC}" using t by (simp add: texture_ok_def)
  show "\<exists>p'. texture_row rdr y off p = Some p' \<and> filled premul off (off + r_alphaWidth rdr) p p'"
    unfolding texture_row_def Let_def
    using kind gen steps translate_row_ok [OF t b] by auto
qed

section \<open>Modulation\<close>

definition dimmed :: "int \<Rightarrow> int \<Rightarrow> int" where
  "dimmed m x = (m + 1) * x div 256"

lemma dimmed_le: "is_byte m \<Longrightarrow> x \<le> y \<Longrightarrow> dimmed m x \<le> dimmed m y"
  unfolding dimmed_def by (intro zdiv_mono1 mult_left_mono) auto

lemma dimmed_0 [simp]: "dimmed m 0 = 0"
  by (simp add: dimmed_def)

lemma drop8_dimmed:
  assumes "is_byte m" "is_byte x"
  shows "drop_bit 8 (i32 ((m + 1) * x)) = dimmed m x" "0 \<le> dimmed m x" "dimmed m x \<le> x" "dimmed m x \<le> 255"
proof -
  have b: "0 \<le> (m + 1) * x" "(m + 1) * x \<le> 256 * x" using assms by (auto intro: mult_right_mono)
  then have "i32 ((m + 1) * x) = (m + 1) * x" using assms by (intro i32_small) linarith+
  then show "drop_bit 8 (i32 ((m + 1) * x)) = dimmed m x" by (simp add: drop_bit_eq_div dimmed_def)
  show "0 \<le> dimmed m x" using dimmed_le [OF assms(1), of 0 x] assms(2) by simp
  show le: "dimmed m x \<le> x" using zdiv_mono1 [OF b(2), of 256] by (simp add: dimmed_def)
  show "dimmed m x \<le> 255" using le assms(2) by linarith
qed

lemma premul_multiply_white_px:
  assumes "is_byte m" "premul v"
  shows "premul (multiply_white_px (m + 1) v)"
  using assms
  by (simp add: multiply_white_px_def drop8_dimmed px_is_byte premul_argb dimmed_le premul_def [of v])

lemma premul_multiply_px:
  assumes "is_byte m" "is_byte r" "is_byte g" "is_byte b" "premul v"
  shows "premul (multiply_px (m + 1) r g b v)"
proof -
  have chan: "drop_bit 8 (i32 (dimmed k x * (m + 1))) = dimmed m (dimmed k x)"
      "0 \<le> dimmed m (dimmed k x)" "dimmed m (dimmed k x) \<le> dimmed m (pxA v)"
    if "is_byte k" "is_byte x" "x \<le> pxA v" for k x
    using drop8_dimmed [OF that(1,2)] drop8_dimmed [OF assms(1), of "dimmed k x"]
      dimmed_le [OF assms(1), of "dimmed k x" "pxA v"] that by (simp_all add: mult.commute [of _ "m + 1"])
  have le: "pxR v \<le> pxA v" "pxG v \<le> pxA v" "pxB v \<le> pxA v" using assms(5) by (simp_all add: premul_def)
  show ?thesis
    using assms(1-4) le by (simp add: multiply_px_def chan drop8_dimmed px_is_byte premul_argb)
qed

text \<open>
  The double loop over the touched part stays inside the rows and keeps a buffer premultiplied when the
  new values are.
\<close>

definition touched_ok :: "renderer \<Rightarrow> jint \<Rightarrow> jint list \<Rightarrow> bool" where
  "touched_ok rdr h p \<longleftrightarrow> 0 \<le> h \<and> 0 \<le> r_maxTouched rdr - r_minTouched rdr + 1 \<and>
     r_maxTouched rdr - r_minTouched rdr + 1 \<le> r_alphaWidth rdr \<and>
     h * r_alphaWidth rdr \<le> int (length p) \<and> int (length p) < 2 ^ 31 \<and> r_alphaWidth rdr < 2 ^ 31"

lemma modulate_ok:
  assumes ok: "touched_ok rdr h p"
    and f: "\<And>k v. 0 \<le> k \<Longrightarrow> k < h * r_alphaWidth rdr \<Longrightarrow> Q v \<Longrightarrow> \<exists>v'. f k v = Some v' \<and> Q v'"
    and p: "\<And>i. i < length p \<Longrightarrow> int i < h * r_alphaWidth rdr \<Longrightarrow> Q (p ! i)"
  shows "\<exists>p'. modulate rdr h f p = Some p' \<and> length p' = length p \<and>
    (\<forall>i < length p. if int i < h * r_alphaWidth rdr then Q (p' ! i) else p' ! i = p ! i)"
proof -
  define w where "w = r_maxTouched rdr - r_minTouched rdr + 1"
  define aw where "aw = r_alphaWidth rdr"
  have b: "0 \<le> h" "0 \<le> w" "w \<le> aw" "h * aw \<le> int (length p)" "int (length p) < 2 ^ 31" "aw < 2 ^ 31"
    using ok by (simp_all add: touched_ok_def w_def aw_def)
  have w32: "i32 w = w" using b by (intro i32_small) auto
  define I where "I p' \<longleftrightarrow> length p' = length p \<and>
    (\<forall>i < length p. if int i < h * aw then Q (p' ! i) else p' ! i = p ! i)" for p'
  have I0: "I p" using assms(3) by (simp add: I_def aw_def)
  have step: "\<exists>t'. (rd t k \<bind> (\<lambda>v. f k v \<bind> wr t k)) = Some t' \<and> I t'"
    if t: "I t" "0 \<le> k" "k < h * aw" for t k
  proof -
    have l: "length t = length p" "nat k < length p" using t b by (auto simp: I_def)
    then have "Q (t ! nat k)" using t by (auto simp: I_def)
    then obtain v where v: "f k (t ! nat k) = Some v" "Q v" using f t unfolding aw_def by blast
    moreover have "I (t[nat k := v])" using t v l by (auto simp: I_def nth_list_update)
    ultimately show ?thesis using t l by simp
  qed
  have "\<exists>p'. for_loop h (\<lambda>i p. for_loop w (\<lambda>j p. rd p (i32 (i32 (i * aw) + j)) \<bind> (\<lambda>v. f (i32 (i32 (i * aw) + j)) v \<bind> wr p (i32 (i32 (i * aw) + j)))) p) p
      = Some p' \<and> I p'"
  proof (rule for_loop_inv [where P = "\<lambda>_. I"])
    fix i t assume i: "0 \<le> i" "i < h" "I t"
    show "\<exists>t'. for_loop w (\<lambda>j p. rd p (i32 (i32 (i * aw) + j)) \<bind> (\<lambda>v. f (i32 (i32 (i * aw) + j)) v \<bind> wr p (i32 (i32 (i * aw) + j)))) t = Some t' \<and> I t'"
    proof (rule for_loop_inv [where P = "\<lambda>_. I"])
      fix j t assume j: "0 \<le> j" "j < w" "I t"
      define r where "r = i * aw"
      have "0 \<le> r" "r + aw \<le> h * aw" using i b mult_right_mono [of "i + 1" h aw] by (simp_all add: r_def distrib_right)
      moreover from this have "i32 (i32 r + j) = r + j" using j b by (simp add: i32_small)
      ultimately show "\<exists>t'. (rd t (i32 (i32 (i * aw) + j)) \<bind> (\<lambda>v. f (i32 (i32 (i * aw) + j)) v \<bind> wr t (i32 (i32 (i * aw) + j)))) = Some t' \<and> I t'"
        using step [OF j(3), of "r + j"] j b by (simp add: r_def)
    qed (use i b in auto)
  qed (use b I0 in auto)
  then show ?thesis by (simp add: modulate_def Let_def w_def [symmetric] aw_def [symmetric] w32 I_def)
qed


section \<open>The generators\<close>

text \<open>A renderer with a texture, for the examples.\<close>

definition sample_texture_paint :: renderer where
  "sample_texture_paint = cleared_renderer\<lparr>
     r_texture := (r_texture cleared_renderer)\<lparr>tx_intData := [0, 0x01000000, 0x02000000, 0x03000000],
       tx_imageWidth := 2, tx_imageHeight := 2, tx_stride := 2, tx_hasAlpha := True, tx_interpolate := True,
       tx_repeat := True, tx_txMin := 0, tx_tyMin := 0, tx_txMax := 1, tx_tyMax := 1,
       tx_m00 := 65536, tx_m11 := 65536, tx_m02 := 32768, tx_transformType := TEXTURE_TRANSFORM_TRANSLATE\<rparr>,
     r_alphaWidth := 2, r_paint := [1, 2, 3, 4, 5], r_minTouched := 0, r_maxTouched := 1,
     r_prevPaintMode := PAINT_FLAT_COLOR, r_calpha := 128, r_cred := 1, r_cgreen := 2, r_cblue := 3\<rparr>"

lemma genTexturePaintTarget_filled:
  assumes "texture_ok (r_texture rdr)" "0 \<le> r_alphaWidth rdr" "0 \<le> h" "h * r_alphaWidth rdr \<le> int (length p)"
    "int (length p) < 2 ^ 31"
  shows "\<exists>p'. genTexturePaintTarget rdr p h = Some p' \<and> filled premul 0 (h * r_alphaWidth rdr) p p'"
  using tex.rows [OF assms, of "r_currY rdr"] unfolding genTexturePaintTarget_def by (metis (no_types, lifting) bind.bind_lunit prod.case)

text \<open>
  C32: for every transform, in all six modes (repeated or not; interpolated with and without alpha, or
  not at all), texture paint reads only texels of the image, fills exactly its \<open>h * w\<close> entries with
  premultiplied colours and changes nothing else.
\<close>

theorem genTexturePaint_ok:
  assumes "texture_ok (r_texture rdr)" "0 \<le> r_alphaWidth rdr" "0 \<le> h"
    "h * r_alphaWidth rdr \<le> int (length (r_paint rdr))" "int (length (r_paint rdr)) < 2 ^ 31"
  shows "\<exists>paint. genTexturePaint rdr h = Some (rdr\<lparr>r_paint := paint\<rparr>) \<and>
    filled premul 0 (h * r_alphaWidth rdr) (r_paint rdr) paint"
  using genTexturePaintTarget_filled [OF assms] by (auto simp: genTexturePaint_def)

theorem genTexturePaint_ok_witness:
  "\<exists>paint. genTexturePaint sample_texture_paint 2 = Some (sample_texture_paint\<lparr>r_paint := paint\<rparr>) \<and>
    filled premul 0 4 [1, 2, 3, 4, 5] paint"
proof -
  have "texture_ok (r_texture sample_texture_paint)"
    by (simp add: texture_ok_def sample_texture_paint_def premul_buf_def premul_eval)
  then show ?thesis using genTexturePaint_ok [of sample_texture_paint 2] by (simp add: sample_texture_paint_def)
qed

lemma filled_length: "filled Q l u xs ys \<Longrightarrow> length ys = length xs"
  by (simp add: filled_def)

lemma modulate_filled:
  assumes "touched_ok rdr h p" "filled premul 0 (h * r_alphaWidth rdr) p0 p"
    and "\<And>k v. 0 \<le> k \<Longrightarrow> k < h * r_alphaWidth rdr \<Longrightarrow> premul v \<Longrightarrow> \<exists>v'. f k v = Some v' \<and> premul v'"
  shows "\<exists>p'. modulate rdr h f p = Some p' \<and> filled premul 0 (h * r_alphaWidth rdr) p0 p'"
proof -
  have "\<exists>p'. modulate rdr h f p = Some p' \<and> length p' = length p \<and>
      (\<forall>i < length p. if int i < h * r_alphaWidth rdr then premul (p' ! i) else p' ! i = p ! i)"
    using assms by (intro modulate_ok) (auto simp: filled_def)
  then show ?thesis using assms(2) by (auto simp: filled_def)
qed

lemma touched_ok_upd [simp]: "touched_ok (rdr\<lparr>r_paint := q\<rparr>) h p = touched_ok rdr h p"
  by (simp add: touched_ok_def)

lemma modulate_upd [simp]: "modulate (rdr\<lparr>r_paint := q\<rparr>) = modulate rdr"
  by (intro ext) (simp add: modulate_def)

lemma i32_prod:
  assumes "touched_ok rdr h p"
  shows "i32 (r_alphaWidth rdr) = r_alphaWidth rdr" "i32 (r_alphaWidth rdr * h) = h * r_alphaWidth rdr"
proof -
  define n where "n = h * r_alphaWidth rdr"
  have "0 \<le> n" "n < 2 ^ 31" using assms by (simp_all add: touched_ok_def n_def)
  then have "i32 n = n" by (simp add: i32_small)
  then show "i32 (r_alphaWidth rdr * h) = h * r_alphaWidth rdr" by (simp add: n_def mult.commute)
  show "i32 (r_alphaWidth rdr) = r_alphaWidth rdr" using assms by (intro i32_small) (auto simp: touched_ok_def)
qed

lemma multiply_flat:
  assumes t: "texture_ok (r_texture rdr)" and ok: "touched_ok rdr h (r_paint rdr)"
    and flat: "r_prevPaintMode rdr = PAINT_FLAT_COLOR"
    and bytes: "is_byte (r_calpha rdr) \<and> is_byte (r_cred rdr) \<and> is_byte (r_cgreen rdr) \<and> is_byte (r_cblue rdr)"
  shows "\<exists>paint. genTexturePaintMultiply alloc rdr h = Some (rdr\<lparr>r_paint := paint\<rparr>) \<and>
    filled premul 0 (h * r_alphaWidth rdr) (r_paint rdr) paint"
proof -
  have w: "0 \<le> r_alphaWidth rdr" "0 \<le> h" "h * r_alphaWidth rdr \<le> int (length (r_paint rdr))"
    "int (length (r_paint rdr)) < 2 ^ 31" using ok by (simp_all add: touched_ok_def)
  obtain p where p: "genTexturePaintTarget rdr (r_paint rdr) h = Some p" "filled premul 0 (h * r_alphaWidth rdr) (r_paint rdr) p"
    using genTexturePaintTarget_filled [OF t w] by blast
  have ok': "touched_ok rdr h p" using ok filled_length [OF p(2)] by (simp add: touched_ok_def)
  have c: "i32 (r_calpha rdr + 1) = r_calpha rdr + 1" using bytes by (intro i32_small) auto
  obtain p1 where "modulate rdr h (\<lambda>k v. Some (multiply_white_px (r_calpha rdr + 1) v)) p = Some p1"
      "filled premul 0 (h * r_alphaWidth rdr) (r_paint rdr) p1"
    using modulate_filled [OF ok' p(2), of "\<lambda>k v. Some (multiply_white_px (r_calpha rdr + 1) v)"]
      premul_multiply_white_px [of "r_calpha rdr"] bytes by auto
  moreover obtain p2 where "modulate rdr h (\<lambda>k v. Some (multiply_px (r_calpha rdr + 1) (r_cred rdr) (r_cgreen rdr) (r_cblue rdr) v)) p = Some p2"
      "filled premul 0 (h * r_alphaWidth rdr) (r_paint rdr) p2"
    using modulate_filled [OF ok' p(2), of "\<lambda>k v. Some (multiply_px (r_calpha rdr + 1) (r_cred rdr) (r_cgreen rdr) (r_cblue rdr) v)"]
      premul_multiply_px [of "r_calpha rdr" "r_cred rdr" "r_cgreen rdr" "r_cblue rdr"] bytes by auto
  ultimately show ?thesis using flat p c by (auto simp: genTexturePaintMultiply_def Let_def)
qed

lemma multiply_gradient:
  assumes t: "texture_ok (r_texture rdr)" and ok: "touched_ok rdr h (r_paint rdr)"
    and mode: "r_prevPaintMode rdr = PAINT_LINEAR_GRADIENT \<or> r_prevPaintMode rdr = PAINT_RADIAL_GRADIENT"
    and g: "gradient_ok rdr \<and> alloc \<and> r_maxTouched rdr - r_minTouched rdr + 1 = r_alphaWidth rdr \<and>
      premul_buf (r_gradient_colors rdr)"
  shows "\<exists>paint. genTexturePaintMultiply alloc rdr h = Some (rdr\<lparr>r_paint := paint\<rparr>) \<and>
    filled premul 0 (h * r_alphaWidth rdr) (r_paint rdr) paint"
proof -
  have w: "0 \<le> r_alphaWidth rdr" "0 \<le> h" "h * r_alphaWidth rdr \<le> int (length (r_paint rdr))"
    "int (length (r_paint rdr)) < 2 ^ 31" using ok by (simp_all add: touched_ok_def)
  let ?gen = "if r_prevPaintMode rdr = PAINT_LINEAR_GRADIENT then genLinearGradientPaint rdr h else genRadialGradientPaint rdr h"
  let ?in = "\<lambda>c. c \<in> set (r_gradient_colors rdr)"
  have "\<exists>p. ?gen = Some (rdr\<lparr>r_paint := p\<rparr>) \<and> filled ?in 0 (h * r_alphaWidth rdr) (r_paint rdr) p"
    using linear.rows [of rdr h "r_paint rdr" "r_currY rdr"] radial.rows [of rdr h "r_paint rdr" "r_currY rdr"] g w
    by (auto simp: genLinearGradientPaint_def genRadialGradientPaint_def)
  then obtain p where gen: "?gen = Some (rdr\<lparr>r_paint := p\<rparr>)" and p: "filled ?in 0 (h * r_alphaWidth rdr) (r_paint rdr) p"
    by blast
  have len: "length p = length (r_paint rdr)" by (rule filled_length [OF p])
  define n where "n = nat (h * r_alphaWidth rdr)"
  have n: "int n = h * r_alphaWidth rdr" using w by (simp add: n_def)
  have nn: "nat (i32 (i32 (r_maxTouched rdr - r_minTouched rdr + 1) * h)) = n"
    using g i32_prod [OF ok] by (simp add: n_def)
  obtain q where q: "genTexturePaintTarget (rdr\<lparr>r_paint := p\<rparr>) (replicate n 0) h = Some q"
      "filled premul 0 (h * r_alphaWidth rdr) (replicate n 0) q"
    using genTexturePaintTarget_filled [of "rdr\<lparr>r_paint := p\<rparr>" h "replicate n 0"] t w n by auto
  have qv: "\<exists>v. rd q k = Some v \<and> premul v" if "0 \<le> k" "k < h * r_alphaWidth rdr" for k
    using q(2) that n by (auto simp: filled_def rd_def)
  have ok': "touched_ok rdr h p" using ok len by (simp add: touched_ok_def)
  have "filled premul 0 (h * r_alphaWidth rdr) (r_paint rdr) p"
    using p g by (auto simp: filled_def premul_buf_def)
  then obtain p' where p': "modulate rdr h (\<lambda>k pval. rd q k \<bind>
        (\<lambda>tval. Some (multiply_px (pxA pval + 1) (pxR pval) (pxG pval) (pxB pval) tval))) p = Some p'"
      "filled premul 0 (h * r_alphaWidth rdr) (r_paint rdr) p'"
    using modulate_filled [OF ok', of "r_paint rdr" "\<lambda>k pval. rd q k \<bind>
        (\<lambda>tval. Some (multiply_px (pxA pval + 1) (pxR pval) (pxG pval) (pxB pval) tval))"] qv premul_multiply_px px_is_byte
    by fastforce
  show ?thesis using mode g gen q p' nn by (auto simp: genTexturePaintMultiply_def Let_def)
qed

text \<open>
  Modulating a texture by the current colour or by a gradient keeps the paint premultiplied: for a
  flat colour always, for a gradient when the temporary image could be allocated and the touched width
  is the width of a paint row.
\<close>

theorem genTexturePaintMultiply_ok:
  assumes t: "texture_ok (r_texture rdr)" and ok: "touched_ok rdr h (r_paint rdr)"
    and flat: "r_prevPaintMode rdr = PAINT_FLAT_COLOR \<Longrightarrow>
      is_byte (r_calpha rdr) \<and> is_byte (r_cred rdr) \<and> is_byte (r_cgreen rdr) \<and> is_byte (r_cblue rdr)"
    and gradient: "r_prevPaintMode rdr \<noteq> PAINT_FLAT_COLOR \<Longrightarrow>
      gradient_ok rdr \<and> alloc \<and> r_maxTouched rdr - r_minTouched rdr + 1 = r_alphaWidth rdr \<and>
      premul_buf (r_gradient_colors rdr)"
    and mode: "r_prevPaintMode rdr \<in> {PAINT_FLAT_COLOR, PAINT_LINEAR_GRADIENT, PAINT_RADIAL_GRADIENT}"
  shows "\<exists>paint. genTexturePaintMultiply alloc rdr h = Some (rdr\<lparr>r_paint := paint\<rparr>) \<and>
    filled premul 0 (h * r_alphaWidth rdr) (r_paint rdr) paint"
  using multiply_flat [OF t ok _ flat] multiply_gradient [OF t ok _ gradient] mode by auto

theorem genTexturePaintMultiply_ok_witness:
  "\<exists>paint. genTexturePaintMultiply False sample_texture_paint 2 = Some (sample_texture_paint\<lparr>r_paint := paint\<rparr>) \<and>
    filled premul 0 4 [1, 2, 3, 4, 5] paint"
proof -
  have "texture_ok (r_texture sample_texture_paint)"
    by (simp add: texture_ok_def sample_texture_paint_def premul_buf_def premul_eval)
  then show ?thesis using genTexturePaintMultiply_ok [of sample_texture_paint 2 False]
    by (simp add: sample_texture_paint_def touched_ok_def)
qed

text \<open>
  C34: the period of a repeated texture is computed in 32 bits, so an image that is 65536 pixels wide
  (or high) has period zero: the first column outside the image divides by zero.
\<close>

theorem checkBoundsRepeat_zero_period:
  "a < mn \<or> 65535 < a \<Longrightarrow> checkBoundsRepeat (a, la) mn 65535 = None"
  by (auto simp: checkBoundsRepeat_def lmod_def c_mod_def push_bit_eq_mult i32_mod)

theorem checkBoundsRepeat_zero_period_witness:
  "checkBoundsRepeat (65536, 65536 * 65536) (- 1) 65535 = None"
  by (rule checkBoundsRepeat_zero_period) simp



section \<open>Textures that are only translated\<close>

lemma translated_coordinate:
  fixes x m :: int
  assumes "- 32768 \<le> x" "x < 32768" "- (2 ^ 45) \<le> m" "m \<le> 2 ^ 45"
  shows "i32 (drop_bit 16 (i64 (i32 (push_bit 16 x) + m))) = x + m div 65536"
proof -
  have "i32 (push_bit 16 x) = x * 65536" using assms by (simp add: push_bit_eq_mult i32_small)
  moreover have "i64 (x * 65536 + m) = x * 65536 + m" using assms by (intro i64_small) auto
  moreover have "(x * 65536 + m) div 65536 = x + m div 65536" by simp
  moreover have "- (2 ^ 45) div 65536 \<le> m div 65536" "m div 65536 \<le> 2 ^ 45 div 65536"
    using assms by (auto intro!: zdiv_mono1)
  ultimately show ?thesis using assms by (simp add: drop_bit_eq_div i32_small)
qed

definition translated_texel :: "texture \<Rightarrow> int \<Rightarrow> int \<Rightarrow> jint" where
  "translated_texel t x y =
     nearest_texel t (x + tx_m02 t div 65536) (max 0 (clamp (tx_tyMin t - 1) (tx_tyMax t) (y + tx_m12 t div 65536)))"

lemma translate_row_nearest:
  assumes t: "texture_ok (r_texture rdr)" "\<not> tx_interpolate (r_texture rdr)" "\<not> tx_repeat (r_texture rdr)"
    and c: "- 32768 \<le> r_currX rdr" "r_currX rdr < 32768" "- 32768 \<le> y" "y < 32768"
    and m: "\<bar>tx_m02 (r_texture rdr)\<bar> \<le> 2 ^ 45" "\<bar>tx_m12 (r_texture rdr)\<bar> \<le> 2 ^ 45"
    and b: "0 \<le> r_alphaWidth rdr" "0 \<le> off" "off + r_alphaWidth rdr \<le> int (length p)" "int (length p) < 2 ^ 31"
  shows "translate_row rdr y off p =
    Some (paint_span (\<lambda>k _. translated_texel (r_texture rdr) (r_currX rdr + k) y) off (r_alphaWidth rdr) p)"
proof -
  let ?t = "r_texture rdr"
  define ty where "ty = clamp (tx_tyMin ?t - 1) (tx_tyMax ?t) (y + tx_m12 ?t div 65536)"
  have "i32 (tx_tyMin ?t - 1) = tx_tyMin ?t - 1"
    using t(1) texture_dims(4) [OF t(1)] by (intro i32_small) (auto simp: texture_ok_def)
  then have y: "boundsY ?t False (y + tx_m12 ?t div 65536, lty) = Some (ty, lty)" for lty
    by (simp add: boundsY_def checkBoundsNoRepeat_def ty_def clamp_def)
  have row: "row_ok ?t ty" using t(1) by (auto simp: row_ok_def ty_def clamp_def texture_ok_def)
  have e: "i32 (drop_bit 16 (i64 (i32 (push_bit 16 y) + tx_m12 ?t))) = y + tx_m12 ?t div 65536"
    "i32 (drop_bit 16 (i64 (i32 (push_bit 16 (r_currX rdr)) + tx_m02 ?t))) = r_currX rdr + tx_m02 ?t div 65536"
    using c m by (intro translated_coordinate; simp)+
  have "translate_row rdr y off p = translate_copy_row ?t ty (i64 (i32 (push_bit 16 (r_currX rdr)) + tx_m02 ?t)) off (off + r_alphaWidth rdr) p"
    using t(2,3) by (simp add: translate_row_def Let_def e y)
  also have "\<dots> = Some (paint_span (\<lambda>k _. nearest_texel ?t (r_currX rdr + tx_m02 ?t div 65536 + k) (max 0 ty)) off (r_alphaWidth rdr) p)"
    using translate_copy_row_eq [OF t(1) row b(2) _ b(3,4), of "i64 (i32 (push_bit 16 (r_currX rdr)) + tx_m02 ?t)"] b(1)
    by (simp add: e)
  finally show ?thesis by (simp add: translated_texel_def ty_def add.assoc add.commute add.left_commute)
qed

text \<open>
  C33: for a texture that is neither repeated nor interpolated, the optimised copy (left border, block
  copy, right border) of every row computes the reference picture: each pixel is the texel at the
  translated position, moved to the nearest column of the window when it lies outside.
\<close>

theorem genTexturePaint_translate_eq:
  assumes t: "texture_ok (r_texture rdr)" "\<not> tx_interpolate (r_texture rdr)" "\<not> tx_repeat (r_texture rdr)"
    and kind: "tx_transformType (r_texture rdr) \<in> {TEXTURE_TRANSFORM_IDENTITY, TEXTURE_TRANSFORM_TRANSLATE}"
    and c: "- 32768 \<le> r_currX rdr" "r_currX rdr < 32768" "- 32768 \<le> r_currY rdr" "r_currY rdr + h \<le> 32768"
    and m: "\<bar>tx_m02 (r_texture rdr)\<bar> \<le> 2 ^ 45" "\<bar>tx_m12 (r_texture rdr)\<bar> \<le> 2 ^ 45"
    and b: "0 \<le> r_alphaWidth rdr" "0 \<le> h" "h * r_alphaWidth rdr \<le> int (length (r_paint rdr))"
      "int (length (r_paint rdr)) < 2 ^ 31"
  shows "genTexturePaint rdr h = Some (rdr\<lparr>r_paint :=
    paint_rows (\<lambda>j k _. translated_texel (r_texture rdr) (r_currX rdr + k) (r_currY rdr + j))
      0 (r_alphaWidth rdr) (r_alphaWidth rdr) (nat h) (r_paint rdr)\<rparr>)"
proof -
  let ?w = "r_alphaWidth rdr" and ?t = "r_texture rdr"
  have row: "texture_row rdr = translate_row rdr" using kind by (auto simp: texture_row_def Let_def)
  have "for_loop h (\<lambda>j (paint, y, paintOffset). do {
       paint \<leftarrow> texture_row rdr y paintOffset paint;
       Some (paint, i32 (y + 1), i32 (paintOffset + ?w))
     }) (r_paint rdr, r_currY rdr, 0) =
    Some (paint_rows (\<lambda>j k _. translated_texel ?t (r_currX rdr + k) (r_currY rdr + j)) 0 ?w ?w (nat h) (r_paint rdr),
      r_currY rdr + h, h * ?w)"
    using b(2)
  proof (rule for_loop_rows [where aux = "\<lambda>j. (r_currY rdr + j, j * ?w)"], goal_cases)
    case (2 j d)
    have q: "0 \<le> j * ?w" "j * ?w + ?w \<le> h * ?w"
      using 2 b(1) mult_right_mono [of "j + 1" h ?w] by (simp_all add: distrib_right)
    have len: "j * ?w + ?w \<le> int (length d)" "int (length d) < 2 ^ 31" using q(2) b(3,4) 2(3) by simp_all
    have "translate_row rdr (r_currY rdr + j) (j * ?w) d =
        Some (paint_span (\<lambda>k _. translated_texel ?t (r_currX rdr + k) (r_currY rdr + j)) (j * ?w) ?w d)"
      using 2 c q by (intro translate_row_nearest t m b(1) len) auto
    moreover have "i32 (r_currY rdr + j + 1) = r_currY rdr + j + 1" using 2 c by (intro i32_small) auto
    moreover have "i32 (j * ?w + ?w) = j * ?w + ?w" using q(1) len b(1) by (intro i32_small) auto
    ultimately show ?case by (simp add: row distrib_right add.assoc)
  qed simp
  then show ?thesis by (simp add: genTexturePaint_def genTexturePaintTarget_def)
qed

theorem genTexturePaint_translate_eq_witness:
  "(let rdr = sample_texture_paint\<lparr>r_texture := (r_texture sample_texture_paint)\<lparr>tx_repeat := False, tx_interpolate := False\<rparr>\<rparr>
    in genTexturePaint rdr 2 = Some (rdr\<lparr>r_paint := [0, 0x01000000, 0x02000000, 0x03000000, 5]\<rparr>))"
proof -
  let ?rdr = "sample_texture_paint\<lparr>r_texture := (r_texture sample_texture_paint)\<lparr>tx_repeat := False, tx_interpolate := False\<rparr>\<rparr>"
  have "texture_ok (r_texture ?rdr)"
    by (simp add: texture_ok_def sample_texture_paint_def premul_buf_def premul_eval)
  moreover have "paint_rows (\<lambda>j k _. translated_texel (r_texture ?rdr) (r_currX ?rdr + k) (r_currY ?rdr + j)) 0 2 2 (nat 2) [1, 2, 3, 4, 5] =
      [0, 0x01000000, 0x02000000, 0x03000000, 5]"
    by code_simp
  ultimately show ?thesis using genTexturePaint_translate_eq [of ?rdr 2]
    by (simp add: sample_texture_paint_def cleared_renderer_def Let_def cleared_texture_def)
qed

end
