(* ===== verification/Pisces_Fill_Correct.thy ===== *)
theory Pisces_Fill_Correct
  imports Pisces_JNI Pisces_Line_Correct Pisces_Texture_Correct
begin

text \<open>
  Filling a rectangle, from the call in Java to the pixels: \<^verbatim>\<open>fillRect\<close> of \<^verbatim>\<open>JPiscesRenderer.c\<close> with the
  validation of the renderer, the generators of the paints and the line emitters below it.

  The locale \<open>line_drawer\<close> states what the loop over the lines needs of a way to draw some lines; it is
  interpreted for flat colours and for paints. Its conclusion, on the whole call, is used for both.
\<close>

section \<open>Rectangles of a surface\<close>

text \<open>
  \<open>rect_drawn sw x n y h R old new\<close>: in a picture of width \<open>sw\<close>, the pixels of the rectangle at \<open>(x, y)\<close>
  with \<open>n\<close> columns and \<open>h\<close> rows are related by \<open>R row column\<close> (the column counted from \<open>x\<close>), every other pixel
  is unchanged.
\<close>

definition rect_drawn ::
    "int \<Rightarrow> int \<Rightarrow> int \<Rightarrow> int \<Rightarrow> int \<Rightarrow> (int \<Rightarrow> int \<Rightarrow> jint \<Rightarrow> jint \<Rightarrow> bool) \<Rightarrow> jint list \<Rightarrow> jint list \<Rightarrow> bool" where
  "rect_drawn sw x n y h R old new \<longleftrightarrow> length new = length old \<and>
     (\<forall>i < length old.
        (let row = int i div sw; col = int i mod sw
         in if y \<le> row \<and> row < y + h \<and> x \<le> col \<and> col < x + n then R row (col - x) (old ! i) (new ! i)
            else new ! i = old ! i))"

lemma rect_drawn_empty: "h \<le> 0 \<or> n \<le> 0 \<Longrightarrow> rect_drawn sw x n y h R xs xs"
  by (auto simp: rect_drawn_def Let_def)

lemma rect_drawn_append:
  assumes "rect_drawn sw x n y h R xs ys" "rect_drawn sw x n (y + h) h' R ys zs" "0 \<le> h" "0 \<le> h'"
  shows "rect_drawn sw x n y (h + h') R xs zs"
  unfolding rect_drawn_def
proof (intro conjI allI impI)
  show "length zs = length xs" using assms by (simp add: rect_drawn_def)
  fix i assume i: "i < length xs"
  let ?r = "int i div sw" and ?c = "int i mod sw"
  have 1: "if y \<le> ?r \<and> ?r < y + h \<and> x \<le> ?c \<and> ?c < x + n then R ?r (?c - x) (xs ! i) (ys ! i) else ys ! i = xs ! i"
    and 2: "if y + h \<le> ?r \<and> ?r < y + h + h' \<and> x \<le> ?c \<and> ?c < x + n then R ?r (?c - x) (ys ! i) (zs ! i) else zs ! i = ys ! i"
    using assms(1,2) i unfolding rect_drawn_def Let_def by metis+
  show "let row = ?r; col = ?c in if y \<le> row \<and> row < y + (h + h') \<and> x \<le> col \<and> col < x + n
      then R row (col - x) (xs ! i) (zs ! i) else zs ! i = xs ! i"
    using 1 2 assms(3,4) by (cases "?r < y + h") (auto simp: Let_def split: if_splits)
qed

lemma rect_drawn_mono:
  assumes "rect_drawn sw x n y h R xs ys"
    and "\<And>r k a b. y \<le> r \<Longrightarrow> r < y + h \<Longrightarrow> 0 \<le> k \<Longrightarrow> k < n \<Longrightarrow> R r k a b \<Longrightarrow> Q r k a b"
  shows "rect_drawn sw x n y h Q xs ys"
  using assms by (auto simp: rect_drawn_def Let_def split: if_splits)

text \<open>The spans of the emitters, addressed by offset, are such rectangles.\<close>

lemma pixel_of_span:
  fixes sw x n y i :: int
  assumes "0 < sw" "0 \<le> x" "x + n \<le> sw" "0 \<le> n"
  defines "p \<equiv> i - (y * sw + x)"
  shows "(0 \<le> p \<and> p div sw < h \<and> p mod sw < n) \<longleftrightarrow> (y \<le> i div sw \<and> i div sw < y + h \<and> x \<le> i mod sw \<and> i mod sw < x + n)"
    and "y \<le> i div sw \<Longrightarrow> x \<le> i mod sw \<Longrightarrow> p div sw = i div sw - y \<and> p mod sw = i mod sw - x"
proof -
  define r c where "r = i div sw" and "c = i mod sw"
  have i: "i = r * sw + c" "0 \<le> c" "c < sw" using assms(1) by (simp_all add: r_def c_def)
  have inside: "p div sw = r - y" "p mod sw = c - x" if "x \<le> c"
    using row_index [of sw sw "y * sw + x" "r - y" i] that assms(1,2) i by (simp_all add: p_def algebra_simps)
  have outside: "p mod sw = c - x + sw" if "c < x"
    using row_index(2) [of sw sw "y * sw + x" "r - y - 1" i] that assms(1-4) i by (simp add: p_def algebra_simps)
  show "y \<le> i div sw \<Longrightarrow> x \<le> i mod sw \<Longrightarrow> p div sw = i div sw - y \<and> p mod sw = i mod sw - x"
    using inside by (simp add: r_def c_def)
  show "(0 \<le> p \<and> p div sw < h \<and> p mod sw < n) \<longleftrightarrow> (y \<le> i div sw \<and> i div sw < y + h \<and> x \<le> i mod sw \<and> i mod sw < x + n)"
  proof (cases "x \<le> c")
    case True
    have "0 \<le> p \<longleftrightarrow> 0 \<le> p div sw" using assms(1) by (simp only: pos_imp_zdiv_nonneg_iff)
    then show ?thesis using inside [OF True] True by (auto simp: r_def [symmetric] c_def [symmetric])
  next
    case False
    then have "\<not> p mod sw < n" using outside assms(3) i(2) by linarith
    then show ?thesis using False by (auto simp: c_def)
  qed
qed

lemma rect_of_rows:
  assumes "rows_drawn rdr h f rdr'" "r_imageScanlineStride rdr = sw" "r_minTouched rdr = x" "r_currImageOffset rdr = y * sw"
    and "0 < sw" "0 \<le> x" "x + span_width rdr \<le> sw"
  shows "rect_drawn sw x (span_width rdr) y h (\<lambda>r k a b. b = f (r - y) k a) (r_data rdr) (r_data rdr')"
  unfolding rect_drawn_def
proof (intro conjI allI impI)
  show "length (r_data rdr') = length (r_data rdr)" using assms(1) by (simp add: rows_drawn_def)
  fix i assume i: "i < length (r_data rdr)"
  let ?p = "int i - (y * sw + x)"
  have "r_data rdr' ! i = (if 0 \<le> ?p \<and> ?p div sw < h \<and> ?p mod sw < span_width rdr then f (?p div sw) (?p mod sw) (r_data rdr ! i)
      else r_data rdr ! i)"
    using assms(1-4) i by (simp add: rows_drawn_def Let_def span_start_def)
  note eq = this
  have n: "0 \<le> span_width rdr" by (simp add: span_width_def)
  note px = pixel_of_span [OF assms(5-7) n]
  show "let row = int i div sw; col = int i mod sw
      in if y \<le> row \<and> row < y + h \<and> x \<le> col \<and> col < x + span_width rdr
         then r_data rdr' ! i = f (row - y) (col - x) (r_data rdr ! i) else r_data rdr' ! i = r_data rdr ! i"
    unfolding Let_def px(1) [of "int i" y h, symmetric]
    using eq px(1) [of "int i" y h] px(2) [of y "int i"] by presburger
qed


section \<open>Lines of a rectangle\<close>

text \<open>
  The renderer is set up for the columns \<open>x0\<close> to \<open>x1\<close> of a surface with rows of \<open>sw\<close> pixels, of which the
  buffer holds \<open>H\<close>, and stands at row \<open>y\<close>.
\<close>

definition buffer_ok :: "jint list \<Rightarrow> bool" where
  "buffer_ok p \<longleftrightarrow> premul_buf p \<and> int (length p) < 2 ^ 31"

definition at_row :: "int \<Rightarrow> int \<Rightarrow> int \<Rightarrow> int \<Rightarrow> int \<Rightarrow> renderer \<Rightarrow> bool" where
  "at_row sw x0 x1 H y rdr \<longleftrightarrow> 0 \<le> x0 \<and> x0 \<le> x1 \<and> x1 < sw \<and> 0 \<le> y \<and> H * sw \<le> int (length (r_data rdr)) \<and>
     int (length (r_data rdr)) < 2 ^ 31 \<and> r_minTouched rdr = x0 \<and> r_maxTouched rdr = x1 \<and>
     r_alphaWidth rdr = x1 - x0 + 1 \<and> r_imageScanlineStride rdr = sw \<and> r_imagePixelStride rdr = 1 \<and>
     r_currY rdr = y \<and> r_currImageOffset rdr = y * sw \<and> premul_buf (r_data rdr) \<and>
     0 \<le> r_el_lfrac rdr \<and> r_el_lfrac rdr < 65536 \<and> 0 \<le> r_el_rfrac rdr \<and> r_el_rfrac rdr < 65536 \<and>
     of_bool (r_el_lfrac rdr \<noteq> 0) + of_bool (r_el_rfrac rdr \<noteq> 0) \<le> x1 - x0 + 1 \<and> buffer_ok (r_paint rdr)"

lemma at_row_width: "at_row sw x0 x1 H y rdr \<Longrightarrow> span_width rdr = x1 - x0 + 1"
  by (simp add: at_row_def span_width_def)

lemma at_row_line:
  assumes "at_row sw x0 x1 H y rdr" "0 < rows" "y + rows \<le> H" "0 \<le> frac" "frac \<le> 65536"
  shows "line_ok rdr rows (r_el_lfrac rdr \<noteq> 0) (r_el_rfrac rdr \<noteq> 0)" "rows_apart rdr" "fracs_ok rdr frac"
    and "rows * (x1 - x0 + 1) < 2 ^ 31" "0 < rows * (x1 - x0 + 1)" "y * sw < 2 ^ 31"
proof -
  note a = assms(1) [unfolded at_row_def]
  define s where "s = (y + (rows - 1)) * sw"
  have sw: "0 < sw" using a by linarith
  have "(y + rows) * sw \<le> H * sw" using assms(3) sw by (intro mult_right_mono) auto
  then have s: "s + sw \<le> int (length (r_data rdr))" using a by (simp add: s_def algebra_simps)
  have ys: "0 \<le> y * sw" "y * sw \<le> s" "y * sw + (rows - 1) * sw = s"
    using a sw assms(2) by (auto simp: s_def distrib_right)
  then show "y * sw < 2 ^ 31" using s sw a by linarith
  show "line_ok rdr rows (r_el_lfrac rdr \<noteq> 0) (r_el_rfrac rdr \<noteq> 0)"
  proof -
    define Y where "Y = y * sw"
    define T where "T = (rows - 1) * sw"
    have f: "r_currImageOffset rdr = Y" "0 \<le> Y" "Y + T = s" "0 \<le> T" "(rows - 1) * r_imageScanlineStride rdr = T"
      using a ys sw assms(2) by (simp_all add: Y_def T_def)
    then have "is_jint Y" "sw < 2 ^ 31" "Y + x0 + T + (x1 - x0 + 1) \<le> int (length (r_data rdr))"
      using s a sw unfolding is_jint_def by linarith+
    moreover from this(2) have "is_jint x0" "is_jint x1" using a unfolding is_jint_def by linarith+
    ultimately show ?thesis
      unfolding line_ok_def rows_ok_def at_row_width [OF assms(1)] span_start_def f(1,5) using a f(2) sw assms(2) by simp
  qed
  show "rows_apart rdr" using a by (simp add: rows_apart_def at_row_width [OF assms(1)])
  show "fracs_ok rdr frac" using a assms by (simp add: fracs_ok_def)
  have "rows * (x1 - x0 + 1) \<le> rows * sw" using a assms(2) by (intro mult_left_mono) auto
  also have "\<dots> \<le> s + sw" using a sw by (simp add: s_def distrib_right left_diff_distrib)
  finally show "rows * (x1 - x0 + 1) < 2 ^ 31" using s a by linarith
  show "0 < rows * (x1 - x0 + 1)" using a assms(2) by simp
qed

text \<open>The share of row \<open>y\<close> that the rectangle covers, for fractions \<open>tf\<close> of its top row and \<open>bf\<close> of its bottom row.\<close>

definition row_frac :: "int \<Rightarrow> int \<Rightarrow> int \<Rightarrow> int \<Rightarrow> int \<Rightarrow> int" where
  "row_frac y0 y1 tf bf y = (if tf \<noteq> 0 \<and> y = y0 then tf else if bf \<noteq> 0 \<and> y = y1 then bf else 65536)"

text \<open>Drawing changes pixels, the paint buffer and the position, nothing else.\<close>

definition moved :: "renderer \<Rightarrow> renderer \<Rightarrow> bool" where
  "moved r r' \<longleftrightarrow> r' = r\<lparr>r_data := r_data r', r_paint := r_paint r', r_currX := r_currX r', r_currY := r_currY r',
     r_currImageOffset := r_currImageOffset r', r_rowNum := r_rowNum r'\<rparr>"

lemma moved_refl [simp]: "moved r r"
  by (simp add: moved_def)

lemma moved_trans:
  assumes "moved a b" "moved b c"
  shows "moved a c"
proof -
  have "c = b\<lparr>r_data := r_data c, r_paint := r_paint c, r_currX := r_currX c, r_currY := r_currY c,
      r_currImageOffset := r_currImageOffset c, r_rowNum := r_rowNum c\<rparr>"
    using assms(2) by (simp add: moved_def)
  also have "\<dots> = a\<lparr>r_data := r_data c, r_paint := r_paint c, r_currX := r_currX c, r_currY := r_currY c,
      r_currImageOffset := r_currImageOffset c, r_rowNum := r_rowNum c\<rparr>"
    by (subst assms(1) [unfolded moved_def]) simp
  finally show ?thesis unfolding moved_def .
qed

lemma moved_coherent: "moved r r' \<Longrightarrow> coherent r \<Longrightarrow> coherent r'"
  by (subst (asm) moved_def, erule ssubst)
     (simp add: coherent_def Let_def modes_ok_def colour_stage_def mask_stage_def composite_stage_def paint_stage_def)

lemma moved_clip:
  assumes "moved r r'"
  shows "r_clip_bbMinX r' = r_clip_bbMinX r" "r_clip_bbMaxX r' = r_clip_bbMaxX r"
    "r_clip_bbMinY r' = r_clip_bbMinY r" "r_clip_bbMaxY r' = r_clip_bbMaxY r"
  by (subst assms [unfolded moved_def], simp)+

text \<open>
  What drawing some rows must do: it leaves the renderer ready for the next rows, changes only pixels and
  the paint buffer, and relates old and new pixels of these rows by \<open>R\<close>.
\<close>

locale line_drawer =
  fixes env :: jni_env
    and ready :: "renderer \<Rightarrow> bool"
    and R :: "renderer \<Rightarrow> int \<Rightarrow> int \<Rightarrow> jint \<Rightarrow> jint \<Rightarrow> bool"
  assumes draw: "ready rdr \<Longrightarrow> at_row sw x0 x1 H y rdr \<Longrightarrow> 0 < rows \<Longrightarrow> y + rows \<le> H \<Longrightarrow> 0 \<le> frac \<Longrightarrow> frac \<le> 65536 \<Longrightarrow>
      \<exists>d p. draw_line env (x1 - x0 + 1) rows frac rdr = Some (rdr\<lparr>r_data := d, r_paint := p\<rparr>) \<and>
        ready (rdr\<lparr>r_data := d, r_paint := p\<rparr>) \<and> premul_buf d \<and> buffer_ok p \<and>
        rect_drawn sw x0 (x1 - x0 + 1) y rows (\<lambda>_. R rdr frac) (r_data rdr) d"
    and ready_move: "ready rdr \<Longrightarrow> ready (rdr\<lparr>r_currX := a, r_currY := b, r_currImageOffset := c, r_rowNum := n\<rparr>)"
    and R_upd: "R (rdr\<lparr>r_data := d, r_paint := p\<rparr>) = R rdr"
    and R_move: "R (rdr\<lparr>r_currX := a, r_currY := b, r_currImageOffset := c, r_rowNum := n\<rparr>) = R rdr"
begin

lemma draw_next:
  assumes "ready rdr" "at_row sw x0 x1 H y rdr" "0 < rows" "y + rows \<le> H" "0 \<le> frac" "frac \<le> 65536"
    and "(y + rows) * sw < 2 ^ 31" "y + rows < 2 ^ 31"
  shows "\<exists>rdr'. draw_line env (x1 - x0 + 1) rows frac rdr = Some rdr' \<and> ready (next_rows sw x0 rows rdr') \<and>
    at_row sw x0 x1 H (y + rows) (next_rows sw x0 rows rdr') \<and> R (next_rows sw x0 rows rdr') = R rdr \<and> moved rdr (next_rows sw x0 rows rdr') \<and>
    rect_drawn sw x0 (x1 - x0 + 1) y rows (\<lambda>_. R rdr frac) (r_data rdr) (r_data (next_rows sw x0 rows rdr'))"
proof -
  obtain d p where d: "draw_line env (x1 - x0 + 1) rows frac rdr = Some (rdr\<lparr>r_data := d, r_paint := p\<rparr>)"
      "ready (rdr\<lparr>r_data := d, r_paint := p\<rparr>)" "premul_buf d \<and> buffer_ok p"
      "rect_drawn sw x0 (x1 - x0 + 1) y rows (\<lambda>_. R rdr frac) (r_data rdr) d"
    using draw [OF assms(1-6)] by blast
  have len: "length d = length (r_data rdr)" using d(4) by (simp add: rect_drawn_def)
  have a: "0 \<le> y" "0 < sw" using assms(2) by (auto simp: at_row_def)
  have i: "i32 (y + rows) = y + rows" using a assms(3,8) by (intro i32_small) auto
  have i2: "i32 ((y + rows) * sw) = (y + rows) * sw"
  proof -
    define q where "q = (y + rows) * sw"
    have "0 \<le> q" "q < 2 ^ 31" using a assms(3,7) by (simp_all add: q_def)
    then show ?thesis unfolding q_def [symmetric] by (intro i32_small) auto
  qed
  have n: "next_rows sw x0 rows (rdr\<lparr>r_data := d, r_paint := p\<rparr>) =
      rdr\<lparr>r_data := d, r_paint := p\<rparr>\<lparr>r_currX := x0, r_currY := y + rows, r_currImageOffset := (y + rows) * sw,
        r_rowNum := i32 (r_rowNum rdr + rows)\<rparr>"
    using assms(2) i i2 by (simp add: next_rows_def at_row_def Let_def)
  have "at_row sw x0 x1 H (y + rows) (next_rows sw x0 rows (rdr\<lparr>r_data := d, r_paint := p\<rparr>))"
    using assms(2,3) d(3) len unfolding n by (auto simp: at_row_def)
  moreover have "moved rdr (next_rows sw x0 rows (rdr\<lparr>r_data := d, r_paint := p\<rparr>))" by (simp add: n moved_def)
  ultimately show ?thesis using d ready_move [OF d(2)] R_move R_upd by (auto simp: n)
qed

lemma full_lines_ok:
  assumes "ready rdr" "at_row sw x0 x1 H y rdr" "0 \<le> rows" "y + rows \<le> H" "H * sw < 2 ^ 31" "H < 2 ^ 31"
  shows "\<exists>rdr'. full_lines env sw x0 (x1 - x0 + 1) rows rdr = Some rdr' \<and> ready rdr' \<and>
    at_row sw x0 x1 H (y + rows) rdr' \<and> R rdr' = R rdr \<and> moved rdr rdr' \<and>
    rect_drawn sw x0 (x1 - x0 + 1) y rows (\<lambda>_. R rdr 65536) (r_data rdr) (r_data rdr')"
  using assms(1-4)
proof (induction "nat rows" arbitrary: rdr rows y rule: less_induct)
  case less
  show ?case
  proof (cases "0 < rows")
    case False
    then have "rows = 0" using less.prems by simp
    then show ?thesis using less.prems by (auto simp: full_lines.simps rect_drawn_empty)
  next
    case True
    define n where "n = min rows 8"
    have n: "0 < n" "n \<le> rows" using True by (auto simp: n_def)
    have sw: "0 < sw" "0 \<le> y" using less.prems(2) by (auto simp: at_row_def)
    have "(y + n) * sw \<le> H * sw" using less.prems(4) n sw by (intro mult_right_mono) auto
    then have b: "(y + n) * sw < 2 ^ 31" "y + n < 2 ^ 31" using assms(5,6) less.prems(4) n by linarith+
    obtain r1 where r1: "draw_line env (x1 - x0 + 1) n 65536 rdr = Some r1" "ready (next_rows sw x0 n r1)"
        "at_row sw x0 x1 H (y + n) (next_rows sw x0 n r1)" "R (next_rows sw x0 n r1) = R rdr \<and> moved rdr (next_rows sw x0 n r1)"
        "rect_drawn sw x0 (x1 - x0 + 1) y n (\<lambda>_. R rdr 65536) (r_data rdr) (r_data (next_rows sw x0 n r1))"
      using draw_next [OF less.prems(1,2) n(1) _ _ _ b, of 65536] less.prems(4) n by auto
    obtain r2 where r2: "full_lines env sw x0 (x1 - x0 + 1) (rows - n) (next_rows sw x0 n r1) = Some r2" "ready r2"
        "at_row sw x0 x1 H (y + n + (rows - n)) r2" "R r2 = R rdr \<and> moved (next_rows sw x0 n r1) r2"
        "rect_drawn sw x0 (x1 - x0 + 1) (y + n) (rows - n) (\<lambda>_. R rdr 65536) (r_data (next_rows sw x0 n r1)) (r_data r2)"
      using less.hyps [of "rows - n" "next_rows sw x0 n r1" "y + n"] r1 n less.prems(4) by auto
    have "full_lines env sw x0 (x1 - x0 + 1) rows rdr = Some r2"
      using True r1(1) r2(1) by (subst full_lines.simps) (simp add: n_def [symmetric] Let_def)
    then show ?thesis using rect_drawn_append [OF r1(5) r2(5)] moved_trans r1(4) r2 n by (auto simp: algebra_simps)
  qed
qed


lemma rect_lines_ok:
  assumes "ready rdr" "at_row sw x0 x1 H y0 rdr" "y0 \<le> y1" "y1 < H" "H * sw < 2 ^ 31" "H < 2 ^ 31"
    and f: "0 \<le> tf" "tf \<le> 65536" "0 \<le> bf" "bf \<le> 65536" "y0 = y1 \<Longrightarrow> bf = 0"
  shows "\<exists>rdr'. rect_lines env sw x0 (x1 - x0 + 1) (y1 - y0 + 1) tf bf rdr = Some rdr' \<and> premul_buf (r_data rdr') \<and> buffer_ok (r_paint rdr') \<and> moved rdr rdr' \<and>
    rect_drawn sw x0 (x1 - x0 + 1) y0 (y1 - y0 + 1) (\<lambda>y. R rdr (row_frac y0 y1 tf bf y)) (r_data rdr) (r_data rdr')"
proof -
  let ?n = "x1 - x0 + 1"
  let ?Q = "\<lambda>y. R rdr (row_frac y0 y1 tf bf y)"
  define t b where "t = (if tf \<noteq> 0 then 1 else 0 :: int)" and "b = (if bf \<noteq> 0 then 1 else 0 :: int)"
  have tb: "0 \<le> t" "t \<le> 1" "0 \<le> b" "b \<le> 1" "t + b \<le> y1 - y0 + 1"
    using assms(3) f(5) by (cases "y0 = y1"; auto simp: t_def b_def)+
  have a: "0 \<le> y0" "0 < sw" using assms(2) by (auto simp: at_row_def)
  have "(y0 + 1) * sw \<le> H * sw" using assms(3,4) a by (intro mult_right_mono) auto
  then have bnd: "(y0 + 1) * sw < 2 ^ 31" "y0 + 1 < 2 ^ 31" using assms(3-6) by linarith+
  obtain r1 where r1: "(if tf \<noteq> 0 then draw_line env ?n 1 tf rdr \<bind> (\<lambda>rdr. Some (y1 - y0 + 1 - b - 1, next_rows sw x0 1 rdr))
        else Some (y1 - y0 + 1 - b, rdr)) = Some (y1 - y0 + 1 - b - t, r1)"
      "ready r1" "at_row sw x0 x1 H (y0 + t) r1" "R r1 = R rdr \<and> moved rdr r1" "rect_drawn sw x0 ?n y0 t ?Q (r_data rdr) (r_data r1)"
  proof (cases "tf \<noteq> 0")
    case True
    obtain r where r: "draw_line env ?n 1 tf rdr = Some r" "ready (next_rows sw x0 1 r)"
      "at_row sw x0 x1 H (y0 + 1) (next_rows sw x0 1 r)" "R (next_rows sw x0 1 r) = R rdr \<and> moved rdr (next_rows sw x0 1 r)"
      "rect_drawn sw x0 ?n y0 1 (\<lambda>_. R rdr tf) (r_data rdr) (r_data (next_rows sw x0 1 r))"
      using draw_next [OF assms(1,2) _ _ f(1,2) bnd] assms(3,4) by auto
    have "rect_drawn sw x0 ?n y0 1 ?Q (r_data rdr) (r_data (next_rows sw x0 1 r))"
      using r(5) by (rule rect_drawn_mono) (use True in \<open>simp add: row_frac_def\<close>)
    then show ?thesis using that [of "next_rows sw x0 1 r"] r True by (simp add: t_def)
  next
    case False
    then show ?thesis using that [of rdr] assms(1,2) by (simp add: t_def rect_drawn_empty)
  qed
  define m where "m = y1 - y0 + 1 - b - t"
  obtain r2 where r2: "full_lines env sw x0 ?n m r1 = Some r2" "ready r2" "at_row sw x0 x1 H (y0 + t + m) r2" "R r2 = R rdr \<and> moved rdr r2"
      "rect_drawn sw x0 ?n (y0 + t) m (\<lambda>_. R rdr 65536) (r_data r1) (r_data r2)"
    using full_lines_ok [OF r1(2,3) _ _ assms(5,6), of m] tb assms(4) r1(4) moved_trans by (auto simp: m_def)
  have "rect_drawn sw x0 ?n (y0 + t) m ?Q (r_data r1) (r_data r2)"
    using r2(5) by (rule rect_drawn_mono) (auto simp: row_frac_def m_def t_def b_def split: if_splits)
  then have mid: "rect_drawn sw x0 ?n y0 (t + m) ?Q (r_data rdr) (r_data r2)"
    using tb by (intro rect_drawn_append [OF r1(5)]) (auto simp: m_def)
  have lines: "rect_lines env sw x0 ?n (y1 - y0 + 1) tf bf rdr =
      (if bf \<noteq> 0 then draw_line env ?n 1 bf r2 else Some r2)"
  proof -
    have "(if bf \<noteq> 0 then y1 - y0 + 1 - 1 else y1 - y0 + 1) = y1 - y0 + 1 - b" by (simp add: b_def)
    then show ?thesis
      unfolding rect_lines_def Let_def by (simp only: r1(1) bind.bind_lunit prod.case m_def [symmetric] r2(1))
  qed
  show ?thesis
  proof (cases "bf = 0")
    case True
    then have "t + m = y1 - y0 + 1" by (simp add: m_def b_def)
    then show ?thesis using lines mid r2(3,4) True by (simp add: at_row_def)
  next
    case False
    obtain d p where d: "draw_line env ?n 1 bf r2 = Some (r2\<lparr>r_data := d, r_paint := p\<rparr>)" "premul_buf d \<and> buffer_ok p"
        "rect_drawn sw x0 ?n (y0 + (t + m)) 1 (\<lambda>_. R rdr bf) (r_data r2) d"
      using draw [OF r2(2,3) _ _ f(3,4), of 1] False assms(4) r2(4) by (auto simp: m_def b_def add.assoc)
    have "rect_drawn sw x0 ?n (y0 + (t + m)) 1 ?Q (r_data r2) d"
      using d(3) by (rule rect_drawn_mono) (use False f(5) assms(3) in \<open>auto simp: row_frac_def m_def b_def t_def split: if_splits\<close>)
    then have "rect_drawn sw x0 ?n y0 (t + m + 1) ?Q (r_data rdr) d"
      using tb by (intro rect_drawn_append [OF mid]) (auto simp: m_def)
    moreover have "t + m + 1 = y1 - y0 + 1" using False by (simp add: m_def b_def)
    moreover have "moved rdr (r2\<lparr>r_data := d, r_paint := p\<rparr>)"
      by (rule moved_trans [of rdr r2]) (simp add: r2(4), simp add: moved_def)
    ultimately show ?thesis using lines d False by simp
  qed
qed

end


section \<open>The two ways to draw lines\<close>

definition flat_ready :: "renderer \<Rightarrow> bool" where
  "flat_ready rdr \<longleftrightarrow> r_genPaint rdr = None \<and> r_emitLine rdr = Some F_emitLineSourceOver8888_pre \<and>
     byte_colour (colour_of rdr)"

definition flat_rel :: "renderer \<Rightarrow> int \<Rightarrow> int \<Rightarrow> jint \<Rightarrow> jint \<Rightarrow> bool" where
  "flat_rel rdr frac k old new \<longleftrightarrow> new = mean_px (colour_of rdr) (line_weight rdr frac k) old"

lemma same_upd [simp]:
  "colour_of (rdr\<lparr>r_data := d, r_paint := p\<rparr>) = colour_of rdr"
  "colour_of (rdr\<lparr>r_currX := a, r_currY := b, r_currImageOffset := c, r_rowNum := n\<rparr>) = colour_of rdr"
  "line_weight (rdr\<lparr>r_data := d, r_paint := p\<rparr>) = line_weight rdr"
  "line_weight (rdr\<lparr>r_currX := a, r_currY := b, r_currImageOffset := c, r_rowNum := n\<rparr>) = line_weight rdr"
  "line_fade (rdr\<lparr>r_data := d, r_paint := p\<rparr>) = line_fade rdr"
  "line_fade (rdr\<lparr>r_currX := a, r_currY := b, r_currImageOffset := c, r_rowNum := n\<rparr>) = line_fade rdr"
  by (simp_all add: colour_of_def line_weight_def line_fade_def span_width_def fun_eq_iff)

interpretation flat: line_drawer env flat_ready flat_rel
proof
  fix rdr :: renderer and sw x0 x1 H y rows frac :: int
  assume r: "flat_ready rdr" and a: "at_row sw x0 x1 H y rdr" "0 < rows" "y + rows \<le> H" "0 \<le> frac" "frac \<le> 65536"
  have ok: "line_ok rdr rows (r_el_lfrac rdr \<noteq> 0) (r_el_rfrac rdr \<noteq> 0)" "rows_apart rdr" "fracs_ok rdr frac"
    using at_row_line [OF a] by simp_all
  have c: "byte_colour (colour_of rdr)" "premul_buf (r_data rdr)" using r a(1) by (simp_all add: flat_ready_def at_row_def)
  obtain d where d: "emitLineSourceOver8888_pre rdr rows frac = Some (rdr\<lparr>r_data := d\<rparr>)"
    using emitLineSourceOver8888_pre_rows [OF ok(1,3) c(1)] by blast
  have rows: "rows_drawn rdr rows (\<lambda>j k. mean_px (colour_of rdr) (line_weight rdr frac k)) (rdr\<lparr>r_data := d\<rparr>)"
    using emitLineSourceOver8888_pre_drawn [OF ok c] d by simp
  have "draw_line env (x1 - x0 + 1) rows frac rdr = Some (rdr\<lparr>r_data := d, r_paint := r_paint rdr\<rparr>)"
    using r d by (simp add: draw_line_def gen_paint_def flat_ready_def run_emit_def)
  moreover have "rect_drawn sw x0 (x1 - x0 + 1) y rows (\<lambda>_. flat_rel rdr frac) (r_data rdr) d"
    using rect_of_rows [OF rows, of sw x0 y] a(1) at_row_width [OF a(1)] by (simp add: at_row_def flat_rel_def [abs_def])
  moreover have "flat_ready (rdr\<lparr>r_data := d, r_paint := r_paint rdr\<rparr>)" "premul_buf d \<and> buffer_ok (r_paint rdr)"
    using r rows a(1) by (simp_all add: flat_ready_def rows_drawn_def colour_of_def at_row_def)
  ultimately show "\<exists>d p. draw_line env (x1 - x0 + 1) rows frac rdr = Some (rdr\<lparr>r_data := d, r_paint := p\<rparr>) \<and>
      flat_ready (rdr\<lparr>r_data := d, r_paint := p\<rparr>) \<and> premul_buf d \<and> buffer_ok p \<and>
      rect_drawn sw x0 (x1 - x0 + 1) y rows (\<lambda>_. flat_rel rdr frac) (r_data rdr) d"
    by blast
qed (simp_all add: flat_ready_def flat_rel_def fun_eq_iff)


text \<open>With a paint: where the colours come from, and what the generator of the paint needs.\<close>

definition paint_source :: "renderer \<Rightarrow> jint \<Rightarrow> bool" where
  "paint_source rdr c \<longleftrightarrow> premul c \<and>
     (r_genPaint rdr \<in> {Some F_genLinearGradientPaint, Some F_genRadialGradientPaint} \<longrightarrow> c \<in> set (r_gradient_colors rdr))"

definition paint_ready :: "jni_env \<Rightarrow> renderer \<Rightarrow> bool" where
  "paint_ready env rdr \<longleftrightarrow> r_emitLine rdr = Some F_emitLinePTSourceOver8888_pre \<and> env_alloc env \<and>
     (case r_genPaint rdr of
        None \<Rightarrow> False
      | Some F_genLinearGradientPaint \<Rightarrow> gradient_ok rdr \<and> premul_buf (r_gradient_colors rdr)
      | Some F_genRadialGradientPaint \<Rightarrow> gradient_ok rdr \<and> premul_buf (r_gradient_colors rdr)
      | Some F_genTexturePaint \<Rightarrow> texture_ok (r_texture rdr)
      | Some F_genTexturePaintMultiply \<Rightarrow> texture_ok (r_texture rdr) \<and>
          (r_prevPaintMode rdr = PAINT_FLAT_COLOR \<and> byte_colour (colour_of rdr) \<or>
           r_prevPaintMode rdr \<in> {PAINT_LINEAR_GRADIENT, PAINT_RADIAL_GRADIENT} \<and> env_temp env \<and> gradient_ok rdr \<and>
             premul_buf (r_gradient_colors rdr)))"

definition paint_rel :: "renderer \<Rightarrow> int \<Rightarrow> int \<Rightarrow> jint \<Rightarrow> jint \<Rightarrow> bool" where
  "paint_rel rdr frac k old new \<longleftrightarrow> (\<exists>c. paint_source rdr c \<and> new = pt_over_ref c (line_fade rdr frac k - 1) old)"

lemma filled_premul_buf:
  assumes "filled Q 0 n xs ys" "premul_buf xs" "\<And>c. Q c \<Longrightarrow> premul c"
  shows "premul_buf ys"
  using assms by (auto simp: premul_buf_def filled_def in_set_conv_nth split: if_splits) (metis nth_mem)

lemma gen_paint_ok:
  assumes r: "paint_ready env rdr" "buffer_ok (r_paint rdr)" and w: "r_alphaWidth rdr = n" "r_maxTouched rdr - r_minTouched rdr + 1 = n" "0 < n"
    and h: "0 < h" "h * n < 2 ^ 31"
  shows "\<exists>p. gen_paint env (i32 (n * h)) h rdr = Some (rdr\<lparr>r_paint := p\<rparr>) \<and> premul_buf p \<and> int (length p) < 2 ^ 31 \<and>
    h * n \<le> int (length p) \<and> (\<forall>i < length p. int i < h * n \<longrightarrow> paint_source rdr (p ! i))"
proof -
  define l where "l = h * n"
  have l: "0 < l" "l < 2 ^ 31" using h w(3) by (simp_all add: l_def)
  then have l32: "i32 (n * h) = l" by (simp add: l_def mult.commute [of n] i32_small)
  have r0: "env_alloc env" "premul_buf (r_paint rdr)" "int (length (r_paint rdr)) < 2 ^ 31"
    using r by (simp_all add: paint_ready_def buffer_ok_def)
  obtain p0 where p0: "alloc_paint (env_alloc env) l rdr = rdr\<lparr>r_paint := p0\<rparr>" "premul_buf p0" "int (length p0) < 2 ^ 31"
    "l \<le> int (length p0)"
  proof (cases "r_paint rdr = [] \<or> int (length (r_paint rdr)) < l")
    case True
    then have "alloc_paint (env_alloc env) l rdr = rdr\<lparr>r_paint := replicate (nat l) 0\<rparr>"
      using r0(1) l by (simp add: alloc_paint_def)
    moreover have "premul_buf (replicate (nat l) 0)" "int (length (replicate (nat l) (0 :: jint))) = l"
      using l by (simp_all add: premul_buf_def)
    ultimately show ?thesis using that [of "replicate (nat l) 0"] l by (simp only: order_refl)
  next
    case False
    then have "alloc_paint (env_alloc env) l rdr = rdr\<lparr>r_paint := r_paint rdr\<rparr>" by (simp add: alloc_paint_def)
    moreover have "l \<le> int (length (r_paint rdr))" using False by simp
    ultimately show ?thesis using r0 by (intro that)
  qed
  let ?r = "rdr\<lparr>r_paint := p0\<rparr>"
  have dims: "0 \<le> r_alphaWidth ?r" "0 \<le> h" "h * r_alphaWidth ?r \<le> int (length (r_paint ?r))" "int (length (r_paint ?r)) < 2 ^ 31"
    using w h p0 by (simp_all add: l_def)
  have touched: "touched_ok ?r h (r_paint ?r)"
  proof -
    have "1 * n \<le> h * n" using w(3) h(1) by (intro mult_right_mono) auto
    then have "n < 2 ^ 31" using h(2) by linarith
    then show ?thesis using w h(1) p0 by (simp add: touched_ok_def l_def)
  qed
  have fin: "?thesis" if p: "gen_paint env l h rdr = Some (rdr\<lparr>r_paint := p\<rparr>)" "filled (paint_source rdr) 0 l p0 p" for p
  proof -
    have "premul_buf p" using filled_premul_buf [OF p(2) p0(2)] by (simp add: paint_source_def)
    moreover have "length p = length p0" using p(2) by (rule filled_length)
    ultimately show ?thesis using p p0 by (intro exI [of _ p]) (auto simp: l32 filled_def l_def)
  qed
  show ?thesis
  proof (cases "r_genPaint rdr")
    case None
    then show ?thesis using r by (simp add: paint_ready_def)
  next
    case (Some g)
    have gp: "gen_paint env l h rdr = run_gen (env_temp env) g ?r h" using Some p0(1) by (simp add: gen_paint_def)
    show ?thesis
    proof (cases g)
      case F_genLinearGradientPaint
      then have "gradient_ok ?r" "premul_buf (r_gradient_colors rdr)" using r Some by (simp_all add: paint_ready_def gradient_ok_def)
      with genLinearGradientPaint_filled [OF this(1) dims] show ?thesis
        using fin F_genLinearGradientPaint gp Some w
        by (fastforce simp: run_gen_def l_def filled_def paint_source_def premul_buf_def)
    next
      case F_genRadialGradientPaint
      then have "gradient_ok ?r" "premul_buf (r_gradient_colors rdr)" using r Some by (simp_all add: paint_ready_def gradient_ok_def)
      with genRadialGradientPaint_filled [OF this(1) dims] show ?thesis
        using fin F_genRadialGradientPaint gp Some w
        by (fastforce simp: run_gen_def l_def filled_def paint_source_def premul_buf_def)
    next
      case F_genTexturePaint
      then have "texture_ok (r_texture ?r)" using r Some by (simp add: paint_ready_def)
      with genTexturePaintTarget_filled [OF this dims] show ?thesis
        using fin F_genTexturePaint gp Some w
        by (fastforce simp: run_gen_def genTexturePaint_def l_def filled_def paint_source_def)
    next
      case F_genTexturePaintMultiply
      then have t: "texture_ok (r_texture ?r)" using r Some by (simp add: paint_ready_def)
      have "\<exists>p. genTexturePaintMultiply (env_temp env) ?r h = Some (?r\<lparr>r_paint := p\<rparr>) \<and>
          filled premul 0 (h * r_alphaWidth ?r) (r_paint ?r) p"
        using r Some F_genTexturePaintMultiply w multiply_flat [OF t touched] multiply_gradient [OF t touched]
        by (auto simp: paint_ready_def byte_colour_def colour_of_def gradient_ok_def)
      then show ?thesis
        using fin F_genTexturePaintMultiply gp Some w
        by (fastforce simp: run_gen_def l_def filled_def paint_source_def)
    qed
  qed
qed


lemma scaled_frac_nonzero: "scaled_frac f frac \<noteq> 0 \<Longrightarrow> f \<noteq> 0"
  by (auto simp: scaled_frac_def)

lemma line_ok_scaled:
  assumes "line_ok rdr h (r_el_lfrac rdr \<noteq> 0) (r_el_rfrac rdr \<noteq> 0)"
  shows "line_ok rdr h (scaled_frac (r_el_lfrac rdr) frac \<noteq> 0) (scaled_frac (r_el_rfrac rdr) frac \<noteq> 0)"
  using assms scaled_frac_nonzero [of "r_el_lfrac rdr" frac] scaled_frac_nonzero [of "r_el_rfrac rdr" frac]
  by (auto simp: line_ok_def of_bool_def split: if_splits)

lemma paint_upd [simp]:
  "paint_source (rdr\<lparr>r_data := d, r_paint := p\<rparr>) = paint_source rdr"
  "paint_source (rdr\<lparr>r_currX := a, r_currY := b, r_currImageOffset := c, r_rowNum := n\<rparr>) = paint_source rdr"
  "gradient_ok (rdr\<lparr>r_data := d, r_paint := p\<rparr>) = gradient_ok rdr"
  "gradient_ok (rdr\<lparr>r_currX := a, r_currY := b, r_currImageOffset := c, r_rowNum := n\<rparr>) = gradient_ok rdr"
  by (simp_all add: paint_source_def fun_eq_iff gradient_ok_def)

lemma paint_ready_move:
  "paint_ready env (rdr\<lparr>r_currX := a, r_currY := b, r_currImageOffset := c, r_rowNum := n\<rparr>) = paint_ready env rdr"
  by (cases "r_genPaint rdr"; simp add: paint_ready_def split: gen_fn.split)

lemma paint_ready_paint:
  assumes "paint_ready env rdr"
  shows "paint_ready env (rdr\<lparr>r_data := d, r_paint := p\<rparr>)"
  using assms by (cases "r_genPaint rdr"; simp add: paint_ready_def split: gen_fn.splits)

interpretation paint: line_drawer env "paint_ready env" paint_rel
proof
  fix rdr :: renderer and sw x0 x1 H y rows frac :: int
  assume r: "paint_ready env rdr" and a: "at_row sw x0 x1 H y rdr" "0 < rows" "y + rows \<le> H" "0 \<le> frac" "frac \<le> 65536"
  let ?n = "x1 - x0 + 1"
  have w: "r_alphaWidth rdr = ?n" "r_maxTouched rdr - r_minTouched rdr + 1 = ?n" "0 < ?n" using a(1) by (auto simp: at_row_def)
  have buf: "buffer_ok (r_paint rdr)" using a(1) by (simp add: at_row_def)
  obtain p where p: "gen_paint env (i32 (?n * rows)) rows rdr = Some (rdr\<lparr>r_paint := p\<rparr>)" "premul_buf p"
      "int (length p) < 2 ^ 31" "rows * ?n \<le> int (length p)" "\<And>i. i < length p \<Longrightarrow> int i < rows * ?n \<Longrightarrow> paint_source rdr (p ! i)"
    using gen_paint_ok [OF r buf w a(2) at_row_line(4) [OF a]] by blast
  let ?r = "rdr\<lparr>r_paint := p\<rparr>"
  have a': "at_row sw x0 x1 H y ?r" using a(1) p(2,3) by (simp add: at_row_def buffer_ok_def)
  have sw: "span_width ?r = ?n" by (rule at_row_width [OF a'])
  have ok: "line_ok ?r rows (scaled_frac (r_el_lfrac ?r) frac \<noteq> 0) (scaled_frac (r_el_rfrac ?r) frac \<noteq> 0)"
    "rows_apart ?r" "fracs_ok ?r frac"
    by (rule line_ok_scaled [OF at_row_line(1) [OF a' a(2-5)]] at_row_line(2,3) [OF a' a(2-5)])+
  have pr: "paint_rows_ok ?r rows" "premul_buf (r_paint ?r)" "premul_buf (r_data ?r)"
    using p a(1) sw by (simp_all add: paint_rows_ok_def at_row_def)
  obtain d where d: "emitLinePTSourceOver8888_pre ?r rows frac = Some (?r\<lparr>r_data := d\<rparr>)"
    using emitLinePTSourceOver8888_pre_rows [OF ok(1,3) pr(1)] by blast
  have rows: "rows_drawn ?r rows (\<lambda>j k. pt_over_ref (p ! nat (j * ?n + k)) (line_fade ?r frac k - 1)) (?r\<lparr>r_data := d\<rparr>)"
    using emitLinePTSourceOver8888_pre_drawn [OF ok pr] d sw by simp
  have draw: "draw_line env ?n rows frac rdr = Some (rdr\<lparr>r_data := d, r_paint := p\<rparr>)"
    using r d p(1) by (simp add: draw_line_def run_emit_def paint_ready_def)
  have fade: "line_fade ?r = line_fade rdr" by (simp add: line_fade_def fun_eq_iff span_width_def)
  have "rect_drawn sw x0 ?n y rows (\<lambda>r k a b. b = pt_over_ref (p ! nat ((r - y) * ?n + k)) (line_fade rdr frac k - 1) a) (r_data rdr) d"
    using rect_of_rows [OF rows, of sw x0 y] a(1) sw fade by (simp add: at_row_def)
  then have "rect_drawn sw x0 ?n y rows (\<lambda>_. paint_rel rdr frac) (r_data rdr) d"
  proof (rule rect_drawn_mono)
    fix r k u v assume k: "y \<le> r" "r < y + rows" "0 \<le> k" "k < ?n"
      and v: "v = pt_over_ref (p ! nat ((r - y) * ?n + k)) (line_fade rdr frac k - 1) u"
    define j where "j = (r - y) * ?n"
    have "j + ?n \<le> rows * ?n" using mult_right_mono [of "r - y + 1" rows ?n] k w(3) by (simp add: j_def distrib_right)
    moreover have "0 \<le> j" using k w(3) by (simp add: j_def)
    ultimately have "paint_source rdr (p ! nat (j + k))" using p(4) k by (intro p(5)) auto
    then show "paint_rel rdr frac k u v" using v unfolding paint_rel_def j_def by blast
  qed
  moreover have "premul_buf d \<and> buffer_ok p" using rows p(2,3) by (simp add: rows_drawn_def buffer_ok_def)
  ultimately show "\<exists>d p. draw_line env ?n rows frac rdr = Some (rdr\<lparr>r_data := d, r_paint := p\<rparr>) \<and>
      paint_ready env (rdr\<lparr>r_data := d, r_paint := p\<rparr>) \<and> premul_buf d \<and> buffer_ok p \<and>
      rect_drawn sw x0 ?n y rows (\<lambda>_. paint_rel rdr frac) (r_data rdr) d"
    using draw paint_ready_paint [OF r] by blast
qed (simp_all add: paint_ready_move paint_rel_def fun_eq_iff)

section \<open>The extent of a rectangle\<close>

lemma rect_axis_bounds:
  assumes "rect_axis cmin cmax x w le he = (from, to, lf, hf)"
  shows "cmin \<le> from" "to \<le> cmax" "0 \<le> lf" "lf < 65536" "0 \<le> hf" "hf < 65536"
proof -
  have m: "0 \<le> (a :: int) AND 65535" "a AND 65535 < 65536" for a
    using is_frac_and [of a] by auto
  show "cmin \<le> from" "to \<le> cmax" "0 \<le> lf" "lf < 65536" "0 \<le> hf" "hf < 65536"
    using assms m by (auto simp: rect_axis_def low_edge_def high_edge_def Let_def split: if_splits)
qed

lemma single_frac_bounds:
  assumes "single_frac from to (lf, hf) = (lf', hf')" "0 \<le> lf" "lf < 65536" "0 \<le> hf" "hf < 65536" "from \<le> to"
  shows "0 \<le> lf'" "lf' < 65536" "0 \<le> hf'" "hf' < 65536" "from = to \<Longrightarrow> hf' = 0"
    "of_bool (lf' \<noteq> 0) + of_bool (hf' \<noteq> 0) \<le> to - from + 1"
proof -
  have m: "0 \<le> (a :: int) AND 65535" "a AND 65535 < 65536" for a
    using is_frac_and [of a] by auto
  show "0 \<le> lf'" "lf' < 65536" "0 \<le> hf'" "hf' < 65536" and e: "from = to \<Longrightarrow> hf' = 0"
    using assms m by (auto simp: single_frac_def or_eq_0_iff split: if_splits)
  show "of_bool (lf' \<noteq> 0) + of_bool (hf' \<noteq> 0) \<le> to - from + 1"
    using e assms(6) by (cases "from = to") (auto simp: of_bool_def)
qed


section \<open>Filling a rectangle from Java\<close>

text \<open>
  The state in which Java may draw: the surface is of the supported type and its array holds all its
  rows, the clip lies in the surface (\<^verbatim>\<open>PiscesRenderer.setClip\<close> sees to it), the renderer is coherent, and
  the array can be pinned, and no mask is left from an earlier call.
\<close>

definition surface_fits :: "surface \<Rightarrow> jint list \<Rightarrow> bool" where
  "surface_fits s d \<longleftrightarrow> s_imageType s = TYPE_INT_ARGB_PRE \<and> 0 < s_width s \<and> 0 \<le> s_height s \<and>
     s_height s * s_width s \<le> int (length d) \<and> int (length d) < 2 ^ 31"

definition surface_ok :: "surface \<Rightarrow> jint list \<Rightarrow> bool" where
  "surface_ok s d \<longleftrightarrow> s_imageType s = TYPE_INT_ARGB_PRE \<and> 0 < s_width s \<and> 0 \<le> s_height s \<and>
     s_height s * s_width s \<le> int (length d) \<and> int (length d) < 2 ^ 31 \<and> premul_buf d"

lemma surface_ok_fits: "surface_ok s d \<longleftrightarrow> surface_fits s d \<and> premul_buf d"
  by (auto simp: surface_ok_def surface_fits_def)

definition clip_ok :: "surface \<Rightarrow> renderer \<Rightarrow> bool" where
  "clip_ok s rdr \<longleftrightarrow> 0 \<le> r_clip_bbMinX rdr \<and> r_clip_bbMaxX rdr < s_width s \<and>
     0 \<le> r_clip_bbMinY rdr \<and> r_clip_bbMaxY rdr < s_height s"

definition draw_ok :: "jni_env \<Rightarrow> jni_state \<Rightarrow> bool" where
  "draw_ok env st \<longleftrightarrow> surface_ok (jn_surface st) (jn_dataInt st) \<and> clip_ok (jn_surface st) (jn_rdr st) \<and>
     coherent (jn_rdr st) \<and> buffer_ok (r_paint (jn_rdr st)) \<and> r_maskType (jn_rdr st) = NO_MASK \<and>
     env_surface env \<and> \<not> jn_memError st"

text \<open>Drawing keeps the clip, the paint and the composite rule.\<close>

definition unchanged :: "renderer \<Rightarrow> renderer \<Rightarrow> bool" where
  "unchanged r r' \<longleftrightarrow>
     r_clip_bbMinX r' = r_clip_bbMinX r \<and> r_clip_bbMinY r' = r_clip_bbMinY r \<and>
     r_clip_bbMaxX r' = r_clip_bbMaxX r \<and> r_clip_bbMaxY r' = r_clip_bbMaxY r \<and>
     r_texture r' = r_texture r \<and> r_gradient r' = r_gradient r \<and> r_gradient_colors r' = r_gradient_colors r \<and>
     r_gradient_cycleMethod r' = r_gradient_cycleMethod r \<and> r_paintMode r' = r_paintMode r \<and>
     r_prevPaintMode r' = r_prevPaintMode r \<and> r_compositeRule r' = r_compositeRule r \<and> r_maskType r' = r_maskType r \<and>
     r_ured r' = r_ured r \<and> r_ugreen r' = r_ugreen r \<and> r_ublue r' = r_ublue r \<and> r_ualpha r' = r_ualpha r"

definition same_clip :: "renderer \<Rightarrow> renderer \<Rightarrow> bool" where
  "same_clip r r' \<longleftrightarrow> r_clip_bbMinX r' = r_clip_bbMinX r \<and> r_clip_bbMinY r' = r_clip_bbMinY r \<and>
     r_clip_bbMaxX r' = r_clip_bbMaxX r \<and> r_clip_bbMaxY r' = r_clip_bbMaxY r"

lemma unchanged_trans: "unchanged a b \<Longrightarrow> unchanged b c \<Longrightarrow> unchanged a c"
  by (simp add: unchanged_def)

lemma kept_unchanged: "kept r r' \<Longrightarrow> unchanged r r'"
  by (simp add: kept_def unchanged_def)

lemma moved_unchanged:
  assumes "moved r r'"
  shows "unchanged r r'"
  unfolding unchanged_def by (subst (1 2 3 4 5 6 7 8 9 10 11 12 13 14 15 16) assms [unfolded moved_def]) simp

lemma unchanged_draw_ok:
  assumes "draw_ok env st" "unchanged (jn_rdr st) r" "coherent r" "buffer_ok (r_paint r)" "premul_buf (r_data r)"
    and "length (r_data r) = length (jn_dataInt st)"
  shows "draw_ok env (drawn (st\<lparr>jn_surface := (jn_surface st)\<lparr>s_data := d\<rparr>\<rparr>) r)"
  using assms by (simp add: draw_ok_def surface_ok_def clip_ok_def drawn_def unchanged_def)

lemma surface_acquire_ok:
  assumes "surface_fits (jn_surface st) (jn_dataInt st)" "env_surface env"
  shows "surface_acquire env st = Done (st\<lparr>jn_surface := (jn_surface st)\<lparr>s_data := jn_dataInt st\<rparr>\<rparr>)"
proof -
  let ?s = "jn_surface st" and ?n = "int (length (jn_dataInt st))"
  have s: "s_imageType ?s = 1" "0 < s_width ?s" "0 \<le> s_height ?s" "s_height ?s * s_width ?s \<le> ?n"
    using assms(1) by (simp_all add: surface_fits_def)
  have "s_height ?s * s_width ?s div s_width ?s \<le> ?n div s_width ?s" using s by (intro zdiv_mono1) auto
  then have "s_height ?s \<le> ?n div s_width ?s" using s by simp
  moreover have "c_div ?n (s_width ?s) = Some (?n div s_width ?s)"
    using s(2) by (cases "jn_dataInt st = []") (simp_all add: c_div_def)
  ultimately show ?thesis using s assms(2) by (simp add: surface_acquire_def Let_def)
qed

text \<open>The renderer set up for the lines of the rectangle.\<close>

lemma setup_at_row:
  assumes "surface_ok s d" "s_data s = d" "0 \<le> x0" "x0 \<le> x1" "x1 < s_width s" "0 \<le> y0" "y0 < s_height s"
    and f: "0 \<le> lf" "lf < 65536" "0 \<le> rf" "rf < 65536" "of_bool (lf \<noteq> 0) + of_bool (rf \<noteq> 0) \<le> x1 - x0 + 1"
    and p: "buffer_ok (r_paint rdr)"
  shows "at_row (s_width s) x0 x1 (s_height s) y0 (setup_rect s x0 x1 y0 lf rf rdr)"
    and "s_height s * s_width s < 2 ^ 31" "s_height s < 2 ^ 31" "i32 (x1 - x0 + 1) = x1 - x0 + 1"
proof -
  let ?w = "s_width s" and ?h = "s_height s"
  have d: "0 < ?w" "?h * ?w \<le> int (length d)" "int (length d) < 2147483648" "premul_buf d"
    using assms(1) by (simp_all add: surface_ok_def)
  have hw: "?h * 1 \<le> ?h * ?w" "1 * ?w \<le> ?h * ?w" "y0 * ?w \<le> ?h * ?w"
    using d(1) assms(6,7) by (auto intro!: mult_left_mono mult_right_mono)
  have "0 \<le> y0 * ?w" using assms(6) d(1) by simp
  then have "i32 (y0 * ?w) = y0 * ?w" using hw(3) d by (intro i32_small) linarith+
  moreover show w: "i32 (x1 - x0 + 1) = x1 - x0 + 1" using assms(3-5) hw(2) d by (intro i32_small) linarith+
  ultimately show "at_row ?w x0 x1 ?h y0 (setup_rect s x0 x1 y0 lf rf rdr)"
    using assms d validate_invalidated(2) [of s rdr] validate_invalidated(1) [of rdr s] by (simp add: at_row_def setup_rect_def kept_def)
  have "?h * ?w < 2147483648" "?h < 2147483648" using hw d by linarith+
  then show "?h * ?w < 2 ^ 31" "?h < 2 ^ 31" by simp_all
qed

lemma setup_rect_coherent:
  assumes "coherent rdr" "s_imageType s = TYPE_INT_ARGB_PRE"
  shows "coherent (setup_rect s x0 x1 y0 lf rf rdr)"
proof -
  have "coherent (invalidate_renderer_surface rdr)"
    using assms(1) unfolding invalidate_renderer_surface_def by (rule set_state_coherent)
  then show ?thesis using validate_blitting_coherent [OF _ assms(2)] by (simp add: setup_rect_def)
qed

context line_drawer
begin

lemma fillRect_ok:
  assumes ok: "draw_ok env st"
    and xs: "rect_axis (r_clip_bbMinX (jn_rdr st)) (r_clip_bbMaxX (jn_rdr st)) x w lE rE = (x0, x1, lf0, rf0)"
    and ys: "rect_axis (r_clip_bbMinY (jn_rdr st)) (r_clip_bbMaxY (jn_rdr st)) y h tE bE = (y0, y1, tf0, bf0)"
    and fx: "single_frac x0 x1 (lf0, rf0) = (lf, rf)" and fy: "single_frac y0 y1 (tf0, bf0) = (tf, bf)"
  defines "r \<equiv> setup_rect ((jn_surface st)\<lparr>s_data := jn_dataInt st\<rparr>) x0 x1 y0 lf rf
      ((jn_rdr st)\<lparr>r_rectX := drop_bit 16 x, r_rectY := drop_bit 16 y\<rparr>)"
  assumes rd: "ready r"
  shows "\<exists>st'. fillRect env x y w h lE rE tE bE st = Done st' \<and> draw_ok env st' \<and> unchanged (jn_rdr st) (jn_rdr st') \<and>
    rect_drawn (s_width (jn_surface st)) x0 (x1 - x0 + 1) y0 (y1 - y0 + 1)
      (\<lambda>row. R r (row_frac y0 y1 tf bf row)) (jn_dataInt st) (jn_dataInt st')"
proof -
  let ?s = "jn_surface st" and ?s' = "(jn_surface st)\<lparr>s_data := jn_dataInt st\<rparr>" and ?d = "jn_dataInt st"
  let ?rdr = "(jn_rdr st)\<lparr>r_rectX := drop_bit 16 x, r_rectY := drop_bit 16 y\<rparr>"
  have so: "surface_ok ?s ?d" "surface_ok ?s' ?d" "\<not> jn_memError st" "env_surface env" and clip: "clip_ok ?s (jn_rdr st)"
    using ok by (simp_all add: draw_ok_def surface_ok_def)
  note bx = rect_axis_bounds [OF xs] and by' = rect_axis_bounds [OF ys]
  show ?thesis
  proof (cases "x0 \<le> x1 \<and> y0 \<le> y1")
    case False
    then have "fillRect env x y w h lE rE tE bE st = Done (st\<lparr>jn_rdr := ?rdr\<rparr>)"
      by (auto simp: fillRect_def Let_def xs ys)
    moreover have "draw_ok env (st\<lparr>jn_rdr := ?rdr\<rparr>)" "unchanged (jn_rdr st) ?rdr"
      using ok by (simp_all add: draw_ok_def clip_ok_def unchanged_def)
    ultimately show ?thesis using False by (auto simp: rect_drawn_empty)
  next
    case True
    note fxb = single_frac_bounds [OF fx bx(3-6)] and fyb = single_frac_bounds [OF fy by'(3-6)]
    have px: "0 \<le> x0" "x1 < s_width ?s'" "0 \<le> y0" "y1 < s_height ?s'" "y0 < s_height ?s'"
      using bx by' clip True by (simp_all add: clip_ok_def)
    have at: "at_row (s_width ?s') x0 x1 (s_height ?s') y0 r" "s_height ?s' * s_width ?s' < 2 ^ 31" "s_height ?s' < 2 ^ 31"
      "i32 (x1 - x0 + 1) = x1 - x0 + 1"
      unfolding r_def using setup_at_row [OF so(2), of x0 x1 y0 lf rf ?rdr] px True fxb ok by (simp_all add: draw_ok_def)
    have h32: "i32 (y1 - y0 + 1) = y1 - y0 + 1" using px True at(3) by (intro i32_small) auto
    obtain r' where r': "rect_lines env (s_width ?s') x0 (x1 - x0 + 1) (y1 - y0 + 1) tf bf r = Some r'" "premul_buf (r_data r') \<and> buffer_ok (r_paint r') \<and> moved r r'"
        "rect_drawn (s_width ?s') x0 (x1 - x0 + 1) y0 (y1 - y0 + 1) (\<lambda>y. R r (row_frac y0 y1 tf bf y)) (r_data r) (r_data r')"
      using rect_lines_ok [OF rd at(1) _ px(4) at(2,3), of tf bf] True fyb by auto
    have rdata: "r_data r = ?d" by (simp add: r_def setup_rect_def validate_invalidated(2))
    have len: "length (r_data r') = length ?d" using r'(3) by (simp add: rect_drawn_def rdata)
    have "render_rect env ?s' (x0, x1, lf0, rf0) (y0, y1, tf0, bf0) ?rdr = Some r'"
      using r'(1) by (simp add: render_rect_def fx fy at(4) h32 r_def)
    then have "fillRect env x y w h lE rE tE bE st = Done (drawn (st\<lparr>jn_rdr := ?rdr, jn_surface := ?s'\<rparr>) r')"
      using True so(3) surface_acquire_ok [OF _ so(4), of "st\<lparr>jn_rdr := ?rdr\<rparr>"] so(1) [unfolded surface_ok_fits]
      by (simp add: fillRect_def Let_def xs ys acquired_def drawn_def oom_check_def)
    moreover have "coherent r'"
      using ok setup_rect_coherent [of ?rdr ?s'] r'(2) moved_coherent by (auto simp: draw_ok_def surface_ok_def r_def)
    moreover have un: "unchanged (jn_rdr st) r'"
    proof (rule unchanged_trans)
      show "unchanged (jn_rdr st) r"
        using validate_invalidated(1) [of ?rdr ?s'] by (simp add: r_def setup_rect_def kept_def unchanged_def)
      show "unchanged r r'" using r'(2) moved_unchanged by simp
    qed
    then have "draw_ok env (drawn (st\<lparr>jn_rdr := ?rdr, jn_surface := ?s'\<rparr>) r')"
      using unchanged_draw_ok [OF ok un \<open>coherent r'\<close>] r'(2) len by (simp add: drawn_def)
    ultimately show ?thesis using r'(3) un by (simp add: drawn_def rdata)
  qed
qed

end


text \<open>Weights and fades in terms of the rectangle.\<close>

definition fill_weight :: "int \<Rightarrow> int \<Rightarrow> int \<Rightarrow> int \<Rightarrow> int \<Rightarrow> int \<Rightarrow> int" where
  "fill_weight calpha lfrac rfrac n frac k =
     (let alpha = calpha * frac div 65536;
          edge = (\<lambda>f. if alpha = 255 then f div 256 else f * alpha div 65536)
      in edge_px (lfrac \<noteq> 0) (rfrac \<noteq> 0) n (edge lfrac) alpha (edge rfrac) k)"

definition fill_fade :: "int \<Rightarrow> int \<Rightarrow> int \<Rightarrow> int \<Rightarrow> int \<Rightarrow> int" where
  "fill_fade lfrac rfrac n frac k =
     (let l = scaled_frac lfrac frac; r = scaled_frac rfrac frac
      in edge_px (l \<noteq> 0) (r \<noteq> 0) n (l div 256) (frac div 256) (r div 256) k)"

definition user_colour :: "renderer \<Rightarrow> colour" where
  "user_colour rdr = (r_ualpha rdr, r_ured rdr, r_ugreen rdr, r_ublue rdr)"

lemma setup_rect_fields:
  "r_el_lfrac (setup_rect s x0 x1 y0 lf rf rdr) = lf" "r_el_rfrac (setup_rect s x0 x1 y0 lf rf rdr) = rf"
  "x0 \<le> x1 \<Longrightarrow> span_width (setup_rect s x0 x1 y0 lf rf rdr) = x1 - x0 + 1"
  by (simp_all add: setup_rect_def span_width_def)

lemma setup_rect_modes:
  fixes x0 x1 y0 lf rf :: int
  assumes "coherent rdr" "s_imageType s = TYPE_INT_ARGB_PRE" "r_compositeRule rdr = COMPOSITE_SRC_OVER"
  defines "r \<equiv> setup_rect s x0 x1 y0 lf rf rdr"
  shows "r_genPaint r = select_gen (r_paintMode rdr)"
    "r_emitLine r = select_line COMPOSITE_SRC_OVER (r_paintMode rdr = PAINT_FLAT_COLOR)"
    "colour_of r = user_colour rdr" "kept rdr r"
proof -
  define v where "v = validate_blitting s (invalidate_renderer_surface rdr)"
  have c: "coherent (invalidate_renderer_surface rdr)"
    using assms(1) unfolding invalidate_renderer_surface_def by (rule set_state_coherent)
  have st: "paint_stage v" "colour_stage v" using validate_blitting_stages [OF c assms(2)] by (simp_all add: v_def)
  have k: "kept rdr v" by (simp add: v_def validate_invalidated)
  show "kept rdr r" using k by (simp add: r_def setup_rect_def v_def [symmetric] kept_def)
  show "r_genPaint r = select_gen (r_paintMode rdr)"
    "r_emitLine r = select_line COMPOSITE_SRC_OVER (r_paintMode rdr = PAINT_FLAT_COLOR)"
    "colour_of r = user_colour rdr"
    using st k assms(3) by (simp_all add: r_def setup_rect_def v_def [symmetric] kept_def paint_stage_def colour_stage_def
        colour_of_def user_colour_def)
qed

lemma fillRect_flat_drawn:
  assumes "draw_ok env st" "r_paintMode (jn_rdr st) = PAINT_FLAT_COLOR" "r_compositeRule (jn_rdr st) = COMPOSITE_SRC_OVER"
    and "byte_colour (user_colour (jn_rdr st))"
    and "rect_axis (r_clip_bbMinX (jn_rdr st)) (r_clip_bbMaxX (jn_rdr st)) x w lE rE = (x0, x1, lf0, rf0)"
    and "rect_axis (r_clip_bbMinY (jn_rdr st)) (r_clip_bbMaxY (jn_rdr st)) y h tE bE = (y0, y1, tf0, bf0)"
    and "single_frac x0 x1 (lf0, rf0) = (lf, rf)" "single_frac y0 y1 (tf0, bf0) = (tf, bf)"
  shows "\<exists>st'. fillRect env x y w h lE rE tE bE st = Done st' \<and> draw_ok env st' \<and> unchanged (jn_rdr st) (jn_rdr st') \<and>
    rect_drawn (s_width (jn_surface st)) x0 (x1 - x0 + 1) y0 (y1 - y0 + 1)
      (\<lambda>row k old new. new = mean_px (user_colour (jn_rdr st))
         (fill_weight (r_ualpha (jn_rdr st)) lf rf (x1 - x0 + 1) (row_frac y0 y1 tf bf row) k) old)
      (jn_dataInt st) (jn_dataInt st')"
proof -
  let ?rdr = "(jn_rdr st)\<lparr>r_rectX := drop_bit 16 x, r_rectY := drop_bit 16 y\<rparr>"
  define r where "r = setup_rect ((jn_surface st)\<lparr>s_data := jn_dataInt st\<rparr>) x0 x1 y0 lf rf ?rdr"
  have s: "coherent ?rdr" "s_imageType ((jn_surface st)\<lparr>s_data := jn_dataInt st\<rparr>) = TYPE_INT_ARGB_PRE" "r_compositeRule ?rdr = COMPOSITE_SRC_OVER"
    using assms(1,3) by (simp_all add: draw_ok_def surface_ok_def)
  note m = setup_rect_modes [OF s, of x0 x1 y0 lf rf, folded r_def]
  have u: "user_colour ?rdr = user_colour (jn_rdr st)" by (simp add: user_colour_def)
  have ready: "flat_ready r"
    using m assms(2,4) by (simp add: flat_ready_def select_gen_def select_line_def u)
  have rel: "flat_rel r = (\<lambda>frac k old new. new = mean_px (user_colour (jn_rdr st))
      (fill_weight (r_ualpha (jn_rdr st)) lf rf (x1 - x0 + 1) frac k) old)" if "x0 \<le> x1"
    using m(3) that by (simp add: flat_rel_def fun_eq_iff line_weight_def fill_weight_def r_def setup_rect_fields u
        colour_of_def user_colour_def)
  obtain st' where st': "fillRect env x y w h lE rE tE bE st = Done st'" "draw_ok env st' \<and> unchanged (jn_rdr st) (jn_rdr st')"
      "rect_drawn (s_width (jn_surface st)) x0 (x1 - x0 + 1) y0 (y1 - y0 + 1)
        (\<lambda>row. flat_rel r (row_frac y0 y1 tf bf row)) (jn_dataInt st) (jn_dataInt st')"
    using flat.fillRect_ok [OF assms(1,5-8)] ready unfolding r_def by blast
  show ?thesis
    using st'(1,2) rect_drawn_mono [OF st'(3)] rel by (cases "x0 \<le> x1") (auto intro!: rect_drawn_mono [OF st'(3)])
qed


definition sample_env :: jni_env where
  "sample_env = \<lparr>env_surface = True, env_array = True, env_array2 = True, env_alloc = True, env_temp = True,
     env_class = True, env_thrown = True\<rparr>"

text \<open>A surface of four columns and two rows, all pixels transparent, and a half transparent red.\<close>

definition sample_fill_state :: jni_state where
  "sample_fill_state =
     (let s = JavaSurface_initialize 1 4 2
      in \<lparr>jn_pending = None, jn_memError = False, jn_surface = s, jn_dataInt = replicate 8 0,
          jn_rdr = renderer_setColor (createCommon s) 255 0 0 128, jn_gamma = gamma_init\<rparr>)"

lemma sample_fill_simps:
  "jn_dataInt sample_fill_state = replicate 8 0" "s_width (jn_surface sample_fill_state) = 4"
  "s_height (jn_surface sample_fill_state) = 2" "s_imageType (jn_surface sample_fill_state) = 1"
  "r_paintMode (jn_rdr sample_fill_state) = PAINT_FLAT_COLOR" "r_compositeRule (jn_rdr sample_fill_state) = COMPOSITE_SRC_OVER"
  "user_colour (jn_rdr sample_fill_state) = (128, 255, 0, 0)" "r_ualpha (jn_rdr sample_fill_state) = 128"
  "r_clip_bbMinX (jn_rdr sample_fill_state) = 0" "r_clip_bbMaxX (jn_rdr sample_fill_state) = 3"
  "r_clip_bbMinY (jn_rdr sample_fill_state) = 0" "r_clip_bbMaxY (jn_rdr sample_fill_state) = 1"
  "jn_memError sample_fill_state = False" "r_maskType (jn_rdr sample_fill_state) = NO_MASK" "r_paint (jn_rdr sample_fill_state) = []"
  by code_simp+

lemma sample_fill_ok: "draw_ok sample_env sample_fill_state"
proof -
  have "coherent (jn_rdr sample_fill_state)"
    by (simp add: sample_fill_state_def Let_def renderer_setColor_coherent createCommon_coherent)
  then show ?thesis
    by (simp add: draw_ok_def surface_ok_def clip_ok_def sample_env_def sample_fill_simps premul_buf_def buffer_ok_def)
qed


text \<open>The same for paints: what the renderer must hold, and where the colours come from.\<close>

definition gradient_paint_ok :: "renderer \<Rightarrow> bool" where
  "gradient_paint_ok rdr \<longleftrightarrow> gradient_ok rdr \<and> premul_buf (r_gradient_colors rdr)"

definition brush_ok :: "jni_env \<Rightarrow> renderer \<Rightarrow> bool" where
  "brush_ok env rdr \<longleftrightarrow> env_alloc env \<and>
     (r_paintMode rdr \<in> {PAINT_LINEAR_GRADIENT, PAINT_RADIAL_GRADIENT} \<and> gradient_paint_ok rdr \<or>
      r_paintMode rdr = PAINT_TEXTURE8888 \<and> texture_ok (r_texture rdr) \<or>
      r_paintMode rdr = PAINT_TEXTURE8888_MULTIPLY \<and> texture_ok (r_texture rdr) \<and>
        (r_prevPaintMode rdr = PAINT_FLAT_COLOR \<and> byte_colour (user_colour rdr) \<or>
         r_prevPaintMode rdr \<in> {PAINT_LINEAR_GRADIENT, PAINT_RADIAL_GRADIENT} \<and> env_temp env \<and> gradient_paint_ok rdr))"

definition paint_colour :: "renderer \<Rightarrow> jint \<Rightarrow> bool" where
  "paint_colour rdr c \<longleftrightarrow> premul c \<and>
     (r_paintMode rdr \<in> {PAINT_LINEAR_GRADIENT, PAINT_RADIAL_GRADIENT} \<longrightarrow> c \<in> set (r_gradient_colors rdr))"

lemma brush_ready:
  assumes "brush_ok env rdr" "kept rdr r" "r_genPaint r = select_gen (r_paintMode rdr)"
    "r_emitLine r = select_line COMPOSITE_SRC_OVER (r_paintMode rdr = PAINT_FLAT_COLOR)" "colour_of r = user_colour rdr"
  shows "paint_ready env r" "paint_source r = paint_colour rdr"
proof -
  have k: "r_texture r = r_texture rdr" "r_gradient_colors r = r_gradient_colors rdr" "r_paint r = r_paint rdr"
    "r_gradient_cycleMethod r = r_gradient_cycleMethod rdr" "r_prevPaintMode r = r_prevPaintMode rdr"
    using assms(2) by (simp_all add: kept_def)
  have g: "gradient_paint_ok rdr \<longleftrightarrow> gradient_ok r \<and> premul_buf (r_gradient_colors r)"
    by (simp add: gradient_paint_ok_def gradient_ok_def k)
  show "paint_ready env r"
    using assms(1) unfolding brush_ok_def
    by (elim conjE disjE insertE) (simp_all add: paint_ready_def assms(3-5) select_gen_def select_line_def k g)
  show "paint_source r = paint_colour rdr"
    using assms(1) by (auto simp: paint_source_def paint_colour_def fun_eq_iff select_gen_def k brush_ok_def assms(3))
qed

lemma fillRect_paint_drawn:
  assumes "draw_ok env st" "brush_ok env (jn_rdr st)" "r_compositeRule (jn_rdr st) = COMPOSITE_SRC_OVER"
    and "rect_axis (r_clip_bbMinX (jn_rdr st)) (r_clip_bbMaxX (jn_rdr st)) x w lE rE = (x0, x1, lf0, rf0)"
    and "rect_axis (r_clip_bbMinY (jn_rdr st)) (r_clip_bbMaxY (jn_rdr st)) y h tE bE = (y0, y1, tf0, bf0)"
    and "single_frac x0 x1 (lf0, rf0) = (lf, rf)" "single_frac y0 y1 (tf0, bf0) = (tf, bf)"
  shows "\<exists>st'. fillRect env x y w h lE rE tE bE st = Done st' \<and> draw_ok env st' \<and> unchanged (jn_rdr st) (jn_rdr st') \<and>
    rect_drawn (s_width (jn_surface st)) x0 (x1 - x0 + 1) y0 (y1 - y0 + 1)
      (\<lambda>row k old new. \<exists>c. paint_colour (jn_rdr st) c \<and>
         new = pt_over_ref c (fill_fade lf rf (x1 - x0 + 1) (row_frac y0 y1 tf bf row) k - 1) old)
      (jn_dataInt st) (jn_dataInt st')"
proof -
  let ?rdr = "(jn_rdr st)\<lparr>r_rectX := drop_bit 16 x, r_rectY := drop_bit 16 y\<rparr>"
  define r where "r = setup_rect ((jn_surface st)\<lparr>s_data := jn_dataInt st\<rparr>) x0 x1 y0 lf rf ?rdr"
  have s: "coherent ?rdr" "s_imageType ((jn_surface st)\<lparr>s_data := jn_dataInt st\<rparr>) = TYPE_INT_ARGB_PRE" "r_compositeRule ?rdr = COMPOSITE_SRC_OVER"
    using assms(1,3) by (simp_all add: draw_ok_def surface_ok_def)
  note m = setup_rect_modes [OF s, of x0 x1 y0 lf rf, folded r_def]
  have u: "user_colour ?rdr = user_colour (jn_rdr st)" by (simp add: user_colour_def)
  have k: "kept (jn_rdr st) r" using m(4) by (simp add: kept_def)
  have ready: "paint_ready env r" and source: "paint_source r = paint_colour (jn_rdr st)"
    using brush_ready [OF assms(2) k] m(1-3) u by simp_all
  have rel: "paint_rel r = (\<lambda>frac k old new. \<exists>c. paint_colour (jn_rdr st) c \<and>
      new = pt_over_ref c (fill_fade lf rf (x1 - x0 + 1) frac k - 1) old)" if "x0 \<le> x1"
    using that by (simp add: paint_rel_def fun_eq_iff source [unfolded r_def] line_fade_def fill_fade_def r_def setup_rect_fields)
  obtain st' where st': "fillRect env x y w h lE rE tE bE st = Done st'" "draw_ok env st' \<and> unchanged (jn_rdr st) (jn_rdr st')"
      "rect_drawn (s_width (jn_surface st)) x0 (x1 - x0 + 1) y0 (y1 - y0 + 1)
        (\<lambda>row. paint_rel r (row_frac y0 y1 tf bf row)) (jn_dataInt st) (jn_dataInt st')"
    using paint.fillRect_ok [OF assms(1,4-7)] ready unfolding r_def by blast
  show ?thesis
    using st'(1,2) rect_drawn_mono [OF st'(3)] rel by (cases "x0 \<le> x1") (auto intro!: rect_drawn_mono [OF st'(3)])
qed


section \<open>Drawing an image\<close>

text \<open>What \<^verbatim>\<open>PiscesRenderer.drawImage\<close> has checked of an image that is at least two pixels wide and high.\<close>

definition image_ok ::
    "jint list \<Rightarrow> jint \<Rightarrow> jint \<Rightarrow> jint \<Rightarrow> jint \<Rightarrow> bool \<Rightarrow> jint \<Rightarrow> jint \<Rightarrow> jint \<Rightarrow> jint \<Rightarrow> bool" where
  "image_ok data width height offset stride rep txMin tyMin txMax tyMax \<longleftrightarrow>
     0 \<le> offset \<and> 2 \<le> width \<and> 2 \<le> height \<and> width \<le> stride \<and>
     offset + (height - 1) * stride + width \<le> int (length data) \<and> int (length data) < 2 ^ 31 \<and>
     0 \<le> txMin \<and> txMin \<le> txMax \<and> txMax < width \<and> 0 \<le> tyMin \<and> tyMin \<le> tyMax \<and> tyMax < height \<and>
     (rep \<longrightarrow> width \<le> 32767 \<and> height \<le> 32767) \<and> premul_buf data"

lemma texture_transform_fields:
  "tx_intData (texture_transform smooth ct tx) = tx_intData tx" "tx_stride (texture_transform smooth ct tx) = tx_stride tx"
  "tx_imageWidth (texture_transform smooth ct tx) = tx_imageWidth tx" "tx_imageHeight (texture_transform smooth ct tx) = tx_imageHeight tx"
  "tx_txMin (texture_transform smooth ct tx) = tx_txMin tx" "tx_txMax (texture_transform smooth ct tx) = tx_txMax tx"
  "tx_tyMin (texture_transform smooth ct tx) = tx_tyMin tx" "tx_tyMax (texture_transform smooth ct tx) = tx_tyMax tx"
  "tx_repeat (texture_transform smooth ct tx) = tx_repeat tx"
  "tx_transformType (texture_transform smooth ct tx) \<in> {TEXTURE_TRANSFORM_IDENTITY, TEXTURE_TRANSFORM_TRANSLATE,
     TEXTURE_TRANSFORM_SCALE_TRANSLATE, TEXTURE_TRANSFORM_GENERIC}"
  by (simp_all only: texture_transform_def Let_def case_prod_beta) simp_all

lemma image_texture_ok:
  assumes "image_ok data width height offset stride rep txMin tyMin txMax tyMax"
  shows "texture_ok (r_texture (renderer_setTexture rdr mode (drop (nat offset) data) width height stride rep smooth
    transform free hasAlpha txMin tyMin txMax tyMax))"
    and "offset \<le> int (length data)"
proof -
  define s where "s = (height - 1) * stride"
  have i: "0 \<le> offset" "0 \<le> s" "offset + s + width \<le> int (length data)" "2 \<le> width" "premul_buf (drop (nat offset) data)"
    using assms by (auto simp: image_ok_def s_def premul_buf_def dest: in_set_dropD)
  then show "offset \<le> int (length data)" by linarith
  have l: "s + width \<le> int (length (drop (nat offset) data))" "int (length (drop (nat offset) data)) < 2 ^ 31"
    using i assms by (auto simp: of_nat_diff image_ok_def)
  define r where "r = setPaintMode (rdr\<lparr>r_paint_transform := pisces_transform_assign (r_paint_transform rdr) transform\<rparr>)
    (if mode = IMAGE_MODE_NORMAL then PAINT_TEXTURE8888 else PAINT_TEXTURE8888_MULTIPLY)"
  define tx where "tx = (r_texture r)\<lparr>tx_free := free, tx_hasAlpha := hasAlpha, tx_intData := drop (nat offset) data,
      tx_imageWidth := width, tx_imageHeight := height, tx_stride := stride, tx_repeat := rep,
      tx_txMin := txMin, tx_tyMin := tyMin, tx_txMax := txMax, tx_tyMax := tyMax\<rparr>"
  have "texture_ok (texture_transform smooth (pisces_transform_invert transform) tx)"
    using assms i l texture_transform_fields(10) [of smooth "pisces_transform_invert transform" tx]
    unfolding texture_ok_def texture_transform_fields(1-9) by (simp add: image_ok_def s_def tx_def) (cases rep; simp)
  then show "texture_ok (r_texture (renderer_setTexture rdr mode (drop (nat offset) data) width height stride rep smooth
    transform free hasAlpha txMin tyMin txMax tyMax))"
    by (simp add: renderer_setTexture_def r_def tx_def Let_def)
qed

lemma setTexture_fields:
  defines "r \<equiv> \<lambda>rdr m d w h s rp sm t fd ha xm ym xM yM. renderer_setTexture rdr m d w h s rp sm t fd ha xm ym xM yM"
  shows "r_compositeRule (r rdr m d w h s rp sm t fd ha xm ym xM yM) = r_compositeRule rdr"
    "r_clip_bbMinX (r rdr m d w h s rp sm t fd ha xm ym xM yM) = r_clip_bbMinX rdr"
    "r_clip_bbMaxX (r rdr m d w h s rp sm t fd ha xm ym xM yM) = r_clip_bbMaxX rdr"
    "r_clip_bbMinY (r rdr m d w h s rp sm t fd ha xm ym xM yM) = r_clip_bbMinY rdr"
    "r_clip_bbMaxY (r rdr m d w h s rp sm t fd ha xm ym xM yM) = r_clip_bbMaxY rdr"
    "r_paint (r rdr m d w h s rp sm t fd ha xm ym xM yM) = r_paint rdr"
    "r_maskType (r rdr m d w h s rp sm t fd ha xm ym xM yM) = r_maskType rdr"
    "r_paintMode (r rdr m d w h s rp sm t fd ha xm ym xM yM) =
       (if m = IMAGE_MODE_NORMAL then PAINT_TEXTURE8888 else PAINT_TEXTURE8888_MULTIPLY)"
  by (auto simp: r_def renderer_setTexture_def setPaintMode_def set_state_def Let_def)

lemma setTexture_prev:
  "r_paintMode rdr = PAINT_FLAT_COLOR \<Longrightarrow> r_prevPaintMode (renderer_setTexture rdr m d w h s rp sm t fd ha xm ym xM yM) = PAINT_FLAT_COLOR"
  "user_colour (renderer_setTexture rdr m d w h s rp sm t fd ha xm ym xM yM) = user_colour rdr"
  by (simp_all add: renderer_setTexture_def setPaintMode_def set_state_def Let_def user_colour_def)

text \<open>An image of two by two pixels: white, half transparent white, black, transparent.\<close>

definition sample_image :: "jint list" where
  "sample_image = [-1, i32 0x80808080, i32 0xFF000000, 0]"

definition sample_image_state :: jni_state where
  "sample_image_state = sample_fill_state\<lparr>jn_rdr := renderer_setTexture (jn_rdr sample_fill_state) IMAGE_MODE_NORMAL
     sample_image 2 2 2 False True \<lparr>m00 = 65536, m01 = 0, m10 = 0, m11 = 65536, m02 = 0, m12 = 0\<rparr> False True 0 0 1 1\<rparr>"

lemma sample_image_ok: "image_ok sample_image 2 2 0 2 rep 0 0 1 1"
proof -
  have "premul_buf sample_image" by code_simp
  then show ?thesis by (simp add: image_ok_def) (simp add: sample_image_def)
qed

lemma sample_image_state_ok:
  "draw_ok sample_env sample_image_state" "brush_ok sample_env (jn_rdr sample_image_state)"
proof -
  have "coherent (jn_rdr sample_fill_state)" "r_paint (jn_rdr sample_fill_state) = []"
    using sample_fill_ok by (simp_all add: draw_ok_def) code_simp
  then show "draw_ok sample_env sample_image_state" "brush_ok sample_env (jn_rdr sample_image_state)"
    using sample_fill_ok image_texture_ok(1) [OF sample_image_ok]
    by (simp_all add: sample_image_state_def draw_ok_def clip_ok_def setTexture_fields renderer_setTexture_coherent
        brush_ok_def sample_env_def premul_buf_def)
qed


lemma drawImageImpl_drawn:
  assumes ok: "draw_ok env st" "r_compositeRule (jn_rdr st) = COMPOSITE_SRC_OVER"
    and env: "env_array env" "env_alloc env"
    and img: "image_ok data width height offset stride rep txMin tyMin txMax tyMax"
    and mode: "imageMode = IMAGE_MODE_NORMAL \<or> r_paintMode (jn_rdr st) = PAINT_FLAT_COLOR \<and> byte_colour (user_colour (jn_rdr st))"
    and axes: "rect_axis (r_clip_bbMinX (jn_rdr st)) (r_clip_bbMaxX (jn_rdr st)) x w lE rE = (x0, x1, lf0, rf0)"
      "rect_axis (r_clip_bbMinY (jn_rdr st)) (r_clip_bbMaxY (jn_rdr st)) y h tE bE = (y0, y1, tf0, bf0)"
      "single_frac x0 x1 (lf0, rf0) = (lf, rf)" "single_frac y0 y1 (tf0, bf0) = (tf, bf)"
  shows "\<exists>st'. drawImageImpl env imageMode data width height offset stride transform rep
      x y w h lE rE tE bE txMin tyMin txMax tyMax hasAlpha st = Done st' \<and> draw_ok env st' \<and>
    tx_intData (r_texture (jn_rdr st')) = [] \<and> r_compositeRule (jn_rdr st') = COMPOSITE_SRC_OVER \<and>
    user_colour (jn_rdr st') = user_colour (jn_rdr st) \<and> same_clip (jn_rdr st) (jn_rdr st') \<and>
    rect_drawn (s_width (jn_surface st)) x0 (x1 - x0 + 1) y0 (y1 - y0 + 1)
      (\<lambda>row k old new. \<exists>c. premul c \<and>
         new = pt_over_ref c (fill_fade lf rf (x1 - x0 + 1) (row_frac y0 y1 tf bf row) k - 1) old)
      (jn_dataInt st) (jn_dataInt st')"
proof -
  let ?r = "renderer_setTexture (jn_rdr st) imageMode (drop (nat offset) data) width height stride
      rep True transform False hasAlpha txMin tyMin txMax tyMax"
  let ?st = "st\<lparr>jn_rdr := ?r\<rparr>"
  have off: "0 \<le> offset" "offset \<le> int (length data)" using img image_texture_ok(2) [OF img] by (simp_all add: image_ok_def)
  have "draw_ok env ?st"
    using ok(1) renderer_setTexture_coherent by (simp add: draw_ok_def clip_ok_def setTexture_fields)
  moreover have "brush_ok env ?r"
    using env(2) mode image_texture_ok(1) [OF img] setTexture_prev
    unfolding brush_ok_def by (auto simp: setTexture_fields)
  ultimately obtain st' where st': "fillRect env x y w h lE rE tE bE ?st = Done st'" "draw_ok env st' \<and> unchanged ?r (jn_rdr st')"
      "rect_drawn (s_width (jn_surface st)) x0 (x1 - x0 + 1) y0 (y1 - y0 + 1)
        (\<lambda>row k old new. \<exists>c. paint_colour ?r c \<and>
           new = pt_over_ref c (fill_fade lf rf (x1 - x0 + 1) (row_frac y0 y1 tf bf row) k - 1) old)
        (jn_dataInt st) (jn_dataInt st')"
    using fillRect_paint_drawn [of env ?st x w lE rE x0 x1 lf0 rf0 y h tE bE y0 y1 tf0 bf0 lf rf tf bf] ok(2) axes
    by (auto simp: setTexture_fields)
  let ?st' = "st'\<lparr>jn_rdr := (jn_rdr st')\<lparr>r_texture := (r_texture (jn_rdr st'))\<lparr>tx_intData := []\<rparr>\<rparr>\<rparr>"
  have "drawImageImpl env imageMode data width height offset stride transform rep
      x y w h lE rE tE bE txMin tyMin txMax tyMax hasAlpha st = Done ?st'"
    using env(1) off st'(1,2) by (simp add: drawImageImpl_def oom_check_def draw_ok_def)
  moreover have "draw_ok env ?st'" using st'(2) by (simp add: draw_ok_def clip_ok_def)
  moreover have "r_compositeRule (jn_rdr st') = COMPOSITE_SRC_OVER" "user_colour (jn_rdr ?st') = user_colour (jn_rdr st)"
      "same_clip (jn_rdr st) (jn_rdr ?st')"
    using st'(2) ok(2) setTexture_prev(2) [of "jn_rdr st"] by (simp_all add: unchanged_def setTexture_fields user_colour_def same_clip_def)
  moreover have "rect_drawn (s_width (jn_surface st)) x0 (x1 - x0 + 1) y0 (y1 - y0 + 1)
      (\<lambda>row k old new. \<exists>c. premul c \<and>
         new = pt_over_ref c (fill_fade lf rf (x1 - x0 + 1) (row_frac y0 y1 tf bf row) k - 1) old)
      (jn_dataInt st) (jn_dataInt st')"
    using st'(3) by (rule rect_drawn_mono) (auto simp: paint_colour_def)
  ultimately show ?thesis by auto
qed



end
