(* ===== verification/Pisces_JNI_Correct.thy ===== *)
theory Pisces_JNI_Correct
  imports Pisces_Fill_Correct Pisces_Blit_Correct
begin

text \<open>
  The entry points that copy pixels, and what the native layer does with errors: the round trip of
  \<^verbatim>\<open>setRGB\<close> and \<^verbatim>\<open>getRGB\<close>, exceptions, arguments that Java accepts and the native code does not, empty surfaces
  and empty boxes, and the conversion of coordinates.
\<close>

section \<open>Copying pixels between Java and a surface\<close>

lemma for_loop_span:
  assumes "0 \<le> n" "0 \<le> p" "p + n \<le> int (length d)" "0 \<le> q" "q + n \<le> int (length s)"
  shows "for_loop n (\<lambda>k (d, p, q). do { c \<leftarrow> rd s q; d \<leftarrow> wr d p c; Some (d, p + 1, q + 1) }) (d, p, q) =
    Some (paint_span (\<lambda>k x. s ! nat (q + k)) p n d, p + n, q + n)"
proof -
  let ?P = "\<lambda>k t. t = (paint_span (\<lambda>k x. s ! nat (q + k)) p k d, p + k, q + k)"
  have "\<exists>t. for_loop n (\<lambda>k (d, p, q). do { c \<leftarrow> rd s q; d \<leftarrow> wr d p c; Some (d, p + 1, q + 1) }) (d, p, q) = Some t \<and> ?P n t"
  proof (rule for_loop_inv)
    fix j t assume j: "0 \<le> j" "j < n" "?P j t"
    then show "\<exists>t'. (\<lambda>k (d, p, q). do { c \<leftarrow> rd s q; d \<leftarrow> wr d p c; Some (d, p + 1, q + 1) }) j t = Some t' \<and> ?P (j + 1) t'"
      using assms paint_span_step [OF assms(2) j(1), of "\<lambda>k x. s ! nat (q + k)" d] by (auto simp: algebra_simps)
  qed (use assms in auto)
  then show ?thesis by simp
qed

definition block_fits :: "int \<Rightarrow> int \<Rightarrow> int \<Rightarrow> int \<Rightarrow> 'a list \<Rightarrow> bool" where
  "block_fits w h p scan xs \<longleftrightarrow> 0 < w \<and> 0 < h \<and> w \<le> scan \<and> 0 \<le> p \<and> p + (h - 1) * scan + w \<le> int (length xs)"

lemma block_row:
  assumes "block_fits w h p scan xs" "0 \<le> j" "j < h"
  shows "0 \<le> p + j * scan" "p + j * scan + w \<le> int (length xs)"
proof -
  have "j * scan \<le> (h - 1) * scan" "0 \<le> j * scan"
    using assms by (auto simp: block_fits_def intro!: mult_right_mono)
  then show "0 \<le> p + j * scan" "p + j * scan + w \<le> int (length xs)"
    using assms unfolding block_fits_def by linarith+
qed

lemma copy_rows_eq:
  assumes "block_fits w h p ds dst" "block_fits w h q ss src" "ds < 2 ^ 31" "ss < 2 ^ 31"
  shows "copy_rows w h dst p ds src q ss = Some (paint_rows (\<lambda>j k x. src ! nat (q + j * ss + k)) p ds w (nat h) dst)"
proof -
  let ?row = "\<lambda>k (d, p, q). do { c \<leftarrow> rd src q; d \<leftarrow> wr d p c; Some (d, p + 1, q + 1) }"
  let ?body = "\<lambda>j (d, p, q). do { (d, p, q) \<leftarrow> for_loop w ?row (d, p, q); Some (d, p + i32 (ds - w), q + i32 (ss - w)) }"
  have w: "0 \<le> w" "w \<le> ds" "w \<le> ss" "0 \<le> h" using assms(1,2) by (auto simp: block_fits_def)
  have r: "i32 (ds - w) = ds - w" "i32 (ss - w) = ss - w" using w assms(3,4) by (auto intro!: i32_small)
  have "for_loop h ?body (dst, p, q) =
      Some (paint_rows (\<lambda>j k x. src ! nat (q + j * ss + k)) p ds w (nat h) dst, p + h * ds, q + h * ss)"
  proof (rule for_loop_rows [where aux = "\<lambda>j. (p + j * ds, q + j * ss)"])
    fix j :: int and d' :: "jint list" assume j: "0 \<le> j" "j < h" and len: "length d' = length dst"
    note b = block_row [OF assms(1) j] block_row [OF assms(2) j]
    then have "for_loop w ?row (d', p + j * ds, q + j * ss) =
        Some (paint_span (\<lambda>k x. src ! nat (q + j * ss + k)) (p + j * ds) w d', p + j * ds + w, q + j * ss + w)"
      using w len by (intro for_loop_span) simp_all
    then show "?body j (d', p + j * ds, q + j * ss) =
        Some (paint_span (\<lambda>k x. src ! nat (q + j * ss + k)) (p + j * ds) w d', p + (j + 1) * ds, q + (j + 1) * ss)"
      using r by (simp add: algebra_simps)
  qed (use w in auto)
  then show ?thesis by (simp add: copy_rows_def)
qed

lemma rect_of_paint_rows:
  assumes "0 < sw" "0 \<le> x" "x + n \<le> sw" "0 \<le> n" "0 \<le> h"
  shows "rect_drawn sw x n y h (\<lambda>r k a b. b = f (r - y) k a) xs (paint_rows f (y * sw + x) sw n (nat h) xs)"
  unfolding rect_drawn_def
proof (intro conjI allI impI)
  fix i assume i: "i < length xs"
  let ?ys = "paint_rows f (y * sw + x) sw n (nat h) xs" and ?p = "int i - (y * sw + x)"
  have n: "n \<le> sw" using assms by simp
  have eq: "?ys ! i = (if 0 \<le> ?p \<and> ?p div sw < h \<and> ?p mod sw < n then f (?p div sw) (?p mod sw) (xs ! i) else xs ! i)"
    using nth_paint_rows [OF assms(1) n i] assms(5) by (simp add: in_rows_def)
  note px = pixel_of_span [OF assms(1-4)]
  show "let row = int i div sw; col = int i mod sw
      in if y \<le> row \<and> row < y + h \<and> x \<le> col \<and> col < x + n
         then ?ys ! i = f (row - y) (col - x) (xs ! i) else ?ys ! i = xs ! i"
    unfolding Let_def px(1) [of "int i" y h, symmetric]
    using eq px(1) [of "int i" y h] px(2) [of y "int i"] by presburger
qed simp

lemma correct_dim_inside:
  assumes "0 \<le> x" "0 \<le> w" "x + w \<le> extent" "extent < 2 ^ 31"
  shows "correct_dim extent x w = (x, w, 0)"
proof -
  have "i32 (x + w) = x + w" using assms by (intro i32_small) auto
  then show ?thesis using assms by (simp add: correct_dim_def)
qed

text \<open>A box of pixels inside a surface, and a block of a Java array that holds as many whole scan lines.\<close>

definition box_inside :: "surface \<Rightarrow> int \<Rightarrow> int \<Rightarrow> int \<Rightarrow> int \<Rightarrow> bool" where
  "box_inside s x y w h \<longleftrightarrow> 0 \<le> x \<and> 0 < w \<and> x + w \<le> s_width s \<and> 0 \<le> y \<and> 0 < h \<and> y + h \<le> s_height s"

definition array_holds :: "'a list \<Rightarrow> int \<Rightarrow> int \<Rightarrow> int \<Rightarrow> int \<Rightarrow> bool" where
  "array_holds pixels offset scan w h \<longleftrightarrow> 0 \<le> offset \<and> w \<le> scan \<and> offset + h * scan \<le> int (length pixels) \<and>
     int (length pixels) < 2 ^ 31"

lemma box_block:
  assumes "surface_fits s d" "box_inside s x y w h" "array_holds pixels offset scan w h"
  shows "block_fits w h (y * s_width s + x) (s_width s) d" "block_fits w h offset scan pixels"
    "i32 (y * s_width s + x) = y * s_width s + x" "s_width s < 2 ^ 31" "scan < 2 ^ 31"
    "correct_dim (s_width s) x w = (x, w, 0)" "correct_dim (s_height s) y h = (y, h, 0)"
    "i32 offset = offset" "i32 (offset + h * scan - 1) = offset + h * scan - 1" "offset < int (length pixels)" "0 < h * scan"
proof -
  let ?W = "s_width s" and ?H = "s_height s"
  note s = assms(1) [unfolded surface_fits_def] and b = assms(2) [unfolded box_inside_def]
    and a = assms(3) [unfolded array_holds_def]
  have W: "(y + (h - 1) + 1) * ?W \<le> ?H * ?W" "y * ?W \<le> (y + (h - 1)) * ?W" "0 \<le> y * ?W" "1 * ?H \<le> ?W * ?H"
    using b s by (auto intro!: mult_right_mono)
  have "1 * ?W \<le> ?H * ?W" using b s by (intro mult_right_mono) auto
  then show w: "?W < 2 ^ 31" using s by linarith
  have H: "?H < 2 ^ 31" using W(4) s by (simp add: mult.commute) 
  show "block_fits w h (y * ?W + x) ?W d"
    using W b s by (simp add: block_fits_def algebra_simps)
  show "i32 (y * ?W + x) = y * ?W + x"
  proof -
    define Y where "Y = y * ?W"
    have "(y + 1) * ?W \<le> ?H * ?W" using b s by (intro mult_right_mono) auto
    then have "Y + ?W \<le> ?H * ?W" by (simp add: Y_def distrib_right)
    moreover have "?H * ?W < 2147483648" using s by simp
    moreover have "0 \<le> Y" "0 \<le> x" "x < ?W" using W(3) b by (auto simp: Y_def)
    ultimately have "0 \<le> Y + x" "Y + x < 2147483648" by linarith+
    then show ?thesis by (simp add: Y_def i32_small)
  qed
  show "correct_dim ?W x w = (x, w, 0)" "correct_dim ?H y h = (y, h, 0)"
    using b w H by (auto intro!: correct_dim_inside)
  define S where "S = h * scan"
  have "1 * scan \<le> S" using a b by (auto simp: S_def intro!: mult_right_mono)
  moreover have "S - scan = (h - 1) * scan" by (simp add: S_def left_diff_distrib)
  moreover have S: "0 < S" using a b by (simp add: S_def)
  ultimately show "scan < 2 ^ 31" "block_fits w h offset scan pixels"
    using a b by (simp_all add: block_fits_def S_def [symmetric])
  show "i32 offset = offset" "i32 (offset + h * scan - 1) = offset + h * scan - 1" "offset < int (length pixels)" "0 < h * scan"
    using a S by (auto simp: S_def [symmetric] intro!: i32_small)
qed

lemma setRGBImpl_drawn:
  assumes "surface_fits (jn_surface st) (jn_dataInt st)" "env_surface env" "env_array env" "\<not> jn_memError st"
    and "box_inside (jn_surface st) x y w h" "array_holds pixels offset scan w h"
  shows "\<exists>d. setRGBImpl env pixels offset scan x y w h st = Done (st\<lparr>jn_surface := (jn_surface st)\<lparr>s_data := jn_dataInt st\<rparr>, jn_dataInt := d\<rparr>) \<and>
    rect_drawn (s_width (jn_surface st)) x w y h (\<lambda>r k old new. new = pixels ! nat (offset + (r - y) * scan + k)) (jn_dataInt st) d"
proof -
  let ?s = "jn_surface st" and ?d = "jn_dataInt st"
  note b = box_block [OF assms(1,5,6)]
  have i: "0 < w" "0 < h" "0 < s_width ?s" "?d \<noteq> []"
    using assms(1,5) by (auto simp: box_inside_def surface_fits_def mult_le_0_iff)
  define d where "d = paint_rows (\<lambda>j k x. pixels ! nat (offset + j * scan + k)) (y * s_width ?s + x) (s_width ?s) w (nat h) ?d"
  have acq: "surface_acquire env st = Done (st\<lparr>jn_surface := ?s\<lparr>s_data := ?d\<rparr>\<rparr>)"
    by (rule surface_acquire_ok [OF assms(1,2)])
  have set: "surface_setRGB (?s\<lparr>s_data := ?d\<rparr>) x y w h pixels offset scan = Some d"
    using copy_rows_eq [OF b(1,2,4,5)] b(3) i(4) by (simp add: surface_setRGB_def d_def)
  have o: "0 \<le> offset" "0 \<le> offset + h * scan - 1" "offset + h * scan - 1 < int (length pixels)"
    using assms(6) b(11) by (auto simp: array_holds_def)
  have "setRGBImpl env pixels offset scan x y w h st = Done (st\<lparr>jn_surface := ?s\<lparr>s_data := ?d\<rparr>, jn_dataInt := d\<rparr>)"
    using i o b(6-10) acq set assms(3,4) by (simp add: setRGBImpl_def Let_def oom_check_def)
  moreover have "rect_drawn (s_width ?s) x w y h (\<lambda>r k old new. new = pixels ! nat (offset + (r - y) * scan + k)) ?d d"
    unfolding d_def using rect_of_paint_rows [of "s_width ?s" x w h] assms(5) i by (simp add: box_inside_def)
  ultimately show ?thesis by blast
qed

lemma getRGBImpl_read:
  assumes "surface_fits (jn_surface st) (jn_dataInt st)" "env_surface env" "env_array env" "\<not> jn_memError st"
    and "box_inside (jn_surface st) x y w h" "array_holds buf offset scan w h"
  shows "getRGBImpl env buf offset scan x y w h st = Done (st\<lparr>jn_surface := (jn_surface st)\<lparr>s_data := jn_dataInt st\<rparr>\<rparr>,
    paint_rows (\<lambda>j k p. jn_dataInt st ! nat (y * s_width (jn_surface st) + x + j * s_width (jn_surface st) + k)) offset scan w (nat h) buf)"
proof -
  let ?s = "jn_surface st" and ?d = "jn_dataInt st"
  note b = box_block [OF assms(1,5,6)]
  have i: "0 < w" "0 < h" using assms(5) by (auto simp: box_inside_def)
  have acq: "surface_acquire env st = Done (st\<lparr>jn_surface := ?s\<lparr>s_data := ?d\<rparr>\<rparr>)"
    by (rule surface_acquire_ok [OF assms(1,2)])
  have o: "0 \<le> offset" "0 \<le> offset + h * scan - 1" "offset + h * scan - 1 < int (length buf)"
    using assms(6) b(11) by (auto simp: array_holds_def)
  show ?thesis
    using i o b(3,6-10) acq copy_rows_eq [OF b(2,1,5,4)] assms(3,4) by (simp add: getRGBImpl_def Let_def oom_check_def)
qed

lemma nth_paint_rows_at:
  assumes "block_fits w h p scan xs" "0 \<le> r" "r < h" "0 \<le> c" "c < w"
  shows "paint_rows f p scan w (nat h) xs ! nat (p + r * scan + c) = f r c (xs ! nat (p + r * scan + c))"
proof -
  let ?i = "p + r * scan + c"
  have "0 < scan" "w \<le> scan" "0 \<le> p" using assms(1) by (auto simp: block_fits_def)
  moreover note b = block_row [OF assms(1-3)]
  moreover have ix: "(?i - p) div scan = r" "(?i - p) mod scan = c"
    using row_index [of scan w p r ?i] assms(4,5) calculation by simp_all
  moreover have "0 \<le> r * scan" using assms(2) calculation(1) by simp
  moreover have i: "int (nat ?i) = ?i" "nat ?i < length xs" using b assms(4,5) by auto
  ultimately have "in_rows p scan w h ?i" using assms by (simp add: in_rows_def)
  then show ?thesis
    using nth_paint_rows [of scan w "nat ?i" xs f p "nat h"] \<open>0 < scan\<close> \<open>w \<le> scan\<close> i ix assms(2,3) by simp
qed

text \<open>
  C17: Pixels written with \<^verbatim>\<open>setRGB\<close> are read back by \<^verbatim>\<open>getRGB\<close>, whatever the offsets and scan lengths of the two
  arrays, for every box inside the surface; both calls return.
\<close>

theorem setRGB_getRGB:
  assumes "surface_fits (jn_surface st) (jn_dataInt st)" "env_surface env" "env_array env" "\<not> jn_memError st"
    and "box_inside (jn_surface st) x y w h" "array_holds pixels offset scan w h" "array_holds buf offset' scan' w h"
    and "0 \<le> r" "r < h" "0 \<le> c" "c < w"
  shows "\<exists>st1 st2 buf'. setRGBImpl env pixels offset scan x y w h st = Done st1 \<and>
    getRGBImpl env buf offset' scan' x y w h st1 = Done (st2, buf') \<and> length buf' = length buf \<and>
    buf' ! nat (offset' + r * scan' + c) = pixels ! nat (offset + r * scan + c)"
proof -
  let ?s = "jn_surface st" and ?d = "jn_dataInt st"
  obtain d where d: "setRGBImpl env pixels offset scan x y w h st = Done (st\<lparr>jn_surface := ?s\<lparr>s_data := ?d\<rparr>, jn_dataInt := d\<rparr>)"
      "rect_drawn (s_width ?s) x w y h (\<lambda>r k old new. new = pixels ! nat (offset + (r - y) * scan + k)) ?d d"
    using setRGBImpl_drawn [OF assms(1-6)] by blast
  let ?st = "st\<lparr>jn_surface := ?s\<lparr>s_data := ?d\<rparr>, jn_dataInt := d\<rparr>"
  have len: "length d = length ?d" using d(2) by (simp add: rect_drawn_def)
  have fits: "surface_fits (jn_surface ?st) (jn_dataInt ?st)" using assms(1) len by (simp add: surface_fits_def)
  have box: "box_inside (jn_surface ?st) x y w h" using assms(5) by (simp add: box_inside_def)
  note get = getRGBImpl_read [OF fits assms(2,3) _ box assms(7)]
  define i where "i = y * s_width ?s + x + r * s_width ?s + c"
  note b = box_block(1) [OF assms(1,5,6)] box_block(2) [OF assms(1,5,7)]
  have bx: "0 \<le> x" "x + w \<le> s_width ?s" "0 < s_width ?s" using assms(1,5) by (auto simp: box_inside_def surface_fits_def)
  have i: "0 \<le> i" "i < int (length ?d)" using block_row [OF b(1) assms(8,9)] assms(10,11) by (auto simp: i_def)
  have "i = (y + r) * s_width ?s + (x + c)" by (simp add: i_def algebra_simps)
  then have ix: "i div s_width ?s = y + r" "i mod s_width ?s = x + c"
    using row_index [of "s_width ?s" "s_width ?s" 0 "y + r" i] bx assms(10,11) by simp_all
  have "d ! nat i = pixels ! nat (offset + r * scan + c)"
    using d(2) i ix assms(8-11) unfolding rect_drawn_def Let_def by (auto dest!: spec [of _ "nat i"])
  moreover have "paint_rows (\<lambda>j k p. d ! nat (y * s_width ?s + x + j * s_width ?s + k)) offset' scan' w (nat h) buf ! nat (offset' + r * scan' + c) = d ! nat i"
    using nth_paint_rows_at [OF b(2) assms(8-11)] by (simp add: i_def)
  ultimately show ?thesis using d(1) get assms(4) by simp
qed

text \<open>A surface of three columns and two rows.\<close>

definition sample_rgb_state :: jni_state where
  "sample_rgb_state = sample_fill_state\<lparr>jn_surface := JavaSurface_initialize 1 3 2, jn_dataInt := [0, 0, 0, 0, 0, 0]\<rparr>"

theorem setRGB_getRGB_witness:
  "\<exists>st1 st2 buf'. setRGBImpl sample_env [1, 2, 3, 4] 0 2 1 0 2 2 sample_rgb_state = Done st1 \<and>
    getRGBImpl sample_env [9, 9, 9, 9, 9, 9, 9] 1 3 1 0 2 2 st1 = Done (st2, buf') \<and> length buf' = 7 \<and> buf' ! 5 = 4"
proof -
  have s: "surface_fits (jn_surface sample_rgb_state) (jn_dataInt sample_rgb_state)" "\<not> jn_memError sample_rgb_state"
    "box_inside (jn_surface sample_rgb_state) 1 0 2 2"
    by (simp_all add: sample_rgb_state_def JavaSurface_initialize_def surface_fits_def box_inside_def sample_fill_simps)
  show ?thesis
    using setRGB_getRGB [OF s(1) _ _ s(2,3), of sample_env "[1, 2, 3, 4]" 0 2 "[9, 9, 9, 9, 9, 9, 9]" 1 3 1 1]
    by (simp add: sample_env_def array_holds_def eval_nat_numeral)
qed

section \<open>Errors\<close>


text \<open>
  The checks of \<^verbatim>\<open>AbstractSurface.rgbCheck\<close> before the native call, in their order; \<open>None\<close> is acceptance.
\<close>

definition rgbCheck :: "jint \<Rightarrow> jint \<Rightarrow> jint \<Rightarrow> jint \<Rightarrow> jint \<Rightarrow> jint \<Rightarrow> jint \<Rightarrow> jint \<Rightarrow> jint \<Rightarrow> java_exception option" where
  "rgbCheck this_width this_height arr_length offset scanLength x y width height =
     (if x < 0 \<or> this_width \<le> x then Some IllegalArgumentException
      else if y < 0 \<or> this_height \<le> y then Some IllegalArgumentException
      else if width < 0 then Some IllegalArgumentException
      else if height < 0 then Some IllegalArgumentException
      else if this_width < i32 (x + width) then Some IllegalArgumentException
      else if this_height < i32 (y + height) then Some IllegalArgumentException
      else if offset < 0 then Some IllegalArgumentException
      else if scanLength < 0 then Some IllegalArgumentException
      else if scanLength < width then Some IllegalArgumentException
      else
        (let nbits = bit_length scanLength + bit_length height
         in if 31 < nbits then Some IllegalArgumentException
            else if arr_length < i32 (offset + scanLength * (height - 1) + width) then Some IllegalArgumentException
            else None))"

text \<open>
  C39: The native check of the array is stricter than the one Java makes: it asks for a whole scan line after
  the last row. Arguments that \<^verbatim>\<open>rgbCheck\<close> accepts, with an array that ends after the last pixel of the box,
  abort the virtual machine, both for writing and for reading.
\<close>

theorem rgbCheck_last_row_aborts:
  assumes "rgbCheck (s_width (jn_surface st)) (s_height (jn_surface st)) (int (length pixels)) offset scan x y w h = None"
    and "0 < w" "0 < h" "s_width (jn_surface st) < 2 ^ 31" "s_height (jn_surface st) < 2 ^ 31" "w < 2 ^ 31" "h < 2 ^ 31"
    and "int (length pixels) < offset + h * scan" "offset + h * scan \<le> 2 ^ 31"
  shows "setRGBImpl env pixels offset scan x y w h st = Fatal \<and> getRGBImpl env pixels offset scan x y w h st = Fatal"
proof -
  let ?W = "s_width (jn_surface st)" and ?H = "s_height (jn_surface st)"
  have c: "0 \<le> x" "x < ?W" "0 \<le> y" "y < ?H" "i32 (x + w) \<le> ?W" "i32 (y + h) \<le> ?H" "0 \<le> offset" "w \<le> scan"
    using assms(1) by (auto simp: rgbCheck_def split: if_splits)
  have d: "correct_dim ?W x w = (x, if ?W < i32 (x + w) then i32 (?W - x) else w, 0)"
    "correct_dim ?H y h = (y, if ?H < i32 (y + h) then i32 (?H - y) else h, 0)"
    using c by (simp_all add: correct_dim_def)
  have s: "scan \<le> h * scan" using c assms(2,3) mult_right_mono [of 1 h scan] by simp
  define S where "S = h * scan"
  have "i32 offset = offset" "i32 (offset + S - 1) = offset + S - 1"
    using c s assms(2,9) by (auto simp: S_def [symmetric] intro!: i32_small)
  then show ?thesis
    using c d assms(2,3,8) by (simp add: setRGBImpl_def getRGBImpl_def JNI_ThrowNew_def Let_def S_def [symmetric])
qed

theorem rgbCheck_last_row_aborts_witness:
  "rgbCheck 3 2 5 0 3 1 0 2 2 = None \<and>
   setRGBImpl sample_env [1, 2, 3, 4, 5] 0 3 1 0 2 2 sample_rgb_state = Fatal \<and>
   getRGBImpl sample_env [1, 2, 3, 4, 5] 0 3 1 0 2 2 sample_rgb_state = Fatal"
proof -
  have "rgbCheck 3 2 5 0 3 1 0 2 2 = None" by code_simp
  then show ?thesis
    using rgbCheck_last_row_aborts [of sample_rgb_state "[1, 2, 3, 4, 5]" 0 3 1 0 2 2 sample_env]
    by (simp add: sample_rgb_state_def JavaSurface_initialize_def)
qed

text \<open>
  A surface of width zero, which Java can create, makes the native code divide by zero: clearing any
  rectangle of it has no defined result.
\<close>

theorem clearRectImpl_empty_surface:
  assumes "s_imageType (jn_surface st) = TYPE_INT_ARGB_PRE" "s_width (jn_surface st) = 0" "0 \<le> s_height (jn_surface st)"
  shows "clearRectImpl env x y w h st = Fault"
  using assms by (simp add: clearRectImpl_def acquired_def surface_acquire_def Let_def c_div_def)

theorem clearRectImpl_empty_surface_witness:
  "clearRectImpl sample_env 0 0 1 1 (sample_fill_state\<lparr>jn_surface := JavaSurface_initialize 1 0 0, jn_dataInt := []\<rparr>) = Fault"
  by (rule clearRectImpl_empty_surface) (simp_all add: JavaSurface_initialize_def)

text \<open>
  A box of width zero at a fractional position inside the clip is drawn as one column without any
  fraction, that is at full coverage, instead of not at all.
\<close>

theorem zero_width_full_column:
  assumes "x AND 0xFFFF \<noteq> 0" "is_jint x" "clipMin \<le> drop_bit 16 x" "drop_bit 16 x \<le> clipMax"
  shows "\<exists>lf hf. rect_axis clipMin clipMax x 0 IMAGE_FRAC_EDGE_KEEP IMAGE_FRAC_EDGE_KEEP = (drop_bit 16 x, drop_bit 16 x, lf, hf) \<and>
    single_frac (drop_bit 16 x) (drop_bit 16 x) (lf, hf) = (0, 0)"
proof -
  define f where "f = x AND 0xFFFF"
  have "0 \<le> f" "f < 65536" "f \<noteq> 0" using assms(1) is_frac_and [of x] by (auto simp: f_def)
  then have f: "0 < f" "f < 65536" by auto
  have "(65536 - f) AND 65535 = 65536 - f"
    using f take_bit_eq_mask [of 16 "65536 - f"] by (simp add: mask_eq_exp_minus_1 take_bit_int_eq_self)
  then show ?thesis
    using assms f by (simp add: rect_axis_def low_edge_def high_edge_def single_frac_def Let_def f_def [symmetric] c_int or_eq_0_iff)
qed

theorem zero_width_full_column_witness:
  "\<exists>lf hf. rect_axis 0 3 0x18000 0 0 0 = (1, 1, lf, hf) \<and> single_frac 1 1 (lf, hf) = (0, 0)"
  using zero_width_full_column [of "0x18000" 0 3] by (simp add: is_jint_def)

section \<open>Conversion of coordinates\<close>

text \<open>
  The conversion of a \<^verbatim>\<open>float\<close> to fixed point with 16 fraction bits is exact up to truncation towards
  zero: for a number with sign \<open>s\<close>, biased exponent \<open>e\<close> and fraction \<open>m\<close>, of magnitude between
  \<open>2 ^ -24\<close> and \<open>2 ^ 15\<close>, the result is the truncation of 65536 times the number.
\<close>

theorem toPiscesCoords_truncates:
  assumes "s \<in> {0, 1}" "103 \<le> e" "e \<le> 141" "0 \<le> m" "m < 2 ^ 23"
  shows "toPiscesCoords (s * 2 ^ 31 + e * 2 ^ 23 + m) =
    Some ((if s = 1 then - 1 else 1) * ((2 ^ 23 + m) * 2 ^ nat e div 2 ^ 134))"
proof -
  define ff where "ff = s * 2 ^ 31 + e * 2 ^ 23 + m"
  define g where "g = 8388608 + m"
  have m: "0 \<le> m" "m < 8388608" using assms by simp_all
  have g: "8388608 \<le> g" "g < 16777216" using m by (simp_all add: g_def)
  have a1: "drop_bit 31 ff = s"
    using assms m by (auto simp: ff_def drop_bit_eq_div)
  have a2: "drop_bit 23 ff AND 0xff = e"
  proof -
    have "ff = (s * 256 + e) * 8388608 + m" by (simp add: ff_def)
    then have "drop_bit 23 ff = s * 256 + e" using m by (simp add: drop_bit_eq_div)
    moreover have "(s * 256 + e) AND 0xff = (s * 256 + e) mod 256"
      using take_bit_eq_mask [of 8 "s * 256 + e"] by (simp add: take_bit_eq_mod mask_eq_exp_minus_1)
    ultimately show ?thesis using assms by simp
  qed
  have a3: "(ff AND 0xffffff) OR 0x800000 = g"
  proof -
    have "ff AND 0xffffff = ff mod 16777216"
      using take_bit_eq_mask [of 24 ff] by (simp add: take_bit_eq_mod mask_eq_exp_minus_1)
    also have "\<dots> = (e mod 2) * 8388608 + m"
    proof -
      have "ff = (s * 128 + e div 2) * 16777216 + ((e mod 2) * 8388608 + m)"
        unfolding ff_def using div_mult_mod_eq [of e 2] by (simp add: algebra_simps) presburger
      moreover have "0 \<le> (e mod 2) * 8388608 + m" "(e mod 2) * 8388608 + m < 16777216"
        using m pos_mod_bound [of 2 e] pos_mod_sign [of 2 e] by (simp_all add: mod_2_eq_odd)
      ultimately show ?thesis by (metis mod_mult_self3 mod_pos_pos_trivial)
    qed
    finally have r: "ff AND 0xffffff = (if odd e then 8388608 + m else m)" by (simp add: mod_2_eq_odd)
    have "m AND 8388608 = 0"
    proof (rule bit_eqI)
      fix n
      have "take_bit 23 m = m" using m by (simp add: take_bit_int_eq_self)
      then have "bit m n \<Longrightarrow> n < 23" by (metis bit_take_bit_iff)
      moreover have "bit (8388608 :: int) n \<longleftrightarrow> n = 23" using bit_exp_iff [where ?'a = int, of 23 n] by simp
      ultimately show "bit (m AND 8388608) n = bit 0 n" by (auto simp: bit_and_iff)
    qed
    then have "m OR 8388608 = 8388608 + m" by (simp add: disjunctive_add_eq_or [symmetric] add.commute)
    moreover from this have "(8388608 + m) OR 8388608 = 8388608 + m" by (metis or.assoc or.idem)
    ultimately show ?thesis by (simp add: r g_def)
  qed
  define gg where "gg = g * 2 ^ nat e div 2 ^ 134"
  have gg: "(if 134 - e < 0 then take_bit 32 (push_bit (nat (- (134 - e))) g) else drop_bit (nat (134 - e)) g) = gg"
    and gg_bounds: "0 \<le> gg" "gg < 2147483648"
  proof -
    have gg_eq: "gg = (if 134 - e < 0 then g * 2 ^ nat (e - 134) else g div 2 ^ nat (134 - e))"
    proof (cases "134 - e < 0")
      case True
      then have "(2 :: int) ^ nat e = 2 ^ nat (e - 134) * 2 ^ 134" by (simp only: power_add [symmetric]) (simp add: nat_eq_iff)
      then have "gg = g * 2 ^ nat (e - 134) * 2 ^ 134 div 2 ^ 134" unfolding gg_def by (simp only: mult.assoc)
      then show ?thesis using True by (simp only: if_True) (simp only: nonzero_mult_div_cancel_right power_not_zero zero_neq_numeral [symmetric] not_False_eq_True)
    next
      case False
      have "(2 :: int) ^ 134 = 2 ^ nat (134 - e) * 2 ^ nat e"
        using False assms(2) by (simp only: power_add [symmetric]) (simp add: nat_eq_iff flip: nat_add_distrib)
      then have "gg = g * 2 ^ nat e div (2 ^ nat (134 - e) * 2 ^ nat e)" unfolding gg_def by (simp only:)
      then show ?thesis using False by simp
    qed
    have "(2 :: int) ^ nat (e - 134) \<le> 2 ^ 7" using assms(3) by (intro power_increasing) auto
    then have up: "g * 2 ^ nat (e - 134) < 2147483648"
      using g mult_strict_mono [of g 16777216 "2 ^ nat (e - 134)" 129] mult_mono [of g 16777215 "2 ^ nat (e - 134)" 128] by simp
    have dn: "g div 2 ^ nat (134 - e) \<le> g" using g zdiv_mono2 [of g 1 "2 ^ nat (134 - e)"] by simp
    show "0 \<le> gg" "gg < 2147483648" using gg_eq up dn g by (auto simp: pos_imp_zdiv_nonneg_iff)
    show "(if 134 - e < 0 then take_bit 32 (push_bit (nat (- (134 - e))) g) else drop_bit (nat (134 - e)) g) = gg"
      using gg_eq up g by (auto simp: push_bit_eq_mult drop_bit_eq_div take_bit_int_eq_self)
  qed
  have ne: "ff \<noteq> 0" using a2 assms(2) by auto
  have sign: "i32 (take_bit 32 (take_bit 32 (gg XOR - s) + s)) = (if s = 1 then - 1 else 1) * gg"
  proof (cases "s = 1")
    case True
    have "take_bit 32 (take_bit 32 (gg XOR - 1) + 1) = take_bit 32 (- gg)"
      by (simp add: take_bit_add [symmetric] not_int_def mod_simps take_bit_eq_mod)
    then show ?thesis using True gg_bounds by (simp add: i32_mod take_bit_eq_mod mod_simps)
  next
    case False
    then have "s = 0" using assms(1) by simp
    then show ?thesis using gg_bounds by (simp add: take_bit_int_eq_self i32_small)
  qed
  have "\<bar>134 - e\<bar> < 32" using assms by auto
  then have "toPiscesCoords ff = Some (i32 (take_bit 32 (take_bit 32 (gg XOR - s) + s)))"
    unfolding toPiscesCoords_def Let_def a1 a2 a3 gg using ne by simp
  moreover have "gg = (2 ^ 23 + m) * 2 ^ nat e div 2 ^ 134" by (simp add: gg_def g_def)
  ultimately show ?thesis unfolding sign by (simp only: ff_def)
qed

theorem toPiscesCoords_truncates_witness: "toPiscesCoords 0xBFC00000 = Some (- 0x18000)"
  using toPiscesCoords_truncates [of 1 127 "0x400000"] by simp
end
