(* ===== verification/Pisces_Mask_Correct.thy ===== *)
theory Pisces_Mask_Correct
  imports Pisces_JNI_Correct
begin

text \<open>
  Filling an alpha mask, from the call in Java to the pixels. As for rectangles, a locale states what the
  loop over the lines of the mask needs of a way to draw one line, and is interpreted for flat colours and
  for paints. An LCD mask with a paint has no routine.
\<close>

section \<open>Lines of a mask\<close>

definition mask_at :: "int \<Rightarrow> int \<Rightarrow> int \<Rightarrow> int \<Rightarrow> int \<Rightarrow> renderer \<Rightarrow> bool" where
  "mask_at sw x0 x1 H y rdr \<longleftrightarrow> at_row sw x0 x1 H y (rdr\<lparr>r_el_lfrac := 0, r_el_rfrac := 0\<rparr>) \<and> y < H \<and>
     0 \<le> r_maskOffset rdr \<and> r_maskOffset rdr + (x1 - x0 + 1) \<le> int (length (r_mask_byteData rdr)) \<and>
     int (length (r_mask_byteData rdr)) < 2 ^ 31"

lemma span_width_el: "span_width (rdr\<lparr>r_el_lfrac := a, r_el_rfrac := b\<rparr>) = span_width rdr"
  by (simp add: span_width_def)

lemma mask_at_rows:
  assumes "mask_at sw x0 x1 H y rdr"
  shows "rows_ok rdr 1" "rows_apart rdr" "mask_ok rdr st (span_width rdr) 1 \<longleftrightarrow> 0 \<le> st" "span_width rdr = x1 - x0 + 1"
proof -
  let ?r = "rdr\<lparr>r_el_lfrac := 0, r_el_rfrac := 0\<rparr>"
  have a: "at_row sw x0 x1 H y ?r" "y < H" using assms by (auto simp: mask_at_def)
  show w: "span_width rdr = x1 - x0 + 1" using at_row_width [OF a(1)] span_width_el by simp
  have "rows_ok ?r 1" "rows_apart ?r" using at_row_line(1,2) [OF a(1), of 1 0] a(2) by (simp_all add: line_ok_def)
  then show "rows_ok rdr 1" "rows_apart rdr"
    by (simp_all add: rows_ok_def rows_apart_def span_start_def span_width_el)
  have "0 \<le> x1 - x0" using a(1) by (simp add: at_row_def)
  then show "mask_ok rdr st (span_width rdr) 1 \<longleftrightarrow> 0 \<le> st"
    using assms by (auto simp: mask_ok_def mask_at_def w is_jint_def)
qed

text \<open>As \<^term>\<open>moved\<close>, with the place in the mask.\<close>

definition mask_moved :: "renderer \<Rightarrow> renderer \<Rightarrow> bool" where
  "mask_moved r r' \<longleftrightarrow> moved (r\<lparr>r_maskOffset := 0\<rparr>) (r'\<lparr>r_maskOffset := 0\<rparr>)"

lemma mask_moved_trans: "mask_moved a b \<Longrightarrow> mask_moved b c \<Longrightarrow> mask_moved a c"
  unfolding mask_moved_def by (rule moved_trans)

lemma blitSrcOverMask8888_pre_drawn:
  assumes "rows_ok rdr h" "rows_apart rdr" "mask_ok rdr (r_alphaWidth rdr) (span_width rdr) h"
    and "byte_colour (colour_of rdr)" "premul_buf (r_data rdr)"
  shows "\<exists>d. blitSrcOverMask8888_pre rdr h = Some (rdr\<lparr>r_data := d\<rparr>) \<and>
    rows_drawn rdr h (\<lambda>j k. over_ref (colour_of rdr) (mask_cov rdr (j * r_alphaWidth rdr) k)) (rdr\<lparr>r_data := d\<rparr>)"
proof -
  define d where "d = paint_rows (\<lambda>j k. src_over_px (colour_of rdr) (mask_cov rdr (j * r_alphaWidth rdr) k)) (span_start rdr)
    (r_imageScanlineStride rdr) (span_width rdr) (nat h) (r_data rdr)"
  have "rows_drawn rdr h (\<lambda>j k. over_ref (colour_of rdr) (mask_cov rdr (j * r_alphaWidth rdr) k)) (rdr\<lparr>r_data := d\<rparr>)"
    using assms by (intro rows_drawnI [where g = "\<lambda>j k. src_over_px (colour_of rdr) (mask_cov rdr (j * r_alphaWidth rdr) k)"])
      (auto simp: d_def rows_apart_def intro!: over.rows_premul src_over_px_ref)
  then show ?thesis using blitSrcOverMask8888_pre_rows [OF assms(1,3,4)] by (auto simp: d_def)
qed

lemma blitPTSrcOverMask8888_pre_drawn:
  assumes "rows_ok rdr h" "rows_apart rdr" "mask_ok rdr 0 (span_width rdr) h"
    and "paint_ok rdr" "premul_buf (r_paint rdr)" "premul_buf (r_data rdr)"
  shows "\<exists>d. blitPTSrcOverMask8888_pre rdr h = Some (rdr\<lparr>r_data := d\<rparr>) \<and>
    rows_drawn rdr h (\<lambda>j k. pt_over_ref (r_paint rdr ! nat k) (mask_cov rdr 0 k)) (rdr\<lparr>r_data := d\<rparr>)"
proof -
  define d where "d = paint_rows (\<lambda>j k. pt_src_over_px (r_paint rdr ! nat k) (mask_cov rdr 0 k)) (span_start rdr)
    (r_imageScanlineStride rdr) (span_width rdr) (nat h) (r_data rdr)"
  have "rows_drawn rdr h (\<lambda>j k. pt_over_ref (r_paint rdr ! nat k) (mask_cov rdr 0 k)) (rdr\<lparr>r_data := d\<rparr>)"
    using assms by (intro rows_drawnI [where g = "\<lambda>j k. pt_src_over_px (r_paint rdr ! nat k) (mask_cov rdr 0 k)"])
      (auto simp: d_def rows_apart_def intro!: pt_over.rows_premul pt_src_over_px_ref paint_premul)
  then show ?thesis using blitPTSrcOverMask8888_pre_rows [OF assms(1,3,4)] by (auto simp: d_def)
qed

text \<open>What drawing one line of a mask must do; \<open>R rdr cov\<close> relates old and new pixel for the coverage \<open>cov\<close>.\<close>

locale mask_drawer =
  fixes env :: jni_env and gamma :: gamma_state
    and ready :: "renderer \<Rightarrow> bool"
    and R :: "renderer \<Rightarrow> int \<Rightarrow> jint \<Rightarrow> jint \<Rightarrow> bool"
  assumes draw: "ready rdr \<Longrightarrow> mask_at sw x0 x1 H y rdr \<Longrightarrow>
      \<exists>d p. (do { rdr \<leftarrow> gen_paint env (i32 (x1 - x0 + 1)) 1 rdr; run_blit gamma (r_emitRows rdr) rdr 1 }) =
          Some (rdr\<lparr>r_data := d, r_paint := p\<rparr>) \<and>
        ready (rdr\<lparr>r_data := d, r_paint := p\<rparr>) \<and> premul_buf d \<and> buffer_ok p \<and>
        rect_drawn sw x0 (x1 - x0 + 1) y 1 (\<lambda>_ k. R rdr (mask_cov rdr 0 k)) (r_data rdr) d"
    and ready_move: "ready (rdr\<lparr>r_currX := a, r_currY := b, r_currImageOffset := c, r_rowNum := n, r_maskOffset := m\<rparr>) = ready rdr"
    and R_upd: "R (rdr\<lparr>r_data := d, r_paint := p\<rparr>) = R rdr"
    and R_move: "R (rdr\<lparr>r_currX := a, r_currY := b, r_currImageOffset := c, r_rowNum := n, r_maskOffset := m\<rparr>) = R rdr"
begin

text \<open>The loop over the lines; \<open>m\<close> is the place of the first line in the mask, \<open>mw\<close> the width of the mask.\<close>

lemma mask_lines_ok:
  assumes "ready rdr" "0 < rows \<Longrightarrow> mask_at sw x0 x1 H y (rdr\<lparr>r_currImageOffset := y * sw\<rparr>)" "0 \<le> rows" "y + rows \<le> H" "H * sw < 2 ^ 31" "H < 2 ^ 31"
    and m: "0 \<le> mw" "0 < rows \<Longrightarrow> r_maskOffset rdr + (rows - 1) * mw + (x1 - x0 + 1) \<le> int (length (r_mask_byteData rdr))"
    and premul: "premul_buf (r_data rdr) \<and> buffer_ok (r_paint rdr)"
  shows "\<exists>rdr'. mask_lines env gamma sw x (x1 - x0 + 1) mw rows rdr = Some rdr' \<and> premul_buf (r_data rdr') \<and> buffer_ok (r_paint rdr') \<and>
    mask_moved rdr rdr' \<and>
    rect_drawn sw x0 (x1 - x0 + 1) y rows
      (\<lambda>row k. R rdr (r_mask_byteData rdr ! nat (r_maskOffset rdr + (row - y) * mw + k) AND 0xff)) (r_data rdr) (r_data rdr')"
  using assms(1-4) m premul
proof (induction "nat rows" arbitrary: rdr rows y)
  case 0
  then have "rows = 0" by simp
  then show ?case using 0 by (auto simp: mask_lines.simps rect_drawn_empty mask_at_def at_row_def mask_moved_def)
next
  case (Suc n)
  let ?n = "x1 - x0 + 1" and ?r = "rdr\<lparr>r_currImageOffset := y * sw\<rparr>"
  have rows: "0 < rows" "n = nat (rows - 1)" using Suc.hyps(2) by auto
  note at = Suc.prems(2) [OF rows(1)]
  have a: "0 \<le> y" "0 < sw" "r_currY rdr = y" "0 \<le> x1 - x0" "x1 < sw" "0 \<le> x0" using at by (auto simp: mask_at_def at_row_def)
  have "y * sw \<le> H * sw" "1 * sw \<le> H * sw" using Suc.prems(4) rows a by (auto intro!: mult_right_mono)
  moreover have "H * sw < 2147483648" "0 \<le> y * sw" "H < 2147483648" using assms(5,6) a by simp_all
  ultimately have ys: "i32 (y * sw) = y * sw" "i32 ?n = ?n" "i32 (y + 1) = y + 1"
    using a Suc.prems(4) rows by (intro i32_small; linarith)+
  have r_eq: "?r = rdr\<lparr>r_currX := r_currX rdr, r_currY := r_currY rdr, r_currImageOffset := y * sw, r_rowNum := r_rowNum rdr,
      r_maskOffset := r_maskOffset rdr\<rparr>" by simp
  have rr: "ready ?r" "R ?r = R rdr" by (subst r_eq, simp only: ready_move R_move Suc.prems(1))+
  obtain d p where d: "(do { rdr \<leftarrow> gen_paint env (i32 ?n) 1 ?r; run_blit gamma (r_emitRows rdr) rdr 1 }) = Some (?r\<lparr>r_data := d, r_paint := p\<rparr>)"
      "ready (?r\<lparr>r_data := d, r_paint := p\<rparr>)" "premul_buf d \<and> buffer_ok p"
      "rect_drawn sw x0 ?n y 1 (\<lambda>_ k. R rdr (mask_cov ?r 0 k)) (r_data rdr) d"
    using draw [OF rr(1) at] rr(2) by auto
  have len: "length d = length (r_data rdr)" using d(4) by (simp add: rect_drawn_def)
  define m where "m = r_maskOffset rdr"
  define M where "M = (rows - 1) * mw"
  have "0 \<le> M" using rows(1) m(1) by (simp add: M_def)
  then have mm: "0 \<le> m" "m + M + ?n \<le> int (length (r_mask_byteData rdr))" "int (length (r_mask_byteData rdr)) < 2 ^ 31" "0 \<le> M"
    using at Suc.prems(6) rows m(1) by (simp_all add: mask_at_def m_def M_def left_diff_distrib)
  have m32: "i32 (m + mw) = m + mw" if "0 < rows - 1"
  proof -
    have "mw \<le> M" using that m(1) mult_right_mono [of 1 "rows - 1" mw] by (simp add: M_def)
    then show ?thesis using mm m(1) a(4) by (intro i32_small) auto
  qed
  define r1 where "r1 = ?r\<lparr>r_data := d, r_paint := p, r_maskOffset := i32 (m + mw), r_rowNum := i32 (r_rowNum rdr + 1), r_currX := x, r_currY := y + 1\<rparr>"
  have step: "mask_lines env gamma sw x ?n mw rows rdr = mask_lines env gamma sw x ?n mw (rows - 1) r1"
  proof -
    have "(do { let rdr = rdr\<lparr>r_currImageOffset := i32 (r_currY rdr * sw)\<rparr>; rdr \<leftarrow> gen_paint env (i32 (?n * 1)) 1 rdr;
        run_blit gamma (r_emitRows rdr) rdr 1 }) = Some (?r\<lparr>r_data := d, r_paint := p\<rparr>)"
      using d(1) a(3) ys(1) by (simp add: Let_def)
    then show ?thesis
      using ys(3) a(3)
      by (subst mask_lines.simps, simp only: rows(1) if_True option.case) (simp add: r1_def m_def)
  qed
  have ready1: "ready r1"
  proof -
    have "r1 = ?r\<lparr>r_data := d, r_paint := p\<rparr>\<lparr>r_currX := x, r_currY := y + 1, r_currImageOffset := y * sw,
        r_rowNum := i32 (r_rowNum rdr + 1), r_maskOffset := i32 (m + mw)\<rparr>" by (simp add: r1_def)
    then show ?thesis using d(2) by (simp only: ready_move)
  qed
  have R1: "R r1 = R rdr"
  proof -
    have "r1 = rdr\<lparr>r_data := d, r_paint := p\<rparr>\<lparr>r_currX := x, r_currY := y + 1, r_currImageOffset := y * sw,
        r_rowNum := i32 (r_rowNum rdr + 1), r_maskOffset := i32 (m + mw)\<rparr>" by (simp add: r1_def)
    then show ?thesis using R_move R_upd by simp
  qed
  have mv: "mask_moved rdr r1" by (simp add: mask_moved_def moved_def r1_def)
  have at1: "mask_at sw x0 x1 H (y + 1) (r1\<lparr>r_currImageOffset := (y + 1) * sw\<rparr>)" if "0 < rows - 1"
  proof -
    have "mw \<le> M" using that m(1) mult_right_mono [of 1 "rows - 1" mw] by (simp add: M_def)
    then show ?thesis using at mm m(1) d(3) len Suc.prems(4) that m32 by (simp add: mask_at_def at_row_def r1_def)
  qed
  have M2: "M = (rows - 2) * mw + mw" by (simp add: M_def left_diff_distrib)
  have fld: "r_maskOffset r1 = i32 (m + mw)" "r_mask_byteData r1 = r_mask_byteData rdr" "r_data r1 = d" "r_paint r1 = p" by (simp_all add: r1_def)
  obtain r2 where r2: "mask_lines env gamma sw x ?n mw (rows - 1) r1 = Some r2" "premul_buf (r_data r2) \<and> buffer_ok (r_paint r2)" "mask_moved r1 r2"
      "rect_drawn sw x0 ?n (y + 1) (rows - 1)
        (\<lambda>row k. R r1 (r_mask_byteData r1 ! nat (r_maskOffset r1 + (row - (y + 1)) * mw + k) AND 0xff)) (r_data r1) (r_data r2)"
    using Suc.hyps(1) [OF rows(2) ready1 at1] rows(1) Suc.prems(4) mm M2 m(1) d(3) m32 by (auto simp: fld M_def algebra_simps)
  let ?Q = "\<lambda>row k. R rdr (r_mask_byteData rdr ! nat (m + (row - y) * mw + k) AND 0xff)"
  have "rect_drawn sw x0 ?n y 1 ?Q (r_data rdr) d"
    using d(4) by (rule rect_drawn_mono) (auto simp: mask_cov_def m_def)
  moreover have "rect_drawn sw x0 ?n (y + 1) (rows - 1) ?Q d (r_data r2)"
    using r2(4) unfolding fld(1-3) R1 by (rule rect_drawn_mono) (simp add: m32 algebra_simps)
  ultimately have "rect_drawn sw x0 ?n y rows ?Q (r_data rdr) (r_data r2)"
    using rect_drawn_append [of sw x0 ?n y 1 ?Q _ d "rows - 1"] rows(1) by simp
  then show ?case using step r2(1,2) mask_moved_trans [OF mv r2(3)] by (simp add: m_def)
qed

end

section \<open>Masks in a flat colour and in a paint\<close>

definition mask_flat_ready :: "renderer \<Rightarrow> bool" where
  "mask_flat_ready rdr \<longleftrightarrow> r_genPaint rdr = None \<and> r_emitRows rdr = Some F_blitSrcOverMask8888_pre \<and> byte_colour (colour_of rdr)"

definition mask_flat_rel :: "renderer \<Rightarrow> int \<Rightarrow> jint \<Rightarrow> jint \<Rightarrow> bool" where
  "mask_flat_rel rdr cov old new \<longleftrightarrow> new = over_ref (colour_of rdr) cov old"

interpretation mask_flat: mask_drawer env gamma mask_flat_ready mask_flat_rel
proof
  fix rdr :: renderer and sw x0 x1 H y :: int
  assume r: "mask_flat_ready rdr" and a: "mask_at sw x0 x1 H y rdr"
  let ?n = "x1 - x0 + 1"
  note ok = mask_at_rows [OF a]
  have at: "r_imageScanlineStride rdr = sw" "r_minTouched rdr = x0" "r_currImageOffset rdr = y * sw" "0 < sw" "0 \<le> x0" "x0 + ?n \<le> sw"
    "premul_buf (r_data rdr)" "0 \<le> r_alphaWidth rdr"
    using a by (auto simp: mask_at_def at_row_def)
  obtain d where d: "blitSrcOverMask8888_pre rdr 1 = Some (rdr\<lparr>r_data := d\<rparr>)"
      "rows_drawn rdr 1 (\<lambda>j k. over_ref (colour_of rdr) (mask_cov rdr (j * r_alphaWidth rdr) k)) (rdr\<lparr>r_data := d\<rparr>)"
    using blitSrcOverMask8888_pre_drawn [OF ok(1,2)] ok(3) at(7,8) r by (auto simp: mask_flat_ready_def)
  have "(do { rdr \<leftarrow> gen_paint env (i32 ?n) 1 rdr; run_blit gamma (r_emitRows rdr) rdr 1 }) = Some (rdr\<lparr>r_data := d, r_paint := r_paint rdr\<rparr>)"
    using r d(1) by (simp add: mask_flat_ready_def gen_paint_def run_blit_def)
  moreover have "rect_drawn sw x0 ?n y 1 (\<lambda>_ k. mask_flat_rel rdr (mask_cov rdr 0 k)) (r_data rdr) d"
  proof -
    have "rect_drawn sw x0 ?n y 1 (\<lambda>r k a b. b = over_ref (colour_of rdr) (mask_cov rdr ((r - y) * r_alphaWidth rdr) k) a) (r_data rdr) d"
      using rect_of_rows [OF d(2) at(1-5)] at(6) ok(4) by simp
    then show ?thesis by (rule rect_drawn_mono) (auto simp: mask_flat_rel_def)
  qed
  moreover have "mask_flat_ready (rdr\<lparr>r_data := d, r_paint := r_paint rdr\<rparr>)" "premul_buf d \<and> buffer_ok (r_paint rdr)"
    using r d(2) a by (simp_all add: mask_flat_ready_def colour_of_def rows_drawn_def mask_at_def at_row_def)
  ultimately show "\<exists>d p. (do { rdr \<leftarrow> gen_paint env (i32 ?n) 1 rdr; run_blit gamma (r_emitRows rdr) rdr 1 }) =
          Some (rdr\<lparr>r_data := d, r_paint := p\<rparr>) \<and>
        mask_flat_ready (rdr\<lparr>r_data := d, r_paint := p\<rparr>) \<and> premul_buf d \<and> buffer_ok p \<and>
        rect_drawn sw x0 ?n y 1 (\<lambda>_ k. mask_flat_rel rdr (mask_cov rdr 0 k)) (r_data rdr) d"
    by blast
qed (simp_all add: mask_flat_ready_def mask_flat_rel_def fun_eq_iff colour_of_def)

definition mask_paint_ready :: "jni_env \<Rightarrow> renderer \<Rightarrow> bool" where
  "mask_paint_ready env rdr \<longleftrightarrow> paint_ready env rdr \<and> r_emitRows rdr = Some F_blitPTSrcOverMask8888_pre"

definition mask_paint_rel :: "renderer \<Rightarrow> int \<Rightarrow> jint \<Rightarrow> jint \<Rightarrow> bool" where
  "mask_paint_rel rdr cov old new \<longleftrightarrow> (\<exists>c. paint_source rdr c \<and> new = pt_over_ref c cov old)"

lemma paint_ready_mask:
  "paint_ready env (rdr\<lparr>r_currX := a, r_currY := b, r_currImageOffset := c, r_rowNum := n, r_maskOffset := m\<rparr>) = paint_ready env rdr"
  by (cases "r_genPaint rdr"; simp add: paint_ready_def gradient_ok_def colour_of_def split: gen_fn.split)

interpretation mask_paint: mask_drawer env gamma "mask_paint_ready env" mask_paint_rel
proof
  fix rdr :: renderer and sw x0 x1 H y :: int
  assume r: "mask_paint_ready env rdr" and a: "mask_at sw x0 x1 H y rdr"
  let ?n = "x1 - x0 + 1"
  have at: "r_imageScanlineStride rdr = sw" "r_minTouched rdr = x0" "r_currImageOffset rdr = y * sw" "0 < sw" "0 \<le> x0" "x0 + ?n \<le> sw"
    "premul_buf (r_data rdr)" "r_alphaWidth rdr = ?n" "r_maxTouched rdr = x1" "0 < ?n" "buffer_ok (r_paint rdr)"
    using a by (auto simp: mask_at_def at_row_def)
  have n: "1 * ?n < 2 ^ 31" using a by (simp add: mask_at_def)
  have w: "r_maxTouched rdr - r_minTouched rdr + 1 = ?n" using at(2,9) by simp
  obtain p where p: "gen_paint env (i32 (?n * 1)) 1 rdr = Some (rdr\<lparr>r_paint := p\<rparr>)" "premul_buf p"
      "int (length p) < 2 ^ 31" "1 * ?n \<le> int (length p)" "\<And>i. i < length p \<Longrightarrow> int i < 1 * ?n \<Longrightarrow> paint_source rdr (p ! i)"
    using gen_paint_ok [OF _ at(11,8) w at(10) _ n] r unfolding mask_paint_ready_def by (metis zero_less_one)
  let ?r = "rdr\<lparr>r_paint := p\<rparr>"
  have a': "mask_at sw x0 x1 H y ?r" using a p(2,3) by (simp add: mask_at_def at_row_def buffer_ok_def)
  note ok = mask_at_rows [OF a']
  have po: "paint_ok ?r" using p ok(4) by (simp add: paint_ok_def)
  obtain d where d: "blitPTSrcOverMask8888_pre ?r 1 = Some (?r\<lparr>r_data := d\<rparr>)"
      "rows_drawn ?r 1 (\<lambda>j k. pt_over_ref (p ! nat k) (mask_cov ?r 0 k)) (?r\<lparr>r_data := d\<rparr>)"
    using blitPTSrcOverMask8888_pre_drawn [OF ok(1,2) _ po] ok(3) [of 0] at(7) p(2) by auto
  have "(do { rdr \<leftarrow> gen_paint env (i32 ?n) 1 rdr; run_blit gamma (r_emitRows rdr) rdr 1 }) = Some (rdr\<lparr>r_data := d, r_paint := p\<rparr>)"
    using r d(1) p(1) by (simp add: mask_paint_ready_def run_blit_def)
  moreover have "rect_drawn sw x0 ?n y 1 (\<lambda>_ k. mask_paint_rel rdr (mask_cov rdr 0 k)) (r_data rdr) d"
  proof -
    have "rect_drawn sw x0 ?n y 1 (\<lambda>r k a b. b = pt_over_ref (p ! nat k) (mask_cov ?r 0 k) a) (r_data rdr) d"
      using rect_of_rows [OF d(2), of sw x0 y] at ok(4) by simp
    then show ?thesis
    proof (rule rect_drawn_mono)
      fix r k u v assume k: "0 \<le> k" "k < ?n" and v: "v = pt_over_ref (p ! nat k) (mask_cov ?r 0 k) u"
      have "paint_source rdr (p ! nat k)" using p(4) k by (intro p(5)) auto
      then show "mask_paint_rel rdr (mask_cov rdr 0 k) u v" using v unfolding mask_paint_rel_def by (auto simp: mask_cov_def)
    qed
  qed
  moreover have "mask_paint_ready env (rdr\<lparr>r_data := d, r_paint := p\<rparr>)" "premul_buf d \<and> buffer_ok p"
    using r d(2) p(2,3) paint_ready_paint by (simp_all add: mask_paint_ready_def rows_drawn_def buffer_ok_def)
  ultimately show "\<exists>d p. (do { rdr \<leftarrow> gen_paint env (i32 ?n) 1 rdr; run_blit gamma (r_emitRows rdr) rdr 1 }) =
          Some (rdr\<lparr>r_data := d, r_paint := p\<rparr>) \<and>
        mask_paint_ready env (rdr\<lparr>r_data := d, r_paint := p\<rparr>) \<and> premul_buf d \<and> buffer_ok p \<and>
        rect_drawn sw x0 ?n y 1 (\<lambda>_ k. mask_paint_rel rdr (mask_cov rdr 0 k)) (r_data rdr) d"
    by blast
qed (simp_all add: mask_paint_ready_def paint_ready_mask mask_paint_rel_def fun_eq_iff, simp_all add: paint_source_def)

section \<open>Filling a mask from Java\<close>

text \<open>The renderer set up for the lines of the mask.\<close>

definition setup_mask :: "surface \<Rightarrow> int \<Rightarrow> int \<Rightarrow> int \<Rightarrow> int \<Rightarrow> renderer \<Rightarrow> renderer" where
  "setup_mask s minX maxX minY offset rdr =
     (validate_blitting s (invalidate_renderer_surface rdr))
       \<lparr>r_minTouched := minX, r_maxTouched := maxX, r_currX := minX, r_currY := minY,
        r_alphaWidth := i32 (maxX - minX + 1), r_imageScanlineStride := s_width s, r_imagePixelStride := 1,
        r_rowNum := 0, r_maskOffset := offset\<rparr>"

lemma setMask_fields:
  "r_compositeRule (renderer_setMask rdr mt bs w h f) = r_compositeRule rdr" "r_paintMode (renderer_setMask rdr mt bs w h f) = r_paintMode rdr"
  "r_maskType (renderer_setMask rdr mt bs w h f) = mt" "user_colour (renderer_setMask rdr mt bs w h f) = user_colour rdr"
  "r_prevPaintMode (renderer_setMask rdr mt bs w h f) = r_prevPaintMode rdr" "r_texture (renderer_setMask rdr mt bs w h f) = r_texture rdr"
  "r_gradient_colors (renderer_setMask rdr mt bs w h f) = r_gradient_colors rdr" "r_paint (renderer_setMask rdr mt bs w h f) = r_paint rdr"
  "r_gradient_cycleMethod (renderer_setMask rdr mt bs w h f) = r_gradient_cycleMethod rdr"
  by (simp_all add: renderer_setMask_def set_state_def user_colour_def)

lemma setup_mask_at:
  assumes "surface_ok s d" "s_data s = d" "0 \<le> x0" "x0 \<le> x1" "x1 < s_width s" "0 \<le> y0" "y0 < s_height s"
    and "r_mask_byteData rdr = bs" "0 \<le> offset" "offset + (x1 - x0 + 1) \<le> int (length bs)" "int (length bs) < 2 ^ 31"
    and "buffer_ok (r_paint rdr)"
  shows "mask_at (s_width s) x0 x1 (s_height s) y0 ((setup_mask s x0 x1 y0 offset rdr)\<lparr>r_currImageOffset := y0 * s_width s\<rparr>)"
    "s_height s * s_width s < 2 ^ 31" "s_height s < 2 ^ 31" "i32 (x1 - x0 + 1) = x1 - x0 + 1"
    "r_mask_byteData (setup_mask s x0 x1 y0 offset rdr) = bs" "r_data (setup_mask s x0 x1 y0 offset rdr) = d"
    "r_maskOffset (setup_mask s x0 x1 y0 offset rdr) = offset"
proof -
  note su = setup_at_row [OF assms(1-7), of 0 0 rdr]
  show "s_height s * s_width s < 2 ^ 31" "s_height s < 2 ^ 31" and w: "i32 (x1 - x0 + 1) = x1 - x0 + 1"
    using su(2-4) assms(4,12) by simp_all
  have k: "kept rdr (validate_blitting s (invalidate_renderer_surface rdr))"
    "r_data (validate_blitting s (invalidate_renderer_surface rdr)) = s_data s"
    by (rule validate_invalidated)+
  then show bs: "r_mask_byteData (setup_mask s x0 x1 y0 offset rdr) = bs" "r_data (setup_mask s x0 x1 y0 offset rdr) = d"
    "r_maskOffset (setup_mask s x0 x1 y0 offset rdr) = offset"
    using assms(2,8) by (simp_all add: setup_mask_def kept_def)
  have "at_row (s_width s) x0 x1 (s_height s) y0 (setup_rect s x0 x1 y0 0 0 rdr)" using su(1) assms(4,12) by simp
  then have "at_row (s_width s) x0 x1 (s_height s) y0 ((setup_mask s x0 x1 y0 offset rdr)
      \<lparr>r_currImageOffset := y0 * s_width s, r_el_lfrac := 0, r_el_rfrac := 0\<rparr>)"
    unfolding at_row_def setup_rect_def setup_mask_def by simp
  then show "mask_at (s_width s) x0 x1 (s_height s) y0 ((setup_mask s x0 x1 y0 offset rdr)\<lparr>r_currImageOffset := y0 * s_width s\<rparr>)"
    using assms(7,9-11) bs by (simp add: mask_at_def)
qed

context mask_drawer
begin

lemma fillAlphaMask_ok:
  fixes mh :: int
  assumes ok: "draw_ok env st" "env_array env" "gamma = jn_gamma st" "maskType \<in> {NO_MASK, ALPHA_MASK, LCD_ALPHA_MASK}"
    and box: "0 \<le> minX" "minX \<le> maxX" "maxX < s_width (jn_surface st)" "0 \<le> minY" "minY \<le> maxY" "maxY < s_height (jn_surface st)"
    and mask: "0 \<le> offset" "0 \<le> mw" "offset + (maxY - minY) * mw + (maxX - minX + 1) \<le> int (length jmask)" "int (length jmask) < 2 ^ 31"
  defines "r \<equiv> setup_mask ((jn_surface st)\<lparr>s_data := jn_dataInt st\<rparr>) minX maxX minY offset
      (renderer_setMask (jn_rdr st) maskType jmask mw mh False)"
  assumes rd: "ready r"
  shows "\<exists>st'. fillAlphaMask env minX minY maxX maxY maskType jmask x y mw mh offset st = Done st' \<and> draw_ok env st' \<and>
    unchanged (jn_rdr st) (jn_rdr st') \<and>
    rect_drawn (s_width (jn_surface st)) minX (maxX - minX + 1) minY (maxY - minY + 1)
      (\<lambda>row k. R r (jmask ! nat (offset + (row - minY) * mw + k) AND 0xff)) (jn_dataInt st) (jn_dataInt st')"
proof -
  let ?s = "jn_surface st" and ?s' = "(jn_surface st)\<lparr>s_data := jn_dataInt st\<rparr>" and ?d = "jn_dataInt st"
  let ?n = "maxX - minX + 1" and ?h = "maxY - minY + 1"
  let ?m = "renderer_setMask (jn_rdr st) maskType jmask mw mh False"
  have so: "surface_ok ?s ?d" "surface_ok ?s' ?d" "\<not> jn_memError st" "env_surface env" and clip: "clip_ok ?s (jn_rdr st)"
    using ok by (simp_all add: draw_ok_def surface_ok_def)
  have mb: "r_mask_byteData ?m = jmask" by (simp add: renderer_setMask_def set_state_def)
  have "0 \<le> (maxY - minY) * mw" using box mask by simp
  then have m1: "offset + ?n \<le> int (length jmask)" using mask(3) by linarith
  have pb: "buffer_ok (r_paint ?m)" using ok(1) by (simp add: draw_ok_def setMask_fields)
  note su = setup_mask_at [OF so(2) _ box(1,2) _ box(4) _ mb mask(1) m1 mask(4) pb, folded r_def]
  have su': "mask_at (s_width ?s') minX maxX (s_height ?s') minY (r\<lparr>r_currImageOffset := minY * s_width ?s'\<rparr>)"
    "s_height ?s' * s_width ?s' < 2 ^ 31" "s_height ?s' < 2 ^ 31" "i32 ?n = ?n" "r_mask_byteData r = jmask" "r_data r = ?d" "r_maskOffset r = offset"
    "buffer_ok (r_paint r)"
    using su box pb validate_invalidated(1) [of ?m ?s'] by (simp_all add: r_def setup_mask_def kept_def)
  have h32: "i32 ?h = ?h" using box su'(3) by (intro i32_small) auto
  obtain r' where r': "mask_lines env gamma (s_width ?s') x ?n mw ?h r = Some r'" "premul_buf (r_data r') \<and> buffer_ok (r_paint r')" "mask_moved r r'"
      "rect_drawn (s_width ?s') minX ?n minY ?h (\<lambda>row k. R r (jmask ! nat (offset + (row - minY) * mw + k) AND 0xff)) ?d (r_data r')"
    using mask_lines_ok [OF rd su'(1) _ _ su'(2,3) mask(2), of ?h x] box mask so(1) by (auto simp: su'(5-8) surface_ok_def)
  have len: "length (r_data r') = length ?d" using r'(4) by (simp add: rect_drawn_def)
  have acq: "surface_acquire env st = Done (st\<lparr>jn_surface := ?s'\<rparr>)"
    by (rule surface_acquire_ok) (use so in \<open>simp_all add: surface_ok_fits\<close>)
  let ?st' = "drawn (st\<lparr>jn_surface := ?s'\<rparr>) (renderer_removeMask r')"
  have "fillAlphaMask env minX minY maxX maxY maskType jmask x y mw mh offset st = Done ?st'"
    using box(2,5) so(3) acq ok(2) r'(1) su'(4) h32
    by (simp add: fillAlphaMask_def acquired_def Let_def oom_check_def drawn_def ok(3) r_def setup_mask_def)
  moreover have un: "unchanged (jn_rdr st) (renderer_removeMask r')"
  proof -
    have 1: "unchanged r (r'\<lparr>r_maskOffset := r_maskOffset r\<rparr>)"
      using moved_unchanged [OF r'(3) [unfolded mask_moved_def]] by (simp add: unchanged_def)
    have 2: "unchanged ?m r" using kept_unchanged [OF validate_invalidated(1) [of ?m ?s']] by (simp add: r_def setup_mask_def unchanged_def)
    have 3: "unchanged (jn_rdr st) (?m\<lparr>r_maskType := NO_MASK\<rparr>)" "unchanged r' ((renderer_removeMask r')\<lparr>r_maskType := r_maskType r'\<rparr>)"
      "r_maskType (renderer_removeMask r') = NO_MASK"
      using ok(1) by (simp_all add: unchanged_def renderer_setMask_def renderer_removeMask_def set_state_def draw_ok_def)
    show ?thesis using 1 2 3 ok(1) by (simp add: unchanged_def draw_ok_def)
  qed
  moreover have "draw_ok env ?st'"
  proof -
    have "coherent ?m" using ok(1,4) by (auto simp: draw_ok_def intro!: renderer_setMask_coherent)
    then have "coherent (invalidate_renderer_surface ?m)"
      unfolding invalidate_renderer_surface_def by (rule set_state_coherent)
    then have "coherent r"
      using validate_blitting_coherent [of _ ?s'] so(1) by (simp add: r_def setup_mask_def surface_ok_def)
    then have "coherent (r'\<lparr>r_maskOffset := 0\<rparr>)"
      using moved_coherent [OF r'(3) [unfolded mask_moved_def]] by simp
    then have "coherent (renderer_removeMask r')" by (simp add: renderer_removeMask_coherent)
    moreover have "r_data (renderer_removeMask r') = r_data r'" "r_paint (renderer_removeMask r') = r_paint r'"
      by (simp_all add: renderer_removeMask_def set_state_def)
    ultimately show ?thesis
      using unchanged_draw_ok [OF ok(1) un] r'(2) len by simp
  qed
  moreover have "jn_dataInt ?st' = r_data r'" by (simp add: drawn_def renderer_removeMask_def set_state_def)
  moreover have "jn_rdr ?st' = renderer_removeMask r'" by (simp add: drawn_def)
  ultimately show ?thesis using r'(4) by (intro exI [of _ ?st'] conjI) simp_all
qed

end

lemma setup_mask_modes:
  fixes x0 x1 y0 offset :: int
  assumes "coherent rdr" "s_imageType s = TYPE_INT_ARGB_PRE" "r_compositeRule rdr = COMPOSITE_SRC_OVER"
  defines "r \<equiv> setup_mask s x0 x1 y0 offset rdr"
  shows "r_genPaint r = select_gen (r_paintMode rdr)"
    "r_emitLine r = select_line COMPOSITE_SRC_OVER (r_paintMode rdr = PAINT_FLAT_COLOR)"
    "r_emitRows r = select_rows (r_maskType rdr) COMPOSITE_SRC_OVER (r_paintMode rdr = PAINT_FLAT_COLOR)"
    "colour_of r = user_colour rdr" "kept rdr r"
proof -
  define v where "v = validate_blitting s (invalidate_renderer_surface rdr)"
  have c: "coherent (invalidate_renderer_surface rdr)"
    using assms(1) unfolding invalidate_renderer_surface_def by (rule set_state_coherent)
  have st: "paint_stage v" "colour_stage v" using validate_blitting_stages [OF c assms(2)] by (simp_all add: v_def)
  have k: "kept rdr v" by (simp add: v_def validate_invalidated)
  show "kept rdr r" using k by (simp add: r_def setup_mask_def v_def [symmetric] kept_def)
  show "r_genPaint r = select_gen (r_paintMode rdr)"
    "r_emitLine r = select_line COMPOSITE_SRC_OVER (r_paintMode rdr = PAINT_FLAT_COLOR)"
    "r_emitRows r = select_rows (r_maskType rdr) COMPOSITE_SRC_OVER (r_paintMode rdr = PAINT_FLAT_COLOR)"
    "colour_of r = user_colour rdr"
    using st k assms(3) by (simp_all add: r_def setup_mask_def v_def [symmetric] kept_def paint_stage_def colour_stage_def
        colour_of_def user_colour_def)
qed

text \<open>What \<^verbatim>\<open>PiscesRenderer.fillAlphaMask\<close> has checked of a mask whose rows have no gaps.\<close>

definition mask_fits :: "jbyte list \<Rightarrow> int \<Rightarrow> int \<Rightarrow> int \<Rightarrow> int \<Rightarrow> int \<Rightarrow> bool" where
  "mask_fits jmask x y mw mh offset \<longleftrightarrow> 0 < mw \<and> 0 < mh \<and> 0 \<le> offset \<and> offset + mh * mw \<le> int (length jmask) \<and>
     int (length jmask) < 2 ^ 31 \<and> is_jint x \<and> is_jint y \<and> x + mw \<le> 2 ^ 31 \<and> y + mh \<le> 2 ^ 31"

lemma mask_window:
  assumes "mask_fits jmask x y mw mh offset" "x \<le> minX" "minX \<le> maxX" "maxX < x + mw" "y \<le> minY" "minY \<le> maxY" "maxY < y + mh"
  defines "off \<equiv> offset + (minY - y) * mw + minX - x"
  shows "i32 off = off" "0 \<le> off" "off + (maxY - minY) * mw + (maxX - minX + 1) \<le> int (length jmask)"
proof -
  note f = assms(1) [unfolded mask_fits_def]
  define A where "A = (minY - y) * mw"
  define B where "B = (maxY - minY) * mw"
  have "A + B = (maxY - y) * mw" by (simp add: A_def B_def algebra_simps)
  also have "\<dots> \<le> (mh - 1) * mw" using f assms by (intro mult_right_mono) auto
  finally have AB: "A + B + mw \<le> mh * mw" "0 \<le> A" "0 \<le> B" using f assms by (simp_all add: A_def B_def left_diff_distrib)
  have off: "off = offset + A + minX - x" by (simp add: off_def A_def)
  show "0 \<le> off" "off + (maxY - minY) * mw + (maxX - minX + 1) \<le> int (length jmask)"
    using AB f assms(2-4) unfolding off B_def [symmetric] by linarith+
  then show "i32 off = off" using AB f assms(2-4) unfolding B_def [symmetric] by (intro i32_small) auto
qed

lemma clip_window:
  assumes "mask_fits jmask x y mw mh offset" "clip_ok s rdr"
    and "minX = max x (r_clip_bbMinX rdr)" "maxX = min (x + mw - 1) (r_clip_bbMaxX rdr)"
    and "minY = max y (r_clip_bbMinY rdr)" "maxY = min (y + mh - 1) (r_clip_bbMaxY rdr)"
  shows "i32 (x + mw - 1) = x + mw - 1" "i32 (y + mh - 1) = y + mh - 1" "0 \<le> minX" "maxX < s_width s" "0 \<le> minY" "maxY < s_height s"
    "x \<le> minX" "maxX < x + mw" "y \<le> minY" "maxY < y + mh"
  using assms by (auto simp: mask_fits_def clip_ok_def is_jint_def intro!: i32_small)

context mask_drawer
begin

lemma fillAlphaMaskImpl_ok:
  fixes mh :: int
  assumes ok: "draw_ok env st" "env_array env" "gamma = jn_gamma st" "mask_fits jmask x y mw mh offset"
    and win: "minX = max x (r_clip_bbMinX (jn_rdr st))" "maxX = min (x + mw - 1) (r_clip_bbMaxX (jn_rdr st))"
      "minY = max y (r_clip_bbMinY (jn_rdr st))" "maxY = min (y + mh - 1) (r_clip_bbMaxY (jn_rdr st))"
  defines "r \<equiv> setup_mask ((jn_surface st)\<lparr>s_data := jn_dataInt st\<rparr>) minX maxX minY (offset + (minY - y) * mw + minX - x)
      (renderer_setMask (jn_rdr st) ALPHA_MASK jmask mw mh False)"
  assumes rd: "ready r"
  shows "\<exists>st'. fillAlphaMaskImpl env jmask x y mw mh offset stride st = Done st' \<and> draw_ok env st' \<and>
    unchanged (jn_rdr st) (jn_rdr st') \<and>
    rect_drawn (s_width (jn_surface st)) minX (maxX - minX + 1) minY (maxY - minY + 1)
      (\<lambda>row k. R r (jmask ! nat (offset + (row - y) * mw + (minX + k - x)) AND 0xff)) (jn_dataInt st) (jn_dataInt st')"
proof -
  let ?off = "offset + (minY - y) * mw + minX - x"
  have clip: "clip_ok (jn_surface st) (jn_rdr st)" using ok(1) by (simp add: draw_ok_def)
  note w = clip_window [OF ok(4) clip win]
  have imp: "fillAlphaMaskImpl env jmask x y mw mh offset stride st =
      fillAlphaMask env minX minY maxX maxY ALPHA_MASK jmask x y mw mh (i32 ?off) st"
    unfolding fillAlphaMaskImpl_def Let_def w(1,2) win [symmetric] ..
  show ?thesis
  proof (cases "minX \<le> maxX \<and> minY \<le> maxY")
    case False
    then have "fillAlphaMaskImpl env jmask x y mw mh offset stride st = Done st" by (auto simp: imp fillAlphaMask_def)
    then show ?thesis using False ok(1) by (auto simp: rect_drawn_empty unchanged_def)
  next
    case True
    note o = mask_window [OF ok(4) w(7) _ w(8,9) _ w(10)]
    have "0 \<le> mw" "int (length jmask) < 2 ^ 31" using ok(4) by (simp_all add: mask_fits_def)
    then obtain st' where st': "fillAlphaMask env minX minY maxX maxY ALPHA_MASK jmask x y mw mh ?off st = Done st'" "draw_ok env st' \<and> unchanged (jn_rdr st) (jn_rdr st')"
        "rect_drawn (s_width (jn_surface st)) minX (maxX - minX + 1) minY (maxY - minY + 1)
          (\<lambda>row k. R r (jmask ! nat (?off + (row - minY) * mw + k) AND 0xff)) (jn_dataInt st) (jn_dataInt st')"
      using fillAlphaMask_ok [OF ok(1-3) _ w(3) _ w(4,5) _ w(6), of ALPHA_MASK ?off mw jmask mh x y] o True rd
      unfolding r_def by auto
    have "rect_drawn (s_width (jn_surface st)) minX (maxX - minX + 1) minY (maxY - minY + 1)
        (\<lambda>row k. R r (jmask ! nat (offset + (row - y) * mw + (minX + k - x)) AND 0xff)) (jn_dataInt st) (jn_dataInt st')"
      using st'(3) by (rule rect_drawn_mono) (simp add: algebra_simps)
    then show ?thesis using st'(1,2) o(1) True by (auto simp: imp)
  qed
qed

end

lemma fillAlphaMaskImpl_flat_drawn:
  assumes "draw_ok env st" "env_array env" "mask_fits jmask x y mw mh offset"
    and "minX = max x (r_clip_bbMinX (jn_rdr st))" "maxX = min (x + mw - 1) (r_clip_bbMaxX (jn_rdr st))"
    and "minY = max y (r_clip_bbMinY (jn_rdr st))" "maxY = min (y + mh - 1) (r_clip_bbMaxY (jn_rdr st))"
    and "r_paintMode (jn_rdr st) = PAINT_FLAT_COLOR" "r_compositeRule (jn_rdr st) = COMPOSITE_SRC_OVER"
    and "byte_colour (user_colour (jn_rdr st))"
  shows "\<exists>st'. fillAlphaMaskImpl env jmask x y mw mh offset stride st = Done st' \<and> draw_ok env st' \<and>
    unchanged (jn_rdr st) (jn_rdr st') \<and>
    rect_drawn (s_width (jn_surface st)) minX (maxX - minX + 1) minY (maxY - minY + 1)
      (\<lambda>row k old new. new = over_ref (user_colour (jn_rdr st))
         (jmask ! nat (offset + (row - y) * mw + (minX + k - x)) AND 0xff) old)
      (jn_dataInt st) (jn_dataInt st')"
proof -
  let ?m = "renderer_setMask (jn_rdr st) ALPHA_MASK jmask mw mh False"
  define r where "r = setup_mask ((jn_surface st)\<lparr>s_data := jn_dataInt st\<rparr>) minX maxX minY (offset + (minY - y) * mw + minX - x) ?m"
  have s: "coherent ?m" "s_imageType ((jn_surface st)\<lparr>s_data := jn_dataInt st\<rparr>) = TYPE_INT_ARGB_PRE" "r_compositeRule ?m = COMPOSITE_SRC_OVER"
    using assms(1,9) by (auto simp: draw_ok_def surface_ok_def setMask_fields intro!: renderer_setMask_coherent)
  note m = setup_mask_modes [OF s, of minX maxX minY "offset + (minY - y) * mw + minX - x", folded r_def]
  have "mask_flat_ready r" using m assms(8,10) by (simp add: mask_flat_ready_def select_gen_def select_rows_def setMask_fields)
  from mask_flat.fillAlphaMaskImpl_ok [OF assms(1,2) refl assms(3-7) this [unfolded r_def]]
  show ?thesis unfolding mask_flat_rel_def r_def [symmetric] using m(4) by (simp add: setMask_fields)
qed

text \<open>
  C12: Filling an alpha mask with a flat colour, from the call in Java to the pixels: the call returns; the
  pixels where mask and clip overlap become the weighted means of the colour and what was there, each
  weighted by its byte of the mask; every other pixel is unchanged and Java may draw again.
\<close>

theorem fillAlphaMaskImpl_flat_correct:
  assumes "draw_ok env st" "env_array env" "mask_fits jmask x y mw mh offset"
    and "minX = max x (r_clip_bbMinX (jn_rdr st))" "maxX = min (x + mw - 1) (r_clip_bbMaxX (jn_rdr st))"
    and "minY = max y (r_clip_bbMinY (jn_rdr st))" "maxY = min (y + mh - 1) (r_clip_bbMaxY (jn_rdr st))"
    and "r_paintMode (jn_rdr st) = PAINT_FLAT_COLOR" "r_compositeRule (jn_rdr st) = COMPOSITE_SRC_OVER"
    and "byte_colour (user_colour (jn_rdr st))"
  shows "\<exists>st'. fillAlphaMaskImpl env jmask x y mw mh offset stride st = Done st' \<and> draw_ok env st' \<and>
    unchanged (jn_rdr st) (jn_rdr st') \<and>
    rect_drawn (s_width (jn_surface st)) minX (maxX - minX + 1) minY (maxY - minY + 1)
      (\<lambda>row k old new. new = over_ref (user_colour (jn_rdr st))
         (jmask ! nat (offset + (row - y) * mw + (minX + k - x)) AND 0xff) old)
      (jn_dataInt st) (jn_dataInt st')"
  by (rule fillAlphaMaskImpl_flat_drawn) (rule assms)+

theorem fillAlphaMaskImpl_flat_correct_witness:
  "\<exists>st'. fillAlphaMaskImpl sample_env [0, 64, 128, -1] 3 0 2 2 0 2 sample_fill_state = Done st' \<and> draw_ok sample_env st' \<and>
    unchanged (jn_rdr sample_fill_state) (jn_rdr st') \<and>
    rect_drawn 4 3 1 0 2 (\<lambda>row k old new. new = over_ref (128, 255, 0, 0) ([0, 64, 128, -1] ! nat (row * 2 + k) AND 0xff) old)
      (replicate 8 0) (jn_dataInt st')"
proof -
  have "mask_fits [0, 64, 128, -1] 3 0 2 2 0" by (simp add: mask_fits_def is_jint_def)
  then show ?thesis
    using fillAlphaMaskImpl_flat_correct [OF sample_fill_ok _ _ refl refl refl refl, of "[0, 64, 128, -1]" 3 0 2 2 0 2]
    by (simp add: sample_fill_simps sample_env_def byte_colour_def)
qed

lemma fillAlphaMaskImpl_paint_drawn:
  assumes "draw_ok env st" "env_array env" "mask_fits jmask x y mw mh offset"
    and "minX = max x (r_clip_bbMinX (jn_rdr st))" "maxX = min (x + mw - 1) (r_clip_bbMaxX (jn_rdr st))"
    and "minY = max y (r_clip_bbMinY (jn_rdr st))" "maxY = min (y + mh - 1) (r_clip_bbMaxY (jn_rdr st))"
    and "brush_ok env (jn_rdr st)" "r_compositeRule (jn_rdr st) = COMPOSITE_SRC_OVER"
  shows "\<exists>st'. fillAlphaMaskImpl env jmask x y mw mh offset stride st = Done st' \<and> draw_ok env st' \<and>
    unchanged (jn_rdr st) (jn_rdr st') \<and>
    rect_drawn (s_width (jn_surface st)) minX (maxX - minX + 1) minY (maxY - minY + 1)
      (\<lambda>row k old new. \<exists>c. paint_colour (jn_rdr st) c \<and>
         new = pt_over_ref c (jmask ! nat (offset + (row - y) * mw + (minX + k - x)) AND 0xff) old)
      (jn_dataInt st) (jn_dataInt st')"
proof -
  let ?m = "renderer_setMask (jn_rdr st) ALPHA_MASK jmask mw mh False"
  define r where "r = setup_mask ((jn_surface st)\<lparr>s_data := jn_dataInt st\<rparr>) minX maxX minY (offset + (minY - y) * mw + minX - x) ?m"
  have s: "coherent ?m" "s_imageType ((jn_surface st)\<lparr>s_data := jn_dataInt st\<rparr>) = TYPE_INT_ARGB_PRE" "r_compositeRule ?m = COMPOSITE_SRC_OVER"
    using assms(1,9) by (auto simp: draw_ok_def surface_ok_def setMask_fields intro!: renderer_setMask_coherent)
  note m = setup_mask_modes [OF s, of minX maxX minY "offset + (minY - y) * mw + minX - x", folded r_def]
  have b: "brush_ok env ?m" "paint_colour ?m = paint_colour (jn_rdr st)"
    using assms(8) by (simp_all add: brush_ok_def gradient_paint_ok_def gradient_ok_def paint_colour_def setMask_fields fun_eq_iff)
  have ready: "mask_paint_ready env r" and source: "paint_source r = paint_colour (jn_rdr st)"
    using brush_ready [OF b(1) m(5,1,2,4)] b(2) m(3) assms(8)
    by (auto simp: mask_paint_ready_def setMask_fields select_rows_def brush_ok_def)
  from mask_paint.fillAlphaMaskImpl_ok [OF assms(1,2) refl assms(3-7) ready [unfolded r_def]]
  show ?thesis unfolding mask_paint_rel_def r_def [symmetric] source .
qed

text \<open>
  C13: The same for paints: where mask and clip overlap, the paint's colour for the pixel, faded by the byte
  of the mask, goes over what was there. The colours are premultiplied and, for gradients, from the ramp.
\<close>

theorem fillAlphaMaskImpl_paint_correct:
  assumes "draw_ok env st" "env_array env" "mask_fits jmask x y mw mh offset"
    and "minX = max x (r_clip_bbMinX (jn_rdr st))" "maxX = min (x + mw - 1) (r_clip_bbMaxX (jn_rdr st))"
    and "minY = max y (r_clip_bbMinY (jn_rdr st))" "maxY = min (y + mh - 1) (r_clip_bbMaxY (jn_rdr st))"
    and "brush_ok env (jn_rdr st)" "r_compositeRule (jn_rdr st) = COMPOSITE_SRC_OVER"
  shows "\<exists>st'. fillAlphaMaskImpl env jmask x y mw mh offset stride st = Done st' \<and> draw_ok env st' \<and>
    unchanged (jn_rdr st) (jn_rdr st') \<and>
    rect_drawn (s_width (jn_surface st)) minX (maxX - minX + 1) minY (maxY - minY + 1)
      (\<lambda>row k old new. \<exists>c. paint_colour (jn_rdr st) c \<and>
         new = pt_over_ref c (jmask ! nat (offset + (row - y) * mw + (minX + k - x)) AND 0xff) old)
      (jn_dataInt st) (jn_dataInt st')"
  by (rule fillAlphaMaskImpl_paint_drawn) (rule assms)+

theorem fillAlphaMaskImpl_paint_correct_witness:
  "\<exists>st'. fillAlphaMaskImpl sample_env [0, 64, 128, -1] 3 0 2 2 0 2 sample_image_state = Done st' \<and> draw_ok sample_env st' \<and>
    unchanged (jn_rdr sample_image_state) (jn_rdr st') \<and>
    rect_drawn 4 3 1 0 2 (\<lambda>row k old new. \<exists>c. paint_colour (jn_rdr sample_image_state) c \<and>
        new = pt_over_ref c ([0, 64, 128, -1] ! nat (row * 2 + k) AND 0xff) old)
      (replicate 8 0) (jn_dataInt st')"
proof -
  have "mask_fits [0, 64, 128, -1] 3 0 2 2 0" by (simp add: mask_fits_def is_jint_def)
  moreover have "r_compositeRule (jn_rdr sample_image_state) = COMPOSITE_SRC_OVER"
    "r_clip_bbMinX (jn_rdr sample_image_state) = 0" "r_clip_bbMaxX (jn_rdr sample_image_state) = 3"
    "r_clip_bbMinY (jn_rdr sample_image_state) = 0" "r_clip_bbMaxY (jn_rdr sample_image_state) = 1"
    "s_width (jn_surface sample_image_state) = 4" "jn_dataInt sample_image_state = replicate 8 0"
    by (simp_all add: sample_image_state_def setTexture_fields sample_fill_simps)
  ultimately show ?thesis
    using fillAlphaMaskImpl_paint_correct [OF sample_image_state_ok(1) _ _ refl refl refl refl sample_image_state_ok(2), of "[0, 64, 128, -1]" 3 0 2 2 0 2]
    by (simp add: sample_env_def)
qed

lemma gen_paint_frame:
  assumes "gen_paint env l n rdr = Some rdr'"
  shows "\<exists>p. rdr' = rdr\<lparr>r_paint := p\<rparr>"
proof -
  have self: "\<exists>p. r = r\<lparr>r_paint := p\<rparr>" for r :: renderer
    by (rule exI [of _ "r_paint r"]) simp
  have lin: "genLinearGradientPaint r h = Some r' \<Longrightarrow> \<exists>p. r' = r\<lparr>r_paint := p\<rparr>" for r h r'
    by (auto simp: genLinearGradientPaint_def bind_eq_Some_conv)
  have rad: "genRadialGradientPaint r h = Some r' \<Longrightarrow> \<exists>p. r' = r\<lparr>r_paint := p\<rparr>" for r h r'
    by (auto simp: genRadialGradientPaint_def bind_eq_Some_conv)
  have mul: "genTexturePaintMultiply a r h = Some r' \<Longrightarrow> \<exists>p. r' = r\<lparr>r_paint := p\<rparr>" for a r h r'
    unfolding genTexturePaintMultiply_def Let_def
    by (auto simp: bind_eq_Some_conv self split: if_splits dest!: lin rad)
  have gen: "run_gen a g r h = Some r' \<Longrightarrow> \<exists>p. r' = r\<lparr>r_paint := p\<rparr>" for a g r h r'
    by (cases g) (auto simp: run_gen_def genTexturePaint_def bind_eq_Some_conv dest!: lin rad mul)
  show ?thesis
  proof (cases "r_genPaint rdr")
    case None
    then show ?thesis using assms by (simp add: gen_paint_def self)
  next
    case (Some g)
    have "\<exists>q. alloc_paint (env_alloc env) l rdr = rdr\<lparr>r_paint := q\<rparr>"
      using self [of rdr] unfolding alloc_paint_def by (cases "r_paint rdr = [] \<or> int (length (r_paint rdr)) < l") auto
    then obtain q where "run_gen (env_temp env) g (rdr\<lparr>r_paint := q\<rparr>) n = Some rdr'"
      using assms Some by (auto simp: gen_paint_def)
    from gen [OF this] show ?thesis by auto
  qed
qed

text \<open>
  C40: An LCD mask can only be filled with a flat colour. With any paint the table of routines has no entry for
  it, and the call goes through a null pointer.
\<close>

theorem fillLCDAlphaMaskImpl_paint_faults:
  assumes "draw_ok env st" "env_array env" "r_compositeRule (jn_rdr st) = COMPOSITE_SRC_OVER"
    and "r_paintMode (jn_rdr st) \<noteq> PAINT_FLAT_COLOR"
    and "max x (r_clip_bbMinX (jn_rdr st)) \<le> min (x + mw div 3 - 1) (r_clip_bbMaxX (jn_rdr st))"
    and "max y (r_clip_bbMinY (jn_rdr st)) \<le> min (y + mh - 1) (r_clip_bbMaxY (jn_rdr st))"
    and "0 < mw" "0 < mh" "is_jint x" "is_jint y" "x + mw div 3 \<le> 2 ^ 31" "y + mh \<le> 2 ^ 31"
  shows "fillLCDAlphaMaskImpl env jmask x y mw mh offset stride st = Fault"
proof -
  let ?s = "jn_surface st" and ?s' = "(jn_surface st)\<lparr>s_data := jn_dataInt st\<rparr>"
  let ?m = "renderer_setMask (jn_rdr st) LCD_ALPHA_MASK jmask mw mh False"
  define minX minY maxX maxY where "minX = max x (r_clip_bbMinX (jn_rdr st))" and "minY = max y (r_clip_bbMinY (jn_rdr st))"
    and "maxX = min (x + mw div 3 - 1) (r_clip_bbMaxX (jn_rdr st))" and "maxY = min (y + mh - 1) (r_clip_bbMaxY (jn_rdr st))"
  note m_defs = minX_def [symmetric] minY_def [symmetric] maxX_def [symmetric] maxY_def [symmetric]
  have i: "i32 (x + mw div 3 - 1) = x + mw div 3 - 1" "i32 (y + mh - 1) = y + mh - 1"
    using assms(5,7-12) by (auto simp: is_jint_def intro!: i32_small)
  have so: "surface_ok ?s (jn_dataInt st)" "\<not> jn_memError st" "env_surface env" and clip: "clip_ok ?s (jn_rdr st)"
    using assms(1) by (simp_all add: draw_ok_def)
  define off where "off = i32 (offset + (minY - y) * mw + (minX - x) * 3)"
  define r where "r = setup_mask ?s' minX maxX minY off ?m"
  have s: "coherent ?m" "s_imageType ?s' = TYPE_INT_ARGB_PRE" "r_compositeRule ?m = COMPOSITE_SRC_OVER"
    using assms(1,3) by (auto simp: draw_ok_def surface_ok_def setMask_fields intro!: renderer_setMask_coherent)
  have rows: "r_emitRows r = None"
    using setup_mask_modes(3) [OF s] assms(4) by (simp add: r_def setMask_fields select_rows_def)
  have le: "minX \<le> maxX" "minY \<le> maxY" using assms(5,6) by (simp_all add: m_defs)
  have h: "i32 (maxY - minY + 1) = maxY - minY + 1"
  proof -
    have "1 * s_height ?s \<le> s_width ?s * s_height ?s" using so(1) by (intro mult_right_mono) (auto simp: surface_ok_def)
    then have "s_height ?s < 2147483648" using so(1) by (simp add: surface_ok_def mult.commute)
    then show ?thesis using le clip by (intro i32_small) (auto simp: clip_ok_def minY_def maxY_def)
  qed
  have fault: "mask_lines env (jn_gamma st) (s_width ?s) x (i32 (maxX - minX + 1)) mw (i32 (maxY - minY + 1)) r = None"
  proof -
    have "(gen_paint env l n rdr \<bind> (\<lambda>rdr. run_blit g (r_emitRows rdr) rdr n)) = None" if "r_emitRows rdr = None" for l n rdr g
    proof (cases "gen_paint env l n rdr")
      case (Some rdr')
      then have "r_emitRows rdr' = None" using gen_paint_frame [OF Some] that by auto
      then show ?thesis using Some by (simp add: run_blit_def)
    qed simp
    moreover have "r_emitRows (r\<lparr>r_currImageOffset := a\<rparr>) = None" for a using rows by simp
    ultimately show ?thesis using le h by (subst mask_lines.simps) (simp add: Let_def)
  qed
  have acq: "surface_acquire env st = Done (st\<lparr>jn_surface := ?s'\<rparr>)"
    by (rule surface_acquire_ok) (use so in \<open>simp_all add: surface_ok_fits\<close>)
  have "sgn mw * (\<bar>mw\<bar> div 3) = mw div 3" using assms(7) by simp
  then have "fillLCDAlphaMaskImpl env jmask x y mw mh offset stride st = fillAlphaMask env minX minY maxX maxY LCD_ALPHA_MASK jmask x y mw mh off st"
    unfolding fillLCDAlphaMaskImpl_def Let_def by (simp only: i m_defs off_def)
  then show ?thesis
    using assms(2) le so(2) acq fault by (simp add: fillAlphaMask_def acquired_def Let_def r_def setup_mask_def)
qed

theorem fillLCDAlphaMaskImpl_paint_faults_witness:
  "fillLCDAlphaMaskImpl sample_env [0, 64, 128] 1 0 3 1 0 3 sample_image_state = Fault"
proof -
  have "r_compositeRule (jn_rdr sample_image_state) = COMPOSITE_SRC_OVER" "r_paintMode (jn_rdr sample_image_state) = PAINT_TEXTURE8888"
    "r_clip_bbMinX (jn_rdr sample_image_state) = 0" "r_clip_bbMaxX (jn_rdr sample_image_state) = 3"
    "r_clip_bbMinY (jn_rdr sample_image_state) = 0" "r_clip_bbMaxY (jn_rdr sample_image_state) = 1"
    by (simp_all add: sample_image_state_def setTexture_fields sample_fill_simps)
  then show ?thesis
    using fillLCDAlphaMaskImpl_paint_faults [OF sample_image_state_ok(1), of 1 3 0 1 "[0, 64, 128]" 0 3]
    by (simp add: sample_env_def is_jint_def)
qed
end
