(* ===== verification/Pisces_Row_Correct.thy ===== *)
theory Pisces_Row_Correct
  imports Pisces_Mask_Correct
begin

text \<open>
  Rows of antialiased shapes and clearing, from the calls in Java to the pixels: the rasteriser in Java
  hands over one row of coverage deltas at a time, \<^verbatim>\<open>emitAndClearAlphaRow\<close> draws it and zeroes the deltas.
\<close>

section \<open>One row of coverage\<close>

lemma rows_of_span:
  assumes "span_drawn rdr f rdr'" "rows_apart rdr"
  shows "rows_drawn rdr 1 (\<lambda>_. f) rdr'"
proof -
  let ?st = "r_imageScanlineStride rdr" and ?n = "span_width rdr"
  have st: "0 < ?st" "?n \<le> ?st" using assms(2) by (simp_all add: rows_apart_def)
  have e: "(if 0 \<le> p \<and> p div ?st < 1 \<and> p mod ?st < ?n then f (p mod ?st) v else v) = (if 0 \<le> p \<and> p < ?n then f p v else v)" for p v
  proof (cases "0 \<le> p \<and> p < ?st")
    case True
    then show ?thesis by simp
  next
    case False
    have "p div ?st < 1 \<longleftrightarrow> p < ?st" using st(1) div_pos_pos_trivial [of p ?st] pos_imp_zdiv_pos_iff [of ?st p] by (cases "p < ?st") linarith+
    then show ?thesis using False st(2) by auto
  qed
  show ?thesis using assms(1) unfolding rows_drawn_def span_drawn_def Let_def e .
qed

lemma blitSrcOver8888_pre_drawn:
  assumes "span_ok rdr" "aa_ok rdr" "byte_colour (colour_of rdr)" "premul_buf (r_data rdr)"
  shows "\<exists>d. blitSrcOver8888_pre rdr 1 = Some (rdr\<lparr>r_data := d, r_rowAAInt := zero_prefix (span_width rdr) (r_rowAAInt rdr)\<rparr>) \<and>
    span_drawn rdr (\<lambda>k. over_ref (colour_of rdr) (aa_cov0 rdr k)) (rdr\<lparr>r_data := d\<rparr>)"
proof -
  define d where "d = paint_span (\<lambda>k. src_over_px (colour_of rdr) (aa_cov0 rdr k)) (span_start rdr) (span_width rdr) (r_data rdr)"
  have "span_drawn rdr (\<lambda>k. over_ref (colour_of rdr) (aa_cov0 rdr k)) (rdr\<lparr>r_data := d\<rparr>)"
    using assms by (intro span_drawnI [where g = "\<lambda>k. src_over_px (colour_of rdr) (aa_cov0 rdr k)"])
      (auto simp: d_def intro!: over.span_premul src_over_px_ref)
  then show ?thesis using blitSrcOver8888_pre_span [OF assms(1-3)] by (auto simp: d_def)
qed

lemma blitPTSrcOver8888_pre_drawn:
  assumes "span_ok rdr" "aa_ok rdr" "paint_ok rdr" "premul_buf (r_paint rdr)" "premul_buf (r_data rdr)"
  shows "\<exists>d. blitPTSrcOver8888_pre rdr 1 = Some (rdr\<lparr>r_data := d, r_rowAAInt := zero_prefix (span_width rdr) (r_rowAAInt rdr)\<rparr>) \<and>
    span_drawn rdr (\<lambda>k. pt_over_ref (r_paint rdr ! nat k) (aa_cov0 rdr k)) (rdr\<lparr>r_data := d\<rparr>)"
proof -
  define d where "d = paint_span (\<lambda>k. pt_src_over_px (r_paint rdr ! nat k) (aa_cov0 rdr k)) (span_start rdr) (span_width rdr) (r_data rdr)"
  have "span_drawn rdr (\<lambda>k. pt_over_ref (r_paint rdr ! nat k) (aa_cov0 rdr k)) (rdr\<lparr>r_data := d\<rparr>)"
    using assms by (intro span_drawnI [where g = "\<lambda>k. pt_src_over_px (r_paint rdr ! nat k) (aa_cov0 rdr k)"])
      (auto simp: d_def intro!: pt_over.span_premul pt_src_over_px_ref paint_premul)
  then show ?thesis using blitPTSrcOver8888_pre_span [OF assms(1-3)] by (auto simp: d_def)
qed

text \<open>The renderer set up for the row.\<close>

definition setup_row :: "surface \<Rightarrow> int \<Rightarrow> int \<Rightarrow> int \<Rightarrow> int \<Rightarrow> jbyte list \<Rightarrow> jint list \<Rightarrow> renderer \<Rightarrow> renderer" where
  "setup_row s x0 x1 y rowNum alphaMap row rdr =
     (validate_blitting s (invalidate_renderer_surface rdr))
       \<lparr>r_minTouched := x0, r_maxTouched := x1, r_currX := x0, r_currY := y,
        r_rowNum := rowNum, r_alphaMap := alphaMap, r_rowAAInt := row,
        r_alphaWidth := i32 (x1 - x0 + 1), r_currImageOffset := i32 (y * s_width s),
        r_imageScanlineStride := s_width s, r_imagePixelStride := 1\<rparr>"

text \<open>The coverage of pixel \<open>k\<close>: the sum of the deltas up to it, looked up in \<open>alphaMap\<close>; a sum of zero is none.\<close>

definition row_cov :: "jbyte list \<Rightarrow> jint list \<Rightarrow> int \<Rightarrow> int" where
  "row_cov alphaMap row k = (let s = psum row (k + 1) in if s = 0 then 0 else alphaMap ! nat s AND 0xff)"

definition row_fits :: "jbyte list \<Rightarrow> jint list \<Rightarrow> int \<Rightarrow> bool" where
  "row_fits alphaMap row n \<longleftrightarrow> n \<le> int (length row) \<and> int (length alphaMap) < 2 ^ 31 \<and>
     (\<forall>k \<in> {0..<n}. 0 \<le> psum row (k + 1) \<and> psum row (k + 1) < int (length alphaMap))"

lemma setup_row_ok:
  fixes rowNum :: int and rdr :: renderer
  assumes "surface_ok s d" "s_data s = d" "0 \<le> x0" "x0 \<le> x1" "x1 < s_width s" "0 \<le> y" "y < s_height s"
    and "row_fits alphaMap row (x1 - x0 + 1)" "buffer_ok (r_paint rdr)"
  defines "r \<equiv> setup_row s x0 x1 y rowNum alphaMap row rdr"
  shows "span_ok r" "aa_ok r" "rows_apart r" "span_width r = x1 - x0 + 1" "i32 (x1 - x0 + 1) = x1 - x0 + 1"
    "r_imageScanlineStride r = s_width s" "r_minTouched r = x0" "r_currImageOffset r = y * s_width s" "r_data r = d"
    "r_maxTouched r = x1" "r_alphaWidth r = x1 - x0 + 1" "aa_cov0 r = row_cov alphaMap row" "r_rowAAInt r = row"
    "premul_buf (r_data r)" "x1 - x0 + 1 < 2 ^ 31"
proof -
  note su = setup_at_row [OF assms(1-7), of 0 0 rdr]
  have at: "at_row (s_width s) x0 x1 (s_height s) y (setup_rect s x0 x1 y 0 0 rdr)" using su(1) assms(4,9) by simp
  have line: "rows_ok (setup_rect s x0 x1 y 0 0 rdr) 1" "rows_apart (setup_rect s x0 x1 y 0 0 rdr)"
    using at_row_line(1,2) [OF at, of 1 0] assms(7) by (simp_all add: line_ok_def)
  show w: "span_width r = x1 - x0 + 1" using assms(4) by (simp add: r_def setup_row_def span_width_def)
  show i: "i32 (x1 - x0 + 1) = x1 - x0 + 1" using su(4) assms(4,9) by simp
  show "r_imageScanlineStride r = s_width s" "r_minTouched r = x0" "r_maxTouched r = x1" "r_alphaWidth r = x1 - x0 + 1"
    "r_rowAAInt r = row"
    using i by (simp_all add: r_def setup_row_def)
  have off: "i32 (y * s_width s) = y * s_width s" using at by (simp add: at_row_def setup_rect_def)
  then show off': "r_currImageOffset r = y * s_width s" by (simp add: r_def setup_row_def)
  show rd: "r_data r = d" using validate_invalidated(2) [of s rdr] assms(2) by (simp add: r_def setup_row_def)
  show "premul_buf (r_data r)" using assms(1) by (simp add: rd surface_ok_def)
  have rw: "span_width (setup_rect s x0 x1 y 0 0 rdr) = x1 - x0 + 1" using setup_rect_fields(3) assms(4) by simp
  show "rows_apart r" using line(2) rw w by (simp add: rows_apart_def r_def setup_row_def setup_rect_def)
  show "span_ok r"
    using line(1) rw w rd off validate_invalidated(2) [of s rdr] assms(2)
    by (simp add: rows_ok_def span_ok_def span_start_def) (simp add: r_def setup_row_def setup_rect_def)
  then show "x1 - x0 + 1 < 2 ^ 31" using w by (auto simp: span_ok_def span_start_def)
  have am: "r_alphaMap r = alphaMap" "r_rowAAInt r = row" by (simp_all add: r_def setup_row_def)
  then show "aa_ok r" using assms(8) w by (simp add: aa_ok_def row_fits_def)
  show "aa_cov0 r = row_cov alphaMap row" using am by (simp add: aa_cov0_def aa_cov_def row_cov_def fun_eq_iff Let_def)
qed

text \<open>What remains of the call once the row is drawn.\<close>

lemma emitRow_done:
  fixes y x0 x1 rowNum :: int and alphaMap :: "jbyte list"
  assumes ok: "draw_ok env st" "env_array env" "env_array2 env"
    and x: "x0 = max x_from (r_clip_bbMinX (jn_rdr st))" "x1 = min x_to (r_clip_bbMaxX (jn_rdr st))" "x0 \<le> x1"
    and y: "r_clip_bbMinY (jn_rdr st) \<le> y" "y \<le> r_clip_bbMaxY (jn_rdr st)"
    and off: "0 \<le> x_off" "x_off \<le> int (length deltas)"
  defines "r \<equiv> setup_row ((jn_surface st)\<lparr>s_data := jn_dataInt st\<rparr>) x0 x1 y rowNum alphaMap (drop (nat x_off) deltas) (jn_rdr st)"
  assumes draw: "(do { rdr \<leftarrow> gen_paint env (i32 (x1 - x0 + 1)) 1 r; run_blit (jn_gamma st) (r_emitRows rdr) rdr 1 }) =
      Some (r\<lparr>r_data := d, r_paint := p, r_rowAAInt := row\<rparr>)" "premul_buf d" "length d = length (jn_dataInt st)" "buffer_ok p"
  shows "\<exists>st'. emitAndClearAlphaRowImpl env alphaMap deltas y x_from x_to x_off rowNum st = Done (st', take (nat x_off) deltas @ row) \<and>
    draw_ok env st' \<and> unchanged (jn_rdr st) (jn_rdr st') \<and> jn_dataInt st' = d"
proof -
  let ?s = "jn_surface st" and ?s' = "(jn_surface st)\<lparr>s_data := jn_dataInt st\<rparr>"
  let ?v = "validate_blitting ?s' (invalidate_renderer_surface (jn_rdr st))"
  have so: "surface_ok ?s (jn_dataInt st)" "\<not> jn_memError st" "env_surface env" and clip: "clip_ok ?s (jn_rdr st)" and co: "coherent (jn_rdr st)"
    using ok(1) by (simp_all add: draw_ok_def)
  have acq: "surface_acquire env st = Done (st\<lparr>jn_surface := ?s'\<rparr>)"
    by (rule surface_acquire_ok) (use so in \<open>simp_all add: surface_ok_fits\<close>)
  have k: "kept (jn_rdr st) ?v" by (rule validate_invalidated)
  let ?r' = "r\<lparr>r_data := d, r_paint := p, r_rowAAInt := []\<rparr>"
  let ?st = "(st\<lparr>jn_surface := ?s'\<rparr>)\<lparr>jn_rdr := ?v\<rparr>"
  have "emitAndClearAlphaRowImpl env alphaMap deltas y x_from x_to x_off rowNum st =
      Done (drawn ?st ?r', take (nat x_off) deltas @ row)"
    using acq so(2) ok(2,3) x y off draw(1) k
    by (simp add: emitAndClearAlphaRowImpl_def Let_def kept_def r_def setup_row_def drawn_def oom_check_def)
  moreover have un: "unchanged (jn_rdr st) ?r'"
    using kept_unchanged [OF k] by (simp add: unchanged_def r_def setup_row_def)
  moreover have "draw_ok env (drawn ?st ?r')"
  proof -
    have "coherent (invalidate_renderer_surface (jn_rdr st))"
      using co unfolding invalidate_renderer_surface_def by (rule set_state_coherent)
    then have "coherent ?v" using validate_blitting_coherent [of _ ?s'] so(1) by (simp add: surface_ok_def)
    then have "coherent ?r'" by (simp add: r_def setup_row_def)
    then show ?thesis using unchanged_draw_ok [OF ok(1) un] draw(2-4) by (simp add: drawn_def)
  qed
  ultimately show ?thesis by (auto simp: drawn_def)
qed

lemma setup_row_modes:
  fixes x0 x1 y rowNum :: int and alphaMap :: "jbyte list" and row :: "jint list"
  assumes "coherent rdr" "s_imageType s = TYPE_INT_ARGB_PRE" "r_compositeRule rdr = COMPOSITE_SRC_OVER"
  defines "r \<equiv> setup_row s x0 x1 y rowNum alphaMap row rdr"
  shows "r_genPaint r = select_gen (r_paintMode rdr)"
    "r_emitLine r = select_line COMPOSITE_SRC_OVER (r_paintMode rdr = PAINT_FLAT_COLOR)"
    "r_emitRows r = select_rows (r_maskType rdr) COMPOSITE_SRC_OVER (r_paintMode rdr = PAINT_FLAT_COLOR)"
    "colour_of r = user_colour rdr" "kept rdr r"
  using setup_mask_modes [OF assms(1-3)] by (simp_all add: r_def setup_row_def setup_mask_def colour_of_def kept_def)

lemma emitAndClearAlphaRowImpl_flat_drawn:
  assumes "draw_ok env st" "env_array env" "env_array2 env"
    and "x0 = max x_from (r_clip_bbMinX (jn_rdr st))" "x1 = min x_to (r_clip_bbMaxX (jn_rdr st))" "x0 \<le> x1"
    and "r_clip_bbMinY (jn_rdr st) \<le> y" "y \<le> r_clip_bbMaxY (jn_rdr st)" "0 \<le> x_off" "x_off \<le> int (length deltas)"
    and "row_fits alphaMap (drop (nat x_off) deltas) (x1 - x0 + 1)"
    and "r_paintMode (jn_rdr st) = PAINT_FLAT_COLOR" "r_compositeRule (jn_rdr st) = COMPOSITE_SRC_OVER"
    and "byte_colour (user_colour (jn_rdr st))"
  shows "\<exists>st'. emitAndClearAlphaRowImpl env alphaMap deltas y x_from x_to x_off rowNum st =
      Done (st', take (nat x_off) deltas @ zero_prefix (x1 - x0 + 1) (drop (nat x_off) deltas)) \<and> draw_ok env st' \<and> unchanged (jn_rdr st) (jn_rdr st') \<and>
    rect_drawn (s_width (jn_surface st)) x0 (x1 - x0 + 1) y 1
      (\<lambda>_ k old new. new = over_ref (user_colour (jn_rdr st)) (row_cov alphaMap (drop (nat x_off) deltas) k) old)
      (jn_dataInt st) (jn_dataInt st')"
proof -
  let ?s = "jn_surface st" and ?s' = "(jn_surface st)\<lparr>s_data := jn_dataInt st\<rparr>" and ?row = "drop (nat x_off) deltas" and ?n = "x1 - x0 + 1"
  define r where "r = setup_row ?s' x0 x1 y rowNum alphaMap ?row (jn_rdr st)"
  have so: "surface_ok ?s' (jn_dataInt st)" "coherent (jn_rdr st)" "s_imageType ?s' = TYPE_INT_ARGB_PRE" and clip: "clip_ok ?s (jn_rdr st)"
    using assms(1) by (simp_all add: draw_ok_def surface_ok_def)
  have pb: "buffer_ok (r_paint (jn_rdr st))" and mk: "r_maskType (jn_rdr st) = NO_MASK" using assms(1) by (simp_all add: draw_ok_def)
  have px: "0 \<le> x0" "x1 < s_width ?s'" "0 \<le> y" "y < s_height ?s'" using clip assms(4,5,7,8) by (auto simp: clip_ok_def)
  have su: "span_ok r" "aa_ok r" "rows_apart r" "span_width r = ?n" "r_imageScanlineStride r = s_width ?s" "r_minTouched r = x0"
    "r_currImageOffset r = y * s_width ?s" "r_data r = jn_dataInt st" "aa_cov0 r = row_cov alphaMap ?row" "r_rowAAInt r = ?row" "premul_buf (r_data r)"
    using setup_row_ok [OF so(1) _ px(1) assms(6) px(2-4) assms(11) pb] by (simp_all add: r_def)
  note m = setup_row_modes [OF so(2,3) assms(13), of x0 x1 y rowNum alphaMap ?row, folded r_def]
  obtain d where d: "blitSrcOver8888_pre r 1 = Some (r\<lparr>r_data := d, r_rowAAInt := zero_prefix ?n ?row\<rparr>)"
      "span_drawn r (\<lambda>k. over_ref (user_colour (jn_rdr st)) (row_cov alphaMap ?row k)) (r\<lparr>r_data := d\<rparr>)"
    using blitSrcOver8888_pre_drawn [OF su(1,2)] su m(4) assms(14) by auto
  have rect: "rect_drawn (s_width ?s) x0 ?n y 1
      (\<lambda>_ k old new. new = over_ref (user_colour (jn_rdr st)) (row_cov alphaMap ?row k) old) (jn_dataInt st) d"
    using rect_of_rows [OF rows_of_span [OF d(2) su(3)], of "s_width ?s" x0 y] su px assms(6) by simp
  have "(do { rdr \<leftarrow> gen_paint env (i32 ?n) 1 r; run_blit (jn_gamma st) (r_emitRows rdr) rdr 1 }) =
      Some (r\<lparr>r_data := d, r_paint := r_paint r, r_rowAAInt := zero_prefix ?n ?row\<rparr>)"
    using d(1) m(1,3) mk assms(12) by (simp add: gen_paint_def select_gen_def select_rows_def run_blit_def)
  moreover have "premul_buf d" "length d = length (jn_dataInt st)" "buffer_ok (r_paint r)"
    using d(2) su(8) pb m(5) by (simp_all add: span_drawn_def kept_def)
  ultimately show ?thesis
    using emitRow_done [OF assms(1-10), of rowNum alphaMap, folded r_def] rect by blast
qed

text \<open>
  C14: Drawing one row of an antialiased shape in a flat colour, from the call in Java to the pixels: the call
  returns; each pixel of the row inside the clip becomes the weighted mean for its coverage, no other
  pixel changes, the deltas used are zero again and all others are as before, and Java may draw again.
\<close>

theorem emitAndClearAlphaRowImpl_flat_correct:
  assumes "draw_ok env st" "env_array env" "env_array2 env"
    and "x0 = max x_from (r_clip_bbMinX (jn_rdr st))" "x1 = min x_to (r_clip_bbMaxX (jn_rdr st))" "x0 \<le> x1"
    and "r_clip_bbMinY (jn_rdr st) \<le> y" "y \<le> r_clip_bbMaxY (jn_rdr st)" "0 \<le> x_off" "x_off \<le> int (length deltas)"
    and "row_fits alphaMap (drop (nat x_off) deltas) (x1 - x0 + 1)"
    and "r_paintMode (jn_rdr st) = PAINT_FLAT_COLOR" "r_compositeRule (jn_rdr st) = COMPOSITE_SRC_OVER"
    and "byte_colour (user_colour (jn_rdr st))"
  shows "\<exists>st'. emitAndClearAlphaRowImpl env alphaMap deltas y x_from x_to x_off rowNum st =
      Done (st', take (nat x_off) deltas @ zero_prefix (x1 - x0 + 1) (drop (nat x_off) deltas)) \<and> draw_ok env st' \<and> unchanged (jn_rdr st) (jn_rdr st') \<and>
    rect_drawn (s_width (jn_surface st)) x0 (x1 - x0 + 1) y 1
      (\<lambda>_ k old new. new = over_ref (user_colour (jn_rdr st)) (row_cov alphaMap (drop (nat x_off) deltas) k) old)
      (jn_dataInt st) (jn_dataInt st')"
  by (rule emitAndClearAlphaRowImpl_flat_drawn) (rule assms)+

theorem emitAndClearAlphaRowImpl_flat_correct_witness:
  "\<exists>st'. emitAndClearAlphaRowImpl sample_env [0, 127, -1] [7, 1, 1, -2, 0] 1 1 2 1 0 sample_fill_state =
      Done (st', [7, 0, 0, -2, 0]) \<and> draw_ok sample_env st' \<and> unchanged (jn_rdr sample_fill_state) (jn_rdr st') \<and>
    rect_drawn 4 1 2 1 1 (\<lambda>_ k old new. new = over_ref (128, 255, 0, 0) (row_cov [0, 127, -1] [1, 1, -2, 0] k) old)
      (replicate 8 0) (jn_dataInt st')"
proof -
  have f: "row_fits [0, 127, -1] (drop (nat 1) [7, 1, 1, -2, 0]) 2"
  proof -
    have "{0..<2 :: int} = {0, 1}" by auto
    then show ?thesis by (simp add: row_fits_def psum_def)
  qed
  show ?thesis
    using emitAndClearAlphaRowImpl_flat_correct [OF sample_fill_ok _ _ refl refl, where x_from = 1 and x_to = 2 and y = 1 and x_off = 1
        and deltas = "[7, 1, 1, -2, 0]" and alphaMap = "[0, 127, -1]" and rowNum = 0] f
    by (simp add: sample_fill_simps sample_env_def byte_colour_def zero_prefix_def numeral_2_eq_2)
qed

lemma span_upd_paint:
  "span_width (rdr\<lparr>r_paint := p\<rparr>) = span_width rdr" "span_start (rdr\<lparr>r_paint := p\<rparr>) = span_start rdr"
  "aa_cov0 (rdr\<lparr>r_paint := p\<rparr>) = aa_cov0 rdr"
  by (simp_all add: span_width_def span_start_def aa_cov0_def aa_cov_def fun_eq_iff)

lemma emitAndClearAlphaRowImpl_paint_drawn:
  assumes "draw_ok env st" "env_array env" "env_array2 env"
    and "x0 = max x_from (r_clip_bbMinX (jn_rdr st))" "x1 = min x_to (r_clip_bbMaxX (jn_rdr st))" "x0 \<le> x1"
    and "r_clip_bbMinY (jn_rdr st) \<le> y" "y \<le> r_clip_bbMaxY (jn_rdr st)" "0 \<le> x_off" "x_off \<le> int (length deltas)"
    and "row_fits alphaMap (drop (nat x_off) deltas) (x1 - x0 + 1)"
    and "brush_ok env (jn_rdr st)" "r_compositeRule (jn_rdr st) = COMPOSITE_SRC_OVER"
  shows "\<exists>st'. emitAndClearAlphaRowImpl env alphaMap deltas y x_from x_to x_off rowNum st =
      Done (st', take (nat x_off) deltas @ zero_prefix (x1 - x0 + 1) (drop (nat x_off) deltas)) \<and> draw_ok env st' \<and> unchanged (jn_rdr st) (jn_rdr st') \<and>
    rect_drawn (s_width (jn_surface st)) x0 (x1 - x0 + 1) y 1
      (\<lambda>_ k old new. \<exists>c. paint_colour (jn_rdr st) c \<and> new = pt_over_ref c (row_cov alphaMap (drop (nat x_off) deltas) k) old)
      (jn_dataInt st) (jn_dataInt st')"
proof -
  let ?s = "jn_surface st" and ?s' = "(jn_surface st)\<lparr>s_data := jn_dataInt st\<rparr>" and ?row = "drop (nat x_off) deltas" and ?n = "x1 - x0 + 1"
  define r where "r = setup_row ?s' x0 x1 y rowNum alphaMap ?row (jn_rdr st)"
  have so: "surface_ok ?s' (jn_dataInt st)" "coherent (jn_rdr st)" "s_imageType ?s' = TYPE_INT_ARGB_PRE" and clip: "clip_ok ?s (jn_rdr st)"
    using assms(1) by (simp_all add: draw_ok_def surface_ok_def)
  have pb: "buffer_ok (r_paint (jn_rdr st))" and mk: "r_maskType (jn_rdr st) = NO_MASK" using assms(1) by (simp_all add: draw_ok_def)
  have px: "0 \<le> x0" "x1 < s_width ?s'" "0 \<le> y" "y < s_height ?s'" using clip assms(4,5,7,8) by (auto simp: clip_ok_def)
  have su: "span_ok r" "aa_ok r" "rows_apart r" "span_width r = ?n" "r_imageScanlineStride r = s_width ?s" "r_minTouched r = x0"
    "r_currImageOffset r = y * s_width ?s" "r_data r = jn_dataInt st" "aa_cov0 r = row_cov alphaMap ?row" "r_rowAAInt r = ?row" "premul_buf (r_data r)"
    "r_alphaWidth r = ?n" "r_maxTouched r - r_minTouched r + 1 = ?n" "1 * ?n < 2 ^ 31"
    using setup_row_ok [OF so(1) _ px(1) assms(6) px(2-4) assms(11) pb] by (simp_all add: r_def)
  note m = setup_row_modes [OF so(2,3) assms(13), of x0 x1 y rowNum alphaMap ?row, folded r_def]
  note br = brush_ready [OF assms(12) m(5,1,2,4)]
  have rb: "buffer_ok (r_paint r)" using pb m(5) by (simp add: kept_def)
  have n: "0 < ?n" using assms(6) by simp
  obtain p where p: "gen_paint env (i32 (?n * 1)) 1 r = Some (r\<lparr>r_paint := p\<rparr>)" "premul_buf p"
      "1 * ?n \<le> int (length p)" "int (length p) < 2 ^ 31" "\<And>i. i < length p \<Longrightarrow> int i < 1 * ?n \<Longrightarrow> paint_source r (p ! i)"
    using gen_paint_ok [OF br(1) rb su(12,13) n _ su(14)] by (metis zero_less_one)
  let ?r = "r\<lparr>r_paint := p\<rparr>"
  have sp: "span_ok ?r" "aa_ok ?r" "paint_ok ?r" "rows_apart ?r" "premul_buf (r_paint ?r)" "premul_buf (r_data ?r)" "span_width ?r = ?n"
    "aa_cov0 ?r = row_cov alphaMap ?row"
    using su(1-4,9,11) p by (simp_all add: span_ok_def aa_ok_def paint_ok_def rows_apart_def span_upd_paint)
  obtain d where d: "blitPTSrcOver8888_pre ?r 1 = Some (?r\<lparr>r_data := d, r_rowAAInt := zero_prefix ?n ?row\<rparr>)"
      "span_drawn ?r (\<lambda>k. pt_over_ref (p ! nat k) (row_cov alphaMap ?row k)) (?r\<lparr>r_data := d\<rparr>)"
    using blitPTSrcOver8888_pre_drawn [OF sp(1-3,5,6)] su(10) sp(7,8) by auto
  have "rect_drawn (s_width ?s) x0 ?n y 1 (\<lambda>_ k old new. new = pt_over_ref (p ! nat k) (row_cov alphaMap ?row k) old) (jn_dataInt st) d"
    using rect_of_rows [OF rows_of_span [OF d(2) sp(4)], of "s_width ?s" x0 y] su sp(7) px assms(6) by simp
  then have rect: "rect_drawn (s_width ?s) x0 ?n y 1
      (\<lambda>_ k old new. \<exists>c. paint_colour (jn_rdr st) c \<and> new = pt_over_ref c (row_cov alphaMap ?row k) old) (jn_dataInt st) d"
  proof (rule rect_drawn_mono)
    fix q k u v assume k: "0 \<le> k" "k < ?n" and v: "v = pt_over_ref (p ! nat k) (row_cov alphaMap ?row k) u"
    have "paint_source r (p ! nat k)" using p(3) k by (intro p(5)) auto
    then show "\<exists>c. paint_colour (jn_rdr st) c \<and> v = pt_over_ref c (row_cov alphaMap ?row k) u" using v br(2) by auto
  qed
  have "r_paintMode (jn_rdr st) \<noteq> PAINT_FLAT_COLOR" using assms(12) by (auto simp: brush_ok_def)
  then have "(do { rdr \<leftarrow> gen_paint env (i32 ?n) 1 r; run_blit (jn_gamma st) (r_emitRows rdr) rdr 1 }) =
      Some (r\<lparr>r_data := d, r_paint := p, r_rowAAInt := zero_prefix ?n ?row\<rparr>)"
    using d(1) p(1) m(3) mk by (simp add: select_rows_def run_blit_def)
  moreover have "premul_buf d" "length d = length (jn_dataInt st)" "buffer_ok p"
    using d(2) su(8) p(2,4) by (simp_all add: span_drawn_def buffer_ok_def)
  ultimately show ?thesis
    using emitRow_done [OF assms(1-10), of rowNum alphaMap, folded r_def] rect by blast
qed

text \<open>
  C15: The same for a paint: the paint's colour for the pixel, faded by the coverage, goes over what was there.
\<close>

theorem emitAndClearAlphaRowImpl_paint_correct:
  assumes "draw_ok env st" "env_array env" "env_array2 env"
    and "x0 = max x_from (r_clip_bbMinX (jn_rdr st))" "x1 = min x_to (r_clip_bbMaxX (jn_rdr st))" "x0 \<le> x1"
    and "r_clip_bbMinY (jn_rdr st) \<le> y" "y \<le> r_clip_bbMaxY (jn_rdr st)" "0 \<le> x_off" "x_off \<le> int (length deltas)"
    and "row_fits alphaMap (drop (nat x_off) deltas) (x1 - x0 + 1)"
    and "brush_ok env (jn_rdr st)" "r_compositeRule (jn_rdr st) = COMPOSITE_SRC_OVER"
  shows "\<exists>st'. emitAndClearAlphaRowImpl env alphaMap deltas y x_from x_to x_off rowNum st =
      Done (st', take (nat x_off) deltas @ zero_prefix (x1 - x0 + 1) (drop (nat x_off) deltas)) \<and> draw_ok env st' \<and> unchanged (jn_rdr st) (jn_rdr st') \<and>
    rect_drawn (s_width (jn_surface st)) x0 (x1 - x0 + 1) y 1
      (\<lambda>_ k old new. \<exists>c. paint_colour (jn_rdr st) c \<and> new = pt_over_ref c (row_cov alphaMap (drop (nat x_off) deltas) k) old)
      (jn_dataInt st) (jn_dataInt st')"
  by (rule emitAndClearAlphaRowImpl_paint_drawn) (rule assms)+

theorem emitAndClearAlphaRowImpl_paint_correct_witness:
  "\<exists>st'. emitAndClearAlphaRowImpl sample_env [0, 127, -1] [7, 1, 1, -2, 0] 1 1 2 1 0 sample_image_state =
      Done (st', [7, 0, 0, -2, 0]) \<and> draw_ok sample_env st' \<and> unchanged (jn_rdr sample_image_state) (jn_rdr st') \<and>
    rect_drawn 4 1 2 1 1 (\<lambda>_ k old new. \<exists>c. paint_colour (jn_rdr sample_image_state) c \<and>
        new = pt_over_ref c (row_cov [0, 127, -1] [1, 1, -2, 0] k) old)
      (replicate 8 0) (jn_dataInt st')"
proof -
  have f: "row_fits [0, 127, -1] (drop (nat 1) [7, 1, 1, -2, 0]) 2"
  proof -
    have "{0..<2 :: int} = {0, 1}" by auto
    then show ?thesis by (simp add: row_fits_def psum_def)
  qed
  have s: "r_compositeRule (jn_rdr sample_image_state) = COMPOSITE_SRC_OVER"
    "r_clip_bbMinX (jn_rdr sample_image_state) = 0" "r_clip_bbMaxX (jn_rdr sample_image_state) = 3"
    "r_clip_bbMinY (jn_rdr sample_image_state) = 0" "r_clip_bbMaxY (jn_rdr sample_image_state) = 1"
    "s_width (jn_surface sample_image_state) = 4" "jn_dataInt sample_image_state = replicate 8 0"
    by (simp_all add: sample_image_state_def setTexture_fields sample_fill_simps)
  show ?thesis
    using emitAndClearAlphaRowImpl_paint_correct [OF sample_image_state_ok(1) _ _ refl refl, where x_from = 1 and x_to = 2 and y = 1 and x_off = 1
        and deltas = "[7, 1, 1, -2, 0]" and alphaMap = "[0, 127, -1]" and rowNum = 0] f sample_image_state_ok(2)
    by (simp add: s sample_env_def zero_prefix_def numeral_2_eq_2)
qed

section \<open>Clearing a rectangle\<close>

text \<open>Validation takes the geometry from the surface.\<close>

definition on_surface :: "surface \<Rightarrow> renderer \<Rightarrow> bool" where
  "on_surface s r \<longleftrightarrow> r_width r = s_width s \<and> r_height r = s_height s \<and> r_imageOffset r = s_offset s \<and>
     r_imageScanlineStride r = s_scanlineStride s \<and> r_imagePixelStride r = s_pixelStride s"

lemma on_surface_state [simp]:
  "on_surface s (clear_state b r) = on_surface s r" "on_surface s (set_state b r) = on_surface s r"
  by (simp_all add: on_surface_def clear_state_def set_state_def)

lemma on_surface_update [simp]:
  "on_surface s (updateInternalColor r) = on_surface s r" "on_surface s (updatePaintDependedRoutines r) = on_surface s r"
  by (simp_all add: updateInternalColor_def updatePaintDependedRoutines_def Let_def) (simp_all add: on_surface_def)

lemma on_surface_composite [simp]: "on_surface s (updateCompositeDependedRoutines r) = on_surface s r"
  by (simp add: updateCompositeDependedRoutines_def Let_def) (simp add: on_surface_def)

lemma on_surface_mask [simp]: "on_surface s (updateMaskDependedRoutines r) = on_surface s r"
  by (simp add: updateMaskDependedRoutines_def Let_def) (simp add: on_surface_def)

lemma on_surface_renderer [simp]: "on_surface s (updateRendererSurface s r)"
proof -
  have "on_surface s (updateSurfaceDependedRoutines r) = on_surface s r" for r
    by (simp add: updateSurfaceDependedRoutines_def Let_def) (simp add: on_surface_def)
  then show ?thesis
    by (simp add: updateRendererSurface_def Let_def) (simp add: on_surface_def set_state_def)
qed

lemma validate_on_surface: "on_surface s (validate_blitting s (invalidate_renderer_surface r))"
  by (simp add: validate_blitting_def Let_def invalidate_renderer_surface_def stale_simps)

definition clear_colour :: "renderer \<Rightarrow> jint" where
  "clear_colour rdr = (if r_compositeRule rdr = COMPOSITE_CLEAR then 0
     else argb (r_ualpha rdr) (r_ured rdr) (r_ugreen rdr) (r_ublue rdr))"

lemma clearRectImpl_drawn:
  assumes "draw_ok env st" "4 * int (length (jn_dataInt st)) < 2 ^ 31"
    and "s_offset (jn_surface st) = 0" "s_scanlineStride (jn_surface st) = s_width (jn_surface st)" "s_pixelStride (jn_surface st) = 1"
    and "is_jint (x + w - 1)" "is_jint (y + h - 1)"
    and "x0 = max x (r_clip_bbMinX (jn_rdr st))" "x1 = min (x + w - 1) (r_clip_bbMaxX (jn_rdr st))"
    and "y0 = max y (r_clip_bbMinY (jn_rdr st))" "y1 = min (y + h - 1) (r_clip_bbMaxY (jn_rdr st))"
  shows "\<exists>st'. clearRectImpl env x y w h st = Done st' \<and> surface_fits (jn_surface st') (jn_dataInt st') \<and>
    unchanged (jn_rdr st) (jn_rdr st') \<and> (premul (clear_colour (jn_rdr st)) \<longrightarrow> draw_ok env st') \<and>
    rect_drawn (s_width (jn_surface st)) x0 (x1 - x0 + 1) y0 (y1 - y0 + 1)
      (\<lambda>_ _ old new. new = clear_colour (jn_rdr st)) (jn_dataInt st) (jn_dataInt st')"
proof -
  let ?s = "jn_surface st" and ?s' = "(jn_surface st)\<lparr>s_data := jn_dataInt st\<rparr>" and ?W = "s_width (jn_surface st)" and ?H = "s_height (jn_surface st)"
  let ?r0 = "(jn_rdr st)\<lparr>r_imagePixelStride := 1, r_imageScanlineStride := ?W\<rparr>"
  define v where "v = validate_blitting ?s' (invalidate_renderer_surface ?r0)"
  have so: "surface_ok ?s (jn_dataInt st)" "\<not> jn_memError st" "env_surface env" and clip: "clip_ok ?s (jn_rdr st)" and co: "coherent ?r0"
    using assms(1) by (simp_all add: draw_ok_def)
  have acq: "surface_acquire env st = Done (st\<lparr>jn_surface := ?s'\<rparr>)"
    by (rule surface_acquire_ok) (use so in \<open>simp_all add: surface_ok_fits\<close>)
  have k: "kept ?r0 v" "r_data v = jn_dataInt st" using validate_invalidated(1) [of ?r0 ?s'] validate_invalidated(2) [of ?s' ?r0] by (simp_all add: v_def)
  have os: "on_surface ?s' v" unfolding v_def by (rule validate_on_surface)
  have "coherent (invalidate_renderer_surface ?r0)" using co unfolding invalidate_renderer_surface_def by (rule set_state_coherent)
  then have st: "colour_stage v" "r_routines v = routines8888_pre"
    using validate_blitting_stages [of _ ?s'] so(1) by (simp_all add: v_def surface_ok_def)
  have cv: "clear_value v = clear_colour (jn_rdr st)"
    using st(1) k(1) by (simp add: clear_value_def clear_colour_def colour_stage_def kept_def argb_def)
  have co': "coherent v" using validate_blitting_coherent [of _ ?s'] \<open>coherent (invalidate_renderer_surface ?r0)\<close> so(1) by (simp add: v_def surface_ok_def)
  have un: "unchanged (jn_rdr st) v" using kept_unchanged [OF k(1)] by (simp add: unchanged_def)
  have pb: "buffer_ok (r_paint v)" using k(1) assms(1) by (simp add: kept_def draw_ok_def)
  have inv: "(invalidate_renderer_surface (jn_rdr st))\<lparr>r_imagePixelStride := 1, r_imageScanlineStride := ?W\<rparr> = invalidate_renderer_surface ?r0"
    by (simp add: invalidate_renderer_surface_def set_state_def)
  have W: "0 < ?W" "?H * ?W \<le> int (length (jn_dataInt st))" "0 \<le> ?H" using so(1) by (auto simp: surface_ok_def)
  have hw: "1 * ?W \<le> ?H * ?W" if "0 < ?H" using that W by (intro mult_right_mono) auto
  have hh: "?H * 1 \<le> ?H * ?W" using W by (intro mult_left_mono) auto
  have len: "int (length (jn_dataInt st)) < 536870912" using assms(2) by simp
  have bx: "r_clip_bbMinX v = r_clip_bbMinX (jn_rdr st)" "r_clip_bbMaxX v = r_clip_bbMaxX (jn_rdr st)"
    "r_clip_bbMinY v = r_clip_bbMinY (jn_rdr st)" "r_clip_bbMaxY v = r_clip_bbMaxY (jn_rdr st)" "r_width v = ?W" "r_height v = ?H"
    using k(1) os by (simp_all add: kept_def on_surface_def)
  show ?thesis
  proof (cases "x0 \<le> x1 \<and> y0 \<le> y1")
    case True
    then have H: "0 < ?H" using clip assms(10,11) by (auto simp: clip_ok_def)
    have b: "?W < 2147483648" "?H < 2147483648" using W hw [OF H] hh len by linarith+
    have i: "i32 (x + w - 1) = x + w - 1" "i32 (y + h - 1) = y + h - 1" "i32 (?W - 1) = ?W - 1" "i32 (?H - 1) = ?H - 1"
      using assms(6,7) W b by (auto simp: c_int intro!: i32_small)
    have e: "max (max x 0) (r_clip_bbMinX (jn_rdr st)) = x0" "min (min (x + w - 1) (?W - 1)) (r_clip_bbMaxX (jn_rdr st)) = x1"
      "max (max y 0) (r_clip_bbMinY (jn_rdr st)) = y0" "min (min (y + h - 1) (?H - 1)) (r_clip_bbMaxY (jn_rdr st)) = y1"
      using clip assms(8-11) by (auto simp: clip_ok_def)
    have c: "0 \<le> x0" "x1 < ?W" "0 \<le> y0" "y1 < ?H" using clip assms(8-11) by (auto simp: clip_ok_def)
    have n: "i32 (x1 - x0 + 1) = x1 - x0 + 1" "i32 (y1 - y0 + 1) = y1 - y0 + 1"
      using True c b by (intro i32_small; linarith)+
    have ok: "clear_ok v x0 y0 (x1 - x0 + 1) (y1 - y0 + 1)"
    proof -
      have "(y1 + 1) * ?W \<le> ?H * ?W" using c W by (intro mult_right_mono) auto
      then have "y1 * ?W + ?W \<le> int (length (jn_dataInt st))" using W by (simp add: distrib_right)
      moreover have "y0 + (y1 - y0 + 1) - 1 = y1" by simp
      ultimately show ?thesis
        using os assms(2-5) True c k(2) by (simp add: clear_ok_def on_surface_def)
    qed
    define d where "d = paint_rows (\<lambda>j k p. clear_colour (jn_rdr st)) (y0 * ?W + x0) ?W (x1 - x0 + 1) (nat (y1 - y0 + 1)) (jn_dataInt st)"
    have "clearRect8888_any v x0 y0 (x1 - x0 + 1) (y1 - y0 + 1) = Some (v\<lparr>r_data := d\<rparr>)"
      using clearRect8888_any_rows [OF ok] os assms(3,4) by (simp add: on_surface_def d_def cv clear_start_def k(2))
    then have cl: "renderer_clearRect ?s' (invalidate_renderer_surface ?r0) x y w h = Some (v\<lparr>r_data := d\<rparr>)"
      unfolding renderer_clearRect_def Let_def v_def [symmetric] bx i e
      using True n st(2) by (simp add: run_clear_def routines8888_pre_def)
    have "clearRectImpl env x y w h st = Done (drawn (st\<lparr>jn_surface := ?s'\<rparr>) (v\<lparr>r_data := d\<rparr>))"
      using acq so(2) cl by (simp add: clearRectImpl_def acquired_def Let_def inv oom_check_def drawn_def)
    moreover have "rect_drawn ?W x0 (x1 - x0 + 1) y0 (y1 - y0 + 1) (\<lambda>_ _ old new. new = clear_colour (jn_rdr st)) (jn_dataInt st) d"
      unfolding d_def using rect_of_paint_rows [of ?W x0 "x1 - x0 + 1" "y1 - y0 + 1" y0 "\<lambda>j k p. clear_colour (jn_rdr st)"] W c True by simp
    moreover have "draw_ok env (drawn (st\<lparr>jn_surface := ?s'\<rparr>) (v\<lparr>r_data := d\<rparr>))" if "premul (clear_colour (jn_rdr st))"
      using that so(1) un co' pb by (intro unchanged_draw_ok [OF assms(1)])
        (auto simp: d_def surface_ok_def unchanged_def intro!: paint_rows_premul)
    ultimately show ?thesis using so(1) un by (simp add: drawn_def surface_ok_fits surface_fits_def d_def unchanged_def)
  next
    case False
    have "renderer_clearRect ?s' (invalidate_renderer_surface ?r0) x y w h = Some v"
      using False assms(6-11) clip unfolding renderer_clearRect_def Let_def v_def [symmetric] bx
      by (auto simp: clip_ok_def c_int)
    then have "clearRectImpl env x y w h st = Done (drawn (st\<lparr>jn_surface := ?s'\<rparr>) v)"
      using acq so(2) by (simp add: clearRectImpl_def acquired_def Let_def inv oom_check_def drawn_def)
    moreover have "draw_ok env (drawn (st\<lparr>jn_surface := ?s'\<rparr>) v)"
      using so(1) un co' pb k(2) by (intro unchanged_draw_ok [OF assms(1)]) (auto simp: surface_ok_def)
    ultimately show ?thesis using False so(1) k(2) un by (auto simp: drawn_def surface_ok_fits surface_fits_def rect_drawn_empty)
  qed
qed


end
