(* ===== verification/Pisces_Session.thy ===== *)
theory Pisces_Session
  imports Pisces_Row_Correct
begin

text \<open>
  Whole sessions of a renderer. \<open>run\<close> performs one call of \<^verbatim>\<open>JPiscesRenderer.c\<close> or \<^verbatim>\<open>JAbstractSurface.c\<close>. Against it stands
  a specification in Java's terms: a \<open>view\<close> is the size of the surface, the clip, the colour, the kind of brush
  and the pixels; \<open>legal\<close> says which arguments a call may have in a view, \<open>after\<close> how it changes the settings and
  \<open>paints\<close> which canvas it may leave. The relation \<open>session\<close> ties a view to the state of the native code, and
  each call is shown to be a simulation of one step of the specification.

  The composite rule stays source-over, its default; memory is available and arrays can be pinned
  (\<open>good_env\<close>). A paint has to be set again after an image was drawn, since the renderer then holds none.
\<close>

section \<open>Setters\<close>

lemma renderer_setColor_fields:
  "r_paint (renderer_setColor rdr r g b a) = r_paint rdr" "r_maskType (renderer_setColor rdr r g b a) = r_maskType rdr"
  "r_compositeRule (renderer_setColor rdr r g b a) = r_compositeRule rdr" "user_colour (renderer_setColor rdr r g b a) = (a, r, g, b)"
  "r_gradient_colors (renderer_setColor rdr r g b a) = r_gradient_colors rdr"
  "r_gradient_cycleMethod (renderer_setColor rdr r g b a) = r_gradient_cycleMethod rdr"
  "r_paintMode (renderer_setColor rdr r g b a) = PAINT_FLAT_COLOR"
  "clip_ok s (renderer_setColor rdr r g b a) = clip_ok s rdr"
  by (auto simp: renderer_setColor_def setPaintMode_def set_state_def Let_def user_colour_def clip_ok_def)

lemma renderer_setColor_clip:
  "r_clip_bbMinX (renderer_setColor rdr r g b a) = r_clip_bbMinX rdr" "r_clip_bbMinY (renderer_setColor rdr r g b a) = r_clip_bbMinY rdr"
  "r_clip_bbMaxX (renderer_setColor rdr r g b a) = r_clip_bbMaxX rdr" "r_clip_bbMaxY (renderer_setColor rdr r g b a) = r_clip_bbMaxY rdr"
  by (auto simp: renderer_setColor_def setPaintMode_def set_state_def Let_def)

text \<open>The copy of an image keeps its pixels, row by row.\<close>

lemma copy_image_eq:
  assumes "0 < width" "0 < height" "width \<le> stride" "(height - 1) * stride + width \<le> int (length data)" "int (length data) < 2 ^ 31"
  shows "copy_image data width height stride =
    Some (paint_rows (\<lambda>j k x. data ! nat (j * stride + k)) 0 width width (nat height) (replicate (nat (height * width)) 0))"
proof -
  define N where "N = height * width"
  have "height * width \<le> (height - 1) * stride + width"
    using assms mult_left_mono [of width stride "height - 1"] by (simp add: left_diff_distrib)
  then have N: "0 < N" "N < 2 ^ 31" "N \<le> int (length data)" using assms by (simp_all add: N_def)
  have N32: "i32 (width * height) = N" using N by (simp add: N_def mult.commute [of width] i32_small)
  show ?thesis
  proof (cases "stride = width")
    case True
    let ?x = "replicate (nat N) (0 :: jint)" and ?g = "\<lambda>j k (x :: jint). data ! nat (j * stride + k)"
    have "memcpy_from ?x 0 data 0 (width * height) = Some (paint_span (\<lambda>k _. data ! nat (0 + k)) 0 N ?x)"
      using N assms(1) by (subst memcpy_from_span) (simp_all add: N_def [symmetric] mult.commute [of width])
    moreover have "paint_span (\<lambda>k _. data ! nat (0 + k)) 0 N ?x = paint_rows ?g 0 width width (nat height) ?x"
    proof (rule nth_equalityI)
      fix i assume "i < length (paint_span (\<lambda>k _. data ! nat (0 + k)) 0 N ?x)"
      then have i: "i < length ?x" "int i < N" using N by auto
      have "int i div width * width < height * width"
        using i(2) pos_mod_sign [OF assms(1), of "int i"] by (simp add: N_def minus_mod_eq_div_mult [symmetric])
      then have "int i div width < height" using assms(1) by (simp add: mult_less_cancel_right)
      then have "in_rows 0 width width height (int i)" using assms(1) by (simp add: in_rows_def)
      then show "paint_span (\<lambda>k _. data ! nat (0 + k)) 0 N ?x ! i = paint_rows ?g 0 width width (nat height) ?x ! i"
        using i assms(1,2) True nth_paint_rows [OF assms(1) order_refl i(1), of ?g 0 "nat height"] by (simp add: nth_paint_span)
    qed simp
    ultimately show ?thesis using True by (simp add: copy_image_def N32 N_def [symmetric])
  next
    case False
    let ?f = "\<lambda>i alloc_data. memcpy_from alloc_data (i32 (i * width)) data (i32 (i * stride)) width"
    let ?P = "\<lambda>j t. t = paint_rows (\<lambda>j k x. data ! nat (j * stride + k)) 0 width width (nat j) (replicate (nat N) 0)"
    have "\<exists>t. for_loop height ?f (replicate (nat N) 0) = Some t \<and> ?P height t"
    proof (rule for_loop_inv)
      fix j t assume j: "0 \<le> j" "j < height" "?P j t"
      have "(j + 1) * width \<le> height * width" by (rule mult_right_mono) (use assms j in auto)
      moreover have "j * stride \<le> (height - 1) * stride" by (rule mult_right_mono) (use assms j in auto)
      moreover have "0 \<le> j * width" "0 \<le> j * stride" using assms(1,3) j(1) by simp_all
      ultimately have b: "j * width + width \<le> N" "j * stride + width \<le> int (length data)" "0 \<le> j * width" "0 \<le> j * stride"
        using assms(4) unfolding N_def distrib_right by linarith+
      then have "i32 (j * width) = j * width" "i32 (j * stride) = j * stride" using N(2) assms(1,5) by (auto intro!: i32_small)
      then have "?f j t = Some (paint_span (\<lambda>k _. data ! nat (j * stride + k)) (j * width) width t)"
        using b assms(1) j(3) N by (simp add: memcpy_from_span)
      then show "\<exists>t'. ?f j t = Some t' \<and> ?P (j + 1) t'" using j by (simp add: nat_add_distrib)
    qed (use assms in auto)
    then show ?thesis using False by (simp add: copy_image_def N32 N_def [symmetric])
  qed
qed

lemma image_ok_small:
  assumes "image_ok data w h off stride rep xm ym xM yM"
  shows "w < 2 ^ 31" "h < 2 ^ 31"
proof -
  have i: "0 \<le> off" "2 \<le> w" "2 \<le> h" "w \<le> stride" "off + (h - 1) * stride + w \<le> int (length data)" "int (length data) < 2 ^ 31"
    using assms by (simp_all add: image_ok_def)
  define P where "P = (h - 1) * stride"
  have "(h - 1) * 1 \<le> P" unfolding P_def by (rule mult_left_mono) (use i in auto)
  then show "w < 2 ^ 31" "h < 2 ^ 31" using i by (simp_all add: P_def [symmetric])
qed

lemma copy_image_texture:
  assumes "2 \<le> width" "2 \<le> height" "width \<le> stride" "(height - 1) * stride + width \<le> int (length data)"
    and "int (length data) < 2 ^ 31" "premul_buf data" "rep \<longrightarrow> width \<le> 32767 \<and> height \<le> 32767"
  shows "\<exists>img. copy_image data width height stride = Some img \<and>
    image_ok img width height 0 width rep 0 0 (width - 1) (height - 1)"
proof -
  let ?g = "\<lambda>j k (x :: jint). data ! nat (j * stride + k)"
  define img where "img = paint_rows ?g 0 width width (nat height) (replicate (nat (height * width)) 0)"
  have "height * width \<le> (height - 1) * stride + width"
    using assms mult_left_mono [of width stride "height - 1"] by (simp add: left_diff_distrib)
  then have len: "int (length img) = height * width" "height * width < 2 ^ 31" using assms by (simp_all add: img_def)
  have "premul_buf img" unfolding img_def
  proof (rule paint_rows_premul)
    fix j k p :: int assume jk: "0 \<le> j" "j < int (nat height)" "0 \<le> k" "k < width"
    have "j * stride \<le> (height - 1) * stride" "0 \<le> j * stride" using jk assms by (auto intro!: mult_right_mono)
    then have "nat (j * stride + k) < length data" using jk assms(4) by linarith
    then show "premul (data ! nat (j * stride + k))" using assms(6) by (simp add: premul_buf_def)
  qed (simp add: premul_eval)
  moreover have "copy_image data width height stride = Some img"
    using copy_image_eq [of width height stride data] assms by (simp add: img_def)
  ultimately show ?thesis using len assms by (auto simp: image_ok_def left_diff_distrib)
qed


section \<open>The calls\<close>

datatype call =
    Set_Clip jint jint jint jint
  | Set_Color jint jint jint jint
  | Set_Linear_Gradient jint jint jint jint "jint list" jint transform6
  | Set_Radial_Gradient jint jint jint jint jint "jint list" jint transform6
  | Set_Texture "jint list" jint jint jint transform6 bool bool
  | Fill_Rect jint jint jint jint
  | Draw_Image jint "jint list" jint jint jint jint transform6 bool jint jint jint jint jint jint jint jint
      jint jint jint jint bool
  | Clear_Rect jint jint jint jint
  | Fill_Alpha_Mask "jbyte list" jint jint jint jint jint jint
  | Emit_Alpha_Row "jbyte list" "jint list" jint jint jint jint jint
  | Set_RGB "jint list" jint jint jint jint jint jint

fun run :: "jni_env \<Rightarrow> call \<Rightarrow> jni_state \<Rightarrow> jni_state outcome" where
  "run env (Set_Clip x y w h) st = setClipImpl env x y w h st"
| "run env (Set_Color r g b a) st = setColorImpl env r g b a st"
| "run env (Set_Linear_Gradient x0 y0 x1 y1 ramp cyc tr) st = setLinearGradientImpl env x0 y0 x1 y1 ramp cyc tr st"
| "run env (Set_Radial_Gradient cx cy fx fy rad ramp cyc tr) st = setRadialGradientImpl env cx cy fx fy rad ramp cyc tr st"
| "run env (Set_Texture data w h stride tr rep ha) st = setTextureImpl env data w h stride tr rep ha st"
| "run env (Fill_Rect x y w h) st = fillRectImpl env x y w h st"
| "run env (Draw_Image mode data iw ih off stride tr rep x y w h lE rE tE bE xm ym xM yM ha) st =
     drawImageImpl env mode data iw ih off stride tr rep x y w h lE rE tE bE xm ym xM yM ha st"
| "run env (Clear_Rect x y w h) st = clearRectImpl env x y w h st"
| "run env (Fill_Alpha_Mask jmask x y w h off stride) st = fillAlphaMaskImpl env jmask x y w h off stride st"
| "run env (Emit_Alpha_Row am deltas y xf xt xo n) st =
     chain (emitAndClearAlphaRowImpl env am deltas y xf xt xo n st) (\<lambda>(st, _). Done st)"
| "run env (Set_RGB px off scan x y w h) st = setRGBImpl env px off scan x y w h st"

primrec run_calls :: "jni_env \<Rightarrow> call list \<Rightarrow> jni_state \<Rightarrow> jni_state outcome" where
  "run_calls env [] st = Done st"
| "run_calls env (c # cs) st = chain (run env c st) (run_calls env cs)"

section \<open>What Java sees\<close>

datatype brush = No_Brush | Flat | Ramp "jint list" | Picture

record view =
  v_width :: int
  v_height :: int
  v_clip :: "int \<times> int \<times> int \<times> int"
  v_colour :: colour
  v_brush :: brush
  v_canvas :: "jint list"

text \<open>The arguments a call may have.\<close>

definition row_window :: "view \<Rightarrow> int \<Rightarrow> int \<Rightarrow> int \<Rightarrow> int \<times> int" where
  "row_window v y xf xt = (case v_clip v of (minX, minY, maxX, maxY) \<Rightarrow>
     (max xf minX, if minY \<le> y \<and> y \<le> maxY then min xt maxX else max xf minX - 1))"

fun legal :: "view \<Rightarrow> call \<Rightarrow> bool" where
  "legal v (Set_Clip x y w h) \<longleftrightarrow> 0 \<le> x \<and> 0 \<le> y \<and> x + w \<le> v_width v \<and> y + h \<le> v_height v \<and>
     is_jint (x + w - 1) \<and> is_jint (y + h - 1)"
| "legal v (Set_Color r g b a) \<longleftrightarrow> byte_colour (a, r, g, b)"
| "legal v (Set_Linear_Gradient x0 y0 x1 y1 ramp cyc tr) \<longleftrightarrow>
     GRADIENT_MAP_SIZE \<le> length ramp \<and> premul_buf ramp \<and> cyc \<in> {CYCLE_NONE, CYCLE_REPEAT, CYCLE_REFLECT}"
| "legal v (Set_Radial_Gradient cx cy fx fy rad ramp cyc tr) \<longleftrightarrow>
     GRADIENT_MAP_SIZE \<le> length ramp \<and> premul_buf ramp \<and> cyc \<in> {CYCLE_NONE, CYCLE_REPEAT, CYCLE_REFLECT}"
| "legal v (Set_Texture data w h stride tr rep ha) \<longleftrightarrow> 2 \<le> w \<and> 2 \<le> h \<and> w \<le> stride \<and>
     (h - 1) * stride + w \<le> int (length data) \<and> int (length data) < 2 ^ 31 \<and> premul_buf data \<and>
     (rep \<longrightarrow> w \<le> 32767 \<and> h \<le> 32767)"
| "legal v (Fill_Rect x y w h) \<longleftrightarrow> v_brush v \<noteq> No_Brush"
| "legal v (Draw_Image mode data iw ih off stride tr rep x y w h lE rE tE bE xm ym xM yM ha) \<longleftrightarrow>
     image_ok data iw ih off stride rep xm ym xM yM \<and> (mode = IMAGE_MODE_NORMAL \<or> v_brush v = Flat)"
| "legal v (Clear_Rect x y w h) \<longleftrightarrow> is_jint (x + w - 1) \<and> is_jint (y + h - 1) \<and>
     4 * int (length (v_canvas v)) < 2 ^ 31 \<and> premul (case v_colour v of (a, r, g, b) \<Rightarrow> argb a r g b)"
| "legal v (Fill_Alpha_Mask jmask x y w h off stride) \<longleftrightarrow> mask_fits jmask x y w h off \<and> v_brush v \<noteq> No_Brush"
| "legal v (Emit_Alpha_Row am deltas y xf xt xo n) \<longleftrightarrow> v_brush v \<noteq> No_Brush \<and>
     (case row_window v y xf xt of (x0, x1) \<Rightarrow> x0 \<le> x1 \<longrightarrow>
        0 \<le> xo \<and> xo \<le> int (length deltas) \<and> row_fits am (drop (nat xo) deltas) (x1 - x0 + 1))"
| "legal v (Set_RGB px off scan x y w h) \<longleftrightarrow> 0 \<le> x \<and> 0 < w \<and> x + w \<le> v_width v \<and> 0 \<le> y \<and> 0 < h \<and>
     y + h \<le> v_height v \<and> array_holds px off scan w h \<and> premul_buf px"

text \<open>The settings after a call; drawing an image drops the paint.\<close>

fun after :: "call \<Rightarrow> view \<Rightarrow> view" where
  "after (Set_Clip x y w h) v = v\<lparr>v_clip := (x, y, x + w - 1, y + h - 1)\<rparr>"
| "after (Set_Color r g b a) v = v\<lparr>v_colour := (a, r, g, b), v_brush := Flat\<rparr>"
| "after (Set_Linear_Gradient x0 y0 x1 y1 ramp cyc tr) v = v\<lparr>v_brush := Ramp (take GRADIENT_MAP_SIZE ramp)\<rparr>"
| "after (Set_Radial_Gradient cx cy fx fy rad ramp cyc tr) v = v\<lparr>v_brush := Ramp (take GRADIENT_MAP_SIZE ramp)\<rparr>"
| "after (Set_Texture data w h stride tr rep ha) v = v\<lparr>v_brush := Picture\<rparr>"
| "after (Draw_Image mode data iw ih off stride tr rep x y w h lE rE tE bE xm ym xM yM ha) v = v\<lparr>v_brush := No_Brush\<rparr>"
| "after _ v = v"

text \<open>
  The pixel a brush may leave on an old one: under a coverage byte, and at a place of a filled
  rectangle. A flat colour gives one answer, the other brushes one for each colour they hold.
\<close>

definition brush_px :: "brush \<Rightarrow> jint \<Rightarrow> bool" where
  "brush_px b c \<longleftrightarrow> premul c \<and> (case b of Ramp ramp \<Rightarrow> c \<in> set ramp | _ \<Rightarrow> True)"

definition covered :: "view \<Rightarrow> int \<Rightarrow> jint \<Rightarrow> jint \<Rightarrow> bool" where
  "covered v cov old new \<longleftrightarrow>
     (if v_brush v = Flat then new = over_ref (v_colour v) cov old
      else \<exists>c. brush_px (v_brush v) c \<and> new = pt_over_ref c cov old)"

definition box_px :: "view \<Rightarrow> int \<times> int \<times> int \<times> int \<Rightarrow> int \<times> int \<times> int \<times> int \<Rightarrow> int \<Rightarrow> int \<Rightarrow> jint \<Rightarrow> jint \<Rightarrow> bool" where
  "box_px v = (\<lambda>(x0, x1, lf, rf) (y0, y1, tf, bf) row k old new.
     let frac = row_frac y0 y1 tf bf row
     in if v_brush v = Flat
        then new = mean_px (v_colour v) (fill_weight (fst (v_colour v)) lf rf (x1 - x0 + 1) frac k) old
        else \<exists>c. brush_px (v_brush v) c \<and> new = pt_over_ref c (fill_fade lf rf (x1 - x0 + 1) frac k - 1) old)"

text \<open>A box on one axis, clipped: first and last pixel and the fractions at the two ends.\<close>

definition clipped :: "int \<Rightarrow> int \<Rightarrow> int \<Rightarrow> int \<Rightarrow> int \<Rightarrow> int \<Rightarrow> int \<times> int \<times> int \<times> int" where
  "clipped l u x w lE hE = (case rect_axis l u x w lE hE of (a, b, f, g) \<Rightarrow>
     case single_frac a b (f, g) of (f, g) \<Rightarrow> (a, b, f, g))"

definition box_drawn :: "view \<Rightarrow> view \<Rightarrow> int \<Rightarrow> int \<Rightarrow> int \<Rightarrow> int \<Rightarrow> int \<Rightarrow> int \<Rightarrow> int \<Rightarrow> int \<Rightarrow> jint list \<Rightarrow> bool" where
  "box_drawn b v x y w h lE rE tE bE new = (case v_clip v of (minX, minY, maxX, maxY) \<Rightarrow>
     let xs = clipped minX maxX x w lE rE; ys = clipped minY maxY y h tE bE
     in rect_drawn (v_width v) (fst xs) (fst (snd xs) - fst xs + 1) (fst ys) (fst (snd ys) - fst ys + 1)
          (box_px b xs ys) (v_canvas v) new)"

text \<open>The canvas a call may leave.\<close>

fun paints :: "view \<Rightarrow> call \<Rightarrow> jint list \<Rightarrow> bool" where
  "paints v (Fill_Rect x y w h) new \<longleftrightarrow> box_drawn v v x y w h
     IMAGE_FRAC_EDGE_KEEP IMAGE_FRAC_EDGE_KEEP IMAGE_FRAC_EDGE_KEEP IMAGE_FRAC_EDGE_KEEP new"
| "paints v (Draw_Image mode data iw ih off stride tr rep x y w h lE rE tE bE xm ym xM yM ha) new \<longleftrightarrow>
     box_drawn (v\<lparr>v_brush := Picture\<rparr>) v x y w h lE rE tE bE new"
| "paints v (Clear_Rect x y w h) new \<longleftrightarrow> (case v_clip v of (minX, minY, maxX, maxY) \<Rightarrow>
     rect_drawn (v_width v) (max x minX) (min (x + w - 1) maxX - max x minX + 1)
       (max y minY) (min (y + h - 1) maxY - max y minY + 1)
       (\<lambda>_ _ old new. new = (case v_colour v of (a, r, g, b) \<Rightarrow> argb a r g b)) (v_canvas v) new)"
| "paints v (Fill_Alpha_Mask jmask x y w h off stride) new \<longleftrightarrow> (case v_clip v of (minX, minY, maxX, maxY) \<Rightarrow>
     rect_drawn (v_width v) (max x minX) (min (x + w - 1) maxX - max x minX + 1)
       (max y minY) (min (y + h - 1) maxY - max y minY + 1)
       (\<lambda>row k. covered v (jmask ! nat (off + (row - y) * w + (max x minX + k - x)) AND 0xff)) (v_canvas v) new)"
| "paints v (Emit_Alpha_Row am deltas y xf xt xo n) new \<longleftrightarrow> (case row_window v y xf xt of (x0, x1) \<Rightarrow>
     rect_drawn (v_width v) x0 (x1 - x0 + 1) y 1
       (\<lambda>_ k. covered v (row_cov am (drop (nat xo) deltas) k)) (v_canvas v) new)"
| "paints v (Set_RGB px off scan x y w h) new \<longleftrightarrow>
     rect_drawn (v_width v) x w y h (\<lambda>r k old new. new = px ! nat (off + (r - y) * scan + k)) (v_canvas v) new"
| "paints v _ new \<longleftrightarrow> new = v_canvas v"

inductive step :: "view \<Rightarrow> call \<Rightarrow> view \<Rightarrow> bool" where
  step: "legal v c \<Longrightarrow> paints v c new \<Longrightarrow> step v c ((after c v)\<lparr>v_canvas := new\<rparr>)"

inductive steps :: "view \<Rightarrow> call list \<Rightarrow> view \<Rightarrow> bool" where
  nil: "steps v [] v"
| cons: "step v c u \<Longrightarrow> steps u cs t \<Longrightarrow> steps v (c # cs) t"

inductive_cases stepE: "step v c u"
inductive_cases steps_consE: "steps v (c # cs) t"

primrec legal_calls :: "view \<Rightarrow> call list \<Rightarrow> bool" where
  "legal_calls v [] \<longleftrightarrow> True"
| "legal_calls v (c # cs) \<longleftrightarrow> legal v c \<and> legal_calls (after c v) cs"

section \<open>The renderer behind the view\<close>

definition good_env :: "jni_env \<Rightarrow> bool" where
  "good_env env \<longleftrightarrow> env_surface env \<and> env_array env \<and> env_array2 env \<and> env_alloc env"

fun brush_holds :: "brush \<Rightarrow> renderer \<Rightarrow> bool" where
  "brush_holds No_Brush rdr \<longleftrightarrow> True"
| "brush_holds Flat rdr \<longleftrightarrow> r_paintMode rdr = PAINT_FLAT_COLOR"
| "brush_holds (Ramp ramp) rdr \<longleftrightarrow> r_paintMode rdr \<in> {PAINT_LINEAR_GRADIENT, PAINT_RADIAL_GRADIENT} \<and>
     gradient_paint_ok rdr \<and> r_gradient_colors rdr = ramp"
| "brush_holds Picture rdr \<longleftrightarrow> r_paintMode rdr = PAINT_TEXTURE8888 \<and> texture_ok (r_texture rdr)"

definition settings :: "view \<Rightarrow> renderer \<Rightarrow> bool" where
  "settings v rdr \<longleftrightarrow> r_compositeRule rdr = COMPOSITE_SRC_OVER \<and> user_colour rdr = v_colour v \<and> byte_colour (v_colour v) \<and>
     (r_clip_bbMinX rdr, r_clip_bbMinY rdr, r_clip_bbMaxX rdr, r_clip_bbMaxY rdr) = v_clip v \<and> brush_holds (v_brush v) rdr"

definition shows_surface :: "view \<Rightarrow> surface \<Rightarrow> bool" where
  "shows_surface v s \<longleftrightarrow> s_width s = v_width v \<and> s_height s = v_height v \<and> s_offset s = 0 \<and>
     s_scanlineStride s = s_width s \<and> s_pixelStride s = 1"

definition session :: "jni_env \<Rightarrow> view \<Rightarrow> jni_state \<Rightarrow> bool" where
  "session env v st \<longleftrightarrow> good_env env \<and> draw_ok env st \<and> settings v (jn_rdr st) \<and> shows_surface v (jn_surface st) \<and>
     jn_dataInt st = v_canvas v"


definition simulates :: "jni_env \<Rightarrow> view \<Rightarrow> jni_state \<Rightarrow> call \<Rightarrow> bool" where
  "simulates env v st c \<longleftrightarrow> (\<exists>st'. run env c st = Done st' \<and> paints v c (jn_dataInt st') \<and>
     session env ((after c v)\<lparr>v_canvas := jn_dataInt st'\<rparr>) st')"

lemma settings_canvas [simp]: "settings (v\<lparr>v_canvas := d\<rparr>) = settings v"
  by (simp add: settings_def fun_eq_iff)

lemma shows_surface_simps [simp]:
  "shows_surface (v\<lparr>v_canvas := d\<rparr>) = shows_surface v" "shows_surface (v\<lparr>v_brush := b\<rparr>) = shows_surface v"
  "shows_surface v (s\<lparr>s_data := d\<rparr>) = shows_surface v s"
  by (simp_all add: shows_surface_def fun_eq_iff)

lemma oom_check_Done: "oom_check env st = Done st' \<longleftrightarrow> \<not> jn_memError st \<and> st' = st"
  by (auto simp: oom_check_def JNI_ThrowNew_def Let_def split: if_splits)

lemma surface_acquire_shows:
  "surface_acquire env st = Done st' \<Longrightarrow> shows_surface v (jn_surface st') = shows_surface v (jn_surface st)"
  by (auto simp: surface_acquire_def JNI_ThrowNew_def setMemErrorFlag_def Let_def split: if_splits option.splits)

lemmas frame_defs = chain_eq_Done lift_op_eq_Done oom_check_Done acquired_def drawn_def Let_def setMemErrorFlag_def

lemma fillRect_shows:
  "fillRect env x y w h lE rE tE bE st = Done st' \<Longrightarrow> shows_surface v (jn_surface st') = shows_surface v (jn_surface st)"
  by (auto simp: fillRect_def frame_defs dest!: surface_acquire_shows [where v = v] split: if_splits)

lemma drawImageImpl_shows:
  "drawImageImpl env im d iw ih off s tr rep x y w h lE rE tE bE xm ym xM yM ha st = Done st' \<Longrightarrow>
     shows_surface v (jn_surface st') = shows_surface v (jn_surface st)"
  by (auto simp: drawImageImpl_def frame_defs dest!: fillRect_shows [where v = v] split: if_splits)

lemma clearRectImpl_shows:
  "clearRectImpl env x y w h st = Done st' \<Longrightarrow> shows_surface v (jn_surface st') = shows_surface v (jn_surface st)"
  by (auto simp: clearRectImpl_def frame_defs dest!: surface_acquire_shows [where v = v] split: if_splits)

lemma fillAlphaMaskImpl_shows:
  "fillAlphaMaskImpl env jmask x y w h off s st = Done st' \<Longrightarrow> shows_surface v (jn_surface st') = shows_surface v (jn_surface st)"
  by (auto simp: fillAlphaMaskImpl_def fillAlphaMask_def frame_defs dest!: surface_acquire_shows [where v = v] split: if_splits)

lemma emitAndClearAlphaRowImpl_shows:
  "emitAndClearAlphaRowImpl env am ds y xf xt xo n st = Done (st', ds') \<Longrightarrow>
     shows_surface v (jn_surface st') = shows_surface v (jn_surface st)"
  by (auto simp: emitAndClearAlphaRowImpl_def frame_defs dest!: surface_acquire_shows [where v = v] split: if_splits)

lemma brush_holds_unchanged: "unchanged r r' \<Longrightarrow> brush_holds b r \<Longrightarrow> brush_holds b r'"
  by (cases b) (auto simp: unchanged_def gradient_paint_ok_def gradient_ok_def)

lemma settings_unchanged: "unchanged r r' \<Longrightarrow> settings v r \<Longrightarrow> settings v r'"
  using brush_holds_unchanged [of r r' "v_brush v"] by (simp add: settings_def unchanged_def user_colour_def)

lemma drawn_session:
  assumes "session env v st" "draw_ok env st'" "unchanged (jn_rdr st) (jn_rdr st')"
    and "shows_surface v (jn_surface st') = shows_surface v (jn_surface st)"
  shows "session env (v\<lparr>v_canvas := jn_dataInt st'\<rparr>) st'"
  using assms settings_unchanged [OF assms(3)] by (simp add: session_def)

text \<open>A brush is one the drawing lemmas accept.\<close>

lemma brush_cases:
  assumes "session env v st" "v_brush v \<noteq> No_Brush"
  obtains (flat) "v_brush v = Flat" "r_paintMode (jn_rdr st) = PAINT_FLAT_COLOR" "byte_colour (user_colour (jn_rdr st))"
  | (paint) "v_brush v \<noteq> Flat" "brush_ok env (jn_rdr st)" "\<And>c. paint_colour (jn_rdr st) c \<longleftrightarrow> brush_px (v_brush v) c"
  using assms
  by (cases "v_brush v") (auto simp: session_def settings_def brush_ok_def paint_colour_def brush_px_def good_env_def)


section \<open>Each call simulates\<close>

lemma setter_simulates:
  assumes "session env v st" "run env c st = Done (st\<lparr>jn_rdr := r\<rparr>)" "paints v c (v_canvas v)"
    and "coherent (jn_rdr st) \<Longrightarrow> coherent r" "r_paint r = r_paint (jn_rdr st)" "r_maskType r = r_maskType (jn_rdr st)"
    and "clip_ok (jn_surface st) r" "settings (after c v) r" "shows_surface (after c v) = shows_surface v"
  shows "simulates env v st c"
  using assms by (auto simp: simulates_def session_def draw_ok_def)

lemma simulates_clip:
  assumes "session env v st" "legal v (Set_Clip x y w h)"
  shows "simulates env v st (Set_Clip x y w h)"
proof (rule setter_simulates [OF assms(1), where r = "renderer_setClip (jn_rdr st) x y w h"])
  have i: "i32 (x + w - 1) = x + w - 1" "i32 (y + h - 1) = y + h - 1" using assms(2) by (simp_all add: i32_id)
  have s: "settings v (jn_rdr st)" "shows_surface v (jn_surface st)" using assms(1) by (simp_all add: session_def)
  show "clip_ok (jn_surface st) (renderer_setClip (jn_rdr st) x y w h)"
    using s(2) assms(2) by (simp add: clip_ok_def renderer_setClip_def i shows_surface_def)
  show "settings (after (Set_Clip x y w h) v) (renderer_setClip (jn_rdr st) x y w h)"
    using s(1) by (cases "v_brush v") (auto simp: settings_def renderer_setClip_def user_colour_def i gradient_paint_ok_def gradient_ok_def)
qed (use assms in \<open>simp_all add: setClipImpl_def oom_check_def session_def draw_ok_def renderer_setClip_def shows_surface_def fun_eq_iff\<close>)

lemma simulates_color:
  assumes "session env v st" "legal v (Set_Color r g b a)"
  shows "simulates env v st (Set_Color r g b a)"
proof (rule setter_simulates [OF assms(1), where r = "renderer_setColor (jn_rdr st) r g b a"])
  show "settings (after (Set_Color r g b a) v) (renderer_setColor (jn_rdr st) r g b a)"
    using assms by (simp add: session_def settings_def renderer_setColor_fields renderer_setColor_clip)
qed (use assms in \<open>simp_all add: setColorImpl_def oom_check_def session_def draw_ok_def renderer_setColor_fields renderer_setColor_coherent
  shows_surface_def fun_eq_iff\<close>)

text \<open>The two gradients differ only in their geometry.\<close>

definition gradient_set :: "renderer \<Rightarrow> jint \<Rightarrow> jint list \<Rightarrow> jint \<Rightarrow> renderer \<Rightarrow> bool" where
  "gradient_set rdr cyc ramp mode r \<longleftrightarrow> r_compositeRule r = r_compositeRule rdr \<and> user_colour r = user_colour rdr \<and>
     r_clip_bbMinX r = r_clip_bbMinX rdr \<and> r_clip_bbMinY r = r_clip_bbMinY rdr \<and>
     r_clip_bbMaxX r = r_clip_bbMaxX rdr \<and> r_clip_bbMaxY r = r_clip_bbMaxY rdr \<and> r_paint r = r_paint rdr \<and>
     r_maskType r = r_maskType rdr \<and> r_paintMode r = mode \<and> r_gradient_cycleMethod r = cyc \<and>
     r_gradient_colors r = take GRADIENT_MAP_SIZE ramp"

lemma gradient_set_linear:
  assumes "GRADIENT_MAP_SIZE \<le> length ramp"
  shows "\<exists>r. renderer_setLinearGradient (rdr\<lparr>r_gradient_cycleMethod := cyc\<rparr>) x0 y0 x1 y1 ramp tr = Some r \<and>
    gradient_set rdr cyc ramp PAINT_LINEAR_GRADIENT r"
  using assms by (simp add: renderer_setLinearGradient_def copy_gradient_colors_def Let_def gradient_set_def setPaintMode_def
    set_state_def user_colour_def)

lemma gradient_set_radial:
  assumes "GRADIENT_MAP_SIZE \<le> length ramp"
  shows "\<exists>r. renderer_setRadialGradient (rdr\<lparr>r_gradient_cycleMethod := cyc\<rparr>) cx cy fx fy rad ramp tr = Some r \<and>
    gradient_set rdr cyc ramp PAINT_RADIAL_GRADIENT r"
  using assms by (simp add: renderer_setRadialGradient_def copy_gradient_colors_def Let_def gradient_set_def setPaintMode_def
    set_state_def user_colour_def)

lemma gradient_set_settings:
  assumes "gradient_set rdr cyc ramp mode r" "settings v rdr" "GRADIENT_MAP_SIZE \<le> length ramp" "premul_buf ramp"
    and "cyc \<in> {CYCLE_NONE, CYCLE_REPEAT, CYCLE_REFLECT}" "mode \<in> {PAINT_LINEAR_GRADIENT, PAINT_RADIAL_GRADIENT}"
  shows "settings (v\<lparr>v_brush := Ramp (take GRADIENT_MAP_SIZE ramp)\<rparr>) r"
  using assms by (auto simp: gradient_set_def settings_def gradient_paint_ok_def gradient_ok_def premul_buf_def dest: in_set_takeD)

lemma simulates_linear:
  assumes "session env v st" "legal v (Set_Linear_Gradient x0 y0 x1 y1 ramp cyc tr)"
  shows "simulates env v st (Set_Linear_Gradient x0 y0 x1 y1 ramp cyc tr)"
proof -
  obtain r where r: "renderer_setLinearGradient ((jn_rdr st)\<lparr>r_gradient_cycleMethod := cyc\<rparr>) x0 y0 x1 y1 ramp tr = Some r"
      "gradient_set (jn_rdr st) cyc ramp PAINT_LINEAR_GRADIENT r"
    using gradient_set_linear [where ramp = ramp and rdr = "jn_rdr st" and cyc = cyc] assms(2) by (meson legal.simps(3))
  show ?thesis
    by (rule setter_simulates [OF assms(1), where r = r])
      (use assms r gradient_set_settings [OF r(2), of v] renderer_setLinearGradient_coherent [OF _ r(1)] in
        \<open>simp_all add: setLinearGradientImpl_def oom_check_def session_def good_env_def draw_ok_def clip_ok_def gradient_set_def\<close>)
qed

lemma simulates_radial:
  assumes "session env v st" "legal v (Set_Radial_Gradient cx cy fx fy rad ramp cyc tr)"
  shows "simulates env v st (Set_Radial_Gradient cx cy fx fy rad ramp cyc tr)"
proof -
  obtain r where r: "renderer_setRadialGradient ((jn_rdr st)\<lparr>r_gradient_cycleMethod := cyc\<rparr>) cx cy fx fy rad ramp tr = Some r"
      "gradient_set (jn_rdr st) cyc ramp PAINT_RADIAL_GRADIENT r"
    using gradient_set_radial [where ramp = ramp and rdr = "jn_rdr st" and cyc = cyc] assms(2) by (meson legal.simps(4))
  show ?thesis
    by (rule setter_simulates [OF assms(1), where r = r])
      (use assms r gradient_set_settings [OF r(2), of v] renderer_setRadialGradient_coherent [OF _ r(1)] in
        \<open>simp_all add: setRadialGradientImpl_def oom_check_def session_def good_env_def draw_ok_def clip_ok_def gradient_set_def\<close>)
qed

lemma simulates_texture:
  assumes "session env v st" "legal v (Set_Texture data w h stride tr rep ha)"
  shows "simulates env v st (Set_Texture data w h stride tr rep ha)"
proof -
  have l: "2 \<le> w" "2 \<le> h" using assms(2) by simp_all
  obtain img where img: "copy_image data w h stride = Some img" "image_ok img w h 0 w rep 0 0 (w - 1) (h - 1)"
    using copy_image_texture [of w h stride data rep] assms(2) by auto
  let ?r = "renderer_setTexture (jn_rdr st) IMAGE_MODE_NORMAL img w h w rep True tr True ha 0 0 (w - 1) (h - 1)"
  have i: "i32 (w - 1) = w - 1" "i32 (h - 1) = h - 1" using image_ok_small [OF img(2)] l by (simp_all add: i32_small)
  have tx: "texture_ok (r_texture ?r)" using image_texture_ok(1) [OF img(2)] by simp
  show ?thesis
    by (rule setter_simulates [OF assms(1), where r = ?r])
      (use assms img i tx renderer_setTexture_coherent in
        \<open>simp_all add: setTextureImpl_def oom_check_def session_def good_env_def draw_ok_def clip_ok_def setTexture_fields settings_def setTexture_prev(2)\<close>)
qed


lemma drawing_simulates:
  assumes "session env v st" "run env c st = Done st'" "draw_ok env st'" "unchanged (jn_rdr st) (jn_rdr st')" "after c v = v"
    and "shows_surface v (jn_surface st') = shows_surface v (jn_surface st)" "paints v c (jn_dataInt st')"
  shows "simulates env v st c"
  using assms drawn_session [OF assms(1,3,4,6)] by (auto simp: simulates_def)

lemma session_facts:
  assumes "session env v st" "v_clip v = (minX, minY, maxX, maxY)"
  shows "draw_ok env st" "r_compositeRule (jn_rdr st) = COMPOSITE_SRC_OVER" "user_colour (jn_rdr st) = v_colour v"
    "r_clip_bbMinX (jn_rdr st) = minX" "r_clip_bbMinY (jn_rdr st) = minY" "r_clip_bbMaxX (jn_rdr st) = maxX" "r_clip_bbMaxY (jn_rdr st) = maxY"
    "s_width (jn_surface st) = v_width v" "s_height (jn_surface st) = v_height v" "jn_dataInt st = v_canvas v"
    "env_array env" "env_array2 env" "env_alloc env" "env_surface env" "r_ualpha (jn_rdr st) = fst (v_colour v)"
proof -
  show "user_colour (jn_rdr st) = v_colour v" using assms by (simp add: session_def settings_def)
  then show "r_ualpha (jn_rdr st) = fst (v_colour v)" by (metis fst_conv user_colour_def)
qed (use assms in \<open>simp_all add: session_def settings_def good_env_def shows_surface_def\<close>)

lemma simulates_fill:
  assumes "session env v st" "legal v (Fill_Rect x y w h)"
  shows "simulates env v st (Fill_Rect x y w h)"
proof -
  obtain minX minY maxX maxY where clip: "v_clip v = (minX, minY, maxX, maxY)" by (cases "v_clip v")
  note s = session_facts [OF assms(1) clip]
  obtain x0 x1 lf0 rf0 where ax: "rect_axis minX maxX x w 0 0 = (x0, x1, lf0, rf0)" by (cases "rect_axis minX maxX x w 0 0")
  obtain y0 y1 tf0 bf0 where ay: "rect_axis minY maxY y h 0 0 = (y0, y1, tf0, bf0)" by (cases "rect_axis minY maxY y h 0 0")
  obtain lf rf where fx: "single_frac x0 x1 (lf0, rf0) = (lf, rf)" by fastforce
  obtain tf bf where fy: "single_frac y0 y1 (tf0, bf0) = (tf, bf)" by fastforce
  have nb: "v_brush v \<noteq> No_Brush" using assms(2) by simp
  have "\<exists>st'. fillRect env x y w h 0 0 0 0 st = Done st' \<and> draw_ok env st' \<and> unchanged (jn_rdr st) (jn_rdr st') \<and>
      paints v (Fill_Rect x y w h) (jn_dataInt st')"
    using assms(1) nb
  proof (cases rule: brush_cases)
    case flat
    from fillRect_flat_drawn [OF s(1) flat(2) s(2) flat(3) _ _ fx fy, unfolded s(4-7), OF ax ay] flat(1) show ?thesis
      by (simp add: s box_drawn_def clip clipped_def ax ay fx fy box_px_def)
  next
    case paint
    from fillRect_paint_drawn [OF s(1) paint(2) s(2) _ _ fx fy, unfolded s(4-7), OF ax ay] paint(1) show ?thesis
      by (simp add: s paint(3) box_drawn_def clip clipped_def ax ay fx fy box_px_def)
  qed
  then obtain st' where st': "fillRect env x y w h 0 0 0 0 st = Done st'" "draw_ok env st'" "unchanged (jn_rdr st) (jn_rdr st')"
      "paints v (Fill_Rect x y w h) (jn_dataInt st')" by blast
  show ?thesis
    by (rule drawing_simulates [OF assms(1), where st' = st'])
      (use st' fillRect_shows [OF st'(1)] in \<open>simp_all add: fillRectImpl_def\<close>)
qed

lemma simulates_clear:
  assumes "session env v st" "legal v (Clear_Rect x y w h)"
  shows "simulates env v st (Clear_Rect x y w h)"
proof -
  obtain minX minY maxX maxY where clip: "v_clip v = (minX, minY, maxX, maxY)" by (cases "v_clip v")
  note s = session_facts [OF assms(1) clip]
  have g: "s_offset (jn_surface st) = 0" "s_scanlineStride (jn_surface st) = s_width (jn_surface st)" "s_pixelStride (jn_surface st) = 1"
    using assms(1) by (simp_all add: session_def shows_surface_def)
  have cc: "clear_colour (jn_rdr st) = (case v_colour v of (a, r, g, b) \<Rightarrow> argb a r g b)"
    using s(2) s(3) [symmetric] by (simp add: clear_colour_def user_colour_def)
  have l: "4 * int (length (jn_dataInt st)) < 2 ^ 31" "is_jint (x + w - 1)" "is_jint (y + h - 1)" "premul (clear_colour (jn_rdr st))"
    using assms(2) by (simp_all add: s(10) cc)
  obtain st' where st': "clearRectImpl env x y w h st = Done st'" "unchanged (jn_rdr st) (jn_rdr st')" "draw_ok env st'"
    "rect_drawn (v_width v) (max x minX) (min (x + w - 1) maxX - max x minX + 1)
       (max y minY) (min (y + h - 1) maxY - max y minY + 1) (\<lambda>_ _ old new. new = clear_colour (jn_rdr st)) (v_canvas v) (jn_dataInt st')"
    using clearRectImpl_drawn [OF s(1) l(1) g l(2,3) refl refl refl refl] l(4) unfolding s by blast
  show ?thesis
    by (rule drawing_simulates [OF assms(1), where st' = st'])
      (use st' clearRectImpl_shows [OF st'(1)] in \<open>simp_all add: clip cc\<close>)
qed

lemma covered_eq:
  "v_brush v = Flat \<Longrightarrow> covered v cov = (\<lambda>old new. new = over_ref (v_colour v) cov old)"
  "v_brush v \<noteq> Flat \<Longrightarrow> covered v cov = (\<lambda>old new. \<exists>c. brush_px (v_brush v) c \<and> new = pt_over_ref c cov old)"
  by (simp_all add: covered_def fun_eq_iff)

lemma simulates_mask:
  assumes "session env v st" "legal v (Fill_Alpha_Mask jmask x y w h off stride)"
  shows "simulates env v st (Fill_Alpha_Mask jmask x y w h off stride)"
proof -
  obtain minX minY maxX maxY where clip: "v_clip v = (minX, minY, maxX, maxY)" by (cases "v_clip v")
  note s = session_facts [OF assms(1) clip]
  have nb: "v_brush v \<noteq> No_Brush" "mask_fits jmask x y w h off" using assms(2) by simp_all
  have "\<exists>st'. fillAlphaMaskImpl env jmask x y w h off stride st = Done st' \<and> draw_ok env st' \<and> unchanged (jn_rdr st) (jn_rdr st') \<and>
      paints v (Fill_Alpha_Mask jmask x y w h off stride) (jn_dataInt st')"
    using assms(1) nb(1)
  proof (cases rule: brush_cases)
    case flat
    from fillAlphaMaskImpl_flat_drawn [OF s(1,11) nb(2) refl refl refl refl flat(2) s(2) flat(3), of stride] flat(1) show ?thesis
      by (simp add: s clip covered_eq)
  next
    case paint
    from fillAlphaMaskImpl_paint_drawn [OF s(1,11) nb(2) refl refl refl refl paint(2) s(2), of stride] paint(1) show ?thesis
      by (simp add: s paint(3) clip covered_eq)
  qed
  then obtain st' where st': "fillAlphaMaskImpl env jmask x y w h off stride st = Done st'" "draw_ok env st'"
      "unchanged (jn_rdr st) (jn_rdr st')" "paints v (Fill_Alpha_Mask jmask x y w h off stride) (jn_dataInt st')" by blast
  show ?thesis
    by (rule drawing_simulates [OF assms(1), where st' = st'])
      (use st' fillAlphaMaskImpl_shows [OF st'(1)] in simp_all)
qed


lemma emit_nothing:
  assumes "draw_ok env st" "env_array env" "env_array2 env"
    and "\<not> (max xf (r_clip_bbMinX (jn_rdr st)) \<le> min xt (r_clip_bbMaxX (jn_rdr st)) \<and> r_clip_bbMinY (jn_rdr st) \<le> y \<and> y \<le> r_clip_bbMaxY (jn_rdr st))"
  shows "\<exists>st'. emitAndClearAlphaRowImpl env am deltas y xf xt xo n st = Done (st', deltas) \<and> draw_ok env st' \<and>
    unchanged (jn_rdr st) (jn_rdr st') \<and> jn_dataInt st' = jn_dataInt st"
proof -
  let ?s = "(jn_surface st)\<lparr>s_data := jn_dataInt st\<rparr>"
  define r where "r = validate_blitting ?s (invalidate_renderer_surface (jn_rdr st))"
  have so: "surface_fits (jn_surface st) (jn_dataInt st)" "env_surface env" "\<not> jn_memError st" "s_imageType ?s = TYPE_INT_ARGB_PRE" "coherent (jn_rdr st)"
    using assms(1) by (simp_all add: draw_ok_def surface_ok_fits surface_fits_def)
  have k: "kept (jn_rdr st) r" unfolding r_def by (rule validate_invalidated)
  have co: "coherent r"
    unfolding r_def invalidate_renderer_surface_def by (rule validate_blitting_coherent [OF set_state_coherent [OF so(5)] so(4)])
  have c: "r_clip_bbMinX r = r_clip_bbMinX (jn_rdr st)" "r_clip_bbMaxX r = r_clip_bbMaxX (jn_rdr st)"
    "r_clip_bbMinY r = r_clip_bbMinY (jn_rdr st)" "r_clip_bbMaxY r = r_clip_bbMaxY (jn_rdr st)" "r_paint r = r_paint (jn_rdr st)"
    "r_maskType r = r_maskType (jn_rdr st)"
    using k by (simp_all add: kept_def)
  let ?st' = "st\<lparr>jn_surface := ?s, jn_rdr := r\<rparr>"
  have "emitAndClearAlphaRowImpl env am deltas y xf xt xo n st = Done (?st', deltas)"
    using assms(2-4) so(3)
    by (auto simp: emitAndClearAlphaRowImpl_def surface_acquire_ok [OF so(1,2)] Let_def r_def [symmetric] c oom_check_def
      del: max.bounded_iff min.bounded_iff)
  moreover have "draw_ok env ?st'" using assms(1) co by (simp add: draw_ok_def surface_ok_def clip_ok_def c)
  ultimately show ?thesis using kept_unchanged [OF k] by auto
qed

lemma simulates_row:
  assumes "session env v st" "legal v (Emit_Alpha_Row am deltas y xf xt xo n)"
  shows "simulates env v st (Emit_Alpha_Row am deltas y xf xt xo n)"
proof -
  obtain minX minY maxX maxY where clip: "v_clip v = (minX, minY, maxX, maxY)" by (cases "v_clip v")
  note s = session_facts [OF assms(1) clip]
  let ?c = "Emit_Alpha_Row am deltas y xf xt xo n"
  have nb: "v_brush v \<noteq> No_Brush" using assms(2) by simp
  have "\<exists>st' ds. emitAndClearAlphaRowImpl env am deltas y xf xt xo n st = Done (st', ds) \<and> draw_ok env st' \<and>
      unchanged (jn_rdr st) (jn_rdr st') \<and> paints v ?c (jn_dataInt st')"
  proof (cases "max xf minX \<le> min xt maxX \<and> minY \<le> y \<and> y \<le> maxY")
    case True
    then have w: "row_window v y xf xt = (max xf minX, min xt maxX)" by (simp add: row_window_def clip)
    then have l: "0 \<le> xo" "xo \<le> int (length deltas)" "row_fits am (drop (nat xo) deltas) (min xt maxX - max xf minX + 1)"
      using assms(2) True by simp_all
    have in_clip: "max xf (r_clip_bbMinX (jn_rdr st)) \<le> min xt (r_clip_bbMaxX (jn_rdr st))" "r_clip_bbMinY (jn_rdr st) \<le> y" "y \<le> r_clip_bbMaxY (jn_rdr st)"
      using True by (simp_all only: s)
    have l': "row_fits am (drop (nat xo) deltas) (min xt (r_clip_bbMaxX (jn_rdr st)) - max xf (r_clip_bbMinX (jn_rdr st)) + 1)"
      using l(3) by (simp only: s)
    from assms(1) nb show ?thesis
    proof (cases rule: brush_cases)
      case flat
      from emitAndClearAlphaRowImpl_flat_drawn [OF s(1,11,12) refl refl in_clip l(1,2) l' flat(2) s(2) flat(3), of n] flat(1) w show ?thesis
        by (auto simp: s covered_eq)
    next
      case paint
      from emitAndClearAlphaRowImpl_paint_drawn [OF s(1,11,12) refl refl in_clip l(1,2) l' paint(2) s(2), of n] paint(1) w show ?thesis
        by (auto simp: s paint(3) covered_eq)
    qed
  next
    case False
    then have e: "fst (row_window v y xf xt) > snd (row_window v y xf xt)" by (auto simp: row_window_def clip)
    from emit_nothing [OF s(1,11,12), of xf xt y am deltas xo n] False show ?thesis
      using e by (auto simp: s rect_drawn_empty split: prod.split)
  qed
  then obtain st' ds where st': "emitAndClearAlphaRowImpl env am deltas y xf xt xo n st = Done (st', ds)" "draw_ok env st'"
      "unchanged (jn_rdr st) (jn_rdr st')" "paints v ?c (jn_dataInt st')" by blast
  show ?thesis
    by (rule drawing_simulates [OF assms(1), where st' = st'])
      (use st' emitAndClearAlphaRowImpl_shows [OF st'(1)] in simp_all)
qed

lemma simulates_image:
  assumes "session env v st" "legal v (Draw_Image im d iw ih off stride tr rep x y w h lE rE tE bE xm ym xM yM ha)"
  shows "simulates env v st (Draw_Image im d iw ih off stride tr rep x y w h lE rE tE bE xm ym xM yM ha)"
proof -
  obtain minX minY maxX maxY where clip: "v_clip v = (minX, minY, maxX, maxY)" by (cases "v_clip v")
  note s = session_facts [OF assms(1) clip]
  obtain x0 x1 lf0 rf0 where ax: "rect_axis minX maxX x w lE rE = (x0, x1, lf0, rf0)" by (cases "rect_axis minX maxX x w lE rE")
  obtain y0 y1 tf0 bf0 where ay: "rect_axis minY maxY y h tE bE = (y0, y1, tf0, bf0)" by (cases "rect_axis minY maxY y h tE bE")
  obtain lf rf where fx: "single_frac x0 x1 (lf0, rf0) = (lf, rf)" by fastforce
  obtain tf bf where fy: "single_frac y0 y1 (tf0, bf0) = (tf, bf)" by fastforce
  have mode: "im = IMAGE_MODE_NORMAL \<or> r_paintMode (jn_rdr st) = PAINT_FLAT_COLOR \<and> byte_colour (user_colour (jn_rdr st))"
    and img: "image_ok d iw ih off stride rep xm ym xM yM"
    using assms by (auto simp: session_def settings_def)
  obtain st' where st': "drawImageImpl env im d iw ih off stride tr rep x y w h lE rE tE bE xm ym xM yM ha st = Done st'"
      "draw_ok env st'" "r_compositeRule (jn_rdr st') = COMPOSITE_SRC_OVER" "user_colour (jn_rdr st') = v_colour v"
      "same_clip (jn_rdr st) (jn_rdr st')"
      "rect_drawn (v_width v) x0 (x1 - x0 + 1) y0 (y1 - y0 + 1)
        (\<lambda>row k old new. \<exists>c. premul c \<and> new = pt_over_ref c (fill_fade lf rf (x1 - x0 + 1) (row_frac y0 y1 tf bf row) k - 1) old)
        (v_canvas v) (jn_dataInt st')"
    using drawImageImpl_drawn [OF s(1,2,11,13) img mode _ _ fx fy, unfolded s(4-7), OF ax ay, of tr ha] unfolding s by blast
  have "settings (v\<lparr>v_brush := No_Brush\<rparr>) (jn_rdr st')"
    using assms(1) st'(3-5) by (simp add: session_def settings_def same_clip_def)
  moreover have "shows_surface v (jn_surface st')" using drawImageImpl_shows [OF st'(1)] assms(1) by (simp add: session_def)
  ultimately have "session env ((v\<lparr>v_brush := No_Brush\<rparr>)\<lparr>v_canvas := jn_dataInt st'\<rparr>) st'"
    using assms(1) st'(2) by (simp add: session_def)
  moreover have "box_drawn (v\<lparr>v_brush := Picture\<rparr>) v x y w h lE rE tE bE (jn_dataInt st')"
    using st'(6) by (simp add: box_drawn_def clip clipped_def ax ay fx fy box_px_def brush_px_def)
  ultimately show ?thesis using st'(1) by (simp add: simulates_def)
qed

lemma rect_drawn_premul:
  assumes "rect_drawn sw x n y h R old new" "premul_buf old"
    and "\<And>r k p q. y \<le> r \<Longrightarrow> r < y + h \<Longrightarrow> 0 \<le> k \<Longrightarrow> k < n \<Longrightarrow> R r k p q \<Longrightarrow> premul q"
  shows "premul_buf new"
proof -
  have "premul (new ! i)" if "i < length new" for i
    using assms(1,2) that assms(3) [of "int i div sw" "int i mod sw - x" "old ! i" "new ! i"]
    by (auto simp: rect_drawn_def premul_buf_def Let_def split: if_splits)
  then show ?thesis by (auto simp: premul_buf_def in_set_conv_nth)
qed

lemma setRGB_index:
  assumes "array_holds px off scan w h" "y \<le> r" "r < y + h" "0 \<le> k" "k < w"
  shows "nat (off + (r - y) * scan + k) < length px"
proof -
  have a: "0 \<le> off" "w \<le> scan" "off + h * scan \<le> int (length px)" using assms(1) by (simp_all add: array_holds_def)
  have "(r - y + 1) * scan \<le> h * scan" by (rule mult_right_mono) (use assms a in auto)
  moreover have "0 \<le> (r - y) * scan" using assms a by simp
  ultimately have "0 \<le> off + (r - y) * scan + k" "off + (r - y) * scan + k < int (length px)"
    using a assms(4,5) unfolding distrib_right by linarith+
  then show ?thesis by simp
qed

lemma simulates_setRGB:
  assumes "session env v st" "legal v (Set_RGB px off scan x y w h)"
  shows "simulates env v st (Set_RGB px off scan x y w h)"
proof -
  obtain minX minY maxX maxY where clip: "v_clip v = (minX, minY, maxX, maxY)" by (cases "v_clip v")
  note s = session_facts [OF assms(1) clip]
  have f: "surface_fits (jn_surface st) (jn_dataInt st)" "\<not> jn_memError st" using s(1) by (simp_all add: draw_ok_def surface_ok_fits)
  have b: "box_inside (jn_surface st) x y w h" "array_holds px off scan w h" "premul_buf px" using assms(2) s(8,9) by (simp_all add: box_inside_def)
  obtain d where d: "setRGBImpl env px off scan x y w h st = Done (st\<lparr>jn_surface := (jn_surface st)\<lparr>s_data := jn_dataInt st\<rparr>, jn_dataInt := d\<rparr>)"
      "rect_drawn (v_width v) x w y h (\<lambda>r k old new. new = px ! nat (off + (r - y) * scan + k)) (v_canvas v) d"
    using setRGBImpl_drawn [OF f(1) s(14,11) f(2) b(1,2)] unfolding s by blast
  have pm: "premul_buf (jn_dataInt st)" using s(1) by (simp add: draw_ok_def surface_ok_def)
  have "premul_buf d" by (rule rect_drawn_premul [OF d(2) pm [unfolded s]]) (use setRGB_index [OF b(2)] b(3) in \<open>auto simp: premul_buf_def\<close>)
  moreover have "length d = length (jn_dataInt st)" using d(2) s(10) by (simp add: rect_drawn_def)
  ultimately have "session env (v\<lparr>v_canvas := d\<rparr>) (st\<lparr>jn_surface := (jn_surface st)\<lparr>s_data := jn_dataInt st\<rparr>, jn_dataInt := d\<rparr>)"
    using assms(1) by (auto simp: session_def draw_ok_def surface_ok_def clip_ok_def)
  then show ?thesis using d by (simp add: simulates_def)
qed


section \<open>Sequences of calls\<close>

lemma legal_simulates: "session env v st \<Longrightarrow> legal v c \<Longrightarrow> simulates env v st c"
  by (cases c) (simp_all only: simulates_clip simulates_color simulates_linear simulates_radial simulates_texture simulates_fill
    simulates_image simulates_clear simulates_mask simulates_row simulates_setRGB)

lemma paints_length: "paints v c new \<Longrightarrow> length new = length (v_canvas v)"
  by (cases c) (auto simp: rect_drawn_def box_drawn_def Let_def split: prod.splits)

lemma legal_canvas: "length d = length (v_canvas v) \<Longrightarrow> legal (v\<lparr>v_canvas := d\<rparr>) c = legal v c"
  by (cases c) (auto simp: row_window_def split: prod.splits)

lemma after_canvas: "after c (v\<lparr>v_canvas := d\<rparr>) = (after c v)\<lparr>v_canvas := d\<rparr>" "v_canvas (after c v) = v_canvas v"
  by (cases c; simp)+

lemma legal_calls_canvas: "length d = length (v_canvas v) \<Longrightarrow> legal_calls (v\<lparr>v_canvas := d\<rparr>) cs = legal_calls v cs"
  by (induction cs arbitrary: v) (simp_all add: legal_canvas after_canvas)

lemma call_step:
  assumes "session env v st" "legal v c"
  obtains st' v' where "run env c st = Done st'" "step v c v'" "session env v' st'"
    "\<And>cs. legal_calls (after c v) cs \<Longrightarrow> legal_calls v' cs"
proof -
  obtain st' where st': "run env c st = Done st'" "paints v c (jn_dataInt st')" "session env ((after c v)\<lparr>v_canvas := jn_dataInt st'\<rparr>) st'"
    using legal_simulates [OF assms] by (auto simp: simulates_def)
  show ?thesis
    using st' step.step [OF assms(2) st'(2)] legal_calls_canvas [of "jn_dataInt st'" "after c v"] paints_length [OF st'(2)]
    by (intro that [of st' "(after c v)\<lparr>v_canvas := jn_dataInt st'\<rparr>"]) (simp_all add: after_canvas)
qed

lemma run_calls_refines:
  assumes "session env v st" "legal_calls v cs"
  shows "\<exists>st' v'. run_calls env cs st = Done st' \<and> steps v cs v' \<and> session env v' st'"
  using assms
proof (induction cs arbitrary: v st)
  case Nil
  then show ?case by (auto intro: steps.nil)
next
  case (Cons c cs)
  then have "legal v c" "legal_calls (after c v) cs" by simp_all
  from call_step [OF Cons.prems(1) this(1)] this(2) obtain st1 v1 where s1: "run env c st = Done st1" "step v c v1" "session env v1 st1" "legal_calls v1 cs"
    by metis
  from Cons.IH [OF s1(3,4)] s1(1,2) show ?case by (auto intro: steps.cons)
qed

text \<open>The view of a new renderer.\<close>

definition initial_view :: "int \<Rightarrow> int \<Rightarrow> jint list \<Rightarrow> view" where
  "initial_view w h d = \<lparr>v_width = w, v_height = h, v_clip = (0, 0, w - 1, h - 1), v_colour = (0, 0, 0, 0), v_brush = Flat, v_canvas = d\<rparr>"

lemma initialize_session:
  assumes "good_env env" "jn_surface st = JavaSurface_initialize TYPE_INT_ARGB_PRE w h" "jn_dataInt st = d" "\<not> jn_memError st"
    and "0 < w" "w < 2 ^ 31" "0 \<le> h" "h * w \<le> int (length d)" "int (length d) < 2 ^ 31" "premul_buf d"
  shows "\<exists>st'. initialize env st = Done st' \<and> session env (initial_view w h d) st'"
proof -
  let ?r = "createCommon (jn_surface st)"
  have "h * 1 \<le> h * w" by (rule mult_left_mono) (use assms in auto)
  then have i: "i32 (w - 1) = w - 1" "i32 (h - 1) = h - 1" using assms by (simp_all add: i32_small)
  have r: "r_compositeRule ?r = COMPOSITE_SRC_OVER" "user_colour ?r = (0, 0, 0, 0)" "r_clip_bbMinX ?r = 0" "r_clip_bbMinY ?r = 0"
    "r_clip_bbMaxX ?r = w - 1" "r_clip_bbMaxY ?r = h - 1" "r_paintMode ?r = PAINT_FLAT_COLOR" "r_paint ?r = []" "r_maskType ?r = NO_MASK"
    using i by (simp_all add: createCommon_def cleared_renderer_def user_colour_def Let_def assms(2) JavaSurface_initialize_def)
  have sf: "s_width (jn_surface st) = w" "s_height (jn_surface st) = h" "s_offset (jn_surface st) = 0" "s_scanlineStride (jn_surface st) = w"
    "s_pixelStride (jn_surface st) = 1" "s_imageType (jn_surface st) = TYPE_INT_ARGB_PRE"
    by (simp_all add: assms(2) JavaSurface_initialize_def)
  have "session env (initial_view w h d) (st\<lparr>jn_rdr := ?r\<rparr>)"
    using assms(1,3-10) createCommon_coherent sf
    by (simp add: session_def draw_ok_def settings_def shows_surface_def initial_view_def r clip_ok_def surface_ok_def good_env_def
        buffer_ok_def premul_buf_def byte_colour_def)
  then show ?thesis using assms(4) by (simp add: initialize_def oom_check_def)
qed

text \<open>Without a new clip or a direct write, pixels outside the clip are never touched.\<close>

definition in_clip :: "view \<Rightarrow> nat \<Rightarrow> bool" where
  "in_clip v i = (case v_clip v of (minX, minY, maxX, maxY) \<Rightarrow>
     minY \<le> int i div v_width v \<and> int i div v_width v \<le> maxY \<and> minX \<le> int i mod v_width v \<and> int i mod v_width v \<le> maxX)"

fun clips :: "call \<Rightarrow> bool" where
  "clips (Set_Clip x y w h) \<longleftrightarrow> True"
| "clips (Set_RGB px off scan x y w h) \<longleftrightarrow> True"
| "clips _ \<longleftrightarrow> False"

lemma clipped_bounds: "clipped l u x w lE hE = (a, b, f, g) \<Longrightarrow> l \<le> a \<and> b \<le> u"
  by (auto simp: clipped_def dest: rect_axis_bounds(1,2) split: prod.splits)

lemma rect_drawn_outside:
  assumes "rect_drawn (v_width v) x n y h R old new" "v_clip v = (minX, minY, maxX, maxY)"
    and "minX \<le> x" "x + n - 1 \<le> maxX" "minY \<le> y" "y + h - 1 \<le> maxY" "i < length old" "\<not> in_clip v i"
  shows "new ! i = old ! i"
  using assms by (auto simp: rect_drawn_def in_clip_def Let_def)

lemma rect_drawn_nothing: "rect_drawn sw x 0 y h R old new \<Longrightarrow> i < length old \<Longrightarrow> new ! i = old ! i"
  by (fastforce simp: rect_drawn_def Let_def)

lemma paints_outside:
  assumes "paints v c new" "\<not> clips c" "i < length (v_canvas v)" "\<not> in_clip v i"
  shows "new ! i = v_canvas v ! i"
proof -
  obtain minX minY maxX maxY where clip: "v_clip v = (minX, minY, maxX, maxY)" by (cases "v_clip v")
  have box: "new ! i = v_canvas v ! i" if "box_drawn b v x y w h lE rE tE bE new" for b x y w h lE rE tE bE
  proof -
    obtain x0 x1 lf rf y0 y1 tf bf where c: "clipped minX maxX x w lE rE = (x0, x1, lf, rf)" "clipped minY maxY y h tE bE = (y0, y1, tf, bf)"
      by (cases "clipped minX maxX x w lE rE"; cases "clipped minY maxY y h tE bE")
    show ?thesis
      using that clipped_bounds [OF c(1)] clipped_bounds [OF c(2)] assms(3,4)
      by (intro rect_drawn_outside [OF _ clip]) (auto simp: box_drawn_def clip c)
  qed
  show ?thesis
  proof (cases c)
    case (Emit_Alpha_Row am deltas y xf xt xo n)
    show ?thesis
    proof (cases "minY \<le> y \<and> y \<le> maxY")
      case True
      show ?thesis
        using assms True Emit_Alpha_Row by (intro rect_drawn_outside [OF _ clip]) (auto simp: row_window_def clip)
    next
      case False
      then show ?thesis using assms Emit_Alpha_Row by (auto simp: row_window_def clip intro: rect_drawn_nothing)
    qed
  next
    case (Clear_Rect x y w h)
    show ?thesis using assms Clear_Rect by (intro rect_drawn_outside [OF _ clip]) (auto simp: clip)
  next
    case (Fill_Alpha_Mask jmask x y w h off stride)
    show ?thesis using assms Fill_Alpha_Mask by (intro rect_drawn_outside [OF _ clip]) (auto simp: clip)
  qed (use assms box in auto)
qed


lemma steps_length: "steps v cs v' \<Longrightarrow> length (v_canvas v') = length (v_canvas v)"
  by (induction rule: steps.induct) (auto elim!: stepE dest: paints_length)

lemma after_in_clip: "\<not> clips c \<Longrightarrow> in_clip (after c v) = in_clip v"
  by (cases c) (simp_all add: in_clip_def fun_eq_iff)

lemma in_clip_canvas [simp]: "in_clip (v\<lparr>v_canvas := d\<rparr>) = in_clip v"
  by (simp add: in_clip_def fun_eq_iff)

lemma steps_outside:
  assumes "steps v cs v'" "\<forall>c \<in> set cs. \<not> clips c" "i < length (v_canvas v)" "\<not> in_clip v i"
  shows "v_canvas v' ! i = v_canvas v ! i"
  using assms
proof (induction rule: steps.induct)
  case (cons v c u cs t)
  from cons.hyps(1) obtain new where new: "paints v c new" "u = (after c v)\<lparr>v_canvas := new\<rparr>" by (elim stepE) auto
  have "v_canvas u ! i = v_canvas v ! i" using paints_outside [OF new(1)] cons.prems new(2) by simp
  moreover have "v_canvas t ! i = v_canvas u ! i"
    using cons.IH cons.prems new paints_length [OF new(1)] after_in_clip [of c v] by simp
  ultimately show ?case by simp
qed simp

section \<open>The theorems\<close>

text \<open>
  C2: The renderer refines what Java sees. In every state that a view describes, a call whose arguments pass
  the checks for that view returns, changes the view by one step of the specification, and leaves a
  state the new view describes.
\<close>

theorem call_refines:
  assumes "session env v st" "legal v c"
  shows "\<exists>st' v'. run env c st = Done st' \<and> step v c v' \<and> session env v' st'"
  using call_step [OF assms] by metis

text \<open>Half transparent red on four columns and two rows.\<close>

definition sample_view :: view where
  "sample_view = (initial_view 4 2 (replicate 8 0))\<lparr>v_colour := (128, 255, 0, 0)\<rparr>"

lemma sample_session: "session sample_env sample_view sample_fill_state"
proof -
  have "s_offset (jn_surface sample_fill_state) = 0" "s_scanlineStride (jn_surface sample_fill_state) = 4"
    "s_pixelStride (jn_surface sample_fill_state) = 1"
    by (simp_all add: sample_fill_state_def JavaSurface_initialize_def Let_def)
  then show ?thesis
    using sample_fill_ok
    by (simp add: session_def good_env_def sample_env_def settings_def sample_view_def initial_view_def sample_fill_simps shows_surface_def
        byte_colour_def)
qed

theorem call_refines_witness:
  "\<exists>st' v'. run sample_env (Fill_Rect 0x18000 0 0x10000 0x10000) sample_fill_state = Done st' \<and>
     step sample_view (Fill_Rect 0x18000 0 0x10000 0x10000) v' \<and> session sample_env v' st'"
  using call_refines [OF sample_session, of "Fill_Rect 0x18000 0 0x10000 0x10000"] by (simp add: sample_view_def initial_view_def)

text \<open>
  C1: Every program of legal calls runs to its end. On a new renderer for a surface of any size, with
  memory available, a sequence of calls each legal in the view the calls before it leave returns: no call
  faults or aborts the virtual machine. The canvas is one the specification allows and holds
  premultiplied pixels only.
\<close>

theorem legal_calls_return:
  assumes "good_env env" "jn_surface st = JavaSurface_initialize TYPE_INT_ARGB_PRE w h" "jn_dataInt st = d" "\<not> jn_memError st"
    and "0 < w" "w < 2 ^ 31" "0 \<le> h" "h * w \<le> int (length d)" "int (length d) < 2 ^ 31" "premul_buf d"
    and "legal_calls (initial_view w h d) cs"
  shows "\<exists>st' v'. chain (initialize env st) (run_calls env cs) = Done st' \<and> steps (initial_view w h d) cs v' \<and>
    jn_dataInt st' = v_canvas v' \<and> premul_buf (jn_dataInt st')"
proof -
  obtain st0 where st0: "initialize env st = Done st0" "session env (initial_view w h d) st0"
    using initialize_session [OF assms(1-10)] by blast
  obtain st' v' where s: "run_calls env cs st0 = Done st'" "steps (initial_view w h d) cs v'" "session env v' st'"
    using run_calls_refines [OF st0(2) assms(11)] by blast
  have "jn_dataInt st' = v_canvas v'" "premul_buf (jn_dataInt st')" using s(3) by (auto simp: session_def draw_ok_def surface_ok_def)
  then show ?thesis using st0(1) s(1,2) by auto
qed

text \<open>A gradient is set and drawn, the colour changed, an image drawn and a row cleared.\<close>

definition sample_calls :: "call list" where
  "sample_calls = [Set_Linear_Gradient 0 0 65536 0 (replicate 256 (-1)) CYCLE_NONE \<lparr>m00 = 65536, m01 = 0, m10 = 0, m11 = 65536, m02 = 0, m12 = 0\<rparr>,
     Fill_Rect 0 0 0x20000 0x10000, Set_Color 255 0 0 255, Draw_Image 2 sample_image 2 2 0 2
       \<lparr>m00 = 65536, m01 = 0, m10 = 0, m11 = 65536, m02 = 65536, m12 = 0\<rparr> False 0x18000 0 0x20000 0x20000 0 0 0 0 0 0 1 1 True,
     Set_Clip 0 1 4 1, Clear_Rect 0 0 4 2]"

lemma sample_calls_legal: "legal_calls (initial_view 4 2 (replicate 8 0)) sample_calls"
proof -
  have "premul_buf (replicate 256 (- 1))" "premul (argb 255 255 0 0)" by code_simp+
  then show ?thesis
    using sample_image_ok [of False] by (simp add: sample_calls_def initial_view_def byte_colour_def is_jint_def)
qed

theorem legal_calls_return_witness:
  "\<exists>st' v'. chain (initialize sample_env sample_fill_state) (run_calls sample_env sample_calls) = Done st' \<and>
     steps (initial_view 4 2 (replicate 8 0)) sample_calls v' \<and> jn_dataInt st' = v_canvas v' \<and> premul_buf (jn_dataInt st')"
proof -
  have "jn_surface sample_fill_state = JavaSurface_initialize TYPE_INT_ARGB_PRE 4 2" "\<not> jn_memError sample_fill_state"
    by (simp_all add: sample_fill_state_def Let_def)
  then show ?thesis
    using legal_calls_return [OF _ _ sample_fill_simps(1) _ _ _ _ _ _ _ sample_calls_legal, of sample_env]
    by (simp add: good_env_def sample_env_def premul_eval)
qed

text \<open>
  C4: The clip protects what is outside it. While the clip stays and the array is not written directly, no
  sequence of legal calls changes a pixel outside the clip, whatever is filled, drawn or cleared.
\<close>

theorem clip_protects:
  assumes "session env v st" "legal_calls v cs" "\<forall>c \<in> set cs. \<not> clips c"
  shows "\<exists>st'. run_calls env cs st = Done st' \<and> length (jn_dataInt st') = length (jn_dataInt st) \<and>
    (\<forall>i < length (jn_dataInt st). \<not> in_clip v i \<longrightarrow> jn_dataInt st' ! i = jn_dataInt st ! i)"
proof -
  obtain st' v' where s: "run_calls env cs st = Done st'" "steps v cs v'" "session env v' st'"
    using run_calls_refines [OF assms(1,2)] by blast
  have "jn_dataInt st = v_canvas v" "jn_dataInt st' = v_canvas v'" using assms(1) s(3) by (simp_all add: session_def)
  then show ?thesis using s(1) steps_outside [OF s(2) assms(3)] steps_length [OF s(2)] by simp
qed

theorem clip_protects_witness:
  "\<exists>st st'. run sample_env (Set_Clip 0 1 4 1) sample_fill_state = Done st \<and>
     run_calls sample_env [Fill_Rect 0x18000 0 0x10000 0x20000, Fill_Alpha_Mask (replicate 8 (- 1)) 0 0 4 2 0 4] st = Done st' \<and>
     take 4 (jn_dataInt st') = [0, 0, 0, 0]"
proof -
  let ?c = "Set_Clip 0 1 4 1" and ?cs = "[Fill_Rect 0x18000 0 0x10000 0x20000, Fill_Alpha_Mask (replicate 8 (- 1)) 0 0 4 2 0 4]"
  have l: "legal sample_view ?c" by (simp add: sample_view_def initial_view_def is_jint_def)
  obtain st where st: "run sample_env ?c sample_fill_state = Done st" "jn_dataInt st = replicate 8 0"
      "session sample_env (after ?c sample_view) st"
    using simulates_clip [OF sample_session l] by (auto simp: simulates_def sample_view_def initial_view_def)
  have "legal_calls (after ?c sample_view) ?cs" by (simp add: sample_view_def initial_view_def mask_fits_def is_jint_def)
  then obtain st' where st': "run_calls sample_env ?cs st = Done st'" "length (jn_dataInt st') = 8"
      "\<forall>i < 8. \<not> in_clip (after ?c sample_view) i \<longrightarrow> jn_dataInt st' ! i = 0"
    using clip_protects [OF st(3), of ?cs] st(2) by auto
  have "jn_dataInt st' ! i = 0" if "i < 4" for i
    using st'(3) that by (simp add: in_clip_def sample_view_def initial_view_def)
  then have "take 4 (jn_dataInt st') = replicate 4 0" using st'(2) by (intro nth_equalityI) simp_all
  then show ?thesis using st(1) st'(1) by (auto simp: numeral_eq_Suc)
qed

end
