(* ===== verification/Pisces_Dispatch.thy ===== *)
theory Pisces_Dispatch
  imports Pisces_JNI
begin

text \<open>
  The dirty bits. The setters of \<^verbatim>\<open>PiscesRenderer.inl\<close> only mark what has become stale, and \<^verbatim>\<open>VALIDATE_BLITTING\<close>
  recomputes the marked stages just before drawing. A renderer may be set and validated in any order;
  this theory shows that the routines and the colour used for drawing are always those of the modes set
  last, the same as if everything were recomputed each time.
\<close>

section \<open>Histories of a renderer\<close>

inductive history :: "renderer \<Rightarrow> bool" where
  created: "history (createCommon sf)"
| clip: "history r \<Longrightarrow> history (renderer_setClip r x y w h)"
| colour: "history r \<Longrightarrow> history (renderer_setColor r red green blue alpha)"
| rule: "history r \<Longrightarrow> rule \<in> {COMPOSITE_CLEAR, COMPOSITE_SRC, COMPOSITE_SRC_OVER} \<Longrightarrow> history (renderer_setCompositeRule r rule)"
| mask: "history r \<Longrightarrow> mt \<in> {ALPHA_MASK, LCD_ALPHA_MASK} \<Longrightarrow> history (renderer_setMask r mt data w h fd)"
| unmask: "history r \<Longrightarrow> history (renderer_removeMask r)"
| linear: "history r \<Longrightarrow> renderer_setLinearGradient r x0 y0 x1 y1 colors tr = Some r' \<Longrightarrow> history r'"
| radial: "history r \<Longrightarrow> renderer_setRadialGradient r cx cy fx fy rad colors tr = Some r' \<Longrightarrow> history r'"
| texture: "history r \<Longrightarrow> history (renderer_setTexture r mode data w h stride rep smooth tr fd ha txMin tyMin txMax tyMax)"
| surface: "history r \<Longrightarrow> history (invalidate_renderer_surface r)"
| validated: "history r \<Longrightarrow> s_imageType sf = TYPE_INT_ARGB_PRE \<Longrightarrow> history (validate_blitting sf r)"

lemma history_coherent: "history r \<Longrightarrow> coherent r"
proof (induction rule: history.induct)
  case (linear r x0 y0 x1 y1 colors tr r')
  then show ?case by (auto intro: renderer_setLinearGradient_coherent)
next
  case (radial r cx cy fx fy rad colors tr r')
  then show ?case by (auto intro: renderer_setRadialGradient_coherent)
qed (auto intro: createCommon_coherent renderer_setClip_coherent renderer_setColor_coherent renderer_setCompositeRule_coherent
    renderer_setMask_coherent renderer_removeMask_coherent renderer_setTexture_coherent validate_blitting_coherent set_state_coherent
    simp: invalidate_renderer_surface_def)

section \<open>What drawing uses\<close>

definition drawing_setup :: "renderer \<Rightarrow> gen_fn option \<times> blit_fn option \<times> emit_fn option \<times> clear_fn option \<times> jint \<times> jint \<times> jint \<times> jint" where
  "drawing_setup r = (r_genPaint r, r_emitRows r, r_emitLine r, sr_clearRect (r_routines r), r_calpha r, r_cred r, r_cgreen r, r_cblue r)"

definition selected_setup :: "renderer \<Rightarrow> gen_fn option \<times> blit_fn option \<times> emit_fn option \<times> clear_fn option \<times> jint \<times> jint \<times> jint \<times> jint" where
  "selected_setup r =
     (let flat = r_paintMode r = PAINT_FLAT_COLOR; rule = r_compositeRule r; c = (\<lambda>u. if rule = COMPOSITE_CLEAR then 0 else u)
      in (select_gen (r_paintMode r), select_rows (r_maskType r) rule flat, select_line rule flat, Some F_clearRect8888_any,
          c (r_ualpha r), c (r_ured r), c (r_ugreen r), c (r_ublue r)))"

lemma kept_refl [simp]: "kept r r"
  by (simp add: kept_def)

lemma validate_blitting_kept: "kept r (validate_blitting sf r)"
  by (simp add: validate_blitting_def Let_def)

lemma validate_setup:
  assumes "coherent r" "s_imageType sf = TYPE_INT_ARGB_PRE"
  shows "drawing_setup (validate_blitting sf r) = selected_setup r"
  using validate_blitting_stages [OF assms] validate_blitting_kept [of r sf]
  by (simp add: kept_def drawing_setup_def selected_setup_def paint_stage_def colour_stage_def Let_def routines8888_pre_def)

text \<open>
  C3: Whatever has been set on a renderer, in any order and with validations in between, validation
  leaves exactly the paint generator, the row and line routines and the colour of the modes set last,
  and the same as when every stage is recomputed. No setter forgets to mark a stage as stale.
\<close>

theorem validation_follows_modes:
  assumes "history r" "s_imageType sf = TYPE_INT_ARGB_PRE"
  shows "drawing_setup (validate_blitting sf r) = selected_setup r \<and>
    drawing_setup (validate_blitting sf r) = drawing_setup (validate_blitting sf (set_state INVALID_ALL r))"
proof -
  have co: "coherent r" using assms(1) by (rule history_coherent)
  have "selected_setup (set_state INVALID_ALL r) = selected_setup r"
    by (simp add: selected_setup_def set_state_def)
  then show ?thesis using validate_setup [OF co assms(2)] validate_setup [OF set_state_coherent [OF co] assms(2)] by simp
qed

text \<open>A renderer that was validated for a red fill and is then switched to the plain source rule.\<close>

definition sample_history :: renderer where
  "sample_history =
     (let s = JavaSurface_initialize TYPE_INT_ARGB_PRE 4 2
      in renderer_setCompositeRule (validate_blitting s (renderer_setColor (createCommon s) 255 0 0 128)) COMPOSITE_SRC)"

theorem validation_follows_modes_witness:
  "drawing_setup (validate_blitting (JavaSurface_initialize TYPE_INT_ARGB_PRE 4 2) sample_history) =
     (None, Some F_blitSrc8888_pre, Some F_emitLineSource8888_pre, Some F_clearRect8888_any, 128, 255, 0, 0)"
proof -
  have "history sample_history"
    unfolding sample_history_def Let_def
    by (intro history.rule history.validated history.colour history.created) (simp_all add: JavaSurface_initialize_def)
  moreover have "selected_setup sample_history =
      (None, Some F_blitSrc8888_pre, Some F_emitLineSource8888_pre, Some F_clearRect8888_any, 128, 255, 0, 0)"
    by code_simp
  ultimately show ?thesis
    using validation_follows_modes [of sample_history "JavaSurface_initialize TYPE_INT_ARGB_PRE 4 2"] by (simp add: JavaSurface_initialize_def)
qed

end
