(* ===== verification/Pisces_Math.thy ===== *)
theory Pisces_Math
  imports Soft_Float
begin

text \<open>
  \<^verbatim>\<open>PiscesMath.c\<close>: sine and cosine of fixed-point angles from a table, the conversions between degrees and
  radians, and the helpers over \<^verbatim>\<open>float\<close>. The sine and cosine of the C library are parameters, as is the
  format of \<^verbatim>\<open>long double\<close>, which differs between compilers.
\<close>

section \<open>Constants\<close>

abbreviation (input) PISCES_SINTAB_ENTRIES :: int where "PISCES_SINTAB_ENTRIES \<equiv> 1024"
abbreviation (input) PISCES_PI :: jint where "PISCES_PI \<equiv> 205887"
abbreviation (input) PISCES_TWO_PI :: jint where "PISCES_TWO_PI \<equiv> 411774"
abbreviation (input) PISCES_PI_OVER_TWO :: jint where "PISCES_PI_OVER_TWO \<equiv> 102943"
abbreviation (input) PISCES_360_DEGREES :: jint where "PISCES_360_DEGREES \<equiv> 23592960"
abbreviation (input) PISCES_RADIANS_TO_DEGREES_MULTIPLIER :: jint where "PISCES_RADIANS_TO_DEGREES_MULTIPLIER \<equiv> 3754936"
abbreviation (input) PISCES_DEGREES_TO_RADIANS_MULTIPLIER :: jint where "PISCES_DEGREES_TO_RADIANS_MULTIPLIER \<equiv> 1143"

section \<open>Sine and cosine of fixed-point angles\<close>

definition sintab_values :: "format \<Rightarrow> (fp \<Rightarrow> fp) \<Rightarrow> jint list" where
  "sintab_values LD PISCESsin =
     map (\<lambda>i. let half_pi = fp_div LD (fp_literal LD 3141592653589793 15) (fp_of_int LD 2);
              theta = fp_convert F64 (fp_div LD (fp_mul LD (fp_of_int LD i) half_pi) (fp_of_int LD PISCES_SINTAB_ENTRIES))
          in fp_to_jint (fp_mul F64 (PISCESsin theta) (fp_of_int F64 65536)))
       [0..PISCES_SINTAB_ENTRIES]"

text \<open>The table is built once; \<open>alloc\<close> is whether memory can be allocated, \<open>None\<close> is the null pointer.\<close>

definition piscesmath_moduleInitialize :: "format \<Rightarrow> (fp \<Rightarrow> fp) \<Rightarrow> bool \<Rightarrow> jint list option \<Rightarrow> jint list option \<times> bool" where
  "piscesmath_moduleInitialize LD PISCESsin alloc sintab =
     (case sintab of
        None \<Rightarrow> if alloc then (Some (sintab_values LD PISCESsin), True) else (None, False)
      | Some tab \<Rightarrow> (Some tab, True))"

definition piscesmath_moduleFinalize :: "jint list option \<Rightarrow> jint list option" where
  "piscesmath_moduleFinalize sintab = None"

text \<open>\<^verbatim>\<open>while (theta >= PISCES_TWO_PI) theta -= PISCES_TWO_PI;\<close>\<close>

function reduce_two_pi :: "jint \<Rightarrow> jint" where
  "reduce_two_pi theta = (if PISCES_TWO_PI \<le> theta then reduce_two_pi (i32 (theta - PISCES_TWO_PI)) else theta)"
  by pat_completeness auto
termination
proof (relation "measure nat")
  fix theta :: jint assume t: "PISCES_TWO_PI \<le> theta"
  have "i32 (theta - PISCES_TWO_PI) < theta"
  proof (cases "theta < 2 ^ 31")
    case True
    then show ?thesis using t by (simp add: i32_small)
  next
    case False
    then show ?thesis using is_jint_i32 [of "theta - PISCES_TWO_PI"] by (simp add: is_jint_def)
  qed
  then show "(i32 (theta - PISCES_TWO_PI), theta) \<in> measure nat" using t by simp
qed simp

declare reduce_two_pi.simps [simp del]

text \<open>The angle in the first quarter and the sign, from an angle of the first turn.\<close>

definition first_quarter :: "jint \<Rightarrow> jint \<Rightarrow> jint \<times> jint" where
  "first_quarter theta sign =
     (let (theta, sign) = (if PISCES_PI \<le> theta then (PISCES_TWO_PI - theta, - sign) else (theta, sign));
          theta = (if PISCES_PI_OVER_TWO < theta then PISCES_PI - theta else theta)
      in (theta, sign))"

definition piscesmath_sin :: "jint list \<Rightarrow> jint \<Rightarrow> jint option" where
  "piscesmath_sin sintab theta =
     (let (theta, sign) = (if theta < 0 then (i32 (- theta), - 1) else (theta, 1));
          (theta, sign) = first_quarter (reduce_two_pi theta) sign
      in do {
        itheta \<leftarrow> c_div (theta * PISCES_SINTAB_ENTRIES) PISCES_PI_OVER_TWO;
        s \<leftarrow> rd sintab itheta;
        Some (i32 (sign * s))
      })"

definition piscesmath_cos :: "jint list \<Rightarrow> jint \<Rightarrow> jint option" where
  "piscesmath_cos sintab theta = piscesmath_sin sintab (i32 (PISCES_PI_OVER_TWO - theta))"

definition piscesmath_dhypot :: "fp \<Rightarrow> fp \<Rightarrow> fp" where
  "piscesmath_dhypot x y = fp_sqrt F64 (fp_add F64 (fp_mul F64 x x) (fp_mul F64 y y))"

definition piscesmath_toRadians :: "jint \<Rightarrow> jint option" where
  "piscesmath_toRadians thetaDegrees = do {
     r \<leftarrow> c_mod thetaDegrees PISCES_360_DEGREES;
     Some (i32 (drop_bit 16 (r * PISCES_DEGREES_TO_RADIANS_MULTIPLIER)))
   }"

definition piscesmath_toDegrees :: "jint \<Rightarrow> jint option" where
  "piscesmath_toDegrees thetaRadians = do {
     r \<leftarrow> c_mod thetaRadians PISCES_TWO_PI;
     Some (i32 (drop_bit 16 (r * PISCES_RADIANS_TO_DEGREES_MULTIPLIER)))
   }"

definition piscesmath_abs :: "jint \<Rightarrow> jint" where
  "piscesmath_abs x = (if 0 \<le> x then x else i32 (- x))"

section \<open>Helpers over \<^verbatim>\<open>float\<close>\<close>

definition piscesmath_ceil :: "jfloat \<Rightarrow> jint" where
  "piscesmath_ceil x =
     (let x = (if fp_less x (fint 0) then fp_neg x else x);
          dx = fsub x (fint (fp_to_jint x))
      in if fp_less (fint 0) dx then fp_to_jint (fadd x (fint 1)) else fp_to_jint x)"

definition piscesmath_btan :: "(fp \<Rightarrow> fp) \<Rightarrow> (fp \<Rightarrow> fp) \<Rightarrow> jfloat \<Rightarrow> jfloat" where
  "piscesmath_btan PISCESsin PISCEScos increment =
     (let increment2 = fdiv increment (fint 2); i2 = fp_convert F64 increment2;
          c = fp_convert F64 (fdiv (fint 4) (fint 3))
      in fp_convert F32 (fp_div F64 (fp_mul F64 c (PISCESsin i2)) (fp_add F64 (fp_of_int F64 1) (PISCEScos i2))))"

text \<open>The digits of the literals and the number of digits after the point.\<close>

definition arcsin_digits :: "(int \<times> nat) list" where
  "arcsin_digits = [
     (0, 1), (5000020833567712, 18), (10000166674167114, 18), (15000562556960754, 18),
     (2000133357339049, 17), (2500260489936114, 17), (30004501823476935, 18), (3500714977534865, 17),
     (40010674353988925, 18), (45015201356314066, 18), (50020856805770016, 18), (5502776698110088, 17),
     (6003605844527842, 17), (650458580746109, 16), (7005729308805025, 17), (7507049107671654, 17),
     (8008558003365901, 17), (8510268838387339, 17), (9012194501459525, 17), (9514347930589002, 17),
     (1001674211615598, 16), (10519390104038849, 17), (11022304998774664, 17), (1152549996675776, 16),
     (12028988239478806, 17), (1253278311680654, 16), (1303689797031455, 16), (13541346246655556, 17),
     (14046141470985582, 17), (1455129725044066, 16), (15056827277668602, 17), (15562745334418546, 17),
     (1606906529519106, 16), (16575801130951626, 17), (17082966912910452, 17), (1759057681637163, 16),
     (1809864512465477, 16), (1860718623309233, 16), (19116214653105962, 17), (19625745016365348, 17),
     (2013579207903308, 16), (20646370726099242, 17), (2115749597580956, 16), (21669182984191085, 17),
     (22181447049679442, 17), (22694303617851996, 17), (23207768286271319, 17), (2372185680944353, 16),
     (24236585103896321, 17), (24751969253381592, 17), (25268025514207865, 17), (2578477032070788, 16),
     (2630222029084689, 16), (26820392231977536, 17), (27339303146747324, 17), (2785897023916506, 16),
     (28379410920832787, 17), (28900642817350136, 17), (29422683774898245, 17), (2994555186701077, 16),
     (3046926540153975, 16), (30993842927824544, 17), (31519303244072444, 17), (3204566540495979, 16),
     (32572948729463014, 17), (3310117280892945, 16), (33630357515398035, 17), (3416052301018077, 16),
     (34691689752716176, 17), (3522387850970648, 16), (3575711036455103, 16), (3629140672708885, 16),
     (36826789343663996, 17), (373632803075281, 15), (3790090206959508, 16), (3843967744956391, 16),
     (38979629647426056, 17), (3952078225537514, 16), (40063159270137194, 17), (4060678510574098, 16),
     (41151684606748806, 17), (4169788306196941, 16), (4224540621867558, 16), (42794280297350573, 17),
     (43344532006988595, 17), (4389618856097607, 16), (444492776935819, 15), (45003827677086705, 17),
     (4555986733958234, 16), (46117426083475366, 17), (4667653390472964, 16), (4723722141288549, 16),
     (4779951985189524, 16), (48363461121817014, 17), (48929077801411575, 17), (4949640317168946, 16),
     (5006547124045881, 16), (5063631676792726, 16), (5120897529341477, 16), (5178348316323792, 16),
     (5235987755982989, 16), (5293819653216489, 16), (5351847902755998, 16), (5410076492493221, 16),
     (5468509506959441, 16), (5527151130967832, 16), (5586005653428008, 16), (5645077471342955, 16),
     (570437109399922, 15), (5763891147361973, 16), (5823642378687435, 16), (5883629661366032, 16),
     (5943858000010622, 16), (6004332535805235, 16), (6065058552130871, 16), (6126041480486225, 16),
     (6187286906722511, 16), (6248800577613086, 16), (6310588407780213, 16), (6372656487003039, 16),
     (6435011087932844, 16), (6497658674243729, 16), (6560605909249226, 16), (662385966501789, 15),
     (6687427032023717, 16), (6751315329370317, 16), (6815532115631169, 16), (6880085200352017, 16),
     (694498265626556, 15), (7010232832273195, 16), (7075844367253556, 16), (7141826204763189, 16),
     (7208187608700897, 16), (727493818001415, 15), (7342087874533589, 16), (74096470220302, 14),
     (7477626346599207, 16), (7546036988485377, 16), (7614890527476333, 16), (7684199008003771, 16),
     (7753974966107532, 16), (782423145843429, 15), (7894982093461719, 16), (7966241065160413, 16),
     (80380231893303, 14), (8110343942875815, 16), (8183219506315598, 16), (8256666809858231, 16),
     (8330703583416478, 16), (8405348410979318, 16), (848062078981481, 15), (855654119503876, 15),
     (8633131150155536, 16), (8710413304260044, 16), (8788411516685797, 16), (8867150949995675, 16),
     (8946658172342352, 16), (9026961270378197, 16), (9108089974073983, 16), (9190075795017759, 16),
     (9272952180016123, 16), (935675468211854, 15), (9441521151541561, 16), (9527291949396819, 16),
     (9614110187641017, 16), (9702021999288457, 16), (9791076843683528, 16), (9881327852555816, 16),
     (9972832223717998, 16), (10065651670673148, 16), (1015985293814825, 15), (10255508395762682, 16),
     (10352696724805088, 16), (1045150371660533, 15), (10552023205488061, 16), (10654358165107394, 16),
     (1075862200454001, 15), (10864940110489767, 16), (10973451695228305, 16), (11084312027754692, 16),
     (11197695149986342, 16), (11313797213386234, 16), (1143284061850027, 15), (11555079206898065, 16),
     (11680804852142352, 16), (1181035593997422, 15), (11944128444771684, 16), (12082590645069227, 16),
     (12226303055219359, 16), (12375946027743465, 16), (12532358975033755, 16), (12696597812415247, 16),
     (12870022175865685, 16), (13054433771972465, 16), (13252308092796046, 16), (13467210414930773, 16),
     (13704614844717768, 16), (1397374005699292, 15), (14292568534704693, 16), (14707546131833564, 16),
     (15707963267948966, 16)]"

definition arcsinTable :: "fp list" where
  "arcsinTable = map (\<lambda>(n, k). fp_literal F64 n k) arcsin_digits"

definition findClosestASin :: "jfloat \<Rightarrow> jfloat option" where
  "findClosestASin x =
     (let arg = fp_convert F64 x;
          (sign, arg) = (if fp_less arg (fp_of_int F64 0) then (- 1, fp_convert F64 (fp_neg x)) else (1, arg));
          index = fp_to_jint (fp_mul F64 arg (fp_of_int F64 200));
          index = (if index = 200 then 199 else index);
          step = fp_literal F64 5 3
      in do {
        lowerValue \<leftarrow> rd arcsinTable index;
        upperValue \<leftarrow> rd arcsinTable (i32 (index + 1));
        let rest = fp_sub F64 arg (fp_mul F64 (fp_of_int F64 index) step);
        let retVal = fp_add F64 lowerValue (fp_div F64 (fp_mul F64 rest (fp_sub F64 upperValue lowerValue)) step);
        Some (fp_convert F32 (fp_mul F64 (fp_of_int F64 sign) retVal))
      })"

definition piscesmath_asin :: "jfloat \<Rightarrow> jfloat option" where
  "piscesmath_asin arg =
     (if fp_eq arg (fint 0) then Some (fint 0)
      else if fp_eq arg (fint (- 1)) then Some (fp_neg (fp_literal F32 15707963267948966 16))
      else if fp_eq arg (fint 1) then Some (fp_literal F32 15707963267948966 16)
      else findClosestASin arg)"

definition piscesmath_acos :: "jfloat \<Rightarrow> jfloat option" where
  "piscesmath_acos val =
     map_option (fsub (fdiv (fp_literal F32 3141592653589793 15) (fint 2))) (piscesmath_asin val)"

text \<open>
  \<^verbatim>\<open>while (b > y) b -= (float)y;\<close> A loop that runs forever has no result.
\<close>

partial_function (option) mod_loop :: "jfloat \<Rightarrow> jfloat \<Rightarrow> jfloat option" where
  "mod_loop b y = (if fp_less y b then mod_loop (fsub b y) y else Some b)"

definition piscesmath_mod :: "jfloat \<Rightarrow> jint \<Rightarrow> jfloat option" where
  "piscesmath_mod x y =
     (let (b, sign) = (if fp_less x (fint 0) then (fp_neg x, - 1) else (x, 1))
      in do {
        b \<leftarrow> mod_loop b (fint y);
        Some (if fp_eq b (fint y) then fint 0 else fmul b (fint sign))
      })"


section \<open>Small integers\<close>

text \<open>Small integers in \<^verbatim>\<open>float\<close>: \<open>shift n\<close> bits of room below the point.\<close>

definition shift :: "int \<Rightarrow> nat" where
  "shift n = (if n = 0 then 149 else 24 - bit_length n)"

lemma fint_round:
  assumes "0 < n" "n < 2 ^ 24"
  shows "round_fp F32 s (n * 2 ^ j) (- int j) False = Fin s (n * 2 ^ shift n) (- int (shift n))"
proof -
  have bl: "bit_length n \<le> 24" using assms by (intro bit_length_le) auto
  have e: "exact_exp F32 n 0 = - int (shift n)" using bl assms(1) by (simp add: exact_exp_def F32_def shift_def)
  show ?thesis using round_scaled(1) [of n F32 0 s j] assms e by (simp add: F32_def)
qed

lemma fint_eq:
  assumes "0 \<le> n" "n < 2 ^ 24"
  shows "fint n = Fin False (n * 2 ^ shift n) (- int (shift n))" "0 < n \<Longrightarrow> fint (- n) = Fin True (n * 2 ^ shift n) (- int (shift n))"
  using assms fint_round [of n False 0] fint_round [of n True 0]
  by (auto simp: fp_of_int_def fp_zero_def F32_def shift_def)

lemma scale_max:
  fixes c :: int
  shows "c * 2 ^ j * 2 ^ nat (- int j - min (- int j) (- int k)) = c * 2 ^ max j k"
    "c * 2 ^ k * 2 ^ nat (- int k - min (- int j) (- int k)) = c * 2 ^ max j k"
proof -
  have "nat (- int j - min (- int j) (- int k)) = max j k - j" "nat (- int k - min (- int j) (- int k)) = max j k - k"
    by (auto simp: min_def max_def)
  moreover have "j + (max j k - j) = max j k" "k + (max j k - k) = max j k" by simp_all
  ultimately show "c * 2 ^ j * 2 ^ nat (- int j - min (- int j) (- int k)) = c * 2 ^ max j k"
    "c * 2 ^ k * 2 ^ nat (- int k - min (- int j) (- int k)) = c * 2 ^ max j k"
    by (simp_all only: mult.assoc power_add [symmetric])
qed

lemma fp_less_scaled:
  "fp_less (Fin False (a * 2 ^ j) (- int j)) (Fin False (b * 2 ^ k) (- int k)) \<longleftrightarrow> a < b"
  by (simp add: Let_def scale_max)

lemma fp_less_zero: "0 < a \<Longrightarrow> fp_less (Fin True a e) (fint 0)"
  by (simp add: fp_of_int_def fp_zero_def Let_def)

lemma fint_less: "0 \<le> a \<Longrightarrow> a < 2 ^ 24 \<Longrightarrow> 0 \<le> b \<Longrightarrow> b < 2 ^ 24 \<Longrightarrow> fp_less (fint a) (fint b) \<longleftrightarrow> a < b"
  by (simp only: fint_eq fp_less_scaled)

lemma fint_sub:
  assumes "0 \<le> b" "b < a" "a < 2 ^ 24"
  shows "fsub (fint a) (fint b) = fint (a - b)"
proof -
  let ?j = "shift a" and ?k = "shift b"
  have m: "min (- int ?j) (- int ?k) = - int (max ?j ?k)" by simp
  have s: "c * 2 ^ ?j * 2 ^ nat (int (max ?j ?k) - int ?j) = c * 2 ^ max ?j ?k"
    "c * 2 ^ ?k * 2 ^ nat (int (max ?j ?k) - int ?k) = c * 2 ^ max ?j ?k" for c :: int
    using scale_max(1) [of c ?j ?k] scale_max(2) [of c ?k ?j] unfolding m by simp_all
  have v: "a * 2 ^ max ?j ?k - b * 2 ^ max ?j ?k = (a - b) * 2 ^ max ?j ?k" by (simp add: left_diff_distrib)
  have p: "0 < (a - b) * 2 ^ max ?j ?k" using assms by simp
  have "fsub (fint a) (fint b) = round_fp F32 False ((a - b) * 2 ^ max ?j ?k) (- int (max ?j ?k)) False"
    using assms p by (simp add: fint_eq fp_sub_def Let_def s m v not_less [THEN iffD2, OF less_imp_le, OF p] del: of_nat_max)
  also have "\<dots> = fint (a - b)" using assms by (simp add: fint_round fint_eq)
  finally show ?thesis .
qed

lemma mod_loop_fint:
  assumes "0 \<le> n" "n < 2 ^ 24" "0 < y" "y < 2 ^ 24"
  shows "mod_loop (fint n) (fint y) = Some (fint (if n = 0 then 0 else (n - 1) mod y + 1))"
  using assms(1,2)
proof (induction "nat n" arbitrary: n rule: less_induct)
  case less
  show ?case
  proof (cases "y < n")
    case True
    have "(n - y - 1) mod y = (n - 1) mod y" by (metis diff_diff_eq diff_diff_eq2 minus_mod_self2 add.commute)
    then have "mod_loop (fint (n - y)) (fint y) = Some (fint ((n - 1) mod y + 1))"
      using less.hyps [of "n - y"] less.prems True assms(3) by simp
    then show ?thesis
      using True less.prems assms(3,4) by (subst mod_loop.simps) (simp add: fint_less fint_sub)
  next
    case False
    then show ?thesis using less.prems assms(3,4) by (subst mod_loop.simps) (auto simp: fint_less)
  qed
qed

lemma fint_mul:
  assumes "0 \<le> r" "r < 2 ^ 24"
  shows "fmul (fint r) (fint 1) = fint r" "0 < r \<Longrightarrow> fmul (fint r) (fint (- 1)) = fint (- r)"
proof -
  have one: "fint 1 = Fin False (2 ^ 23) (- 23)" "fint (- 1) = Fin True (2 ^ 23) (- 23)" by code_simp+
  have r: "round_fp F32 s (r * 2 ^ shift r * 2 ^ 23) (- int (shift r) + - 23) False = Fin s (r * 2 ^ shift r) (- int (shift r))" if "0 < r" for s
    using fint_round [OF that assms(2), of s "shift r + 23"] by (simp add: power_add mult.assoc)
  show "fmul (fint r) (fint 1) = fint r"
    using r assms by (cases "r = 0") (simp_all add: fint_eq one fp_zero_def, simp_all add: shift_def F32_def)
  show "0 < r \<Longrightarrow> fmul (fint r) (fint (- 1)) = fint (- r)"
    using r assms by (simp add: fint_eq one)
qed


lemma fint_fp_eq: "0 \<le> a \<Longrightarrow> a < 2 ^ 24 \<Longrightarrow> 0 \<le> b \<Longrightarrow> b < 2 ^ 24 \<Longrightarrow> fp_eq (fint a) (fint b) \<longleftrightarrow> a = b"
  by (auto simp: fp_eq_def fint_less) (simp_all add: fint_eq)

lemma mod_from_one:
  fixes n y :: int
  assumes "0 < n" "0 < y"
  shows "(n - 1) mod y + 1 = (if n mod y = 0 then y else n mod y)"
proof (cases "n mod y = 0")
  case True
  then obtain k where "n = y * k" by auto
  then have "n - 1 = (y - 1) + y * (k - 1)" by (simp add: right_diff_distrib)
  then have "(n - 1) mod y = (y - 1) mod y" by (metis mod_mult_self2)
  then have "(n - 1) mod y = y - 1" using assms(2) by (simp add: zmod_minus1)
  then show ?thesis using True by simp
next
  case False
  have "n - 1 = (n mod y - 1) + y * (n div y)" by simp
  then have "(n - 1) mod y = (n mod y - 1) mod y" by (metis mod_mult_self2)
  also have "\<dots> = n mod y - 1" using False assms(2) pos_mod_bound [OF assms(2), of n] pos_mod_sign [OF assms(2), of n] by (intro mod_pos_pos_trivial) linarith+
  finally show ?thesis using False by simp
qed

text \<open>
  On whole numbers that \<^verbatim>\<open>float\<close> represents exactly, \<^verbatim>\<open>piscesmath_mod\<close> returns and is the remainder with the
  sign of the dividend.
\<close>

theorem piscesmath_mod_whole:
  assumes "\<bar>n\<bar> < 2 ^ 24" "0 < y" "y < 2 ^ 24"
  shows "piscesmath_mod (fint n) y = Some (fint (sgn n * (\<bar>n\<bar> mod y)))"
proof -
  define m where "m = \<bar>n\<bar>"
  define r where "r = (if m = 0 then 0 else (m - 1) mod y + 1)"
  have m: "0 \<le> m" "m < 2 ^ 24" using assms(1) by (simp_all add: m_def)
  have b: "mod_loop (fint m) (fint y) = Some (fint r)" using mod_loop_fint [OF m assms(2,3)] by (simp add: r_def)
  have r: "r = (if m = 0 then 0 else if m mod y = 0 then y else m mod y)" using mod_from_one [of m y] m assms(2) by (simp add: r_def)
  have r24: "0 \<le> r" "r < 2 ^ 24" using assms(2,3) pos_mod_bound [OF assms(2), of m] pos_mod_sign [OF assms(2), of m] by (auto simp: r)
  have e: "fp_eq (fint r) (fint y) \<longleftrightarrow> r = y" using fint_fp_eq r24 assms(2,3) by simp
  have my: "m mod y < y" "0 \<le> m mod y" using assms(2) by simp_all
  show ?thesis
  proof (cases "n < 0")
    case True
    then have neg: "fp_less (fint n) (fint 0)" "fp_neg (fint n) = fint m"
      using m fint_eq [of m] fp_less_zero [of "m * 2 ^ shift m" "- int (shift m)"] by (simp_all add: m_def mult_neg_pos)
    show ?thesis using True neg b e my r m_def fint_mul(2) [OF r24]
      by (auto simp: piscesmath_mod_def) 
  next
    case False
    then have "n = m" by (simp add: m_def)
    moreover have "\<not> fp_less (fint m) (fint 0)" using fint_less [OF m, of 0] m by simp
    ultimately show ?thesis using b e my r fint_mul(1) [OF r24] m by (auto simp: piscesmath_mod_def sgn_if)
  qed
qed

theorem piscesmath_mod_whole_witness: "piscesmath_mod (fint (- 725)) 360 = Some (fint (- 5))"
  using piscesmath_mod_whole [of "- 725" 360] by simp

lemma mod_loop_stuck:
  assumes "mod_loop b y = Some r"
  shows "\<not> (fp_less y b \<and> fsub b y = b)"
  by (rule mod_loop.raw_induct [where P = "\<lambda>b y r. \<not> (fp_less y b \<and> fsub b y = b)", OF _ assms]) (auto split: if_splits)

text \<open>
  C37: \<^verbatim>\<open>piscesmath_mod\<close> does not always return. Once subtracting the divisor no longer changes the dividend, which is
  so for large dividends and for the divisor zero, the loop runs forever.
\<close>

theorem piscesmath_mod_diverges:
  assumes "fp_less (fint y) x" "fsub x (fint y) = x" "\<not> fp_less x (fint 0)"
  shows "piscesmath_mod x y = None"
proof -
  have "mod_loop x (fint y) = None" using mod_loop_stuck [of x "fint y"] assms(1,2) by (cases "mod_loop x (fint y)") auto
  then show ?thesis using assms(3) by (simp add: piscesmath_mod_def)
qed

theorem piscesmath_mod_diverges_witness: "piscesmath_mod (fint 33554432) 1 = None \<and> piscesmath_mod (fint 3) 0 = None"
proof -
  have "fp_less (fint 0) (fint 33554432)" "fp_less (fint 1) (fint 33554432)" "fsub (fint 33554432) (fint 1) = fint 33554432"
    "\<not> fp_less (fint 33554432) (fint 0)"
    by code_simp+
  moreover have "fp_less (fint 0) (fint 3)" "fsub (fint 3) (fint 0) = fint 3" "\<not> fp_less (fint 3) (fint 0)"
    by code_simp+
  ultimately show ?thesis using piscesmath_mod_diverges [of 1 "fint 33554432"] piscesmath_mod_diverges [of 0 "fint 3"] by blast
qed


section \<open>The sine table\<close>

lemma reduce_two_pi_eq: "0 \<le> theta \<Longrightarrow> theta < 2 ^ 31 \<Longrightarrow> reduce_two_pi theta = theta mod PISCES_TWO_PI"
proof (induction theta rule: reduce_two_pi.induct)
  case (1 theta)
  show ?case
  proof (cases "PISCES_TWO_PI \<le> theta")
    case True
    then have i: "i32 (theta - PISCES_TWO_PI) = theta - PISCES_TWO_PI" using 1(3) by (simp add: i32_small)
    have "reduce_two_pi (theta - PISCES_TWO_PI) = (theta - PISCES_TWO_PI) mod PISCES_TWO_PI"
      using 1(1) [OF True] 1(3) True by (simp add: i)
    then show ?thesis using True by (subst reduce_two_pi.simps) (simp add: i)
  next
    case False
    then show ?thesis using 1(2) by (subst reduce_two_pi.simps) simp
  qed
qed

text \<open>The index of an angle of the first turn and the sign of its sine.\<close>

definition quarter :: "int \<Rightarrow> int" where
  "quarter t = (let t = (if PISCES_PI \<le> t then PISCES_TWO_PI - t else t) in if PISCES_PI_OVER_TWO < t then PISCES_PI - t else t)"

definition table_sine :: "jint list \<Rightarrow> int \<Rightarrow> jint" where
  "table_sine sintab t = (if PISCES_PI \<le> t then - 1 else 1) * sintab ! nat (quarter t * PISCES_SINTAB_ENTRIES div PISCES_PI_OVER_TWO)"

definition table_ok :: "jint list \<Rightarrow> bool" where
  "table_ok sintab \<longleftrightarrow> length sintab = 1025 \<and> (\<forall>s \<in> set sintab. \<bar>s\<bar> \<le> 65536) \<and> hd sintab = 0"

lemma first_quarter_eq: "first_quarter t sign = (quarter t, if PISCES_PI \<le> t then - sign else sign)"
  by (simp add: first_quarter_def quarter_def)

lemma quarter_bounds: "0 \<le> t \<Longrightarrow> t < PISCES_TWO_PI \<Longrightarrow> 0 \<le> quarter t \<and> quarter t \<le> PISCES_PI_OVER_TWO"
  by (auto simp: quarter_def Let_def)

lemma table_sine_bound:
  assumes "table_ok sintab" "0 \<le> t" "t < PISCES_TWO_PI"
  shows "\<bar>table_sine sintab t\<bar> \<le> 65536"
proof -
  have "quarter t * 1024 div 102943 \<le> 1024" "0 \<le> quarter t * 1024 div 102943" using quarter_bounds [OF assms(2,3)] by auto
  then show ?thesis using assms(1) by (auto simp: table_sine_def table_ok_def)
qed

lemma piscesmath_sin_eq:
  assumes "table_ok sintab" "- (2 ^ 31) < theta" "theta < 2 ^ 31"
  shows "piscesmath_sin sintab theta = Some ((if theta < 0 then - 1 else 1) * table_sine sintab (\<bar>theta\<bar> mod PISCES_TWO_PI))"
proof -
  define t where "t = \<bar>theta\<bar> mod PISCES_TWO_PI"
  have t: "0 \<le> t" "t < PISCES_TWO_PI" by (simp_all add: t_def)
  note q = quarter_bounds [OF t]
  have red: "reduce_two_pi \<bar>theta\<bar> = t" using assms by (simp add: reduce_two_pi_eq t_def)
  have neg: "i32 (- theta) = - theta" if "theta < 0" using that assms by (simp add: i32_small)
  have d: "c_div (quarter t * 1024) 102943 = Some (quarter t * 1024 div 102943)"
    using q by (cases "quarter t = 0") (simp_all add: c_div_def)
  have r: "rd sintab (quarter t * 1024 div 102943) = Some (sintab ! nat (quarter t * 1024 div 102943))"
    using assms(1) q by (intro rd_Some) (auto simp: table_ok_def)
  have b: "\<bar>sintab ! nat (quarter t * 1024 div 102943)\<bar> \<le> 65536"
    using table_sine_bound [OF assms(1) t] by (auto simp: table_sine_def split: if_splits)
  have i: "i32 (sintab ! nat (quarter t * 1024 div 102943)) = sintab ! nat (quarter t * 1024 div 102943)"
    "i32 (- sintab ! nat (quarter t * 1024 div 102943)) = - sintab ! nat (quarter t * 1024 div 102943)"
    using b by (simp_all add: i32_small)
  show ?thesis
  proof (cases "theta < 0")
    case True
    then have "reduce_two_pi (- theta) = t" "- theta mod PISCES_TWO_PI = t" using red by (simp_all add: t_def)
    then show ?thesis using True by (simp add: piscesmath_sin_def neg first_quarter_eq d r i table_sine_def)
  next
    case False
    then have "reduce_two_pi theta = t" "theta mod PISCES_TWO_PI = t" using red by (simp_all add: t_def)
    then show ?thesis using False by (simp add: piscesmath_sin_def first_quarter_eq d r i table_sine_def)
  qed
qed


text \<open>
  C36: The sine of every angle but the smallest \<^verbatim>\<open>jint\<close> is defined: the reduction to one turn ends and the index is
  inside the table. With a table of values of at most one that starts with zero, it is at most one in
  size, an odd function, repeats after a turn and changes its sign after half a turn.
\<close>

theorem piscesmath_sin_laws:
  assumes "table_ok sintab" "- (2 ^ 31) < theta" "theta < 2 ^ 31"
  shows "\<exists>s. piscesmath_sin sintab theta = Some s \<and> \<bar>s\<bar> \<le> 65536 \<and> piscesmath_sin sintab (- theta) = Some (- s) \<and>
    (0 \<le> theta \<longrightarrow> theta + PISCES_TWO_PI < 2 ^ 31 \<longrightarrow> piscesmath_sin sintab (theta + PISCES_TWO_PI) = Some s) \<and>
    (0 \<le> theta \<longrightarrow> theta < PISCES_PI \<longrightarrow> piscesmath_sin sintab (theta + PISCES_PI) = Some (- s))"
proof -
  define t where "t = \<bar>theta\<bar> mod PISCES_TWO_PI"
  define s where "s = (if theta < 0 then - 1 else 1) * table_sine sintab t"
  have "table_sine sintab 0 = 0" using assms(1) by (cases sintab) (auto simp: table_ok_def table_sine_def quarter_def)
  then have odd: "piscesmath_sin sintab (- theta) = Some (- s)"
    using piscesmath_sin_eq [of sintab "- theta"] assms by (cases "theta = 0") (simp_all add: s_def t_def)
  have half: "table_sine sintab (u + PISCES_PI) = - table_sine sintab u" if "0 \<le> u" "u < PISCES_PI" for u
  proof -
    have "quarter (u + PISCES_PI) = quarter u" using that by (simp add: quarter_def)
    then show ?thesis using that by (simp add: table_sine_def)
  qed
  have t: "0 \<le> t" "t < PISCES_TWO_PI" by (simp_all add: t_def)
  have "\<bar>s\<bar> \<le> 65536" using table_sine_bound [OF assms(1) t] by (simp add: s_def)
  moreover have "piscesmath_sin sintab (theta + PISCES_TWO_PI) = Some s" if "0 \<le> theta" "theta + PISCES_TWO_PI < 2 ^ 31"
    using piscesmath_sin_eq [OF assms(1), of "theta + PISCES_TWO_PI"] that by (simp add: s_def t_def)
  moreover have "piscesmath_sin sintab (theta + PISCES_PI) = Some (- s)" if "0 \<le> theta" "theta < PISCES_PI"
    using piscesmath_sin_eq [OF assms(1), of "theta + PISCES_PI"] that half [OF that] by (simp add: s_def t_def)
  ultimately show ?thesis using piscesmath_sin_eq [OF assms] odd by (auto simp: s_def t_def)
qed

theorem piscesmath_sin_laws_witness:
  "\<exists>s. piscesmath_sin (map (\<lambda>i. i * 64) [0..1024]) 1000000 = Some s \<and> \<bar>s\<bar> \<le> 65536 \<and>
     piscesmath_sin (map (\<lambda>i. i * 64) [0..1024]) (- 1000000) = Some (- s)"
proof -
  have "hd [0..1024 :: int] = 0" "length [0..1024 :: int] = 1025" by (simp_all add: upto.simps)
  then have "table_ok (map (\<lambda>i. i * 64) [0..1024])" by (auto simp: table_ok_def hd_map)
  then show ?thesis using piscesmath_sin_laws [of "map (\<lambda>i. i * 64) [0..1024]" 1000000] by auto
qed

section \<open>The arc sine\<close>

text \<open>The numbers of a format.\<close>

definition is_float :: "fp \<Rightarrow> bool" where
  "is_float x = (case x of Fin s m e \<Rightarrow> 0 \<le> m \<and> m < 2 ^ 24 \<and> - 149 \<le> e \<and> e \<le> 104 | _ \<Rightarrow> True)"

lemma fp_trunc_scaled: "fp_trunc (Fin s (n * 2 ^ j) (e - int j)) = fp_trunc (Fin s n e)"
proof -
  consider "int j \<le> e" | "0 \<le> e" "e < int j" | "e < 0" by linarith
  then show ?thesis
  proof cases
    case 1
    then have "j + nat (e - int j) = nat e" by simp
    then have "(2 :: int) ^ j * 2 ^ nat (e - int j) = 2 ^ nat e" by (metis power_add)
    then show ?thesis using 1 by (simp add: Let_def mult.assoc)
  next
    case 2
    then have "j = nat (int j - e) + nat e" by simp
    then have "(2 :: int) ^ j = 2 ^ nat (int j - e) * 2 ^ nat e" by (metis power_add)
    then show ?thesis using 2 by (simp add: Let_def)
  next
    case 3
    then have "nat (int j - e) = nat (- e) + j" by simp
    then have "(2 :: int) ^ nat (int j - e) = 2 ^ nat (- e) * 2 ^ j" by (simp add: power_add)
    then show ?thesis using 3 by (simp add: Let_def)
  qed
qed


text \<open>Converting a \<^verbatim>\<open>float\<close> to \<^verbatim>\<open>double\<close> and multiplying it by 200 are exact.\<close>

lemma F64_round:
  assumes "0 < m" "m < 2 ^ 53" "- 149 \<le> e" "e \<le> 104"
  shows "\<exists>k. round_fp F64 s (m * 2 ^ j) (e - int j) False = Fin s (m * 2 ^ k) (e - int k)"
proof -
  have "bit_length m \<le> 53" using assms by (intro bit_length_le) auto
  then have "exact_exp F64 m e \<le> hi F64" using assms by (simp add: exact_exp_def F64_def)
  then show ?thesis
    using round_scaled(1) [of m F64 e s j] round_scaled(2) [of m F64 e] assms
    by (intro exI [of _ "nat (e - exact_exp F64 m e)"]) (simp add: F64_def)
qed

lemma arg_times_200:
  assumes "0 < m" "m < 2 ^ 24" "- 149 \<le> e" "e \<le> 104"
  shows "\<exists>k. fp_convert F64 (Fin s m e) = Fin s (m * 2 ^ k) (e - int k)"
    and "fp_trunc (fp_mul F64 (fp_convert F64 (Fin False m e)) (fp_of_int F64 200)) = fp_trunc (Fin False (m * 200) e)"
proof -
  show ex: "\<exists>k. fp_convert F64 (Fin s m e) = Fin s (m * 2 ^ k) (e - int k)" for s
    using F64_round [of m e s 0] assms by simp
  obtain k where k: "fp_convert F64 (Fin False m e) = Fin False (m * 2 ^ k) (e - int k)" using ex by blast
  have h: "fp_of_int F64 200 = Fin False (200 * 2 ^ 45) (- 45)" by code_simp
  have mul: "fp_mul F64 (Fin False a d) (Fin False b c) = round_fp F64 False (a * b) (d + c) False" if "0 < a" "0 < b" for a b c d
    using that by simp
  have "m * 2 ^ k * (200 * 2 ^ 45) = (m * 200) * 2 ^ (k + 45)" by (simp add: power_add)
  moreover have "e - int k + - 45 = e - int (k + 45)" by simp
  moreover have "fp_mul F64 (fp_convert F64 (Fin False m e)) (fp_of_int F64 200) =
      round_fp F64 False (m * 2 ^ k * (200 * 2 ^ 45)) (e - int k + - 45) False"
    unfolding k h by (rule mul) (use assms(1) in simp_all)
  ultimately have "fp_mul F64 (fp_convert F64 (Fin False m e)) (fp_of_int F64 200) =
      round_fp F64 False ((m * 200) * 2 ^ (k + 45)) (e - int (k + 45)) False"
    by (simp only:)
  moreover obtain j where "round_fp F64 False ((m * 200) * 2 ^ (k + 45)) (e - int (k + 45)) False = Fin False ((m * 200) * 2 ^ j) (e - int j)"
    using F64_round [of "m * 200" e False "k + 45"] assms by auto
  ultimately show "fp_trunc (fp_mul F64 (fp_convert F64 (Fin False m e)) (fp_of_int F64 200)) = fp_trunc (Fin False (m * 200) e)"
    by (simp only: fp_trunc_scaled)
qed

lemma at_most_one:
  assumes "\<not> fp_less (fint 1) (Fin False m e)" "0 < m"
  shows "\<exists>i. fp_trunc (Fin False (m * 200) e) = Some i \<and> 0 \<le> i \<and> i \<le> 200"
proof (cases "0 \<le> e")
  case True
  have "min (- 23) e = - 23" "nat (e + 23) = nat e + 23" using True by simp_all
  then have "m * 2 ^ nat e * 2 ^ 23 \<le> 2 ^ 23"
    using assms(1) True fint_eq(1) [of 1] by (simp add: shift_def bit_length.simps Let_def power_add not_less)
  then show ?thesis using True assms(2) by (simp add: Let_def)
next
  case False
  have "m \<le> 2 ^ nat (- e)"
  proof (cases "- 23 \<le> e")
    case True
    have "min (- 23) e = - 23" "23 = nat (- e) + nat (e + 23)" using True False by simp_all
    then have "m * 2 ^ nat (e + 23) \<le> 2 ^ nat (- e) * 2 ^ nat (e + 23)"
      using assms(1) fint_eq(1) [of 1] by (simp add: shift_def bit_length.simps Let_def not_less power_add [symmetric])
    then show ?thesis by simp
  next
    case False
    then have "min (- 23) e = e" "nat (- e) = 23 + nat (- 23 - e)" by simp_all
    then show ?thesis using assms(1) fint_eq(1) [of 1] by (simp add: shift_def bit_length.simps Let_def not_less power_add)
  qed
  then have "m * 200 div 2 ^ nat (- e) \<le> 2 ^ nat (- e) * 200 div 2 ^ nat (- e)" by (intro zdiv_mono1) auto
  then show ?thesis using False assms(2) by (simp add: Let_def pos_imp_zdiv_nonneg_iff)
qed


lemma findClosestASin_ok:
  assumes "0 < m" "m < 2 ^ 24" "- 149 \<le> e" "e \<le> 104" "\<not> fp_less (fint 1) (Fin False m e)"
  shows "\<exists>r. findClosestASin (Fin s m e) = Some r"
proof -
  obtain k where k: "fp_convert F64 (Fin s m e) = Fin s (m * 2 ^ k) (e - int k)" using arg_times_200(1) [OF assms(1-4)] by blast
  have sign: "fp_less (fp_convert F64 (Fin s m e)) (fp_of_int F64 0) \<longleftrightarrow> s"
  proof -
    have "0 < m * 2 ^ k * 2 ^ n" for n using assms(1) by simp
    then show ?thesis unfolding k by (cases s) (simp_all add: fp_of_int_def fp_zero_def Let_def not_less less_imp_le)
  qed
  define arg where "arg = fp_convert F64 (Fin False m e)"
  have arg: "(if s then fp_convert F64 (fp_neg (Fin s m e)) else fp_convert F64 (Fin s m e)) = arg" by (simp add: arg_def)
  obtain i where i: "fp_trunc (fp_mul F64 arg (fp_of_int F64 200)) = Some i" "0 \<le> i" "i \<le> 200"
    using at_most_one [OF assms(5,1)] arg_times_200(2) [OF assms(1-4)] by (auto simp: arg_def)
  then have ix: "fp_to_jint (fp_mul F64 arg (fp_of_int F64 200)) = i" by (simp add: fp_to_jint_def is_jint_def)
  define j where "j = (if i = 200 then 199 else i)"
  have j: "0 \<le> j" "j < 200" "i32 (j + 1) = j + 1" using i by (simp_all add: j_def i32_small)
  have len: "int (length arcsinTable) = 201" by (simp add: arcsinTable_def arcsin_digits_def)
  have rd: "rd arcsinTable j = Some (arcsinTable ! nat j)" "rd arcsinTable (j + 1) = Some (arcsinTable ! nat (j + 1))"
    using j len by (intro rd_Some; simp)+
  show ?thesis
    by (cases s) ((use sign arg in \<open>simp add: findClosestASin_def ix j_def [symmetric] rd j(3)\<close>), simp add: Let_def)+
qed

text \<open>
  The arc sine of every \<^verbatim>\<open>float\<close> between minus one and one is defined: the index computed in \<^verbatim>\<open>double\<close> arithmetic and
  its successor are inside the table.
\<close>

theorem piscesmath_asin_defined:
  assumes "is_float x" "x \<noteq> NaN" "\<not> fp_less (fint 1) x" "\<not> fp_less x (fint (- 1))"
  shows "\<exists>r. piscesmath_asin x = Some r"
proof (cases x)
  case (Inf s)
  then show ?thesis using assms(3,4) by (cases s) (simp_all add: fint_eq(1) [of 1] fint_eq(2) [of 1])
next
  case (Fin s m e)
  show ?thesis
  proof (cases "m = 0")
    case True
    then have "fp_eq x (fint 0)" by (simp add: Fin fp_eq_def fp_of_int_def fp_zero_def Let_def)
    then show ?thesis by (simp add: piscesmath_asin_def)
  next
    case False
    then have m: "0 < m" "m < 2 ^ 24" "- 149 \<le> e" "e \<le> 104" using assms(1) by (auto simp: Fin is_float_def)
    have "\<not> fp_less (fint 1) (Fin False m e)"
    proof (cases s)
      case True
      then show ?thesis using assms(4) fint_eq [of 1] by (simp add: Fin Let_def min.commute)
    qed (use assms(3) Fin in simp)
    then show ?thesis using findClosestASin_ok [OF m, of s] by (simp add: piscesmath_asin_def Fin)
  qed
qed (use assms(2) in simp)

theorem piscesmath_asin_defined_witness: "\<exists>r. piscesmath_asin (Fin True 16777215 (- 24)) = Some r"
proof -
  have "\<not> fp_less (fint 1) (Fin True 16777215 (- 24))" "\<not> fp_less (Fin True 16777215 (- 24)) (fint (- 1))" by code_simp+
  then show ?thesis using piscesmath_asin_defined [of "Fin True 16777215 (- 24)"] by (simp add: is_float_def)
qed

text \<open>Outside that range the table is read beyond its end, and the result of \<^verbatim>\<open>piscesmath_ceil\<close> ignores the sign.\<close>

lemma piscesmath_asin_overread: "piscesmath_asin (Fin False 3 (- 1)) = None"
proof -
  have "\<not> fp_eq (Fin False 3 (- 1)) (fint 0)" "\<not> fp_eq (Fin False 3 (- 1)) (fint (- 1))" "\<not> fp_eq (Fin False 3 (- 1)) (fint 1)"
    "\<not> fp_less (fp_convert F64 (Fin False 3 (- 1))) (fp_of_int F64 0)"
    "fp_to_jint (fp_mul F64 (fp_convert F64 (Fin False 3 (- 1))) (fp_of_int F64 200)) = 300"
    by code_simp+
  moreover have "rd arcsinTable 300 = None" by (simp add: rd_def arcsinTable_def arcsin_digits_def)
  ultimately show ?thesis by (simp add: piscesmath_asin_def findClosestASin_def del: fp_convert.simps)
qed

lemma piscesmath_ceil_sign: "piscesmath_ceil (Fin True 3 (- 1)) = 2"
  by code_simp

lemma piscesmath_sin_smallest: "piscesmath_sin sintab (- (2 ^ 31)) = None"
  by (simp add: piscesmath_sin_def i32_mod reduce_two_pi.simps first_quarter_def c_div_def rd_def)

end
