(* ===== verification/Media_Color.thy ===== *)
theory Media_Color
  imports Media_Tables
begin

text \<open>
  The portable conversions of \<^verbatim>\<open>jfxmedia/Utils/ColorConverter.c\<close> from planar and packed video frames to pixels of
  four bytes, blue first. A plane is its bytes, \<open>None\<close> the null pointer; pointers into it are positions. A
  result \<open>None\<close> is an access outside a plane.
\<close>

type_synonym plane = "int list option"

section \<open>Clamping\<close>

definition TCLAMP_U8 :: "int \<Rightarrow> int option" where
  "TCLAMP_U8 val = rd color_tClip (288 * 2 + val)"

definition SCLAMP_U8 :: "int \<Rightarrow> int" where
  "SCLAMP_U8 s =
     (let v = i32 s; mask = drop_bit 31 (i32 (v - 0x1fe))
      in take_bit 8 ((drop_bit 1 (take_bit 32 v) OR take_bit 32 (NOT mask)) AND take_bit 32 (NOT (drop_bit 31 v))))"

section \<open>Four pixels that share their colour\<close>

text \<open>
  The body of the loops over a planar frame: two pixels of each of two rows. \<open>alphas\<close> are the bytes stored as
  their alpha.
\<close>

definition block420 ::
    "int list \<Rightarrow> int list \<Rightarrow> int list \<Rightarrow> int \<Rightarrow> int \<Rightarrow> int \<Rightarrow> int \<Rightarrow> int \<times> int \<times> int \<times> int \<Rightarrow> int \<Rightarrow> int \<Rightarrow> int list \<Rightarrow> int list option" where
  "block420 y v u say1 say2 sau sav alphas da1 da2 bgra = do {
     sf1 \<leftarrow> rd u sau;
     sf2 \<leftarrow> rd v sav;
     sf01 \<leftarrow> rd y say1;
     sf03 \<leftarrow> rd y (say1 + 1);
     sf02 \<leftarrow> rd y say2;
     sf04 \<leftarrow> rd y (say2 + 1);
     rv \<leftarrow> rd color_tRV sf2;
     gu \<leftarrow> rd color_tGU sf1;
     gv \<leftarrow> rd color_tGV sf2;
     bu \<leftarrow> rd color_tBU sf1;
     let sfr = rv - 446;
     let sfg = gu - gv;
     let sfb = bu - 554;
     sf01 \<leftarrow> rd color_tYY sf01;
     sf03 \<leftarrow> rd color_tYY sf03;
     sf02 \<leftarrow> rd color_tYY sf02;
     sf04 \<leftarrow> rd color_tYY sf04;
     c \<leftarrow> TCLAMP_U8 (sf01 + sfr); bgra \<leftarrow> wr bgra (da1 + 2) c;
     c \<leftarrow> TCLAMP_U8 (sf01 + sfg); bgra \<leftarrow> wr bgra (da1 + 1) c;
     bgra \<leftarrow> wr bgra da1 (SCLAMP_U8 (sf01 + sfb));
     c \<leftarrow> TCLAMP_U8 (sf03 + sfr); bgra \<leftarrow> wr bgra (da1 + 6) c;
     c \<leftarrow> TCLAMP_U8 (sf03 + sfg); bgra \<leftarrow> wr bgra (da1 + 5) c;
     bgra \<leftarrow> wr bgra (da1 + 4) (SCLAMP_U8 (sf03 + sfb));
     c \<leftarrow> TCLAMP_U8 (sf02 + sfr); bgra \<leftarrow> wr bgra (da2 + 2) c;
     c \<leftarrow> TCLAMP_U8 (sf02 + sfg); bgra \<leftarrow> wr bgra (da2 + 1) c;
     bgra \<leftarrow> wr bgra da2 (SCLAMP_U8 (sf02 + sfb));
     c \<leftarrow> TCLAMP_U8 (sf04 + sfr); bgra \<leftarrow> wr bgra (da2 + 6) c;
     bgra \<leftarrow> wr bgra (da2 + 5) (SCLAMP_U8 (sf04 + sfg));
     c \<leftarrow> TCLAMP_U8 (sf04 + sfb); bgra \<leftarrow> wr bgra (da2 + 4) c;
     let (a1, a2, a3, a4) = alphas;
     bgra \<leftarrow> wr bgra (da1 + 3) a1;
     bgra \<leftarrow> wr bgra (da1 + 7) a2;
     bgra \<leftarrow> wr bgra (da2 + 3) a3;
     wr bgra (da2 + 7) a4
   }"

section \<open>The conversions\<close>

text \<open>
  \<open>alpha j i\<close> reads the alpha of block \<open>i\<close> in the row pair \<open>j\<close>. The pointers of a row pair advance by two rows of the
  luma and the pixels and one row of the chroma planes.
\<close>

definition convert420 ::
    "int list \<Rightarrow> int \<Rightarrow> int \<Rightarrow> int \<Rightarrow> int list \<Rightarrow> int list \<Rightarrow> int list \<Rightarrow> int \<Rightarrow> int \<Rightarrow> int \<Rightarrow>
     (int \<Rightarrow> int \<Rightarrow> (int \<times> int \<times> int \<times> int) option) \<Rightarrow> int list option" where
  "convert420 bgra bgra_stride width height y v u y_stride v_stride u_stride alpha =
     map_option fst (for_loop (drop_bit 1 height) (\<lambda>j (bgra, sly1, slu, slv, dl1). do {
       bgra \<leftarrow> for_loop (drop_bit 1 width) (\<lambda>i bgra. do {
         alphas \<leftarrow> alpha j i;
         block420 y v u (sly1 + 2 * i) (sly1 + y_stride + 2 * i) (slu + i) (slv + i) alphas
           (dl1 + 8 * i) (dl1 + bgra_stride + 8 * i) bgra
       }) bgra;
       Some (bgra, sly1 + i32 (2 * y_stride), slu + u_stride, slv + v_stride, dl1 + i32 (2 * bgra_stride))
     }) (bgra, 0, 0, 0, 0))"

definition ColorConvert_YCbCr420p_to_BGRA32 ::
    "plane \<Rightarrow> int \<Rightarrow> int \<Rightarrow> int \<Rightarrow> plane \<Rightarrow> plane \<Rightarrow> plane \<Rightarrow> int list \<Rightarrow> int \<Rightarrow> int \<Rightarrow> int \<Rightarrow> int \<Rightarrow> (int \<times> plane) option" where
  "ColorConvert_YCbCr420p_to_BGRA32 bgra bgra_stride width height y v u a y_stride v_stride u_stride a_stride =
     (case (bgra, y, u, v) of
        (Some d, Some y, Some u, Some v) \<Rightarrow>
          if width \<le> 0 \<or> height \<le> 0 then Some (1, bgra)
          else if odd (width OR height) then Some (1, bgra)
          else map_option (\<lambda>d. (0, Some d)) (convert420 d bgra_stride width height y v u y_stride v_stride u_stride
            (\<lambda>j i. do {
               a1 \<leftarrow> rd a (j * i32 (push_bit 1 a_stride) + 2 * i);
               a2 \<leftarrow> rd a (j * i32 (push_bit 1 a_stride) + 2 * i + 1);
               a3 \<leftarrow> rd a (a_stride + j * i32 (push_bit 1 a_stride) + 2 * i);
               a4 \<leftarrow> rd a (a_stride + j * i32 (push_bit 1 a_stride) + 2 * i + 1);
               Some (a1, a2, a3, a4)
             }))
      | _ \<Rightarrow> Some (1, bgra))"

definition ColorConvert_YCbCr420p_to_BGRA32_no_alpha ::
    "plane \<Rightarrow> int \<Rightarrow> int \<Rightarrow> int \<Rightarrow> plane \<Rightarrow> plane \<Rightarrow> plane \<Rightarrow> int \<Rightarrow> int \<Rightarrow> int \<Rightarrow> (int \<times> plane) option" where
  "ColorConvert_YCbCr420p_to_BGRA32_no_alpha bgra bgra_stride width height y v u y_stride v_stride u_stride =
     (case (bgra, y, u, v) of
        (Some d, Some y, Some u, Some v) \<Rightarrow>
          if width \<le> 0 \<or> height \<le> 0 then Some (1, bgra)
          else if odd (width OR height) then Some (1, bgra)
          else map_option (\<lambda>d. (0, Some d)) (convert420 d bgra_stride width height y v u y_stride v_stride u_stride
            (\<lambda>j i. Some (0xff, 0xff, 0xff, 0xff)))
      | _ \<Rightarrow> Some (1, bgra))"

text \<open>The packed format: one row at a time, two pixels in four bytes.\<close>

definition block422 ::
    "int list \<Rightarrow> int list \<Rightarrow> int list \<Rightarrow> int \<Rightarrow> int \<Rightarrow> int \<Rightarrow> int \<Rightarrow> int list \<Rightarrow> int list option" where
  "block422 y v u say1 sau sav da1 bgra = do {
     sf1 \<leftarrow> rd u sau;
     sf2 \<leftarrow> rd v sav;
     sf01 \<leftarrow> rd y say1;
     sf03 \<leftarrow> rd y (say1 + 2);
     rv \<leftarrow> rd color_tRV sf2;
     gu \<leftarrow> rd color_tGU sf1;
     gv \<leftarrow> rd color_tGV sf2;
     bu \<leftarrow> rd color_tBU sf1;
     let sfr = rv - 446;
     let sfg = gu - gv;
     let sfb = bu - 554;
     sf01 \<leftarrow> rd color_tYY sf01;
     sf03 \<leftarrow> rd color_tYY sf03;
     c \<leftarrow> TCLAMP_U8 (sf01 + sfr); bgra \<leftarrow> wr bgra (da1 + 2) c;
     c \<leftarrow> TCLAMP_U8 (sf01 + sfg); bgra \<leftarrow> wr bgra (da1 + 1) c;
     bgra \<leftarrow> wr bgra da1 (SCLAMP_U8 (sf01 + sfb));
     c \<leftarrow> TCLAMP_U8 (sf03 + sfr); bgra \<leftarrow> wr bgra (da1 + 6) c;
     c \<leftarrow> TCLAMP_U8 (sf03 + sfg); bgra \<leftarrow> wr bgra (da1 + 5) c;
     bgra \<leftarrow> wr bgra (da1 + 4) (SCLAMP_U8 (sf03 + sfb));
     bgra \<leftarrow> wr bgra (da1 + 7) 0xff;
     wr bgra (da1 + 3) 0xff
   }"

definition ColorConvert_YCbCr422p_to_BGRA32_no_alpha ::
    "plane \<Rightarrow> int \<Rightarrow> int \<Rightarrow> int \<Rightarrow> plane \<Rightarrow> plane \<Rightarrow> plane \<Rightarrow> int \<Rightarrow> int \<Rightarrow> (int \<times> plane) option" where
  "ColorConvert_YCbCr422p_to_BGRA32_no_alpha bgra bgra_stride width height y v u y_stride uv_stride =
     (case (bgra, y, u, v) of
        (Some d, Some y, Some u, Some v) \<Rightarrow>
          if width \<le> 0 \<or> height \<le> 0 then Some (1, bgra)
          else if odd width then Some (1, bgra)
          else map_option (\<lambda>(d, _). (0, Some d))
            (for_loop height (\<lambda>j (bgra, sly1, slu, slv, dl1). do {
               bgra \<leftarrow> for_loop (drop_bit 1 width) (\<lambda>i bgra.
                 block422 y v u (sly1 + 4 * i) (slu + 4 * i) (slv + 4 * i) (dl1 + 8 * i) bgra) bgra;
               Some (bgra, sly1 + y_stride, slu + uv_stride, slv + uv_stride, dl1 + bgra_stride)
             }) (d, 0, 0, 0, 0))
      | _ \<Rightarrow> Some (1, bgra))"

text \<open>The conversions to the other byte order are stubs.\<close>

definition ColorConvert_YCbCr420p_to_ARGB32 ::
    "plane \<Rightarrow> int \<Rightarrow> int \<Rightarrow> int \<Rightarrow> plane \<Rightarrow> plane \<Rightarrow> plane \<Rightarrow> plane \<Rightarrow> int \<Rightarrow> int \<Rightarrow> int \<Rightarrow> int \<Rightarrow> (int \<times> plane) option" where
  "ColorConvert_YCbCr420p_to_ARGB32 argb argb_stride width height y v u a y_stride v_stride u_stride a_stride = Some (1, argb)"

definition ColorConvert_YCbCr420p_to_ARGB32_no_alpha ::
    "plane \<Rightarrow> int \<Rightarrow> int \<Rightarrow> int \<Rightarrow> plane \<Rightarrow> plane \<Rightarrow> plane \<Rightarrow> int \<Rightarrow> int \<Rightarrow> int \<Rightarrow> (int \<times> plane) option" where
  "ColorConvert_YCbCr420p_to_ARGB32_no_alpha argb argb_stride width height y v u y_stride v_stride u_stride = Some (1, argb)"

definition ColorConvert_YCbCr422p_to_ARGB32_no_alpha ::
    "plane \<Rightarrow> int \<Rightarrow> int \<Rightarrow> int \<Rightarrow> plane \<Rightarrow> plane \<Rightarrow> plane \<Rightarrow> int \<Rightarrow> int \<Rightarrow> (int \<times> plane) option" where
  "ColorConvert_YCbCr422p_to_ARGB32_no_alpha argb argb_stride width height y v u y_stride uv_stride = Some (1, argb)"

section \<open>Clamping halves and saturates\<close>

lemma TCLAMP_eq: "- 576 \<le> v \<Longrightarrow> v < 1088 \<Longrightarrow> TCLAMP_U8 v = Some (clip8 v)"
  using color_tClip_nth [of v] tables_length(1) by (simp add: TCLAMP_U8_def)

lemma SCLAMP_eq:
  assumes "- (2 ^ 30) \<le> v" "v < 2 ^ 30"
  shows "SCLAMP_U8 v = clip8 v"
proof -
  have i: "i32 v = v" "i32 (v - 510) = v - 510" using assms by (simp_all add: i32_small)
  have sign: "drop_bit 31 w = (if w < 0 then - 1 else 0)" if "- (2 ^ 31) \<le> w" "w < 2 ^ 31" for w :: int
    using that by (auto simp: drop_bit_eq_div div_eq_minus1 intro: div_pos_pos_trivial)
  have s: "drop_bit 31 v = (if v < 0 then - 1 else 0)" "drop_bit 31 (v - 510) = (if v < 510 then - 1 else 0)"
    using assms by (auto simp: sign)
  consider "v < 0" | "0 \<le> v" "v < 510" | "510 \<le> v" by linarith
  then show ?thesis
  proof cases
    case 1
    then show ?thesis by (simp add: SCLAMP_U8_def i s clip8_def)
  next
    case 2
    have t: "take_bit 32 v = v" using 2 by (simp add: take_bit_int_eq_self)
    have "take_bit 8 (v div 2 AND take_bit 32 (- 1)) = v div 2"
      using 2 take_bit_int_eq_self [of "v div 2" 8] by (simp add: take_bit_and) (simp add: and.commute take_bit_eq_mask [symmetric])
    moreover have "drop_bit (Suc 0) v = v div 2" by (simp add: drop_bit_eq_div)
    ultimately show ?thesis using 2 t by (simp add: SCLAMP_U8_def i s clip8_def)
  next
    case 3
    have "take_bit 8 ((x OR take_bit 32 (- 1)) AND take_bit 32 (- 1)) = (mask 8 :: int)" for x :: int
      by (rule bit_eqI) (auto simp: bit_simps)
    then have "SCLAMP_U8 v = mask 8" using 3 by (simp add: SCLAMP_U8_def i s)
    then show ?thesis using 3 by (simp add: clip8_def mask_eq_exp_minus_1)
  qed
qed


section \<open>The colour of a pixel\<close>

text \<open>The byte \<open>ch\<close> of a pixel: blue, green, red, alpha.\<close>

definition yuv_byte :: "int \<Rightarrow> int \<Rightarrow> int \<Rightarrow> int \<Rightarrow> int \<Rightarrow> int" where
  "yuv_byte Y U V A ch =
     (let l = color_tYY ! nat Y
      in if ch = 0 then clip8 (l + color_tBU ! nat U - 554)
         else if ch = 1 then clip8 (l + color_tGU ! nat U - color_tGV ! nat V)
         else if ch = 2 then clip8 (l + color_tRV ! nat V - 446)
         else A)"

lemma whole_bounds: "0 \<le> d \<Longrightarrow> 0 \<le> whole d" "d < 100000000 * (m + 1) \<Longrightarrow> whole d \<le> m"
  by (simp_all add: whole_def)

lemma table_bounds:
  assumes "0 \<le> b" "b \<le> 255"
  shows "0 \<le> color_tYY ! nat b \<and> color_tYY ! nat b \<le> 594" "0 \<le> color_tRV ! nat b \<and> color_tRV ! nat b \<le> 814"
    "0 \<le> color_tGU ! nat b \<and> color_tGU ! nat b \<le> 271" "0 \<le> color_tGV ! nat b \<and> color_tGV ! nat b \<le> 415"
    "0 \<le> color_tBU ! nat b \<and> color_tBU ! nat b \<le> 1029"
proof -
  have n: "nat b < 256" using assms by simp
  note f = follows_nth [OF color_tYY_follows, of "nat b"] follows_nth [OF color_tRV_follows, of "nat b"]
    follows_nth [OF color_tGU_follows, of "nat b"] follows_nth [OF color_tGV_follows, of "nat b"] follows_nth [OF color_tBU_follows, of "nat b"]
  show "0 \<le> color_tYY ! nat b \<and> color_tYY ! nat b \<le> 594" "0 \<le> color_tRV ! nat b \<and> color_tRV ! nat b \<le> 814"
    "0 \<le> color_tGU ! nat b \<and> color_tGU ! nat b \<le> 271" "0 \<le> color_tGV ! nat b \<and> color_tGV ! nat b \<le> 415"
    "0 \<le> color_tBU ! nat b \<and> color_tBU ! nat b \<le> 1029"
    using f n assms by (simp_all add: tables_length whole_bounds)
qed

lemma clamps:
  assumes "0 \<le> Y" "Y \<le> 255" "0 \<le> U" "U \<le> 255" "0 \<le> V" "V \<le> 255"
  shows "TCLAMP_U8 (color_tYY ! nat Y + (color_tRV ! nat V - 446)) = Some (yuv_byte Y U V A 2)"
    "TCLAMP_U8 (color_tYY ! nat Y + (color_tGU ! nat U - color_tGV ! nat V)) = Some (yuv_byte Y U V A 1)"
    "TCLAMP_U8 (color_tYY ! nat Y + (color_tBU ! nat U - 554)) = Some (yuv_byte Y U V A 0)"
    "SCLAMP_U8 (color_tYY ! nat Y + (color_tBU ! nat U - 554)) = yuv_byte Y U V A 0"
    "SCLAMP_U8 (color_tYY ! nat Y + (color_tGU ! nat U - color_tGV ! nat V)) = yuv_byte Y U V A 1"
  using table_bounds(1) [OF assms(1,2)] table_bounds(3,5) [OF assms(3,4)] table_bounds(2,4) [OF assms(5,6)]
  by (simp_all add: TCLAMP_eq SCLAMP_eq yuv_byte_def Let_def add_diff_eq)

section \<open>Writing the pixels\<close>

definition patch :: "(int \<Rightarrow> int) \<Rightarrow> int set \<Rightarrow> int list \<Rightarrow> int list" where
  "patch f S xs = map (\<lambda>p. if int p \<in> S then f (int p) else xs ! p) [0..<length xs]"

lemma patch_length [simp]: "length (patch f S xs) = length xs"
  by (simp add: patch_def)

lemma patch_empty [simp]: "patch f {} xs = xs"
  by (simp add: patch_def map_nth)

lemma nth_patch: "p < length xs \<Longrightarrow> patch f S xs ! p = (if int p \<in> S then f (int p) else xs ! p)"
  by (simp add: patch_def)

lemma wr_patch:
  assumes "0 \<le> p" "p < int (length xs)" "c = f p"
  shows "wr (patch f S xs) p c = Some (patch f (insert p S) xs)"
proof -
  have "(patch f S xs)[nat p := c] = patch f (insert p S) xs"
    by (rule nth_equalityI) (use assms in \<open>auto simp: nth_patch nth_list_update\<close>)
  then show ?thesis using assms by simp
qed

text \<open>The bytes of two pixels from a position on.\<close>

definition two_px :: "int \<Rightarrow> int set" where
  "two_px p = {p, p + 1, p + 2, p + 3, p + 4, p + 5, p + 6, p + 7}"

lemma two_px_iff: "q \<in> two_px p \<longleftrightarrow> p \<le> q \<and> q < p + 8"
  by (auto simp: two_px_def)

definition byte_at :: "int list \<Rightarrow> int \<Rightarrow> bool" where
  "byte_at xs p \<longleftrightarrow> 0 \<le> p \<and> p < int (length xs) \<and> 0 \<le> xs ! nat p \<and> xs ! nat p \<le> 255"

lemma rd_byte: "byte_at xs p \<Longrightarrow> rd xs p = Some (xs ! nat p)"
  by (simp add: byte_at_def)

lemma rd_tables:
  assumes "0 \<le> b" "b \<le> 255"
  shows "rd color_tYY b = Some (color_tYY ! nat b)" "rd color_tRV b = Some (color_tRV ! nat b)" "rd color_tGU b = Some (color_tGU ! nat b)"
    "rd color_tGV b = Some (color_tGV ! nat b)" "rd color_tBU b = Some (color_tBU ! nat b)"
  using assms by (simp_all add: tables_length)

text \<open>\<open>shows2 f p Y Y' U V A A'\<close>: from \<open>p\<close> on, \<open>f\<close> holds two pixels of the lumas \<open>Y\<close> and \<open>Y'\<close>.\<close>

definition shows2 :: "(int \<Rightarrow> int) \<Rightarrow> int \<Rightarrow> int \<Rightarrow> int \<Rightarrow> int \<Rightarrow> int \<Rightarrow> int \<Rightarrow> int \<Rightarrow> bool" where
  "shows2 f p Y Y' U V A A' \<longleftrightarrow> (\<forall>ch \<in> {0..3}. f (p + ch) = yuv_byte Y U V A ch \<and> f (p + 4 + ch) = yuv_byte Y' U V A' ch)"

lemma shows2_bytes:
  assumes "shows2 f p Y Y' U V A A'"
  shows "yuv_byte Y U V A 0 = f p" "yuv_byte Y U V A 1 = f (p + 1)" "yuv_byte Y U V A 2 = f (p + 2)" "A = f (p + 3)"
    "yuv_byte Y' U V A' 0 = f (p + 4)" "yuv_byte Y' U V A' 1 = f (p + 5)" "yuv_byte Y' U V A' 2 = f (p + 6)" "A' = f (p + 7)"
proof -
  have b: "f (p + ch) = yuv_byte Y U V A ch" "f (p + 4 + ch) = yuv_byte Y' U V A' ch" if "0 \<le> ch" "ch \<le> 3" for ch
    using assms that by (auto simp: shows2_def)
  show "yuv_byte Y U V A 0 = f p" "yuv_byte Y U V A 1 = f (p + 1)" "yuv_byte Y U V A 2 = f (p + 2)" "A = f (p + 3)"
    "yuv_byte Y' U V A' 0 = f (p + 4)" "yuv_byte Y' U V A' 1 = f (p + 5)" "yuv_byte Y' U V A' 2 = f (p + 6)" "A' = f (p + 7)"
    using b [of 0] b [of 1] b [of 2] b [of 3] by (simp_all add: yuv_byte_def Let_def ac_simps)
qed


lemma block420_eq:
  assumes bytes: "byte_at y s1" "byte_at y (s1 + 1)" "byte_at y s2" "byte_at y (s2 + 1)" "byte_at u su" "byte_at v sv"
    and dst: "0 \<le> d1" "d1 + 8 \<le> int (length xs)" "0 \<le> d2" "d2 + 8 \<le> int (length xs)"
    and f: "shows2 f d1 (y ! nat s1) (y ! nat (s1 + 1)) (u ! nat su) (v ! nat sv) a1 a2"
      "shows2 f d2 (y ! nat s2) (y ! nat (s2 + 1)) (u ! nat su) (v ! nat sv) a3 a4"
  shows "block420 y v u s1 s2 su sv (a1, a2, a3, a4) d1 d2 (patch f S xs) = Some (patch f (two_px d1 \<union> two_px d2 \<union> S) xs)"
proof -
  have r: "rd y s1 = Some (y ! nat s1)" "rd y (s1 + 1) = Some (y ! nat (s1 + 1))" "rd y s2 = Some (y ! nat s2)"
    "rd y (s2 + 1) = Some (y ! nat (s2 + 1))" "rd u su = Some (u ! nat su)" "rd v sv = Some (v ! nat sv)"
    using bytes by (simp_all only: rd_byte)
  have b: "0 \<le> y ! nat s1" "y ! nat s1 \<le> 255" "0 \<le> y ! nat (s1 + 1)" "y ! nat (s1 + 1) \<le> 255" "0 \<le> y ! nat s2" "y ! nat s2 \<le> 255"
    "0 \<le> y ! nat (s2 + 1)" "y ! nat (s2 + 1) \<le> 255" "0 \<le> u ! nat su" "u ! nat su \<le> 255" "0 \<le> v ! nat sv" "v ! nat sv \<le> 255"
    using bytes by (simp_all add: byte_at_def)
  note s1 = shows2_bytes [OF f(1)] and s2 = shows2_bytes [OF f(2)]
  note c = clamps [OF b(1,2,9,10,11,12), of a1, unfolded s1(1-3)] clamps [OF b(3,4,9,10,11,12), of a2, unfolded s1(5-7)]
    clamps [OF b(5,6,9,10,11,12), of a3, unfolded s2(1-3)] clamps [OF b(7,8,9,10,11,12), of a4, unfolded s2(5-7)]
  note t = rd_tables [OF b(1,2)] rd_tables [OF b(3,4)] rd_tables [OF b(5,6)] rd_tables [OF b(7,8)] rd_tables [OF b(9,10)] rd_tables [OF b(11,12)]
  have S: "insert (d2 + 7) (insert (d2 + 3) (insert (d1 + 7) (insert (d1 + 3) (insert (d2 + 4) (insert (d2 + 5) (insert (d2 + 6)
      (insert d2 (insert (d2 + 1) (insert (d2 + 2) (insert (d1 + 4) (insert (d1 + 5) (insert (d1 + 6) (insert d1
      (insert (d1 + 1) (insert (d1 + 2) S))))))))))))))) = two_px d1 \<union> two_px d2 \<union> S"
    by (auto simp: two_px_def)
  show ?thesis
    unfolding block420_def S [symmetric] using dst
    by (simp add: r t c wr_patch s1(4,8) s2(4,8) del: rd_Some wr_Some)
qed


section \<open>Whole frames\<close>

definition pair_px :: "int \<Rightarrow> int \<Rightarrow> int \<Rightarrow> int set" where
  "pair_px bs j n = (\<Union>i \<in> {0..<n}. two_px (2 * j * bs + 8 * i) \<union> two_px (2 * j * bs + bs + 8 * i))"

lemma upto_insert: "0 \<le> i \<Longrightarrow> {0..<i + 1} = insert i {0..<i :: int}"
  by auto

lemma pair_px_Suc: "0 \<le> i \<Longrightarrow> pair_px bs j (i + 1) = two_px (2 * j * bs + 8 * i) \<union> two_px (2 * j * bs + bs + 8 * i) \<union> pair_px bs j i"
  by (simp add: pair_px_def upto_insert)

lemma convert420_eq:
  assumes n: "0 \<le> H" "0 \<le> W" "drop_bit 1 height = H" "drop_bit 1 width = W" "i32 (2 * ys) = 2 * ys" "i32 (2 * bs) = 2 * bs"
    and block: "\<And>j i. 0 \<le> j \<Longrightarrow> j < H \<Longrightarrow> 0 \<le> i \<Longrightarrow> i < W \<Longrightarrow> \<exists>a1 a2 a3 a4. alpha j i = Some (a1, a2, a3, a4) \<and>
      byte_at y (2 * j * ys + 2 * i) \<and> byte_at y (2 * j * ys + 2 * i + 1) \<and> byte_at y (2 * j * ys + ys + 2 * i) \<and>
      byte_at y (2 * j * ys + ys + 2 * i + 1) \<and> byte_at u (j * us + i) \<and> byte_at v (j * vs + i) \<and>
      0 \<le> 2 * j * bs + 8 * i \<and> 2 * j * bs + 8 * i + 8 \<le> int (length d) \<and>
      0 \<le> 2 * j * bs + bs + 8 * i \<and> 2 * j * bs + bs + 8 * i + 8 \<le> int (length d) \<and>
      shows2 f (2 * j * bs + 8 * i) (y ! nat (2 * j * ys + 2 * i)) (y ! nat (2 * j * ys + 2 * i + 1)) (u ! nat (j * us + i)) (v ! nat (j * vs + i)) a1 a2 \<and>
      shows2 f (2 * j * bs + bs + 8 * i) (y ! nat (2 * j * ys + ys + 2 * i)) (y ! nat (2 * j * ys + ys + 2 * i + 1)) (u ! nat (j * us + i)) (v ! nat (j * vs + i)) a3 a4"
  shows "convert420 d bs width height y v u ys vs us alpha = Some (patch f (\<Union>j \<in> {0..<H}. pair_px bs j W) d)"
proof -
  let ?body = "\<lambda>j (bgra, sly1, slu, slv, dl1). do {
       bgra \<leftarrow> for_loop W (\<lambda>i bgra. do {
         alphas \<leftarrow> alpha j i;
         block420 y v u (sly1 + 2 * i) (sly1 + ys + 2 * i) (slu + i) (slv + i) alphas (dl1 + 8 * i) (dl1 + bs + 8 * i) bgra
       }) bgra;
       Some (bgra, sly1 + 2 * ys, slu + us, slv + vs, dl1 + 2 * bs)
     }"
  let ?P = "\<lambda>j t. t = (patch f (\<Union>k \<in> {0..<j}. pair_px bs k W) d, 2 * j * ys, j * us, j * vs, 2 * j * bs)"
  have "\<exists>t. for_loop H ?body (d, 0, 0, 0, 0) = Some t \<and> ?P H t"
  proof (rule for_loop_inv)
    fix j t assume j: "0 \<le> j" "j < H" "?P j t"
    define S where "S = (\<Union>k \<in> {0..<j}. pair_px bs k W)"
    let ?f = "\<lambda>i bgra. do {
         alphas \<leftarrow> alpha j i;
         block420 y v u (2 * j * ys + 2 * i) (2 * j * ys + ys + 2 * i) (j * us + i) (j * vs + i) alphas (2 * j * bs + 8 * i) (2 * j * bs + bs + 8 * i) bgra
       }"
    have "\<exists>s. for_loop W ?f (patch f S d) = Some s \<and> s = patch f (pair_px bs j W \<union> S) d"
    proof (rule for_loop_inv)
      fix i s assume i: "0 \<le> i" "i < W" "s = patch f (pair_px bs j i \<union> S) d"
      from block [OF j(1,2) i(1,2)] i(3) show "\<exists>s'. ?f i s = Some s' \<and> s' = patch f (pair_px bs j (i + 1) \<union> S) d"
        by (auto simp: block420_eq pair_px_Suc [OF i(1)] Un_assoc)
    qed (use n in \<open>simp_all add: pair_px_def\<close>)
    moreover have "(\<Union>k \<in> {0..<j + 1}. pair_px bs k W) = pair_px bs j W \<union> S" using j(1) by (simp add: S_def upto_insert)
    ultimately show "\<exists>t'. ?body j t = Some t' \<and> ?P (j + 1) t'"
      using j(3) by (simp add: S_def [symmetric] algebra_simps)
  qed (use n in simp_all)
  then show ?thesis using n by (simp add: convert420_def)
qed


lemma frame_pos:
  fixes bs R q :: int
  assumes "0 \<le> q" "q < bs"
  shows "(R * bs + q) div bs = R" "(R * bs + q) mod bs = q"
  using assms by simp_all

text \<open>The frame at a position: row, column and byte of the pixel.\<close>

definition frame_byte :: "int \<Rightarrow> (int \<Rightarrow> int \<Rightarrow> int \<times> int \<times> int \<times> int) \<Rightarrow> int \<Rightarrow> int" where
  "frame_byte bs px p = (case px (p div bs) (p mod bs div 4) of (Y, U, V, A) \<Rightarrow> yuv_byte Y U V A (p mod bs mod 4))"

lemma frame_shows2:
  assumes "0 \<le> i" "8 * i + 8 \<le> bs" "px R (2 * i) = (Y, U, V, A)" "px R (2 * i + 1) = (Y', U, V, A')"
  shows "shows2 (frame_byte bs px) (R * bs + 8 * i) Y Y' U V A A'"
  unfolding shows2_def
proof (intro ballI conjI)
  fix ch :: int assume ch: "ch \<in> {0..3}"
  then have q: "(8 * i + ch) div 4 = 2 * i" "(8 * i + ch) mod 4 = ch" "(8 * i + 4 + ch) div 4 = 2 * i + 1" "(8 * i + 4 + ch) mod 4 = ch"
    unfolding atLeastAtMost_iff by presburger+
  have "R * bs + 8 * i + ch = R * bs + (8 * i + ch)" "R * bs + 8 * i + 4 + ch = R * bs + (8 * i + 4 + ch)" by simp_all
  moreover have "0 \<le> 8 * i + ch" "8 * i + ch < bs" "0 \<le> 8 * i + 4 + ch" "8 * i + 4 + ch < bs" using ch assms(1,2) by auto
  ultimately show "frame_byte bs px (R * bs + 8 * i + ch) = yuv_byte Y U V A ch" "frame_byte bs px (R * bs + 8 * i + 4 + ch) = yuv_byte Y' U V A' ch"
    by (simp_all only: frame_byte_def frame_pos q assms(3,4) prod.case)
qed

lemma two_px_row:
  assumes "0 \<le> i" "8 * i + 8 \<le> bs" "p \<in> two_px (R * bs + 8 * i)"
  shows "p div bs = R" "p mod bs = p - R * bs" "8 * i \<le> p mod bs" "p mod bs < 8 * i + 8"
proof -
  have "p = R * bs + (p - R * bs)" "0 \<le> p - R * bs" "p - R * bs < bs" using assms by (simp_all add: two_px_iff)
  then show "p div bs = R" "p mod bs = p - R * bs" by (metis frame_pos)+
  then show "8 * i \<le> p mod bs" "p mod bs < 8 * i + 8" using assms(3) by (simp_all add: two_px_iff)
qed

text \<open>The pixels of a frame of \<open>n\<close> rows.\<close>

definition frame_px :: "int \<Rightarrow> int \<Rightarrow> int \<Rightarrow> int set" where
  "frame_px bs width n = {p. 0 \<le> p \<and> p div bs < n \<and> p mod bs < 4 * width}"

lemma frame_px_rows:
  assumes "0 \<le> W" "8 * W \<le> bs" "0 < bs"
  shows "(\<Union>r \<in> {0..<n}. \<Union>i \<in> {0..<W}. two_px (r * bs + 8 * i)) = frame_px bs (2 * W) n" (is "?L = ?R")
proof (intro set_eqI iffI)
  fix p assume "p \<in> ?L"
  then obtain r i where ri: "0 \<le> r" "r < n" "0 \<le> i" "i < W" "p \<in> two_px (r * bs + 8 * i)" by auto
  have "8 * i + 8 \<le> bs" using ri(4) assms(2) by simp
  note t = two_px_row [OF ri(3) this ri(5)]
  have "0 \<le> r * bs" using ri(1) assms(3) by simp
  then have "0 \<le> p" using ri(3,5) by (simp add: two_px_iff)
  then show "p \<in> ?R" using t ri(2,4) by (simp add: frame_px_def)
next
  fix p assume "p \<in> ?R"
  then have p: "0 \<le> p" "p div bs < n" "p mod bs < 8 * W" by (simp_all add: frame_px_def)
  define i where "i = p mod bs div 8"
  have i: "0 \<le> i" "i < W" "8 * i \<le> p mod bs" "p mod bs < 8 * i + 8" using p(3) pos_mod_sign [OF assms(3), of p] by (auto simp: i_def pos_imp_zdiv_nonneg_iff)
  have "p = p div bs * bs + p mod bs" by simp
  then have "p \<in> two_px (p div bs * bs + 8 * i)" using i unfolding two_px_iff by linarith
  moreover have "0 \<le> p div bs" using p(1) assms(3) by (simp add: pos_imp_zdiv_nonneg_iff)
  ultimately show "p \<in> ?L" using p(2) i(1,2) by (intro UN_I [of "p div bs"] UN_I [of i]) simp_all
qed

lemma pair_px_frame:
  assumes "0 \<le> W" "8 * W \<le> bs" "0 < bs" "0 \<le> H"
  shows "(\<Union>j \<in> {0..<H}. pair_px bs j W) = frame_px bs (2 * W) (2 * H)"
proof -
  have "(\<Union>j \<in> {0..<H}. pair_px bs j W) = (\<Union>r \<in> {0..<2 * H}. \<Union>i \<in> {0..<W}. two_px (r * bs + 8 * i))" (is "?L = ?M")
  proof (intro set_eqI iffI)
    fix p assume "p \<in> ?L"
    then obtain j i where ji: "0 \<le> j" "j < H" "0 \<le> i" "i < W" "p \<in> two_px (2 * j * bs + 8 * i) \<or> p \<in> two_px (2 * j * bs + bs + 8 * i)"
      by (auto simp: pair_px_def)
    define r where "r = (if p \<in> two_px (2 * j * bs + 8 * i) then 2 * j else 2 * j + 1)"
    have "p \<in> two_px (r * bs + 8 * i)" using ji(5) by (auto simp: r_def distrib_right)
    then show "p \<in> ?M" using ji(1-4) by (intro UN_I [of r] UN_I [of i]) (auto simp: r_def)
  next
    fix p assume "p \<in> ?M"
    then obtain r i where ri: "0 \<le> r" "r < 2 * H" "0 \<le> i" "i < W" "p \<in> two_px (r * bs + 8 * i)" by auto
    define j where "j = r div 2"
    have "r = 2 * j \<or> r = 2 * j + 1" unfolding j_def by linarith
    then have "r * bs = 2 * j * bs \<or> r * bs = 2 * j * bs + bs" by (auto simp: distrib_right)
    then have "p \<in> pair_px bs j W" using ri(3-5) unfolding pair_px_def by (intro UN_I [of i]) auto
    then show "p \<in> ?L" using ri(1,2) by (auto simp: j_def)
  qed
  then show ?thesis using frame_px_rows [OF assms(1-3)] by simp
qed


section \<open>The conversions are correct\<close>

text \<open>\<open>plane_ok xs stride w h\<close>: a plane of bytes that holds \<open>h\<close> rows of \<open>w\<close>.\<close>

definition plane_ok :: "int list \<Rightarrow> int \<Rightarrow> int \<Rightarrow> int \<Rightarrow> bool" where
  "plane_ok xs stride w h \<longleftrightarrow> 0 \<le> stride \<and> 2 * stride < 2 ^ 31 \<and> (h - 1) * stride + w \<le> int (length xs) \<and> (\<forall>b \<in> set xs. 0 \<le> b \<and> b \<le> 255)"

lemma plane_byte:
  assumes "plane_ok xs stride w h" "0 \<le> r" "r < h" "0 \<le> c" "c < w"
  shows "byte_at xs (r * stride + c)"
proof -
  have "r * stride \<le> (h - 1) * stride" "0 \<le> r * stride" using assms by (auto simp: plane_ok_def intro!: mult_right_mono)
  then have "0 \<le> r * stride + c" "r * stride + c < int (length xs)" using assms by (simp_all add: plane_ok_def)
  then show ?thesis using assms(1) by (simp add: byte_at_def plane_ok_def)
qed

definition frame_ok :: "int list \<Rightarrow> int \<Rightarrow> int \<Rightarrow> int \<Rightarrow> bool" where
  "frame_ok d bs width height \<longleftrightarrow> 4 * width \<le> bs \<and> 2 * bs < 2 ^ 31 \<and> (height - 1) * bs + 4 * width \<le> int (length d)"

lemma frame_row:
  assumes "frame_ok d bs width height" "0 \<le> r" "r < height" "0 \<le> i" "8 * i + 8 \<le> 4 * width"
  shows "0 \<le> r * bs + 8 * i" "r * bs + 8 * i + 8 \<le> int (length d)" "8 * i + 8 \<le> bs"
proof -
  have b: "0 \<le> bs" using assms by (simp add: frame_ok_def)
  have "r * bs \<le> (height - 1) * bs" "0 \<le> r * bs" using assms b by (auto intro!: mult_right_mono)
  then show "0 \<le> r * bs + 8 * i" "r * bs + 8 * i + 8 \<le> int (length d)" "8 * i + 8 \<le> bs" using assms unfolding frame_ok_def by linarith+
qed

text \<open>The samples of the pixel in row \<open>r\<close> and column \<open>c\<close>: luma of its own, chroma shared by four pixels.\<close>

definition px420 :: "int list \<Rightarrow> int list \<Rightarrow> int list \<Rightarrow> int \<Rightarrow> int \<Rightarrow> int \<Rightarrow> (int \<Rightarrow> int \<Rightarrow> int) \<Rightarrow> int \<Rightarrow> int \<Rightarrow> int \<times> int \<times> int \<times> int" where
  "px420 y v u ys vs us alpha r c =
     (y ! nat (r * ys + c), u ! nat (r div 2 * us + c div 2), v ! nat (r div 2 * vs + c div 2), alpha r c)"

lemma convert420_frame:
  assumes wh: "0 < W" "0 < H" and planes: "plane_ok y ys (2 * W) (2 * H)" "plane_ok v vs W H" "plane_ok u us W H"
    and frame: "frame_ok d bs (2 * W) (2 * H)"
    and al: "\<And>j i. 0 \<le> j \<Longrightarrow> j < H \<Longrightarrow> 0 \<le> i \<Longrightarrow> i < W \<Longrightarrow>
      alpha j i = Some (A (2 * j) (2 * i), A (2 * j) (2 * i + 1), A (2 * j + 1) (2 * i), A (2 * j + 1) (2 * i + 1))"
  shows "convert420 d bs (2 * W) (2 * H) y v u ys vs us alpha =
    Some (patch (frame_byte bs (px420 y v u ys vs us A)) (frame_px bs (2 * W) (2 * H)) d)"
proof -
  let ?f = "frame_byte bs (px420 y v u ys vs us A)"
  have i32s: "i32 (2 * ys) = 2 * ys" "i32 (2 * bs) = 2 * bs"
    using planes(1) frame wh by (simp_all add: plane_ok_def frame_ok_def i32_small)
  have "convert420 d bs (2 * W) (2 * H) y v u ys vs us alpha = Some (patch ?f (\<Union>j \<in> {0..<H}. pair_px bs j W) d)"
  proof (rule convert420_eq)
    fix j i assume ji: "0 \<le> j" "j < H" "0 \<le> i" "i < W"
    have r: "2 * j * ys + ys = (2 * j + 1) * ys" "2 * j * bs + bs = (2 * j + 1) * bs" by (simp_all add: distrib_right)
    have by0: "byte_at y (2 * j * ys + 2 * i)" "byte_at y (2 * j * ys + 2 * i + 1)" "byte_at y ((2 * j + 1) * ys + 2 * i)"
      "byte_at y ((2 * j + 1) * ys + 2 * i + 1)" "byte_at u (j * us + i)" "byte_at v (j * vs + i)"
      using ji plane_byte [OF planes(1), of "2 * j" "2 * i"] plane_byte [OF planes(1), of "2 * j" "2 * i + 1"]
        plane_byte [OF planes(1), of "2 * j + 1" "2 * i"] plane_byte [OF planes(1), of "2 * j + 1" "2 * i + 1"]
        plane_byte [OF planes(3), of j i] plane_byte [OF planes(2), of j i] by (simp_all add: add.assoc)
    have fr: "0 \<le> 2 * j * bs + 8 * i" "2 * j * bs + 8 * i + 8 \<le> int (length d)" "0 \<le> (2 * j + 1) * bs + 8 * i"
      "(2 * j + 1) * bs + 8 * i + 8 \<le> int (length d)" "8 * i + 8 \<le> bs"
      using ji frame_row [OF frame, of "2 * j" i] frame_row [OF frame, of "2 * j + 1" i] by simp_all
    have q: "(2 * j + 1) div 2 = j" "(2 * i + 1) div 2 = i" by simp_all
    have "shows2 ?f (2 * j * bs + 8 * i) (y ! nat (2 * j * ys + 2 * i)) (y ! nat (2 * j * ys + 2 * i + 1)) (u ! nat (j * us + i)) (v ! nat (j * vs + i))
        (A (2 * j) (2 * i)) (A (2 * j) (2 * i + 1))"
      "shows2 ?f ((2 * j + 1) * bs + 8 * i) (y ! nat ((2 * j + 1) * ys + 2 * i)) (y ! nat ((2 * j + 1) * ys + 2 * i + 1)) (u ! nat (j * us + i)) (v ! nat (j * vs + i))
        (A (2 * j + 1) (2 * i)) (A (2 * j + 1) (2 * i + 1))"
      by (rule frame_shows2 [OF ji(3) fr(5)]; simp add: px420_def q add.assoc)+
    then show "\<exists>a1 a2 a3 a4. alpha j i = Some (a1, a2, a3, a4) \<and>
      byte_at y (2 * j * ys + 2 * i) \<and> byte_at y (2 * j * ys + 2 * i + 1) \<and> byte_at y (2 * j * ys + ys + 2 * i) \<and>
      byte_at y (2 * j * ys + ys + 2 * i + 1) \<and> byte_at u (j * us + i) \<and> byte_at v (j * vs + i) \<and>
      0 \<le> 2 * j * bs + 8 * i \<and> 2 * j * bs + 8 * i + 8 \<le> int (length d) \<and>
      0 \<le> 2 * j * bs + bs + 8 * i \<and> 2 * j * bs + bs + 8 * i + 8 \<le> int (length d) \<and>
      shows2 ?f (2 * j * bs + 8 * i) (y ! nat (2 * j * ys + 2 * i)) (y ! nat (2 * j * ys + 2 * i + 1)) (u ! nat (j * us + i)) (v ! nat (j * vs + i)) a1 a2 \<and>
      shows2 ?f (2 * j * bs + bs + 8 * i) (y ! nat (2 * j * ys + ys + 2 * i)) (y ! nat (2 * j * ys + ys + 2 * i + 1)) (u ! nat (j * us + i)) (v ! nat (j * vs + i)) a3 a4"
      using al [OF ji] by0 fr unfolding r by blast
  qed (use wh i32s in \<open>simp_all add: drop_bit_eq_div\<close>)
  moreover have "0 < bs" "8 * W \<le> bs" using frame wh by (simp_all add: frame_ok_def)
  ultimately show ?thesis using pair_px_frame [of W bs H] wh by simp
qed

text \<open>
  C18: Converting a planar frame of even width and height returns success and turns exactly the frame into
  pixels: every byte is the blue, green, red or alpha of its pixel, computed from the pixel's luma and the
  chroma it shares with its three neighbours, halved and saturated; all bytes between the rows keep their
  values. Without an alpha plane the pixels are opaque. The tables and planes are never read outside.
\<close>

theorem ColorConvert_YCbCr420p_correct:
  assumes "0 < W" "0 < H" "plane_ok y ys (2 * W) (2 * H)" "plane_ok v vs W H" "plane_ok u us W H"
    and "plane_ok a as (2 * W) (2 * H)" "frame_ok d bs (2 * W) (2 * H)"
  shows "(\<exists>d'. ColorConvert_YCbCr420p_to_BGRA32 (Some d) bs (2 * W) (2 * H) (Some y) (Some v) (Some u) a ys vs us as = Some (0, Some d') \<and>
      length d' = length d \<and>
      (\<forall>p < length d. d' ! p = (if int p div bs < 2 * H \<and> int p mod bs < 8 * W
         then frame_byte bs (px420 y v u ys vs us (\<lambda>r c. a ! nat (r * as + c))) (int p) else d ! p))) \<and>
    (\<exists>d'. ColorConvert_YCbCr420p_to_BGRA32_no_alpha (Some d) bs (2 * W) (2 * H) (Some y) (Some v) (Some u) ys vs us = Some (0, Some d') \<and>
      length d' = length d \<and>
      (\<forall>p < length d. d' ! p = (if int p div bs < 2 * H \<and> int p mod bs < 8 * W
         then frame_byte bs (px420 y v u ys vs us (\<lambda>r c. 255)) (int p) else d ! p)))"
proof -
  let ?alpha = "\<lambda>j i. do {
      a1 \<leftarrow> rd a (j * i32 (push_bit 1 as) + 2 * i); a2 \<leftarrow> rd a (j * i32 (push_bit 1 as) + 2 * i + 1);
      a3 \<leftarrow> rd a (as + j * i32 (push_bit 1 as) + 2 * i); a4 \<leftarrow> rd a (as + j * i32 (push_bit 1 as) + 2 * i + 1);
      Some (a1, a2, a3, a4) }"
  let ?A = "\<lambda>r c. a ! nat (r * as + c)"
  have s: "i32 (push_bit 1 as) = 2 * as" using assms(6) by (simp add: plane_ok_def push_bit_eq_mult i32_small)
  have al: "?alpha j i = Some (?A (2 * j) (2 * i), ?A (2 * j) (2 * i + 1), ?A (2 * j + 1) (2 * i), ?A (2 * j + 1) (2 * i + 1))"
    if ji: "0 \<le> j" "j < H" "0 \<le> i" "i < W" for j i
  proof -
    have r: "j * (2 * as) = 2 * j * as" "as + 2 * j * as = (2 * j + 1) * as" by (simp_all add: algebra_simps)
    have b: "byte_at a (2 * j * as + 2 * i)" "byte_at a (2 * j * as + (2 * i + 1))" "byte_at a ((2 * j + 1) * as + 2 * i)"
      "byte_at a ((2 * j + 1) * as + (2 * i + 1))"
      using ji by (auto intro!: plane_byte [OF assms(6)])
    show ?thesis unfolding s r add.assoc [of _ "2 * i" 1] by (simp only: rd_byte [OF b(1)] rd_byte [OF b(2)] rd_byte [OF b(3)] rd_byte [OF b(4)] bind.bind_lunit)
  qed
  have fr: "int p \<in> frame_px bs (2 * W) (2 * H) \<longleftrightarrow> int p div bs < 2 * H \<and> int p mod bs < 8 * W" for p by (simp add: frame_px_def)
  show ?thesis
    using convert420_frame [OF assms(1-5,7), where alpha = ?alpha and A = ?A, OF al]
      convert420_frame [OF assms(1-5,7), where alpha = "\<lambda>j i. Some (255, 255, 255, 255)" and A = "\<lambda>r c. 255"] assms(1,2)
    by (simp add: ColorConvert_YCbCr420p_to_BGRA32_def ColorConvert_YCbCr420p_to_BGRA32_no_alpha_def nth_patch fr even_or_iff del: rd_Some)
qed


text \<open>A frame of two by two pixels, grey and saturated, in rows of ten bytes.\<close>

theorem ColorConvert_YCbCr420p_correct_witness:
  "\<exists>d'. ColorConvert_YCbCr420p_to_BGRA32 (Some (replicate 20 7)) 10 2 2 (Some [16, 235, 0, 255]) (Some [128]) (Some [128])
       [255, 128, 64, 0] 2 1 1 2 = Some (0, Some d') \<and> length d' = 20 \<and> d' ! 7 = 128 \<and> d' ! 8 = 7"
proof -
  have "plane_ok [16, 235, 0, 255] 2 2 2" "plane_ok [128] 1 1 1" "plane_ok [255, 128, 64, 0] 2 2 2" "frame_ok (replicate 20 7) 10 2 2"
    by (simp_all add: plane_ok_def frame_ok_def)
  then show ?thesis
    using ColorConvert_YCbCr420p_correct [of 1 1 "[16, 235, 0, 255]" 2 "[128]" 1 "[128]" 1 "[255, 128, 64, 0]" 2 "replicate 20 7" 10]
    by (auto simp: frame_byte_def px420_def yuv_byte_def)
qed


section \<open>The packed format\<close>

lemma block422_eq:
  assumes bytes: "byte_at y s1" "byte_at y (s1 + 2)" "byte_at u su" "byte_at v sv"
    and dst: "0 \<le> d1" "d1 + 8 \<le> int (length xs)"
    and f: "shows2 f d1 (y ! nat s1) (y ! nat (s1 + 2)) (u ! nat su) (v ! nat sv) 255 255"
  shows "block422 y v u s1 su sv d1 (patch f S xs) = Some (patch f (two_px d1 \<union> S) xs)"
proof -
  have r: "rd y s1 = Some (y ! nat s1)" "rd y (s1 + 2) = Some (y ! nat (s1 + 2))" "rd u su = Some (u ! nat su)" "rd v sv = Some (v ! nat sv)"
    using bytes by (simp_all only: rd_byte)
  have b: "0 \<le> y ! nat s1" "y ! nat s1 \<le> 255" "0 \<le> y ! nat (s1 + 2)" "y ! nat (s1 + 2) \<le> 255"
    "0 \<le> u ! nat su" "u ! nat su \<le> 255" "0 \<le> v ! nat sv" "v ! nat sv \<le> 255"
    using bytes by (simp_all add: byte_at_def)
  note s = shows2_bytes [OF f]
  note c = clamps [OF b(1,2,5-8), of 255, unfolded s(1-3)] clamps [OF b(3,4,5-8), of 255, unfolded s(5-7)]
  note t = rd_tables [OF b(1,2)] rd_tables [OF b(3,4)] rd_tables [OF b(5,6)] rd_tables [OF b(7,8)]
  have S: "insert (d1 + 3) (insert (d1 + 7) (insert (d1 + 4) (insert (d1 + 5) (insert (d1 + 6) (insert d1
      (insert (d1 + 1) (insert (d1 + 2) S))))))) = two_px d1 \<union> S"
    by (auto simp: two_px_def)
  show ?thesis
    unfolding block422_def S [symmetric] using dst s(4,8) by (simp add: r t c wr_patch del: rd_Some wr_Some)
qed

definition px422 :: "int list \<Rightarrow> int list \<Rightarrow> int list \<Rightarrow> int \<Rightarrow> int \<Rightarrow> int \<Rightarrow> int \<Rightarrow> int \<times> int \<times> int \<times> int" where
  "px422 y v u ys uvs r c = (y ! nat (r * ys + 2 * c), u ! nat (r * uvs + 4 * (c div 2)), v ! nat (r * uvs + 4 * (c div 2)), 255)"

lemma convert422_frame:
  assumes wh: "0 < W" "0 < H" and planes: "plane_ok y ys (4 * W - 1) H" "plane_ok v uvs (4 * W - 3) H" "plane_ok u uvs (4 * W - 3) H"
    and frame: "frame_ok d bs (2 * W) H"
  shows "\<exists>l. for_loop H (\<lambda>j (bgra, sly1, slu, slv, dl1). do {
       bgra \<leftarrow> for_loop W (\<lambda>i bgra. block422 y v u (sly1 + 4 * i) (slu + 4 * i) (slv + 4 * i) (dl1 + 8 * i) bgra) bgra;
       Some (bgra, sly1 + ys, slu + uvs, slv + uvs, dl1 + bs)
     }) (d, 0, 0, 0, 0) = Some (patch (frame_byte bs (px422 y v u ys uvs)) (frame_px bs (2 * W) H) d, l)"
proof -
  let ?f = "frame_byte bs (px422 y v u ys uvs)" and ?row = "\<lambda>r n. \<Union>i \<in> {0..<n}. two_px (r * bs + 8 * i)"
  let ?body = "\<lambda>j (bgra, sly1, slu, slv, dl1). do {
       bgra \<leftarrow> for_loop W (\<lambda>i bgra. block422 y v u (sly1 + 4 * i) (slu + 4 * i) (slv + 4 * i) (dl1 + 8 * i) bgra) bgra;
       Some (bgra, sly1 + ys, slu + uvs, slv + uvs, dl1 + bs)
     }"
  let ?P = "\<lambda>j t. t = (patch ?f (\<Union>r \<in> {0..<j}. ?row r W) d, j * ys, j * uvs, j * uvs, j * bs)"
  have "\<exists>t. for_loop H ?body (d, 0, 0, 0, 0) = Some t \<and> ?P H t"
  proof (rule for_loop_inv [where P = ?P])
    fix j t assume j: "0 \<le> j" "j < H" "?P j t"
    define S where "S = (\<Union>r \<in> {0..<j}. ?row r W)"
    let ?g = "\<lambda>i bgra. block422 y v u (j * ys + 4 * i) (j * uvs + 4 * i) (j * uvs + 4 * i) (j * bs + 8 * i) bgra"
    have "\<exists>s. for_loop W ?g (patch ?f S d) = Some s \<and> s = patch ?f (?row j W \<union> S) d"
    proof (rule for_loop_inv [where P = "\<lambda>i s. s = patch ?f (?row j i \<union> S) d"])
      fix i s assume i: "0 \<le> i" "i < W" "s = patch ?f (?row j i \<union> S) d"
      have b: "byte_at y (j * ys + 4 * i)" "byte_at y (j * ys + 4 * i + 2)" "byte_at u (j * uvs + 4 * i)" "byte_at v (j * uvs + 4 * i)"
        using j i plane_byte [OF planes(1), of j "4 * i"] plane_byte [OF planes(1), of j "4 * i + 2"]
          plane_byte [OF planes(3), of j "4 * i"] plane_byte [OF planes(2), of j "4 * i"] by (simp_all add: add.assoc)
      have q: "(2 * i + 1) div 2 = i" "8 * i + 8 \<le> 4 * (2 * W)" using i(2) by simp_all
      note fr = frame_row [OF frame j(1,2) i(1) q(2)]
      have "shows2 ?f (j * bs + 8 * i) (y ! nat (j * ys + 4 * i)) (y ! nat (j * ys + 4 * i + 2)) (u ! nat (j * uvs + 4 * i)) (v ! nat (j * uvs + 4 * i)) 255 255"
        by (rule frame_shows2 [OF i(1) fr(3)]; simp add: px422_def q add.assoc)
      then have "?g i s = Some (patch ?f (two_px (j * bs + 8 * i) \<union> (?row j i \<union> S)) d)"
        using b fr(1,2) i(3) by (simp add: block422_eq)
      then show "\<exists>s'. ?g i s = Some s' \<and> s' = patch ?f (?row j (i + 1) \<union> S) d" using i(1) by (simp add: upto_insert Un_assoc)
    qed (use wh in simp_all)
    moreover have "(\<Union>r \<in> {0..<j + 1}. ?row r W) = ?row j W \<union> S" using j(1) by (simp add: S_def upto_insert)
    ultimately show "\<exists>t'. ?body j t = Some t' \<and> ?P (j + 1) t'"
      using j(3) by (simp add: S_def [symmetric] distrib_right)
  qed (use wh in simp_all)
  moreover have "0 < bs" "8 * W \<le> bs" using frame wh by (simp_all add: frame_ok_def)
  ultimately show ?thesis using frame_px_rows [of W bs H] wh by simp
qed

text \<open>
  C19: Converting a packed frame of even width and any height returns success and turns exactly the frame into
  opaque pixels, with a luma byte for each pixel and chroma shared by two.
\<close>

theorem ColorConvert_YCbCr422p_correct:
  assumes "0 < W" "0 < H" "plane_ok y ys (4 * W - 1) H" "plane_ok v uvs (4 * W - 3) H" "plane_ok u uvs (4 * W - 3) H" "frame_ok d bs (2 * W) H"
  shows "\<exists>d'. ColorConvert_YCbCr422p_to_BGRA32_no_alpha (Some d) bs (2 * W) H (Some y) (Some v) (Some u) ys uvs = Some (0, Some d') \<and>
    length d' = length d \<and>
    (\<forall>p < length d. d' ! p = (if int p div bs < H \<and> int p mod bs < 8 * W then frame_byte bs (px422 y v u ys uvs) (int p) else d ! p))"
proof -
  have fr: "int p \<in> frame_px bs (2 * W) H \<longleftrightarrow> int p div bs < H \<and> int p mod bs < 8 * W" for p by (simp add: frame_px_def)
  have w: "drop_bit 1 (2 * W) = W" by (simp add: drop_bit_eq_div)
  show ?thesis
    using convert422_frame [OF assms] assms(1,2)
    by (auto simp: ColorConvert_YCbCr422p_to_BGRA32_no_alpha_def w nth_patch fr simp del: One_nat_def)
qed

theorem ColorConvert_YCbCr422p_correct_witness:
  "\<exists>d'. ColorConvert_YCbCr422p_to_BGRA32_no_alpha (Some (replicate 10 7)) 10 2 1 (Some [16, 128, 235]) (Some [128]) (Some [128]) 4 4 =
      Some (0, Some d') \<and> length d' = 10 \<and> d' ! 3 = 255 \<and> d' ! 8 = 7"
proof -
  have "plane_ok [16, 128, 235] 4 3 1" "plane_ok [128] 4 1 1" "frame_ok (replicate 10 7) 10 2 1" by (simp_all add: plane_ok_def frame_ok_def)
  then show ?thesis
    using ColorConvert_YCbCr422p_correct [of 1 1 "[16, 128, 235]" 4 "[128]" 4 "[128]" "replicate 10 7" 10]
    by (auto simp: frame_byte_def px422_def yuv_byte_def)
qed

end
