(* ===== verification/Prism_Path.thy ===== *)
theory Prism_Path
  imports Soft_Float
begin

text \<open>
  Paths on their way to the rasteriser of \<^verbatim>\<open>native-prism\<close>. A \<^verbatim>\<open>PathConsumer\<close> is a table of six functions; a call
  through it is a value of \<open>path_op\<close>, and a consumer is a function from such a value and its state to the
  next state. \<^verbatim>\<open>Transformer.c\<close> passes each call on with other coordinates, so it is a function on \<open>path_op\<close>.
  \<^verbatim>\<open>Curve.c\<close> turns control points into the coefficients of polynomials.
\<close>

section \<open>Calls to a consumer\<close>

datatype path_op =
    MoveTo jfloat jfloat
  | LineTo jfloat jfloat
  | QuadTo jfloat jfloat jfloat jfloat
  | CurveTo jfloat jfloat jfloat jfloat jfloat jfloat
  | ClosePath
  | PathDone

text \<open>The same coordinate map at every point of a call.\<close>

fun map_points :: "(jfloat \<Rightarrow> jfloat \<Rightarrow> jfloat \<times> jfloat) \<Rightarrow> path_op \<Rightarrow> path_op" where
  "map_points f (MoveTo x0 y0) = (case f x0 y0 of (x0, y0) \<Rightarrow> MoveTo x0 y0)"
| "map_points f (LineTo x1 y1) = (case f x1 y1 of (x1, y1) \<Rightarrow> LineTo x1 y1)"
| "map_points f (QuadTo xc yc x1 y1) =
     (case f xc yc of (xc, yc) \<Rightarrow> case f x1 y1 of (x1, y1) \<Rightarrow> QuadTo xc yc x1 y1)"
| "map_points f (CurveTo xc0 yc0 xc1 yc1 x1 y1) =
     (case f xc0 yc0 of (xc0, yc0) \<Rightarrow> case f xc1 yc1 of (xc1, yc1) \<Rightarrow> case f x1 y1 of (x1, y1) \<Rightarrow>
        CurveTo xc0 yc0 xc1 yc1 x1 y1)"
| "map_points f ClosePath = ClosePath"
| "map_points f PathDone = PathDone"

text \<open>A list of calls in turn, and a consumer that passes calls on: \<open>calls\<close> lists what it called so far.\<close>

fun runs :: "('p \<Rightarrow> 'a \<Rightarrow> 'a option) \<Rightarrow> 'p list \<Rightarrow> 'a \<Rightarrow> 'a option" where
  "runs f [] a = Some a"
| "runs f (p # ps) a = Option.bind (f p a) (runs f ps)"

lemma runs_append: "runs f (ps @ qs) a = Option.bind (runs f ps a) (runs f qs)"
  by (induction ps arbitrary: a) (auto split: bind_splits)

lemma runs_map: "runs (\<lambda>p. f (h p)) ps a = runs f (map h ps) a"
  by (induction ps arbitrary: a) (auto intro!: Option.bind_cong)

definition through ::
    "('p \<Rightarrow> 's \<Rightarrow> 's option) \<Rightarrow> ('s \<Rightarrow> 'q list) \<Rightarrow> ('q \<Rightarrow> 'o \<Rightarrow> 'o option) \<Rightarrow> 'p \<Rightarrow> 's \<times> 'o \<Rightarrow> ('s \<times> 'o) option" where
  "through step calls out p so = do {
     s \<leftarrow> step p (fst so);
     t \<leftarrow> runs out (drop (length (calls (fst so))) (calls s)) (snd so);
     Some (s, t)
   }"

section \<open>Transformers\<close>

type_synonym jdouble = fp

record transformer =
  t_mxx :: jdouble
  t_mxy :: jdouble
  t_mxt :: jdouble
  t_myx :: jdouble
  t_myy :: jdouble
  t_myt :: jdouble

text \<open>The tables \<^verbatim>\<open>TX_Init\<close> can install; \<open>Untransformed\<close> is the case that returns \<^verbatim>\<open>out\<close> itself.\<close>

datatype tx_type = Untransformed | Translate | DeltaScale | ScaleTranslate | DeltaTransform | Transform

text \<open>
  The coordinates are \<^verbatim>\<open>jfloat\<close>, the matrix is \<^verbatim>\<open>jdouble\<close>: the arithmetic is that of doubles and the results are
  rounded to \<^verbatim>\<open>jfloat\<close>.
\<close>

abbreviation (input) dadd :: "jdouble \<Rightarrow> jdouble \<Rightarrow> jdouble" where "dadd \<equiv> fp_add F64"
abbreviation (input) dmul :: "jdouble \<Rightarrow> jdouble \<Rightarrow> jdouble" where "dmul \<equiv> fp_mul F64"
abbreviation (input) tofloat :: "jdouble \<Rightarrow> jfloat" where "tofloat \<equiv> fp_convert F32"

definition Translate_point :: "transformer \<Rightarrow> jfloat \<Rightarrow> jfloat \<Rightarrow> jfloat \<times> jfloat" where
  "Translate_point this x y = (tofloat (dadd x (t_mxt this)), tofloat (dadd y (t_myt this)))"

definition DeltaScale_point :: "transformer \<Rightarrow> jfloat \<Rightarrow> jfloat \<Rightarrow> jfloat \<times> jfloat" where
  "DeltaScale_point this x y = (tofloat (dmul x (t_mxx this)), tofloat (dmul y (t_myy this)))"

definition DeltaTransform_point :: "transformer \<Rightarrow> jfloat \<Rightarrow> jfloat \<Rightarrow> jfloat \<times> jfloat" where
  "DeltaTransform_point this x y =
     (tofloat (dadd (dmul x (t_mxx this)) (dmul y (t_mxy this))),
      tofloat (dadd (dmul x (t_myx this)) (dmul y (t_myy this))))"

definition ScaleTranslate_point :: "transformer \<Rightarrow> jfloat \<Rightarrow> jfloat \<Rightarrow> jfloat \<times> jfloat" where
  "ScaleTranslate_point this x y =
     (tofloat (dadd (dmul x (t_mxx this)) (t_mxt this)),
      tofloat (dadd (dmul y (t_myy this)) (t_myt this)))"

definition Transform_point :: "transformer \<Rightarrow> jfloat \<Rightarrow> jfloat \<Rightarrow> jfloat \<times> jfloat" where
  "Transform_point this x y =
     (tofloat (dadd (dadd (dmul x (t_mxx this)) (dmul y (t_mxy this))) (t_mxt this)),
      tofloat (dadd (dadd (dmul x (t_myx this)) (dmul y (t_myy this))) (t_myt this)))"

definition Transformer_init :: "transformer \<Rightarrow> tx_type" where
  "Transformer_init m =
     (let zero = fp_zero F64 False; one = fp_of_int F64 1
      in if fp_eq (t_mxy m) zero \<and> fp_eq (t_myx m) zero then
           (if fp_eq (t_mxx m) one \<and> fp_eq (t_myy m) one then
              (if fp_eq (t_mxt m) zero \<and> fp_eq (t_myt m) zero then Untransformed else Translate)
            else
              (if fp_eq (t_mxt m) zero \<and> fp_eq (t_myt m) zero then DeltaScale else ScaleTranslate))
         else if fp_eq (t_mxt m) zero \<and> fp_eq (t_myt m) zero then DeltaTransform
         else Transform)"

text \<open>What reaches \<^verbatim>\<open>out\<close> when a call is made to the consumer that \<^verbatim>\<open>Transformer_init\<close> returned.\<close>

fun transformed :: "tx_type \<Rightarrow> transformer \<Rightarrow> path_op \<Rightarrow> path_op" where
  "transformed Untransformed this p = p"
| "transformed Translate this p = map_points (Translate_point this) p"
| "transformed DeltaScale this p = map_points (DeltaScale_point this) p"
| "transformed ScaleTranslate this p = map_points (ScaleTranslate_point this) p"
| "transformed DeltaTransform this p = map_points (DeltaTransform_point this) p"
| "transformed Transform this p = map_points (Transform_point this) p"

section \<open>Curves\<close>

record curve =
  cv_ax :: jfloat
  cv_ay :: jfloat
  cv_bx :: jfloat
  cv_by :: jfloat
  cv_cx :: jfloat
  cv_cy :: jfloat
  cv_dx :: jfloat
  cv_dy :: jfloat
  cv_dax :: jfloat
  cv_day :: jfloat
  cv_dbx :: jfloat
  cv_dby :: jfloat

definition Curve_setcubic ::
    "jfloat \<Rightarrow> jfloat \<Rightarrow> jfloat \<Rightarrow> jfloat \<Rightarrow> jfloat \<Rightarrow> jfloat \<Rightarrow> jfloat \<Rightarrow> jfloat \<Rightarrow> curve" where
  "Curve_setcubic x1 y1 x2 y2 x3 y3 x4 y4 =
     (let three = fint 3; two = fint 2;
          ax = fsub (fadd (fmul three (fsub x2 x3)) x4) x1;
          ay = fsub (fadd (fmul three (fsub y2 y3)) y4) y1;
          bx = fmul three (fadd (fsub x1 (fmul two x2)) x3);
          by = fmul three (fadd (fsub y1 (fmul two y2)) y3)
      in \<lparr>cv_ax = ax, cv_ay = ay, cv_bx = bx, cv_by = by,
          cv_cx = fmul three (fsub x2 x1), cv_cy = fmul three (fsub y2 y1), cv_dx = x1, cv_dy = y1,
          cv_dax = fmul three ax, cv_day = fmul three ay, cv_dbx = fmul two bx, cv_dby = fmul two by\<rparr>)"

definition Curve_setquad :: "jfloat \<Rightarrow> jfloat \<Rightarrow> jfloat \<Rightarrow> jfloat \<Rightarrow> jfloat \<Rightarrow> jfloat \<Rightarrow> curve" where
  "Curve_setquad x1 y1 x2 y2 x3 y3 =
     (let two = fint 2;
          bx = fadd (fsub x1 (fmul two x2)) x3;
          by = fadd (fsub y1 (fmul two y2)) y3
      in \<lparr>cv_ax = fint 0, cv_ay = fint 0, cv_bx = bx, cv_by = by,
          cv_cx = fmul two (fsub x2 x1), cv_cy = fmul two (fsub y2 y1), cv_dx = x1, cv_dy = y1,
          cv_dax = fint 0, cv_day = fint 0, cv_dbx = fmul two bx, cv_dby = fmul two by\<rparr>)"

end
