(* ===== verification/Prism_Renderer.thy ===== *)
theory Prism_Renderer
  imports Prism_Path
begin

text \<open>
  The scan converter \<^verbatim>\<open>native-prism/Renderer.c\<close>. Lines of a path become edges, five floats each in one array,
  chained from a bucket per sample row; curves are flattened into lines first. \<^verbatim>\<open>Renderer_produceAlphas\<close> walks
  the sample rows with the edges that cross them, adds up the covered samples of each pixel and turns them
  into bytes of the mask.

  \<open>alloc\<close> decides whether \<^verbatim>\<open>calloc\<close> of that many elements succeeds. An allocation that fails yields the null
  pointer, which the code never looks at before it uses it.
\<close>

section \<open>State\<close>

abbreviation (input) YMAX :: int where "YMAX \<equiv> 0"
abbreviation (input) CURX :: int where "CURX \<equiv> 1"
abbreviation (input) ORIENT :: int where "ORIENT \<equiv> 2"
abbreviation (input) SLOPE :: int where "SLOPE \<equiv> 3"
abbreviation (input) NEXT :: int where "NEXT \<equiv> 4"
abbreviation (input) SIZEOF_EDGE :: int where "SIZEOF_EDGE \<equiv> 5"
abbreviation (input) INIT_CROSSINGS_SIZE :: int where "INIT_CROSSINGS_SIZE \<equiv> 10"
abbreviation (input) WIND_EVEN_ODD :: jint where "WIND_EVEN_ODD \<equiv> 0"
abbreviation (input) WIND_NON_ZERO :: jint where "WIND_NON_ZERO \<equiv> 1"

definition fhalf :: jfloat where
  "fhalf = fp_literal F32 5 1"

definition BIGGEST_FLOAT :: jfloat where
  "BIGGEST_FLOAT = Fin False (2 ^ 24 - 1) 104"

definition new_int :: "(int \<Rightarrow> bool) \<Rightarrow> int \<Rightarrow> jint list" where
  "new_int alloc s = (if 0 \<le> s \<and> alloc s then replicate (nat s) 0 else [])"

definition new_float :: "(int \<Rightarrow> bool) \<Rightarrow> int \<Rightarrow> jfloat list" where
  "new_float alloc s = (if 0 \<le> s \<and> alloc s then replicate (nat s) (fint 0) else [])"

definition System_arraycopy :: "'a list \<Rightarrow> int \<Rightarrow> 'a list \<Rightarrow> int \<Rightarrow> int \<Rightarrow> 'a list option" where
  "System_arraycopy arr1 off1 arr2 off2 n =
     for_loop n (\<lambda>i arr2. do { v \<leftarrow> rd arr1 (off1 + i); wr arr2 (off2 + i) v }) arr2"

definition Arrays_fill :: "'a list \<Rightarrow> int \<Rightarrow> int \<Rightarrow> 'a \<Rightarrow> 'a list option" where
  "Arrays_fill arr from to v = for_loop (to - from) (\<lambda>i arr. wr arr (from + i) v) arr"

text \<open>The static variables of the file; a null map is the empty list.\<close>

record raster_globals =
  SUBPIXEL_LG_POSITIONS_X :: jint
  SUBPIXEL_LG_POSITIONS_Y :: jint
  SUBPIXEL_POSITIONS_X :: jint
  SUBPIXEL_POSITIONS_Y :: jint
  SUBPIXEL_MASK_X :: jint
  SUBPIXEL_MASK_Y :: jint
  alphaMap :: "jbyte list"
  alphaMax :: jint
  altAlphaMap :: "jbyte list"
  altAlphaMax :: jint

record prism_renderer =
  sampleRowMin :: jint
  sampleRowMax :: jint
  edgeMinX :: jfloat
  edgeMaxX :: jfloat
  edges :: "jfloat list"
  edgesSIZE :: jint
  edgeBuckets :: "jint list"
  edgeBucketsSIZE :: jint
  numEdges :: jint
  boundsMinX :: jint
  boundsMinY :: jint
  boundsMaxX :: jint
  boundsMaxY :: jint
  windingRule :: jint
  cur_x0 :: jfloat
  cur_y0 :: jfloat
  pix_sx0 :: jfloat
  pix_sy0 :: jfloat
  cur_c :: curve

record scanline_iterator =
  crossings :: "jint list"
  crossingsSIZE :: jint
  edgePtrs :: "jint list"
  edgePtrsSIZE :: jint
  edgeCount :: jint
  nextY :: jint

record alpha_consumer =
  originX :: jint
  originY :: jint
  ac_width :: jint
  ac_height :: jint
  alphas :: "jbyte list"

section \<open>The alpha maps\<close>

text \<open>\<^verbatim>\<open>(jbyte)\<close> keeps eight bits with their sign.\<close>

definition i8 :: "int \<Rightarrow> jbyte" where
  "i8 x = signed_take_bit 7 x"

text \<open>\<open>alloc\<close> is asked for the bytes of the new map; the loop stores through the pointer it returned.\<close>

definition fillAlphaMap :: "(int \<Rightarrow> bool) \<Rightarrow> jint \<Rightarrow> jbyte list option" where
  "fillAlphaMap alloc maxalpha =
     for_loop (maxalpha + 1) (\<lambda>i m. do {
       h \<leftarrow> c_div maxalpha 2;
       q \<leftarrow> c_div (i32 (i * 255 + h)) maxalpha;
       wr m i (i8 q)
     }) (new_int alloc (maxalpha + 1))"

definition setMaxAlpha :: "(int \<Rightarrow> bool) \<Rightarrow> jint \<Rightarrow> raster_globals \<Rightarrow> raster_globals option" where
  "setMaxAlpha alloc maxalpha g =
     (let fresh = (\<lambda>g. do {
            m \<leftarrow> fillAlphaMap alloc maxalpha;
            Some (g\<lparr>alphaMap := m, alphaMax := maxalpha\<rparr>)
          })
      in if alphaMap g \<noteq> [] then
           (if maxalpha = alphaMax g then Some g
            else
              (let altMap = altAlphaMap g; altMax = altAlphaMax g;
                   g = g\<lparr>altAlphaMap := alphaMap g, altAlphaMax := alphaMax g\<rparr>
               in if altMap \<noteq> [] \<and> maxalpha = altMax then Some (g\<lparr>alphaMap := altMap, alphaMax := altMax\<rparr>)
                  else fresh g))
         else fresh g)"

text \<open>A shift by more than the width of the operand, or by a negative amount, has no defined result.\<close>

definition Renderer_setup :: "(int \<Rightarrow> bool) \<Rightarrow> jint \<Rightarrow> jint \<Rightarrow> raster_globals \<Rightarrow> raster_globals option" where
  "Renderer_setup alloc lgx lgy g =
     (if 0 \<le> lgx \<and> lgx < 32 \<and> 0 \<le> lgy \<and> lgy < 32 then
        (let px = i32 (2 ^ nat lgx); py = i32 (2 ^ nat lgy)
         in setMaxAlpha alloc (i32 (px * py))
              (g\<lparr>SUBPIXEL_LG_POSITIONS_X := lgx, SUBPIXEL_LG_POSITIONS_Y := lgy,
                 SUBPIXEL_POSITIONS_X := px, SUBPIXEL_POSITIONS_Y := py,
                 SUBPIXEL_MASK_X := i32 (px - 1), SUBPIXEL_MASK_Y := i32 (py - 1)\<rparr>))
      else None)"

section \<open>The edge list\<close>

text \<open>\<^verbatim>\<open>(jint) ceil(v - 0.5f)\<close>: the first sample at or after \<open>v\<close>.\<close>

definition sample_ceil :: "jfloat \<Rightarrow> jint" where
  "sample_ceil v = fp_to_jint (fp_ceil (fsub v fhalf))"

definition addEdgeToBucket :: "jint \<Rightarrow> jint \<Rightarrow> prism_renderer \<Rightarrow> prism_renderer option" where
  "addEdgeToBucket eptr bucket this = do {
     h \<leftarrow> rd (edgeBuckets this) (i32 (bucket * 2));
     es \<leftarrow> wr (edges this) (i32 (eptr + NEXT)) (fint h);
     bs \<leftarrow> wr (edgeBuckets this) (i32 (bucket * 2)) (i32 (eptr + 1));
     n \<leftarrow> rd bs (i32 (bucket * 2 + 1));
     bs \<leftarrow> wr bs (i32 (bucket * 2 + 1)) (i32 (n + 2));
     Some (this\<lparr>edges := es, edgeBuckets := bs\<rparr>)
   }"

definition growEdges :: "(int \<Rightarrow> bool) \<Rightarrow> jint \<Rightarrow> prism_renderer \<Rightarrow> prism_renderer option" where
  "growEdges alloc ptr this =
     (if edgesSIZE this < i32 (ptr + SIZEOF_EDGE) then do {
        let newSize = i32 ((ptr + SIZEOF_EDGE) * 2);
        newEdges \<leftarrow> System_arraycopy (edges this) 0 (new_float alloc newSize) 0 ptr;
        Some (this\<lparr>edges := newEdges, edgesSIZE := newSize\<rparr>)
      }
      else Some this)"

text \<open>The part of \<^verbatim>\<open>addLine\<close> after the early return, for a line that goes down.\<close>

definition storeEdge ::
    "(int \<Rightarrow> bool) \<Rightarrow> jint \<Rightarrow> jfloat \<Rightarrow> jfloat \<Rightarrow> jfloat \<Rightarrow> jint \<Rightarrow> jint \<Rightarrow> prism_renderer \<Rightarrow> prism_renderer option" where
  "storeEdge alloc orient x1 y1 slope firstCrossing lastCrossing this = do {
     let ptr = i32 (numEdges this * SIZEOF_EDGE);
     this \<leftarrow> growEdges alloc ptr this;
     let this = this\<lparr>numEdges := i32 (numEdges this + 1)\<rparr>;
     es \<leftarrow> wr (edges this) (i32 (ptr + ORIENT)) (fint orient);
     es \<leftarrow> wr es (i32 (ptr + CURX)) (fadd x1 (fmul (fsub (fadd (fint firstCrossing) fhalf) y1) slope));
     es \<leftarrow> wr es (i32 (ptr + SLOPE)) slope;
     es \<leftarrow> wr es (i32 (ptr + YMAX)) (fint lastCrossing);
     this \<leftarrow> addEdgeToBucket ptr (i32 (firstCrossing - boundsMinY this)) (this\<lparr>edges := es\<rparr>);
     n \<leftarrow> rd (edgeBuckets this) (i32 ((lastCrossing - boundsMinY this) * 2 + 1));
     bs \<leftarrow> wr (edgeBuckets this) (i32 ((lastCrossing - boundsMinY this) * 2 + 1)) (n OR 1);
     Some (this\<lparr>edgeBuckets := bs\<rparr>)
   }"

definition addLine ::
    "(int \<Rightarrow> bool) \<Rightarrow> jfloat \<Rightarrow> jfloat \<Rightarrow> jfloat \<Rightarrow> jfloat \<Rightarrow> prism_renderer \<Rightarrow> prism_renderer option" where
  "addLine alloc x1 y1 x2 y2 this =
     (let (x1, y1, x2, y2, orient) = (if fp_less y2 y1 then (x2, y2, x1, y1, 0) else (x1, y1, x2, y2, 1));
          firstCrossing = max (sample_ceil y1) (boundsMinY this);
          lastCrossing = min (sample_ceil y2) (boundsMaxY this)
      in if lastCrossing \<le> firstCrossing then Some this
         else
           (let this = this\<lparr>sampleRowMin := min firstCrossing (sampleRowMin this),
                           sampleRowMax := max lastCrossing (sampleRowMax this)\<rparr>;
                slope = fdiv (fsub x2 x1) (fsub y2 y1);
                (lowx, highx) = (if fp_less (fint 0) slope then (x1, x2) else (x2, x1));
                this = (if fp_less lowx (edgeMinX this) then this\<lparr>edgeMinX := lowx\<rparr> else this);
                this = (if fp_less (edgeMaxX this) highx then this\<lparr>edgeMaxX := highx\<rparr> else this)
            in storeEdge alloc orient x1 y1 slope firstCrossing lastCrossing this))"

section \<open>Flattening\<close>

abbreviation (input) fmax :: "jfloat \<Rightarrow> jfloat \<Rightarrow> jfloat" where
  "fmax a b \<equiv> (if fp_less b a then a else b)"

text \<open>\<^verbatim>\<open>while (maxDD > QUAD_DEC_BND) { maxDD /= 4; count <<= 1; }\<close>\<close>

partial_function (option) quad_count :: "jfloat \<Rightarrow> jint \<Rightarrow> jint option" where
  "quad_count maxDD count =
     (if fp_less (fint 32) maxDD then quad_count (fdiv maxDD (fint 4)) (i32 (2 * count)) else Some count)"

definition quadBreakIntoLinesAndAdd ::
    "(int \<Rightarrow> bool) \<Rightarrow> jfloat \<Rightarrow> jfloat \<Rightarrow> curve \<Rightarrow> jfloat \<Rightarrow> jfloat \<Rightarrow> prism_renderer \<Rightarrow> prism_renderer option" where
  "quadBreakIntoLinesAndAdd alloc x0 y0 c x2 y2 this = do {
     let countsq = fint 256;
     count \<leftarrow> quad_count (fmax (fdiv (cv_dbx c) countsq) (fdiv (cv_dby c) countsq)) 16;
     let countsq = fint (i32 (count * count));
     let ddx = fdiv (cv_dbx c) countsq;
     let ddy = fdiv (cv_dby c) countsq;
     let dx = fadd (fdiv (cv_bx c) countsq) (fdiv (cv_cx c) (fint count));
     let dy = fadd (fdiv (cv_by c) countsq) (fdiv (cv_cy c) (fint count));
     (x0, y0, dx, dy, this) \<leftarrow> for_loop (count - 1) (\<lambda>i (x0, y0, dx, dy, this). do {
       let x1 = fadd x0 dx;
       let y1 = fadd y0 dy;
       this \<leftarrow> addLine alloc x0 y0 x1 y1 this;
       Some (x1, y1, fadd dx ddx, fadd dy ddy, this)
     }) (x0, y0, dx, dy, this);
     addLine alloc x0 y0 x2 y2 this
   }"

text \<open>The variables of adaptive forward differencing.\<close>

record afd =
  afd_count :: jint
  afd_dx :: jfloat
  afd_dy :: jfloat
  afd_ddx :: jfloat
  afd_ddy :: jfloat
  afd_dddx :: jfloat
  afd_dddy :: jfloat

abbreviation (input) DEC_BND :: jfloat where "DEC_BND \<equiv> fint 1"

definition INC_BND :: jfloat where
  "INC_BND = fp_literal F32 4 1"

definition halve_steps :: "afd \<Rightarrow> afd" where
  "halve_steps a =
     (let dddx = fdiv (afd_dddx a) (fint 8); dddy = fdiv (afd_dddy a) (fint 8);
          ddx = fsub (fdiv (afd_ddx a) (fint 4)) dddx; ddy = fsub (fdiv (afd_ddy a) (fint 4)) dddy
      in \<lparr>afd_count = i32 (2 * afd_count a),
          afd_dx = fdiv (fsub (afd_dx a) ddx) (fint 2), afd_dy = fdiv (fsub (afd_dy a) ddy) (fint 2),
          afd_ddx = ddx, afd_ddy = ddy, afd_dddx = dddx, afd_dddy = dddy\<rparr>)"

definition double_steps :: "afd \<Rightarrow> afd" where
  "double_steps a =
     \<lparr>afd_count = drop_bit 1 (afd_count a),
      afd_dx = fadd (fmul (fint 2) (afd_dx a)) (afd_ddx a),
      afd_dy = fadd (fmul (fint 2) (afd_dy a)) (afd_ddy a),
      afd_ddx = fmul (fint 4) (fadd (afd_ddx a) (afd_dddx a)),
      afd_ddy = fmul (fint 4) (fadd (afd_ddy a) (afd_dddy a)),
      afd_dddx = fmul (fint 8) (afd_dddx a), afd_dddy = fmul (fint 8) (afd_dddy a)\<rparr>"

partial_function (option) dec_loop :: "afd \<Rightarrow> afd option" where
  "dec_loop a =
     (if fp_less DEC_BND (fp_abs (afd_ddx a)) \<or> fp_less DEC_BND (fp_abs (afd_ddy a))
      then dec_loop (halve_steps a) else Some a)"

text \<open>A comparison \<^verbatim>\<open><=\<close> is false for a value that is no number.\<close>

definition fp_le :: "fp \<Rightarrow> fp \<Rightarrow> bool" where
  "fp_le x y \<longleftrightarrow> fp_less x y \<or> fp_eq x y"

partial_function (option) inc_loop :: "afd \<Rightarrow> afd option" where
  "inc_loop a =
     (if even (afd_count a) \<and> fp_le (fp_abs (afd_dx a)) INC_BND \<and> fp_le (fp_abs (afd_dy a)) INC_BND
      then inc_loop (double_steps a) else Some a)"

definition afd_start :: "curve \<Rightarrow> afd" where
  "afd_start c =
     (let dddx = fdiv (fmul (fint 2) (cv_dax c)) (fint 512); dddy = fdiv (fmul (fint 2) (cv_day c)) (fint 512)
      in \<lparr>afd_count = 8,
          afd_dx = fadd (fadd (fdiv (cv_ax c) (fint 512)) (fdiv (cv_bx c) (fint 64))) (fdiv (cv_cx c) (fint 8)),
          afd_dy = fadd (fadd (fdiv (cv_ay c) (fint 512)) (fdiv (cv_by c) (fint 64))) (fdiv (cv_cy c) (fint 8)),
          afd_ddx = fadd dddx (fdiv (cv_dbx c) (fint 64)), afd_ddy = fadd dddy (fdiv (cv_dby c) (fint 64)),
          afd_dddx = dddx, afd_dddy = dddy\<rparr>)"

partial_function (option) curve_loop ::
    "(int \<Rightarrow> bool) \<Rightarrow> jfloat \<Rightarrow> jfloat \<Rightarrow> jfloat \<Rightarrow> jfloat \<Rightarrow> jfloat \<Rightarrow> jfloat \<Rightarrow> afd \<Rightarrow> prism_renderer \<Rightarrow> prism_renderer option" where
  "curve_loop alloc x3 y3 x0 y0 x1 y1 a this =
     (if 0 < afd_count a then do {
        a \<leftarrow> dec_loop a;
        a \<leftarrow> inc_loop a;
        let a = a\<lparr>afd_count := i32 (afd_count a - 1)\<rparr>;
        let (x1, y1, a) =
          (if 0 < afd_count a then
             (fadd x1 (afd_dx a), fadd y1 (afd_dy a),
              a\<lparr>afd_dx := fadd (afd_dx a) (afd_ddx a), afd_ddx := fadd (afd_ddx a) (afd_dddx a),
                afd_dy := fadd (afd_dy a) (afd_ddy a), afd_ddy := fadd (afd_ddy a) (afd_dddy a)\<rparr>)
           else (x3, y3, a));
        this \<leftarrow> addLine alloc x0 y0 x1 y1 this;
        curve_loop alloc x3 y3 x1 y1 x1 y1 a this
      }
      else Some this)"

definition curveBreakIntoLinesAndAdd ::
    "(int \<Rightarrow> bool) \<Rightarrow> jfloat \<Rightarrow> jfloat \<Rightarrow> curve \<Rightarrow> jfloat \<Rightarrow> jfloat \<Rightarrow> prism_renderer \<Rightarrow> prism_renderer option" where
  "curveBreakIntoLinesAndAdd alloc x0 y0 c x3 y3 this = curve_loop alloc x3 y3 x0 y0 x0 y0 (afd_start c) this"

declare quad_count.simps [code] dec_loop.simps [code] inc_loop.simps [code] curve_loop.simps [code]

section \<open>The consumer\<close>

text \<open>\<^verbatim>\<open>Renderer_init\<close> clears the structure; the null pointers are empty arrays.\<close>

definition Renderer_init :: prism_renderer where
  "Renderer_init =
     (let z = fint 0
      in \<lparr>sampleRowMin = 0, sampleRowMax = 0, edgeMinX = z, edgeMaxX = z, edges = [], edgesSIZE = 0,
          edgeBuckets = [], edgeBucketsSIZE = 0, numEdges = 0, boundsMinX = 0, boundsMinY = 0, boundsMaxX = 0,
          boundsMaxY = 0, windingRule = 0, cur_x0 = z, cur_y0 = z, pix_sx0 = z, pix_sy0 = z,
          cur_c = \<lparr>cv_ax = z, cv_ay = z, cv_bx = z, cv_by = z, cv_cx = z, cv_cy = z, cv_dx = z, cv_dy = z,
                   cv_dax = z, cv_day = z, cv_dbx = z, cv_dby = z\<rparr>\<rparr>)"

definition Renderer_reset ::
    "(int \<Rightarrow> bool) \<Rightarrow> raster_globals \<Rightarrow> jint \<Rightarrow> jint \<Rightarrow> jint \<Rightarrow> jint \<Rightarrow> jint \<Rightarrow> prism_renderer \<Rightarrow> prism_renderer option" where
  "Renderer_reset alloc g pix_boundsX pix_boundsY pix_boundsWidth pix_boundsHeight rule this = do {
     let px = SUBPIXEL_POSITIONS_X g;
     let py = SUBPIXEL_POSITIONS_Y g;
     let this = this\<lparr>windingRule := rule,
       boundsMinX := i32 (pix_boundsX * px), boundsMinY := i32 (pix_boundsY * py),
       boundsMaxX := i32 ((pix_boundsX + pix_boundsWidth) * px),
       boundsMaxY := i32 ((pix_boundsY + pix_boundsHeight) * py),
       edgeMinX := BIGGEST_FLOAT, edgeMaxX := fp_neg BIGGEST_FLOAT\<rparr>;
     let this = this\<lparr>sampleRowMax := boundsMinY this, sampleRowMin := boundsMaxY this\<rparr>;
     let numBuckets = i32 (boundsMaxY this - boundsMinY this);
     this \<leftarrow> (if edgeBuckets this = [] \<or> edgeBucketsSIZE this < i32 (numBuckets * 2 + 2) then
                Some (this\<lparr>edgeBuckets := new_int alloc (i32 (numBuckets * 2 + 2)),
                           edgeBucketsSIZE := i32 (numBuckets * 2 + 2)\<rparr>)
              else do {
                bs \<leftarrow> Arrays_fill (edgeBuckets this) 0 (i32 (numBuckets * 2)) 0;
                Some (this\<lparr>edgeBuckets := bs\<rparr>)
              });
     let this = (if edges this = [] then
                   this\<lparr>edges := new_float alloc (SIZEOF_EDGE * 32), edgesSIZE := SIZEOF_EDGE * 32\<rparr>
                 else this);
     Some (this\<lparr>numEdges := 0, pix_sx0 := fint 0, pix_sy0 := fint 0, cur_x0 := fint 0, cur_y0 := fint 0\<rparr>)
   }"

definition tosubpixx :: "raster_globals \<Rightarrow> jfloat \<Rightarrow> jfloat" where
  "tosubpixx g pix_x = fmul pix_x (fint (SUBPIXEL_POSITIONS_X g))"

definition tosubpixy :: "raster_globals \<Rightarrow> jfloat \<Rightarrow> jfloat" where
  "tosubpixy g pix_y = fmul pix_y (fint (SUBPIXEL_POSITIONS_Y g))"

definition Renderer_lineTo ::
    "(int \<Rightarrow> bool) \<Rightarrow> raster_globals \<Rightarrow> jfloat \<Rightarrow> jfloat \<Rightarrow> prism_renderer \<Rightarrow> prism_renderer option" where
  "Renderer_lineTo alloc g pix_x1 pix_y1 this = do {
     let x1 = tosubpixx g pix_x1;
     let y1 = tosubpixy g pix_y1;
     this \<leftarrow> addLine alloc (cur_x0 this) (cur_y0 this) x1 y1 this;
     Some (this\<lparr>cur_x0 := x1, cur_y0 := y1\<rparr>)
   }"

definition Renderer_closePath ::
    "(int \<Rightarrow> bool) \<Rightarrow> raster_globals \<Rightarrow> prism_renderer \<Rightarrow> prism_renderer option" where
  "Renderer_closePath alloc g this = Renderer_lineTo alloc g (pix_sx0 this) (pix_sy0 this) this"

definition Renderer_moveTo ::
    "(int \<Rightarrow> bool) \<Rightarrow> raster_globals \<Rightarrow> jfloat \<Rightarrow> jfloat \<Rightarrow> prism_renderer \<Rightarrow> prism_renderer option" where
  "Renderer_moveTo alloc g pix_x0 pix_y0 this = do {
     this \<leftarrow> Renderer_closePath alloc g this;
     Some (this\<lparr>pix_sx0 := pix_x0, pix_sy0 := pix_y0, cur_y0 := tosubpixy g pix_y0, cur_x0 := tosubpixx g pix_x0\<rparr>)
   }"

definition Renderer_curveTo ::
    "(int \<Rightarrow> bool) \<Rightarrow> raster_globals \<Rightarrow> jfloat \<Rightarrow> jfloat \<Rightarrow> jfloat \<Rightarrow> jfloat \<Rightarrow> jfloat \<Rightarrow> jfloat \<Rightarrow>
     prism_renderer \<Rightarrow> prism_renderer option" where
  "Renderer_curveTo alloc g x1 y1 x2 y2 x3 y3 this = do {
     let xe = tosubpixx g x3;
     let ye = tosubpixy g y3;
     let this = this\<lparr>cur_c := Curve_setcubic (cur_x0 this) (cur_y0 this) (tosubpixx g x1) (tosubpixy g y1)
                                 (tosubpixx g x2) (tosubpixy g y2) xe ye\<rparr>;
     this \<leftarrow> curveBreakIntoLinesAndAdd alloc (cur_x0 this) (cur_y0 this) (cur_c this) xe ye this;
     Some (this\<lparr>cur_x0 := xe, cur_y0 := ye\<rparr>)
   }"

definition Renderer_quadTo ::
    "(int \<Rightarrow> bool) \<Rightarrow> raster_globals \<Rightarrow> jfloat \<Rightarrow> jfloat \<Rightarrow> jfloat \<Rightarrow> jfloat \<Rightarrow> prism_renderer \<Rightarrow> prism_renderer option" where
  "Renderer_quadTo alloc g x1 y1 x2 y2 this = do {
     let xe = tosubpixx g x2;
     let ye = tosubpixy g y2;
     let this = this\<lparr>cur_c := Curve_setquad (cur_x0 this) (cur_y0 this) (tosubpixx g x1) (tosubpixy g y1) xe ye\<rparr>;
     this \<leftarrow> quadBreakIntoLinesAndAdd alloc (cur_x0 this) (cur_y0 this) (cur_c this) xe ye this;
     Some (this\<lparr>cur_x0 := xe, cur_y0 := ye\<rparr>)
   }"

definition Renderer_pathDone ::
    "(int \<Rightarrow> bool) \<Rightarrow> raster_globals \<Rightarrow> prism_renderer \<Rightarrow> prism_renderer option" where
  "Renderer_pathDone alloc g this = Renderer_closePath alloc g this"

text \<open>The table \<^verbatim>\<open>Renderer_init\<close> installs.\<close>

fun Renderer_consumer ::
    "(int \<Rightarrow> bool) \<Rightarrow> raster_globals \<Rightarrow> path_op \<Rightarrow> prism_renderer \<Rightarrow> prism_renderer option" where
  "Renderer_consumer alloc g (MoveTo x0 y0) this = Renderer_moveTo alloc g x0 y0 this"
| "Renderer_consumer alloc g (LineTo x1 y1) this = Renderer_lineTo alloc g x1 y1 this"
| "Renderer_consumer alloc g (QuadTo xc yc x1 y1) this = Renderer_quadTo alloc g xc yc x1 y1 this"
| "Renderer_consumer alloc g (CurveTo xc0 yc0 xc1 yc1 x1 y1) this = Renderer_curveTo alloc g xc0 yc0 xc1 yc1 x1 y1 this"
| "Renderer_consumer alloc g ClosePath this = Renderer_closePath alloc g this"
| "Renderer_consumer alloc g PathDone this = Renderer_pathDone alloc g this"

section \<open>Scan lines\<close>

definition ScanlineIterator_reset :: "prism_renderer \<Rightarrow> scanline_iterator \<Rightarrow> scanline_iterator" where
  "ScanlineIterator_reset rdr this = this\<lparr>nextY := sampleRowMin rdr, edgeCount := 0\<rparr>"

definition ScanlineIterator_init :: "(int \<Rightarrow> bool) \<Rightarrow> prism_renderer \<Rightarrow> scanline_iterator" where
  "ScanlineIterator_init alloc rdr =
     ScanlineIterator_reset rdr
       \<lparr>crossings = new_int alloc INIT_CROSSINGS_SIZE, crossingsSIZE = INIT_CROSSINGS_SIZE,
        edgePtrs = new_int alloc INIT_CROSSINGS_SIZE, edgePtrsSIZE = INIT_CROSSINGS_SIZE,
        edgeCount = 0, nextY = 0\<rparr>"

text \<open>The edges that end at this row leave the list.\<close>

definition drop_finished :: "jfloat list \<Rightarrow> jint \<Rightarrow> jint \<Rightarrow> jint list \<Rightarrow> (jint \<times> jint list) option" where
  "drop_finished es cury count ptrs =
     for_loop count (\<lambda>i (newCount, ptrs). do {
       ecur \<leftarrow> rd ptrs i;
       ymax \<leftarrow> rd es (i32 (ecur + YMAX));
       if fp_less (fint cury) ymax then do {
         ptrs \<leftarrow> wr ptrs newCount ecur;
         Some (newCount + 1, ptrs)
       }
       else Some (newCount, ptrs)
     }) (0, ptrs)"

definition growPtrs :: "(int \<Rightarrow> bool) \<Rightarrow> jint \<Rightarrow> jint \<Rightarrow> scanline_iterator \<Rightarrow> scanline_iterator option" where
  "growPtrs alloc count added this =
     (if edgePtrsSIZE this < i32 (count + added) then do {
        let newSize = i32 ((count + added) * 2);
        newPtrs \<leftarrow> System_arraycopy (edgePtrs this) 0 (new_int alloc newSize) 0 count;
        Some (this\<lparr>edgePtrs := newPtrs, edgePtrsSIZE := newSize\<rparr>)
      }
      else Some this)"

text \<open>
  The edges of the bucket join the list. The pointers are stored one after the other, so a chain that never
  ends leaves the array.
\<close>

function append_bucket :: "jfloat list \<Rightarrow> jint \<Rightarrow> jint \<Rightarrow> jint list \<Rightarrow> (jint \<times> jint list) option" where
  "append_bucket es ecur count ptrs =
     (if ecur = 0 then Some (count, ptrs)
      else if 0 \<le> count \<and> count < int (length ptrs) then
        (case rd es (i32 (ecur - 1 + NEXT)) of
           None \<Rightarrow> None
         | Some nxt \<Rightarrow> append_bucket es (fp_to_jint nxt) (count + 1) (ptrs[nat count := i32 (ecur - 1)]))
      else None)"
  by pat_completeness auto
termination
  by (relation "measure (\<lambda>(es, ecur, count, ptrs). nat (int (length ptrs) - count))") auto

declare append_bucket.simps [simp del]

text \<open>\<^verbatim>\<open>while (--j >= 0)\<close>: greater crossings and their pointers move one place to the right.\<close>

fun insert_crossing :: "nat \<Rightarrow> jint \<Rightarrow> jint \<Rightarrow> jint list \<Rightarrow> jint list \<Rightarrow> (jint list \<times> jint list) option" where
  "insert_crossing 0 cross ecur xings ptrs = do {
     xings \<leftarrow> wr xings 0 cross;
     ptrs \<leftarrow> wr ptrs 0 ecur;
     Some (xings, ptrs)
   }"
| "insert_crossing (Suc j) cross ecur xings ptrs = do {
     jcross \<leftarrow> rd xings (int j);
     if jcross \<le> cross then do {
       xings \<leftarrow> wr xings (int j + 1) cross;
       ptrs \<leftarrow> wr ptrs (int j + 1) ecur;
       Some (xings, ptrs)
     }
     else do {
       xings \<leftarrow> wr xings (int j + 1) jcross;
       p \<leftarrow> rd ptrs (int j);
       ptrs \<leftarrow> wr ptrs (int j + 1) p;
       insert_crossing j cross ecur xings ptrs
     }
   }"

definition sort_crossings ::
    "jint \<Rightarrow> jfloat list \<Rightarrow> jint list \<Rightarrow> jint list \<Rightarrow> (jfloat list \<times> jint list \<times> jint list) option" where
  "sort_crossings count es xings ptrs =
     for_loop count (\<lambda>i (es, xings, ptrs). do {
       ecur \<leftarrow> rd ptrs i;
       curx \<leftarrow> rd es (i32 (ecur + CURX));
       slope \<leftarrow> rd es (i32 (ecur + SLOPE));
       es \<leftarrow> wr es (i32 (ecur + CURX)) (fadd curx slope);
       orient \<leftarrow> rd es (i32 (ecur + ORIENT));
       let cross = i32 (2 * sample_ceil curx);
       let cross = (if fp_less (fint 0) orient then cross OR 1 else cross);
       (xings, ptrs) \<leftarrow> insert_crossing (nat i) cross ecur xings ptrs;
       Some (es, xings, ptrs)
     }) (es, xings, ptrs)"

text \<open>The result is the number of crossings.\<close>

definition ScanlineIterator_next ::
    "(int \<Rightarrow> bool) \<Rightarrow> prism_renderer \<Rightarrow> scanline_iterator \<Rightarrow> (jint \<times> prism_renderer \<times> scanline_iterator) option" where
  "ScanlineIterator_next alloc rdr this = do {
     let cury = nextY this;
     let this = this\<lparr>nextY := i32 (cury + 1)\<rparr>;
     let bucket = i32 (cury - boundsMinY rdr);
     bucketcount \<leftarrow> rd (edgeBuckets rdr) (i32 (bucket * 2 + 1));
     (count, ptrs) \<leftarrow> (if odd bucketcount then drop_finished (edges rdr) cury (edgeCount this) (edgePtrs this)
                       else Some (edgeCount this, edgePtrs this));
     this \<leftarrow> growPtrs alloc count (drop_bit 1 bucketcount) (this\<lparr>edgePtrs := ptrs\<rparr>);
     first \<leftarrow> rd (edgeBuckets rdr) (i32 (bucket * 2));
     (count, ptrs) \<leftarrow> append_bucket (edges rdr) first count (edgePtrs this);
     let this = this\<lparr>edgePtrs := ptrs, edgeCount := count\<rparr>;
     let this = (if crossingsSIZE this < count then
                   this\<lparr>crossings := new_int alloc (edgePtrsSIZE this), crossingsSIZE := edgePtrsSIZE this\<rparr>
                 else this);
     (es, xings, ptrs) \<leftarrow> sort_crossings count (edges rdr) (crossings this) (edgePtrs this);
     Some (count, rdr\<lparr>edges := es\<rparr>, this\<lparr>crossings := xings, edgePtrs := ptrs\<rparr>)
   }"

definition ScanlineIterator_hasNext :: "prism_renderer \<Rightarrow> scanline_iterator \<Rightarrow> bool" where
  "ScanlineIterator_hasNext rdr this \<longleftrightarrow> nextY this < sampleRowMax rdr"

definition ScanlineIterator_curY :: "scanline_iterator \<Rightarrow> jint" where
  "ScanlineIterator_curY this = i32 (nextY this - 1)"

section \<open>Coverage\<close>

definition wr_add :: "jint list \<Rightarrow> int \<Rightarrow> int \<Rightarrow> jint list option" where
  "wr_add alpha i d = do { v \<leftarrow> rd alpha i; wr alpha i (i32 (v + d)) }"

text \<open>The samples from \<open>x0\<close> up to \<open>x1\<close>, as differences between neighbouring pixels.\<close>

definition add_span :: "raster_globals \<Rightarrow> jint \<Rightarrow> jint \<Rightarrow> jint list \<Rightarrow> jint list option" where
  "add_span g x0 x1 alpha =
     (let lg = nat (SUBPIXEL_LG_POSITIONS_X g); mask = SUBPIXEL_MASK_X g; n = SUBPIXEL_POSITIONS_X g;
          pix_x = drop_bit lg x0; pix_xmaxm1 = drop_bit lg (i32 (x1 - 1))
      in if pix_x = pix_xmaxm1 then do {
           alpha \<leftarrow> wr_add alpha pix_x (x1 - x0);
           wr_add alpha (i32 (pix_x + 1)) (- (x1 - x0))
         }
         else do {
           let pix_xmax = drop_bit lg x1;
           alpha \<leftarrow> wr_add alpha pix_x (n - (x0 AND mask));
           alpha \<leftarrow> wr_add alpha (i32 (pix_x + 1)) (x0 AND mask);
           alpha \<leftarrow> wr_add alpha pix_xmax (- (n - (x1 AND mask)));
           wr_add alpha (i32 (pix_xmax + 1)) (- (x1 AND mask))
         })"

definition accumulate_row ::
    "raster_globals \<Rightarrow> jint \<Rightarrow> jint \<Rightarrow> jint \<Rightarrow> jint \<Rightarrow> jint list \<Rightarrow> jint list \<Rightarrow> jint list option" where
  "accumulate_row g wmask bboxx0 bboxx1 numCrossings xings alpha = do {
     (sum, prev, alpha) \<leftarrow> for_loop numCrossings (\<lambda>i (sum, prev, alpha). do {
       curxo \<leftarrow> rd xings i;
       let curx = drop_bit 1 curxo;
       let crorientation = 2 * (curxo AND 1) - 1;
       alpha \<leftarrow> (if sum AND wmask \<noteq> 0 then
                   (let x0 = max prev bboxx0; x1 = min curx bboxx1
                    in if x0 < x1 then add_span g (i32 (x0 - bboxx0)) (i32 (x1 - bboxx0)) alpha else Some alpha)
                 else Some alpha);
       Some (i32 (sum + crorientation), curx, alpha)
     }) (0, bboxx0, alpha);
     Some alpha
   }"

text \<open>
  The function does not use its parameters \<^verbatim>\<open>pix_from\<close> and \<^verbatim>\<open>pix_to\<close>; they and the columns the caller collects for them
  are left out.
\<close>

definition setAndClearRelativeAlphas ::
    "raster_globals \<Rightarrow> jint \<Rightarrow> alpha_consumer \<Rightarrow> jint list \<Rightarrow> (alpha_consumer \<times> jint list) option" where
  "setAndClearRelativeAlphas g pix_y pAC alphaRow = do {
     let w = ac_width pAC;
     let off = i32 ((pix_y - originY pAC) * w);
     (a, alphaRow, out) \<leftarrow> for_loop w (\<lambda>i (a, alphaRow, out). do {
       d \<leftarrow> rd alphaRow i;
       let a = i32 (a + d);
       alphaRow \<leftarrow> wr alphaRow i 0;
       v \<leftarrow> rd (alphaMap g) a;
       out \<leftarrow> wr out (i32 (off + i)) v;
       Some (a, alphaRow, out)
     }) (0, alphaRow, alphas pAC);
     Some (pAC\<lparr>alphas := out\<rparr>, alphaRow)
   }"

text \<open>The loop over the sample rows; \<open>y\<close> is the row of the last turn.\<close>

partial_function (option) sample_rows ::
    "(int \<Rightarrow> bool) \<Rightarrow> raster_globals \<Rightarrow> jint \<Rightarrow> jint \<Rightarrow> jint \<Rightarrow>
     prism_renderer \<Rightarrow> scanline_iterator \<Rightarrow> alpha_consumer \<Rightarrow> jint list \<Rightarrow> jint \<Rightarrow>
     (jint \<times> prism_renderer \<times> alpha_consumer \<times> jint list) option" where
  "sample_rows alloc g wmask bboxx0 bboxx1 rdr it pAC alpha y =
     (if ScanlineIterator_hasNext rdr it then
        Option.bind (ScanlineIterator_next alloc rdr it) (\<lambda>(numCrossings, rdr, it).
          let y = ScanlineIterator_curY it
          in Option.bind (accumulate_row g wmask bboxx0 bboxx1 numCrossings (crossings it) alpha) (\<lambda>alpha.
            Option.bind (if y AND SUBPIXEL_MASK_Y g = SUBPIXEL_MASK_Y g
                         then setAndClearRelativeAlphas g (drop_bit (nat (SUBPIXEL_LG_POSITIONS_Y g)) y) pAC alpha
                         else Some (pAC, alpha)) (\<lambda>(pAC, alpha).
              sample_rows alloc g wmask bboxx0 bboxx1 rdr it pAC alpha y)))
      else Some (y, rdr, pAC, alpha))"

declare sample_rows.simps [code]

text \<open>\<open>savedAlpha\<close> is the buffer on the stack, whatever it holds.\<close>

definition Renderer_produceAlphas ::
    "(int \<Rightarrow> bool) \<Rightarrow> jint list \<Rightarrow> raster_globals \<Rightarrow> prism_renderer \<Rightarrow> alpha_consumer \<Rightarrow>
     (prism_renderer \<times> alpha_consumer) option" where
  "Renderer_produceAlphas alloc savedAlpha g this pAC = do {
     let wmask = (if windingRule this = WIND_EVEN_ODD then 1 else - 1);
     let width = ac_width pAC;
     let alpha = (if 1024 < i32 (width + 2) then new_int alloc (i32 (width + 2)) else savedAlpha);
     alpha \<leftarrow> Arrays_fill alpha 0 (i32 (width + 2)) 0;
     let bboxx0 = i32 (push_bit (nat (SUBPIXEL_LG_POSITIONS_X g)) (originX pAC));
     let bboxx1 = i32 (bboxx0 + push_bit (nat (SUBPIXEL_LG_POSITIONS_X g)) width);
     (y, this, pAC, alpha) \<leftarrow> sample_rows alloc g wmask bboxx0 bboxx1 this (ScanlineIterator_init alloc this)
                                pAC alpha (boundsMinY this);
     (pAC, alpha) \<leftarrow> (if y AND SUBPIXEL_MASK_Y g < SUBPIXEL_MASK_Y g
                       then setAndClearRelativeAlphas g (drop_bit (nat (SUBPIXEL_LG_POSITIONS_Y g)) y) pAC alpha
                       else Some (pAC, alpha));
     Some (this, pAC)
   }"

section \<open>The bounds of the result\<close>

definition getSubpixMinX :: "prism_renderer \<Rightarrow> jint" where
  "getSubpixMinX this = max (sample_ceil (edgeMinX this)) (boundsMinX this)"

definition getSubpixMaxX :: "prism_renderer \<Rightarrow> jint" where
  "getSubpixMaxX this = min (sample_ceil (edgeMaxX this)) (boundsMaxX this)"

definition getOutpixMinX :: "raster_globals \<Rightarrow> prism_renderer \<Rightarrow> jint" where
  "getOutpixMinX g this = drop_bit (nat (SUBPIXEL_LG_POSITIONS_X g)) (getSubpixMinX this)"

definition getOutpixMaxX :: "raster_globals \<Rightarrow> prism_renderer \<Rightarrow> jint" where
  "getOutpixMaxX g this =
     drop_bit (nat (SUBPIXEL_LG_POSITIONS_X g)) (i32 (getSubpixMaxX this + SUBPIXEL_MASK_X g))"

definition getOutpixMinY :: "raster_globals \<Rightarrow> prism_renderer \<Rightarrow> jint" where
  "getOutpixMinY g this = drop_bit (nat (SUBPIXEL_LG_POSITIONS_Y g)) (sampleRowMin this)"

definition getOutpixMaxY :: "raster_globals \<Rightarrow> prism_renderer \<Rightarrow> jint" where
  "getOutpixMaxY g this =
     drop_bit (nat (SUBPIXEL_LG_POSITIONS_Y g)) (i32 (sampleRowMax this + SUBPIXEL_MASK_Y g))"

definition Renderer_getOutputBounds :: "raster_globals \<Rightarrow> prism_renderer \<Rightarrow> jint list" where
  "Renderer_getOutputBounds g this =
     [getOutpixMinX g this, getOutpixMinY g this, getOutpixMaxX g this, getOutpixMaxY g this]"

end
