(* ===== verification/Prism_Raster.thy ===== *)
theory Prism_Raster
  imports Prism_Renderer
begin

text \<open>
  The entry points of \<^verbatim>\<open>NativePiscesRasterizer.c\<close>. A path arrives as an array of commands and an array of coordinates;
  \<^verbatim>\<open>feedConsumer\<close> reads them and calls the consumer. Java arrays that may be null are optional lists. What the
  virtual machine and the allocator answer is the environment.
\<close>

section \<open>Feeding a path\<close>

abbreviation (input) SEG_MOVETO :: jbyte where "SEG_MOVETO \<equiv> 0"
abbreviation (input) SEG_LINETO :: jbyte where "SEG_LINETO \<equiv> 1"
abbreviation (input) SEG_QUADTO :: jbyte where "SEG_QUADTO \<equiv> 2"
abbreviation (input) SEG_CUBICTO :: jbyte where "SEG_CUBICTO \<equiv> 3"
abbreviation (input) SEG_CLOSE :: jbyte where "SEG_CLOSE \<equiv> 4"

text \<open>
  \<open>re_alloc\<close> is the answer of \<^verbatim>\<open>calloc\<close>, \<open>re_saved\<close> what the stack buffer of \<^verbatim>\<open>Renderer_produceAlphas\<close> holds at first,
  \<open>re_class\<close> whether \<^verbatim>\<open>FindClass\<close> finds the class of an exception; the other fields are whether
  \<^verbatim>\<open>GetPrimitiveArrayCritical\<close> can pin the array.
\<close>

record raster_env =
  re_alloc :: "int \<Rightarrow> bool"
  re_saved :: "jint list"
  re_coords :: bool
  re_commands :: bool
  re_dashes :: bool
  re_mask :: bool
  re_class :: bool

text \<open>
  One turn of the loop. The state is the failure so far, the offset of the next coordinate and the state of the
  consumer.
\<close>

definition feed_command ::
    "(path_op \<Rightarrow> 's \<Rightarrow> 's option) \<Rightarrow> jfloat list \<Rightarrow> jint \<Rightarrow> jbyte \<Rightarrow> jint \<Rightarrow> 's \<Rightarrow> (string option \<times> jint \<times> 's) option" where
  "feed_command consume coords coordSize cmd coordoff s =
     (if cmd = SEG_MOVETO then
        (if coordSize < i32 (coordoff + 2) then Some (Some ''[not enough coordinates for moveTo'', coordoff, s)
         else do {
           x0 \<leftarrow> rd coords coordoff; y0 \<leftarrow> rd coords (i32 (coordoff + 1));
           s \<leftarrow> consume (MoveTo x0 y0) s;
           Some (None, i32 (coordoff + 2), s)
         })
      else if cmd = SEG_LINETO then
        (if coordSize < i32 (coordoff + 2) then Some (Some ''[not enough coordinates for lineTo'', coordoff, s)
         else do {
           x1 \<leftarrow> rd coords coordoff; y1 \<leftarrow> rd coords (i32 (coordoff + 1));
           s \<leftarrow> consume (LineTo x1 y1) s;
           Some (None, i32 (coordoff + 2), s)
         })
      else if cmd = SEG_QUADTO then
        (if coordSize < i32 (coordoff + 4) then Some (Some ''[not enough coordinates for quadTo'', coordoff, s)
         else do {
           xc \<leftarrow> rd coords coordoff; yc \<leftarrow> rd coords (i32 (coordoff + 1));
           x1 \<leftarrow> rd coords (i32 (coordoff + 2)); y1 \<leftarrow> rd coords (i32 (coordoff + 3));
           s \<leftarrow> consume (QuadTo xc yc x1 y1) s;
           Some (None, i32 (coordoff + 4), s)
         })
      else if cmd = SEG_CUBICTO then
        (if coordSize < i32 (coordoff + 6) then Some (Some ''[not enough coordinates for curveTo'', coordoff, s)
         else do {
           xc0 \<leftarrow> rd coords coordoff; yc0 \<leftarrow> rd coords (i32 (coordoff + 1));
           xc1 \<leftarrow> rd coords (i32 (coordoff + 2)); yc1 \<leftarrow> rd coords (i32 (coordoff + 3));
           x1 \<leftarrow> rd coords (i32 (coordoff + 4)); y1 \<leftarrow> rd coords (i32 (coordoff + 5));
           s \<leftarrow> consume (CurveTo xc0 yc0 xc1 yc1 x1 y1) s;
           Some (None, i32 (coordoff + 6), s)
         })
      else if cmd = SEG_CLOSE then do {
        s \<leftarrow> consume ClosePath s;
        Some (None, coordoff, s)
      }
      else Some (Some ''unrecognized Path segment'', coordoff, s))"

definition feedConsumer ::
    "raster_env \<Rightarrow> (path_op \<Rightarrow> 's \<Rightarrow> 's option) \<Rightarrow> jfloat list \<Rightarrow> jint \<Rightarrow> jbyte list \<Rightarrow> jint \<Rightarrow> 's \<Rightarrow>
     (string option \<times> 's) option" where
  "feedConsumer env consume coords coordSize commands numCommands s =
     (if \<not> re_coords env then Some (Some [], s)
      else if \<not> re_commands env then Some (Some [], s)
      else do {
        (failure, coordoff, s) \<leftarrow> for_loop numCommands (\<lambda>cmdoff (failure, coordoff, s).
          if failure \<noteq> None then Some (failure, coordoff, s)
          else do {
            cmd \<leftarrow> rd commands cmdoff;
            feed_command consume coords coordSize cmd coordoff s
          }) (None, 0, s);
        if failure = None then do {
          s \<leftarrow> consume PathDone s;
          Some (None, s)
        }
        else Some (failure, s)
      })"

section \<open>Exceptions and results\<close>

datatype raster_exception =
    NullPointerException string
  | ArrayIndexOutOfBoundsException string
  | InternalError string
  | NoClassDefFoundError

text \<open>What Java sees after a call: its arrays and the pending exception.\<close>

record raster_result =
  rr_bounds :: "jint list"
  rr_mask :: "jbyte list"
  rr_thrown :: "raster_exception option"

definition Throw :: "raster_env \<Rightarrow> raster_exception \<Rightarrow> raster_result \<Rightarrow> raster_result" where
  "Throw env e r = r\<lparr>rr_thrown := Some (if re_class env then e else NoClassDefFoundError)\<rparr>"

definition report_failure :: "raster_env \<Rightarrow> string \<Rightarrow> raster_result \<Rightarrow> raster_result" where
  "report_failure env failure r =
     (if failure = [] then r
      else if hd failure = CHR ''['' then Throw env (ArrayIndexOutOfBoundsException (tl failure)) r
      else Throw env (InternalError failure) r)"

text \<open>The common end of both entry points: the bounds of the result, and the mask if it is not empty.\<close>

definition produce_mask ::
    "raster_env \<Rightarrow> raster_globals \<Rightarrow> string \<Rightarrow> prism_renderer \<Rightarrow> raster_result \<Rightarrow> raster_result option" where
  "produce_mask env g detail renderer r = do {
     let bounds = Renderer_getOutputBounds g renderer;
     let r = r\<lparr>rr_bounds := bounds @ drop 4 (rr_bounds r)\<rparr>;
     if bounds ! 0 < bounds ! 2 \<and> bounds ! 1 < bounds ! 3 then do {
       let ac = \<lparr>originX = bounds ! 0, originY = bounds ! 1, ac_width = i32 (bounds ! 2 - bounds ! 0),
                 ac_height = i32 (bounds ! 3 - bounds ! 1), alphas = rr_mask r\<rparr>;
       q \<leftarrow> c_div (int (length (rr_mask r))) (ac_width ac);
       if q < ac_height ac then Some (Throw env (ArrayIndexOutOfBoundsException detail) r)
       else if re_mask env then do {
         (_, ac) \<leftarrow> Renderer_produceAlphas (re_alloc env) (re_saved env) g renderer ac;
         Some (r\<lparr>rr_mask := alphas ac\<rparr>)
       }
       else Some r
     }
     else Some r
   }"

section \<open>Filling\<close>

definition NativePiscesRasterizer_init ::
    "raster_env \<Rightarrow> jint \<Rightarrow> jint \<Rightarrow> raster_globals \<Rightarrow> raster_globals option" where
  "NativePiscesRasterizer_init env subpixelLgPositionsX subpixelLgPositionsY g =
     Renderer_setup (re_alloc env) subpixelLgPositionsX subpixelLgPositionsY g"

text \<open>\<^verbatim>\<open>CheckNPE\<close> and \<^verbatim>\<open>CheckLen\<close>, in the order of the calls; \<open>None\<close> lets the entry point go on.\<close>

definition check_arrays ::
    "jfloat list option \<Rightarrow> jbyte list option \<Rightarrow> jint \<Rightarrow> jint list option \<Rightarrow> jbyte list option \<Rightarrow> raster_exception option" where
  "check_arrays coordsArray commandsArray numCommands boundsArray maskArray =
     (if coordsArray = None then Some (NullPointerException ''coordsArray'')
      else if commandsArray = None then Some (NullPointerException ''commandsArray'')
      else if boundsArray = None then Some (NullPointerException ''boundsArray'')
      else if maskArray = None then Some (NullPointerException ''maskArray'')
      else if int (length (the boundsArray)) < 4 then Some (ArrayIndexOutOfBoundsException ''boundsArray'')
      else if int (length (the commandsArray)) < numCommands then Some (ArrayIndexOutOfBoundsException ''commandsArray'')
      else None)"

definition produceFillAlphas ::
    "raster_env \<Rightarrow> raster_globals \<Rightarrow> jfloat list option \<Rightarrow> jbyte list option \<Rightarrow> jint \<Rightarrow> bool \<Rightarrow> transformer \<Rightarrow>
     jint list option \<Rightarrow> jbyte list option \<Rightarrow> raster_result option" where
  "produceFillAlphas env g coordsArray commandsArray numCommands nonzero m boundsArray maskArray =
     (let r = \<lparr>rr_bounds = (case boundsArray of None \<Rightarrow> [] | Some b \<Rightarrow> b),
               rr_mask = (case maskArray of None \<Rightarrow> [] | Some b \<Rightarrow> b), rr_thrown = None\<rparr>
      in case check_arrays coordsArray commandsArray numCommands boundsArray maskArray of
           Some e \<Rightarrow> Some (Throw env e r)
         | None \<Rightarrow>
             (let bounds = rr_bounds r; coords = the coordsArray
              in do {
                renderer \<leftarrow> Renderer_reset (re_alloc env) g (bounds ! 0) (bounds ! 1)
                  (i32 (bounds ! 2 - bounds ! 0)) (i32 (bounds ! 3 - bounds ! 1))
                  (if nonzero then WIND_NON_ZERO else WIND_EVEN_ODD) Renderer_init;
                (failure, renderer) \<leftarrow> feedConsumer env
                  (\<lambda>p. Renderer_consumer (re_alloc env) g (transformed (Transformer_init m) m p))
                  coords (int (length coords)) (the commandsArray) numCommands renderer;
                case failure of
                  None \<Rightarrow> produce_mask env g ''maskArray'' renderer r
                | Some f \<Rightarrow> Some (report_failure env f r)
              }))"

end
