(* ===== verification/Prism_Curve.thy ===== *)
theory Prism_Curve
  imports Prism_Raster
begin

text \<open>
  The numerical helpers of \<^verbatim>\<open>Helpers.c\<close> and \<^verbatim>\<open>Curve.c\<close> that stroking and dashing use: comparison of floats by their bits,
  roots of polynomials, the radius of curvature, and subdivision of curves.

  Arrays are lists, and a function that stores through a pointer returns the new list. The functions that
  subdivide take one array and three offsets: every caller passes the same array, or rows of the same
  two-dimensional array, three times. The functions of the mathematical library other than \<^verbatim>\<open>sqrt\<close>,
  which is exactly rounded, are parameters.
\<close>

record math_lib =
  lm_acos :: "jdouble \<Rightarrow> jdouble"
  lm_cos :: "jdouble \<Rightarrow> jdouble"
  lm_pow :: "jdouble \<Rightarrow> jdouble \<Rightarrow> jdouble"

abbreviation (input) dsub :: "jdouble \<Rightarrow> jdouble \<Rightarrow> jdouble" where "dsub \<equiv> fp_sub F64"
abbreviation (input) ddiv :: "jdouble \<Rightarrow> jdouble \<Rightarrow> jdouble" where "ddiv \<equiv> fp_div F64"
abbreviation (input) dsqrt :: "jdouble \<Rightarrow> jdouble" where "dsqrt \<equiv> fp_sqrt F64"
abbreviation (input) dint :: "int \<Rightarrow> jdouble" where "dint \<equiv> fp_of_int F64"

text \<open>\<^verbatim>\<open>(jfloat) sqrt(x)\<close> of a \<^verbatim>\<open>jfloat\<close>.\<close>

definition fsqrt :: "jfloat \<Rightarrow> jfloat" where
  "fsqrt x = tofloat (dsqrt x)"

definition PI :: jdouble where
  "PI = fp_literal F64 3141592653589793 15"

section \<open>Comparisons\<close>

text \<open>\<^verbatim>\<open>*((jint *) &A)\<close>. \<open>nan\<close> is the pattern of the values that are no numbers.\<close>

definition float_bits :: "jint \<Rightarrow> jfloat \<Rightarrow> jint" where
  "float_bits nan A =
     (case fp_convert F32 A of
        NaN \<Rightarrow> nan
      | Inf s \<Rightarrow> 255 * 2 ^ 23 - (if s then 2 ^ 31 else 0)
      | Fin s m e \<Rightarrow> (if m < 2 ^ 23 then m else (e + 150) * 2 ^ 23 + (m - 2 ^ 23)) - (if s then 2 ^ 31 else 0))"

definition Helpers_withinULP :: "jint \<Rightarrow> jfloat \<Rightarrow> jfloat \<Rightarrow> jint \<Rightarrow> bool" where
  "Helpers_withinULP nan A B maxUlps =
     (let aInt = float_bits nan A;
          aInt = (if aInt < 0 then i32 (2 ^ 31 - aInt) else aInt);
          bInt = float_bits nan B;
          bInt = (if bInt < 0 then i32 (2 ^ 31 - bInt) else bInt)
      in if aInt < bInt
         then (if aInt < 0 then bInt \<le> i32 (aInt + maxUlps) else i32 (bInt - maxUlps) \<le> aInt)
         else (if bInt < 0 then aInt \<le> i32 (bInt + maxUlps) else i32 (aInt - maxUlps) \<le> bInt))"

definition Helpers_within :: "jfloat \<Rightarrow> jfloat \<Rightarrow> jfloat \<Rightarrow> bool" where
  "Helpers_within x y err \<longleftrightarrow> (let d = fsub y x in fp_le d err \<and> fp_le (fp_neg err) d)"

definition Helpers_withind :: "jdouble \<Rightarrow> jdouble \<Rightarrow> jdouble \<Rightarrow> bool" where
  "Helpers_withind x y err \<longleftrightarrow> (let d = dsub y x in fp_le d err \<and> fp_le (fp_neg err) d)"

section \<open>Roots\<close>

text \<open>\<^verbatim>\<open>a[off] = v0; a[off+1] = v1; ...\<close>\<close>

fun wr_all :: "'a list \<Rightarrow> int \<Rightarrow> 'a list \<Rightarrow> 'a list option" where
  "wr_all a off [] = Some a"
| "wr_all a off (v # vs) = Option.bind (wr a off v) (\<lambda>a. wr_all a (off + 1) vs)"

lemma wr_all_eq:
  "0 \<le> off \<Longrightarrow> nat off + length vs \<le> length a \<Longrightarrow>
    wr_all a off vs = Some (take (nat off) a @ vs @ drop (nat off + length vs) a)"
proof (induction vs arbitrary: a off)
  case Nil
  then show ?case by simp
next
  case (Cons v vs)
  have "nat (off + 1) = Suc (nat off)" using Cons.prems by simp
  then have "wr_all a off (v # vs) =
      Some (take (Suc (nat off)) (a[nat off := v]) @ vs @ drop (Suc (nat off) + length vs) (a[nat off := v]))"
    using Cons.prems by (simp add: Cons.IH)
  then show ?case
    using Cons.prems by (simp add: take_Suc_conv_app_nth list_update_append)
qed

lemma wr_all_append: "wr_all (xs @ ys) (int (length xs)) vs = Some (xs @ vs @ drop (length vs) ys)" if "length vs \<le> length ys"
  using that by (simp add: wr_all_eq)

definition Helpers_quadraticRoots ::
    "jfloat \<Rightarrow> jfloat \<Rightarrow> jfloat \<Rightarrow> jfloat list \<Rightarrow> jint \<Rightarrow> (jint \<times> jfloat list) option" where
  "Helpers_quadraticRoots a b c zeroes off =
     (let roots =
        (if \<not> fp_eq a (fint 0) then
           (let dis = fsub (fmul b b) (fmul (fmul (fint 4) a) c)
            in if fp_less (fint 0) dis then
                 (let sqrtDis = fsqrt dis
                  in if fp_le (fint 0) b then
                       [fdiv (fmul (fint 2) c) (fsub (fp_neg b) sqrtDis), fdiv (fsub (fp_neg b) sqrtDis) (fmul (fint 2) a)]
                     else
                       [fdiv (fadd (fp_neg b) sqrtDis) (fmul (fint 2) a), fdiv (fmul (fint 2) c) (fadd (fp_neg b) sqrtDis)])
               else if fp_eq dis (fint 0) then [fdiv (fp_neg b) (fmul (fint 2) a)]
               else [])
         else if \<not> fp_eq b (fint 0) then [fdiv (fp_neg c) b]
         else [])
      in map_option (\<lambda>zeroes. (int (length roots), zeroes)) (wr_all zeroes off roots))"

text \<open>The index past the last number that was kept.\<close>

definition Helpers_filterOutNotInAB ::
    "jfloat list \<Rightarrow> jint \<Rightarrow> jint \<Rightarrow> jfloat \<Rightarrow> jfloat \<Rightarrow> (jint \<times> jfloat list) option" where
  "Helpers_filterOutNotInAB nums off len a b =
     for_loop len (\<lambda>i (ret, nums). do {
       x \<leftarrow> rd nums (off + i);
       if fp_le a x \<and> fp_less x b then do {
         nums \<leftarrow> wr nums ret x;
         Some (ret + 1, nums)
       }
       else Some (ret, nums)
     }) (off, nums)"

definition Math_cbrt :: "math_lib \<Rightarrow> jdouble \<Rightarrow> jdouble" where
  "Math_cbrt lm v =
     (let third = ddiv (dint 1) (dint 3)
      in if fp_less v (dint 0) then fp_neg (lm_pow lm (fp_neg v) third) else lm_pow lm v third)"

text \<open>The roots of the reduced cubic, before the shift back.\<close>

definition cardano :: "math_lib \<Rightarrow> jdouble \<Rightarrow> jdouble \<Rightarrow> jfloat list" where
  "cardano lm p q =
     (let cb_p = dmul (dmul p p) p;
          D = dadd (dmul q q) cb_p
      in if fp_less D (dint 0) then
           (let phi = dmul (ddiv (dint 1) (dint 3)) (lm_acos lm (ddiv (fp_neg q) (dsqrt (fp_neg cb_p))));
                t = dmul (dint 2) (dsqrt (fp_neg p));
                third = ddiv PI (dint 3)
            in [tofloat (dmul t (lm_cos lm phi)),
                tofloat (dmul (fp_neg t) (lm_cos lm (dadd phi third))),
                tofloat (dmul (fp_neg t) (lm_cos lm (dsub phi third)))])
         else
           (let sqrt_D = dsqrt D;
                u = Math_cbrt lm (dsub sqrt_D q);
                v = fp_neg (Math_cbrt lm (dadd sqrt_D q));
                x = tofloat (dadd u v)
            in if Helpers_withind D (dint 0) (fp_literal F64 1 8) then [x, fp_neg (fdiv x (fint 2))] else [x]))"

definition Helpers_cubicRootsInAB ::
    "math_lib \<Rightarrow> jfloat \<Rightarrow> jfloat \<Rightarrow> jfloat \<Rightarrow> jfloat \<Rightarrow> jfloat list \<Rightarrow> jint \<Rightarrow> jfloat \<Rightarrow> jfloat \<Rightarrow> (jint \<times> jfloat list) option" where
  "Helpers_cubicRootsInAB lm d a b c pts off A B =
     (if fp_eq d (fint 0) then do {
        (num, pts) \<leftarrow> Helpers_quadraticRoots a b c pts off;
        (ret, pts) \<leftarrow> Helpers_filterOutNotInAB pts off num A B;
        Some (ret - off, pts)
      }
      else do {
        let a = fdiv a d;
        let b = fdiv b d;
        let c = fdiv c d;
        let sq_A = fmul a a;
        let third = ddiv (dint 1) (dint 3);
        let p = dmul third (dadd (dmul (ddiv (dint (- 1)) (dint 3)) sq_A) b);
        let q = dmul (ddiv (dint 1) (dint 2))
                  (dadd (dsub (dmul (dmul (ddiv (dint 2) (dint 27)) a) sq_A) (dmul (dmul third a) b)) c);
        let sub = fmul (fdiv (fint 1) (fint 3)) a;
        let xs = cardano lm p q;
        pts \<leftarrow> wr_all pts off xs;
        pts \<leftarrow> wr_all pts off (map (\<lambda>x. fsub x sub) xs);
        (ret, pts) \<leftarrow> Helpers_filterOutNotInAB pts off (int (length xs)) A B;
        Some (ret - off, pts)
      })"

text \<open>\<^verbatim>\<open>for (; j >= off && a[j] > ai; j--)\<close>; \<open>k\<close> is \<open>j + 1 - off\<close>.\<close>

fun isort_insert :: "nat \<Rightarrow> jint \<Rightarrow> jfloat \<Rightarrow> jfloat list \<Rightarrow> jfloat list option" where
  "isort_insert 0 off ai a = wr a off ai"
| "isort_insert (Suc k) off ai a = do {
     aj \<leftarrow> rd a (off + int k);
     if fp_less ai aj then do {
       a \<leftarrow> wr a (off + int k + 1) aj;
       isort_insert k off ai a
     }
     else wr a (off + int k + 1) ai
   }"

definition Helpers_isort :: "jfloat list \<Rightarrow> jint \<Rightarrow> jint \<Rightarrow> jfloat list option" where
  "Helpers_isort a off len =
     for_loop (len - 1) (\<lambda>i a. do {
       ai \<leftarrow> rd a (off + i + 1);
       isort_insert (nat (i + 1)) off ai a
     }) a"

section \<open>Lengths\<close>

definition Helpers_linelen :: "jfloat \<Rightarrow> jfloat \<Rightarrow> jfloat \<Rightarrow> jfloat \<Rightarrow> jfloat" where
  "Helpers_linelen x1 y1 x2 y2 =
     (let dx = fsub x2 x1; dy = fsub y2 y1 in fsqrt (fadd (fmul dx dx) (fmul dy dy)))"

section \<open>Subdivision\<close>

definition Helpers_subdivideCubic :: "jfloat list \<Rightarrow> jint \<Rightarrow> jint \<Rightarrow> jint \<Rightarrow> jfloat list option" where
  "Helpers_subdivideCubic a srcoff leftoff rightoff = do {
     x1 \<leftarrow> rd a srcoff; y1 \<leftarrow> rd a (srcoff + 1);
     ctrlx1 \<leftarrow> rd a (srcoff + 2); ctrly1 \<leftarrow> rd a (srcoff + 3);
     ctrlx2 \<leftarrow> rd a (srcoff + 4); ctrly2 \<leftarrow> rd a (srcoff + 5);
     x2 \<leftarrow> rd a (srcoff + 6); y2 \<leftarrow> rd a (srcoff + 7);
     a \<leftarrow> wr_all a leftoff [x1, y1];
     a \<leftarrow> wr_all a (rightoff + 6) [x2, y2];
     let mid = (\<lambda>u v. fdiv (fadd u v) (fint 2));
     let (x1, y1) = (mid x1 ctrlx1, mid y1 ctrly1);
     let (x2, y2) = (mid x2 ctrlx2, mid y2 ctrly2);
     let (centerx, centery) = (mid ctrlx1 ctrlx2, mid ctrly1 ctrly2);
     let (ctrlx1, ctrly1) = (mid x1 centerx, mid y1 centery);
     let (ctrlx2, ctrly2) = (mid x2 centerx, mid y2 centery);
     let (centerx, centery) = (mid ctrlx1 ctrlx2, mid ctrly1 ctrly2);
     a \<leftarrow> wr_all a (leftoff + 2) [x1, y1, ctrlx1, ctrly1, centerx, centery];
     wr_all a rightoff [centerx, centery, ctrlx2, ctrly2, x2, y2]
   }"

definition Helpers_subdivideCubicAt :: "jfloat \<Rightarrow> jfloat list \<Rightarrow> jint \<Rightarrow> jint \<Rightarrow> jint \<Rightarrow> jfloat list option" where
  "Helpers_subdivideCubicAt t a srcoff leftoff rightoff = do {
     x1 \<leftarrow> rd a srcoff; y1 \<leftarrow> rd a (srcoff + 1);
     ctrlx1 \<leftarrow> rd a (srcoff + 2); ctrly1 \<leftarrow> rd a (srcoff + 3);
     ctrlx2 \<leftarrow> rd a (srcoff + 4); ctrly2 \<leftarrow> rd a (srcoff + 5);
     x2 \<leftarrow> rd a (srcoff + 6); y2 \<leftarrow> rd a (srcoff + 7);
     a \<leftarrow> wr_all a leftoff [x1, y1];
     a \<leftarrow> wr_all a (rightoff + 6) [x2, y2];
     let mix = (\<lambda>u v. fadd u (fmul t (fsub v u)));
     let (x1, y1) = (mix x1 ctrlx1, mix y1 ctrly1);
     let (x2, y2) = (mix ctrlx2 x2, mix ctrly2 y2);
     let (centerx, centery) = (mix ctrlx1 ctrlx2, mix ctrly1 ctrly2);
     let (ctrlx1, ctrly1) = (mix x1 centerx, mix y1 centery);
     let (ctrlx2, ctrly2) = (mix centerx x2, mix centery y2);
     let (centerx, centery) = (mix ctrlx1 ctrlx2, mix ctrly1 ctrly2);
     a \<leftarrow> wr_all a (leftoff + 2) [x1, y1, ctrlx1, ctrly1, centerx, centery];
     wr_all a rightoff [centerx, centery, ctrlx2, ctrly2, x2, y2]
   }"

definition Helpers_subdivideQuad :: "jfloat list \<Rightarrow> jint \<Rightarrow> jint \<Rightarrow> jint \<Rightarrow> jfloat list option" where
  "Helpers_subdivideQuad a srcoff leftoff rightoff = do {
     x1 \<leftarrow> rd a srcoff; y1 \<leftarrow> rd a (srcoff + 1);
     ctrlx \<leftarrow> rd a (srcoff + 2); ctrly \<leftarrow> rd a (srcoff + 3);
     x2 \<leftarrow> rd a (srcoff + 4); y2 \<leftarrow> rd a (srcoff + 5);
     a \<leftarrow> wr_all a leftoff [x1, y1];
     a \<leftarrow> wr_all a (rightoff + 4) [x2, y2];
     let mid = (\<lambda>u v. fdiv (fadd u v) (fint 2));
     let (x1, y1) = (mid x1 ctrlx, mid y1 ctrly);
     let (x2, y2) = (mid x2 ctrlx, mid y2 ctrly);
     let (ctrlx, ctrly) = (mid x1 x2, mid y1 y2);
     a \<leftarrow> wr_all a (leftoff + 2) [x1, y1, ctrlx, ctrly];
     wr_all a rightoff [ctrlx, ctrly, x2, y2]
   }"

definition Helpers_subdivideQuadAt :: "jfloat \<Rightarrow> jfloat list \<Rightarrow> jint \<Rightarrow> jint \<Rightarrow> jint \<Rightarrow> jfloat list option" where
  "Helpers_subdivideQuadAt t a srcoff leftoff rightoff = do {
     x1 \<leftarrow> rd a srcoff; y1 \<leftarrow> rd a (srcoff + 1);
     ctrlx \<leftarrow> rd a (srcoff + 2); ctrly \<leftarrow> rd a (srcoff + 3);
     x2 \<leftarrow> rd a (srcoff + 4); y2 \<leftarrow> rd a (srcoff + 5);
     a \<leftarrow> wr_all a leftoff [x1, y1];
     a \<leftarrow> wr_all a (rightoff + 4) [x2, y2];
     let mix = (\<lambda>u v. fadd u (fmul t (fsub v u)));
     let (x1, y1) = (mix x1 ctrlx, mix y1 ctrly);
     let (x2, y2) = (mix ctrlx x2, mix ctrly y2);
     let (ctrlx, ctrly) = (mix x1 x2, mix y1 y2);
     a \<leftarrow> wr_all a (leftoff + 2) [x1, y1, ctrlx, ctrly];
     wr_all a rightoff [ctrlx, ctrly, x2, y2]
   }"

text \<open>A type that is neither 6 nor 8 does nothing.\<close>

definition Helpers_subdivide :: "jfloat list \<Rightarrow> jint \<Rightarrow> jint \<Rightarrow> jint \<Rightarrow> jint \<Rightarrow> jfloat list option" where
  "Helpers_subdivide a srcoff leftoff rightoff type =
     (if type = 6 then Helpers_subdivideQuad a srcoff leftoff rightoff
      else if type = 8 then Helpers_subdivideCubic a srcoff leftoff rightoff
      else Some a)"

definition Helpers_subdivideAt :: "jfloat \<Rightarrow> jfloat list \<Rightarrow> jint \<Rightarrow> jint \<Rightarrow> jint \<Rightarrow> jint \<Rightarrow> jfloat list option" where
  "Helpers_subdivideAt t a srcoff leftoff rightoff type =
     (if type = 8 then Helpers_subdivideCubicAt t a srcoff leftoff rightoff
      else if type = 6 then Helpers_subdivideQuadAt t a srcoff leftoff rightoff
      else Some a)"

section \<open>Points of interest of a curve\<close>

definition Curve_set :: "jfloat list \<Rightarrow> jint \<Rightarrow> curve \<Rightarrow> curve option" where
  "Curve_set points type c =
     (if type = 8 then do {
        x1 \<leftarrow> rd points 0; y1 \<leftarrow> rd points 1; x2 \<leftarrow> rd points 2; y2 \<leftarrow> rd points 3;
        x3 \<leftarrow> rd points 4; y3 \<leftarrow> rd points 5; x4 \<leftarrow> rd points 6; y4 \<leftarrow> rd points 7;
        Some (Curve_setcubic x1 y1 x2 y2 x3 y3 x4 y4)
      }
      else if type = 6 then do {
        x1 \<leftarrow> rd points 0; y1 \<leftarrow> rd points 1; x2 \<leftarrow> rd points 2; y2 \<leftarrow> rd points 3;
        x3 \<leftarrow> rd points 4; y3 \<leftarrow> rd points 5;
        Some (Curve_setquad x1 y1 x2 y2 x3 y3)
      }
      else Some c)"

definition Curve_dxRoots :: "curve \<Rightarrow> jfloat list \<Rightarrow> jint \<Rightarrow> (jint \<times> jfloat list) option" where
  "Curve_dxRoots c roots off = Helpers_quadraticRoots (cv_dax c) (cv_dbx c) (cv_cx c) roots off"

definition Curve_dyRoots :: "curve \<Rightarrow> jfloat list \<Rightarrow> jint \<Rightarrow> (jint \<times> jfloat list) option" where
  "Curve_dyRoots c roots off = Helpers_quadraticRoots (cv_day c) (cv_dby c) (cv_cy c) roots off"

definition Curve_infPoints :: "curve \<Rightarrow> jfloat list \<Rightarrow> jint \<Rightarrow> (jint \<times> jfloat list) option" where
  "Curve_infPoints this pts off =
     (let a = fsub (fmul (cv_dax this) (cv_dby this)) (fmul (cv_dbx this) (cv_day this));
          b = fmul (fint 2) (fsub (fmul (cv_cy this) (cv_dax this)) (fmul (cv_day this) (cv_cx this)));
          c = fsub (fmul (cv_cy this) (cv_dbx this)) (fmul (cv_cx this) (cv_dby this))
      in Helpers_quadraticRoots a b c pts off)"

definition perpendiculardfddf :: "math_lib \<Rightarrow> curve \<Rightarrow> jfloat list \<Rightarrow> jint \<Rightarrow> (jint \<times> jfloat list) option" where
  "perpendiculardfddf lm this pts off =
     (let a = fmul (fint 2) (fadd (fmul (cv_dax this) (cv_dax this)) (fmul (cv_day this) (cv_day this)));
          b = fmul (fint 3) (fadd (fmul (cv_dax this) (cv_dbx this)) (fmul (cv_day this) (cv_dby this)));
          c = fadd (fadd (fmul (fint 2) (fadd (fmul (cv_dax this) (cv_cx this)) (fmul (cv_day this) (cv_cy this))))
                         (fmul (cv_dbx this) (cv_dbx this)))
                   (fmul (cv_dby this) (cv_dby this));
          d = fadd (fmul (cv_dbx this) (cv_cx this)) (fmul (cv_dby this) (cv_cy this))
      in Helpers_cubicRootsInAB lm a b c d pts off (fint 0) (fint 1))"

text \<open>The radius of curvature, squared.\<close>

definition ROCsq :: "curve \<Rightarrow> jfloat \<Rightarrow> jfloat" where
  "ROCsq this t =
     (let dx = fadd (fmul t (fadd (fmul t (cv_dax this)) (cv_dbx this))) (cv_cx this);
          dy = fadd (fmul t (fadd (fmul t (cv_day this)) (cv_dby this))) (cv_cy this);
          ddx = fadd (fmul (fmul (fint 2) (cv_dax this)) t) (cv_dbx this);
          ddy = fadd (fmul (fmul (fint 2) (cv_day this)) t) (cv_dby this);
          dx2dy2 = fadd (fmul dx dx) (fmul dy dy);
          ddx2ddy2 = fadd (fmul ddx ddx) (fmul ddy ddy);
          ddxdxddydy = fadd (fmul ddx dx) (fmul ddy dy)
      in fmul dx2dy2 (fdiv (fmul dx2dy2 dx2dy2) (fsub (fmul dx2dy2 ddx2ddy2) (fmul ddxdxddydy ddxdxddydy))))"

definition eliminateInf :: "jfloat \<Rightarrow> jfloat" where
  "eliminateInf x =
     (if fp_less BIGGEST_FLOAT x then BIGGEST_FLOAT
      else if fp_less x (fp_neg BIGGEST_FLOAT) then fp_neg BIGGEST_FLOAT else x)"

definition sameSign :: "jdouble \<Rightarrow> jdouble \<Rightarrow> bool" where
  "sameSign x y \<longleftrightarrow> fp_less x (fint 0) \<and> fp_less y (fint 0) \<or> fp_less (fint 0) x \<and> fp_less (fint 0) y"

text \<open>
  \<^verbatim>\<open>1 << n\<close>. C leaves a shift by the width or more open; the shift instruction of the x86 targets uses the low five bits of
  the amount.
\<close>

definition one_shl :: "jint \<Rightarrow> jint" where
  "one_shl n = i32 (2 ^ nat (n mod 32))"

text \<open>The iteration; \<open>n\<close> counts down from \<^verbatim>\<open>iterLimit\<close>.\<close>

fun false_position ::
    "nat \<Rightarrow> curve \<Rightarrow> jfloat \<Rightarrow> jfloat \<Rightarrow> jint \<Rightarrow> jfloat \<Rightarrow> jfloat \<Rightarrow> jfloat \<Rightarrow> jfloat \<Rightarrow> jfloat \<Rightarrow> jfloat" where
  "false_position 0 this x err side t ft s fs r = r"
| "false_position (Suc n) this x err side t ft s fs r =
     (if fp_less (dmul err (fp_abs (fadd t s))) (fp_abs (fsub t s)) then
        (let r = fdiv (fsub (fmul fs t) (fmul ft s)) (fsub fs ft);
             fr = fsub (ROCsq this r) x
         in if sameSign fr ft then
              (if side < 0
               then false_position n this x err (side - 1) r fr s (fdiv fs (fint (one_shl (- side)))) r
               else false_position n this x err (- 1) r fr s fs r)
            else if fp_less (fint 0) (fmul fr fs) then
              (if 0 < side
               then false_position n this x err (side + 1) t (fdiv ft (fint (one_shl side))) r fr r
               else false_position n this x err 1 t ft r fr r)
            else r)
      else r)"

definition falsePositionROCsqMinusX :: "curve \<Rightarrow> jfloat \<Rightarrow> jfloat \<Rightarrow> jfloat \<Rightarrow> jfloat \<Rightarrow> jfloat" where
  "falsePositionROCsqMinusX this x0 x1 x err =
     (let ft = eliminateInf (fsub (ROCsq this x1) x);
          fs = eliminateInf (fsub (ROCsq this x0) x)
      in false_position 100 this x err 0 x1 ft x0 fs x0)"

definition Curve_rootsOfROCMinusW ::
    "math_lib \<Rightarrow> curve \<Rightarrow> jfloat list \<Rightarrow> jint \<Rightarrow> jfloat \<Rightarrow> jfloat \<Rightarrow> (jint \<times> jfloat list) option" where
  "Curve_rootsOfROCMinusW lm this roots off w err = do {
     (numPerpdfddf, roots) \<leftarrow> perpendiculardfddf lm this roots off;
     let t0 = fint 0;
     let ft0 = fsub (ROCsq this t0) (fmul w w);
     roots \<leftarrow> wr roots (off + numPerpdfddf) (fint 1);
     (ret, t0, ft0, roots) \<leftarrow> for_loop (numPerpdfddf + 1) (\<lambda>i (ret, t0, ft0, roots). do {
       t1 \<leftarrow> rd roots (off + i);
       let ft1 = fsub (ROCsq this t1) (fmul w w);
       (ret, roots) \<leftarrow>
         (if fp_eq ft0 (fint 0) then map_option (\<lambda>roots. (ret + 1, roots)) (wr roots ret t0)
          else if fp_less (fmul ft1 ft0) (fint 0) then
            map_option (\<lambda>roots. (ret + 1, roots)) (wr roots ret (falsePositionROCsqMinusX this t0 t1 (fmul w w) err))
          else Some (ret, roots));
       Some (ret, t1, ft1, roots)
     }) (off, t0, ft0, roots);
     Some (ret - off, roots)
   }"

end
