(* ===== verification/Prism_Stroker.thy ===== *)
theory Prism_Stroker
  imports Prism_Curve
begin

text \<open>
  \<^verbatim>\<open>Stroker.c\<close>: a consumer that turns a path into the outline of its stroke. It calls the next consumer; the calls are
  collected in the field \<open>st_calls\<close>, in order, since nothing the next consumer does comes back. The far side of the outline is
  kept on a stack until the subpath ends.
\<close>

section \<open>State\<close>

record poly_stack =
  ps_curves :: "jfloat list"
  ps_curvesSIZE :: jint
  ps_end :: jint
  ps_curveTypes :: "jint list"
  ps_curveTypesSIZE :: jint
  ps_numCurves :: jint

abbreviation (input) JOIN_MITER :: jint where "JOIN_MITER \<equiv> 0"
abbreviation (input) JOIN_ROUND :: jint where "JOIN_ROUND \<equiv> 1"
abbreviation (input) CAP_ROUND :: jint where "CAP_ROUND \<equiv> 1"
abbreviation (input) CAP_SQUARE :: jint where "CAP_SQUARE \<equiv> 2"
abbreviation (input) MOVE_TO :: jint where "MOVE_TO \<equiv> 0"
abbreviation (input) DRAWING_OP_TO :: jint where "DRAWING_OP_TO \<equiv> 1"
abbreviation (input) CLOSE :: jint where "CLOSE \<equiv> 2"

text \<open>
  The four fields before the last are the static arrays of the file. The arrays \<^verbatim>\<open>offset\<close> and \<^verbatim>\<open>miter\<close> only pass results from a
  function to its caller, which reads them at once; here they are the results.
\<close>

record stroker =
  st_capStyle :: jint
  st_joinStyle :: jint
  st_lineWidth2 :: jfloat
  st_miterLimitSq :: jfloat
  st_prev :: jint
  st_sx0 :: jfloat
  st_sy0 :: jfloat
  st_sdx :: jfloat
  st_sdy :: jfloat
  st_cx0 :: jfloat
  st_cy0 :: jfloat
  st_cdx :: jfloat
  st_cdy :: jfloat
  st_smx :: jfloat
  st_smy :: jfloat
  st_cmx :: jfloat
  st_cmy :: jfloat
  st_reverse :: poly_stack
  st_c :: curve
  st_middle :: "jfloat list"
  st_lp :: "jfloat list"
  st_rp :: "jfloat list"
  st_subdivTs :: "jfloat list"
  st_calls :: "path_op list"

text \<open>What the code takes from its environment: the allocator, the mathematical library, the bits of a value that is no number.\<close>

record stroke_env =
  se_alloc :: "int \<Rightarrow> bool"
  se_math :: math_lib
  se_nan :: jint

section \<open>The stack\<close>

abbreviation (input) INIT_SIZE :: jint where "INIT_SIZE \<equiv> 50"

definition PolyStack_init :: "(int \<Rightarrow> bool) \<Rightarrow> poly_stack" where
  "PolyStack_init alloc =
     \<lparr>ps_curves = new_float alloc (8 * INIT_SIZE), ps_curvesSIZE = 8 * INIT_SIZE, ps_end = 0,
      ps_curveTypes = new_int alloc INIT_SIZE, ps_curveTypesSIZE = INIT_SIZE, ps_numCurves = 0\<rparr>"

definition PolyStack_isEmpty :: "poly_stack \<Rightarrow> bool" where
  "PolyStack_isEmpty this \<longleftrightarrow> ps_numCurves this = 0"

definition ensureSpace :: "(int \<Rightarrow> bool) \<Rightarrow> jint \<Rightarrow> poly_stack \<Rightarrow> poly_stack option" where
  "ensureSpace alloc n this = do {
     this \<leftarrow> (if ps_curvesSIZE this \<le> i32 (ps_end this + n) then do {
        let newSize = i32 ((ps_end this + n) * 2);
        newCurves \<leftarrow> System_arraycopy (ps_curves this) 0 (new_float alloc newSize) 0 (ps_end this);
        Some (this\<lparr>ps_curves := newCurves, ps_curvesSIZE := newSize\<rparr>)
      }
      else Some this);
     if ps_curveTypesSIZE this \<le> ps_numCurves this then do {
       let newSize = i32 (ps_numCurves this * 2);
       newTypes \<leftarrow> System_arraycopy (ps_curveTypes this) 0 (new_int alloc newSize) 0 (ps_numCurves this);
       Some (this\<lparr>ps_curveTypes := newTypes, ps_curveTypesSIZE := newSize\<rparr>)
     }
     else Some this
   }"

text \<open>The common form of the three functions that push: the type and the coordinates, in the order they are stored.\<close>

definition push_seg :: "(int \<Rightarrow> bool) \<Rightarrow> jint \<Rightarrow> jfloat list \<Rightarrow> poly_stack \<Rightarrow> poly_stack option" where
  "push_seg alloc type vs this = do {
     this \<leftarrow> ensureSpace alloc (int (length vs)) this;
     types \<leftarrow> wr (ps_curveTypes this) (ps_numCurves this) type;
     curves \<leftarrow> wr_all (ps_curves this) (ps_end this) vs;
     Some (this\<lparr>ps_curveTypes := types, ps_numCurves := i32 (ps_numCurves this + 1),
                ps_curves := curves, ps_end := i32 (ps_end this + int (length vs))\<rparr>)
   }"

definition PolyStack_pushCubic ::
    "(int \<Rightarrow> bool) \<Rightarrow> jfloat \<Rightarrow> jfloat \<Rightarrow> jfloat \<Rightarrow> jfloat \<Rightarrow> jfloat \<Rightarrow> jfloat \<Rightarrow> poly_stack \<Rightarrow> poly_stack option" where
  "PolyStack_pushCubic alloc x0 y0 x1 y1 x2 y2 this = push_seg alloc 8 [x2, y2, x1, y1, x0, y0] this"

definition PolyStack_pushQuad ::
    "(int \<Rightarrow> bool) \<Rightarrow> jfloat \<Rightarrow> jfloat \<Rightarrow> jfloat \<Rightarrow> jfloat \<Rightarrow> poly_stack \<Rightarrow> poly_stack option" where
  "PolyStack_pushQuad alloc x0 y0 x1 y1 this = push_seg alloc 6 [x1, y1, x0, y0] this"

definition PolyStack_pushLine :: "(int \<Rightarrow> bool) \<Rightarrow> jfloat \<Rightarrow> jfloat \<Rightarrow> poly_stack \<Rightarrow> poly_stack option" where
  "PolyStack_pushLine alloc x y this = push_seg alloc 4 [x, y] this"

text \<open>The result is the call to \<^verbatim>\<open>io\<close>, if there is one.\<close>

definition PolyStack_pop :: "poly_stack \<Rightarrow> (path_op list \<times> poly_stack) option" where
  "PolyStack_pop this = do {
     let this = this\<lparr>ps_numCurves := i32 (ps_numCurves this - 1)\<rparr>;
     type \<leftarrow> rd (ps_curveTypes this) (ps_numCurves this);
     let e = i32 (ps_end this - (type - 2));
     let this = this\<lparr>ps_end := e\<rparr>;
     if type = 8 then do {
       x1 \<leftarrow> rd (ps_curves this) e; y1 \<leftarrow> rd (ps_curves this) (e + 1);
       x2 \<leftarrow> rd (ps_curves this) (e + 2); y2 \<leftarrow> rd (ps_curves this) (e + 3);
       x3 \<leftarrow> rd (ps_curves this) (e + 4); y3 \<leftarrow> rd (ps_curves this) (e + 5);
       Some ([CurveTo x1 y1 x2 y2 x3 y3], this)
     }
     else if type = 6 then do {
       x1 \<leftarrow> rd (ps_curves this) e; y1 \<leftarrow> rd (ps_curves this) (e + 1);
       x2 \<leftarrow> rd (ps_curves this) (e + 2); y2 \<leftarrow> rd (ps_curves this) (e + 3);
       Some ([QuadTo x1 y1 x2 y2], this)
     }
     else if type = 4 then do {
       x1 \<leftarrow> rd (ps_curves this) e; y1 \<leftarrow> rd (ps_curves this) (e + 1);
       Some ([LineTo x1 y1], this)
     }
     else Some ([], this)
   }"

section \<open>Emitting\<close>

definition emit :: "path_op list \<Rightarrow> stroker \<Rightarrow> stroker" where
  "emit ps this = this\<lparr>st_calls := st_calls this @ ps\<rparr>"

definition emitMoveTo :: "jfloat \<Rightarrow> jfloat \<Rightarrow> stroker \<Rightarrow> stroker" where
  "emitMoveTo x0 y0 this = emit [MoveTo x0 y0] this"

definition emitLineTo :: "stroke_env \<Rightarrow> jfloat \<Rightarrow> jfloat \<Rightarrow> bool \<Rightarrow> stroker \<Rightarrow> stroker option" where
  "emitLineTo env x1 y1 rv this =
     (if rv then map_option (\<lambda>r. this\<lparr>st_reverse := r\<rparr>) (PolyStack_pushLine (se_alloc env) x1 y1 (st_reverse this))
      else Some (emit [LineTo x1 y1] this))"

definition emitQuadTo ::
    "stroke_env \<Rightarrow> jfloat \<Rightarrow> jfloat \<Rightarrow> jfloat \<Rightarrow> jfloat \<Rightarrow> jfloat \<Rightarrow> jfloat \<Rightarrow> bool \<Rightarrow> stroker \<Rightarrow> stroker option" where
  "emitQuadTo env x0 y0 x1 y1 x2 y2 rv this =
     (if rv then map_option (\<lambda>r. this\<lparr>st_reverse := r\<rparr>) (PolyStack_pushQuad (se_alloc env) x0 y0 x1 y1 (st_reverse this))
      else Some (emit [QuadTo x1 y1 x2 y2] this))"

definition emitCurveTo ::
    "stroke_env \<Rightarrow> jfloat \<Rightarrow> jfloat \<Rightarrow> jfloat \<Rightarrow> jfloat \<Rightarrow> jfloat \<Rightarrow> jfloat \<Rightarrow> jfloat \<Rightarrow> jfloat \<Rightarrow> bool \<Rightarrow> stroker \<Rightarrow> stroker option" where
  "emitCurveTo env x0 y0 x1 y1 x2 y2 x3 y3 rv this =
     (if rv then map_option (\<lambda>r. this\<lparr>st_reverse := r\<rparr>) (PolyStack_pushCubic (se_alloc env) x0 y0 x1 y1 x2 y2 (st_reverse this))
      else Some (emit [CurveTo x1 y1 x2 y2 x3 y3] this))"

definition emitClose :: "stroker \<Rightarrow> stroker" where
  "emitClose this = emit [ClosePath] this"

text \<open>
  \<^verbatim>\<open>while (!isEmpty) pop\<close>. Each turn takes one element off, so as many turns as there are elements are enough; the calls come
  back in the order they are made.
\<close>

fun pop_all :: "('s \<Rightarrow> bool) \<Rightarrow> ('s \<Rightarrow> ('p list \<times> 's) option) \<Rightarrow> nat \<Rightarrow> 's \<Rightarrow> ('p list \<times> 's) option" where
  "pop_all isEmpty pop 0 s = (if isEmpty s then Some ([], s) else None)"
| "pop_all isEmpty pop (Suc n) s =
     (if isEmpty s then Some ([], s)
      else do {
        (ps, s) \<leftarrow> pop s;
        (qs, s) \<leftarrow> pop_all isEmpty pop n s;
        Some (ps @ qs, s)
      })"

definition emitReverse :: "stroker \<Rightarrow> stroker option" where
  "emitReverse this = do {
     (ps, r) \<leftarrow> pop_all PolyStack_isEmpty PolyStack_pop (nat (ps_numCurves (st_reverse this))) (st_reverse this);
     Some (emit ps (this\<lparr>st_reverse := r\<rparr>))
   }"

section \<open>Joins and caps\<close>

definition computeOffset :: "jfloat \<Rightarrow> jfloat \<Rightarrow> jfloat \<Rightarrow> jfloat \<times> jfloat" where
  "computeOffset lx ly w =
     (let len = fsqrt (fadd (fmul lx lx) (fmul ly ly))
      in if fp_eq len (fint 0) then (fint 0, fint 0)
         else (fdiv (fmul ly w) len, fdiv (fp_neg (fmul lx w)) len))"

definition isCW :: "jfloat \<Rightarrow> jfloat \<Rightarrow> jfloat \<Rightarrow> jfloat \<Rightarrow> bool" where
  "isCW dx1 dy1 dx2 dy2 \<longleftrightarrow> fp_le (fmul dx1 dy2) (fmul dy1 dx2)"

abbreviation (input) ROUND_JOIN_THRESHOLD :: jfloat where
  "ROUND_JOIN_THRESHOLD \<equiv> fdiv (fint 1000) (fint 65536)"

definition drawBezApproxForArc ::
    "stroke_env \<Rightarrow> jfloat \<Rightarrow> jfloat \<Rightarrow> jfloat \<Rightarrow> jfloat \<Rightarrow> jfloat \<Rightarrow> jfloat \<Rightarrow> bool \<Rightarrow> stroker \<Rightarrow> stroker option" where
  "drawBezApproxForArc env cx cy omx omy mx my rv this =
     (let w2 = st_lineWidth2 this;
          cosext2 = fdiv (fadd (fmul omx mx) (fmul omy my)) (fmul (fmul (fint 2) w2) w2);
          half = fp_literal F64 5 1;
          cv = tofloat (ddiv (dmul (ddiv (dint 4) (dint 3)) (dsqrt (dsub half cosext2)))
                             (dadd (dint 1) (dsqrt (dadd cosext2 half))));
          cv = (if rv then fp_neg cv else cv);
          x1 = fadd cx omx; y1 = fadd cy omy;
          x2 = fsub x1 (fmul cv omy); y2 = fadd y1 (fmul cv omx);
          x4 = fadd cx mx; y4 = fadd cy my;
          x3 = fadd x4 (fmul cv my); y3 = fsub y4 (fmul cv mx)
      in emitCurveTo env x1 y1 x2 y2 x3 y3 x4 y4 rv this)"

definition drawRoundJoin2 ::
    "stroke_env \<Rightarrow> jfloat \<Rightarrow> jfloat \<Rightarrow> jfloat \<Rightarrow> jfloat \<Rightarrow> jfloat \<Rightarrow> jfloat \<Rightarrow> bool \<Rightarrow> stroker \<Rightarrow> stroker option" where
  "drawRoundJoin2 env cx cy omx omy mx my rv this =
     (let cosext = fadd (fmul omx mx) (fmul omy my)
      in if fp_le (fint 0) cosext then drawBezApproxForArc env cx cy omx omy mx my rv this
         else
           (let nx = fsub my omy; ny = fsub omx mx;
                nlen = fsqrt (fadd (fmul nx nx) (fmul ny ny));
                scale = fdiv (st_lineWidth2 this) nlen;
                mmx = fmul nx scale; mmy = fmul ny scale;
                (mmx, mmy) = (if rv then (fp_neg mmx, fp_neg mmy) else (mmx, mmy))
            in do {
              this \<leftarrow> drawBezApproxForArc env cx cy omx omy mmx mmy rv this;
              drawBezApproxForArc env cx cy mmx mmy mx my rv this
            }))"

definition drawRoundJoin ::
    "stroke_env \<Rightarrow> jfloat \<Rightarrow> jfloat \<Rightarrow> jfloat \<Rightarrow> jfloat \<Rightarrow> jfloat \<Rightarrow> jfloat \<Rightarrow> bool \<Rightarrow> jfloat \<Rightarrow> stroker \<Rightarrow> stroker option" where
  "drawRoundJoin env x y omx omy mx my rv threshold this =
     (let z = fint 0
      in if fp_eq omx z \<and> fp_eq omy z \<or> fp_eq mx z \<and> fp_eq my z then Some this
         else
           (let domx = fsub omx mx; domy = fsub omy my;
                len = fadd (fmul domx domx) (fmul domy domy)
            in if fp_less len threshold then Some this
               else
                 (let (omx, omy, mx, my) = (if rv then (fp_neg omx, fp_neg omy, fp_neg mx, fp_neg my) else (omx, omy, mx, my))
                  in drawRoundJoin2 env x y omx omy mx my rv this)))"

definition drawRoundCap :: "stroke_env \<Rightarrow> jfloat \<Rightarrow> jfloat \<Rightarrow> jfloat \<Rightarrow> jfloat \<Rightarrow> stroker \<Rightarrow> stroker option" where
  "drawRoundCap env cx cy mx my this = do {
     let C = fp_literal F32 5522847498307933 16;
     this \<leftarrow> emitCurveTo env (fadd cx mx) (fadd cy my)
       (fsub (fadd cx mx) (fmul C my)) (fadd (fadd cy my) (fmul C mx))
       (fadd (fsub cx my) (fmul C mx)) (fadd (fadd cy mx) (fmul C my))
       (fsub cx my) (fadd cy mx) False this;
     emitCurveTo env (fsub cx my) (fadd cy mx)
       (fsub (fsub cx my) (fmul C mx)) (fsub (fadd cy mx) (fmul C my))
       (fsub (fsub cx mx) (fmul C my)) (fadd (fsub cy my) (fmul C mx))
       (fsub cx mx) (fsub cy my) False this
   }"

definition computeMiter ::
    "jfloat \<Rightarrow> jfloat \<Rightarrow> jfloat \<Rightarrow> jfloat \<Rightarrow> jfloat \<Rightarrow> jfloat \<Rightarrow> jfloat \<Rightarrow> jfloat \<Rightarrow> jfloat \<times> jfloat" where
  "computeMiter x0 y0 x1 y1 x0p y0p x1p y1p =
     (let x10 = fsub x1 x0; y10 = fsub y1 y0; x10p = fsub x1p x0p; y10p = fsub y1p y0p;
          den = fsub (fmul x10 y10p) (fmul x10p y10);
          t = fsub (fmul x10p (fsub y0 y0p)) (fmul y10p (fsub x0 x0p));
          t = fdiv t den
      in (fadd x0 (fmul t x10), fadd y0 (fmul t y10)))"

definition safecomputeMiter ::
    "jfloat \<Rightarrow> jfloat \<Rightarrow> jfloat \<Rightarrow> jfloat \<Rightarrow> jfloat \<Rightarrow> jfloat \<Rightarrow> jfloat \<Rightarrow> jfloat \<Rightarrow> jfloat \<times> jfloat" where
  "safecomputeMiter x0 y0 x1 y1 x0p y0p x1p y1p =
     (let x10 = fsub x1 x0; y10 = fsub y1 y0; x10p = fsub x1p x0p; y10p = fsub y1p y0p;
          den = fsub (fmul x10 y10p) (fmul x10p y10)
      in if fp_eq den (fint 0) then (fdiv (fadd x0 x0p) (fint 2), fdiv (fadd y0 y0p) (fint 2))
         else
           (let t = fsub (fmul x10p (fsub y0 y0p)) (fmul y10p (fsub x0 x0p));
                t = fdiv t den
            in (fadd x0 (fmul t x10), fadd y0 (fmul t y10))))"

definition drawMiter ::
    "stroke_env \<Rightarrow> jfloat \<Rightarrow> jfloat \<Rightarrow> jfloat \<Rightarrow> jfloat \<Rightarrow> jfloat \<Rightarrow> jfloat \<Rightarrow> jfloat \<Rightarrow> jfloat \<Rightarrow> jfloat \<Rightarrow> jfloat \<Rightarrow> bool \<Rightarrow>
     stroker \<Rightarrow> stroker option" where
  "drawMiter env pdx pdy x0 y0 dx dy omx omy mx my rv this =
     (let z = fint 0
      in if fp_eq mx omx \<and> fp_eq my omy \<or> fp_eq pdx z \<and> fp_eq pdy z \<or> fp_eq dx z \<and> fp_eq dy z then Some this
         else
           (let (omx, omy, mx, my) = (if rv then (fp_neg omx, fp_neg omy, fp_neg mx, fp_neg my) else (omx, omy, mx, my));
                (m0, m1) = computeMiter (fadd (fsub x0 pdx) omx) (fadd (fsub y0 pdy) omy) (fadd x0 omx) (fadd y0 omy)
                             (fadd (fadd dx x0) mx) (fadd (fadd dy y0) my) (fadd x0 mx) (fadd y0 my);
                lenSq = fadd (fmul (fsub m0 x0) (fsub m0 x0)) (fmul (fsub m1 y0) (fsub m1 y0))
            in if fp_less lenSq (st_miterLimitSq this) then emitLineTo env m0 m1 rv this else Some this))"

definition drawJoin ::
    "stroke_env \<Rightarrow> jfloat \<Rightarrow> jfloat \<Rightarrow> jfloat \<Rightarrow> jfloat \<Rightarrow> jfloat \<Rightarrow> jfloat \<Rightarrow> jfloat \<Rightarrow> jfloat \<Rightarrow> jfloat \<Rightarrow> jfloat \<Rightarrow>
     stroker \<Rightarrow> stroker option" where
  "drawJoin env pdx pdy x0 y0 dx dy omx omy mx my this = do {
     this \<leftarrow> (if st_prev this \<noteq> DRAWING_OP_TO then
                Some ((emitMoveTo (fadd x0 mx) (fadd y0 my) this)\<lparr>st_sdx := dx, st_sdy := dy, st_smx := mx, st_smy := my\<rparr>)
              else do {
                let cw = isCW pdx pdy dx dy;
                this \<leftarrow> (if st_joinStyle this = JOIN_MITER then drawMiter env pdx pdy x0 y0 dx dy omx omy mx my cw this
                         else if st_joinStyle this = JOIN_ROUND then drawRoundJoin env x0 y0 omx omy mx my cw ROUND_JOIN_THRESHOLD this
                         else Some this);
                emitLineTo env x0 y0 (\<not> cw) this
              });
     Some (this\<lparr>st_prev := DRAWING_OP_TO\<rparr>)
   }"

definition finish :: "stroke_env \<Rightarrow> stroker \<Rightarrow> stroker option" where
  "finish env this = do {
     this \<leftarrow> (if st_capStyle this = CAP_ROUND then
                drawRoundCap env (st_cx0 this) (st_cy0 this) (st_cmx this) (st_cmy this) this
              else if st_capStyle this = CAP_SQUARE then do {
                let (x, y, mx, my) = (st_cx0 this, st_cy0 this, st_cmx this, st_cmy this);
                this \<leftarrow> emitLineTo env (fadd (fsub x my) mx) (fadd (fadd y mx) my) False this;
                emitLineTo env (fsub (fsub x my) mx) (fsub (fadd y mx) my) False this
              }
              else Some this);
     this \<leftarrow> emitReverse this;
     this \<leftarrow> (if st_capStyle this = CAP_ROUND then
                drawRoundCap env (st_sx0 this) (st_sy0 this) (fp_neg (st_smx this)) (fp_neg (st_smy this)) this
              else if st_capStyle this = CAP_SQUARE then do {
                let (x, y, mx, my) = (st_sx0 this, st_sy0 this, st_smx this, st_smy this);
                this \<leftarrow> emitLineTo env (fsub (fadd x my) mx) (fsub (fsub y mx) my) False this;
                emitLineTo env (fadd (fadd x my) mx) (fadd (fsub y mx) my) False this
              }
              else Some this);
     Some (emitClose this)
   }"

section \<open>Straight segments\<close>

definition Stroker_moveTo :: "stroke_env \<Rightarrow> jfloat \<Rightarrow> jfloat \<Rightarrow> stroker \<Rightarrow> stroker option" where
  "Stroker_moveTo env x0 y0 this = do {
     this \<leftarrow> (if st_prev this = DRAWING_OP_TO then finish env this else Some this);
     Some (this\<lparr>st_sx0 := x0, st_cx0 := x0, st_sy0 := y0, st_cy0 := y0, st_cdx := fint 1, st_sdx := fint 1,
                st_cdy := fint 0, st_sdy := fint 0, st_prev := MOVE_TO\<rparr>)
   }"

definition Stroker_lineTo :: "stroke_env \<Rightarrow> jfloat \<Rightarrow> jfloat \<Rightarrow> stroker \<Rightarrow> stroker option" where
  "Stroker_lineTo env x1 y1 this = do {
     let dx = fsub x1 (st_cx0 this);
     let dy = fsub y1 (st_cy0 this);
     let dx = (if fp_eq dx (fint 0) \<and> fp_eq dy (fint 0) then fint 1 else dx);
     let (mx, my) = computeOffset dx dy (st_lineWidth2 this);
     this \<leftarrow> drawJoin env (st_cdx this) (st_cdy this) (st_cx0 this) (st_cy0 this) dx dy (st_cmx this) (st_cmy this) mx my this;
     this \<leftarrow> emitLineTo env (fadd (st_cx0 this) mx) (fadd (st_cy0 this) my) False this;
     this \<leftarrow> emitLineTo env (fadd x1 mx) (fadd y1 my) False this;
     this \<leftarrow> emitLineTo env (fsub (st_cx0 this) mx) (fsub (st_cy0 this) my) True this;
     this \<leftarrow> emitLineTo env (fsub x1 mx) (fsub y1 my) True this;
     Some (this\<lparr>st_cmx := mx, st_cmy := my, st_cdx := dx, st_cdy := dy, st_cx0 := x1, st_cy0 := y1, st_prev := DRAWING_OP_TO\<rparr>)
   }"

definition Stroker_closePath :: "stroke_env \<Rightarrow> stroker \<Rightarrow> stroker option" where
  "Stroker_closePath env this =
     (if st_prev this \<noteq> DRAWING_OP_TO then
        (if st_prev this = CLOSE then Some this
         else
           (let this = emitMoveTo (st_cx0 this) (fsub (st_cy0 this) (st_lineWidth2 this)) this
            in finish env (this\<lparr>st_cmx := fint 0, st_smx := fint 0,
                                st_cmy := fp_neg (st_lineWidth2 this), st_smy := fp_neg (st_lineWidth2 this),
                                st_cdx := fint 1, st_sdx := fint 1, st_cdy := fint 0, st_sdy := fint 0\<rparr>)))
      else do {
        this \<leftarrow> (if \<not> fp_eq (st_cx0 this) (st_sx0 this) \<or> \<not> fp_eq (st_cy0 this) (st_sy0 this)
                 then Stroker_lineTo env (st_sx0 this) (st_sy0 this) this else Some this);
        this \<leftarrow> drawJoin env (st_cdx this) (st_cdy this) (st_cx0 this) (st_cy0 this) (st_sdx this) (st_sdy this)
                  (st_cmx this) (st_cmy this) (st_smx this) (st_smy this) this;
        this \<leftarrow> emitLineTo env (fadd (st_sx0 this) (st_smx this)) (fadd (st_sy0 this) (st_smy this)) False this;
        let this = emitMoveTo (fsub (st_sx0 this) (st_smx this)) (fsub (st_sy0 this) (st_smy this)) this;
        this \<leftarrow> emitReverse this;
        Some (emitClose (this\<lparr>st_prev := CLOSE\<rparr>))
      })"

definition Stroker_pathDone :: "stroke_env \<Rightarrow> stroker \<Rightarrow> stroker option" where
  "Stroker_pathDone env this = do {
     this \<leftarrow> (if st_prev this = DRAWING_OP_TO then finish env this else Some this);
     Some ((emit [PathDone] this)\<lparr>st_prev := CLOSE\<rparr>)
   }"

section \<open>Offset curves\<close>

definition withinULP :: "stroke_env \<Rightarrow> jfloat \<Rightarrow> jfloat \<Rightarrow> jfloat \<Rightarrow> jfloat \<Rightarrow> jint \<Rightarrow> bool" where
  "withinULP env x1 y1 x2 y2 maxUlps \<longleftrightarrow>
     Helpers_withinULP (se_nan env) x1 x2 maxUlps \<and> Helpers_withinULP (se_nan env) y1 y2 maxUlps"

text \<open>The arrays for the left and the right curve come back with the first elements stored.\<close>

definition getLineOffsets ::
    "jfloat \<Rightarrow> jfloat \<Rightarrow> jfloat \<Rightarrow> jfloat \<Rightarrow> jfloat \<Rightarrow> jfloat list \<Rightarrow> jfloat list \<Rightarrow> (jfloat list \<times> jfloat list) option" where
  "getLineOffsets w x1 y1 x2 y2 left right = do {
     let (mx, my) = computeOffset (fsub x2 x1) (fsub y2 y1) w;
     left \<leftarrow> wr_all left 0 [fadd x1 mx, fadd y1 my, fadd x2 mx, fadd y2 my];
     right \<leftarrow> wr_all right 0 [fsub x1 mx, fsub y1 my, fsub x2 mx, fsub y2 my];
     Some (left, right)
   }"

definition line_kind :: "(jfloat list \<times> jfloat list) option \<Rightarrow> (jint \<times> jfloat list \<times> jfloat list) option" where
  "line_kind r = map_option (\<lambda>(left, right). (4, left, right)) r"

text \<open>\<open>side\<close> computes one offset curve from its end points and the point it goes through in the middle.\<close>

definition computeOffsetCubic ::
    "stroke_env \<Rightarrow> jfloat \<Rightarrow> jfloat list \<Rightarrow> jint \<Rightarrow> jfloat list \<Rightarrow> jfloat list \<Rightarrow> (jint \<times> jfloat list \<times> jfloat list) option" where
  "computeOffsetCubic env w pts off left right = do {
     x1 \<leftarrow> rd pts off; y1 \<leftarrow> rd pts (off + 1); x2 \<leftarrow> rd pts (off + 2); y2 \<leftarrow> rd pts (off + 3);
     x3 \<leftarrow> rd pts (off + 4); y3 \<leftarrow> rd pts (off + 5); x4 \<leftarrow> rd pts (off + 6); y4 \<leftarrow> rd pts (off + 7);
     let p1eqp2 = withinULP env x1 y1 x2 y2 6;
     let p3eqp4 = withinULP env x3 y3 x4 y4 6;
     if p1eqp2 \<and> p3eqp4 then line_kind (getLineOffsets w x1 y1 x4 y4 left right)
     else do {
       let (dx1, dy1) = (if p1eqp2 then (fsub x3 x1, fsub y3 y1) else (fsub x2 x1, fsub y2 y1));
       let (dx4, dy4) = (if \<not> p1eqp2 \<and> p3eqp4 then (fsub x4 x2, fsub y4 y2) else (fsub x4 x3, fsub y4 y3));
       let dot = fadd (fmul dx1 dx4) (fmul dy1 dy4);
       let dotsq = fmul dot dot;
       let l1sq = fadd (fmul dx1 dx1) (fmul dy1 dy1);
       let l4sq = fadd (fmul dx4 dx4) (fmul dy4 dy4);
       if Helpers_withinULP (se_nan env) dotsq (fmul l1sq l4sq) 4
       then line_kind (getLineOffsets w x1 y1 x4 y4 left right)
       else do {
         let eighth = fp_literal F32 125 3;
         let x = fmul eighth (fadd (fadd x1 (fmul (fint 3) (fadd x2 x3))) x4);
         let y = fmul eighth (fadd (fadd y1 (fmul (fint 3) (fadd y2 y3))) y4);
         let dxm = fsub (fsub (fadd x3 x4) x1) x2;
         let dym = fsub (fsub (fadd y3 y4) y1) y2;
         let (o0x, o0y) = computeOffset dx1 dy1 w;
         let (o1x, o1y) = computeOffset dxm dym w;
         let (o2x, o2y) = computeOffset dx4 dy4 w;
         let invdet43 = fdiv (fint 4) (fmul (fint 3) (fsub (fmul dx1 dy4) (fmul dy1 dx4)));
         let side = (\<lambda>x1p y1p xi yi x4p y4p.
           (let tx = fsub (fsub (fmul (fint 2) xi) x1p) x4p;
                ty = fsub (fsub (fmul (fint 2) yi) y1p) y4p;
                c1 = fmul invdet43 (fsub (fmul dy4 tx) (fmul dx4 ty));
                c2 = fmul invdet43 (fsub (fmul dx1 ty) (fmul dy1 tx))
            in [x1p, y1p, fadd x1p (fmul c1 dx1), fadd y1p (fmul c1 dy1),
                fadd x4p (fmul c2 dx4), fadd y4p (fmul c2 dy4), x4p, y4p]));
         let xi = fadd x o1x;
         let yi = fadd y o1y;
         left \<leftarrow> wr_all left 0 (side (fadd x1 o0x) (fadd y1 o0y) xi yi (fadd x4 o2x) (fadd y4 o2y));
         right \<leftarrow> wr_all right 0 (side (fsub x1 o0x) (fsub y1 o0y)
                    (fsub xi (fmul (fint 2) o1x)) (fsub yi (fmul (fint 2) o1y)) (fsub x4 o2x) (fsub y4 o2y));
         Some (8, left, right)
       }
     }
   }"

definition computeOffsetQuad ::
    "stroke_env \<Rightarrow> jfloat \<Rightarrow> jfloat list \<Rightarrow> jint \<Rightarrow> jfloat list \<Rightarrow> jfloat list \<Rightarrow> (jint \<times> jfloat list \<times> jfloat list) option" where
  "computeOffsetQuad env w pts off left right = do {
     x1 \<leftarrow> rd pts off; y1 \<leftarrow> rd pts (off + 1); x2 \<leftarrow> rd pts (off + 2); y2 \<leftarrow> rd pts (off + 3);
     x3 \<leftarrow> rd pts (off + 4); y3 \<leftarrow> rd pts (off + 5);
     let dx3 = fsub x3 x2; let dy3 = fsub y3 y2;
     let dx1 = fsub x2 x1; let dy1 = fsub y2 y1;
     if withinULP env x1 y1 x2 y2 6 \<or> withinULP env x2 y2 x3 y3 6
     then line_kind (getLineOffsets w x1 y1 x3 y3 left right)
     else do {
       let dot = fadd (fmul dx1 dx3) (fmul dy1 dy3);
       let dotsq = fmul dot dot;
       let l1sq = fadd (fmul dx1 dx1) (fmul dy1 dy1);
       let l3sq = fadd (fmul dx3 dx3) (fmul dy3 dy3);
       if Helpers_withinULP (se_nan env) dotsq (fmul l1sq l3sq) 4
       then line_kind (getLineOffsets w x1 y1 x3 y3 left right)
       else do {
         let (o0x, o0y) = computeOffset dx1 dy1 w;
         let (o1x, o1y) = computeOffset dx3 dy3 w;
         let side = (\<lambda>x1p y1p x3p y3p.
           (let (mx, my) = safecomputeMiter x1p y1p (fadd x1p dx1) (fadd y1p dy1) x3p y3p (fsub x3p dx3) (fsub y3p dy3)
            in [x1p, y1p, mx, my, x3p, y3p]));
         left \<leftarrow> wr_all left 0 (side (fadd x1 o0x) (fadd y1 o0y) (fadd x3 o1x) (fadd y3 o1y));
         right \<leftarrow> wr_all right 0 (side (fsub x1 o0x) (fsub y1 o0y) (fsub x3 o1x) (fsub y3 o1y));
         Some (6, left, right)
       }
     }
   }"

section \<open>Curves\<close>

text \<open>The curve to look at, turned so that its first tangent is horizontal.\<close>

definition rotated_curve :: "jfloat list \<Rightarrow> jint \<Rightarrow> curve \<Rightarrow> curve option" where
  "rotated_curve pts type c = do {
     p0 \<leftarrow> rd pts 0; p1 \<leftarrow> rd pts 1; p2 \<leftarrow> rd pts 2; p3 \<leftarrow> rd pts 3;
     let x12 = fsub p2 p0;
     let y12 = fsub p3 p1;
     if \<not> fp_eq y12 (fint 0) \<and> \<not> fp_eq x12 (fint 0) then do {
       p4 \<leftarrow> rd pts 4; p5 \<leftarrow> rd pts 5;
       let hypot = fsqrt (fadd (fmul x12 x12) (fmul y12 y12));
       let cos = fdiv x12 hypot;
       let sin = fdiv y12 hypot;
       let tx = (\<lambda>x y. fadd (fmul cos x) (fmul sin y));
       let ty = (\<lambda>x y. fsub (fmul cos y) (fmul sin x));
       if type = 8 then do {
         p6 \<leftarrow> rd pts 6; p7 \<leftarrow> rd pts 7;
         Some (Curve_setcubic (tx p0 p1) (ty p0 p1) (tx p2 p3) (ty p2 p3) (tx p4 p5) (ty p4 p5) (tx p6 p7) (ty p6 p7))
       }
       else if type = 6 then Some (Curve_setquad (tx p0 p1) (ty p0 p1) (tx p2 p3) (ty p2 p3) (tx p4 p5) (ty p4 p5))
       else Some c
     }
     else Curve_set pts type c
   }"

definition findSubdivPoints ::
    "stroke_env \<Rightarrow> jfloat list \<Rightarrow> jfloat list \<Rightarrow> jint \<Rightarrow> jfloat \<Rightarrow> curve \<Rightarrow> (jint \<times> jfloat list \<times> curve) option" where
  "findSubdivPoints env pts ts type w c = do {
     c \<leftarrow> rotated_curve pts type c;
     (n, ts) \<leftarrow> Curve_dxRoots c ts 0;
     let ret = n;
     (n, ts) \<leftarrow> Curve_dyRoots c ts ret;
     let ret = ret + n;
     (n, ts) \<leftarrow> (if type = 8 then Curve_infPoints c ts ret else Some (0, ts));
     let ret = ret + n;
     (n, ts) \<leftarrow> Curve_rootsOfROCMinusW (se_math env) c ts ret w (fp_literal F32 1 4);
     let ret = ret + n;
     (ret, ts) \<leftarrow> Helpers_filterOutNotInAB ts 0 ret (fp_literal F32 1 4) (fp_literal F32 9999 4);
     ts \<leftarrow> Helpers_isort ts 0 ret;
     Some (ret, ts, c)
   }"

text \<open>Splitting the curve in place at the given parameters; \<open>step\<close> is the number of coordinates of a piece less its last point.\<close>

definition split_curve :: "jint \<Rightarrow> jint \<Rightarrow> jfloat list \<Rightarrow> jfloat list \<Rightarrow> jfloat list option" where
  "split_curve type nSplits ts middle = do {
     let step = type - 2;
     (prevT, middle) \<leftarrow> for_loop nSplits (\<lambda>i (prevT, middle). do {
       t \<leftarrow> rd ts i;
       middle \<leftarrow> Helpers_subdivideAt (fdiv (fsub t prevT) (fsub (fint 1) prevT)) middle (i * step) (i * step) (i * step + step) type;
       Some (t, middle)
     }) (fint 0, middle);
     Some middle
   }"

definition emit_piece :: "stroke_env \<Rightarrow> jint \<Rightarrow> stroker \<Rightarrow> stroker option" where
  "emit_piece env kind this =
     (if kind \<noteq> 0 then do {
        let lp = st_lp this;
        let rp = st_rp this;
        l0 \<leftarrow> rd lp 0; l1 \<leftarrow> rd lp 1;
        this \<leftarrow> emitLineTo env l0 l1 False this;
        this \<leftarrow>
          (if kind = 8 then do {
             l2 \<leftarrow> rd lp 2; l3 \<leftarrow> rd lp 3; l4 \<leftarrow> rd lp 4; l5 \<leftarrow> rd lp 5; l6 \<leftarrow> rd lp 6; l7 \<leftarrow> rd lp 7;
             this \<leftarrow> emitCurveTo env l0 l1 l2 l3 l4 l5 l6 l7 False this;
             r0 \<leftarrow> rd rp 0; r1 \<leftarrow> rd rp 1; r2 \<leftarrow> rd rp 2; r3 \<leftarrow> rd rp 3; r4 \<leftarrow> rd rp 4; r5 \<leftarrow> rd rp 5; r6 \<leftarrow> rd rp 6; r7 \<leftarrow> rd rp 7;
             emitCurveTo env r0 r1 r2 r3 r4 r5 r6 r7 True this
           }
           else if kind = 6 then do {
             l2 \<leftarrow> rd lp 2; l3 \<leftarrow> rd lp 3; l4 \<leftarrow> rd lp 4; l5 \<leftarrow> rd lp 5;
             this \<leftarrow> emitQuadTo env l0 l1 l2 l3 l4 l5 False this;
             r0 \<leftarrow> rd rp 0; r1 \<leftarrow> rd rp 1; r2 \<leftarrow> rd rp 2; r3 \<leftarrow> rd rp 3; r4 \<leftarrow> rd rp 4; r5 \<leftarrow> rd rp 5;
             emitQuadTo env r0 r1 r2 r3 r4 r5 True this
           }
           else if kind = 4 then do {
             l2 \<leftarrow> rd lp 2; l3 \<leftarrow> rd lp 3;
             this \<leftarrow> emitLineTo env l2 l3 False this;
             r0 \<leftarrow> rd rp 0; r1 \<leftarrow> rd rp 1;
             emitLineTo env r0 r1 True this
           }
           else Some this);
        rx \<leftarrow> rd rp (kind - 2); ry \<leftarrow> rd rp (kind - 1);
        emitLineTo env rx ry True this
      }
      else Some this)"

text \<open>
  The end of both \<^verbatim>\<open>Stroker_curveTo\<close> and \<^verbatim>\<open>Stroker_quadTo\<close>, from the join on: \<open>dxs\<close>, \<open>dys\<close> is the first tangent,
  \<open>dxf\<close>, \<open>dyf\<close> the last one and \<open>xf\<close>, \<open>yf\<close> the end point.
\<close>

definition stroke_curve ::
    "stroke_env \<Rightarrow> jint \<Rightarrow> jfloat \<Rightarrow> jfloat \<Rightarrow> jfloat \<Rightarrow> jfloat \<Rightarrow> jfloat \<Rightarrow> jfloat \<Rightarrow> stroker \<Rightarrow> stroker option" where
  "stroke_curve env type dxs dys dxf dyf xf yf this = do {
     let (mx, my) = computeOffset dxs dys (st_lineWidth2 this);
     this \<leftarrow> drawJoin env (st_cdx this) (st_cdy this) (st_cx0 this) (st_cy0 this) dxs dys (st_cmx this) (st_cmy this) mx my this;
     (nSplits, ts, c) \<leftarrow> findSubdivPoints env (st_middle this) (st_subdivTs this) type (st_lineWidth2 this) (st_c this);
     middle \<leftarrow> split_curve type nSplits ts (st_middle this);
     let this = this\<lparr>st_subdivTs := ts, st_c := c, st_middle := middle\<rparr>;
     (kind, this) \<leftarrow> for_loop (nSplits + 1) (\<lambda>i (kind, this). do {
       (kind, lp, rp) \<leftarrow> (if type = 8 then computeOffsetCubic env (st_lineWidth2 this) (st_middle this) (i * (type - 2)) (st_lp this) (st_rp this)
                          else computeOffsetQuad env (st_lineWidth2 this) (st_middle this) (i * (type - 2)) (st_lp this) (st_rp this));
       this \<leftarrow> emit_piece env kind (this\<lparr>st_lp := lp, st_rp := rp\<rparr>);
       Some (kind, this)
     }) (0, this);
     lx \<leftarrow> rd (st_lp this) (kind - 2); rx \<leftarrow> rd (st_rp this) (kind - 2);
     ly \<leftarrow> rd (st_lp this) (kind - 1); ry \<leftarrow> rd (st_rp this) (kind - 1);
     Some (this\<lparr>st_cmx := fdiv (fsub lx rx) (fint 2), st_cmy := fdiv (fsub ly ry) (fint 2),
                st_cdx := dxf, st_cdy := dyf, st_cx0 := xf, st_cy0 := yf, st_prev := DRAWING_OP_TO\<rparr>)
   }"

text \<open>A tangent that is too short is normalised.\<close>

definition long_enough :: "jfloat \<Rightarrow> jfloat \<Rightarrow> jfloat \<times> jfloat" where
  "long_enough dx dy =
     (let tenth = fp_literal F32 1 1
      in if fp_less (fp_abs dx) tenth \<and> fp_less (fp_abs dy) tenth then
           (let len = fsqrt (fadd (fmul dx dx) (fmul dy dy)) in (fdiv dx len, fdiv dy len))
         else (dx, dy))"

definition Stroker_curveTo ::
    "stroke_env \<Rightarrow> jfloat \<Rightarrow> jfloat \<Rightarrow> jfloat \<Rightarrow> jfloat \<Rightarrow> jfloat \<Rightarrow> jfloat \<Rightarrow> stroker \<Rightarrow> stroker option" where
  "Stroker_curveTo env x1 y1 x2 y2 x3 y3 this = do {
     let x0 = st_cx0 this;
     let y0 = st_cy0 this;
     middle \<leftarrow> wr_all (st_middle this) 0 [x0, y0, x1, y1, x2, y2, x3, y3];
     let this = this\<lparr>st_middle := middle\<rparr>;
     let zero = (\<lambda>(dx, dy). fp_eq dx (fint 0) \<and> fp_eq dy (fint 0));
     let s = (fsub x1 x0, fsub y1 y0);
     let f = (fsub x3 x2, fsub y3 y2);
     let p1eqp2 = zero s;
     let p3eqp4 = zero f;
     let s = (if p1eqp2 then (let s = (fsub x2 x0, fsub y2 y0) in if zero s then (fsub x3 x0, fsub y3 y0) else s) else s);
     let f = (if p3eqp4 then (let f = (fsub x3 x1, fsub y3 y1) in if zero f then (fsub x3 x0, fsub y3 y0) else f) else f);
     if zero s then Stroker_lineTo env x0 y0 this
     else
       (let (dxs, dys) = long_enough (fst s) (snd s);
            (dxf, dyf) = long_enough (fst f) (snd f)
        in stroke_curve env 8 dxs dys dxf dyf x3 y3 this)
   }"

definition Stroker_quadTo ::
    "stroke_env \<Rightarrow> jfloat \<Rightarrow> jfloat \<Rightarrow> jfloat \<Rightarrow> jfloat \<Rightarrow> stroker \<Rightarrow> stroker option" where
  "Stroker_quadTo env x1 y1 x2 y2 this = do {
     let x0 = st_cx0 this;
     let y0 = st_cy0 this;
     middle \<leftarrow> wr_all (st_middle this) 0 [x0, y0, x1, y1, x2, y2];
     let this = this\<lparr>st_middle := middle\<rparr>;
     let zero = (\<lambda>(dx, dy). fp_eq dx (fint 0) \<and> fp_eq dy (fint 0));
     let s = (fsub x1 x0, fsub y1 y0);
     let f = (fsub x2 x1, fsub y2 y1);
     let (s, f) = (if zero s \<or> zero f then ((fsub x2 x0, fsub y2 y0), (fsub x2 x0, fsub y2 y0)) else (s, f));
     if zero s then Stroker_lineTo env x0 y0 this
     else
       (let (dxs, dys) = long_enough (fst s) (snd s);
            (dxf, dyf) = long_enough (fst f) (snd f)
        in stroke_curve env 6 dxs dys dxf dyf x2 y2 this)
   }"

section \<open>The consumer\<close>

definition Stroker_reset :: "jfloat \<Rightarrow> jint \<Rightarrow> jint \<Rightarrow> jfloat \<Rightarrow> stroker \<Rightarrow> stroker" where
  "Stroker_reset lineWidth capStyle joinStyle miterLimit this =
     (let w2 = fdiv lineWidth (fint 2);
          limit = fmul miterLimit w2
      in this\<lparr>st_lineWidth2 := w2, st_capStyle := capStyle, st_joinStyle := joinStyle,
              st_miterLimitSq := fmul limit limit, st_prev := CLOSE\<rparr>)"

text \<open>\<^verbatim>\<open>Stroker_init\<close> on static arrays with any contents.\<close>

definition Stroker_init ::
    "stroke_env \<Rightarrow> jfloat list \<Rightarrow> jfloat list \<Rightarrow> jfloat list \<Rightarrow> jfloat list \<Rightarrow> jfloat \<Rightarrow> jint \<Rightarrow> jint \<Rightarrow> jfloat \<Rightarrow> stroker" where
  "Stroker_init env middle lp rp ts lineWidth capStyle joinStyle miterLimit =
     (let z = fint 0;
          this = \<lparr>st_capStyle = 0, st_joinStyle = 0, st_lineWidth2 = z, st_miterLimitSq = z, st_prev = 0,
                  st_sx0 = z, st_sy0 = z, st_sdx = z, st_sdy = z, st_cx0 = z, st_cy0 = z, st_cdx = z, st_cdy = z,
                  st_smx = z, st_smy = z, st_cmx = z, st_cmy = z, st_reverse = PolyStack_init (se_alloc env),
                  st_c = \<lparr>cv_ax = z, cv_ay = z, cv_bx = z, cv_by = z, cv_cx = z, cv_cy = z, cv_dx = z, cv_dy = z,
                          cv_dax = z, cv_day = z, cv_dbx = z, cv_dby = z\<rparr>,
                  st_middle = middle, st_lp = lp, st_rp = rp, st_subdivTs = ts, st_calls = []\<rparr>
      in Stroker_reset lineWidth capStyle joinStyle miterLimit this)"

fun Stroker_consumer :: "stroke_env \<Rightarrow> path_op \<Rightarrow> stroker \<Rightarrow> stroker option" where
  "Stroker_consumer env (MoveTo x0 y0) this = Stroker_moveTo env x0 y0 this"
| "Stroker_consumer env (LineTo x1 y1) this = Stroker_lineTo env x1 y1 this"
| "Stroker_consumer env (QuadTo x1 y1 x2 y2) this = Stroker_quadTo env x1 y1 x2 y2 this"
| "Stroker_consumer env (CurveTo x1 y1 x2 y2 x3 y3) this = Stroker_curveTo env x1 y1 x2 y2 x3 y3 this"
| "Stroker_consumer env ClosePath this = Stroker_closePath env this"
| "Stroker_consumer env PathDone this = Stroker_pathDone env this"

end
