(* ===== verification/Prism_Edges.thy ===== *)
theory Prism_Edges
  imports Prism_Raster
begin

text \<open>
  The edge list of the scan converter. Every line of a path that crosses a sample row becomes an edge; the list
  is kept in one array of floats, five to an edge, chained from buckets that also count and mark the edges of
  each row. \<open>edge_list\<close> relates the memory to the plain list of edges, and adding a line keeps the relation.
\<close>

section \<open>Small integers as floats\<close>

lemma fint_exact:
  assumes "\<bar>n\<bar> < 2 ^ 24"
  obtains m e where "fint n = Fin (n < 0) m e" "e \<le> 0" "m = \<bar>n\<bar> * 2 ^ nat (- e)"
proof (cases "n = 0")
  case True
  then show thesis by (intro that [of 0 "- 149"]) (auto simp: fp_of_int_def fp_zero_def F32_def)
next
  case False
  let ?e = "max (int (bit_length \<bar>n\<bar>) - 24) (- 149)"
  have "bit_length \<bar>n\<bar> \<le> 24" using assms by (intro bit_length_le) auto
  then have "?e \<le> 0" by simp
  then have "fint n = Fin (n < 0) (\<bar>n\<bar> * 2 ^ nat (- ?e)) ?e"
    using False by (auto simp: fp_of_int_def round_fp_def Let_def F32_def)
  then show thesis using \<open>?e \<le> 0\<close> by (rule that) simp
qed

lemma fp_to_jint_fint:
  assumes "\<bar>n\<bar> < 2 ^ 24"
  shows "fp_to_jint (fint n) = n"
proof -
  obtain m e where *: "fint n = Fin (n < 0) m e" "e \<le> 0" "m = \<bar>n\<bar> * 2 ^ nat (- e)"
    using assms by (rule fint_exact)
  then have "fp_trunc (fint n) = Some n" by (cases "e = 0") (auto simp: Let_def)
  then show ?thesis using assms by (auto simp: fp_to_jint_def is_jint_def abs_less_iff)
qed

lemma fp_less_fint:
  assumes "\<bar>a\<bar> < 2 ^ 24" "\<bar>b\<bar> < 2 ^ 24"
  shows "fp_less (fint a) (fint b) \<longleftrightarrow> a < b"
proof -
  obtain m e where a: "fint a = Fin (a < 0) m e" "e \<le> 0" "m = \<bar>a\<bar> * 2 ^ nat (- e)"
    using assms(1) by (rule fint_exact)
  obtain n d where b: "fint b = Fin (b < 0) n d" "d \<le> 0" "n = \<bar>b\<bar> * 2 ^ nat (- d)"
    using assms(2) by (rule fint_exact)
  define k where "k = min e d"
  have pw: "(2::int) ^ nat (- x) * 2 ^ nat (x - k) = 2 ^ nat (- k)" if "k \<le> x" "x \<le> 0" for x
    using that by (simp flip: power_add nat_add_distrib)
  have "m * 2 ^ nat (e - k) = \<bar>a\<bar> * 2 ^ nat (- k)" "n * 2 ^ nat (d - k) = \<bar>b\<bar> * 2 ^ nat (- k)"
    using a b pw [of e] pw [of d] by (auto simp: k_def mult.assoc)
  then have "fp_less (fint a) (fint b) \<longleftrightarrow> a * 2 ^ nat (- k) < b * 2 ^ nat (- k)"
    by (auto simp: a(1) b(1) Let_def k_def)
  then show ?thesis by simp
qed

lemma take_snoc_drop:
  assumes "k < length xs" "k < length ys"
  shows "(take k xs @ drop k ys)[k := xs ! k] = take (Suc k) xs @ drop (Suc k) ys"
proof -
  have "drop k ys = ys ! k # drop (Suc k) ys" using assms by (simp add: Cons_nth_drop_Suc)
  then show ?thesis using assms by (simp add: list_update_append take_Suc_conv_app_nth)
qed

lemma System_arraycopy_eq:
  assumes "0 \<le> n" "n \<le> int (length xs)" "n \<le> int (length ys)"
  shows "System_arraycopy xs 0 ys 0 n = Some (take (nat n) xs @ drop (nat n) ys)"
proof -
  have "\<exists>t. System_arraycopy xs 0 ys 0 n = Some t \<and> t = take (nat n) xs @ drop (nat n) ys"
    unfolding System_arraycopy_def
  proof (rule for_loop_inv [where P = "\<lambda>i t. t = take (nat i) xs @ drop (nat i) ys"])
    fix j t assume *: "0 \<le> j" "j < n" "t = take (nat j) xs @ drop (nat j) ys"
    then have "nat (j + 1) = Suc (nat j)" "nat j < length xs" "nat j < length ys" using assms by auto
    then show "\<exists>t'. (rd xs (0 + j) \<bind> wr t (0 + j)) = Some t' \<and> t' = take (nat (j + 1)) xs @ drop (nat (j + 1)) ys"
      using * by (simp add: take_snoc_drop)
  qed (use assms in auto)
  then show ?thesis by simp
qed


section \<open>Edges of a path\<close>

record edge =
  e_up :: bool
  e_x :: jfloat
  e_slope :: jfloat
  e_first :: int
  e_last :: int

type_synonym line = "jfloat \<times> jfloat \<times> jfloat \<times> jfloat"

fun line_edge :: "int \<Rightarrow> int \<Rightarrow> line \<Rightarrow> edge option" where
  "line_edge ya yb (x1, y1, x2, y2) =
     (let (x1, y1, x2, y2, up) = (if fp_less y2 y1 then (x2, y2, x1, y1, False) else (x1, y1, x2, y2, True));
          first = max (sample_ceil y1) ya; last = min (sample_ceil y2) yb;
          slope = fdiv (fsub x2 x1) (fsub y2 y1)
      in if last \<le> first then None
         else Some \<lparr>e_up = up, e_x = fadd x1 (fmul (fsub (fadd (fint first) fhalf) y1) slope), e_slope = slope,
                    e_first = first, e_last = last\<rparr>)"

definition edges_of :: "int \<Rightarrow> int \<Rightarrow> line list \<Rightarrow> edge list" where
  "edges_of ya yb ls = List.map_filter (line_edge ya yb) ls"

section \<open>The edge list in memory\<close>

text \<open>The fields of the edges; \<open>cx\<close> gives the current abscissa of each.\<close>

definition fields_at :: "jfloat list \<Rightarrow> edge list \<Rightarrow> (nat \<Rightarrow> jfloat) \<Rightarrow> bool" where
  "fields_at es E cx \<longleftrightarrow> 5 * length E \<le> length es \<and>
     (\<forall>k < length E. es ! (5 * k) = fint (e_last (E ! k)) \<and> es ! (5 * k + 1) = cx k \<and>
        es ! (5 * k + 2) = fint (if e_up (E ! k) then 1 else 0) \<and> es ! (5 * k + 3) = e_slope (E ! k))"

fun edge_chain :: "jfloat list \<Rightarrow> jint \<Rightarrow> nat list \<Rightarrow> bool" where
  "edge_chain es h [] \<longleftrightarrow> h = 0"
| "edge_chain es h (k # ks) \<longleftrightarrow>
     h = int (5 * k) + 1 \<and> 5 * k + 4 < length es \<and> edge_chain es (fp_to_jint (es ! (5 * k + 4))) ks"

lemma edge_chain_cong:
  "\<forall>k \<in> set ks. 5 * k + 4 < length es' \<and> es' ! (5 * k + 4) = es ! (5 * k + 4) \<Longrightarrow> edge_chain es h ks \<Longrightarrow> edge_chain es' h ks"
  by (induction ks arbitrary: h) auto

definition starting :: "edge list \<Rightarrow> int \<Rightarrow> nat list" where
  "starting E y = filter (\<lambda>k. e_first (E ! k) = y) [0..<length E]"

lemma starting_snoc: "starting (E @ [e]) y = starting E y @ (if e_first e = y then [length E] else [])"
  by (auto simp: starting_def nth_append intro!: filter_cong)

lemma starting_lt: "k \<in> set (starting E y) \<Longrightarrow> k < length E"
  by (auto simp: starting_def)

definition buckets_at :: "jfloat list \<Rightarrow> jint list \<Rightarrow> int \<Rightarrow> int \<Rightarrow> edge list \<Rightarrow> bool" where
  "buckets_at es bs ya yb E \<longleftrightarrow> int (length bs) = 2 * (yb - ya) + 2 \<and>
     (\<forall>y. ya \<le> y \<and> y < yb \<longrightarrow>
        edge_chain es (bs ! nat (2 * (y - ya))) (rev (starting E y)) \<and>
        bs ! nat (2 * (y - ya) + 1) = 2 * int (length (starting E y)) + of_bool (\<exists>e \<in> set E. e_last e = y))"

definition edge_store :: "int \<Rightarrow> int \<Rightarrow> edge list \<Rightarrow> prism_renderer \<Rightarrow> bool" where
  "edge_store ya yb E this \<longleftrightarrow>
     boundsMinY this = ya \<and> boundsMaxY this = yb \<and> numEdges this = int (length E) \<and>
     edgesSIZE this = int (length (edges this)) \<and>
     fields_at (edges this) E (\<lambda>k. e_x (E ! k)) \<and> buckets_at (edges this) (edgeBuckets this) ya yb E \<and>
     (\<forall>e \<in> set E. ya \<le> e_first e \<and> e_first e < e_last e \<and> e_last e \<le> yb)"

definition edge_list :: "int \<Rightarrow> int \<Rightarrow> edge list \<Rightarrow> prism_renderer \<Rightarrow> bool" where
  "edge_list ya yb E this \<longleftrightarrow> edge_store ya yb E this \<and>
     sampleRowMin this = Min (insert yb (e_first ` set E)) \<and> sampleRowMax this = Max (insert ya (e_last ` set E))"

lemma starting_length: "length (starting E y) \<le> length E"
  by (metis starting_def length_filter_le length_upt minus_nat.diff_0)

lemma buckets_at_store:
  assumes b: "buckets_at es bs ya yb E" and e: "ya \<le> e_first e" "e_first e < e_last e" "e_last e \<le> yb"
    and n: "5 * (int (length E) + 1) < 2 ^ 24"
    and es: "es' ! (5 * length E + 4) = fint (bs ! nat (2 * (e_first e - ya)))" "5 * length E + 4 < length es'"
      "\<forall>k < length E. 5 * k + 4 < length es' \<and> es' ! (5 * k + 4) = es ! (5 * k + 4)"
    and bs: "bs1 = bs[nat (2 * (e_first e - ya)) := 5 * int (length E) + 1]"
      "bs2 = bs1[nat (2 * (e_first e - ya) + 1) := bs1 ! nat (2 * (e_first e - ya) + 1) + 2]"
      "bs3 = bs2[nat (2 * (e_last e - ya) + 1) := bs2 ! nat (2 * (e_last e - ya) + 1) OR 1]"
  shows "buckets_at es' bs3 ya yb (E @ [e])"
proof -
  have len: "int (length bs) = 2 * (yb - ya) + 2" using b by (simp add: buckets_at_def)
  have ev: "nat (2 * (a - ya)) = nat (2 * (c - ya)) \<longleftrightarrow> a = c" if "ya \<le> a" "ya \<le> c" for a c
    using that by (simp add: eq_nat_nat_iff)
  have od: "nat (2 * (a - ya) + 1) = nat (2 * (c - ya) + 1) \<longleftrightarrow> a = c" if "ya \<le> a" "ya \<le> c" for a c
    using that by (simp add: eq_nat_nat_iff)
  have eo: "nat (2 * (a - ya)) \<noteq> nat (2 * (c - ya) + 1)" if "ya \<le> a" "ya \<le> c" for a c
  proof
    assume "nat (2 * (a - ya)) = nat (2 * (c - ya) + 1)"
    then have "2 * (a - ya) = 2 * (c - ya) + 1" using that by (simp add: nat_eq_iff2)
    then show False by presburger
  qed
  have lt: "nat (2 * (a - ya)) < length bs" "nat (2 * (a - ya) + 1) < length bs" if "ya \<le> a" "a \<le> yb" for a
    using that len by (simp_all add: nat_less_iff)
  define p where "p a = nat (2 * (a - ya))" for a
  define q where "q a = nat (2 * (a - ya) + 1)" for a
  note ix = ev [folded p_def] od [folded q_def] eo [folded p_def q_def] eo [folded p_def q_def, symmetric] lt [folded p_def q_def]
  have b1: "bs1 = bs[p (e_first e) := 5 * int (length E) + 1]" using bs(1) by (simp add: p_def)
  have b2: "bs2 = bs1[q (e_first e) := bs ! q (e_first e) + 2]"
    using bs(2) e ix(3) [of "e_first e" "e_first e"] unfolding q_def [symmetric] b1 by simp
  have b3: "bs3 = bs2[q (e_last e) := bs2 ! q (e_last e) OR 1]" using bs(3) by (simp add: q_def)
  have b2l: "bs2 ! q (e_last e) = bs ! q (e_last e)"
    using e ix(3) [of "e_first e" "e_last e"] ix(2) [of "e_first e" "e_last e"] by (simp add: b1 b2)
  have upd: "bs3 ! p y = (if y = e_first e then 5 * int (length E) + 1 else bs ! p y)" if "ya \<le> y" "y < yb" for y
    using that e ix(1) [of "e_first e" y] ix(3) [of y "e_first e"] ix(3) [of y "e_last e"] ix(5) [of y]
    by (auto simp: b1 b2 b3)
  have upq: "bs3 ! q y = (let c = bs ! q y + (if y = e_first e then 2 else 0) in if y = e_last e then c OR 1 else c)"
    if "ya \<le> y" "y < yb" for y
    using that e ix(2) [of "e_first e" y] ix(2) [of "e_last e" y] ix(3) [of "e_first e" y] ix(6) [of y]
    by (auto simp: b1 b2 b2l b3)
  note upd = upd upq
  note upd = upd [unfolded p_def q_def]
  have chain: "edge_chain es' (bs ! nat (2 * (y - ya))) (rev (starting E y))" if "ya \<le> y" "y < yb" for y
  proof (rule edge_chain_cong)
    show "edge_chain es (bs ! nat (2 * (y - ya))) (rev (starting E y))"
      using b that unfolding buckets_at_def by blast
    show "\<forall>k \<in> set (rev (starting E y)). 5 * k + 4 < length es' \<and> es' ! (5 * k + 4) = es ! (5 * k + 4)"
      using es(3) starting_lt [of _ E y] by simp
  qed
  have head: "fp_to_jint (es' ! (5 * length E + 4)) = bs ! nat (2 * (e_first e - ya))"
  proof -
    have "edge_chain es (bs ! nat (2 * (e_first e - ya))) (rev (starting E (e_first e)))"
      using b e by (simp add: buckets_at_def)
    then have "0 \<le> bs ! nat (2 * (e_first e - ya)) \<and> bs ! nat (2 * (e_first e - ya)) \<le> 5 * int (length E) + 1"
      using starting_lt [of _ E "e_first e"] by (cases "rev (starting E (e_first e))") (fastforce simp: rev_eq_Cons_iff)+
    then show ?thesis using n es(1) by (simp add: fp_to_jint_fint)
  qed
  show ?thesis unfolding buckets_at_def
  proof (intro conjI allI impI)
    show "int (length bs3) = 2 * (yb - ya) + 2" using len by (simp add: bs)
  next
    fix y assume y: "ya \<le> y \<and> y < yb"
    then show "edge_chain es' (bs3 ! nat (2 * (y - ya))) (rev (starting (E @ [e]) y))"
      using chain [of y] upd(1) [of y] head es(2) by (auto simp: starting_snoc)
    have "bs ! nat (2 * (y - ya) + 1) = 2 * int (length (starting E y)) + of_bool (\<exists>e \<in> set E. e_last e = y)"
      using b y by (simp add: buckets_at_def)
    then show "bs3 ! nat (2 * (y - ya) + 1) =
        2 * int (length (starting (E @ [e]) y)) + of_bool (\<exists>e \<in> set (E @ [e]). e_last e = y)"
      using y e upd(2) [of y] by (auto simp: starting_snoc or_one_eq Let_def)
  qed
qed


lemma growEdges_ok:
  assumes "edgesSIZE this = int (length (edges this))" "ptr + 5 < 2 ^ 24" "ptr \<le> length (edges this)"
    and alloc: "\<forall>s. alloc s"
  obtains es where "growEdges alloc (int ptr) this = Some (this\<lparr>edges := es, edgesSIZE := int (length es)\<rparr>)"
    "ptr + 5 \<le> length es" "take ptr es = take ptr (edges this)"
proof (cases "edgesSIZE this < int ptr + 5")
  case True
  let ?new = "replicate (2 * ptr + 10) (fint 0)"
  let ?es = "take ptr (edges this) @ drop ptr ?new"
  have small: "i32 (int ptr + 5) = int ptr + 5" "i32 (int ptr * 2 + 10) = int ptr * 2 + 10"
    using assms by (auto simp: i32_small)
  have new: "new_float alloc (int ptr * 2 + 10) = ?new"
    using alloc by (simp add: new_float_def nat_add_distrib nat_mult_distrib algebra_simps)
  have len: "length ?es = 2 * ptr + 10" using assms by (simp del: replicate_add)
  have "System_arraycopy (edges this) 0 ?new 0 (int ptr) = Some ?es"
    using assms by (subst System_arraycopy_eq) simp_all
  then have "growEdges alloc (int ptr) this = Some (this\<lparr>edges := ?es, edgesSIZE := int ptr * 2 + 10\<rparr>)"
    using True by (simp add: growEdges_def small new Let_def del: drop_replicate)
  moreover have "int ptr * 2 + 10 = int (length ?es)" using len by linarith
  ultimately have "growEdges alloc (int ptr) this = Some (this\<lparr>edges := ?es, edgesSIZE := int (length ?es)\<rparr>)" by presburger
  then show thesis using len assms by (intro that [of ?es]) (simp_all del: drop_replicate)
next
  case False
  have "i32 (int ptr + 5) = int ptr + 5" using assms by (simp add: i32_small)
  then have "growEdges alloc (int ptr) this = Some (this\<lparr>edges := edges this, edgesSIZE := int (length (edges this))\<rparr>)"
    using False assms by (simp add: growEdges_def)
  then show thesis using False assms by (intro that) auto
qed

lemma storeEdge_ok:
  assumes inv: "edge_store ya yb E this" and n: "5 * (int (length E) + 1) < 2 ^ 24" and alloc: "\<forall>s. alloc s"
    and y: "\<bar>ya\<bar> < 2 ^ 24" "\<bar>yb\<bar> < 2 ^ 24" and e: "ya \<le> e_first e" "e_first e < e_last e" "e_last e \<le> yb"
    and x: "e_x e = fadd x1 (fmul (fsub (fadd (fint (e_first e)) fhalf) y1) (e_slope e))"
  obtains es bs where
    "storeEdge alloc (if e_up e then 1 else 0) x1 y1 (e_slope e) (e_first e) (e_last e) this =
       Some (this\<lparr>edgesSIZE := int (length es), numEdges := int (length E) + 1, edges := es, edgeBuckets := bs\<rparr>)"
    "fields_at es (E @ [e]) (\<lambda>k. e_x ((E @ [e]) ! k))" "buckets_at es bs ya yb (E @ [e])"
proof -
  define n where "n = length E"
  have len: "5 * n \<le> length (edges this)" "edgesSIZE this = int (length (edges this))" "numEdges this = int n"
    and ymin: "boundsMinY this = ya" and fl: "fields_at (edges this) E (\<lambda>k. e_x (E ! k))"
    and bk: "buckets_at (edges this) (edgeBuckets this) ya yb E"
    using inv by (auto simp: edge_store_def fields_at_def n_def)
  have n5: "5 * n + 5 < 2 ^ 24" using n by (simp add: n_def)
  obtain es1 where g: "growEdges alloc (int (5 * n)) this = Some (this\<lparr>edges := es1, edgesSIZE := int (length es1)\<rparr>)"
    and l1: "5 * n + 5 \<le> length es1" and tk: "take (5 * n) es1 = take (5 * n) (edges this)"
    using growEdges_ok [OF len(2) n5 len(1) alloc] by blast
  have old: "es1 ! j = edges this ! j" if "j < 5 * n" for j
    using that tk by (metis nth_take)
  let ?bs = "edgeBuckets this"
  define p where "p = nat (2 * (e_first e - ya))"
  define q where "q = nat (2 * (e_first e - ya) + 1)"
  define r where "r = nat (2 * (e_last e - ya) + 1)"
  define es where "es = es1[5 * n + 2 := fint (if e_up e then 1 else 0), 5 * n + 1 := e_x e, 5 * n + 3 := e_slope e,
    5 * n := fint (e_last e), 5 * n + 4 := fint (?bs ! p)]"
  define bs1 where "bs1 = ?bs[p := 5 * int n + 1]"
  define bs2 where "bs2 = bs1[q := bs1 ! q + 2]"
  define bs3 where "bs3 = bs2[r := bs2 ! r OR 1]"
  have ix: "i32 (int n * 5) = 5 * int n" "i32 (5 * int n + 2) = 5 * int n + 2" "i32 (5 * int n + 1) = 5 * int n + 1"
    "i32 (5 * int n + 3) = 5 * int n + 3" "i32 (5 * int n + 4) = 5 * int n + 4" "i32 (5 * int n) = 5 * int n"
    "i32 (int n + 1) = int n + 1"
    using n5 by (simp_all add: i32_small)
  have nn: "nat (5 * int n + 2) = 5 * n + 2" "nat (5 * int n + 1) = 5 * n + 1" "nat (5 * int n + 3) = 5 * n + 3"
    "nat (5 * int n + 4) = 5 * n + 4" "nat (5 * int n) = 5 * n"
    by simp_all
  have iy: "i32 (i32 (e_first e - ya) * 2) = int p" "i32 (i32 (e_first e - ya) * 2 + 1) = int q"
    "i32 (e_last e * 2 - ya * 2 + 1) = int r"
    using y e by (simp_all add: i32_small p_def q_def r_def abs_less_iff)
  have lb: "p < length ?bs" "q < length ?bs" "r < length ?bs"
    using bk e by (simp_all add: buckets_at_def p_def q_def r_def nat_less_iff)
  have "p \<noteq> q" using e by (simp add: p_def q_def nat_eq_iff2)
  moreover have "?bs ! q = 2 * int (length (starting E (e_first e))) + of_bool (\<exists>d \<in> set E. e_last d = e_first e)"
    using bk e unfolding buckets_at_def q_def by auto
  ultimately have cell: "i32 (bs1 ! q + 2) = bs1 ! q + 2"
    using starting_length [of E "e_first e"] n by (simp add: bs1_def i32_small)
  have st: "storeEdge alloc (if e_up e then 1 else 0) x1 y1 (e_slope e) (e_first e) (e_last e) this =
       Some (this\<lparr>edgesSIZE := int (length es), numEdges := int n + 1, edges := es, edgeBuckets := bs3\<rparr>)"
    unfolding storeEdge_def addEdgeToBucket_def
    using lb l1 g by (simp add: len(3) ix nn ymin iy cell [unfolded bs1_def] x Let_def bs1_def bs2_def bs3_def es_def)
  have "fields_at es (E @ [e]) (\<lambda>k. e_x ((E @ [e]) ! k))"
    unfolding fields_at_def
  proof (intro conjI allI impI)
    show "5 * length (E @ [e]) \<le> length es" using l1 by (simp add: es_def n_def)
    fix k assume k: "k < length (E @ [e])"
    show "es ! (5 * k) = fint (e_last ((E @ [e]) ! k))" "es ! (5 * k + 1) = e_x ((E @ [e]) ! k)"
      "es ! (5 * k + 2) = fint (if e_up ((E @ [e]) ! k) then 1 else 0)" "es ! (5 * k + 3) = e_slope ((E @ [e]) ! k)"
      using k l1 old fl by (cases "k < n"; auto simp: es_def n_def nth_append fields_at_def less_Suc_eq)+
  qed
  moreover have "buckets_at es bs3 ya yb (E @ [e])"
  proof (rule buckets_at_store [OF bk e n])
    show "es ! (5 * length E + 4) = fint (?bs ! nat (2 * (e_first e - ya)))" "5 * length E + 4 < length es"
      using l1 by (simp_all add: es_def n_def p_def)
    show "\<forall>k < length E. 5 * k + 4 < length es \<and> es ! (5 * k + 4) = edges this ! (5 * k + 4)"
      using l1 old by (auto simp: es_def n_def)
  qed (simp_all add: bs1_def bs2_def bs3_def p_def q_def r_def n_def)
  ultimately show thesis using st by (intro that) (simp_all add: n_def)
qed


text \<open>What a line leaves alone.\<close>

definition pen :: "prism_renderer \<Rightarrow> jint \<times> jint \<times> jint \<times> jfloat \<times> jfloat \<times> jfloat \<times> jfloat \<times> curve" where
  "pen this = (boundsMinX this, boundsMaxX this, windingRule this, cur_x0 this, cur_y0 this, pix_sx0 this, pix_sy0 this,
     cur_c this)"

lemma row_limits_snoc:
  "Min (insert y (f ` set (E @ [e]))) = min (f e) (Min (insert y (f ` set E)))"
  "Max (insert y (g ` set (E @ [e]))) = max (g e) (Max (insert y (g ` set E)))" for y :: int
proof -
  have "insert y (h ` set (E @ [e])) = insert (h e) (insert y (h ` set E))" for h :: "'a \<Rightarrow> int" by auto
  then show "Min (insert y (f ` set (E @ [e]))) = min (f e) (Min (insert y (f ` set E)))"
    "Max (insert y (g ` set (E @ [e]))) = max (g e) (Max (insert y (g ` set E)))" by (simp_all del: set_append)
qed

lemma addLine_ok:
  assumes inv: "edge_list ya yb E this" and n: "5 * (int (length E) + 1) < 2 ^ 24" and alloc: "\<forall>s. alloc s"
    and y: "\<bar>ya\<bar> < 2 ^ 24" "\<bar>yb\<bar> < 2 ^ 24"
  obtains this' where "addLine alloc x1 y1 x2 y2 this = Some this'"
    "edge_list ya yb (E @ edges_of ya yb [(x1, y1, x2, y2)]) this'" "pen this' = pen this"
proof -
  define up where "up = (\<not> fp_less y2 y1)"
  obtain u1 v1 u2 v2 where uv: "(if fp_less y2 y1 then (x2, y2, x1, y1, 0::int) else (x1, y1, x2, y2, 1)) =
      (u1, v1, u2, v2, if up then 1 else 0)"
    "(if fp_less y2 y1 then (x2, y2, x1, y1, False) else (x1, y1, x2, y2, True)) = (u1, v1, u2, v2, up)"
    by (cases "fp_less y2 y1") (auto simp: up_def)
  let ?f = "max (sample_ceil v1) ya" and ?l = "min (sample_ceil v2) yb" and ?s = "fdiv (fsub u2 u1) (fsub v2 v1)"
  define e where "e = \<lparr>e_up = up, e_x = fadd u1 (fmul (fsub (fadd (fint ?f) fhalf) v1) ?s), e_slope = ?s,
    e_first = ?f, e_last = ?l\<rparr>"
  have le: "edges_of ya yb [(x1, y1, x2, y2)] = (if ?l \<le> ?f then [] else [e])"
    unfolding edges_of_def map_filter_simps line_edge.simps uv(2) Let_def e_def by simp
  have b: "boundsMinY this = ya" "boundsMaxY this = yb" using inv by (simp_all add: edge_list_def edge_store_def)
  note split = addLine_def [of alloc x1 y1 x2 y2 this, unfolded uv(1) Let_def b prod.case]
  show thesis
  proof (cases "?l \<le> ?f")
    case True
    then show thesis using inv by (intro that [of this]) (simp_all add: split le)
  next
    case False
    define t1 where "t1 = this\<lparr>sampleRowMin := min ?f (sampleRowMin this), sampleRowMax := max ?l (sampleRowMax this)\<rparr>"
    obtain lowx highx where lh: "(if fp_less (fint 0) ?s then (u1, u2) else (u2, u1)) = (lowx, highx)" by fastforce
    define a where "a = (if fp_less lowx (edgeMinX this) then lowx else edgeMinX this)"
    define c where "c = (if fp_less (edgeMaxX this) highx then highx else edgeMaxX this)"
    have t2: "addLine alloc x1 y1 x2 y2 this =
        storeEdge alloc (if up then 1 else 0) u1 v1 ?s ?f ?l (t1\<lparr>edgeMinX := a, edgeMaxX := c\<rparr>)"
      unfolding split lh using False by (simp add: t1_def a_def c_def)
    define t2 where "t2 = t1\<lparr>edgeMinX := a, edgeMaxX := c\<rparr>"
    have inv2: "edge_store ya yb E t2"
      using inv by (simp add: t2_def t1_def edge_list_def edge_store_def)
    obtain es bs where st: "storeEdge alloc (if e_up e then 1 else 0) u1 v1 (e_slope e) (e_first e) (e_last e) t2 =
         Some (t2\<lparr>edgesSIZE := int (length es), numEdges := int (length E) + 1, edges := es, edgeBuckets := bs\<rparr>)"
      "fields_at es (E @ [e]) (\<lambda>k. e_x ((E @ [e]) ! k))" "buckets_at es bs ya yb (E @ [e])"
      using False by (rule_tac storeEdge_ok [OF inv2 n alloc y, where e = e and ?x1.0 = u1 and ?y1.0 = v1]) (auto simp: e_def)
    let ?t = "t2\<lparr>edgesSIZE := int (length es), numEdges := int (length E) + 1, edges := es, edgeBuckets := bs\<rparr>"
    have "addLine alloc x1 y1 x2 y2 this = Some ?t"
      using st(1) t2 by (simp add: e_def t2_def)
    moreover have "edge_list ya yb (E @ [e]) ?t"
    proof -
      have rows: "sampleRowMin t2 = min (e_first e) (Min (insert yb (e_first ` set E)))"
        "sampleRowMax t2 = max (e_last e) (Max (insert ya (e_last ` set E)))"
        using inv by (simp_all add: t2_def t1_def e_def edge_list_def)
      have "ya \<le> e_first e" "e_first e < e_last e" "e_last e \<le> yb" using False by (auto simp: e_def)
      then have "edge_store ya yb (E @ [e]) ?t" using inv2 st(2,3) by (simp add: edge_store_def)
      then show ?thesis unfolding edge_list_def row_limits_snoc using rows by simp
    qed
    moreover have "pen ?t = pen this" by (simp add: pen_def t2_def t1_def)
    ultimately show thesis using False by (intro that [of ?t]) (simp_all add: le)
  qed
qed

end
