(* ===== verification/Prism_Flatten.thy ===== *)
theory Prism_Flatten
  imports Prism_Edges
begin

text \<open>
  From calls to lines. \<open>op_lines\<close> lists the straight lines a call draws, curves flattened; the scan converter is a consumer
  whose edge list holds the edges of the lines of all calls so far. The contract of a consumer is a locale, and the
  scan converter is its first interpretation.
\<close>

section \<open>Lines of a path\<close>

fun quad_walk :: "nat \<Rightarrow> jfloat \<Rightarrow> jfloat \<Rightarrow> jfloat \<Rightarrow> jfloat \<Rightarrow> jfloat \<Rightarrow> jfloat \<Rightarrow> jfloat \<Rightarrow> jfloat \<Rightarrow> line list" where
  "quad_walk 0 x0 y0 dx dy ddx ddy x2 y2 = [(x0, y0, x2, y2)]"
| "quad_walk (Suc n) x0 y0 dx dy ddx ddy x2 y2 =
     (x0, y0, fadd x0 dx, fadd y0 dy) # quad_walk n (fadd x0 dx) (fadd y0 dy) (fadd dx ddx) (fadd dy ddy) ddx ddy x2 y2"

definition quad_lines :: "jfloat \<Rightarrow> jfloat \<Rightarrow> curve \<Rightarrow> jfloat \<Rightarrow> jfloat \<Rightarrow> line list option" where
  "quad_lines x0 y0 c x2 y2 = do {
     count \<leftarrow> quad_count (fmax (fdiv (cv_dbx c) (fint 256)) (fdiv (cv_dby c) (fint 256))) 16;
     let sq = fint (i32 (count * count));
     Some (quad_walk (nat (count - 1)) x0 y0
       (fadd (fdiv (cv_bx c) sq) (fdiv (cv_cx c) (fint count))) (fadd (fdiv (cv_by c) sq) (fdiv (cv_cy c) (fint count)))
       (fdiv (cv_dbx c) sq) (fdiv (cv_dby c) sq) x2 y2)
   }"

text \<open>One turn of the differencing loop: the next point and the next differences.\<close>

definition afd_turn :: "jfloat \<Rightarrow> jfloat \<Rightarrow> jfloat \<Rightarrow> jfloat \<Rightarrow> afd \<Rightarrow> (jfloat \<times> jfloat \<times> afd) option" where
  "afd_turn x3 y3 x1 y1 a = do {
     a \<leftarrow> dec_loop a;
     a \<leftarrow> inc_loop a;
     let a = a\<lparr>afd_count := i32 (afd_count a - 1)\<rparr>;
     Some (if 0 < afd_count a then
             (fadd x1 (afd_dx a), fadd y1 (afd_dy a),
              a\<lparr>afd_dx := fadd (afd_dx a) (afd_ddx a), afd_ddx := fadd (afd_ddx a) (afd_dddx a),
                afd_dy := fadd (afd_dy a) (afd_ddy a), afd_ddy := fadd (afd_ddy a) (afd_dddy a)\<rparr>)
           else (x3, y3, a))
   }"

partial_function (option) curve_lines :: "jfloat \<Rightarrow> jfloat \<Rightarrow> jfloat \<Rightarrow> jfloat \<Rightarrow> afd \<Rightarrow> line list option" where
  "curve_lines x3 y3 x0 y0 a =
     (if 0 < afd_count a then
        Option.bind (afd_turn x3 y3 x0 y0 a) (\<lambda>(x1, y1, a).
          Option.bind (curve_lines x3 y3 x1 y1 a) (\<lambda>ls. Some ((x0, y0, x1, y1) # ls)))
      else Some [])"

declare curve_lines.simps [code]

text \<open>The position of the pen in samples, and the start of the subpath in pixels.\<close>

type_synonym pen_pos = "jfloat \<times> jfloat \<times> jfloat \<times> jfloat"

fun op_lines :: "raster_globals \<Rightarrow> path_op \<Rightarrow> pen_pos \<Rightarrow> (line list \<times> pen_pos) option" where
  "op_lines g (MoveTo x y) (x0, y0, sx, sy) =
     Some ([(x0, y0, tosubpixx g sx, tosubpixy g sy)], (tosubpixx g x, tosubpixy g y, x, y))"
| "op_lines g (LineTo x y) (x0, y0, sx, sy) =
     Some ([(x0, y0, tosubpixx g x, tosubpixy g y)], (tosubpixx g x, tosubpixy g y, sx, sy))"
| "op_lines g (QuadTo x1 y1 x2 y2) (x0, y0, sx, sy) =
     (let xe = tosubpixx g x2; ye = tosubpixy g y2
      in map_option (\<lambda>ls. (ls, (xe, ye, sx, sy)))
           (quad_lines x0 y0 (Curve_setquad x0 y0 (tosubpixx g x1) (tosubpixy g y1) xe ye) xe ye))"
| "op_lines g (CurveTo x1 y1 x2 y2 x3 y3) (x0, y0, sx, sy) =
     (let xe = tosubpixx g x3; ye = tosubpixy g y3
      in map_option (\<lambda>ls. (ls, (xe, ye, sx, sy)))
           (curve_lines xe ye x0 y0
              (afd_start (Curve_setcubic x0 y0 (tosubpixx g x1) (tosubpixy g y1) (tosubpixx g x2) (tosubpixy g y2) xe ye))))"
| "op_lines g ClosePath (x0, y0, sx, sy) =
     Some ([(x0, y0, tosubpixx g sx, tosubpixy g sy)], (tosubpixx g sx, tosubpixy g sy, sx, sy))"
| "op_lines g PathDone (x0, y0, sx, sy) =
     Some ([(x0, y0, tosubpixx g sx, tosubpixy g sy)], (tosubpixx g sx, tosubpixy g sy, sx, sy))"

section \<open>Drawing lines\<close>

definition plenty :: "(int \<Rightarrow> bool) \<Rightarrow> bool" where
  "plenty alloc \<longleftrightarrow> (\<forall>s. alloc s)"

definition few :: "line list \<Rightarrow> bool" where
  "few ls \<longleftrightarrow> 5 * int (length ls) < 2 ^ 24"

text \<open>The columns between which the lines lie; only lines that cross a sample row count.\<close>

fun line_extent :: "int \<Rightarrow> int \<Rightarrow> line \<Rightarrow> jfloat \<times> jfloat \<Rightarrow> jfloat \<times> jfloat" where
  "line_extent ya yb (x1, y1, x2, y2) (l, h) =
     (case line_edge ya yb (x1, y1, x2, y2) of
        None \<Rightarrow> (l, h)
      | Some e \<Rightarrow>
          (let (low, high) = (if e_up e = fp_less (fint 0) (e_slope e) then (x1, x2) else (x2, x1))
           in (if fp_less low l then low else l, if fp_less h high then high else h)))"

definition extent :: "int \<Rightarrow> int \<Rightarrow> line list \<Rightarrow> jfloat \<times> jfloat" where
  "extent ya yb ls = fold (line_extent ya yb) ls (BIGGEST_FLOAT, fp_neg BIGGEST_FLOAT)"

definition drawn_lines :: "int \<Rightarrow> int \<Rightarrow> line list \<Rightarrow> prism_renderer \<Rightarrow> bool" where
  "drawn_lines ya yb ls this \<longleftrightarrow>
     edge_list ya yb (edges_of ya yb ls) this \<and> (edgeMinX this, edgeMaxX this) = extent ya yb ls"

lemma storeEdge_extent:
  "storeEdge alloc orient x1 y1 slope f l this = Some this' \<Longrightarrow>
    edgeMinX this' = edgeMinX this \<and> edgeMaxX this' = edgeMaxX this"
  by (auto simp: storeEdge_def growEdges_def addEdgeToBucket_def Let_def bind_eq_Some_conv split: if_splits)

lemma addLine_extent:
  assumes "addLine alloc x1 y1 x2 y2 this = Some this'"
  shows "(edgeMinX this', edgeMaxX this') =
    line_extent (boundsMinY this) (boundsMaxY this) (x1, y1, x2, y2) (edgeMinX this, edgeMaxX this)"
proof (cases "fp_less y2 y1")
  case True
  then show ?thesis using assms
    by (auto simp: addLine_def Let_def split: if_splits dest!: storeEdge_extent)
next
  case False
  then show ?thesis using assms
    by (auto simp: addLine_def Let_def split: if_splits dest!: storeEdge_extent)
qed

definition row_range :: "int \<Rightarrow> int \<Rightarrow> bool" where
  "row_range ya yb \<longleftrightarrow> ya \<le> yb \<and> \<bar>ya\<bar> < 2 ^ 24 \<and> \<bar>yb\<bar> < 2 ^ 24"

lemma edges_of_append: "edges_of ya yb (ls @ ms) = edges_of ya yb ls @ edges_of ya yb ms"
  by (simp add: edges_of_def map_filter_def)

lemma length_edges_of: "length (edges_of ya yb ls) \<le> length ls"
  by (simp add: edges_of_def map_filter_def)

lemma addLine_drawn:
  assumes "drawn_lines ya yb ls this" "few (ls @ [(x1, y1, x2, y2)])" "plenty alloc" "row_range ya yb"
  obtains this' where "addLine alloc x1 y1 x2 y2 this = Some this'" "drawn_lines ya yb (ls @ [(x1, y1, x2, y2)]) this'"
    "pen this' = pen this"
proof -
  have n: "5 * (int (length (edges_of ya yb ls)) + 1) < 2 ^ 24"
    using assms(2) length_edges_of [of ya yb ls] by (simp add: few_def)
  obtain this' where l: "addLine alloc x1 y1 x2 y2 this = Some this'"
    "edge_list ya yb (edges_of ya yb ls @ edges_of ya yb [(x1, y1, x2, y2)]) this'" "pen this' = pen this"
    using assms n addLine_ok [of ya yb "edges_of ya yb ls" this alloc x1 y1 x2 y2]
    by (auto simp: drawn_lines_def row_range_def plenty_def)
  have "boundsMinY this = ya" "boundsMaxY this = yb"
    using assms(1) by (simp_all add: drawn_lines_def edge_list_def edge_store_def)
  then show thesis using assms(1) l addLine_extent [OF l(1)]
    by (intro that [of this']) (simp_all add: drawn_lines_def edges_of_append extent_def)
qed

lemma few_append: "few (ls @ ms) \<Longrightarrow> few ls"
  by (simp add: few_def)

lemma quad_walk_drawn:
  assumes "drawn_lines ya yb ls this" "few (ls @ quad_walk n x0 y0 dx dy ddx ddy x2 y2)" "plenty alloc" "row_range ya yb"
  shows "\<exists>this'. Option.bind (iter_from i n (\<lambda>i (x0, y0, dx, dy, this). do {
       let x1 = fadd x0 dx;
       let y1 = fadd y0 dy;
       this \<leftarrow> addLine alloc x0 y0 x1 y1 this;
       Some (x1, y1, fadd dx ddx, fadd dy ddy, this)
     }) (x0, y0, dx, dy, this)) (\<lambda>(x0, y0, dx, dy, this). addLine alloc x0 y0 x2 y2 this) = Some this' \<and>
     drawn_lines ya yb (ls @ quad_walk n x0 y0 dx dy ddx ddy x2 y2) this' \<and> pen this' = pen this"
  using assms(1,2)
proof (induction n arbitrary: i ls x0 y0 dx dy this)
  case 0
  then show ?case using addLine_drawn [of ya yb ls this x0 y0 x2 y2 alloc] assms(3,4) by auto
next
  case (Suc n)
  obtain t where t: "addLine alloc x0 y0 (fadd x0 dx) (fadd y0 dy) this = Some t"
    "drawn_lines ya yb (ls @ [(x0, y0, fadd x0 dx, fadd y0 dy)]) t" "pen t = pen this"
    using addLine_drawn [of ya yb ls this x0 y0 "fadd x0 dx" "fadd y0 dy" alloc] assms(3,4) Suc.prems
    by (auto simp: few_def)
  show ?case using Suc.IH [OF t(2)] Suc.prems t by (simp add: Let_def)
qed

lemma quad_drawn:
  assumes "drawn_lines ya yb ls this" "quad_lines x0 y0 c x2 y2 = Some ms" "few (ls @ ms)" "plenty alloc" "row_range ya yb"
  shows "\<exists>this'. quadBreakIntoLinesAndAdd alloc x0 y0 c x2 y2 this = Some this' \<and> drawn_lines ya yb (ls @ ms) this' \<and>
    pen this' = pen this"
proof -
  obtain count where c: "quad_count (fmax (fdiv (cv_dbx c) (fint 256)) (fdiv (cv_dby c) (fint 256))) 16 = Some count"
    using assms(2) by (auto simp: quad_lines_def bind_eq_Some_conv)
  let ?sq = "fint (i32 (count * count))"
  have ms: "ms = quad_walk (nat (count - 1)) x0 y0
       (fadd (fdiv (cv_bx c) ?sq) (fdiv (cv_cx c) (fint count))) (fadd (fdiv (cv_by c) ?sq) (fdiv (cv_cy c) (fint count)))
       (fdiv (cv_dbx c) ?sq) (fdiv (cv_dby c) ?sq) x2 y2"
    using assms(2) by (simp add: quad_lines_def c Let_def)
  show ?thesis
    using quad_walk_drawn [OF assms(1) assms(3) [unfolded ms] assms(4,5), where i = 0]
    unfolding quadBreakIntoLinesAndAdd_def ms by (simp add: c Let_def for_loop_def)
qed

lemma curve_loop_turn:
  "0 < afd_count a \<Longrightarrow> curve_loop alloc x3 y3 x0 y0 x0 y0 a this =
     Option.bind (afd_turn x3 y3 x0 y0 a) (\<lambda>(x1, y1, a).
       Option.bind (addLine alloc x0 y0 x1 y1 this) (curve_loop alloc x3 y3 x1 y1 x1 y1 a))"
  by (subst curve_loop.simps) (auto simp: afd_turn_def Let_def Option.bind_assoc intro!: Option.bind_cong)

lemma curve_drawn_all:
  assumes "curve_lines x3 y3 x0 y0 a = Some ms" "plenty alloc" "row_range ya yb"
  shows "\<forall>ls this. drawn_lines ya yb ls this \<longrightarrow> few (ls @ ms) \<longrightarrow>
    (\<exists>this'. curve_loop alloc x3 y3 x0 y0 x0 y0 a this = Some this' \<and> drawn_lines ya yb (ls @ ms) this' \<and> pen this' = pen this)"
  using _ assms(1)
proof (rule curve_lines.raw_induct [where P = "\<lambda>x3 y3 x0 y0 a ms. \<forall>ls this. drawn_lines ya yb ls this \<longrightarrow> few (ls @ ms) \<longrightarrow>
    (\<exists>this'. curve_loop alloc x3 y3 x0 y0 x0 y0 a this = Some this' \<and> drawn_lines ya yb (ls @ ms) this' \<and> pen this' = pen this)"])
  fix f x3 y3 x0 y0 a ms
  assume IH: "\<And>x3 y3 x0 y0 a ms. f x3 y3 x0 y0 a = Some ms \<Longrightarrow> \<forall>ls this. drawn_lines ya yb ls this \<longrightarrow> few (ls @ ms) \<longrightarrow>
      (\<exists>this'. curve_loop alloc x3 y3 x0 y0 x0 y0 a this = Some this' \<and> drawn_lines ya yb (ls @ ms) this' \<and> pen this' = pen this)"
    and body: "(if 0 < afd_count a then Option.bind (afd_turn x3 y3 x0 y0 a) (\<lambda>(x1, y1, a).
          Option.bind (f x3 y3 x1 y1 a) (\<lambda>ls. Some ((x0, y0, x1, y1) # ls))) else Some []) = Some ms"
  show "\<forall>ls this. drawn_lines ya yb ls this \<longrightarrow> few (ls @ ms) \<longrightarrow>
      (\<exists>this'. curve_loop alloc x3 y3 x0 y0 x0 y0 a this = Some this' \<and> drawn_lines ya yb (ls @ ms) this' \<and> pen this' = pen this)"
  proof (intro allI impI)
    fix ls this assume d: "drawn_lines ya yb ls this" and few: "few (ls @ ms)"
    show "\<exists>this'. curve_loop alloc x3 y3 x0 y0 x0 y0 a this = Some this' \<and> drawn_lines ya yb (ls @ ms) this' \<and> pen this' = pen this"
    proof (cases "0 < afd_count a")
      case False
      then show ?thesis using d body by (subst curve_loop.simps) simp
    next
      case True
      obtain x1 y1 a1 ns where t: "afd_turn x3 y3 x0 y0 a = Some (x1, y1, a1)" "f x3 y3 x1 y1 a1 = Some ns"
        "ms = (x0, y0, x1, y1) # ns"
        using body True by (auto simp: bind_eq_Some_conv)
      have "few (ls @ [(x0, y0, x1, y1)])" using few t(3) by (simp add: few_def)
      then obtain this1 where l: "addLine alloc x0 y0 x1 y1 this = Some this1"
        "drawn_lines ya yb (ls @ [(x0, y0, x1, y1)]) this1" "pen this1 = pen this"
        using d assms(2,3) by (blast intro: addLine_drawn)
      show ?thesis using IH [OF t(2), rule_format, OF l(2)] few t True l by (simp add: curve_loop_turn)
    qed
  qed
qed

lemma curve_drawn:
  assumes "drawn_lines ya yb ls this" "curve_lines x3 y3 x0 y0 (afd_start c) = Some ms" "few (ls @ ms)" "plenty alloc"
    "row_range ya yb"
  shows "\<exists>this'. curveBreakIntoLinesAndAdd alloc x0 y0 c x3 y3 this = Some this' \<and> drawn_lines ya yb (ls @ ms) this' \<and>
    pen this' = pen this"
  using curve_drawn_all [OF assms(2,4,5)] assms(1,3) by (simp add: curveBreakIntoLinesAndAdd_def)

section \<open>Consumers of paths\<close>

text \<open>
  The contract of a consumer. Each call is a step \<open>astep\<close> of an abstract state, which \<open>R\<close> relates to the state in memory,
  as long as the abstract state stays within the limits \<open>ok\<close>.
\<close>

locale path_consumer =
  fixes consume :: "path_op \<Rightarrow> 's \<Rightarrow> 's option"
    and astep :: "path_op \<Rightarrow> 'a \<Rightarrow> 'a option"
    and R :: "'a \<Rightarrow> 's \<Rightarrow> bool"
    and ok :: "'a \<Rightarrow> bool"
  assumes ok_back: "astep p a = Some a' \<Longrightarrow> ok a' \<Longrightarrow> ok a"
    and simulates: "R a s \<Longrightarrow> astep p a = Some a' \<Longrightarrow> ok a' \<Longrightarrow> \<exists>s'. consume p s = Some s' \<and> R a' s'"
begin

lemma runs_ok_back: "runs astep ps a = Some a' \<Longrightarrow> ok a' \<Longrightarrow> ok a"
  by (induction ps arbitrary: a) (auto simp: bind_eq_Some_conv intro: ok_back)

lemma runs_simulates:
  "R a s \<Longrightarrow> runs astep ps a = Some a' \<Longrightarrow> ok a' \<Longrightarrow> \<exists>s'. runs consume ps s = Some s' \<and> R a' s'"
proof (induction ps arbitrary: a s)
  case Nil
  then show ?case by simp
next
  case (Cons p ps)
  then obtain b where b: "astep p a = Some b" "runs astep ps b = Some a'" by (auto simp: bind_eq_Some_conv)
  then obtain s1 where "consume p s = Some s1" "R b s1"
    using simulates Cons.prems runs_ok_back by blast
  then show ?case using Cons.IH b Cons.prems by auto
qed

end


section \<open>The scan converter as a consumer\<close>

type_synonym raster_abs = "line list \<times> pen_pos"

fun raster_step :: "raster_globals \<Rightarrow> path_op \<Rightarrow> raster_abs \<Rightarrow> raster_abs option" where
  "raster_step g p (ls, pos) = map_option (\<lambda>(ms, pos'). (ls @ ms, pos')) (op_lines g p pos)"

fun raster_rel :: "(int \<Rightarrow> bool) \<Rightarrow> int \<Rightarrow> int \<Rightarrow> jint \<times> jint \<times> jint \<Rightarrow> raster_abs \<Rightarrow> prism_renderer \<Rightarrow> bool" where
  "raster_rel alloc ya yb fr (ls, x0, y0, sx, sy) this \<longleftrightarrow>
     plenty alloc \<and> row_range ya yb \<and> drawn_lines ya yb ls this \<and>
     (cur_x0 this, cur_y0 this, pix_sx0 this, pix_sy0 this) = (x0, y0, sx, sy) \<and>
     (boundsMinX this, boundsMaxX this, windingRule this) = fr"

lemma drawn_lines_pen [simp]:
  "drawn_lines ya yb ls (this\<lparr>cur_x0 := a\<rparr>) = drawn_lines ya yb ls this"
  "drawn_lines ya yb ls (this\<lparr>cur_y0 := a\<rparr>) = drawn_lines ya yb ls this"
  "drawn_lines ya yb ls (this\<lparr>pix_sx0 := a\<rparr>) = drawn_lines ya yb ls this"
  "drawn_lines ya yb ls (this\<lparr>pix_sy0 := a\<rparr>) = drawn_lines ya yb ls this"
  "drawn_lines ya yb ls (this\<lparr>cur_c := c\<rparr>) = drawn_lines ya yb ls this"
  by (simp_all add: drawn_lines_def edge_list_def edge_store_def)

lemma lineTo_drawn:
  assumes "raster_rel alloc ya yb fr (ls, x0, y0, sx, sy) this" "few (ls @ [(x0, y0, tosubpixx g x, tosubpixy g y)])"
  shows "\<exists>this'. Renderer_lineTo alloc g x y this = Some this' \<and>
    raster_rel alloc ya yb fr (ls @ [(x0, y0, tosubpixx g x, tosubpixy g y)], tosubpixx g x, tosubpixy g y, sx, sy) this'"
proof -
  obtain t where "addLine alloc x0 y0 (tosubpixx g x) (tosubpixy g y) this = Some t"
    "drawn_lines ya yb (ls @ [(x0, y0, tosubpixx g x, tosubpixy g y)]) t" "pen t = pen this"
    using assms by (auto intro: addLine_drawn)
  then show ?thesis using assms by (auto simp: Renderer_lineTo_def pen_def Let_def)
qed

lemma closePath_drawn:
  assumes "raster_rel alloc ya yb fr (ls, x0, y0, sx, sy) this" "few (ls @ [(x0, y0, tosubpixx g sx, tosubpixy g sy)])"
  shows "\<exists>this'. Renderer_closePath alloc g this = Some this' \<and>
    raster_rel alloc ya yb fr (ls @ [(x0, y0, tosubpixx g sx, tosubpixy g sy)], tosubpixx g sx, tosubpixy g sy, sx, sy) this'"
  using lineTo_drawn [OF assms] assms(1) by (simp add: Renderer_closePath_def)

lemma moveTo_drawn:
  assumes "raster_rel alloc ya yb fr (ls, x0, y0, sx, sy) this" "few (ls @ [(x0, y0, tosubpixx g sx, tosubpixy g sy)])"
  shows "\<exists>this'. Renderer_moveTo alloc g x y this = Some this' \<and>
    raster_rel alloc ya yb fr (ls @ [(x0, y0, tosubpixx g sx, tosubpixy g sy)], tosubpixx g x, tosubpixy g y, x, y) this'"
  using closePath_drawn [OF assms] by (auto simp: Renderer_moveTo_def)

lemma quadTo_drawn:
  assumes "raster_rel alloc ya yb fr (ls, x0, y0, sx, sy) this"
    "op_lines g (QuadTo x1 y1 x2 y2) (x0, y0, sx, sy) = Some (ms, pos)" "few (ls @ ms)"
  shows "\<exists>this'. Renderer_quadTo alloc g x1 y1 x2 y2 this = Some this' \<and> raster_rel alloc ya yb fr (ls @ ms, pos) this'"
proof -
  let ?c = "Curve_setquad x0 y0 (tosubpixx g x1) (tosubpixy g y1) (tosubpixx g x2) (tosubpixy g y2)"
  have ms: "quad_lines x0 y0 ?c (tosubpixx g x2) (tosubpixy g y2) = Some ms" "pos = (tosubpixx g x2, tosubpixy g y2, sx, sy)"
    using assms(2) by (auto simp: Let_def)
  obtain t where "quadBreakIntoLinesAndAdd alloc x0 y0 ?c (tosubpixx g x2) (tosubpixy g y2) (this\<lparr>cur_c := ?c\<rparr>) = Some t"
    "drawn_lines ya yb (ls @ ms) t" "pen t = pen (this\<lparr>cur_c := ?c\<rparr>)"
    using quad_drawn [of ya yb ls "this\<lparr>cur_c := ?c\<rparr>" x0 y0 ?c, OF _ ms(1) assms(3)] assms(1) by auto
  then show ?thesis using assms(1) ms(2) by (auto simp: Renderer_quadTo_def pen_def Let_def)
qed

lemma curveTo_drawn:
  assumes "raster_rel alloc ya yb fr (ls, x0, y0, sx, sy) this"
    "op_lines g (CurveTo x1 y1 x2 y2 x3 y3) (x0, y0, sx, sy) = Some (ms, pos)" "few (ls @ ms)"
  shows "\<exists>this'. Renderer_curveTo alloc g x1 y1 x2 y2 x3 y3 this = Some this' \<and> raster_rel alloc ya yb fr (ls @ ms, pos) this'"
proof -
  let ?xe = "tosubpixx g x3" and ?ye = "tosubpixy g y3"
  let ?c = "Curve_setcubic x0 y0 (tosubpixx g x1) (tosubpixy g y1) (tosubpixx g x2) (tosubpixy g y2) ?xe ?ye"
  have ms: "curve_lines ?xe ?ye x0 y0 (afd_start ?c) = Some ms" "pos = (?xe, ?ye, sx, sy)"
    using assms(2) by (auto simp: Let_def)
  obtain t where "curveBreakIntoLinesAndAdd alloc x0 y0 ?c ?xe ?ye (this\<lparr>cur_c := ?c\<rparr>) = Some t"
    "drawn_lines ya yb (ls @ ms) t" "pen t = pen (this\<lparr>cur_c := ?c\<rparr>)"
    using curve_drawn [of ya yb ls "this\<lparr>cur_c := ?c\<rparr>", OF _ ms(1) assms(3)] assms(1) by auto
  then show ?thesis using assms(1) ms(2) by (auto simp: Renderer_curveTo_def pen_def Let_def)
qed

interpretation raster: path_consumer "Renderer_consumer alloc g" "raster_step g" "raster_rel alloc ya yb fr" "\<lambda>a. few (fst a)"
  for alloc g ya yb fr
proof
  fix p a a'
  assume "raster_step g p a = Some a'" "few (fst a')"
  then show "few (fst a)" by (cases a) (auto intro: few_append)
next
  fix a this p a'
  assume r: "raster_rel alloc ya yb fr a this" and st: "raster_step g p a = Some a'" and few: "few (fst a')"
  obtain ls x0 y0 sx sy where a: "a = (ls, x0, y0, sx, sy)" by (cases a) auto
  obtain ms pos where ms: "op_lines g p (x0, y0, sx, sy) = Some (ms, pos)" "a' = (ls @ ms, pos)"
    using st by (auto simp: a)
  note r' = r [unfolded a] and few' = few [unfolded ms fst_conv]
  show "\<exists>this'. Renderer_consumer alloc g p this = Some this' \<and> raster_rel alloc ya yb fr a' this'"
  proof (cases p)
    case (MoveTo x y)
    then show ?thesis using moveTo_drawn [OF r', of g x y] few' ms by auto
  next
    case (LineTo x y)
    then show ?thesis using lineTo_drawn [OF r', of g x y] few' ms by auto
  next
    case (QuadTo x1 y1 x2 y2)
    then show ?thesis using quadTo_drawn [OF r' ms(1) [unfolded QuadTo] few'] ms(2) by simp
  next
    case (CurveTo x1 y1 x2 y2 x3 y3)
    then show ?thesis using curveTo_drawn [OF r' ms(1) [unfolded CurveTo] few'] ms(2) by simp
  next
    case ClosePath
    then show ?thesis using closePath_drawn [OF r', of g] few' ms by auto
  next
    case PathDone
    then show ?thesis using closePath_drawn [OF r', of g] few' ms by (auto simp: Renderer_pathDone_def)
  qed
qed

section \<open>Splitting a quadratic curve\<close>

text \<open>The values a \<^verbatim>\<open>jfloat\<close> can have.\<close>

fun is_f32 :: "fp \<Rightarrow> bool" where
  "is_f32 NaN = True"
| "is_f32 (Inf s) = True"
| "is_f32 (Fin s m e) \<longleftrightarrow> 0 \<le> m \<and> m < 2 ^ 24 \<and> - 149 \<le> e \<and> e \<le> 104"

lemma fint_4: "fint 4 = Fin False (2 ^ 23) (- 21)" "fint 32 = Fin False (2 ^ 23) (- 18)"
  by code_simp+

lemma above_32:
  assumes "0 \<le> m" "fp_less (fint 32) (Fin s m e)"
  shows "\<not> s" "0 < m" "5 < e + int (bit_length m)"
proof -
  define k where "k = min (- 18) e"
  have l: "2 ^ 23 * 2 ^ nat (- 18 - k) < (if s then - (m * 2 ^ nat (e - k)) else m * 2 ^ nat (e - k))"
    using assms(2) by (cases s) (simp_all add: fint_4(2) Let_def k_def)
  have p: "(0::int) < 2 ^ 23 * 2 ^ nat (- 18 - k)" "0 \<le> m * 2 ^ nat (e - k)" using assms(1) by simp_all
  have *: "\<not> s \<and> 0 < m"
  proof (rule ccontr)
    assume "\<not> (\<not> s \<and> 0 < m)"
    then have "(if s then - (m * 2 ^ nat (e - k)) else m * 2 ^ nat (e - k)) \<le> 0" using assms(1) by auto
    then show False using l p(1) by linarith
  qed
  then show "\<not> s" "0 < m" by simp_all
  show "5 < e + int (bit_length m)"
  proof (rule ccontr)
    assume "\<not> 5 < e + int (bit_length m)"
    then have "bit_length m + nat (e - k) \<le> nat (5 - k)" by (simp add: k_def)
    then have "(2::int) ^ (bit_length m + nat (e - k)) \<le> 2 ^ nat (5 - k)" by (rule power_increasing) simp
    moreover have "m * 2 ^ nat (e - k) \<le> 2 ^ bit_length m * 2 ^ nat (e - k)" using bit_length_less [OF assms(1)] by simp
    moreover have "(2::int) ^ 23 * 2 ^ nat (- 18 - k) = 2 ^ nat (5 - k)" 
      by (simp only: power_add [symmetric]) (simp add: k_def)
    moreover have "2 ^ 23 * 2 ^ nat (- 18 - k) < m * 2 ^ nat (e - k)" using l * by simp
    ultimately show False unfolding power_add by linarith
  qed
qed

lemma fdiv_4:
  assumes "0 < m" "m < 2 ^ 24" "- 147 \<le> e" "e \<le> 104"
  shows "fdiv (Fin s m e) (fint 4) = Fin s (m * 2 ^ nat (e - 2 - exact_exp F32 m (e - 2))) (exact_exp F32 m (e - 2))"
proof -
  have p: "prec F32 = 24" "lo F32 = - 149" "hi F32 = 104" by (simp_all add: F32_def)
  have bl: "bit_length (2 ^ 23) = 24" using bit_length_pow [of 1 23] by (simp add: bit_length.simps)
  have "m * 2 ^ 50 div 2 ^ 23 = m * 2 ^ 27" "m * 2 ^ 50 mod 2 ^ 23 = 0"
    using nonzero_mult_div_cancel_right [of "2 ^ 23 :: int" "m * 2 ^ 27"] mod_mult_self2_is_0 [of "m * 2 ^ 27" "2 ^ 23 :: int"] by simp_all
  moreover have "exact_exp F32 m (e - 2) \<le> 104"
    using bit_length_le [of m 24] assms by (simp add: exact_exp_def F32_def)
  ultimately show ?thesis
    using round_scaled(1) [of m F32 "e - 2" s 27] assms bl by (simp add: fint_4 p Let_def mult.commute)
qed

lemma quad_count_Fin:
  assumes "is_f32 (Fin s m e)"
  shows "\<exists>c. quad_count (Fin s m e) n = Some c"
  using assms
proof (induction "nat (e + int (bit_length m))" arbitrary: m e n rule: less_induct)
  case less
  show ?case
  proof (cases "fp_less (fint 32) (Fin s m e)")
    case True
    have m: "0 \<le> m" "m < 2 ^ 24" "e \<le> 104" using less.prems by simp_all
    note a = above_32 [OF m(1) True]
    have bl: "bit_length m \<le> 24" using m by (rule_tac bit_length_le) auto
    let ?e = "exact_exp F32 m (e - 2)"
    have e: "?e = e + int (bit_length m) - 26" using a(3) bl by (simp add: exact_exp_def F32_def)
    have bl': "bit_length (m * 2 ^ nat (e - 2 - ?e)) = 24" using a(2) bl by (simp add: bit_length_pow e)
    then have "m * 2 ^ nat (e - 2 - ?e) < 2 ^ 24" using bit_length_less [of "m * 2 ^ nat (e - 2 - ?e)"] m by simp
    then have "is_f32 (Fin s (m * 2 ^ nat (e - 2 - ?e)) ?e)" using m a(3) bl by (simp add: e)
    then have "\<exists>c. quad_count (Fin s (m * 2 ^ nat (e - 2 - ?e)) ?e) (i32 (2 * n)) = Some c"
      using a(3) bl' by (intro less.hyps) (simp_all add: e)
    moreover have "fdiv (Fin s m e) (fint 4) = Fin s (m * 2 ^ nat (e - 2 - ?e)) ?e"
      using a(2,3) m bl by (intro fdiv_4) auto
    ultimately show ?thesis using True by (subst quad_count.simps) simp
  next
    case False
    then show ?thesis by (subst quad_count.simps) simp
  qed
qed

lemma quad_count_Inf: "quad_count x n = Some c \<Longrightarrow> x \<noteq> Inf False"
  by (rule quad_count.raw_induct [where P = "\<lambda>x n c. x \<noteq> Inf False"]) (auto simp: fint_4 split: if_splits, blast)

text \<open>
  C26: the loop that chooses the number of lines for a quadratic curve ends for every float but plus infinity, and runs
  forever for that.
\<close>

theorem quad_count_ends:
  assumes "is_f32 maxDD"
  shows "(\<exists>count. quad_count maxDD 16 = Some count) \<longleftrightarrow> maxDD \<noteq> Inf False"
proof (cases maxDD)
  case NaN
  then show ?thesis by (subst quad_count.simps) (simp add: fint_4)
next
  case (Inf s)
  show ?thesis
  proof (cases s)
    case True
    then show ?thesis using Inf by (subst quad_count.simps) (simp add: fint_4)
  next
    case False
    then show ?thesis using Inf quad_count_Inf by blast
  qed
next
  case (Fin s m e)
  then show ?thesis using quad_count_Fin assms by simp
qed

theorem quad_count_ends_witness: "(\<exists>count. quad_count (fint 100) 16 = Some count) \<and> quad_count (Inf False) 16 = None"
proof -
  have "fint 100 = Fin False 13107200 (- 17)" by code_simp
  then show ?thesis using quad_count_ends [of "fint 100"] quad_count_ends [of "Inf False"] by auto
qed

end
