(* ===== verification/Prism_Stack.thy ===== *)
theory Prism_Stack
  imports Prism_Stroker Prism_Flatten
begin

text \<open>
  The stack of \<^verbatim>\<open>Stroker.c\<close> keeps the far side of an outline in two arrays, the coordinates and the types, which grow
  when they are full. This theory relates it to a list of segments, states the contract of such a stack as a locale,
  and shows that what is pushed comes back in reverse order.
\<close>

section \<open>Segments and arrays\<close>

fun is_seg :: "path_op \<Rightarrow> bool" where
  "is_seg (LineTo x1 y1) = True"
| "is_seg (QuadTo x1 y1 x2 y2) = True"
| "is_seg (CurveTo x1 y1 x2 y2 x3 y3) = True"
| "is_seg p = False"

fun seg_coords :: "path_op \<Rightarrow> jfloat list" where
  "seg_coords (LineTo x1 y1) = [x1, y1]"
| "seg_coords (QuadTo x1 y1 x2 y2) = [x1, y1, x2, y2]"
| "seg_coords (CurveTo x1 y1 x2 y2 x3 y3) = [x1, y1, x2, y2, x3, y3]"
| "seg_coords p = []"

abbreviation seg_type :: "path_op \<Rightarrow> jint" where
  "seg_type p \<equiv> int (length (seg_coords p)) + 2"

abbreviation stacked :: "path_op list \<Rightarrow> jfloat list" where
  "stacked S \<equiv> concat (map seg_coords (rev S))"

text \<open>The list has the top first, the arrays have it last.\<close>

definition stack_rel :: "path_op list \<Rightarrow> poly_stack \<Rightarrow> bool" where
  "stack_rel S s \<longleftrightarrow>
     list_all is_seg S \<and>
     ps_numCurves s = int (length S) \<and> ps_end s = int (length (stacked S)) \<and>
     ps_curvesSIZE s = int (length (ps_curves s)) \<and> ps_curveTypesSIZE s = int (length (ps_curveTypes s)) \<and>
     0 < ps_curveTypesSIZE s \<and>
     (\<exists>cs ts. ps_curves s = stacked S @ cs \<and> ps_curveTypes s = map seg_type (rev S) @ ts)"

lemma seg_coords_length: "length (seg_coords p) \<le> 6"
  by (cases p) auto

lemma stacked_length: "length (stacked S) \<le> 6 * length S"
  using seg_coords_length by (induction S) (auto simp: add.commute add_mono)

lemma System_arraycopy_prefix:
  assumes "length xs \<le> length zs"
  shows "System_arraycopy (xs @ ys) 0 zs 0 (int (length xs)) = Some (xs @ drop (length xs) zs)"
  using System_arraycopy_eq [of "int (length xs)" "xs @ ys" zs] assms by simp

section \<open>Operations\<close>

text \<open>Room for so many segments is enough for the sizes to stay clear of overflow.\<close>

abbreviation stack_room :: nat where "stack_room \<equiv> 2 ^ 24"

lemma stack_room_end:
  assumes "stack_rel S s" "length S \<le> stack_room"
  shows "ps_numCurves s \<le> 16777216" "ps_end s \<le> 100663296" "0 \<le> ps_end s"
  using assms stacked_length [of S] by (simp_all add: stack_rel_def)

lemma ensureSpace_ok:
  assumes rel: "stack_rel S s" and al: "plenty alloc" and room: "length S < stack_room" and n: "0 \<le> n" "n \<le> 6"
  shows "\<exists>s'. ensureSpace alloc n s = Some s' \<and> stack_rel S s' \<and> ps_end s' + n \<le> ps_curvesSIZE s' \<and>
    ps_numCurves s' < ps_curveTypesSIZE s'"
proof -
  obtain cs ts where arr: "ps_curves s = stacked S @ cs" "ps_curveTypes s = map seg_type (rev S) @ ts"
    using rel by (auto simp: stack_rel_def)
  have R: "list_all is_seg S" "ps_numCurves s = int (length S)" "ps_end s = int (length (stacked S))"
    "ps_curvesSIZE s = int (length (ps_curves s))" "ps_curveTypesSIZE s = int (length (ps_curveTypes s))" "0 < ps_curveTypesSIZE s"
    using rel by (auto simp: stack_rel_def)
  note B = stack_room_end [OF rel] room n
  have i: "i32 (ps_end s + n) = ps_end s + n" "i32 ((ps_end s + n) * 2) = (ps_end s + n) * 2"
    "i32 (ps_numCurves s * 2) = ps_numCurves s * 2"
    using B by (simp_all add: i32_small R(2) del: distrib_right_numeral)
  define s1 where "s1 = (if ps_curvesSIZE s \<le> ps_end s + n
    then s\<lparr>ps_curves := stacked S @ drop (length (stacked S)) (new_float alloc ((ps_end s + n) * 2)),
           ps_curvesSIZE := (ps_end s + n) * 2\<rparr> else s)"
  have c: "System_arraycopy (ps_curves s) 0 (new_float alloc ((ps_end s + n) * 2)) 0 (ps_end s) =
      Some (stacked S @ drop (length (stacked S)) (new_float alloc ((ps_end s + n) * 2)))"
    unfolding arr R(3) by (rule System_arraycopy_prefix) (use al n in \<open>simp add: new_float_def plenty_def\<close>)
  have s1: "stack_rel S s1" "ps_end s1 + n \<le> ps_curvesSIZE s1" "ps_end s1 = ps_end s" "ps_numCurves s1 = ps_numCurves s"
    "ps_curveTypes s1 = ps_curveTypes s" "ps_curveTypesSIZE s1 = ps_curveTypesSIZE s"
    using rel al n R(3) by (auto simp: s1_def stack_rel_def new_float_def plenty_def)
  have t: "System_arraycopy (ps_curveTypes s) 0 (new_int alloc (ps_numCurves s * 2)) 0 (ps_numCurves s) =
      Some (map seg_type (rev S) @ drop (length S) (new_int alloc (ps_numCurves s * 2)))"
    using System_arraycopy_prefix [of "map seg_type (rev S)" "new_int alloc (ps_numCurves s * 2)" ts] al
    by (simp add: arr R(2) new_int_def plenty_def)
  define s2 where "s2 = (if ps_curveTypesSIZE s \<le> ps_numCurves s
    then s1\<lparr>ps_curveTypes := map seg_type (rev S) @ drop (length S) (new_int alloc (ps_numCurves s * 2)),
            ps_curveTypesSIZE := ps_numCurves s * 2\<rparr> else s1)"
  have "ensureSpace alloc n s = Some s2"
    using t c s1 by (simp add: ensureSpace_def i Let_def s2_def s1_def del: distrib_right_numeral)
  moreover have "stack_rel S s2 \<and> ps_end s2 + n \<le> ps_curvesSIZE s2 \<and> ps_numCurves s2 < ps_curveTypesSIZE s2"
    using s1 R al by (auto simp: s2_def stack_rel_def new_int_def plenty_def)
  ultimately show ?thesis by blast
qed

abbreviation stack_push :: "(int \<Rightarrow> bool) \<Rightarrow> path_op \<Rightarrow> poly_stack \<Rightarrow> poly_stack option" where
  "stack_push alloc p \<equiv> push_seg alloc (seg_type p) (seg_coords p)"

lemma push_seg_ok:
  assumes rel: "stack_rel S s" and al: "plenty alloc" and room: "length S < stack_room" and p: "is_seg p"
  shows "\<exists>s'. stack_push alloc p s = Some s' \<and> stack_rel (p # S) s'"
proof -
  let ?vs = "seg_coords p"
  obtain s1 where s1: "ensureSpace alloc (int (length ?vs)) s = Some s1" "stack_rel S s1"
    "ps_end s1 + int (length ?vs) \<le> ps_curvesSIZE s1" "ps_numCurves s1 < ps_curveTypesSIZE s1"
    using ensureSpace_ok [OF rel al room, of "int (length ?vs)"] seg_coords_length [of p] by auto
  then obtain cs ts where arr: "ps_curves s1 = stacked S @ cs" "ps_curveTypes s1 = map seg_type (rev S) @ ts"
    by (auto simp: stack_rel_def)
  have R: "ps_numCurves s1 = int (length S)" "ps_end s1 = int (length (stacked S))" "length ?vs \<le> length cs" "ts \<noteq> []"
    "ps_curvesSIZE s1 = int (length (ps_curves s1))"
    using s1 arr by (auto simp: stack_rel_def)
  have w: "wr_all (ps_curves s1) (ps_end s1) ?vs = Some (stacked S @ ?vs @ drop (length ?vs) cs)"
    unfolding arr R(2) by (rule wr_all_append) (rule R(3))
  have t: "wr (ps_curveTypes s1) (ps_numCurves s1) (seg_type p) = Some (map seg_type (rev S) @ seg_type p # tl ts)"
    using R(4) by (cases ts) (simp_all add: arr R(1) list_update_append)
  have i: "i32 (ps_numCurves s1 + 1) = ps_numCurves s1 + 1" "i32 (ps_end s1 + int (length ?vs)) = ps_end s1 + int (length ?vs)"
    using stack_room_end [OF s1(2)] room seg_coords_length [of p] R(1) by (simp_all add: i32_small)
  let ?s = "s1\<lparr>ps_curveTypes := map seg_type (rev S) @ seg_type p # tl ts, ps_numCurves := ps_numCurves s1 + 1,
              ps_curves := stacked S @ seg_coords p @ drop (length ?vs) cs, ps_end := ps_end s1 + int (length ?vs)\<rparr>"
  have "stack_push alloc p s = Some ?s"
    unfolding push_seg_def s1(1) by (simp add: w t i)
  moreover have "stack_rel (p # S) ?s"
    using s1(2) p R arr by (auto simp: stack_rel_def)
  ultimately show ?thesis by blast
qed

lemma PolyStack_pop_ok:
  assumes rel: "stack_rel (p # S) s" and room: "length S < stack_room"
  shows "\<exists>s'. PolyStack_pop s = Some ([p], s') \<and> stack_rel S s'"
proof -
  obtain cs ts where arr: "ps_curves s = stacked S @ seg_coords p @ cs" "ps_curveTypes s = map seg_type (rev S) @ seg_type p # ts"
    using rel by (auto simp: stack_rel_def)
  have R: "ps_numCurves s = int (length S) + 1" "ps_end s = int (length (stacked S)) + int (length (seg_coords p))" "is_seg p"
    using rel by (auto simp: stack_rel_def)
  have B: "length (stacked S) \<le> 100663296" using stacked_length [of S] room by simp
  have n: "i32 (ps_numCurves s - 1) = int (length S)" using R(1) room by (simp add: i32_small)
  have e: "i32 (ps_end s - (seg_type p - 2)) = int (length (stacked S))" using R(2) B by (simp add: i32_small)
  have t: "rd (ps_curveTypes s) (int (length S)) = Some (seg_type p)" by (simp add: arr nth_append)
  have c: "rd (ps_curves s) (int (length (stacked S)) + int j) = Some (seg_coords p ! j)" if "j < length (seg_coords p)" for j
    using that by (simp add: arr nth_append nat_add_distrib)
  let ?s = "s\<lparr>ps_numCurves := int (length S), ps_end := int (length (stacked S))\<rparr>"
  have "PolyStack_pop s = Some ([p], ?s)"
    using R(3) c [of 0] c [of 1] c [of 2] c [of 3] c [of 4] c [of 5] e
    by (cases p) (simp_all add: PolyStack_pop_def n t Let_def)
  moreover have "stack_rel S ?s"
    using rel by (auto simp: stack_rel_def)
  ultimately show ?thesis by blast
qed

section \<open>The contract of a stack\<close>

text \<open>
  A stack of segments: \<open>rel\<close> relates it to the list of its elements, top first, and it holds up to \<open>room\<close> of them.
\<close>

locale seg_stack =
  fixes rel :: "'p list \<Rightarrow> 's \<Rightarrow> bool"
    and push :: "'p \<Rightarrow> 's \<Rightarrow> 's option"
    and pop :: "'s \<Rightarrow> ('p list \<times> 's) option"
    and isEmpty :: "'s \<Rightarrow> bool"
    and elem :: "'p \<Rightarrow> bool"
    and room :: nat
  assumes push_ok: "rel S s \<Longrightarrow> length S < room \<Longrightarrow> elem p \<Longrightarrow> \<exists>s'. push p s = Some s' \<and> rel (p # S) s'"
    and pop_ok: "rel (p # S) s \<Longrightarrow> length S < room \<Longrightarrow> \<exists>s'. pop s = Some ([p], s') \<and> rel S s'"
    and isEmpty_iff: "rel S s \<Longrightarrow> isEmpty s \<longleftrightarrow> S = []"
begin

lemma pop_all_ok:
  "rel S s \<Longrightarrow> length S \<le> n \<Longrightarrow> length S \<le> room \<Longrightarrow> \<exists>s'. pop_all isEmpty pop n s = Some (S, s') \<and> rel [] s'"
proof (induction n arbitrary: S s)
  case 0
  then show ?case by (simp add: isEmpty_iff)
next
  case (Suc n)
  show ?case
  proof (cases S)
    case Nil
    then show ?thesis using Suc.prems by (auto simp: isEmpty_iff)
  next
    case (Cons p T)
    then obtain s1 where "pop s = Some ([p], s1)" "rel T s1" using Suc.prems pop_ok by fastforce
    then show ?thesis using Suc.IH [of T s1] Suc.prems Cons by (auto simp: isEmpty_iff)
  qed
qed

lemma pushes_ok:
  "rel S s \<Longrightarrow> list_all elem ps \<Longrightarrow> length S + length ps \<le> room \<Longrightarrow> \<exists>s'. runs push ps s = Some s' \<and> rel (rev ps @ S) s'"
proof (induction ps arbitrary: S s)
  case Nil
  then show ?case by simp
next
  case (Cons p ps)
  then obtain s1 where "push p s = Some s1" "rel (p # S) s1" using push_ok [of S s p] by auto
  then show ?case using Cons.IH [of "p # S" s1] Cons.prems by auto
qed

lemma push_pop_all:
  assumes "rel [] s" "list_all elem ps" "length ps \<le> room"
  shows "\<exists>s' s''. runs push ps s = Some s' \<and> pop_all isEmpty pop (length ps) s' = Some (rev ps, s'') \<and> rel [] s''"
proof -
  obtain s' where "runs push ps s = Some s'" "rel (rev ps) s'"
    using pushes_ok [of "[]" s ps] assms by auto
  then show ?thesis using pop_all_ok [of "rev ps" s' "length ps"] assms by auto
qed

end

lemma PolyStack_isEmpty_iff: "stack_rel S s \<Longrightarrow> PolyStack_isEmpty s \<longleftrightarrow> S = []"
  by (simp add: stack_rel_def PolyStack_isEmpty_def)

text \<open>The stack of the stroker, with memory available.\<close>

interpretation rs: seg_stack stack_rel "stack_push (\<lambda>_. True)" PolyStack_pop PolyStack_isEmpty is_seg stack_room
  by unfold_locales (auto simp: plenty_def intro: push_seg_ok PolyStack_pop_ok dest: PolyStack_isEmpty_iff)

lemma PolyStack_init_rel: "plenty alloc \<Longrightarrow> stack_rel [] (PolyStack_init alloc)"
  by (simp add: PolyStack_init_def stack_rel_def new_float_def new_int_def plenty_def)

lemma plenty_True: "plenty alloc \<Longrightarrow> alloc = (\<lambda>_. True)"
  by (auto simp: plenty_def)

text \<open>
  C27: the stack of the stroker gives back what was put on it, last first: however often its arrays grow on the way, taking
  everything off a stack of up to \<open>2 ^ 24\<close> segments yields exactly the segments in reverse order, with their coordinates, and an
  empty stack.
\<close>

theorem PolyStack_push_pop:
  assumes "list_all is_seg ps" "length ps \<le> 2 ^ 24"
  shows "\<exists>s s'. runs (\<lambda>p. push_seg (\<lambda>_. True) (seg_type p) (seg_coords p)) ps (PolyStack_init (\<lambda>_. True)) = Some s \<and>
    pop_all PolyStack_isEmpty PolyStack_pop (length ps) s = Some (rev ps, s') \<and> PolyStack_isEmpty s'"
  using rs.push_pop_all [OF PolyStack_init_rel [of "\<lambda>_. True"], of ps] assms PolyStack_isEmpty_iff by (auto simp: plenty_def)

theorem PolyStack_push_pop_witness:
  "\<exists>s s'. runs (\<lambda>p. push_seg (\<lambda>_. True) (seg_type p) (seg_coords p)) (replicate 60 (LineTo (fint 1) (fint 2)) @ [QuadTo (fint 1) (fint 2) (fint 3) (fint 4)])
      (PolyStack_init (\<lambda>_. True)) = Some s \<and>
    pop_all PolyStack_isEmpty PolyStack_pop 61 s = Some (QuadTo (fint 1) (fint 2) (fint 3) (fint 4) # replicate 60 (LineTo (fint 1) (fint 2)), s') \<and>
    PolyStack_isEmpty s'"
  using PolyStack_push_pop [of "replicate 60 (LineTo (fint 1) (fint 2)) @ [QuadTo (fint 1) (fint 2) (fint 3) (fint 4)]"]
  by (simp add: list_all_iff)

end
