(* ===== verification/Prism_Roots.thy ===== *)
theory Prism_Roots
  imports Prism_Stroker "HOL-Library.Multiset"
begin

text \<open>
  What the numerical helpers promise the stroker: the number of roots stays within the arrays, filtering in place is filtering,
  sorting in place is sorting.
\<close>

section \<open>The order of floats\<close>

text \<open>A finite float in units of \<open>2 ^ k\<close>. Everything but NaN is linearly ordered, up to the two zeroes.\<close>

definition scaled :: "int \<Rightarrow> bool \<Rightarrow> int \<Rightarrow> int \<Rightarrow> int" where
  "scaled k s m e = (if s then - m else m) * 2 ^ nat (e - k)"

lemma scaled_shift: "k \<le> l \<Longrightarrow> l \<le> e \<Longrightarrow> scaled k s m e = scaled l s m e * 2 ^ nat (l - k)"
  by (simp add: scaled_def mult.assoc power_add [symmetric] nat_add_distrib [symmetric])

lemma fp_less_common:
  assumes "k \<le> e" "k \<le> d"
  shows "fp_less (Fin s m e) (Fin t n d) \<longleftrightarrow> scaled k s m e < scaled k t n d"
proof -
  let ?l = "min e d"
  have "scaled k s m e = scaled ?l s m e * 2 ^ nat (?l - k)" "scaled k t n d = scaled ?l t n d * 2 ^ nat (?l - k)"
    using assms by (auto intro: scaled_shift)
  then have "scaled k s m e < scaled k t n d \<longleftrightarrow> scaled ?l s m e < scaled ?l t n d" by simp
  then show ?thesis by (simp add: Let_def scaled_def)
qed

lemma fp_not_less_trans:
  assumes "x \<noteq> NaN" "y \<noteq> NaN" "z \<noteq> NaN" "\<not> fp_less y x" "\<not> fp_less z y"
  shows "\<not> fp_less z x"
proof (cases "\<exists>s m e t n d u l f. x = Fin s m e \<and> y = Fin t n d \<and> z = Fin u l f")
  case True
  then obtain s m e t n d u l f where E: "x = Fin s m e" "y = Fin t n d" "z = Fin u l f" by blast
  let ?k = "min e (min d f)"
  have "fp_less y x \<longleftrightarrow> scaled ?k t n d < scaled ?k s m e" "fp_less z y \<longleftrightarrow> scaled ?k u l f < scaled ?k t n d"
    "fp_less z x \<longleftrightarrow> scaled ?k u l f < scaled ?k s m e"
    unfolding E by (rule fp_less_common; simp)+
  then show ?thesis using assms(4,5) by simp
next
  case False
  then show ?thesis using assms by (cases x; cases y; cases z) auto
qed

lemma fp_less_asym: "fp_less x y \<Longrightarrow> \<not> fp_less y x"
  by (induction x y rule: fp_less.induct) (auto simp: Let_def min.commute)

section \<open>Sorting and filtering in place\<close>

text \<open>Insertion from the right end of a list.\<close>

fun insert_back :: "jfloat \<Rightarrow> jfloat list \<Rightarrow> jfloat list" where
  "insert_back x [] = [x]"
| "insert_back x (z # zs) = (if fp_less x z then z # insert_back x zs else x # z # zs)"

lemma isort_insert_eq:
  "isort_insert (length ys) (int (length pre)) x (pre @ ys @ y # post) = Some (pre @ rev (insert_back x (rev ys)) @ post)"
proof (induction ys arbitrary: y post rule: rev_induct)
  case Nil
  then show ?case by (simp add: list_update_append)
next
  case (snoc z ys)
  have r: "rd (pre @ ys @ z # y # post) (int (length pre) + int (length ys)) = Some z"
    by (simp add: nth_append nat_add_distrib)
  have w: "wr (pre @ ys @ z # y # post) (int (length pre) + int (length ys) + 1) v = Some (pre @ ys @ z # v # post)" for v
    by (simp add: wr_def list_update_append nat_add_distrib)
  show ?case using snoc.IH [of z "z # post"] by (simp add: r w)
qed

abbreviation float_sorted :: "jfloat list \<Rightarrow> bool" where
  "float_sorted \<equiv> sorted_wrt (\<lambda>x y. \<not> fp_less y x)"

lemma insert_back_mset: "mset (insert_back x zs) = add_mset x (mset zs)"
  by (induction zs) auto

lemma insert_back_sorted:
  assumes "NaN \<notin> set (x # zs)" "sorted_wrt (\<lambda>u v. \<not> fp_less u v) zs"
  shows "sorted_wrt (\<lambda>u v. \<not> fp_less u v) (insert_back x zs)"
  using assms
proof (induction zs)
  case Nil
  then show ?case by simp
next
  case (Cons z zs)
  have s: "set (insert_back x zs) = insert x (set zs)" by (metis insert_back_mset set_mset_add_mset_insert set_mset_mset)
  show ?case
  proof (cases "fp_less x z")
    case True
    then show ?thesis using Cons s by (auto dest: fp_less_asym)
  next
    case False
    then have "\<not> fp_less x u" if "u \<in> set zs" for u
      using Cons.prems that fp_not_less_trans [of u z x] by force
    then show ?thesis using False Cons.prems by auto
  qed
qed

lemma Helpers_isort_eq:
  assumes "1 \<le> length ys"
  shows "\<exists>zs. Helpers_isort (pre @ ys @ post) (int (length pre)) (int (length ys)) = Some (pre @ zs @ post) \<and>
    mset zs = mset ys \<and> (NaN \<notin> set ys \<longrightarrow> float_sorted zs)"
proof -
  define P where "P = (\<lambda>j a. \<exists>zs. a = pre @ zs @ drop (nat j + 1) ys @ post \<and> mset zs = mset (take (nat j + 1) ys) \<and>
    (NaN \<notin> set ys \<longrightarrow> float_sorted zs))"
  have "\<exists>t. Helpers_isort (pre @ ys @ post) (int (length pre)) (int (length ys)) = Some t \<and> P (int (length ys) - 1) t"
    unfolding Helpers_isort_def
  proof (rule for_loop_inv)
    show "P 0 (pre @ ys @ post)"
      using assms by (cases ys) (auto simp: P_def intro!: exI [of _ "[hd ys]"])
  next
    fix j a
    assume j: "0 \<le> j" "j < int (length ys) - 1" and "P j a"
    then obtain zs where a: "a = pre @ zs @ drop (nat j + 1) ys @ post" and m: "mset zs = mset (take (nat j + 1) ys)"
      and srt: "NaN \<notin> set ys \<longrightarrow> float_sorted zs" by (auto simp: P_def)
    let ?y = "ys ! (nat j + 1)"
    have jl: "Suc (nat j) < length ys" using j by linarith
    have len: "length zs = nat j + 1" using mset_eq_length [OF m] jl by simp
    have d: "drop (nat j + 1) ys = ?y # drop (nat j + 2) ys" "take (nat j + 2) ys = take (nat j + 1) ys @ [?y]"
      using j by (simp_all add: Cons_nth_drop_Suc take_Suc_conv_app_nth)
    have r: "rd a (int (length pre) + j + 1) = Some ?y"
      using j len jl by (simp add: a d(1) rd_def nth_append nat_add_distrib)
    have i: "isort_insert (nat (j + 1)) (int (length pre)) ?y a =
        Some (pre @ rev (insert_back ?y (rev zs)) @ drop (nat j + 2) ys @ post)"
    proof -
      have "nat (j + 1) = length zs" using len j by simp
      then show ?thesis unfolding a d(1) append_Cons by (simp only: isort_insert_eq)
    qed
    have "float_sorted (rev (insert_back ?y (rev zs)))" if "NaN \<notin> set ys"
    proof -
      have "?y \<in> set ys" using j by simp
      moreover have "set zs \<subseteq> set ys" using m by (metis set_mset_mset set_take_subset)
      ultimately show ?thesis
        using insert_back_sorted [of ?y "rev zs"] srt that by (fastforce simp: sorted_wrt_rev)
    qed
    then have "P (j + 1) (pre @ rev (insert_back ?y (rev zs)) @ drop (nat j + 2) ys @ post)"
      using m j by (auto simp: P_def nat_add_distrib insert_back_mset d(2) [simplified])
    then show "\<exists>t'. Option.bind (rd a (int (length pre) + j + 1)) (\<lambda>ai. isort_insert (nat (j + 1)) (int (length pre)) ai a) = Some t' \<and> P (j + 1) t'"
      unfolding r bind.bind_lunit i by blast
  qed (use assms in auto)
  then show ?thesis using assms by (auto simp: P_def nat_diff_distrib)
qed

text \<open>
  Sorting in place: the given stretch of the array becomes a sorted permutation of itself, the rest of the array stays.
\<close>

lemma Helpers_isort_sorts:
  assumes "NaN \<notin> set ys"
  shows "\<exists>zs. Helpers_isort (pre @ ys @ post) (int (length pre)) (int (length ys)) = Some (pre @ zs @ post) \<and>
    mset zs = mset ys \<and> float_sorted zs"
  using Helpers_isort_eq [of ys pre post] assms by (cases ys) (auto simp: Helpers_isort_def)

lemma Helpers_filterOutNotInAB_eq:
  "\<exists>rest. Helpers_filterOutNotInAB (pre @ ys @ post) (int (length pre)) (int (length ys)) a b =
     Some (int (length pre) + int (length (filter (\<lambda>x. fp_le a x \<and> fp_less x b) ys)),
           pre @ filter (\<lambda>x. fp_le a x \<and> fp_less x b) ys @ rest @ post) \<and>
     length (filter (\<lambda>x. fp_le a x \<and> fp_less x b) ys) + length rest = length ys"
proof -
  let ?f = "filter (\<lambda>x. fp_le a x \<and> fp_less x b)"
  define P where "P = (\<lambda>j (ret, nums). \<exists>rest. ret = int (length pre) + int (length (?f (take (nat j) ys))) \<and>
    nums = pre @ ?f (take (nat j) ys) @ rest @ drop (nat j) ys @ post \<and> length (?f (take (nat j) ys)) + length rest = nat j)"
  have "\<exists>t. Helpers_filterOutNotInAB (pre @ ys @ post) (int (length pre)) (int (length ys)) a b = Some t \<and> P (int (length ys)) t"
    unfolding Helpers_filterOutNotInAB_def
  proof (rule for_loop_inv)
    show "P 0 (int (length pre), pre @ ys @ post)" by (simp add: P_def)
  next
    fix j t
    assume j: "0 \<le> j" "j < int (length ys)" and "P j t"
    then obtain rest where t: "t = (int (length pre) + int (length (?f (take (nat j) ys))),
        pre @ ?f (take (nat j) ys) @ rest @ drop (nat j) ys @ post)"
      and len: "length (?f (take (nat j) ys)) + length rest = nat j" by (auto simp: P_def)
    define k where "k = ?f (take (nat j) ys)"
    have jl: "nat j < length ys" using j by linarith
    then obtain y us where d: "drop (nat j) ys = y # us" "take (nat j + 1) ys = take (nat j) ys @ [y]" "drop (nat j + 1) ys = us"
      using Cons_nth_drop_Suc [OF jl] take_Suc_conv_app_nth [OF jl] by simp metis
    have t: "t = (int (length pre) + int (length k), pre @ k @ rest @ y # us @ post)"
      and len: "length k + length rest = nat j" unfolding k_def using len by (simp_all add: t d(1))
    have r: "rd (pre @ k @ rest @ y # us @ post) (int (length pre) + j) = Some y"
    proof -
      have "j = int (length k) + int (length rest)" using j len by linarith
      then show ?thesis by (simp add: rd_def nth_append nat_add_distrib)
    qed
    have w: "\<exists>r'. wr (pre @ k @ rest @ y # us @ post) (int (length pre) + int (length k)) y = Some (pre @ (k @ [y]) @ r' @ us @ post) \<and>
        length r' = length rest"
    proof (cases rest)
      case Nil
      then show ?thesis by (simp add: wr_def list_update_append nat_add_distrib)
    next
      case (Cons z zs)
      then show ?thesis
        by (intro exI [of _ "zs @ [y]"]) (simp add: wr_def list_update_append nat_add_distrib)
    qed
    have "nat (j + 1) = nat j + 1" using j by simp
    then have f: "?f (take (nat (j + 1)) ys) = (if fp_le a y \<and> fp_less y b then k @ [y] else k)"
      and dr: "drop (nat (j + 1)) ys = us"
      using d(3) by (simp_all only: d(2) k_def) simp
    show "\<exists>t'. (case t of (ret, nums) \<Rightarrow> Option.bind (rd nums (int (length pre) + j)) (\<lambda>x.
        if fp_le a x \<and> fp_less x b then Option.bind (wr nums ret x) (\<lambda>nums. Some (ret + 1, nums)) else Some (ret, nums))) =
        Some t' \<and> P (j + 1) t'"
    proof (cases "fp_le a y \<and> fp_less y b")
      case True
      then show ?thesis using w len j unfolding P_def f dr by (auto simp: t r simp del: rd_Some wr_Some)
    next
      case False
      then show ?thesis using len j unfolding P_def f dr by (auto simp: t r simp del: rd_Some intro!: exI [of _ "rest @ [y]"])
    qed
  qed simp
  then show ?thesis by (auto simp: P_def)
qed

section \<open>Numbers of roots\<close>

text \<open>A function that stores at most \<open>k\<close> numbers after \<open>pre\<close>, over what was in \<open>post\<close>, and returns how many.\<close>

definition stores :: "nat \<Rightarrow> jfloat list \<Rightarrow> jfloat list \<Rightarrow> (jint \<times> jfloat list) option \<Rightarrow> bool" where
  "stores k pre post r \<longleftrightarrow>
     (\<exists>vs post'. r = Some (int (length vs), pre @ vs @ post') \<and> length vs \<le> k \<and> length vs + length post' = length post)"

lemma storesI:
  "r = Some (int (length vs), pre @ vs @ post') \<Longrightarrow> length vs \<le> k \<Longrightarrow> length vs + length post' = length post \<Longrightarrow> stores k pre post r"
  by (auto simp: stores_def)

lemma quadraticRoots_stores:
  assumes "2 \<le> length post"
  shows "stores 2 pre post (Helpers_quadraticRoots a b c (pre @ post) (int (length pre)))"
proof -
  have "\<exists>roots. Helpers_quadraticRoots a b c (pre @ post) (int (length pre)) =
      map_option (\<lambda>zeroes. (int (length roots), zeroes)) (wr_all (pre @ post) (int (length pre)) roots) \<and> length roots \<le> 2"
    unfolding Helpers_quadraticRoots_def Let_def by (intro exI conjI, rule refl) simp
  then obtain roots where "Helpers_quadraticRoots a b c (pre @ post) (int (length pre)) =
      map_option (\<lambda>zeroes. (int (length roots), zeroes)) (wr_all (pre @ post) (int (length pre)) roots)"
    "length roots \<le> 2" by blast
  then show ?thesis using assms by (intro storesI) (auto simp: wr_all_append)
qed

lemma cardano_length: "length (cardano lm p q) \<le> 3"
  by (simp add: cardano_def Let_def)

lemma cubicRootsInAB_stores:
  assumes "3 \<le> length post"
  shows "stores 3 pre post (Helpers_cubicRootsInAB lm d a b c (pre @ post) (int (length pre)) A B)"
proof -
  let ?f = "filter (\<lambda>x. fp_le A x \<and> fp_less x B)"
  have keep: "stores 3 pre post (Option.bind (Helpers_filterOutNotInAB (pre @ vs @ post') (int (length pre)) (int (length vs)) A B)
      (\<lambda>(ret, pts). Some (ret - int (length pre), pts)))"
    if "length vs \<le> 3" "length vs + length post' = length post" for vs post'
    using Helpers_filterOutNotInAB_eq [of pre vs post' A B] that length_filter_le [of _ vs]
    by (force intro: storesI [of _ "?f vs"])
  show ?thesis
  proof (cases "fp_eq d (fint 0)")
    case True
    obtain vs post' where "Helpers_quadraticRoots a b c (pre @ post) (int (length pre)) = Some (int (length vs), pre @ vs @ post')"
      "length vs \<le> 2" "length vs + length post' = length post"
      using quadraticRoots_stores [of post pre a b c] assms by (auto simp: stores_def)
    then show ?thesis using True keep [of vs post'] by (simp add: Helpers_cubicRootsInAB_def)
  next
    case False
    have "\<exists>xs sub. length xs \<le> 3 \<and> Helpers_cubicRootsInAB lm d a b c (pre @ post) (int (length pre)) A B =
        Option.bind (wr_all (pre @ post) (int (length pre)) xs) (\<lambda>pts.
        Option.bind (wr_all pts (int (length pre)) (map (\<lambda>x. fsub x sub) xs)) (\<lambda>pts.
        Option.bind (Helpers_filterOutNotInAB pts (int (length pre)) (int (length xs)) A B) (\<lambda>(ret, pts). Some (ret - int (length pre), pts))))"
      unfolding Helpers_cubicRootsInAB_def Let_def if_not_P [OF False] by (intro exI conjI, rule cardano_length, rule refl)
    then obtain xs sub where l: "length xs \<le> 3" and
      e: "Helpers_cubicRootsInAB lm d a b c (pre @ post) (int (length pre)) A B =
        Option.bind (wr_all (pre @ post) (int (length pre)) xs) (\<lambda>pts.
        Option.bind (wr_all pts (int (length pre)) (map (\<lambda>x. fsub x sub) xs)) (\<lambda>pts.
        Option.bind (Helpers_filterOutNotInAB pts (int (length pre)) (int (length xs)) A B) (\<lambda>(ret, pts). Some (ret - int (length pre), pts))))"
      by blast
    show ?thesis
      using keep [of "map (\<lambda>x. fsub x sub) xs" "drop (length xs) post"] l assms by (simp add: e wr_all_append)
  qed
qed

lemma rootsOfROCMinusW_stores:
  assumes "4 \<le> length post"
  shows "stores 4 pre post (Curve_rootsOfROCMinusW lm this (pre @ post) (int (length pre)) w err)"
proof -
  let ?off = "int (length pre)"
  obtain vs post1 where p: "perpendiculardfddf lm this (pre @ post) ?off = Some (int (length vs), pre @ vs @ post1)"
    "length vs \<le> 3" "length vs + length post1 = length post"
    using cubicRootsInAB_stores [of post pre lm] assms unfolding perpendiculardfddf_def Let_def stores_def by fastforce
  then obtain x post2 where "post1 = x # post2" using assms by (cases post1) auto
  then have w1: "wr (pre @ vs @ post1) (?off + int (length vs)) (fint 1) = Some (pre @ vs @ fint 1 # post2)"
    by (simp add: wr_def list_update_append nat_add_distrib)
  define P where "P = (\<lambda>i (ret, t0 :: jfloat, ft0 :: jfloat, roots). length roots = length pre + length post \<and> take (length pre) roots = pre \<and>
    ?off \<le> ret \<and> ret \<le> ?off + i)"
  define body where "body = (\<lambda>i (ret, t0, ft0, roots). Option.bind (rd roots (?off + i)) (\<lambda>t1.
    let ft1 = fsub (ROCsq this t1) (fmul w w)
    in Option.bind (if fp_eq ft0 (fint 0) then map_option (\<lambda>roots. (ret + 1, roots)) (wr roots ret t0)
          else if fp_less (fmul ft1 ft0) (fint 0) then
            map_option (\<lambda>roots. (ret + 1, roots)) (wr roots ret (falsePositionROCsqMinusX this t0 t1 (fmul w w) err))
          else Some (ret, roots)) (\<lambda>(ret, roots). Some (ret, t1, ft1, roots))))"
  have "\<exists>t. for_loop (int (length vs) + 1) body (?off, fint 0, fsub (ROCsq this (fint 0)) (fmul w w), pre @ vs @ fint 1 # post2) = Some t \<and>
      P (int (length vs) + 1) t"
  proof (rule for_loop_inv)
    show "P 0 (?off, fint 0, fsub (ROCsq this (fint 0)) (fmul w w), pre @ vs @ fint 1 # post2)"
      using p(3) \<open>post1 = x # post2\<close> by (simp add: P_def)
  next
    fix j t
    assume j: "0 \<le> j" "j < int (length vs) + 1" and "P j t"
    then obtain ret t0 ft0 roots where t: "t = (ret, t0, ft0, roots)" "length roots = length pre + length post"
      "take (length pre) roots = pre" "?off \<le> ret" "ret \<le> ?off + j" by (auto simp: P_def)
    have w: "wr roots ret v = Some (roots[nat ret := v])" "take (length pre) (roots[nat ret := v]) = pre" for v
      using t j p(2) assms by simp_all
    have r: "rd roots (?off + j) = Some (roots ! nat (?off + j))" using t j p(2) assms by simp
    show "\<exists>t'. body j t = Some t' \<and> P (j + 1) t'"
      using t by (auto simp: body_def r w P_def Let_def)
  qed simp
  then obtain ret t0 ft0 roots where l: "for_loop (int (length vs) + 1) body
      (?off, fint 0, fsub (ROCsq this (fint 0)) (fmul w w), pre @ vs @ fint 1 # post2) = Some (ret, t0, ft0, roots)"
    "length roots = length pre + length post" "take (length pre) roots = pre" "?off \<le> ret" "ret \<le> ?off + (int (length vs) + 1)"
    by (auto simp: P_def)
  define k where "k = nat (ret - ?off)"
  have k: "ret = ?off + int k" "k \<le> 4" using l p(2) by (auto simp: k_def)
  have "Curve_rootsOfROCMinusW lm this (pre @ post) ?off w err = Some (int k, roots)"
    unfolding Curve_rootsOfROCMinusW_def p(1) body_def [symmetric] using l(1) k by (simp add: w1 Let_def body_def [unfolded Let_def])
  moreover have "roots = pre @ take k (drop (length pre) roots) @ drop k (drop (length pre) roots)"
    using l(3) by (metis append_take_drop_id)
  ultimately show ?thesis
    using k assms l(2) by (intro storesI [of _ "take k (drop (length pre) roots)" _ "drop k (drop (length pre) roots)"]) auto
qed

section \<open>Where a curve is split\<close>

lemma rotated_curve_ok:
  assumes "type = 6 \<or> type = 8" "type \<le> int (length pts)"
  shows "\<exists>c'. rotated_curve pts type c = Some c'"
proof -
  have "pts \<noteq> []" using assms by auto
  then show ?thesis using assms by (auto simp: rotated_curve_def Curve_set_def Let_def)
qed

abbreviation split_lo :: jfloat where "split_lo \<equiv> fp_literal F32 1 4"
abbreviation split_hi :: jfloat where "split_hi \<equiv> fp_literal F32 9999 4"

lemma findSubdivPoints_ok:
  assumes type: "type = 6 \<or> type = 8" "type \<le> int (length pts)" and ts: "length ts = 10"
  shows "\<exists>us rest c'. findSubdivPoints env pts ts type w c = Some (int (length us), us @ rest, c') \<and>
    length us + length rest = 10 \<and> float_sorted us \<and> (\<forall>t \<in> set us. fp_le split_lo t \<and> fp_less t split_hi)"
proof -
  obtain c1 where c1: "rotated_curve pts type c = Some c1" using rotated_curve_ok [OF type] by blast
  obtain v1 r1 where 1: "Curve_dxRoots c1 ts 0 = Some (int (length v1), v1 @ r1)" "length v1 \<le> 2" "length v1 + length r1 = 10"
    using quadraticRoots_stores [of ts "[]"] ts by (fastforce simp: stores_def Curve_dxRoots_def)
  obtain v2 r2 where 2: "Curve_dyRoots c1 (v1 @ r1) (int (length v1)) = Some (int (length v2), v1 @ v2 @ r2)"
    "length v2 \<le> 2" "length v2 + length r2 = length r1"
    using quadraticRoots_stores [of r1 v1] 1 by (fastforce simp: stores_def Curve_dyRoots_def)
  have e: "int (length v1) + int (length v2) = int (length (v1 @ v2))" by simp
  obtain v3 r3 where 3: "(if type = 8 then Curve_infPoints c1 (v1 @ v2 @ r2) (int (length (v1 @ v2))) else Some (0, v1 @ v2 @ r2)) =
      Some (int (length v3), v1 @ v2 @ v3 @ r3)" "length v3 \<le> 2" "length v3 + length r3 = length r2"
  proof (cases "type = 8")
    case True
    have "\<exists>v3 r3. Curve_infPoints c1 ((v1 @ v2) @ r2) (int (length (v1 @ v2))) = Some (int (length v3), (v1 @ v2) @ v3 @ r3) \<and>
        length v3 \<le> 2 \<and> length v3 + length r3 = length r2"
      using quadraticRoots_stores [of r2 "v1 @ v2"] 1 2 unfolding stores_def Curve_infPoints_def Let_def by fastforce
    then show ?thesis using True that by auto
  next
    case False
    then show ?thesis using that [of "[]" r2] by simp
  qed
  let ?w = "v1 @ v2 @ v3"
  have e3: "int (length (v1 @ v2)) + int (length v3) = int (length ?w)" by simp
  obtain v4 r4 where 4: "Curve_rootsOfROCMinusW (se_math env) c1 (?w @ r3) (int (length ?w)) w split_lo =
      Some (int (length v4), ?w @ v4 @ r4)" "length v4 + length r4 = length r3"
    using rootsOfROCMinusW_stores [of r3 ?w] 1 2 3 unfolding stores_def by fastforce
  have e4: "int (length ?w) + int (length v4) = int (length (?w @ v4))" by simp
  let ?us = "filter (\<lambda>x. fp_le split_lo x \<and> fp_less x split_hi) (?w @ v4)"
  obtain rest where 5: "Helpers_filterOutNotInAB (?w @ v4 @ r4) 0 (int (length (?w @ v4))) split_lo split_hi =
      Some (int (length ?us), ?us @ rest @ r4)" "length ?us + length rest = length (?w @ v4)"
    using Helpers_filterOutNotInAB_eq [of "[]" "?w @ v4" r4] by auto
  have nan: "NaN \<notin> set ?us" by (auto simp: fp_le_def)
  obtain zs where 6: "Helpers_isort (?us @ rest @ r4) 0 (int (length ?us)) = Some (zs @ rest @ r4)" "mset zs = mset ?us" "float_sorted zs"
    using Helpers_isort_sorts [OF nan, of "[]" "rest @ r4"] by auto
  have len: "length zs = length ?us" and set: "set zs = set ?us" using 6(2) by (metis mset_eq_length, metis set_mset_mset)
  have "findSubdivPoints env pts ts type w c = Some (int (length zs), zs @ rest @ r4, c1)"
    unfolding findSubdivPoints_def c1 bind.bind_lunit 1(1) prod.case Let_def 2(1) e
      3(1) e3 4(1) [unfolded append_assoc] e4 [unfolded append_assoc] len
    using 5(1) 6(1) by simp
  then show ?thesis using 5(2) 4(2) 3(3) 2(3) 1(3) 6(3) len set
    by (intro exI [of _ zs] exI [of _ "rest @ r4"] exI [of _ c1]) auto
qed

end
