(* ===== verification/Prism_Subdivide.thy ===== *)
theory Prism_Subdivide
  imports Prism_Stroker
begin

text \<open>
  Subdivision of curves against the construction of de Casteljau. The code computes the points of both halves with a fixed
  number of variables and stores them over the curve itself; the reference repeats one interpolation on a list of points.
\<close>

section \<open>The construction of de Casteljau\<close>

type_synonym point = "jfloat \<times> jfloat"

text \<open>The control points, the points between them, the points between those, and so on down to one point.\<close>

function casteljau :: "('a \<Rightarrow> 'a \<Rightarrow> 'a) \<Rightarrow> 'a list \<Rightarrow> 'a list list" where
  "casteljau f [] = []"
| "casteljau f [p] = [[p]]"
| "casteljau f (p # q # ps) = (p # q # ps) # casteljau f (map2 f (p # q # ps) (q # ps))"
  by pat_completeness auto
termination
  by (relation "measure (\<lambda>(f, ps). length ps)") auto

text \<open>The control points of the left and of the right part.\<close>

definition left_part :: "('a \<Rightarrow> 'a \<Rightarrow> 'a) \<Rightarrow> 'a list \<Rightarrow> 'a list" where
  "left_part f ps = map hd (casteljau f ps)"

definition right_part :: "('a \<Rightarrow> 'a \<Rightarrow> 'a) \<Rightarrow> 'a list \<Rightarrow> 'a list" where
  "right_part f ps = rev (map last (casteljau f ps))"

lemma casteljau_length: "length (casteljau f ps) = length ps"
  by (induction f ps rule: casteljau.induct) auto

lemma parts_length [simp]: "length (left_part f ps) = length ps" "length (right_part f ps) = length ps"
  by (simp_all add: left_part_def right_part_def casteljau_length)

lemma casteljau_last: "ps \<noteq> [] \<Longrightarrow> hd (last (casteljau f ps)) = last (last (casteljau f ps))"
proof (induction f ps rule: casteljau.induct)
  case (3 f p q ps)
  then have "casteljau f (map2 f (p # q # ps) (q # ps)) \<noteq> []"
    by (metis casteljau_length length_0_conv list.map(2) list.simps(3) zip_Cons_Cons)
  then show ?case using 3 by simp
qed auto

lemma casteljau_hd: "ps \<noteq> [] \<Longrightarrow> hd (casteljau f ps) = ps"
  by (cases "(f, ps)" rule: casteljau.cases) auto

lemma casteljau_not_Nil: "casteljau f ps = [] \<longleftrightarrow> ps = []"
  using casteljau_length [of f ps] by auto

text \<open>The parts meet in a point and keep the ends of the curve.\<close>

lemma parts_join:
  assumes "ps \<noteq> []"
  shows "last (left_part f ps) = hd (right_part f ps)" "hd (left_part f ps) = hd ps" "last (right_part f ps) = last ps"
  using assms casteljau_last [OF assms, of f] casteljau_hd [OF assms, of f]
  by (simp_all add: left_part_def right_part_def casteljau_not_Nil last_map hd_rev hd_map last_rev)

section \<open>In place\<close>

abbreviation flat :: "point list \<Rightarrow> jfloat list" where
  "flat ps \<equiv> concat (map (\<lambda>(x, y). [x, y]) ps)"

definition mix_at :: "jfloat \<Rightarrow> point \<Rightarrow> point \<Rightarrow> point" where
  "mix_at t p q = (fadd (fst p) (fmul t (fsub (fst q) (fst p))), fadd (snd p) (fmul t (fsub (snd q) (snd p))))"

definition midpoint :: "point \<Rightarrow> point \<Rightarrow> point" where
  "midpoint p q = (fdiv (fadd (fst p) (fst q)) (fint 2), fdiv (fadd (snd p) (snd q)) (fint 2))"

lemma rd_after:
  "rd (pre @ xs) (int (length pre)) = rd xs 0"
  "0 \<le> i \<Longrightarrow> rd (pre @ xs) (int (length pre) + i) = rd xs i"
  "0 \<le> i \<Longrightarrow> rd (pre @ xs) (i + int (length pre)) = rd xs i"
  by (auto simp: rd_def nth_append nat_add_distrib)

lemma wr_after:
  "wr (pre @ xs) (int (length pre)) v = map_option ((@) pre) (wr xs 0 v)"
  "0 \<le> i \<Longrightarrow> wr (pre @ xs) (int (length pre) + i) v = map_option ((@) pre) (wr xs i v)"
  "0 \<le> i \<Longrightarrow> wr (pre @ xs) (i + int (length pre)) v = map_option ((@) pre) (wr xs i v)"
  by (auto simp: wr_def list_update_append nat_add_distrib)

lemma rd_Cons: "rd (x # xs) i = (if i = 0 then Some x else if 0 < i then rd xs (i - 1) else None)"
  by (auto simp: rd_def nth_Cons' nat_diff_distrib)

lemma wr_Cons:
  "wr (x # xs) i v = (if i = 0 then Some (v # xs) else if 0 < i then map_option ((#) x) (wr xs (i - 1) v) else None)"
  by (auto simp: wr_def list_update.simps(2) nat_diff_distrib split: nat.splits)

lemmas in_place = rd_after wr_after rd_Cons wr_Cons

lemma fp_add_comm: "fp_add F x y = fp_add F y x"
  by (cases x; cases y) (auto simp: Let_def min.commute add.commute)

lemma midpoint_comm: "midpoint p q = midpoint q p"
  by (simp add: midpoint_def fp_add_comm)

text \<open>A curve of the given type, as its points; the two parts share the point in the middle.\<close>

lemma points_of_type:
  assumes "length ps = 4"
  obtains x0 y0 x1 y1 x2 y2 x3 y3 where "ps = [(x0, y0), (x1, y1), (x2, y2), (x3, y3)]"
  using assms by (auto simp: eval_nat_numeral length_Suc_conv)

lemma points_of_type_6:
  assumes "length ps = 3"
  obtains x0 y0 x1 y1 x2 y2 where "ps = [(x0, y0), (x1, y1), (x2, y2)]"
  using assms by (auto simp: eval_nat_numeral length_Suc_conv)

lemma subdivideCubicAt_in_place:
  assumes "length ps = 4" "6 \<le> length rest"
  shows "Helpers_subdivideCubicAt t (pre @ flat ps @ rest) (int (length pre)) (int (length pre)) (int (length pre) + 6) =
    Some (pre @ flat (butlast (left_part (mix_at t) ps) @ right_part (mix_at t) ps) @ drop 6 rest)"
proof -
  obtain x0 y0 x1 y1 x2 y2 x3 y3 where ps: "ps = [(x0, y0), (x1, y1), (x2, y2), (x3, y3)]"
    using points_of_type [OF assms(1)] .
  obtain a b c d e f r where rest: "rest = a # b # c # d # e # f # r"
    using assms(2) by (auto simp: eval_nat_numeral Suc_le_length_iff)
  show ?thesis
    by (simp add: Helpers_subdivideCubicAt_def ps rest in_place Let_def left_part_def right_part_def mix_at_def del: rd_Some wr_Some)
qed

lemma subdivideQuadAt_in_place:
  assumes "length ps = 3" "4 \<le> length rest"
  shows "Helpers_subdivideQuadAt t (pre @ flat ps @ rest) (int (length pre)) (int (length pre)) (int (length pre) + 4) =
    Some (pre @ flat (butlast (left_part (mix_at t) ps) @ right_part (mix_at t) ps) @ drop 4 rest)"
proof -
  obtain x0 y0 x1 y1 x2 y2 where ps: "ps = [(x0, y0), (x1, y1), (x2, y2)]"
    using points_of_type_6 [OF assms(1)] .
  obtain a b c d r where rest: "rest = a # b # c # d # r"
    using assms(2) by (auto simp: eval_nat_numeral Suc_le_length_iff)
  show ?thesis
    by (simp add: Helpers_subdivideQuadAt_def ps rest in_place Let_def left_part_def right_part_def mix_at_def del: rd_Some wr_Some)
qed

lemma subdivideAt_in_place:
  assumes "length ps = 3 \<or> length ps = 4" "2 * length ps - 2 \<le> length rest"
  shows "Helpers_subdivideAt t (pre @ flat ps @ rest) (int (length pre)) (int (length pre))
      (int (length pre) + (2 * int (length ps) - 2)) (2 * int (length ps)) =
    Some (pre @ flat (butlast (left_part (mix_at t) ps) @ right_part (mix_at t) ps) @ drop (2 * length ps - 2) rest)"
  using assms subdivideCubicAt_in_place [of ps rest t pre] subdivideQuadAt_in_place [of ps rest t pre]
  by (auto simp: Helpers_subdivideAt_def)

section \<open>Splitting at several parameters\<close>

text \<open>
  The reference: cut off the part up to the first parameter, go on with the rest of the curve, on which the remaining
  parameters are stretched to the unit interval.
\<close>

fun split_at :: "jfloat \<Rightarrow> jfloat list \<Rightarrow> point list \<Rightarrow> point list" where
  "split_at prevT [] ps = ps"
| "split_at prevT (t # ts) ps =
     (let f = mix_at (fdiv (fsub t prevT) (fsub (fint 1) prevT))
      in butlast (left_part f ps) @ split_at t ts (right_part f ps))"

lemma flat_length: "length (flat ps) = 2 * length ps"
  by (induction ps) auto

lemma split_curve_eq:
  assumes ps: "length ps = 3 \<or> length ps = 4" and us: "length us * (2 * length ps - 2) \<le> length rest"
  shows "split_curve (2 * int (length ps)) (int (length us)) (us @ ms) (flat ps @ rest) =
    Some (flat (split_at (fint 0) us ps) @ drop (length us * (2 * length ps - 2)) rest)"
proof -
  let ?step = "2 * length ps - 2" and ?type = "2 * int (length ps)"
  have step: "?type - 2 = int ?step" using ps by auto
  define body where "body = (\<lambda>i (prevT, middle). Option.bind (rd (us @ ms) i) (\<lambda>t.
    Option.bind (Helpers_subdivideAt (fdiv (fsub t prevT) (fsub (fint 1) prevT)) middle (i * int ?step) (i * int ?step)
      (i * int ?step + int ?step) ?type) (\<lambda>middle. Some (t, middle))))"
  define P where "P = (\<lambda>i (prevT, middle). \<exists>ds qs. length qs = length ps \<and> 2 * length ds = nat i * ?step \<and>
    middle = flat ds @ flat qs @ drop (nat i * ?step) rest \<and> ds @ split_at prevT (drop (nat i) us) qs = split_at (fint 0) us ps)"
  have "\<exists>t. for_loop (int (length us)) body (fint 0, flat ps @ rest) = Some t \<and> P (int (length us)) t"
  proof (rule for_loop_inv)
    show "P 0 (fint 0, flat ps @ rest)" by (auto simp: P_def)
  next
    fix j s
    assume j: "0 \<le> j" "j < int (length us)" and "P j s"
    then obtain prevT ds qs where s: "s = (prevT, flat ds @ flat qs @ drop (nat j * ?step) rest)" and q: "length qs = length ps"
      and d: "2 * length ds = nat j * ?step" and eq: "ds @ split_at prevT (drop (nat j) us) qs = split_at (fint 0) us ps"
      by (auto simp: P_def)
    let ?t = "us ! nat j" and ?f = "mix_at (fdiv (fsub (us ! nat j) prevT) (fsub (fint 1) prevT))"
    have jl: "nat j < length us" using j by linarith
    have r: "rd (us @ ms) j = Some ?t" using j jl by (simp add: rd_def nth_append)
    have off: "j * int ?step = int (length (flat ds))" using j d by (simp add: flat_length)
    have "Suc (nat j) * ?step \<le> length us * ?step" using jl by (intro mult_le_mono1) simp
    then have "?step \<le> length (drop (nat j * ?step) rest)" using us by simp
    then have b: "body j s = Some (?t, flat ds @ flat (butlast (left_part ?f qs) @ right_part ?f qs) @ drop ?step (drop (nat j * ?step) rest))"
      unfolding body_def s prod.case r bind.bind_lunit off
      using subdivideAt_in_place [of qs "drop (nat j * ?step) rest" "fdiv (fsub ?t prevT) (fsub (fint 1) prevT)" "flat ds"] ps
      unfolding q step by (simp only: bind.bind_lunit)
    have dr: "drop ?step (drop (nat j * ?step) rest) = drop (nat (j + 1) * ?step) rest"
      using j by (simp add: nat_add_distrib add.commute)
    have du: "drop (nat j) us = ?t # drop (nat (j + 1)) us"
      using j jl by (simp add: nat_add_distrib Cons_nth_drop_Suc)
    have "P (j + 1) (?t, flat ds @ flat (butlast (left_part ?f qs) @ right_part ?f qs) @ drop (nat (j + 1) * ?step) rest)"
      unfolding P_def prod.case
      by (rule exI [of _ "ds @ butlast (left_part ?f qs)"], rule exI [of _ "right_part ?f qs"])
        (use du q d eq j in \<open>simp add: Let_def nat_add_distrib\<close>)
    then show "\<exists>s'. body j s = Some s' \<and> P (j + 1) s'" using b dr by auto
  qed simp
  then show ?thesis
    unfolding split_curve_def Let_def step body_def [symmetric] by (auto simp: P_def) (metis concat_append map_append)
qed

lemma split_at_props:
  "ps \<noteq> [] \<Longrightarrow> length (split_at prevT us ps) = length ps + length us * (length ps - 1) \<and>
    hd (split_at prevT us ps) = hd ps \<and> last (split_at prevT us ps) = last ps"
proof (induction prevT us ps rule: split_at.induct)
  case (2 prevT t ts ps)
  let ?f = "mix_at (fdiv (fsub t prevT) (fsub (fint 1) prevT))"
  have n: "left_part ?f ps \<noteq> []" "right_part ?f ps \<noteq> []" using 2(2) parts_length by (metis length_0_conv)+
  have IH: "length (split_at t ts (right_part ?f ps)) = length ps + length ts * (length ps - 1)"
    "hd (split_at t ts (right_part ?f ps)) = hd (right_part ?f ps)" "last (split_at t ts (right_part ?f ps)) = last (right_part ?f ps)"
    using 2(1) [OF refl n(2)] by simp_all
  then have ne: "split_at t ts (right_part ?f ps) \<noteq> []" using 2(2) by auto
  have "hd (butlast (left_part ?f ps) @ split_at t ts (right_part ?f ps)) = hd (left_part ?f ps)"
    using n parts_join(1) [OF 2(2), of ?f] IH(2) by (cases "left_part ?f ps" rule: rev_cases) (auto simp: hd_append)
  then show ?case using IH ne parts_join [OF 2(2), of ?f] 2(2) by (simp add: Let_def)
qed simp

text \<open>
  C28: splitting a curve in place, at up to ten parameters as the stroker does, is the construction of de Casteljau, one cut after the
  other: the array holds the control points of all pieces, each piece starting with the last point of the one before, the first
  piece starting and the last one ending where the curve does.
\<close>

theorem split_curve_casteljau:
  assumes "length ps = 3 \<or> length ps = 4" "length us \<le> 10" "length (flat ps @ rest) = 88"
  shows "\<exists>qs rest'. split_curve (2 * int (length ps)) (int (length us)) (us @ ts) (flat ps @ rest) = Some (flat qs @ rest') \<and>
    qs = split_at (fint 0) us ps \<and> length (flat qs @ rest') = 88 \<and>
    length qs = length ps + length us * (length ps - 1) \<and> hd qs = hd ps \<and> last qs = last ps"
proof -
  have "length us * (2 * length ps - 2) \<le> 10 * (2 * length ps - 2)" using assms(2) by (rule mult_le_mono1)
  then have l: "length us * (2 * length ps - 2) \<le> length rest" using assms(1,3) by (auto simp: flat_length)
  have ne: "ps \<noteq> []" using assms(1) by auto
  note p = split_at_props [OF ne, of "fint 0" us]
  show ?thesis
    using split_curve_eq [OF assms(1) l, of ts] p l assms by (fastforce simp: flat_length algebra_simps)
qed

theorem split_curve_casteljau_witness:
  "let p = (\<lambda>x y. (fint x, fint y)); half = fp_literal F32 5 1
   in \<exists>rest'. split_curve 6 1 [half] (flat [p 0 0, p 2 4, p 4 0] @ replicate 82 (fint 0)) =
        Some (flat (split_at (fint 0) [half] [p 0 0, p 2 4, p 4 0]) @ rest')"
proof -
  let ?p = "\<lambda>x y. (fint x, fint y)"
  show ?thesis
    using split_curve_casteljau [of "[?p 0 0, ?p 2 4, ?p 4 0]" "[fp_literal F32 5 1]" "replicate 82 (fint 0)" "[]"]
    by (auto simp: Let_def)
qed

end
