(* ===== verification/Prism_Outline.thy ===== *)
theory Prism_Outline
  imports Prism_Stack Prism_Roots Prism_Subdivide
begin

text \<open>
  The stroker as a consumer of paths. Whatever calls it gets, it stays within its arrays, and what it passes on is a sequence of
  closed outlines. The number of segments on its stack is bounded by the number of calls.
\<close>

section \<open>Results and sequences\<close>

text \<open>The operation returns, and its result satisfies \<open>Q\<close>.\<close>

definition yields :: "'a option \<Rightarrow> ('a \<Rightarrow> bool) \<Rightarrow> bool" where
  "yields r Q \<longleftrightarrow> (\<exists>x. r = Some x \<and> Q x)"

lemma yields_Some [simp]: "yields (Some x) Q \<longleftrightarrow> Q x"
  by (simp add: yields_def)

lemma yields_bind: "yields (Option.bind r f) Q \<longleftrightarrow> yields r (\<lambda>x. yields (f x) Q)"
  by (cases r) (auto simp: yields_def)

lemma yields_map: "yields (map_option f r) Q \<longleftrightarrow> yields r (\<lambda>x. Q (f x))"
  by (cases r) (auto simp: yields_def)

lemma yields_mono: "yields r P \<Longrightarrow> (\<And>x. P x \<Longrightarrow> Q x) \<Longrightarrow> yields r Q"
  by (auto simp: yields_def)

lemma yields_rd: "0 \<le> i \<Longrightarrow> i < int (length xs) \<Longrightarrow> yields (rd xs i) Q \<longleftrightarrow> Q (xs ! nat i)"
  by simp

section \<open>Outlines\<close>

text \<open>
  The order of calls in an outline: a subpath starts with \<open>MoveTo\<close>, segments and the closing come within a subpath, and the path is
  done when no subpath is open. The state is whether one is open.
\<close>

fun outline_step :: "path_op \<Rightarrow> bool \<Rightarrow> bool option" where
  "outline_step (MoveTo x y) open = Some True"
| "outline_step ClosePath open = (if open then Some False else None)"
| "outline_step PathDone open = (if open then None else Some False)"
| "outline_step p open = (if open then Some True else None)"

definition outline :: "path_op list \<Rightarrow> bool option" where
  "outline ps = runs outline_step ps False"

lemma outline_Nil [simp]: "outline [] = Some False"
  by (simp add: outline_def)

lemma outline_append: "outline (ps @ qs) = Option.bind (outline ps) (runs outline_step qs)"
  by (simp add: outline_def runs_append)

lemma outline_segs: "list_all is_seg ps \<Longrightarrow> runs outline_step ps True = Some True"
proof (induction ps)
  case (Cons p ps)
  then show ?case by (cases p) auto
qed simp

section \<open>States of the stroker\<close>

text \<open>
  At most \<open>m\<close> segments are on the stack, the arrays have their sizes, and the calls so far are an outline with a subpath
  open or not.
\<close>

definition stroking :: "nat \<Rightarrow> bool \<Rightarrow> stroker \<Rightarrow> bool" where
  "stroking m b s \<longleftrightarrow>
     (\<exists>S. stack_rel S (st_reverse s) \<and> length S \<le> m) \<and> outline (st_calls s) = Some b \<and>
     length (st_middle s) = 88 \<and> length (st_lp s) = 8 \<and> length (st_rp s) = 8 \<and> length (st_subdivTs s) = 10"

lemma stroking_mono: "stroking m b s \<Longrightarrow> m \<le> n \<Longrightarrow> stroking n b s"
  by (auto simp: stroking_def intro: order_trans)

lemma stroking_fields [simp]:
  "stroking m b (s\<lparr>st_sx0 := x\<rparr>) = stroking m b s" "stroking m b (s\<lparr>st_sy0 := x\<rparr>) = stroking m b s"
  "stroking m b (s\<lparr>st_sdx := x\<rparr>) = stroking m b s" "stroking m b (s\<lparr>st_sdy := x\<rparr>) = stroking m b s"
  "stroking m b (s\<lparr>st_cx0 := x\<rparr>) = stroking m b s" "stroking m b (s\<lparr>st_cy0 := x\<rparr>) = stroking m b s"
  "stroking m b (s\<lparr>st_cdx := x\<rparr>) = stroking m b s" "stroking m b (s\<lparr>st_cdy := x\<rparr>) = stroking m b s"
  "stroking m b (s\<lparr>st_smx := x\<rparr>) = stroking m b s" "stroking m b (s\<lparr>st_smy := x\<rparr>) = stroking m b s"
  "stroking m b (s\<lparr>st_cmx := x\<rparr>) = stroking m b s" "stroking m b (s\<lparr>st_cmy := x\<rparr>) = stroking m b s"
  "stroking m b (s\<lparr>st_prev := p\<rparr>) = stroking m b s" "stroking m b (s\<lparr>st_c := c\<rparr>) = stroking m b s"
  by (simp_all add: stroking_def)

text \<open>What one emission does: at most one more segment on the stack, the subpath stays open, and \<^verbatim>\<open>prev\<close> stays.\<close>

abbreviation draws :: "nat \<Rightarrow> stroker \<Rightarrow> stroker \<Rightarrow> bool" where
  "draws m s s' \<equiv> stroking m True s' \<and> st_prev s' = st_prev s"

definition within_room :: "stroke_env \<Rightarrow> nat \<Rightarrow> bool" where
  "within_room env m \<longleftrightarrow> plenty (se_alloc env) \<and> m \<le> stack_room"

lemma emit_segs: "stroking m True s \<Longrightarrow> list_all is_seg ps \<Longrightarrow> draws m s (emit ps s)"
  by (auto simp: stroking_def emit_def outline_append outline_segs)

lemma push_draws:
  assumes "stroking m True s" "within_room env (Suc m)" "is_seg p"
  shows "yields (map_option (\<lambda>r. s\<lparr>st_reverse := r\<rparr>) (stack_push (se_alloc env) p (st_reverse s))) (draws (Suc m) s)"
proof -
  obtain S where S: "stack_rel S (st_reverse s)" "length S \<le> m" using assms(1) by (auto simp: stroking_def)
  obtain r where "stack_push (se_alloc env) p (st_reverse s) = Some r" "stack_rel (p # S) r"
    using push_seg_ok [OF S(1), of "se_alloc env" p] S(2) assms(2,3) by (auto simp: within_room_def)
  then show ?thesis using assms(1) S(2) by (auto simp: stroking_def intro!: exI [of _ "p # S"])
qed

text \<open>A piece of the stroker that adds at most \<open>k\<close> segments to the stack.\<close>

definition adds :: "nat \<Rightarrow> stroke_env \<Rightarrow> (stroker \<Rightarrow> stroker option) \<Rightarrow> bool" where
  "adds k env f \<longleftrightarrow> (\<forall>m s. stroking m True s \<longrightarrow> within_room env (m + k) \<longrightarrow> yields (f s) (draws (m + k) s))"

lemma within_room_mono: "within_room env n \<Longrightarrow> m \<le> n \<Longrightarrow> within_room env m"
  by (auto simp: within_room_def)

lemma addsI:
  "(\<And>m s. stroking m True s \<Longrightarrow> within_room env (m + k) \<Longrightarrow> yields (f s) (draws (m + k) s)) \<Longrightarrow> adds k env f"
  by (simp add: adds_def)

lemma addsD: "adds k env f \<Longrightarrow> stroking m True s \<Longrightarrow> within_room env (m + k) \<Longrightarrow> yields (f s) (draws (m + k) s)"
  by (simp add: adds_def)

lemma adds_Some [intro]: "adds k env Some"
  by (rule addsI) (auto intro: stroking_mono)

lemma adds_mono:
  assumes "adds k env f" "k \<le> n"
  shows "adds n env f"
proof (rule addsI)
  fix m s
  assume "stroking m True s" and r: "within_room env (m + n)"
  then have "yields (f s) (draws (m + k) s)"
    using assms(2) by (intro addsD [OF assms(1)] within_room_mono [OF r]) simp_all
  then show "yields (f s) (draws (m + n) s)"
    by (rule yields_mono) (use assms(2) in \<open>auto elim: stroking_mono\<close>)
qed

lemma adds_bind:
  assumes f: "adds k env f" and g: "\<And>s. adds l env (g s)" and n: "n = k + l"
  shows "adds n env (\<lambda>s. Option.bind (f s) (\<lambda>t. g t t))"
proof (rule addsI)
  fix m s
  assume s: "stroking m True s" and r: "within_room env (m + n)"
  have "yields (f s) (draws (m + k) s)" using s within_room_mono [OF r] n by (intro addsD [OF f]) auto
  then obtain t where t: "f s = Some t" "draws (m + k) s t" by (auto simp: yields_def)
  then have "yields (g t t) (draws (m + k + l) t)" using r n by (intro addsD [OF g]) (simp_all add: add.assoc)
  then show "yields (Option.bind (f s) (\<lambda>t. g t t)) (draws (m + n) s)"
    using t n by (simp add: add.assoc)
qed

lemma adds_If: "adds k env f \<Longrightarrow> adds k env g \<Longrightarrow> adds k env (\<lambda>s. if c s then f s else g s)"
  by (simp add: adds_def)

lemma emitLineTo_adds [intro]: "adds 1 env (emitLineTo env x y rv)"
  using push_draws [where p = "LineTo x y"]
  by (auto simp: adds_def emitLineTo_def PolyStack_pushLine_def intro: emit_segs [THEN conjunct1, THEN stroking_mono] emit_segs [THEN conjunct2])

lemma emitQuadTo_adds [intro]: "adds 1 env (emitQuadTo env x0 y0 x1 y1 x2 y2 rv)"
  using push_draws [where p = "QuadTo x1 y1 x0 y0"]
  by (auto simp: adds_def emitQuadTo_def PolyStack_pushQuad_def intro: emit_segs [THEN conjunct1, THEN stroking_mono] emit_segs [THEN conjunct2])

lemma emitCurveTo_adds [intro]: "adds 1 env (emitCurveTo env x0 y0 x1 y1 x2 y2 x3 y3 rv)"
  using push_draws [where p = "CurveTo x2 y2 x1 y1 x0 y0"]
  by (auto simp: adds_def emitCurveTo_def PolyStack_pushCubic_def intro: emit_segs [THEN conjunct1, THEN stroking_mono] emit_segs [THEN conjunct2])

lemma emitLineTo_left [intro]: "adds 0 env (emitLineTo env x y False)"
  by (auto simp: adds_def emitLineTo_def emit_segs)

lemma emitQuadTo_left [intro]: "adds 0 env (emitQuadTo env x0 y0 x1 y1 x2 y2 False)"
  by (auto simp: adds_def emitQuadTo_def emit_segs)

lemma emitCurveTo_left [intro]: "adds 0 env (emitCurveTo env x0 y0 x1 y1 x2 y2 x3 y3 False)"
  by (auto simp: adds_def emitCurveTo_def emit_segs)

lemma adds_then:
  assumes "adds k env f" "stroking m True s" "within_room env n" "m + k \<le> n"
    and "\<And>t. stroking (m + k) True t \<Longrightarrow> st_prev t = st_prev s \<Longrightarrow> yields (g t) Q"
  shows "yields (Option.bind (f s) g) Q"
proof -
  have "yields (f s) (draws (m + k) s)" using assms(2,4) within_room_mono [OF assms(3)] by (intro addsD [OF assms(1)]) auto
  then obtain t where "f s = Some t" "stroking (m + k) True t" "st_prev t = st_prev s" by (auto simp: yields_def)
  then show ?thesis using assms(5) by simp
qed

section \<open>Joins and caps\<close>

lemma drawBezApproxForArc_adds: "adds 1 env (drawBezApproxForArc env cx cy omx omy mx my rv)"
proof (rule addsI)
  fix m s
  assume "stroking m True s" "within_room env (m + 1)"
  then have "yields (emitCurveTo env a b c d e f g h rv s) (draws (m + 1) s)" for a b c d e f g h
    by (rule addsD [OF emitCurveTo_adds])
  then show "yields (drawBezApproxForArc env cx cy omx omy mx my rv s) (draws (m + 1) s)"
    by (simp only: drawBezApproxForArc_def Let_def)
qed

lemma drawRoundJoin2_adds: "adds 2 env (drawRoundJoin2 env cx cy omx omy mx my rv)"
proof (rule addsI)
  fix m s
  assume s: "stroking m True s" and r: "within_room env (m + 2)"
  have two: "yields (Option.bind (drawBezApproxForArc env cx cy omx omy a b rv s) (drawBezApproxForArc env cx cy a b mx my rv)) (draws (m + 2) s)"
    for a b
    using addsD [OF adds_bind [OF drawBezApproxForArc_adds drawBezApproxForArc_adds refl] s] r by simp
  show "yields (drawRoundJoin2 env cx cy omx omy mx my rv s) (draws (m + 2) s)"
    using addsD [OF adds_mono [OF drawBezApproxForArc_adds, of 2] s] r two by (cases rv) (simp_all add: drawRoundJoin2_def Let_def)
qed

lemma drawRoundJoin_adds: "adds 2 env (drawRoundJoin env x y omx omy mx my rv threshold)"
proof (rule addsI)
  fix m s
  assume s: "stroking m True s" and r: "within_room env (m + 2)"
  then show "yields (drawRoundJoin env x y omx omy mx my rv threshold s) (draws (m + 2) s)"
    using addsD [OF drawRoundJoin2_adds s r] by (auto simp: drawRoundJoin_def Let_def intro: stroking_mono)
qed

lemma drawRoundCap_adds: "adds 0 env (drawRoundCap env cx cy mx my)"
  unfolding drawRoundCap_def Let_def by (rule adds_bind [OF emitCurveTo_left emitCurveTo_left]) simp

lemma drawMiter_adds: "adds 1 env (drawMiter env pdx pdy x0 y0 dx dy omx omy mx my rv)"
proof (rule addsI)
  fix m s
  assume s: "stroking m True s" and r: "within_room env (m + 1)"
  have "yields (emitLineTo env a b rv s) (draws (m + 1) s)" for a b by (rule addsD [OF emitLineTo_adds s r])
  then show "yields (drawMiter env pdx pdy x0 y0 dx dy omx omy mx my rv s) (draws (m + 1) s)"
    using stroking_mono [OF s, of "m + 1"] by (cases rv) (simp_all add: drawMiter_def Let_def split: prod.split)
qed

text \<open>Between two calls: within a subpath something may be on the stack, otherwise nothing is.\<close>

definition stroke_inv :: "nat \<Rightarrow> stroker \<Rightarrow> bool" where
  "stroke_inv m s \<longleftrightarrow> (if st_prev s = DRAWING_OP_TO then stroking m True s else stroking 0 False s)"

abbreviation drawing :: "nat \<Rightarrow> stroker \<Rightarrow> bool" where
  "drawing m s \<equiv> stroking m True s \<and> st_prev s = DRAWING_OP_TO"

lemma emitMoveTo_stroking: "stroking m b s \<Longrightarrow> stroking m True (emitMoveTo x y s)"
  by (auto simp: stroking_def emitMoveTo_def emit_def outline_append)

lemma emitClose_stroking: "stroking m True s \<Longrightarrow> stroking m False (emitClose s)"
  by (auto simp: stroking_def emitClose_def emit_def outline_append)

lemma emit_prev [simp]: "st_prev (emitMoveTo x y s) = st_prev s" "st_prev (emitClose s) = st_prev s" "st_prev (emit ps s) = st_prev s"
  by (simp_all add: emitMoveTo_def emitClose_def emit_def)

lemma drawJoin_ok:
  assumes inv: "stroke_inv m s" and r: "within_room env n" "m + 3 \<le> n"
  shows "yields (drawJoin env pdx pdy x0 y0 dx dy omx omy mx my s) (drawing (m + 3))"
proof (cases "st_prev s = DRAWING_OP_TO")
  case False
  then have "stroking (m + 3) True (emitMoveTo (fadd x0 mx) (fadd y0 my) s)"
    using inv emitMoveTo_stroking stroking_mono by (fastforce simp: stroke_inv_def)
  then show ?thesis using False by (simp add: drawJoin_def)
next
  case True
  then have s: "stroking m True s" using inv by (simp add: stroke_inv_def)
  let ?cw = "isCW pdx pdy dx dy"
  let ?f = "\<lambda>s. if st_joinStyle s = JOIN_MITER then drawMiter env pdx pdy x0 y0 dx dy omx omy mx my ?cw s
    else if st_joinStyle s = JOIN_ROUND then drawRoundJoin env x0 y0 omx omy mx my ?cw ROUND_JOIN_THRESHOLD s else Some s"
  have "adds 2 env ?f"
    by (intro adds_If drawMiter_adds [THEN adds_mono] drawRoundJoin_adds adds_Some) simp
  then have "yields (Option.bind (?f s) (\<lambda>t. Option.bind (emitLineTo env x0 y0 (\<not> ?cw) t) (\<lambda>t. Some (t\<lparr>st_prev := DRAWING_OP_TO\<rparr>))))
      (drawing (m + 3))"
    by (rule adds_then [OF _ s r(1)]) (use r in \<open>auto intro!: adds_then [OF emitLineTo_adds _ r(1)] simp: numeral_eq_Suc\<close>)
  then show ?thesis using True by (simp add: drawJoin_def Let_def)
qed

section \<open>Ending a subpath\<close>

lemma emitReverse_ok:
  assumes "stroking m True s" "m \<le> stack_room"
  shows "yields (emitReverse s) (draws 0 s)"
proof -
  obtain S where S: "stack_rel S (st_reverse s)" "length S \<le> m" using assms(1) by (auto simp: stroking_def)
  then have n: "nat (ps_numCurves (st_reverse s)) = length S" and seg: "list_all is_seg S" by (simp_all add: stack_rel_def)
  obtain r where r: "pop_all PolyStack_isEmpty PolyStack_pop (length S) (st_reverse s) = Some (S, r)" "stack_rel [] r"
    using rs.pop_all_ok [OF S(1)] S(2) assms(2) by fastforce
  have "stroking 0 True (emit S (s\<lparr>st_reverse := r\<rparr>))"
    using assms(1) r(2) seg by (auto simp: stroking_def emit_def outline_append outline_segs)
  then show ?thesis by (simp add: emitReverse_def n r(1))
qed

lemma square_cap_adds: "adds 0 env (\<lambda>s. Option.bind (emitLineTo env x y False s) (emitLineTo env x' y' False))"
  by (rule adds_bind [OF emitLineTo_left emitLineTo_left]) simp

lemma finish_ok:
  assumes s: "stroking m True s" and r: "within_room env n" "m \<le> n"
  shows "yields (finish env s) (\<lambda>t. stroking 0 False t \<and> st_prev t = st_prev s)"
proof -
  let ?last_cap = "\<lambda>s. if st_capStyle s = CAP_ROUND then drawRoundCap env (st_cx0 s) (st_cy0 s) (st_cmx s) (st_cmy s) s
    else if st_capStyle s = CAP_SQUARE then Option.bind
      (emitLineTo env (fadd (fsub (st_cx0 s) (st_cmy s)) (st_cmx s)) (fadd (fadd (st_cy0 s) (st_cmx s)) (st_cmy s)) False s)
      (emitLineTo env (fsub (fsub (st_cx0 s) (st_cmy s)) (st_cmx s)) (fsub (fadd (st_cy0 s) (st_cmx s)) (st_cmy s)) False)
    else Some s"
  let ?first_cap = "\<lambda>s. if st_capStyle s = CAP_ROUND then drawRoundCap env (st_sx0 s) (st_sy0 s) (fp_neg (st_smx s)) (fp_neg (st_smy s)) s
    else if st_capStyle s = CAP_SQUARE then Option.bind
      (emitLineTo env (fsub (fadd (st_sx0 s) (st_smy s)) (st_smx s)) (fsub (fsub (st_sy0 s) (st_smx s)) (st_smy s)) False s)
      (emitLineTo env (fadd (fadd (st_sx0 s) (st_smy s)) (st_smx s)) (fadd (fsub (st_sy0 s) (st_smx s)) (st_smy s)) False)
    else Some s"
  have caps: "adds 0 env ?last_cap" "adds 0 env ?first_cap"
    using drawRoundCap_adds square_cap_adds by (simp_all add: adds_def)
  have room: "m \<le> stack_room" using r by (simp add: within_room_def)
  have "yields (Option.bind (?last_cap s) (\<lambda>t. Option.bind (emitReverse t) (\<lambda>t. Option.bind (?first_cap t) (\<lambda>t. Some (emitClose t)))))
      (\<lambda>t. stroking 0 False t \<and> st_prev t = st_prev s)"
  proof (rule adds_then [OF caps(1) s r(1)])
    fix t
    assume t: "stroking (m + 0) True t" "st_prev t = st_prev s"
    then obtain u where u: "emitReverse t = Some u" "stroking 0 True u" "st_prev u = st_prev s"
      using emitReverse_ok [of m t] room by (auto simp: yields_def)
    show "yields (Option.bind (emitReverse t) (\<lambda>t. Option.bind (?first_cap t) (\<lambda>t. Some (emitClose t))))
      (\<lambda>t. stroking 0 False t \<and> st_prev t = st_prev s)"
      unfolding u(1) bind.bind_lunit
      by (rule adds_then [OF caps(2) u(2) r(1)]) (use u emitClose_stroking in auto)
  qed (use r in simp)
  then show ?thesis unfolding finish_def Let_def prod.case .
qed

section \<open>Lines\<close>

lemma Stroker_moveTo_ok:
  assumes "stroke_inv m s" "within_room env m"
  shows "yields (Stroker_moveTo env x0 y0 s) (stroke_inv 0)"
  using assms finish_ok [of m s env m]
  by (auto simp: Stroker_moveTo_def yields_bind stroke_inv_def elim!: yields_mono)

lemma Stroker_lineTo_ok:
  assumes inv: "stroke_inv m s" and r: "within_room env n" "m + 5 \<le> n"
  shows "yields (Stroker_lineTo env x1 y1 s) (drawing (m + 5))"
proof -
  define dx where "dx = (let d = fsub x1 (st_cx0 s) in if fp_eq d (fint 0) \<and> fp_eq (fsub y1 (st_cy0 s)) (fint 0) then fint 1 else d)"
  let ?dy = "fsub y1 (st_cy0 s)"
  obtain mx my where o: "computeOffset dx ?dy (st_lineWidth2 s) = (mx, my)" by (cases "computeOffset dx ?dy (st_lineWidth2 s)")
  have "yields (drawJoin env (st_cdx s) (st_cdy s) (st_cx0 s) (st_cy0 s) dx ?dy (st_cmx s) (st_cmy s) mx my s) (drawing (m + 3))"
    using drawJoin_ok [OF inv r(1)] r by simp
  then obtain t where t: "drawJoin env (st_cdx s) (st_cdy s) (st_cx0 s) (st_cy0 s) dx ?dy (st_cmx s) (st_cmy s) mx my s = Some t"
    "stroking (m + 3) True t" "st_prev t = DRAWING_OP_TO" by (auto simp: yields_def)
  have "yields (Option.bind (emitLineTo env (fadd (st_cx0 t) mx) (fadd (st_cy0 t) my) False t) (\<lambda>t.
      Option.bind (emitLineTo env (fadd x1 mx) (fadd y1 my) False t) (\<lambda>t.
      Option.bind (emitLineTo env (fsub (st_cx0 t) mx) (fsub (st_cy0 t) my) True t) (\<lambda>t.
      Option.bind (emitLineTo env (fsub x1 mx) (fsub y1 my) True t) (\<lambda>t.
      Some (t\<lparr>st_cmx := mx, st_cmy := my, st_cdx := dx, st_cdy := ?dy, st_cx0 := x1, st_cy0 := y1, st_prev := DRAWING_OP_TO\<rparr>))))))
      (drawing (m + 5))"
    using r t(2) by (auto intro!: adds_then [OF emitLineTo_left _ r(1)] adds_then [OF emitLineTo_adds [where rv = True] _ r(1)] simp: numeral_eq_Suc)
  then show ?thesis using t(1) o by (simp add: Stroker_lineTo_def Let_def dx_def)
qed

lemma Stroker_closePath_ok:
  assumes inv: "stroke_inv m s" and r: "within_room env n" "m + 8 \<le> n"
  shows "yields (Stroker_closePath env s) (stroke_inv 0)"
proof (cases "st_prev s = DRAWING_OP_TO")
  case False
  then have s: "stroking 0 False s" using inv by (simp add: stroke_inv_def)
  have "yields (finish env ((emitMoveTo x y s)\<lparr>st_cmx := a, st_smx := b, st_cmy := c, st_smy := d, st_cdx := e, st_sdx := f, st_cdy := g, st_sdy := h\<rparr>))
      (stroke_inv 0)" for x y a b c d e f g h
    by (rule yields_mono, rule finish_ok [OF _ r(1)]) (use s False in \<open>auto simp: stroke_inv_def emitMoveTo_stroking\<close>)
  then show ?thesis using False inv s by (simp add: Stroker_closePath_def stroke_inv_def Let_def)
next
  case True
  then have s: "stroking m True s" using inv by (simp add: stroke_inv_def)
  let ?return = "if \<not> fp_eq (st_cx0 s) (st_sx0 s) \<or> \<not> fp_eq (st_cy0 s) (st_sy0 s)
    then Stroker_lineTo env (st_sx0 s) (st_sy0 s) s else Some s"
  have "yields ?return (drawing (m + 5))"
    using Stroker_lineTo_ok [OF inv r(1)] r stroking_mono [OF s, of "m + 5"] True by simp
  then obtain t where t: "?return = Some t" "stroke_inv (m + 5) t" by (auto simp: yields_def stroke_inv_def)
  have "yields (drawJoin env (st_cdx t) (st_cdy t) (st_cx0 t) (st_cy0 t) (st_sdx t) (st_sdy t) (st_cmx t) (st_cmy t) (st_smx t) (st_smy t) t)
      (drawing (m + 8))"
    using drawJoin_ok [OF t(2) r(1)] r by (simp add: add.commute)
  then obtain u where u: "drawJoin env (st_cdx t) (st_cdy t) (st_cx0 t) (st_cy0 t) (st_sdx t) (st_sdy t) (st_cmx t) (st_cmy t) (st_smx t) (st_smy t) t = Some u"
    "stroking (m + 8) True u" by (auto simp: yields_def)
  have room: "m + 8 \<le> stack_room" using r by (simp add: within_room_def)
  have "yields (Option.bind (emitLineTo env (fadd (st_sx0 u) (st_smx u)) (fadd (st_sy0 u) (st_smy u)) False u) (\<lambda>t.
      Option.bind (emitReverse (emitMoveTo (fsub (st_sx0 t) (st_smx t)) (fsub (st_sy0 t) (st_smy t)) t)) (\<lambda>t.
      Some (emitClose (t\<lparr>st_prev := CLOSE\<rparr>))))) (stroke_inv 0)"
  proof (rule adds_then [OF emitLineTo_left u(2) r(1)])
    fix v
    assume "stroking (m + 8 + 0) True v"
    then have e: "yields (emitReverse (emitMoveTo x y v)) (stroking 0 True)" for x y
      by (intro yields_mono [OF emitReverse_ok [OF emitMoveTo_stroking room]]) auto
    then show "yields (Option.bind (emitReverse (emitMoveTo (fsub (st_sx0 v) (st_smx v)) (fsub (st_sy0 v) (st_smy v)) v)) (\<lambda>t.
        Some (emitClose (t\<lparr>st_prev := CLOSE\<rparr>)))) (stroke_inv 0)"
      unfolding yields_bind by (intro yields_mono [OF e]) (simp add: stroke_inv_def emitClose_stroking)
  qed (use r in simp)
  moreover have c: "\<not> st_prev s \<noteq> DRAWING_OP_TO" using True by simp
  ultimately show ?thesis unfolding Stroker_closePath_def Let_def if_not_P [OF c] t(1) bind.bind_lunit u(1) by blast
qed

lemma Stroker_pathDone_ok:
  assumes "stroke_inv m s" "within_room env m"
  shows "yields (Stroker_pathDone env s) (stroke_inv 0)"
proof -
  have f: "yields (if st_prev s = DRAWING_OP_TO then finish env s else Some s) (stroking 0 False)"
    using assms finish_ok [of m s env m] by (auto simp: stroke_inv_def elim: yields_mono)
  have "stroking 0 False t \<Longrightarrow> stroking 0 False (emit [PathDone] t)" for t
    by (simp add: stroking_def emit_def outline_append)
  then show ?thesis
    unfolding Stroker_pathDone_def yields_bind by (intro yields_mono [OF f]) (simp add: stroke_inv_def)
qed

section \<open>Curves\<close>

lemma yields_LetI: "(\<And>x. x = e \<Longrightarrow> yields (f x) Q) \<Longrightarrow> yields (Let e f) Q"
  by simp

lemma yields_splitI: "(\<And>x y. yields (f x y) Q) \<Longrightarrow> yields (case p of (x, y) \<Rightarrow> f x y) Q"
  by (cases p) simp

lemma yields_ifI: "yields r Q \<Longrightarrow> yields r' Q \<Longrightarrow> yields (if c then r else r') Q"
  by simp

lemma yields_rdI: "0 \<le> i \<Longrightarrow> i < int (length xs) \<Longrightarrow> (\<And>x. yields (f x) Q) \<Longrightarrow> yields (Option.bind (rd xs i) f) Q"
  by simp

lemma yields_wr_allI:
  "0 \<le> off \<Longrightarrow> nat off + length vs \<le> length a \<Longrightarrow> (\<And>a'. length a' = length a \<Longrightarrow> yields (f a') Q) \<Longrightarrow>
    yields (Option.bind (wr_all a off vs) f) Q"
  by (simp add: wr_all_eq)

lemmas yields_intros = yields_LetI yields_splitI yields_ifI yields_rdI yields_wr_allI

text \<open>The kind of an offset curve, and arrays of the size of the static ones.\<close>

definition offsets :: "jint \<times> jfloat list \<times> jfloat list \<Rightarrow> bool" where
  "offsets r \<longleftrightarrow> (case r of (kind, lp, rp) \<Rightarrow> kind \<in> {4, 6, 8} \<and> length lp = 8 \<and> length rp = 8)"

lemma getLineOffsets_ok:
  "length lp = 8 \<Longrightarrow> length rp = 8 \<Longrightarrow> yields (line_kind (getLineOffsets w x1 y1 x2 y2 lp rp)) offsets"
  unfolding getLineOffsets_def line_kind_def yields_map by (intro yields_intros) (simp_all add: offsets_def)

lemma computeOffsetCubic_ok:
  assumes "0 \<le> off" "off + 8 \<le> int (length pts)" "length lp = 8" "length rp = 8"
  shows "yields (computeOffsetCubic env w pts off lp rp) offsets"
  unfolding computeOffsetCubic_def
  by (intro yields_intros getLineOffsets_ok) (use assms in \<open>simp_all add: offsets_def Let_def\<close>)

lemma computeOffsetQuad_ok:
  assumes "0 \<le> off" "off + 6 \<le> int (length pts)" "length lp = 8" "length rp = 8"
  shows "yields (computeOffsetQuad env w pts off lp rp) offsets"
  unfolding computeOffsetQuad_def
  by (intro yields_intros getLineOffsets_ok) (use assms in \<open>simp_all add: offsets_def Let_def split: prod.splits\<close>)

lemma emit_piece_ok:
  assumes s: "stroking m True s" and kind: "kind \<in> {4, 6, 8}" and r: "within_room env n" "m + 2 \<le> n"
  shows "yields (emit_piece env kind s) (draws (m + 2) s)"
proof -
  have l: "length (st_lp s) = 8" "length (st_rp s) = 8" using s by (simp_all add: stroking_def)
  then have ne: "st_lp s \<noteq> []" "st_rp s \<noteq> []" by auto
  note left = adds_then [OF emitLineTo_left _ r(1)] adds_then [OF emitQuadTo_left _ r(1)] adds_then [OF emitCurveTo_left _ r(1)]
  note right = adds_then [OF emitLineTo_adds [where rv = True] _ r(1)] adds_then [OF emitQuadTo_adds [where rv = True] _ r(1)]
    adds_then [OF emitCurveTo_adds [where rv = True] _ r(1)]
  have "yields (emitLineTo env x y True t) (draws (m + 2) s)" if "stroking (m + 1) True t" "st_prev t = st_prev s" for t x y
    using addsD [OF emitLineTo_adds [where rv = True] that(1)] within_room_mono [OF r(1)] r(2) that(2) by simp
  then show ?thesis
    using kind l ne s r by (auto simp: emit_piece_def Let_def intro!: left right)
qed

lemma array_points:
  assumes "2 * k \<le> length a"
  shows "\<exists>ps rest. length ps = k \<and> a = flat ps @ rest"
  using assms
proof (induction k arbitrary: a)
  case (Suc k)
  then obtain x y b where a: "a = x # y # b" by (auto simp: Suc_le_length_iff)
  then obtain ps rest where "length ps = k" "b = flat ps @ rest" using Suc.IH [of b] Suc.prems by auto
  then show ?case using a by (intro exI [of _ "(x, y) # ps"] exI [of _ rest]) simp
qed simp

lemma split_curve_length:
  assumes "type = 6 \<or> type = 8" "length us \<le> 10" "length middle = 88"
  shows "yields (split_curve type (int (length us)) (us @ ts) middle) (\<lambda>a. length a = 88)"
proof -
  define k where "k = nat (type div 2)"
  have k: "k = 3 \<or> k = 4" "type = 2 * int k" using assms(1) by (auto simp: k_def)
  obtain ps rest where p: "length ps = k" "middle = flat ps @ rest" using array_points [of k middle] assms(3) k(1) by auto
  show ?thesis
    using split_curve_casteljau [of ps us rest ts] assms p k by (auto simp: yields_def)
qed

lemma stroke_curve_ok:
  assumes inv: "stroke_inv m s" and type: "type = 6 \<or> type = 8" and r: "within_room env n" "m + 25 \<le> n"
  shows "yields (stroke_curve env type dxs dys dxf dyf xf yf s) (drawing (m + 25))"
proof -
  obtain mx my where o: "computeOffset dxs dys (st_lineWidth2 s) = (mx, my)" by (cases "computeOffset dxs dys (st_lineWidth2 s)")
  have "yields (drawJoin env (st_cdx s) (st_cdy s) (st_cx0 s) (st_cy0 s) dxs dys (st_cmx s) (st_cmy s) mx my s) (drawing (m + 3))"
    using drawJoin_ok [OF inv r(1)] r by simp
  then obtain t where t: "drawJoin env (st_cdx s) (st_cdy s) (st_cx0 s) (st_cy0 s) dxs dys (st_cmx s) (st_cmy s) mx my s = Some t"
    "stroking (m + 3) True t" "st_prev t = DRAWING_OP_TO" by (auto simp: yields_def)
  have arr: "length (st_middle t) = 88" "length (st_subdivTs t) = 10" using t(2) by (simp_all add: stroking_def)
  obtain us rest c where f: "findSubdivPoints env (st_middle t) (st_subdivTs t) type (st_lineWidth2 t) (st_c t) =
      Some (int (length us), us @ rest, c)" "length us + length rest = 10"
    using findSubdivPoints_ok [OF type _ arr(2), of "st_middle t" env "st_lineWidth2 t" "st_c t"] arr(1) type by auto
  obtain middle where d: "split_curve type (int (length us)) (us @ rest) (st_middle t) = Some middle" "length middle = 88"
    using split_curve_length [OF type _ arr(1), of us rest] f(2) by (auto simp: yields_def)
  define u where "u = t\<lparr>st_subdivTs := us @ rest, st_c := c, st_middle := middle\<rparr>"
  have u: "stroking (m + 3) True u" "st_prev u = DRAWING_OP_TO" using t f d by (simp_all add: u_def stroking_def)
  define body where "body = (\<lambda>i (kind :: jint, this). Option.bind
      (if type = 8 then computeOffsetCubic env (st_lineWidth2 this) (st_middle this) (i * (type - 2)) (st_lp this) (st_rp this)
       else computeOffsetQuad env (st_lineWidth2 this) (st_middle this) (i * (type - 2)) (st_lp this) (st_rp this)) (\<lambda>(kind, lp, rp).
      Option.bind (emit_piece env kind (this\<lparr>st_lp := lp, st_rp := rp\<rparr>)) (\<lambda>this. Some (kind, this))))"
  define P where "P = (\<lambda>i (kind :: jint, v). drawing (m + 3 + nat i * 2) v \<and> (0 < i \<longrightarrow> kind \<in> {4, 6, 8}))"
  have "\<exists>v. for_loop (int (length us) + 1) body (0, u) = Some v \<and> P (int (length us) + 1) v"
  proof (rule for_loop_inv)
    show "P 0 (0, u)" using u by (simp add: P_def)
  next
    fix j kv
    assume j: "0 \<le> j" "j < int (length us) + 1" and "P j kv"
    then obtain k v where v: "kv = (k, v)" "stroking (m + 3 + nat j * 2) True v" "st_prev v = DRAWING_OP_TO" by (auto simp: P_def)
    have l: "length (st_middle v) = 88" "length (st_lp v) = 8" "length (st_rp v) = 8" using v(2) by (simp_all add: stroking_def)
    have b: "0 \<le> j" "j * 6 + 8 \<le> 88" "j * 4 + 6 \<le> 88" using j f(2) by auto
    have "yields (if type = 8 then computeOffsetCubic env (st_lineWidth2 v) (st_middle v) (j * (type - 2)) (st_lp v) (st_rp v)
        else computeOffsetQuad env (st_lineWidth2 v) (st_middle v) (j * (type - 2)) (st_lp v) (st_rp v)) offsets"
      using type b l by (intro yields_ifI [OF computeOffsetCubic_ok computeOffsetQuad_ok]) auto
    then obtain kind lp rp where k: "(if type = 8 then computeOffsetCubic env (st_lineWidth2 v) (st_middle v) (j * (type - 2)) (st_lp v) (st_rp v)
        else computeOffsetQuad env (st_lineWidth2 v) (st_middle v) (j * (type - 2)) (st_lp v) (st_rp v)) = Some (kind, lp, rp)"
      "kind \<in> {4, 6, 8}" "length lp = 8" "length rp = 8" by (auto simp: yields_def offsets_def)
    have "stroking (m + 3 + nat j * 2) True (v\<lparr>st_lp := lp, st_rp := rp\<rparr>)" using v(2) k by (simp add: stroking_def)
    moreover have "m + 3 + nat j * 2 + 2 \<le> n" using r(2) j f(2) by linarith
    ultimately have "yields (emit_piece env kind (v\<lparr>st_lp := lp, st_rp := rp\<rparr>)) (draws (m + 3 + nat j * 2 + 2) v)"
      using emit_piece_ok [OF _ k(2) r(1), of "m + 3 + nat j * 2" "v\<lparr>st_lp := lp, st_rp := rp\<rparr>"] by simp
    then show "\<exists>w. body j kv = Some w \<and> P (j + 1) w"
      using v k j by (auto simp: body_def P_def yields_def nat_add_distrib)
  qed simp
  then obtain kind v where v: "for_loop (int (length us) + 1) body (0, u) = Some (kind, v)" "kind \<in> {4, 6, 8}"
    "stroking (m + 3 + nat (int (length us) + 1) * 2) True v" by (auto simp: P_def)
  then have l: "length (st_lp v) = 8" "length (st_rp v) = 8" and s: "stroking (m + 25) True v"
    using f(2) by (auto simp: stroking_def elim!: order_trans)
  show ?thesis
    unfolding stroke_curve_def o Let_def prod.case t(1) bind.bind_lunit f(1) d(1) body_def [symmetric] u_def [symmetric] v(1)
    by (intro yields_rdI) (use l s v(2) in auto)
qed

lemma stroke_inv_middle: "stroke_inv m s \<Longrightarrow> length a = 88 \<Longrightarrow> stroke_inv m (s\<lparr>st_middle := a\<rparr>)"
  by (auto simp: stroke_inv_def stroking_def split: if_splits)

lemma stroke_inv_length: "stroke_inv m s \<Longrightarrow> length (st_middle s) = 88"
  by (simp add: stroke_inv_def stroking_def split: if_splits)

text \<open>The two ends of \<^verbatim>\<open>Stroker_curveTo\<close> and \<^verbatim>\<open>Stroker_quadTo\<close>, after the points are stored.\<close>

lemma after_points:
  assumes inv: "stroke_inv m s" and r: "within_room env n" "m + 25 \<le> n" and a: "length a = 88"
  shows "yields (Stroker_lineTo env x y (s\<lparr>st_middle := a\<rparr>)) (drawing (m + 25))"
    and "type = 6 \<or> type = 8 \<Longrightarrow> yields (stroke_curve env type dxs dys dxf dyf xf yf (s\<lparr>st_middle := a\<rparr>)) (drawing (m + 25))"
proof -
  have "yields (Stroker_lineTo env x y (s\<lparr>st_middle := a\<rparr>)) (drawing (m + 5))"
    using r by (intro Stroker_lineTo_ok [OF stroke_inv_middle [OF inv a]]) auto
  then show "yields (Stroker_lineTo env x y (s\<lparr>st_middle := a\<rparr>)) (drawing (m + 25))"
    by (rule yields_mono) (auto elim: stroking_mono)
qed (rule stroke_curve_ok [OF stroke_inv_middle [OF inv a] _ r])

lemma Stroker_curveTo_ok:
  assumes "stroke_inv m s" "within_room env n" "m + 25 \<le> n"
  shows "yields (Stroker_curveTo env x1 y1 x2 y2 x3 y3 s) (drawing (m + 25))"
  unfolding Stroker_curveTo_def
  by (intro yields_wr_allI yields_intros) (use stroke_inv_length [OF assms(1)] after_points [OF assms] in auto)

lemma Stroker_quadTo_ok:
  assumes "stroke_inv m s" "within_room env n" "m + 25 \<le> n"
  shows "yields (Stroker_quadTo env x1 y1 x2 y2 s) (drawing (m + 25))"
  unfolding Stroker_quadTo_def
  by (intro yields_wr_allI yields_intros) (use stroke_inv_length [OF assms(1)] after_points [OF assms] in auto)

section \<open>The consumer\<close>

lemma Stroker_consumer_ok:
  assumes "stroke_inv m s" "within_room env n" "m + 25 \<le> n"
  shows "yields (Stroker_consumer env p s) (stroke_inv (m + 25))"
proof -
  have z: "stroke_inv 0 t \<Longrightarrow> stroke_inv (m + 25) t" and d: "drawing j t \<Longrightarrow> j \<le> m + 25 \<Longrightarrow> stroke_inv (m + 25) t" for t j
    by (auto simp: stroke_inv_def elim: stroking_mono)
  have w: "within_room env m" using assms(2,3) by (auto elim: within_room_mono)
  show ?thesis
  proof (cases p)
    case (MoveTo x y)
    show ?thesis unfolding MoveTo Stroker_consumer.simps by (rule yields_mono [OF Stroker_moveTo_ok [OF assms(1) w] z])
  next
    case (LineTo x y)
    show ?thesis unfolding LineTo Stroker_consumer.simps by (rule yields_mono [OF Stroker_lineTo_ok [OF assms(1,2)] d]) (use assms(3) in auto)
  next
    case (QuadTo x1 y1 x2 y2)
    show ?thesis unfolding QuadTo Stroker_consumer.simps by (rule yields_mono [OF Stroker_quadTo_ok [OF assms] d]) auto
  next
    case (CurveTo x1 y1 x2 y2 x3 y3)
    show ?thesis unfolding CurveTo Stroker_consumer.simps by (rule yields_mono [OF Stroker_curveTo_ok [OF assms] d]) auto
  next
    case ClosePath
    show ?thesis unfolding ClosePath Stroker_consumer.simps by (rule yields_mono [OF Stroker_closePath_ok [OF assms(1,2)] z]) (use assms(3) in auto)
  next
    case PathDone
    show ?thesis unfolding PathDone Stroker_consumer.simps by (rule yields_mono [OF Stroker_pathDone_ok [OF assms(1) w] z])
  qed
qed

text \<open>The stroker meets the contract of a consumer; the abstract state counts the segments the stack may hold.\<close>

interpretation sk: path_consumer "Stroker_consumer env" "\<lambda>p m. Some (m + 25 :: nat)" stroke_inv "within_room env"
  for env
  using Stroker_consumer_ok [of _ _ env] within_room_mono
  by unfold_locales (auto simp: yields_def)

lemma runs_counts: "runs (\<lambda>p m. Some (m + 25 :: nat)) ps m = Some (m + 25 * length ps)"
  by (induction ps arbitrary: m) simp_all

lemma Stroker_init_inv:
  assumes "plenty (se_alloc env)" "length middle = 88" "length lp = 8" "length rp = 8" "length ts = 10"
  shows "stroke_inv 0 (Stroker_init env middle lp rp ts lineWidth capStyle joinStyle miterLimit)"
  using assms PolyStack_init_rel [of "se_alloc env"]
  by (simp add: Stroker_init_def Stroker_reset_def Let_def stroke_inv_def stroking_def)

text \<open>
  C7: stroking any path of up to 671088 calls, in any order and with any coordinates, infinities and NaN included: every call returns,
  so no array is left and the stack never overflows, and once the path is done the calls that were passed on form a sequence of outlines,
  each opened by \<open>MoveTo\<close> before anything is drawn, none left open, and the stack is empty again.
\<close>

theorem Stroker_outline:
  assumes "plenty (se_alloc env)" "length middle = 88" "length lp = 8" "length rp = 8" "length ts = 10"
    and "25 * (length ps + 1) \<le> 2 ^ 24"
  shows "\<exists>s. runs (Stroker_consumer env) (ps @ [PathDone])
      (Stroker_init env middle lp rp ts lineWidth capStyle joinStyle miterLimit) = Some s \<and>
    outline (st_calls s) = Some False \<and> PolyStack_isEmpty (st_reverse s)"
proof -
  let ?s0 = "Stroker_init env middle lp rp ts lineWidth capStyle joinStyle miterLimit"
  have inv: "stroke_inv 0 ?s0" using assms by (intro Stroker_init_inv)
  have "within_room env (0 + 25 * length ps)" using assms by (simp add: within_room_def)
  then obtain s where s: "runs (Stroker_consumer env) ps ?s0 = Some s" "stroke_inv (25 * length ps) s"
    using sk.runs_simulates [OF inv runs_counts] by fastforce
  have "within_room env (25 * length ps)" using assms by (simp add: within_room_def)
  then obtain t where t: "Stroker_pathDone env s = Some t" "stroke_inv 0 t"
    using Stroker_pathDone_ok [OF s(2)] by (auto simp: yields_def)
  have "st_prev t = CLOSE" using t(1) by (auto simp: Stroker_pathDone_def bind_eq_Some_conv)
  then have "stroking 0 False t" using t(2) by (simp add: stroke_inv_def)
  then show ?thesis using s(1) t(1) by (auto simp: runs_append stroking_def PolyStack_isEmpty_iff)
qed

section \<open>Polylines\<close>

text \<open>
  The reference for a polyline with bevelled joins and no caps: both sides of the line, in the direction of the line. A side passes
  through the vertex itself on the inner side of a bend. \<open>pd\<close> is the direction of the segment before.
\<close>

definition direction :: "point \<Rightarrow> point \<Rightarrow> point" where
  "direction p q =
     (let dx = fsub (fst q) (fst p); dy = fsub (snd q) (snd p)
      in (if fp_eq dx (fint 0) \<and> fp_eq dy (fint 0) then fint 1 else dx, dy))"

abbreviation line_to :: "point \<Rightarrow> path_op" where "line_to p \<equiv> LineTo (fst p) (snd p)"

definition left_of :: "point \<Rightarrow> point \<Rightarrow> point" where
  "left_of p m = (fadd (fst p) (fst m), fadd (snd p) (snd m))"

definition right_of :: "point \<Rightarrow> point \<Rightarrow> point" where
  "right_of p m = (fsub (fst p) (fst m), fsub (snd p) (snd m))"

abbreviation offset_of :: "jfloat \<Rightarrow> point \<Rightarrow> point" where
  "offset_of w d \<equiv> computeOffset (fst d) (snd d) w"

definition turns_cw :: "point \<Rightarrow> point \<Rightarrow> bool" where
  "turns_cw d e = isCW (fst d) (snd d) (fst e) (snd e)"

fun sides :: "jfloat \<Rightarrow> point \<Rightarrow> point \<Rightarrow> point list \<Rightarrow> path_op list \<times> path_op list" where
  "sides w pd p [] = ([], [])"
| "sides w pd p (q # qs) =
     (let d = direction p q; m = offset_of w d; (ls, rs) = sides w d q qs; cw = turns_cw pd d
      in ((if cw then [line_to p] else []) @ line_to (left_of p m) # line_to (left_of q m) # ls,
          (if cw then [] else [line_to p]) @ line_to (right_of p m) # line_to (right_of q m) # rs))"

text \<open>The outline runs along the left side and back along the right side.\<close>

definition polyline_outline :: "jfloat \<Rightarrow> point \<Rightarrow> point \<Rightarrow> point list \<Rightarrow> path_op list" where
  "polyline_outline w p q qs =
     (let d = direction p q; m = offset_of w d; (ls, rs) = sides w d q qs; l = left_of p m
      in [MoveTo (fst l) (snd l), line_to l, line_to (left_of q m)] @ ls @
         rev ([line_to (right_of p m), line_to (right_of q m)] @ rs) @ [ClosePath])"

definition on_polyline :: "stroke_env \<Rightarrow> jfloat \<Rightarrow> path_op list \<Rightarrow> path_op list \<Rightarrow> point \<Rightarrow> point \<Rightarrow> stroker \<Rightarrow> bool" where
  "on_polyline env w C R p d s \<longleftrightarrow>
     plenty (se_alloc env) \<and> st_calls s = C \<and> stack_rel R (st_reverse s) \<and> st_cx0 s = fst p \<and> st_cy0 s = snd p \<and>
     st_cdx s = fst d \<and> st_cdy s = snd d \<and> st_prev s = DRAWING_OP_TO \<and>
     st_joinStyle s = 2 \<and> st_capStyle s = 0 \<and> st_lineWidth2 s = w"

lemma left_line:
  "on_polyline env w C R p d s \<Longrightarrow> yields (emitLineTo env x y False s) (on_polyline env w (C @ [LineTo x y]) R p d)"
  by (simp add: on_polyline_def emitLineTo_def emit_def)

lemma right_line:
  assumes "on_polyline env w C R p d s" "length R < stack_room"
  shows "yields (emitLineTo env x y True s) (on_polyline env w C (LineTo x y # R) p d)"
  using push_seg_ok [of R "st_reverse s" "se_alloc env" "LineTo x y"] assms
  by (auto simp: on_polyline_def emitLineTo_def PolyStack_pushLine_def yields_def)

lemma bevel_join:
  assumes "on_polyline env w C R p d s" "length R < stack_room"
  shows "yields (drawJoin env (st_cdx s) (st_cdy s) (st_cx0 s) (st_cy0 s) (fst e) (snd e) omx omy mx my s)
    (on_polyline env w (C @ (if turns_cw d e then [line_to p] else [])) ((if turns_cw d e then [] else [line_to p]) @ R) p d)"
  using left_line [OF assms(1), of "fst p" "snd p"] right_line [OF assms, of "fst p" "snd p"] assms(1)
  by (auto simp: drawJoin_def turns_cw_def Let_def on_polyline_def yields_bind elim!: yields_mono)

text \<open>Once the join is drawn, a segment adds one line to each side, with the line to where it starts.\<close>

lemma segment_sides:
  fixes p q :: point and w :: jfloat
  defines "e \<equiv> direction p q"
  assumes at: "st_cx0 s = fst p" "st_cy0 s = snd p" "st_lineWidth2 s = w" and m: "offset_of w e = (mx, my)"
    and t: "drawJoin env (st_cdx s) (st_cdy s) (st_cx0 s) (st_cy0 s) (fst e) (snd e) (st_cmx s) (st_cmy s) mx my s = Some t"
      "on_polyline env w C R p d t" and room: "length R + 2 \<le> stack_room"
  shows "yields (Stroker_lineTo env (fst q) (snd q) s)
    (on_polyline env w (C @ [line_to (left_of p (mx, my)), line_to (left_of q (mx, my))])
       ([line_to (right_of q (mx, my)), line_to (right_of p (mx, my))] @ R) q e)"
proof -
  have dir: "(if fp_eq (fsub (fst q) (st_cx0 s)) (fint 0) \<and> fp_eq (snd e) (fint 0) then fint 1
      else fsub (fst q) (st_cx0 s)) = fst e" "fsub (snd q) (st_cy0 s) = snd e"
    using at by (simp_all add: direction_def e_def Let_def)
  let ?l = "\<lambda>z. LineTo (fadd (fst z) mx) (fadd (snd z) my)" and ?r = "\<lambda>z. LineTo (fsub (fst z) mx) (fsub (snd z) my)"
  obtain u1 where u1: "emitLineTo env (fadd (fst p) mx) (fadd (snd p) my) False t = Some u1"
    "on_polyline env w (C @ [?l p]) R p d u1"
    using left_line [OF t(2)] unfolding yields_def by blast
  obtain u2 where u2: "emitLineTo env (fadd (fst q) mx) (fadd (snd q) my) False u1 = Some u2"
    "on_polyline env w (C @ [?l p, ?l q]) R p d u2"
    using left_line [OF u1(2), of "fadd (fst q) mx" "fadd (snd q) my"] by (auto simp: yields_def)
  obtain u3 where u3: "emitLineTo env (fsub (fst p) mx) (fsub (snd p) my) True u2 = Some u3"
    "on_polyline env w (C @ [?l p, ?l q]) (?r p # R) p d u3"
    using right_line [OF u2(2)] room unfolding yields_def by fastforce
  obtain u4 where u4: "emitLineTo env (fsub (fst q) mx) (fsub (snd q) my) True u3 = Some u4"
    "on_polyline env w (C @ [?l p, ?l q]) (?r q # ?r p # R) p d u4"
    using right_line [OF u3(2)] room unfolding yields_def by fastforce
  have pos: "st_cx0 t = fst p" "st_cy0 t = snd p" "st_cx0 u2 = fst p" "st_cy0 u2 = snd p"
    using t(2) u2(2) by (simp_all add: on_polyline_def)
  have "Stroker_lineTo env (fst q) (snd q) s = Some (u4\<lparr>st_cmx := mx, st_cmy := my, st_cdx := fst e, st_cdy := snd e,
      st_cx0 := fst q, st_cy0 := snd q, st_prev := DRAWING_OP_TO\<rparr>)"
    unfolding Stroker_lineTo_def Let_def dir at(3) m prod.case t(1) bind.bind_lunit pos u1(1) u2(1) u3(1) u4(1) by (rule refl)
  then show ?thesis
    using u4(2) by (simp add: on_polyline_def left_of_def right_of_def)
qed

lemma next_segment:
  assumes on: "on_polyline env w C R p d s" and room: "length R + 3 \<le> stack_room"
  shows "yields (Stroker_lineTo env (fst q) (snd q) s)
    (on_polyline env w (C @ fst (sides w d p [q])) (rev (snd (sides w d p [q])) @ R) q (direction p q))"
proof -
  let ?e = "direction p q"
  obtain mx my where m: "offset_of w ?e = (mx, my)" by (cases "offset_of w ?e")
  obtain t where t: "drawJoin env (st_cdx s) (st_cdy s) (st_cx0 s) (st_cy0 s) (fst ?e) (snd ?e) (st_cmx s) (st_cmy s) mx my s = Some t"
    "on_polyline env w (C @ (if turns_cw d ?e then [line_to p] else [])) ((if turns_cw d ?e then [] else [line_to p]) @ R) p d t"
    using bevel_join [OF on, of ?e "st_cmx s" "st_cmy s" mx my] room by (auto simp: yields_def)
  have "st_cx0 s = fst p" "st_cy0 s = snd p" "st_lineWidth2 s = w" using on by (simp_all add: on_polyline_def)
  from segment_sides [OF this m t] room show ?thesis
    by (cases "turns_cw d ?e") (simp_all add: m Let_def)
qed

lemma first_segment:
  fixes p q :: point and w :: jfloat
  defines "m \<equiv> offset_of w (direction p q)"
  assumes al: "plenty (se_alloc env)" and s: "stack_rel [] (st_reverse s)" "st_calls s = C" "st_cx0 s = fst p" "st_cy0 s = snd p"
    "st_prev s = MOVE_TO" "st_joinStyle s = 2" "st_capStyle s = 0" "st_lineWidth2 s = w"
  shows "yields (Stroker_lineTo env (fst q) (snd q) s)
    (on_polyline env w (C @ [MoveTo (fst (left_of p m)) (snd (left_of p m)), line_to (left_of p m), line_to (left_of q m)])
       [line_to (right_of q m), line_to (right_of p m)] q (direction p q))"
proof -
  let ?e = "direction p q"
  obtain mx my where m: "offset_of w ?e = (mx, my)" by (cases "offset_of w ?e")
  define t where "t = (emitMoveTo (fadd (fst p) mx) (fadd (snd p) my) s)
    \<lparr>st_sdx := fst ?e, st_sdy := snd ?e, st_smx := mx, st_smy := my, st_prev := DRAWING_OP_TO\<rparr>"
  have t: "drawJoin env (st_cdx s) (st_cdy s) (st_cx0 s) (st_cy0 s) (fst ?e) (snd ?e) (st_cmx s) (st_cmy s) mx my s = Some t"
    using s by (simp add: drawJoin_def t_def)
  have "on_polyline env w (C @ [MoveTo (fadd (fst p) mx) (fadd (snd p) my)]) [] p (st_cdx s, st_cdy s) t"
    using s al by (simp add: on_polyline_def t_def emitMoveTo_def emit_def)
  from segment_sides [OF s(3,4,8) m t this] show ?thesis
    by (simp add: m_def m left_of_def)
qed

lemma sides_Cons:
  "fst (sides w pd p (q # qs)) = fst (sides w pd p [q]) @ fst (sides w (direction p q) q qs)"
  "snd (sides w pd p (q # qs)) = snd (sides w pd p [q]) @ snd (sides w (direction p q) q qs)"
  by (simp_all add: Let_def split: prod.split)

lemma sides_length: "length (snd (sides w pd p qs)) \<le> 3 * length qs"
proof (induction qs arbitrary: pd p)
  case (Cons q qs)
  have "length (snd (sides w pd p [q])) \<le> 3" by (simp add: Let_def)
  then show ?case using Cons.IH [of "direction p q" q] by (simp add: sides_Cons [of _ _ _ q qs] del: sides.simps)
qed simp

lemma more_segments:
  assumes "on_polyline env w C R p d s" "length R + 3 * length qs \<le> stack_room"
  shows "yields (runs (Stroker_consumer env) (map line_to qs) s)
    (\<lambda>t. \<exists>p' d'. on_polyline env w (C @ fst (sides w d p qs)) (rev (snd (sides w d p qs)) @ R) p' d' t)"
  using assms
proof (induction qs arbitrary: C R p d s)
  case Nil
  then have "\<exists>p' d'. on_polyline env w C R p' d' s" by blast
  then show ?case by simp
next
  case (Cons q qs)
  let ?C = "C @ fst (sides w d p [q])" and ?R = "rev (snd (sides w d p [q])) @ R"
  have "length R + 3 \<le> stack_room" using Cons.prems(2) by simp
  then obtain t where t: "Stroker_lineTo env (fst q) (snd q) s = Some t" "on_polyline env w ?C ?R q (direction p q) t"
    using next_segment [OF Cons.prems(1)] unfolding yields_def by blast
  have "length ?R + 3 * length qs \<le> stack_room" using Cons.prems(2) by (simp add: Let_def)
  from Cons.IH [OF t(2) this] show ?case
    by (simp only: list.map runs.simps Stroker_consumer.simps t(1) bind.bind_lunit sides_Cons [of _ _ _ q qs] append_assoc rev_append)
qed

lemma butt_finish:
  assumes on: "on_polyline env w C R p d s" and room: "length R \<le> stack_room"
  shows "yields (finish env s) (\<lambda>t. st_calls t = C @ R @ [ClosePath])"
proof -
  have R: "stack_rel R (st_reverse s)" "st_calls s = C" "st_capStyle s = 0" using on by (simp_all add: on_polyline_def)
  then have n: "nat (ps_numCurves (st_reverse s)) = length R" by (simp add: stack_rel_def)
  obtain r where "pop_all PolyStack_isEmpty PolyStack_pop (length R) (st_reverse s) = Some (R, r)"
    using rs.pop_all_ok [OF R(1)] room by fastforce
  then have "emitReverse s = Some (emit R (s\<lparr>st_reverse := r\<rparr>))" by (simp add: emitReverse_def n)
  then show ?thesis using R by (simp add: finish_def emit_def emitClose_def)
qed

text \<open>
  C8: stroking a polyline of up to \<open>2 ^ 22\<close> points with bevelled joins and no caps passes on exactly one outline: it starts at the left of the
  first point, runs along the left side of the line to its end and back along the right side, passing through a vertex on the inner side
  of the bend there, and is closed.
\<close>

theorem Stroker_polyline:
  assumes "plenty (se_alloc env)" "length qs \<le> 2 ^ 22"
  shows "\<exists>s. runs (Stroker_consumer env) ([MoveTo (fst p) (snd p), line_to q] @ map line_to qs @ [PathDone])
      (Stroker_init env middle lp rp ts lineWidth 0 2 miterLimit) = Some s \<and>
    st_calls s = polyline_outline (fdiv lineWidth (fint 2)) p q qs @ [PathDone]"
proof -
  let ?s0 = "Stroker_init env middle lp rp ts lineWidth 0 2 miterLimit" and ?w = "fdiv lineWidth (fint 2)"
  let ?d = "direction p q"
  let ?m = "offset_of ?w ?d"
  obtain s1 where s1: "Stroker_moveTo env (fst p) (snd p) ?s0 = Some s1" "stack_rel [] (st_reverse s1)" "st_calls s1 = []"
    "st_cx0 s1 = fst p" "st_cy0 s1 = snd p" "st_prev s1 = MOVE_TO" "st_joinStyle s1 = 2" "st_capStyle s1 = 0" "st_lineWidth2 s1 = ?w"
    using PolyStack_init_rel [OF assms(1)] by (simp add: Stroker_moveTo_def Stroker_init_def Stroker_reset_def Let_def)
  let ?C = "[MoveTo (fst (left_of p ?m)) (snd (left_of p ?m)), line_to (left_of p ?m), line_to (left_of q ?m)]"
  let ?R = "[line_to (right_of q ?m), line_to (right_of p ?m)]"
  obtain s2 where s2: "Stroker_lineTo env (fst q) (snd q) s1 = Some s2" "on_polyline env ?w ?C ?R q ?d s2"
    using first_segment [OF assms(1) s1(2-9), of q] unfolding yields_def append_Nil by blast
  have "length ?R + 3 * length qs \<le> stack_room" using assms(2) by simp
  then obtain s3 p' d' where s3: "runs (Stroker_consumer env) (map line_to qs) s2 = Some s3"
    "on_polyline env ?w (?C @ fst (sides ?w ?d q qs)) (rev (snd (sides ?w ?d q qs)) @ ?R) p' d' s3"
    using more_segments [OF s2(2), of qs] unfolding yields_def by blast
  have "length (rev (snd (sides ?w ?d q qs)) @ ?R) \<le> stack_room"
    using assms(2) sides_length [of ?w ?d q qs] by simp
  then obtain s4 where s4: "finish env s3 = Some s4"
    "st_calls s4 = (?C @ fst (sides ?w ?d q qs)) @ (rev (snd (sides ?w ?d q qs)) @ ?R) @ [ClosePath]"
    using butt_finish [OF s3(2)] unfolding yields_def by blast
  have prev: "st_prev s3 = DRAWING_OP_TO" using s3(2) by (simp add: on_polyline_def)
  show ?thesis
    using s1(1) s2(1) s3(1) s4
    by (auto simp: runs_append Stroker_pathDone_def prev emit_def polyline_outline_def Let_def split: prod.split)
qed

text \<open>The line from the origin to (4, 0), then to (4, 3), two units wide.\<close>

definition unlimited_strokes :: stroke_env where
  "unlimited_strokes = \<lparr>se_alloc = (\<lambda>_. True), se_math = \<lparr>lm_acos = (\<lambda>x. x), lm_cos = (\<lambda>x. x), lm_pow = (\<lambda>x y. x)\<rparr>, se_nan = 0\<rparr>"

theorem Stroker_polyline_witness:
  "\<exists>s. runs (Stroker_consumer unlimited_strokes)
      [MoveTo (fint 0) (fint 0), LineTo (fint 4) (fint 0), LineTo (fint 4) (fint 3), PathDone]
      (Stroker_init unlimited_strokes [] [] [] [] (fint 2) 0 2 (fint 10)) = Some s \<and>
    map (map_points (\<lambda>x y. (fadd x (fint 0), fadd y (fint 0)))) (st_calls s) =
      [MoveTo (fint 0) (fint (- 1)), LineTo (fint 0) (fint (- 1)), LineTo (fint 4) (fint (- 1)),
       LineTo (fint 5) (fint 0), LineTo (fint 5) (fint 3),
       LineTo (fint 3) (fint 3), LineTo (fint 3) (fint 0), LineTo (fint 4) (fint 0),
       LineTo (fint 4) (fint 1), LineTo (fint 0) (fint 1), ClosePath, PathDone]"
proof -
  let ?p = "\<lambda>x y. (fint x, fint y)"
  have "map (map_points (\<lambda>x y. (fadd x (fint 0), fadd y (fint 0))))
      (polyline_outline (fdiv (fint 2) (fint 2)) (?p 0 0) (?p 4 0) [?p 4 3] @ [PathDone]) =
      [MoveTo (fint 0) (fint (- 1)), LineTo (fint 0) (fint (- 1)), LineTo (fint 4) (fint (- 1)),
       LineTo (fint 5) (fint 0), LineTo (fint 5) (fint 3),
       LineTo (fint 3) (fint 3), LineTo (fint 3) (fint 0), LineTo (fint 4) (fint 0),
       LineTo (fint 4) (fint 1), LineTo (fint 0) (fint 1), ClosePath, PathDone]"
    by code_simp
  moreover have "plenty (se_alloc unlimited_strokes)" by (simp add: plenty_def unlimited_strokes_def)
  ultimately show ?thesis
    using Stroker_polyline [of unlimited_strokes "[?p 4 3]" "?p 0 0" "?p 4 0" "[]" "[]" "[]" "[]" "fint 2" "fint 10"] by auto
qed

theorem Stroker_outline_witness:
  "\<exists>s. runs (Stroker_consumer unlimited_strokes) [LineTo NaN (fint 1), ClosePath, ClosePath, PathDone]
      (Stroker_init unlimited_strokes (replicate 88 NaN) (replicate 8 NaN) (replicate 8 NaN) (replicate 10 NaN) (fint 2) 1 1 (fint 10)) = Some s \<and>
    outline (st_calls s) = Some False \<and> PolyStack_isEmpty (st_reverse s)"
  using Stroker_outline [of unlimited_strokes "replicate 88 NaN" "replicate 8 NaN" "replicate 8 NaN" "replicate 10 NaN"
      "[LineTo NaN (fint 1), ClosePath, ClosePath]" "fint 2" 1 1 "fint 10"]
  by (simp add: unlimited_strokes_def plenty_def del: Stroker_consumer.simps)

end
