(* ===== verification/Prism_Relay.thy ===== *)
theory Prism_Relay
  imports Prism_Path Pisces_Prelude "HOL-Library.Sublist"
begin

text \<open>
  Consumers that pass calls on. The stroker and the dasher only ever add to the list of the calls they made; a chain of such a
  consumer and the next one then does what running the next one on the list of all calls does.
\<close>

section \<open>The contract\<close>

locale relay =
  fixes step :: "'p \<Rightarrow> 's \<Rightarrow> 's option"
    and calls :: "'s \<Rightarrow> 'q list"
  assumes step_extends: "step p s = Some s' \<Longrightarrow> prefix (calls s) (calls s')"
begin

lemma runs_extends: "runs step ps s = Some s' \<Longrightarrow> prefix (calls s) (calls s')"
  by (induction ps arbitrary: s) (auto simp: bind_eq_Some_conv intro: prefix_order.trans dest: step_extends)

lemma runs_through:
  assumes "runs step ps s = Some s'" "calls s' = calls s @ qs"
  shows "runs (through step calls out) ps (s, o0) = map_option (\<lambda>o1. (s', o1)) (runs out qs o0)"
  using assms
proof (induction ps arbitrary: s qs o0)
  case Nil
  then show ?case by simp
next
  case (Cons p ps)
  then obtain t where t: "step p s = Some t" "runs step ps t = Some s'" by (auto simp: bind_eq_Some_conv)
  obtain q1 where q1: "calls t = calls s @ q1" using step_extends [OF t(1)] by (auto simp: prefix_def)
  obtain q2 where q2: "calls s' = calls t @ q2" using runs_extends [OF t(2)] by (auto simp: prefix_def)
  have qs: "qs = q1 @ q2" using Cons.prems(2) q1 q2 by simp
  have "runs (through step calls out) (p # ps) (s, o0) =
      Option.bind (runs out q1 o0) (\<lambda>o1. runs (through step calls out) ps (t, o1))"
    by (cases "runs out q1 o0") (simp_all add: through_def t(1) q1)
  also have "\<dots> = Option.bind (runs out q1 o0) (\<lambda>o1. map_option (\<lambda>o2. (s', o2)) (runs out q2 o1))"
    by (simp add: Cons.IH [OF t(2) q2])
  also have "\<dots> = map_option (\<lambda>o1. (s', o1)) (runs out qs o0)"
    by (cases "runs out q1 o0") (simp_all add: qs runs_append)
  finally show ?case .
qed

end

section \<open>Adding calls\<close>

text \<open>If the operation returns, its calls extend \<open>C\<close>.\<close>

definition extends :: "('s \<Rightarrow> 'q list) \<Rightarrow> 'q list \<Rightarrow> 's option \<Rightarrow> bool" where
  "extends calls C r \<longleftrightarrow> (\<forall>s. r = Some s \<longrightarrow> prefix C (calls s))"

lemma extends_Some: "prefix C (calls s) \<Longrightarrow> extends calls C (Some s)"
  by (simp add: extends_def)

lemma extends_None: "extends calls C None"
  by (simp add: extends_def)

lemma extends_then: "extends calls C r \<Longrightarrow> (\<And>t. prefix C (calls t) \<Longrightarrow> extends calls C (f t)) \<Longrightarrow> extends calls C (Option.bind r f)"
  by (cases r) (auto simp: extends_def)

lemma extends_bind: "(\<And>x. r = Some x \<Longrightarrow> extends calls C (f x)) \<Longrightarrow> extends calls C (Option.bind r f)"
  by (cases r) (auto simp: extends_def)

lemma extends_if: "extends calls C r \<Longrightarrow> extends calls C r' \<Longrightarrow> extends calls C (if b then r else r')"
  by simp

lemma extends_Let: "(\<And>x. x = e \<Longrightarrow> extends calls C (f x)) \<Longrightarrow> extends calls C (Let e f)"
  by simp

lemma extends_split: "(\<And>x y. p = (x, y) \<Longrightarrow> extends calls C (f x y)) \<Longrightarrow> extends calls C (case p of (x, y) \<Rightarrow> f x y)"
  by (cases p) simp

lemma extends_map: "(\<And>x. calls (h x) = calls s) \<Longrightarrow> prefix C (calls s) \<Longrightarrow> extends calls C (map_option h r)"
  by (cases r) (auto simp: extends_def)

lemma extends_trans: "extends calls (calls s) r \<Longrightarrow> prefix C (calls s) \<Longrightarrow> extends calls C r"
  unfolding extends_def using prefix_order.trans by blast

lemmas extends_intros = extends_if extends_Let extends_split

end
