(* ===== verification/Prism_Dasher.thy ===== *)
theory Prism_Dasher
  imports Prism_Curve
begin

text \<open>
  \<^verbatim>\<open>Dasher.c\<close>: a consumer that cuts a path into dashes, and the iterator that finds the parameters at which a curve has a given
  length. As for the stroker, the calls to the next consumer are collected in a field. Loops whose end depends on the numbers are
  partial functions: \<open>None\<close> is a loop that does not end, or an access outside an array.
\<close>

section \<open>State\<close>

datatype Side = LEFT | RIGHT

abbreviation (input) REC_LIMIT :: jint where "REC_LIMIT \<equiv> 4"
abbreviation (input) ERR :: jfloat where "ERR \<equiv> fp_literal F32 1 2"
abbreviation (input) MIN_T_INCREMENT :: jfloat where "MIN_T_INCREMENT \<equiv> fdiv (fint 1) (fint 16)"

text \<open>The rows of \<^verbatim>\<open>recCurveStack\<close> are one list, row \<open>i\<close> from index \<open>8 * i\<close> on.\<close>

record length_iterator =
  li_recCurveStack :: "jfloat list"
  li_sides :: "Side list"
  li_curveType :: jint
  li_nextT :: jfloat
  li_lenAtNextT :: jfloat
  li_lastT :: jfloat
  li_lenAtLastT :: jfloat
  li_lenAtLastSplit :: jfloat
  li_lastSegLen :: jfloat
  li_recLevel :: jint
  li_done :: bool
  li_curLeafCtrlPolyLengths :: "jfloat list"
  li_cachedHaveLowAcceleration :: jint
  li_nextRoots :: "jfloat list"
  li_flatLeafCoefCache :: "jfloat list"

record dasher =
  da_dash :: "jfloat list"
  da_numdashes :: jint
  da_startPhase :: jfloat
  da_startDashOn :: bool
  da_startIdx :: jint
  da_starting :: bool
  da_needsMoveTo :: bool
  da_idx :: jint
  da_dashOn :: bool
  da_phase :: jfloat
  da_sx :: jfloat
  da_sy :: jfloat
  da_x0 :: jfloat
  da_y0 :: jfloat
  da_curCurvepts :: "jfloat list"
  da_firstSegmentsBufferSIZE :: jint
  da_firstSegmentsBuffer :: "jfloat list"
  da_firstSegidx :: jint
  da_li :: length_iterator
  da_calls :: "path_op list"

section \<open>Lengths along a curve\<close>

text \<open>The length of a leaf, or minus one for a curve that is still to be cut.\<close>

definition LIonLeaf :: "length_iterator \<Rightarrow> (jfloat \<times> length_iterator) option" where
  "LIonLeaf this = do {
     let curve = li_recLevel this * 8;
     let pts = li_recCurveStack this;
     x0 \<leftarrow> rd pts curve; y0 \<leftarrow> rd pts (curve + 1);
     (polyLen, x1, y1, lens) \<leftarrow> for_loop (li_curveType this div 2 - 1) (\<lambda>j (polyLen, x0, y0, lens). do {
       x1 \<leftarrow> rd pts (curve + (2 * j + 2)); y1 \<leftarrow> rd pts (curve + (2 * j + 3));
       let len = Helpers_linelen x0 y0 x1 y1;
       lens \<leftarrow> wr lens j len;
       Some (fadd polyLen len, x1, y1, lens)
     }) (fint 0, x0, y0, li_curLeafCtrlPolyLengths this);
     xe \<leftarrow> rd pts (curve + li_curveType this - 2); ye \<leftarrow> rd pts (curve + li_curveType this - 1);
     let lineLen = Helpers_linelen x0 y0 xe ye;
     let this = this\<lparr>li_curLeafCtrlPolyLengths := lens\<rparr>;
     if fp_less (fsub polyLen lineLen) ERR \<or> li_recLevel this = REC_LIMIT
     then Some (fdiv (fadd polyLen lineLen) (fint 2), this)
     else Some (fint (- 1), this)
   }"

partial_function (option) LIgoLeft :: "length_iterator \<Rightarrow> length_iterator option" where
  "LIgoLeft this = do {
     (len, this) \<leftarrow> LIonLeaf this;
     if fp_le (fint 0) len then do {
       cache \<leftarrow> wr (li_flatLeafCoefCache this) 2 (fint (- 1));
       Some (this\<lparr>li_lastT := li_nextT this, li_lenAtLastT := li_lenAtNextT this,
                  li_nextT := fadd (li_nextT this) (fmul (fint (one_shl (REC_LIMIT - li_recLevel this))) MIN_T_INCREMENT),
                  li_lenAtNextT := fadd (li_lenAtNextT this) len,
                  li_flatLeafCoefCache := cache, li_cachedHaveLowAcceleration := - 1\<rparr>)
     }
     else do {
       let l = li_recLevel this;
       pts \<leftarrow> Helpers_subdivide (li_recCurveStack this) (l * 8) ((l + 1) * 8) (l * 8) (li_curveType this);
       sides \<leftarrow> wr (li_sides this) l LEFT;
       LIgoLeft (this\<lparr>li_recCurveStack := pts, li_sides := sides, li_recLevel := l + 1\<rparr>)
     }
   }"

definition LIinitializeIterationOnCurve :: "jfloat list \<Rightarrow> jint \<Rightarrow> length_iterator \<Rightarrow> length_iterator option" where
  "LIinitializeIterationOnCurve pts type this = do {
     st \<leftarrow> System_arraycopy pts 0 (li_recCurveStack this) 0 type;
     let z = fint 0;
     this \<leftarrow> LIgoLeft (this\<lparr>li_recCurveStack := st, li_curveType := type, li_recLevel := 0, li_lastT := z, li_lenAtLastT := z,
                            li_nextT := z, li_lenAtNextT := z\<rparr>);
     let leaf = \<not> 0 < li_recLevel this;
     sides \<leftarrow> wr (li_sides this) 0 (if leaf then RIGHT else LEFT);
     cache \<leftarrow> wr_all (li_flatLeafCoefCache this) 0 [z, z, fint (- 1), z];
     Some (this\<lparr>li_lenAtLastSplit := z, li_sides := sides, li_done := leaf, li_lastSegLen := z,
                li_cachedHaveLowAcceleration := - 1, li_flatLeafCoefCache := cache\<rparr>)
   }"

text \<open>
  \<^verbatim>\<open>while (sides[recLevel] == RIGHT)\<close>: the level of the first ancestor whose right child is still to be visited, or nothing at
  the end of the curve.
\<close>

fun next_branch :: "Side list \<Rightarrow> nat \<Rightarrow> jint option option" where
  "next_branch sides 0 = map_option (\<lambda>s. if s = RIGHT then None else Some 0) (rd sides 0)"
| "next_branch sides (Suc k) = do {
     s \<leftarrow> rd sides (int (Suc k));
     if s = RIGHT then next_branch sides k else Some (Some (int (Suc k)))
   }"

definition LIgoToNextLeaf :: "length_iterator \<Rightarrow> length_iterator option" where
  "LIgoToNextLeaf this = do {
     let l = li_recLevel this - 1;
     found \<leftarrow> (if 0 \<le> l then next_branch (li_sides this) (nat l) else None);
     case found of
       None \<Rightarrow> Some (this\<lparr>li_recLevel := 0, li_done := True\<rparr>)
     | Some l \<Rightarrow> do {
         sides \<leftarrow> wr (li_sides this) l RIGHT;
         pts \<leftarrow> System_arraycopy (li_recCurveStack this) (l * 8) (li_recCurveStack this) ((l + 1) * 8) (li_curveType this);
         LIgoLeft (this\<lparr>li_sides := sides, li_recCurveStack := pts, li_recLevel := l + 1\<rparr>)
       }
   }"

definition LIhaveLowAcceleration :: "jfloat \<Rightarrow> length_iterator \<Rightarrow> (bool \<times> length_iterator) option" where
  "LIhaveLowAcceleration err this =
     (if li_cachedHaveLowAcceleration this = - 1 then do {
        len1 \<leftarrow> rd (li_curLeafCtrlPolyLengths this) 0;
        len2 \<leftarrow> rd (li_curLeafCtrlPolyLengths this) 1;
        if \<not> Helpers_within len1 len2 (fmul err len2)
        then Some (False, this\<lparr>li_cachedHaveLowAcceleration := 0\<rparr>)
        else if li_curveType this = 8 then do {
          len3 \<leftarrow> rd (li_curLeafCtrlPolyLengths this) 2;
          if \<not> (Helpers_within len2 len3 (fmul err len3) \<and> Helpers_within len1 len3 (fmul err len3))
          then Some (False, this\<lparr>li_cachedHaveLowAcceleration := 0\<rparr>)
          else Some (True, this\<lparr>li_cachedHaveLowAcceleration := 1\<rparr>)
        }
        else Some (True, this\<lparr>li_cachedHaveLowAcceleration := 1\<rparr>)
      }
      else Some (li_cachedHaveLowAcceleration this = 1, this))"

text \<open>The loop at the start of \<^verbatim>\<open>LInext\<close>; the flag is whether the curve ended.\<close>

partial_function (option) advance_leaves :: "jfloat \<Rightarrow> length_iterator \<Rightarrow> (bool \<times> length_iterator) option" where
  "advance_leaves targetLength this =
     (if fp_less (li_lenAtNextT this) targetLength then
        (if li_done this then
           Some (True, this\<lparr>li_lastSegLen := fsub (li_lenAtNextT this) (li_lenAtLastSplit this)\<rparr>)
         else do {
           this \<leftarrow> LIgoToNextLeaf this;
           advance_leaves targetLength this
         })
      else Some (False, this))"

text \<open>The parameter within the leaf, from the one of constant speed.\<close>

definition solve_leaf :: "math_lib \<Rightarrow> jfloat \<Rightarrow> length_iterator \<Rightarrow> (jfloat \<times> length_iterator) option" where
  "solve_leaf lm t this = do {
     c2 \<leftarrow> rd (li_flatLeafCoefCache this) 2;
     cache \<leftarrow> (if fp_less c2 (fint 0) then do {
         l0 \<leftarrow> rd (li_curLeafCtrlPolyLengths this) 0;
         l1 \<leftarrow> rd (li_curLeafCtrlPolyLengths this) 1;
         let x = fadd (fint 0) l0;
         let y = fadd x l1;
         if li_curveType this = 8 then do {
           l2 \<leftarrow> rd (li_curLeafCtrlPolyLengths this) 2;
           let z = fadd y l2;
           wr_all (li_flatLeafCoefCache this) 0
             [fadd (fmul (fint 3) (fsub x y)) z, fmul (fint 3) (fsub y (fmul (fint 2) x)), fmul (fint 3) x, fp_neg z]
         }
         else if li_curveType this = 6 then
           wr_all (li_flatLeafCoefCache this) 0 [fint 0, fsub y (fmul (fint 2) x), fmul (fint 2) x, fp_neg y]
         else Some (li_flatLeafCoefCache this)
       }
       else Some (li_flatLeafCoefCache this));
     a \<leftarrow> rd cache 0; b \<leftarrow> rd cache 1; c \<leftarrow> rd cache 2; d \<leftarrow> rd cache 3;
     (n, roots) \<leftarrow> Helpers_cubicRootsInAB lm a b c (fmul t d) (li_nextRoots this) 0 (fint 0) (fint 1);
     r0 \<leftarrow> rd roots 0;
     Some (if n = 1 \<and> r0 \<noteq> NaN then r0 else t, this\<lparr>li_flatLeafCoefCache := cache, li_nextRoots := roots\<rparr>)
   }"

definition LInext :: "math_lib \<Rightarrow> jfloat \<Rightarrow> length_iterator \<Rightarrow> (jfloat \<times> length_iterator) option" where
  "LInext lm len this = do {
     let targetLength = fadd (li_lenAtLastSplit this) len;
     (ended, this) \<leftarrow> advance_leaves targetLength this;
     if ended then Some (fint 1, this)
     else do {
       let this = this\<lparr>li_lenAtLastSplit := targetLength\<rparr>;
       let leaflen = fsub (li_lenAtNextT this) (li_lenAtLastT this);
       let t = fdiv (fsub targetLength (li_lenAtLastT this)) leaflen;
       (low, this) \<leftarrow> LIhaveLowAcceleration (fp_literal F32 5 2) this;
       (t, this) \<leftarrow> (if \<not> low then solve_leaf lm t this else Some (t, this));
       let t = fadd (fmul t (fsub (li_nextT this) (li_lastT this))) (li_lastT this);
       let past = fp_le (fint 1) t;
       Some (if past then fint 1 else t,
             this\<lparr>li_done := (li_done this \<or> past), li_lastSegLen := len\<rparr>)
     }
   }"

section \<open>Dashes\<close>

text \<open>What the dasher takes from its environment.\<close>

record dash_env =
  de_alloc :: "int \<Rightarrow> bool"
  de_math :: math_lib

definition call :: "path_op \<Rightarrow> dasher \<Rightarrow> dasher" where
  "call p this = this\<lparr>da_calls := da_calls this @ [p]\<rparr>"

definition emitSeg :: "jfloat list \<Rightarrow> jint \<Rightarrow> jint \<Rightarrow> dasher \<Rightarrow> dasher option" where
  "emitSeg buf off type this =
     (if type = 8 then do {
        x1 \<leftarrow> rd buf off; y1 \<leftarrow> rd buf (off + 1); x2 \<leftarrow> rd buf (off + 2); y2 \<leftarrow> rd buf (off + 3);
        x3 \<leftarrow> rd buf (off + 4); y3 \<leftarrow> rd buf (off + 5);
        Some (call (CurveTo x1 y1 x2 y2 x3 y3) this)
      }
      else if type = 6 then do {
        x1 \<leftarrow> rd buf off; y1 \<leftarrow> rd buf (off + 1); x2 \<leftarrow> rd buf (off + 2); y2 \<leftarrow> rd buf (off + 3);
        Some (call (QuadTo x1 y1 x2 y2) this)
      }
      else if type = 4 then do {
        x1 \<leftarrow> rd buf off; y1 \<leftarrow> rd buf (off + 1);
        Some (call (LineTo x1 y1) this)
      }
      else Some this)"

partial_function (option) emit_first :: "jint \<Rightarrow> dasher \<Rightarrow> dasher option" where
  "emit_first i this =
     (if i < da_firstSegidx this then do {
        v \<leftarrow> rd (da_firstSegmentsBuffer this) i;
        this \<leftarrow> emitSeg (da_firstSegmentsBuffer this) (i + 1) (fp_to_jint v) this;
        emit_first (i32 (i + (fp_to_jint v - 1))) this
      }
      else Some this)"

definition emitFirstSegments :: "dasher \<Rightarrow> dasher option" where
  "emitFirstSegments this = map_option (\<lambda>this. this\<lparr>da_firstSegidx := 0\<rparr>) (emit_first 0 this)"

text \<open>The buffer for the segments of the first dash grows when the next one does not fit.\<close>

definition store_first :: "(int \<Rightarrow> bool) \<Rightarrow> jfloat list \<Rightarrow> jint \<Rightarrow> jint \<Rightarrow> dasher \<Rightarrow> dasher option" where
  "store_first alloc pts off type this = do {
     this \<leftarrow> (if da_firstSegmentsBufferSIZE this < i32 (da_firstSegidx this + (type - 1)) then do {
         let newSize = i32 ((da_firstSegidx this + (type - 1)) * 2);
         newSegs \<leftarrow> System_arraycopy (da_firstSegmentsBuffer this) 0 (new_float alloc newSize) 0 (da_firstSegidx this);
         Some (this\<lparr>da_firstSegmentsBuffer := newSegs, da_firstSegmentsBufferSIZE := newSize\<rparr>)
       }
       else Some this);
     segs \<leftarrow> wr (da_firstSegmentsBuffer this) (da_firstSegidx this) (fint type);
     let k = i32 (da_firstSegidx this + 1);
     segs \<leftarrow> System_arraycopy pts off segs k (type - 2);
     Some (this\<lparr>da_firstSegmentsBuffer := segs, da_firstSegidx := i32 (k + (type - 2))\<rparr>)
   }"

definition goTo :: "(int \<Rightarrow> bool) \<Rightarrow> jfloat list \<Rightarrow> jint \<Rightarrow> jint \<Rightarrow> dasher \<Rightarrow> dasher option" where
  "goTo alloc pts off type this = do {
     x \<leftarrow> rd pts (off + type - 4);
     y \<leftarrow> rd pts (off + type - 3);
     this \<leftarrow>
       (if da_dashOn this then
          (if da_starting this then store_first alloc pts off type this
           else
             (let this = (if da_needsMoveTo this
                          then (call (MoveTo (da_x0 this) (da_y0 this)) this)\<lparr>da_needsMoveTo := False\<rparr> else this)
              in emitSeg pts off type this))
        else Some (this\<lparr>da_starting := False, da_needsMoveTo := True\<rparr>));
     Some (this\<lparr>da_x0 := x, da_y0 := y\<rparr>)
   }"

text \<open>The first dash of a subpath, when there is one.\<close>

definition flush_first :: "dasher \<Rightarrow> dasher option" where
  "flush_first this =
     (if 0 < da_firstSegidx this then emitFirstSegments (call (MoveTo (da_sx this) (da_sy this)) this) else Some this)"

definition Dasher_MoveTo :: "jfloat \<Rightarrow> jfloat \<Rightarrow> dasher \<Rightarrow> dasher option" where
  "Dasher_MoveTo newx0 newy0 this = do {
     this \<leftarrow> flush_first this;
     Some (this\<lparr>da_needsMoveTo := True, da_idx := da_startIdx this, da_dashOn := da_startDashOn this, da_phase := da_startPhase this,
                da_sx := newx0, da_x0 := newx0, da_sy := newy0, da_y0 := newy0, da_starting := True\<rparr>)
   }"

text \<open>\<^verbatim>\<open>phase = 0; idx = (idx + 1) % numdashes; dashOn = !dashOn\<close>\<close>

definition next_dash :: "dasher \<Rightarrow> dasher option" where
  "next_dash this = do {
     i \<leftarrow> c_mod (i32 (da_idx this + 1)) (da_numdashes this);
     Some (this\<lparr>da_idx := i, da_dashOn := (\<not> da_dashOn this), da_phase := fint 0\<rparr>)
   }"

partial_function (option) dash_line ::
    "dash_env \<Rightarrow> jfloat \<Rightarrow> jfloat \<Rightarrow> jfloat \<Rightarrow> jfloat \<Rightarrow> jfloat \<Rightarrow> dasher \<Rightarrow> dasher option" where
  "dash_line env x1 y1 cx cy len this = do {
     d \<leftarrow> rd (da_dash this) (da_idx this);
     let leftInThisDashSegment = fsub d (da_phase this);
     if fp_le len leftInThisDashSegment then do {
       pts \<leftarrow> wr_all (da_curCurvepts this) 0 [x1, y1];
       this \<leftarrow> goTo (de_alloc env) pts 0 4 (this\<lparr>da_curCurvepts := pts\<rparr>);
       let this = this\<lparr>da_phase := fadd (da_phase this) len\<rparr>;
       if fp_eq len leftInThisDashSegment then next_dash this else Some this
     }
     else do {
       let dashdx = fmul d cx;
       let dashdy = fmul d cy;
       let (px, py) =
         (if fp_eq (da_phase this) (fint 0) then (fadd (da_x0 this) dashdx, fadd (da_y0 this) dashdy)
          else (let p = fdiv leftInThisDashSegment d
                in (fadd (da_x0 this) (fmul p dashdx), fadd (da_y0 this) (fmul p dashdy))));
       pts \<leftarrow> wr_all (da_curCurvepts this) 0 [px, py];
       this \<leftarrow> goTo (de_alloc env) pts 0 4 (this\<lparr>da_curCurvepts := pts\<rparr>);
       this \<leftarrow> next_dash this;
       dash_line env x1 y1 cx cy (fsub len leftInThisDashSegment) this
     }
   }"

definition Dasher_LineTo :: "dash_env \<Rightarrow> jfloat \<Rightarrow> jfloat \<Rightarrow> dasher \<Rightarrow> dasher option" where
  "Dasher_LineTo env x1 y1 this =
     (let dx = fsub x1 (da_x0 this); dy = fsub y1 (da_y0 this);
          len = fsqrt (fadd (fmul dx dx) (fmul dy dy))
      in if fp_eq len (fint 0) then Some this
         else dash_line env x1 y1 (fdiv dx len) (fdiv dy len) len this)"

definition pointCurve :: "jfloat list \<Rightarrow> jint \<Rightarrow> bool option" where
  "pointCurve curve type =
     for_loop (type - 2) (\<lambda>i same. do {
       if same then do { a \<leftarrow> rd curve (i + 2); b \<leftarrow> rd curve i; Some (fp_eq a b) } else Some False
     }) True"

text \<open>The loop of \<^verbatim>\<open>somethingTo\<close>: the offset of the rest of the curve when the iterator reaches its end.\<close>

partial_function (option) dash_curve ::
    "dash_env \<Rightarrow> jint \<Rightarrow> jint \<Rightarrow> jfloat \<Rightarrow> jfloat \<Rightarrow> dasher \<Rightarrow> (jint \<times> dasher) option" where
  "dash_curve env type curCurveoff lastSplitT leftInThisDashSegment this = do {
     (t, li) \<leftarrow> LInext (de_math env) leftInThisDashSegment (da_li this);
     let this = this\<lparr>da_li := li\<rparr>;
     if fp_less t (fint 1) then do {
       (off, splitT, this) \<leftarrow>
         (if \<not> fp_eq t (fint 0) then do {
            pts \<leftarrow> Helpers_subdivideAt (fdiv (fsub t lastSplitT) (fsub (fint 1) lastSplitT))
                     (da_curCurvepts this) curCurveoff 0 type type;
            this \<leftarrow> goTo (de_alloc env) pts 2 type (this\<lparr>da_curCurvepts := pts\<rparr>);
            Some (type, t, this)
          }
          else Some (curCurveoff, lastSplitT, this));
       this \<leftarrow> next_dash this;
       d \<leftarrow> rd (da_dash this) (da_idx this);
       dash_curve env type off splitT d this
     }
     else Some (curCurveoff, this)
   }"

definition somethingTo :: "dash_env \<Rightarrow> jint \<Rightarrow> dasher \<Rightarrow> dasher option" where
  "somethingTo env type this = do {
     point \<leftarrow> pointCurve (da_curCurvepts this) type;
     if point then Some this
     else do {
       li \<leftarrow> LIinitializeIterationOnCurve (da_curCurvepts this) type (da_li this);
       d \<leftarrow> rd (da_dash this) (da_idx this);
       (off, this) \<leftarrow> dash_curve env type 0 (fint 0) (fsub d (da_phase this)) (this\<lparr>da_li := li\<rparr>);
       this \<leftarrow> goTo (de_alloc env) (da_curCurvepts this) (off + 2) type this;
       let this = this\<lparr>da_phase := fadd (da_phase this) (li_lastSegLen (da_li this))\<rparr>;
       d \<leftarrow> rd (da_dash this) (da_idx this);
       if fp_le d (da_phase this) then next_dash this else Some this
     }
   }"

definition Dasher_CurveTo ::
    "dash_env \<Rightarrow> jfloat \<Rightarrow> jfloat \<Rightarrow> jfloat \<Rightarrow> jfloat \<Rightarrow> jfloat \<Rightarrow> jfloat \<Rightarrow> dasher \<Rightarrow> dasher option" where
  "Dasher_CurveTo env x1 y1 x2 y2 x3 y3 this = do {
     pts \<leftarrow> wr_all (da_curCurvepts this) 0 [da_x0 this, da_y0 this, x1, y1, x2, y2, x3, y3];
     somethingTo env 8 (this\<lparr>da_curCurvepts := pts\<rparr>)
   }"

definition Dasher_QuadTo :: "dash_env \<Rightarrow> jfloat \<Rightarrow> jfloat \<Rightarrow> jfloat \<Rightarrow> jfloat \<Rightarrow> dasher \<Rightarrow> dasher option" where
  "Dasher_QuadTo env x1 y1 x2 y2 this = do {
     pts \<leftarrow> wr_all (da_curCurvepts this) 0 [da_x0 this, da_y0 this, x1, y1, x2, y2];
     somethingTo env 6 (this\<lparr>da_curCurvepts := pts\<rparr>)
   }"

definition Dasher_ClosePath :: "dash_env \<Rightarrow> dasher \<Rightarrow> dasher option" where
  "Dasher_ClosePath env this = do {
     this \<leftarrow> Dasher_LineTo env (da_sx this) (da_sy this) this;
     this \<leftarrow> (if 0 < da_firstSegidx this then
                emitFirstSegments
                  (if \<not> da_dashOn this \<or> da_needsMoveTo this then call (MoveTo (da_sx this) (da_sy this)) this else this)
              else Some this);
     Dasher_MoveTo (da_sx this) (da_sy this) this
   }"

definition Dasher_PathDone :: "dasher \<Rightarrow> dasher option" where
  "Dasher_PathDone this = do {
     this \<leftarrow> flush_first this;
     Some (call PathDone this)
   }"

section \<open>Setting up\<close>

text \<open>The loops that bring the phase into the first dash; the flag is \<^verbatim>\<open>dashOn\<close>.\<close>

partial_function (option) phase_up :: "jfloat list \<Rightarrow> jint \<Rightarrow> jfloat \<Rightarrow> jint \<Rightarrow> bool \<Rightarrow> (jfloat \<times> jint \<times> bool) option" where
  "phase_up dash ndashes phase sidx on =
     (if fp_less phase (fint 0) then do {
        let sidx = (if i32 (sidx - 1) < 0 then i32 (ndashes - 1) else i32 (sidx - 1));
        d \<leftarrow> rd dash sidx;
        phase_up dash ndashes (fadd phase d) sidx (\<not> on)
      }
      else Some (phase, sidx, on))"

partial_function (option) phase_down :: "jfloat list \<Rightarrow> jint \<Rightarrow> jfloat \<Rightarrow> jint \<Rightarrow> bool \<Rightarrow> (jfloat \<times> jint \<times> bool) option" where
  "phase_down dash ndashes phase sidx on = do {
     d \<leftarrow> rd dash sidx;
     if fp_le d phase then do {
       i \<leftarrow> c_mod (i32 (sidx + 1)) ndashes;
       phase_down dash ndashes (fsub phase d) i (\<not> on)
     }
     else Some (phase, sidx, on)
   }"

text \<open>\<^verbatim>\<open>(jint) floor(x)\<close>\<close>

definition floor_jint :: "jfloat \<Rightarrow> jint" where
  "floor_jint x = fp_to_jint (fp_neg (fp_ceil (fp_neg x)))"

abbreviation (input) MAX_CYCLES :: jfloat where "MAX_CYCLES \<equiv> fint 16000000"

definition Dasher_reset :: "jfloat list \<Rightarrow> jint \<Rightarrow> jfloat \<Rightarrow> dasher \<Rightarrow> dasher option" where
  "Dasher_reset dash ndashes phase this = do {
     sum \<leftarrow> for_loop ndashes (\<lambda>i sum. do { d \<leftarrow> rd dash i; Some (fadd sum d) }) (fint 0);
     let cycles = fdiv phase sum;
     let odd_cycles = (\<lambda>n. odd n \<and> odd ndashes);
     (phase, sidx, on) \<leftarrow>
       (if fp_less phase (fint 0) then
          (if fp_le MAX_CYCLES (fp_neg cycles) then Some (fint 0, 0, True)
           else let fullcycles = floor_jint (fp_neg cycles)
                in phase_up dash ndashes (fadd phase (fmul (fint fullcycles) sum)) 0 (\<not> odd_cycles fullcycles))
        else if fp_less (fint 0) phase then
          (if fp_le MAX_CYCLES cycles then Some (fint 0, 0, True)
           else let fullcycles = floor_jint cycles
                in phase_down dash ndashes (fsub phase (fmul (fint fullcycles) sum)) 0 (\<not> odd_cycles fullcycles))
        else Some (phase, 0, True));
     Some (this\<lparr>da_dash := dash, da_numdashes := ndashes, da_startPhase := phase, da_phase := phase, da_dashOn := on,
                da_startDashOn := on, da_startIdx := sidx, da_starting := True\<rparr>)
   }"

definition LI_zero :: length_iterator where
  "LI_zero =
     (let z = fint 0
      in \<lparr>li_recCurveStack = replicate 40 z, li_sides = replicate 4 LEFT, li_curveType = 0, li_nextT = z, li_lenAtNextT = z, li_lastT = z,
          li_lenAtLastT = z, li_lenAtLastSplit = z, li_lastSegLen = z, li_recLevel = 0, li_done = False,
          li_curLeafCtrlPolyLengths = replicate 3 z, li_cachedHaveLowAcceleration = 0, li_nextRoots = replicate 4 z,
          li_flatLeafCoefCache = replicate 4 z\<rparr>)"

definition Dasher_init :: "dash_env \<Rightarrow> jfloat list \<Rightarrow> jint \<Rightarrow> jfloat \<Rightarrow> dasher option" where
  "Dasher_init env dash numdashes phase =
     (let z = fint 0;
          this = \<lparr>da_dash = [], da_numdashes = 0, da_startPhase = z, da_startDashOn = False, da_startIdx = 0, da_starting = False,
                  da_needsMoveTo = False, da_idx = 0, da_dashOn = False, da_phase = z, da_sx = z, da_sy = z, da_x0 = z, da_y0 = z,
                  da_curCurvepts = replicate 16 z, da_firstSegmentsBufferSIZE = 7,
                  da_firstSegmentsBuffer = new_float (de_alloc env) 7, da_firstSegidx = 0, da_li = LI_zero, da_calls = []\<rparr>
      in Dasher_reset dash numdashes phase this)"

fun Dasher_consumer :: "dash_env \<Rightarrow> path_op \<Rightarrow> dasher \<Rightarrow> dasher option" where
  "Dasher_consumer env (MoveTo x0 y0) this = Dasher_MoveTo x0 y0 this"
| "Dasher_consumer env (LineTo x1 y1) this = Dasher_LineTo env x1 y1 this"
| "Dasher_consumer env (QuadTo x1 y1 x2 y2) this = Dasher_QuadTo env x1 y1 x2 y2 this"
| "Dasher_consumer env (CurveTo x1 y1 x2 y2 x3 y3) this = Dasher_CurveTo env x1 y1 x2 y2 x3 y3 this"
| "Dasher_consumer env ClosePath this = Dasher_ClosePath env this"
| "Dasher_consumer env PathDone this = Dasher_PathDone this"

text \<open>The loops compute as they are written.\<close>

declare LIgoLeft.simps [code] advance_leaves.simps [code] emit_first.simps [code] dash_line.simps [code] dash_curve.simps [code]
  phase_up.simps [code] phase_down.simps [code]

end
