(* ===== verification/Prism_Chain.thy ===== *)
theory Prism_Chain
  imports Prism_Relay Prism_Stroker Prism_Dasher
begin

text \<open>The stroker and the dasher as links of a chain of consumers.\<close>

section \<open>The stroker\<close>

abbreviation sk_extends :: "path_op list \<Rightarrow> stroker option \<Rightarrow> bool" where
  "sk_extends \<equiv> extends st_calls"

text \<open>What is passed on so far.\<close>

abbreviation so_far :: "path_op list \<Rightarrow> stroker \<Rightarrow> bool" where
  "so_far C s \<equiv> prefix C (st_calls s)"

lemma emit_so_far: "so_far C s \<Longrightarrow> so_far C (emit ps s)"
  by (simp add: emit_def prefix_prefix)

lemma emitLineTo_extends: "so_far C s \<Longrightarrow> sk_extends C (emitLineTo env x y rv s)"
  unfolding emitLineTo_def by (intro extends_if extends_Some emit_so_far extends_map [where s = s]) simp_all

lemma emitQuadTo_extends: "so_far C s \<Longrightarrow> sk_extends C (emitQuadTo env x0 y0 x1 y1 x2 y2 rv s)"
  unfolding emitQuadTo_def by (intro extends_if extends_Some emit_so_far extends_map [where s = s]) simp_all

lemma emitCurveTo_extends: "so_far C s \<Longrightarrow> sk_extends C (emitCurveTo env x0 y0 x1 y1 x2 y2 x3 y3 rv s)"
  unfolding emitCurveTo_def by (intro extends_if extends_Some emit_so_far extends_map [where s = s]) simp_all

lemma emitReverse_extends: "so_far C s \<Longrightarrow> sk_extends C (emitReverse s)"
  unfolding emitReverse_def by (intro extends_bind extends_split extends_Some emit_so_far) simp

lemmas emit_extends = emitLineTo_extends emitQuadTo_extends emitCurveTo_extends emitReverse_extends

lemma drawBezApproxForArc_extends: "so_far C s \<Longrightarrow> sk_extends C (drawBezApproxForArc env cx cy omx omy mx my rv s)"
  unfolding drawBezApproxForArc_def by (intro extends_Let emit_extends)

lemma drawRoundJoin_extends: "so_far C s \<Longrightarrow> sk_extends C (drawRoundJoin env x y omx omy mx my rv threshold s)"
  unfolding drawRoundJoin_def drawRoundJoin2_def
  by (intro extends_intros extends_Some extends_then drawBezApproxForArc_extends)

lemma drawRoundCap_extends: "so_far C s \<Longrightarrow> sk_extends C (drawRoundCap env cx cy mx my s)"
  unfolding drawRoundCap_def by (intro extends_intros extends_then emit_extends)

lemma drawMiter_extends: "so_far C s \<Longrightarrow> sk_extends C (drawMiter env pdx pdy x0 y0 dx dy omx omy mx my rv s)"
  unfolding drawMiter_def by (intro extends_intros extends_Some emit_extends)

lemma emitMoveTo_so_far: "so_far C s \<Longrightarrow> so_far C (emitMoveTo x y s)"
  by (simp add: emitMoveTo_def emit_so_far)

lemma emitClose_so_far: "so_far C s \<Longrightarrow> so_far C (emitClose s)"
  by (simp add: emitClose_def emit_so_far)

lemma drawJoin_extends: "so_far C s \<Longrightarrow> sk_extends C (drawJoin env pdx pdy x0 y0 dx dy omx omy mx my s)"
  unfolding drawJoin_def
  by (intro extends_intros extends_then extends_Some emit_extends drawMiter_extends drawRoundJoin_extends)
    (simp_all add: emitMoveTo_so_far)

lemma finish_extends: "so_far C s \<Longrightarrow> sk_extends C (finish env s)"
  unfolding finish_def
  by (intro extends_intros extends_then extends_Some emit_extends drawRoundCap_extends emitClose_so_far)

lemma Stroker_lineTo_extends: "so_far C s \<Longrightarrow> sk_extends C (Stroker_lineTo env x1 y1 s)"
  unfolding Stroker_lineTo_def
  by (intro extends_Let extends_split extends_then extends_Some emit_extends drawJoin_extends) simp_all

lemma Stroker_moveTo_extends: "so_far C s \<Longrightarrow> sk_extends C (Stroker_moveTo env x0 y0 s)"
  unfolding Stroker_moveTo_def by (intro extends_intros extends_then extends_Some finish_extends) simp_all

lemma Stroker_closePath_extends: "so_far C s \<Longrightarrow> sk_extends C (Stroker_closePath env s)"
  unfolding Stroker_closePath_def
  by (intro extends_intros extends_then extends_Some emit_extends finish_extends drawJoin_extends Stroker_lineTo_extends
      emitClose_so_far emitMoveTo_so_far) (simp_all add: emitMoveTo_so_far)

lemma Stroker_pathDone_extends: "so_far C s \<Longrightarrow> sk_extends C (Stroker_pathDone env s)"
  unfolding Stroker_pathDone_def by (intro extends_intros extends_then extends_Some finish_extends) (simp_all add: emit_so_far)

lemmas array_extends =
  extends_bind [where r = "rd a i" for a i]
  extends_bind [where r = "wr_all a i vs" for a i vs]

lemma emit_piece_extends: "so_far C s \<Longrightarrow> sk_extends C (emit_piece env kind s)"
  unfolding emit_piece_def by (intro extends_intros array_extends extends_then extends_Some emit_extends)

lemma for_loop_keeps:
  assumes "\<And>i t t'. f i t = Some t' \<Longrightarrow> I t \<Longrightarrow> I t'"
  shows "for_loop n f s = Some s' \<Longrightarrow> I s \<Longrightarrow> I s'"
proof -
  have "iter_from i k f s = Some s' \<Longrightarrow> I s \<Longrightarrow> I s'" for i k
    by (induction k arbitrary: i s) (auto split: option.splits intro: assms)
  then show "for_loop n f s = Some s' \<Longrightarrow> I s \<Longrightarrow> I s'" by (simp add: for_loop_def)
qed

lemma pieces_so_far:
  assumes loop: "for_loop n (\<lambda>i (kind, this). Option.bind (F i this) (\<lambda>(kind, lp, rp).
      Option.bind (emit_piece env kind (this\<lparr>st_lp := lp, st_rp := rp\<rparr>)) (\<lambda>this. Some (kind, this)))) (k0, u) = Some (k, v)"
    and u: "so_far C u"
  shows "so_far C v"
proof -
  have "so_far C w'" if "emit_piece env kind (w\<lparr>st_lp := lp, st_rp := rp\<rparr>) = Some w'" "so_far C w" for kind w w' lp rp
    using emit_piece_extends [of C "w\<lparr>st_lp := lp, st_rp := rp\<rparr>" env kind] that by (simp add: extends_def)
  then have "so_far C (snd t')" if "(case t of (kind, this) \<Rightarrow> Option.bind (F i this) (\<lambda>(kind, lp, rp).
      Option.bind (emit_piece env kind (this\<lparr>st_lp := lp, st_rp := rp\<rparr>)) (\<lambda>this. Some (kind, this)))) = Some t'"
    "so_far C (snd t)" for i t t'
    using that by (cases t) (auto simp: bind_eq_Some_conv)
  from for_loop_keeps [of _ "\<lambda>t. so_far C (snd t)", OF this loop] u show ?thesis by simp
qed

lemma stroke_curve_extends:
  assumes "so_far C s"
  shows "sk_extends C (stroke_curve env type dxs dys dxf dyf xf yf s)"
  unfolding stroke_curve_def
  by (intro extends_intros extends_then drawJoin_extends assms,
      rule extends_bind, intro extends_intros, rule extends_bind, intro extends_intros, rule extends_bind, intro extends_intros,
      intro array_extends extends_Some)
    (auto dest: pieces_so_far)

lemma Stroker_curveTo_extends: "so_far C s \<Longrightarrow> sk_extends C (Stroker_curveTo env x1 y1 x2 y2 x3 y3 s)"
  unfolding Stroker_curveTo_def
  by (intro extends_Let array_extends extends_if extends_split Stroker_lineTo_extends stroke_curve_extends) simp_all

lemma Stroker_quadTo_extends: "so_far C s \<Longrightarrow> sk_extends C (Stroker_quadTo env x1 y1 x2 y2 s)"
  unfolding Stroker_quadTo_def
  by (intro extends_Let array_extends extends_if extends_split Stroker_lineTo_extends stroke_curve_extends) simp_all

lemma Stroker_consumer_extends: "so_far C s \<Longrightarrow> sk_extends C (Stroker_consumer env p s)"
  by (cases p) (simp_all add: Stroker_moveTo_extends Stroker_lineTo_extends Stroker_quadTo_extends Stroker_curveTo_extends
      Stroker_closePath_extends Stroker_pathDone_extends)

interpretation sr: relay "Stroker_consumer env" st_calls for env
  using Stroker_consumer_extends [OF prefix_order.refl] by unfold_locales (auto simp: extends_def)

section \<open>The dasher\<close>

abbreviation da_extends :: "path_op list \<Rightarrow> dasher option \<Rightarrow> bool" where
  "da_extends \<equiv> extends da_calls"

abbreviation dashed :: "path_op list \<Rightarrow> dasher \<Rightarrow> bool" where
  "dashed C d \<equiv> prefix C (da_calls d)"

lemma call_dashed: "dashed C d \<Longrightarrow> dashed C (call p d)"
  by (simp add: call_def prefix_prefix)

lemma emitSeg_extends: "dashed C d \<Longrightarrow> da_extends C (emitSeg buf off type d)"
  unfolding emitSeg_def by (intro extends_intros array_extends extends_Some call_dashed)

lemma emit_first_dashed:
  assumes "emit_first i d = Some d'" "dashed C d"
  shows "dashed C d'"
proof -
  have "dashed C d \<longrightarrow> dashed C d'"
  proof (rule emit_first.raw_induct [where P = "\<lambda>i d d'. dashed C d \<longrightarrow> dashed C d'", OF _ assms(1)])
    fix f i d d'
    assume IH: "\<And>i d d'. f i d = Some d' \<Longrightarrow> dashed C d \<longrightarrow> dashed C d'"
      and eq: "(if i < da_firstSegidx d then Option.bind (rd (da_firstSegmentsBuffer d) i) (\<lambda>v.
        Option.bind (emitSeg (da_firstSegmentsBuffer d) (i + 1) (fp_to_jint v) d) (f (i32 (i + (fp_to_jint v - 1))))) else Some d) = Some d'"
    have "dashed C t \<Longrightarrow> da_extends C (f k t)" for k t using IH by (simp add: extends_def)
    then have "dashed C d \<Longrightarrow> da_extends C (Some d')"
      unfolding eq [symmetric] by (intro extends_intros array_extends extends_then emitSeg_extends extends_Some)
    then show "dashed C d \<longrightarrow> dashed C d'" by (simp add: extends_def)
  qed
  then show ?thesis using assms(2) by simp
qed

lemma emitFirstSegments_extends: "dashed C d \<Longrightarrow> da_extends C (emitFirstSegments d)"
  by (auto simp: emitFirstSegments_def extends_def dest: emit_first_dashed)

lemma store_first_extends: "dashed C d \<Longrightarrow> da_extends C (store_first alloc pts off type d)"
  unfolding store_first_def
  by (auto simp: extends_def bind_eq_Some_conv Let_def split: if_splits)

lemma goTo_extends: "dashed C d \<Longrightarrow> da_extends C (goTo alloc pts off type d)"
  unfolding goTo_def
  by (intro array_extends extends_then extends_intros extends_Some store_first_extends emitSeg_extends) (auto simp: call_dashed)

lemma flush_first_extends: "dashed C d \<Longrightarrow> da_extends C (flush_first d)"
  unfolding flush_first_def by (intro extends_intros extends_Some emitFirstSegments_extends call_dashed)

lemma next_dash_extends: "dashed C d \<Longrightarrow> da_extends C (next_dash d)"
  by (auto simp: next_dash_def extends_def bind_eq_Some_conv)

lemma Dasher_MoveTo_extends: "dashed C d \<Longrightarrow> da_extends C (Dasher_MoveTo x y d)"
  unfolding Dasher_MoveTo_def by (intro extends_then extends_Some flush_first_extends) simp_all

lemma dash_line_dashed:
  assumes "dash_line env x1 y1 cx cy len d = Some d'" "dashed C d"
  shows "dashed C d'"
proof -
  have "dashed C d \<longrightarrow> dashed C d'"
  proof (rule dash_line.raw_induct [where P = "\<lambda>env x1 y1 cx cy len d d'. dashed C d \<longrightarrow> dashed C d'", OF _ assms(1)], goal_cases)
    case (1 f env x1 y1 cx cy len d d')
    have IH: "dashed C t \<Longrightarrow> da_extends C (f env x1 y1 cx cy l t)" for l t using 1(1) by (simp add: extends_def)
    have "dashed C d \<Longrightarrow> da_extends C (Some d')"
      unfolding 1(2) [symmetric]
      by (intro array_extends extends_intros extends_then extends_Some goTo_extends next_dash_extends IH) simp_all
    then show ?case by (simp add: extends_def)
  qed
  then show ?thesis using assms(2) by simp
qed

lemma Dasher_LineTo_extends: "dashed C d \<Longrightarrow> da_extends C (Dasher_LineTo env x1 y1 d)"
  by (auto simp: Dasher_LineTo_def Let_def extends_def dest: dash_line_dashed)

lemma dash_curve_dashed:
  assumes "dash_curve env type off splitT left d = Some r" "dashed C d"
  shows "dashed C (snd r)"
proof -
  have "dashed C d \<longrightarrow> dashed C (snd r)"
  proof (rule dash_curve.raw_induct [where P = "\<lambda>env type off splitT left d r. dashed C d \<longrightarrow> dashed C (snd r)", OF _ assms(1)], goal_cases)
    case (1 f env type off splitT left d r)
    obtain t li where li: "LInext (de_math env) left (da_li d) = Some (t, li)" using 1(2) by (auto simp: bind_eq_Some_conv)
    show ?case
    proof (intro impI, cases "fp_less t (fint 1)")
      assume d: "dashed C d" and "\<not> fp_less t (fint 1)"
      then show "dashed C (snd r)" using 1(2) li by (auto simp: Let_def)
    next
      assume d: "dashed C d" and "fp_less t (fint 1)"
      then obtain off' splitT' u v e where u: "(if \<not> fp_eq t (fint 0) then Option.bind
            (Helpers_subdivideAt (fdiv (fsub t splitT) (fsub (fint 1) splitT)) (da_curCurvepts d) off 0 type type)
            (\<lambda>pts. Option.bind (goTo (de_alloc env) pts 2 type (d\<lparr>da_li := li, da_curCurvepts := pts\<rparr>)) (\<lambda>this. Some (type, t, this)))
          else Some (off, splitT, d\<lparr>da_li := li\<rparr>)) = Some (off', splitT', u)"
        and v: "next_dash u = Some v" "f env type off' splitT' e v = Some r"
        using 1(2) li by (auto simp: bind_eq_Some_conv Let_def split: if_splits)
      have "dashed C u"
        using u d goTo_extends [of C "d\<lparr>da_li := li, da_curCurvepts := pts\<rparr>" for pts]
        by (auto simp: bind_eq_Some_conv extends_def split: if_splits)
      then have "dashed C v" using v(1) next_dash_extends [of C u] by (simp add: extends_def)
      then show "dashed C (snd r)" using 1(1) [OF v(2)] by simp
    qed
  qed
  then show ?thesis using assms(2) by simp
qed

lemma somethingTo_extends: "dashed C d \<Longrightarrow> da_extends C (somethingTo env type d)"
  unfolding somethingTo_def
  by (rule extends_bind, intro extends_intros extends_Some, assumption, rule extends_bind, intro array_extends, rule extends_bind,
      intro extends_intros extends_then goTo_extends array_extends next_dash_extends extends_Some)
    (auto dest: dash_curve_dashed)

lemma Dasher_CurveTo_extends: "dashed C d \<Longrightarrow> da_extends C (Dasher_CurveTo env x1 y1 x2 y2 x3 y3 d)"
  unfolding Dasher_CurveTo_def by (intro array_extends somethingTo_extends) simp

lemma Dasher_QuadTo_extends: "dashed C d \<Longrightarrow> da_extends C (Dasher_QuadTo env x1 y1 x2 y2 d)"
  unfolding Dasher_QuadTo_def by (intro array_extends somethingTo_extends) simp

lemma Dasher_ClosePath_extends: "dashed C d \<Longrightarrow> da_extends C (Dasher_ClosePath env d)"
  unfolding Dasher_ClosePath_def
  by (intro extends_then extends_if extends_Some Dasher_LineTo_extends emitFirstSegments_extends Dasher_MoveTo_extends)
    (simp_all add: call_dashed)

lemma Dasher_PathDone_extends: "dashed C d \<Longrightarrow> da_extends C (Dasher_PathDone d)"
  unfolding Dasher_PathDone_def by (intro extends_then extends_Some flush_first_extends call_dashed)

lemma Dasher_consumer_extends: "dashed C d \<Longrightarrow> da_extends C (Dasher_consumer env p d)"
  by (cases p) (simp_all add: Dasher_MoveTo_extends Dasher_LineTo_extends Dasher_QuadTo_extends Dasher_CurveTo_extends
      Dasher_ClosePath_extends Dasher_PathDone_extends)

interpretation dr: relay "Dasher_consumer env" da_calls for env
  using Dasher_consumer_extends [OF prefix_order.refl] by unfold_locales (auto simp: extends_def)

end
