(* ===== verification/Prism_Stroke.thy ===== *)
theory Prism_Stroke
  imports Prism_Stroker Prism_Dasher
begin

text \<open>
  The entry point of \<^verbatim>\<open>NativePiscesRasterizer.c\<close> for stroked paths: the path goes through the dasher, if there are dashes, the
  stroker and the transformer to the scan converter.
\<close>

text \<open>
  What the stroke takes from its environment besides what filling takes: the mathematical library, the bits of NaN, and the contents of the
  static arrays of \<^verbatim>\<open>Stroker.c\<close>.
\<close>

record stroke_statics =
  sa_math :: math_lib
  sa_nan :: jint
  sa_middle :: "jfloat list"
  sa_lp :: "jfloat list"
  sa_rp :: "jfloat list"
  sa_subdivTs :: "jfloat list"

text \<open>The arguments of the call that describe the stroke.\<close>

record stroke_style =
  linewidth :: jfloat
  linecap :: jint
  linejoin :: jint
  miterlimit :: jfloat
  dashArray :: "jfloat list option"
  dashphase :: jfloat

definition stroker_env :: "raster_env \<Rightarrow> stroke_statics \<Rightarrow> stroke_env" where
  "stroker_env env sa = \<lparr>se_alloc = re_alloc env, se_math = sa_math sa, se_nan = sa_nan sa\<rparr>"

definition dasher_env :: "raster_env \<Rightarrow> stroke_statics \<Rightarrow> dash_env" where
  "dasher_env env sa = \<lparr>de_alloc = re_alloc env, de_math = sa_math sa\<rparr>"

definition new_stroker :: "raster_env \<Rightarrow> stroke_statics \<Rightarrow> stroke_style \<Rightarrow> stroker" where
  "new_stroker env sa st =
     Stroker_init (stroker_env env sa) (sa_middle sa) (sa_lp sa) (sa_rp sa) (sa_subdivTs sa)
       (linewidth st) (linecap st) (linejoin st) (miterlimit st)"

text \<open>If the dashes cannot be pinned the call returns at once.\<close>

definition produceStrokeAlphas ::
    "raster_env \<Rightarrow> stroke_statics \<Rightarrow> raster_globals \<Rightarrow> jfloat list option \<Rightarrow> jbyte list option \<Rightarrow> jint \<Rightarrow> stroke_style \<Rightarrow> transformer \<Rightarrow>
     jint list option \<Rightarrow> jbyte list option \<Rightarrow> raster_result option" where
  "produceStrokeAlphas env sa g coordsArray commandsArray numCommands st m boundsArray maskArray =
     (let r = \<lparr>rr_bounds = (case boundsArray of None \<Rightarrow> [] | Some b \<Rightarrow> b),
               rr_mask = (case maskArray of None \<Rightarrow> [] | Some b \<Rightarrow> b), rr_thrown = None\<rparr>
      in case check_arrays coordsArray commandsArray numCommands boundsArray maskArray of
           Some e \<Rightarrow> Some (Throw env e r)
         | None \<Rightarrow>
             (let bounds = rr_bounds r; coords = the coordsArray; commands = the commandsArray;
                  out = (\<lambda>p. Renderer_consumer (re_alloc env) g (transformed (Transformer_init m) m p));
                  stroke = through (Stroker_consumer (stroker_env env sa)) st_calls out;
                  stroker = new_stroker env sa st;
                  result = (\<lambda>failure renderer. case failure of
                       None \<Rightarrow> produce_mask env g ''Mask'' renderer r
                     | Some f \<Rightarrow> Some (report_failure env f r))
              in do {
                renderer \<leftarrow> Renderer_reset (re_alloc env) g (bounds ! 0) (bounds ! 1)
                  (i32 (bounds ! 2 - bounds ! 0)) (i32 (bounds ! 3 - bounds ! 1)) WIND_NON_ZERO Renderer_init;
                case dashArray st of
                  None \<Rightarrow> do {
                    (failure, stroker, renderer) \<leftarrow> feedConsumer env stroke coords (int (length coords)) commands numCommands (stroker, renderer);
                    result failure renderer
                  }
                | Some dashes \<Rightarrow>
                    (if \<not> re_dashes env then Some r
                     else do {
                       dasher \<leftarrow> Dasher_init (dasher_env env sa) dashes (int (length dashes)) (dashphase st);
                       (failure, dasher, stroker, renderer) \<leftarrow>
                         feedConsumer env (through (Dasher_consumer (dasher_env env sa)) da_calls stroke)
                           coords (int (length coords)) commands numCommands (dasher, stroker, renderer);
                       result failure renderer
                     })
              }))"

end
