(* ===== verification/Prism_Feed.thy ===== *)
theory Prism_Feed
  imports Prism_Flatten
begin

text \<open>
  Reading a path: \<^verbatim>\<open>feedConsumer\<close> makes exactly the calls that the commands and coordinates stand for, up to the first
  command that cannot be read.
\<close>

section \<open>Reading a path\<close>

text \<open>
  The calls a path stands for, and the failure its reading ends with: a command that is none, or one with too few
  coordinates left.
\<close>

fun prefix_op :: "path_op \<Rightarrow> path_op list \<times> string option \<Rightarrow> path_op list \<times> string option" where
  "prefix_op p (ps, f) = (p # ps, f)"

fun parse_path :: "jbyte list \<Rightarrow> jfloat list \<Rightarrow> path_op list \<times> string option" where
  "parse_path [] cs = ([], None)"
| "parse_path (cmd # cmds) cs =
     (if cmd = SEG_MOVETO then
        (case cs of x # y # cs \<Rightarrow> prefix_op (MoveTo x y) (parse_path cmds cs)
         | _ \<Rightarrow> ([], Some ''[not enough coordinates for moveTo''))
      else if cmd = SEG_LINETO then
        (case cs of x # y # cs \<Rightarrow> prefix_op (LineTo x y) (parse_path cmds cs)
         | _ \<Rightarrow> ([], Some ''[not enough coordinates for lineTo''))
      else if cmd = SEG_QUADTO then
        (case cs of xc # yc # x # y # cs \<Rightarrow> prefix_op (QuadTo xc yc x y) (parse_path cmds cs)
         | _ \<Rightarrow> ([], Some ''[not enough coordinates for quadTo''))
      else if cmd = SEG_CUBICTO then
        (case cs of xc0 # yc0 # xc1 # yc1 # x # y # cs \<Rightarrow> prefix_op (CurveTo xc0 yc0 xc1 yc1 x y) (parse_path cmds cs)
         | _ \<Rightarrow> ([], Some ''[not enough coordinates for curveTo''))
      else if cmd = SEG_CLOSE then prefix_op ClosePath (parse_path cmds cs)
      else ([], Some ''unrecognized Path segment''))"

lemma drop_more: "n < length xs \<Longrightarrow> drop n xs = xs ! n # drop (n + 1) xs"
  by (simp add: Cons_nth_drop_Suc)

lemma drop2: "n + 2 \<le> length xs \<Longrightarrow> drop n xs = xs ! n # xs ! (n + 1) # drop (n + 2) xs"
  by (simp add: drop_more)

lemma drop4: "n + 4 \<le> length xs \<Longrightarrow> drop n xs = xs ! n # xs ! (n + 1) # xs ! (n + 2) # xs ! (n + 3) # drop (n + 4) xs"
  using drop2 [of n xs] drop2 [of "n + 2" xs] by (simp add: numeral_eq_Suc)

lemma drop6: "n + 6 \<le> length xs \<Longrightarrow>
    drop n xs = xs ! n # xs ! (n + 1) # xs ! (n + 2) # xs ! (n + 3) # xs ! (n + 4) # xs ! (n + 5) # drop (n + 6) xs"
  using drop4 [of n xs] drop2 [of "n + 4" xs] by (simp add: numeral_eq_Suc)

lemma short_cases:
  "length cs < 2 \<Longrightarrow> (case cs of x # y # cs \<Rightarrow> A2 x y cs | _ \<Rightarrow> B) = B"
  "length cs < 4 \<Longrightarrow> (case cs of x # y # u # v # cs \<Rightarrow> A4 x y u v cs | _ \<Rightarrow> B) = B"
  "length cs < 6 \<Longrightarrow> (case cs of x # y # u # v # w # z # cs \<Rightarrow> A6 x y u v w z cs | _ \<Rightarrow> B) = B"
  by (auto split: list.splits)

lemma feed_command_cases:
  assumes n: "n \<le> length coords" and len: "int (length coords) + 6 < 2 ^ 31"
  obtains p m where "parse_path (cmd # cmds) (drop n coords) = prefix_op p (parse_path cmds (drop m coords))"
    "feed_command consume coords (int (length coords)) cmd (int n) s = Option.bind (consume p s) (\<lambda>s. Some (None, int m, s))"
    "m \<le> length coords"
  | f where "parse_path (cmd # cmds) (drop n coords) = ([], Some f)"
    "feed_command consume coords (int (length coords)) cmd (int n) s = Some (Some f, int n, s)"
proof -
  have i: "i32 (int n + 1) = int (n + 1)" "i32 (int n + 2) = int (n + 2)" "i32 (int n + 3) = int (n + 3)" "i32 (int n + 4) = int (n + 4)"
    "i32 (int n + 5) = int (n + 5)" "i32 (int n + 6) = int (n + 6)"
    using assms by (simp_all add: i32_small)
  have nn: "nat (1 + int n) = n + 1" "nat (2 + int n) = n + 2" "nat (3 + int n) = n + 3" "nat (4 + int n) = n + 4" "nat (5 + int n) = n + 5"
    "nat (int n + 2) = n + 2" "nat (int n + 3) = n + 3" "nat (int n + 4) = n + 4" "nat (int n + 5) = n + 5"
    by simp_all
  note ev = feed_command_def i nn
  consider "cmd = 0" | "cmd = 1" | "cmd = 2" | "cmd = 3" | "cmd = 4" | "cmd \<notin> {0, 1, 2, 3, 4}" by auto
  then show thesis
  proof cases
    case 1
    show thesis
    proof (cases "n + 2 \<le> length coords")
      case True
      then show thesis using 1
        by (intro that(1) [of "MoveTo (coords ! n) (coords ! (n + 1))" "n + 2"]) (simp_all add: ev drop2 [of n coords])
    next
      case False
      then show thesis using 1 by (intro that(2)) (simp_all add: ev short_cases)
    qed
  next
    case 2
    show thesis
    proof (cases "n + 2 \<le> length coords")
      case True
      then show thesis using 2
        by (intro that(1) [of "LineTo (coords ! n) (coords ! (n + 1))" "n + 2"]) (simp_all add: ev drop2 [of n coords])
    next
      case False
      then show thesis using 2 by (intro that(2)) (simp_all add: ev short_cases)
    qed
  next
    case 3
    show thesis
    proof (cases "n + 4 \<le> length coords")
      case True
      then show thesis using 3
        by (intro that(1) [of "QuadTo (coords ! n) (coords ! (n + 1)) (coords ! (n + 2)) (coords ! (n + 3))" "n + 4"])
          (simp_all add: ev drop4 [of n coords])
    next
      case False
      then show thesis using 3 by (intro that(2)) (simp_all add: ev short_cases)
    qed
  next
    case 4
    show thesis
    proof (cases "n + 6 \<le> length coords")
      case True
      then show thesis using 4
        by (intro that(1) [of "CurveTo (coords ! n) (coords ! (n + 1)) (coords ! (n + 2)) (coords ! (n + 3))
              (coords ! (n + 4)) (coords ! (n + 5))" "n + 6"])
          (simp_all add: ev drop6 [of n coords])
    next
      case False
      then show thesis using 4 by (intro that(2)) (simp_all add: ev short_cases)
    qed
  next
    case 5
    then show thesis using n by (intro that(1) [of ClosePath n]) (simp_all add: ev)
  next
    case 6
    then show thesis by (intro that(2)) (simp_all add: ev)
  qed
qed

lemma feed_loop_eq:
  assumes len: "int (length coords) + 6 < 2 ^ 31" and i: "i + m \<le> length commands" and n: "n \<le> length coords"
  shows "map_option (\<lambda>(f, k, s). (f, s)) (iter_from (int i) m (\<lambda>cmdoff (failure, coordoff, s).
          if failure \<noteq> None then Some (failure, coordoff, s)
          else do {
            cmd \<leftarrow> rd commands cmdoff;
            feed_command consume coords (int (length coords)) cmd coordoff s
          }) (None, int n, s)) =
    (case parse_path (take m (drop i commands)) (drop n coords) of (ps, f) \<Rightarrow> map_option (\<lambda>s. (f, s)) (runs consume ps s))"
proof -
  let ?body = "\<lambda>cmdoff (failure, coordoff, s).
          if failure \<noteq> None then Some (failure, coordoff, s)
          else do {
            cmd \<leftarrow> rd commands cmdoff;
            feed_command consume coords (int (length coords)) cmd coordoff s
          }"
  have stop: "iter_from j k ?body (Some f, n', s') = Some (Some f, n', s')" for j k f n' s'
    by (induction k arbitrary: j) auto
  show ?thesis using i n
  proof (induction m arbitrary: i n s)
    case 0
    then show ?case by simp
  next
    case (Suc m)
    have cmd: "rd commands (int i) = Some (commands ! i)" "take (Suc m) (drop i commands) = commands ! i # take m (drop (Suc i) commands)"
      using Suc.prems by (simp_all add: Cons_nth_drop_Suc [symmetric])
    show ?case
    proof (cases rule: feed_command_cases [OF Suc.prems(2) len, where cmd = "commands ! i" and s = s and consume = consume
        and cmds = "take m (drop (Suc i) commands)"])
      case (1 p k)
      then show ?thesis
        using Suc.IH [of "Suc i" k] Suc.prems
        by (cases "consume p s"; cases "parse_path (take m (drop (Suc i) commands)) (drop k coords)")
          (simp_all add: cmd add.commute del: not_None_eq parse_path.simps)
    next
      case (2 f)
      then show ?thesis using cmd by (simp add: stop del: not_None_eq parse_path.simps)
    qed
  qed
qed

lemma feedConsumer_eq:
  assumes "int (length coords) + 6 < 2 ^ 31" "numCommands \<le> int (length commands)" "re_coords env" "re_commands env"
  shows "feedConsumer env consume coords (int (length coords)) commands numCommands s =
    (case parse_path (take (nat numCommands) commands) coords of
       (ps, None) \<Rightarrow> map_option (\<lambda>s. (None, s)) (runs consume (ps @ [PathDone]) s)
     | (ps, Some f) \<Rightarrow> map_option (\<lambda>s. (Some f, s)) (runs consume ps s))"
proof -
  obtain ps f where pf: "parse_path (take (nat numCommands) commands) coords = (ps, f)" by fastforce
  let ?loop = "for_loop numCommands (\<lambda>cmdoff (failure, coordoff, s).
          if failure \<noteq> None then Some (failure, coordoff, s)
          else do {
            cmd \<leftarrow> rd commands cmdoff;
            feed_command consume coords (int (length coords)) cmd coordoff s
          }) (None, 0, s)"
  have "map_option (\<lambda>(f, k, s). (f, s)) ?loop = map_option (\<lambda>s. (f, s)) (runs consume ps s)"
    using feed_loop_eq [of coords 0 "nat numCommands" commands 0 consume s] assms pf by (simp add: for_loop_def)
  then have "Option.bind ?loop (\<lambda>(f, k, s). h f s) = Option.bind (runs consume ps s) (h f)" for h
    by (cases ?loop; cases "runs consume ps s") auto
  note this [of "\<lambda>failure s. if failure = None then do { s \<leftarrow> consume PathDone s; Some (None, s) } else Some (failure, s)"]
  then have "feedConsumer env consume coords (int (length coords)) commands numCommands s =
      Option.bind (runs consume ps s) (\<lambda>s. if f = None then do { s \<leftarrow> consume PathDone s; Some (None, s) } else Some (f, s))"
    using assms(3,4) by (simp only: feedConsumer_def not_True_eq_False if_False)
  then show ?thesis by (auto simp: pf runs_append split: option.splits bind_splits)
qed

text \<open>
  C24: reading a path makes the calls the path stands for. For every consumer, the loop over the commands does what calling
  the consumer for each operation of the parsed path does, in order, and reports the failure the parse ends with; the
  end of the path is announced only when there was none.
\<close>

theorem feedConsumer_parses:
  assumes "int (length coords) + 6 < 2 ^ 31" "numCommands \<le> int (length commands)" "re_coords env" "re_commands env"
  shows "feedConsumer env consume coords (int (length coords)) commands numCommands s =
    (case parse_path (take (nat numCommands) commands) coords of
       (ps, None) \<Rightarrow> map_option (\<lambda>s. (None, s)) (runs consume (ps @ [PathDone]) s)
     | (ps, Some f) \<Rightarrow> map_option (\<lambda>s. (Some f, s)) (runs consume ps s))"
  by (rule feedConsumer_eq [OF assms])

theorem feedConsumer_parses_witness:
  "feedConsumer \<lparr>re_alloc = \<lambda>_. True, re_saved = [], re_coords = True, re_commands = True, re_dashes = True, re_mask = True, re_class = True\<rparr>
     (\<lambda>p ps. Some (ps @ [p])) [fint 1, fint 2, fint 3] 3 [0, 1] 2 [] =
   Some (Some ''[not enough coordinates for lineTo'', [MoveTo (fint 1) (fint 2)])"
  using feedConsumer_parses [of "[fint 1, fint 2, fint 3]" 2 "[0, 1]"
    "\<lparr>re_alloc = \<lambda>_. True, re_saved = [], re_coords = True, re_commands = True, re_dashes = True, re_mask = True, re_class = True\<rparr>"
    "\<lambda>p ps. Some (ps @ [p])" "[]"] by simp

end
