(* ===== verification/Prism_Scan.thy ===== *)
theory Prism_Scan
  imports Prism_Feed "HOL-Library.Multiset"
begin

text \<open>
  The sample rows. \<open>row_crossings\<close> are the crossings of a row as the edges define them; \<^verbatim>\<open>ScanlineIterator_next\<close> drops the
  edges that end, takes in those that begin, moves every edge by its slope and leaves exactly these crossings
  in ascending order.
\<close>

section \<open>Crossings\<close>

fun edge_walk :: "edge \<Rightarrow> nat \<Rightarrow> jfloat" where
  "edge_walk e 0 = e_x e"
| "edge_walk e (Suc n) = fadd (edge_walk e n) (e_slope e)"

definition edge_at :: "edge \<Rightarrow> int \<Rightarrow> jfloat" where
  "edge_at e y = edge_walk e (nat (y - e_first e))"

definition crossing_of :: "jfloat \<Rightarrow> bool \<Rightarrow> jint" where
  "crossing_of x up = (let c = i32 (2 * sample_ceil x) in if up then c OR 1 else c)"

definition active :: "edge list \<Rightarrow> int \<Rightarrow> nat list" where
  "active E y = filter (\<lambda>k. e_first (E ! k) \<le> y \<and> y < e_last (E ! k)) [0..<length E]"

definition row_crossings :: "edge list \<Rightarrow> int \<Rightarrow> jint list" where
  "row_crossings E y = map (\<lambda>k. crossing_of (edge_at (E ! k) y) (e_up (E ! k))) (active E y)"

text \<open>The abscissa the edge list holds before row \<open>y\<close>.\<close>

definition scan_x :: "edge list \<Rightarrow> int \<Rightarrow> nat \<Rightarrow> jfloat" where
  "scan_x E y k = edge_at (E ! k) (max (e_first (E ! k)) (min y (e_last (E ! k))))"

section \<open>Edges that end\<close>

definition ptr_of :: "nat \<Rightarrow> jint" where
  "ptr_of k = int (5 * k)"

definition ptrs_ok :: "edge list \<Rightarrow> jint list \<Rightarrow> bool" where
  "ptrs_ok E ps \<longleftrightarrow> set ps \<subseteq> ptr_of ` {..<length E}"

definition edge_of :: "edge list \<Rightarrow> jint \<Rightarrow> edge" where
  "edge_of E p = E ! nat (p div 5)"

lemma edge_of_ptr [simp]: "edge_of E (ptr_of k) = E ! k"
  by (simp add: edge_of_def ptr_of_def)

definition small_edges :: "int \<Rightarrow> int \<Rightarrow> edge list \<Rightarrow> bool" where
  "small_edges ya yb E \<longleftrightarrow> row_range ya yb \<and> 5 * int (length E) < 2 ^ 24 \<and>
     (\<forall>e \<in> set E. ya \<le> e_first e \<and> e_first e < e_last e \<and> e_last e \<le> yb)"

lemma ptr_fields:
  assumes "small_edges ya yb E" "fields_at es E cx" "p = ptr_of k" "k < length E"
  shows "i32 p = p" "i32 (p + 1) = p + 1" "i32 (p + 2) = p + 2" "i32 (p + 3) = p + 3"
    "rd es p = Some (fint (e_last (E ! k)))" "rd es (p + 1) = Some (cx k)"
    "rd es (p + 2) = Some (fint (if e_up (E ! k) then 1 else 0))" "rd es (p + 3) = Some (e_slope (E ! k))"
proof -
  have len: "5 * k + 4 < length es" "5 * int k + 4 < 2 ^ 24"
    using assms by (auto simp: fields_at_def small_edges_def)
  have nn: "nat (5 * int k + 1) = 5 * k + 1" "nat (5 * int k + 2) = 5 * k + 2" "nat (5 * int k + 3) = 5 * k + 3" "nat (5 * int k) = 5 * k"
    by simp_all
  show "i32 p = p" "i32 (p + 1) = p + 1" "i32 (p + 2) = p + 2" "i32 (p + 3) = p + 3"
    using len assms(3) by (simp_all add: ptr_of_def i32_small)
  show "rd es p = Some (fint (e_last (E ! k)))" "rd es (p + 1) = Some (cx k)"
    "rd es (p + 2) = Some (fint (if e_up (E ! k) then 1 else 0))" "rd es (p + 3) = Some (e_slope (E ! k))"
    using assms len by (simp_all add: ptr_of_def fields_at_def nn)
qed

lemma drop_finished_ok:
  assumes E: "small_edges ya yb E" "fields_at es E cx" and ps: "ptrs_ok E (take n ptrs)" "n \<le> length ptrs" and y: "\<bar>y\<bar> < 2 ^ 24"
  obtains ptrs' where
    "drop_finished es y (int n) ptrs = Some (int (length (filter (\<lambda>p. y < e_last (edge_of E p)) (take n ptrs))), ptrs')"
    "take (length (filter (\<lambda>p. y < e_last (edge_of E p)) (take n ptrs))) ptrs' = filter (\<lambda>p. y < e_last (edge_of E p)) (take n ptrs)"
    "length ptrs' = length ptrs"
proof -
  let ?P = "\<lambda>p. y < e_last (edge_of E p)"
  define inv where "inv i st \<longleftrightarrow> (case st of (c, qs) \<Rightarrow> c = int (length (filter ?P (take (nat i) ptrs))) \<and>
     take (nat c) qs = filter ?P (take (nat i) ptrs) \<and> drop (nat i) qs = drop (nat i) ptrs \<and> length qs = length ptrs)"
    for i :: int and st :: "int \<times> int list"
  have "\<exists>t. drop_finished es y (int n) ptrs = Some t \<and> inv (int n) t"
    unfolding drop_finished_def
  proof (rule for_loop_inv)
    show "inv 0 (0, ptrs)" by (simp add: inv_def)
    fix i and st :: "int \<times> int list" assume i: "0 \<le> i" "i < int n" and inv: "inv i st"
    obtain c qs where st: "st = (c, qs)" by fastforce
    define j where "j = nat i"
    have j: "i = int j" "j < n" using i by (auto simp: j_def)
    have q: "c = int (length (filter ?P (take j ptrs)))" "take (nat c) qs = filter ?P (take j ptrs)"
      "drop j qs = drop j ptrs" "length qs = length ptrs"
      using inv by (auto simp: inv_def st j)
    have "take n ptrs ! j \<in> set (take n ptrs)" using j ps(2) by (intro nth_mem) simp
    then have "ptrs ! j \<in> set (take n ptrs)" using j by simp
    then obtain k where k: "ptrs ! j = ptr_of k" "k < length E" using ps(1) by (auto simp: ptrs_ok_def)
    have e: "\<bar>e_last (E ! k)\<bar> < 2 ^ 24" using E(1) nth_mem [OF k(2)] by (force simp: small_edges_def row_range_def)
    have "qs ! j = ptrs ! j" using q(3,4) j ps(2) by (metis hd_drop_conv_nth less_le_trans)
    then have r: "rd qs i = Some (ptr_of k)" "rd es (i32 (ptr_of k)) = Some (fint (e_last (E ! k)))"
      using j ps(2) q(4) k ptr_fields [OF E refl k(2)] by simp_all
    have dr: "drop (Suc j) qs = drop (Suc j) ptrs" using q(3) by (metis drop_drop plus_1_eq_Suc)
    have le: "nat c \<le> j" using q(1) length_filter_le [of ?P "take j ptrs"] by simp
    have tk: "take (Suc j) ptrs = take j ptrs @ [ptr_of k]" using j ps(2) k by (simp add: take_Suc_conv_app_nth)
    show "\<exists>t'. (case st of (newCount, ptrs) \<Rightarrow> do {
       ecur \<leftarrow> rd ptrs i;
       ymax \<leftarrow> rd es (i32 (ecur + YMAX));
       if fp_less (fint y) ymax then do {
         ptrs \<leftarrow> wr ptrs newCount ecur;
         Some (newCount + 1, ptrs)
       }
       else Some (newCount, ptrs)
     }) = Some t' \<and> inv (i + 1) t'"
    proof (cases "y < e_last (E ! k)")
      case True
      have w: "wr qs c (ptr_of k) = Some (qs[nat c := ptr_of k])" using le j ps(2) q by (simp add: wr_def)
      have "take (Suc (nat c)) (qs[nat c := ptr_of k]) = take (nat c) qs @ [ptr_of k]"
        using le j ps(2) q(4) by (simp add: take_Suc_conv_app_nth)
      moreover have "drop (Suc j) (qs[nat c := ptr_of k]) = drop (Suc j) ptrs"
        using le dr by (simp add: drop_update_cancel)
      ultimately have "inv (i + 1) (c + 1, qs[nat c := ptr_of k])"
        using q True by (simp add: inv_def j nat_add_distrib tk)
      then show ?thesis using r w True fp_less_fint [OF y e] by (simp add: st)
    next
      case False
      have "inv (i + 1) (c, qs)" using q dr False by (simp add: inv_def j nat_add_distrib tk)
      then show ?thesis using r False fp_less_fint [OF y e] by (simp add: st)
    qed
  qed simp
  then show thesis using that by (auto simp: inv_def)
qed


section \<open>Edges that begin\<close>

lemma append_bucket_ok:
  assumes "edge_chain es h ks" "\<forall>k \<in> set ks. 5 * int k + 5 < 2 ^ 24" "n + length ks \<le> length ptrs"
  shows "append_bucket es h (int n) ptrs =
    Some (int (n + length ks), take n ptrs @ map ptr_of ks @ drop (n + length ks) ptrs)"
  using assms
proof (induction ks arbitrary: h n ptrs)
  case Nil
  then show ?case by (subst append_bucket.simps) simp
next
  case (Cons k ks)
  let ?qs = "ptrs[n := ptr_of k]"
  have h: "h = int (5 * k) + 1" "5 * k + 4 < length es" "edge_chain es (fp_to_jint (es ! (5 * k + 4))) ks"
    using Cons.prems(1) by auto
  have k: "5 * int k + 5 < 2 ^ 24" using Cons.prems(2) by simp
  have i: "i32 (h - 1) = ptr_of k" "i32 (h - 1 + NEXT) = int (5 * k + 4)"
    using k by (simp_all add: h(1) ptr_of_def i32_small)
  have ih: "append_bucket es (fp_to_jint (es ! (5 * k + 4))) (int (Suc n)) ?qs =
      Some (int (Suc n + length ks), take (Suc n) ?qs @ map ptr_of ks @ drop (Suc n + length ks) ?qs)"
    using Cons.prems h(3) by (intro Cons.IH) auto
  have "take (Suc n) ?qs = take n ptrs @ [ptr_of k]" "drop (Suc n + length ks) ?qs = drop (n + length (k # ks)) ptrs"
    using Cons.prems(3) by (simp_all add: take_Suc_conv_app_nth)
  moreover have "nat (4 + 5 * int k) = 4 + 5 * k" by simp
  ultimately show ?case
    using ih i h(2) Cons.prems(3) by (subst append_bucket.simps) (simp add: h(1) add.commute del: append_bucket.simps)
qed

section \<open>Sorting the crossings\<close>

lemma insert_crossing_split:
  assumes "j < length xs" "j < length ps"
  shows "\<exists>m \<le> j. insert_crossing j c p xs ps =
      Some (take m xs @ c # take (j - m) (drop m xs) @ drop (Suc j) xs, take m ps @ p # take (j - m) (drop m ps) @ drop (Suc j) ps) \<and>
      (\<forall>i. m \<le> i \<and> i < j \<longrightarrow> c < xs ! i) \<and> (0 < m \<longrightarrow> xs ! (m - 1) \<le> c)"
  using assms
proof (induction j arbitrary: xs ps)
  case 0
  then show ?case by (simp add: upd_conv_take_nth_drop)
next
  case (Suc j)
  have rd: "rd xs (int j) = Some (xs ! j)" "rd ps (int j) = Some (ps ! j)" using Suc.prems by simp_all
  have wr: "wr xs (int j + 1) v = Some (xs[Suc j := v])" "wr ps (int j + 1) w = Some (ps[Suc j := w])" for v w
    using Suc.prems by (simp_all add: wr_def nat_add_distrib)
  show ?case
  proof (cases "xs ! j \<le> c")
    case True
    then show ?thesis
      using Suc.prems by (intro exI [of _ "Suc j"]) (simp add: rd wr upd_conv_take_nth_drop)
  next
    case False
    let ?xs = "xs[Suc j := xs ! j]" and ?ps = "ps[Suc j := ps ! j]"
    obtain m where m: "m \<le> j" "insert_crossing j c p ?xs ?ps =
        Some (take m ?xs @ c # take (j - m) (drop m ?xs) @ drop (Suc j) ?xs, take m ?ps @ p # take (j - m) (drop m ?ps) @ drop (Suc j) ?ps)"
      "\<forall>i. m \<le> i \<and> i < j \<longrightarrow> c < ?xs ! i" "0 < m \<longrightarrow> ?xs ! (m - 1) \<le> c"
    proof -
      have "j < length ?xs" "j < length ?ps" using Suc.prems by simp_all
      from Suc.IH [OF this] show thesis using that by blast
    qed
    have shift: "take (j - m) (drop m (zs[Suc j := zs ! j])) @ drop (Suc j) (zs[Suc j := zs ! j]) =
        take (Suc j - m) (drop m zs) @ drop (Suc (Suc j)) zs" if "Suc j < length zs" for zs :: "jint list"
    proof -
      have "drop (Suc j) (zs[Suc j := zs ! j]) = zs ! j # drop (Suc (Suc j)) zs"
        using that by (simp add: drop_update_swap Cons_nth_drop_Suc [symmetric])
      moreover have "take (Suc j - m) (drop m zs) = take (j - m) (drop m zs) @ [zs ! j]"
        using that m(1) by (simp add: Suc_diff_le take_Suc_conv_app_nth)
      moreover have "take (j - m) (drop m (zs[Suc j := zs ! j])) = take (j - m) (drop m zs)"
        using m(1) by (simp add: drop_update_swap take_update_cancel)
      ultimately show ?thesis by simp
    qed
    have "insert_crossing (Suc j) c p xs ps =
        Some (take m xs @ c # take (Suc j - m) (drop m xs) @ drop (Suc (Suc j)) xs,
              take m ps @ p # take (Suc j - m) (drop m ps) @ drop (Suc (Suc j)) ps)"
      using False m(1,2) shift [of xs] shift [of ps] Suc.prems by (simp add: rd wr)
    moreover have "\<forall>i. m \<le> i \<and> i < Suc j \<longrightarrow> c < xs ! i"
      using m(3) False by (metis less_Suc_eq not_le nth_list_update_neq less_irrefl less_SucI)
    moreover have "0 < m \<longrightarrow> xs ! (m - 1) \<le> c" using m(1,4) by simp
    ultimately show ?thesis using m(1) by (intro exI [of _ m]) simp
  qed
qed

lemma insert_crossing_ok:
  assumes "j < length xs" "j < length ps" "sorted (take j xs)"
  obtains xs' ps' where "insert_crossing j c p xs ps = Some (xs', ps')" "length xs' = length xs" "length ps' = length ps"
    "sorted (take (Suc j) xs')" "drop (Suc j) ps' = drop (Suc j) ps"
    "mset (zip (take (Suc j) xs') (take (Suc j) ps')) = add_mset (c, p) (mset (zip (take j xs) (take j ps)))"
proof -
  obtain m where m: "m \<le> j" "insert_crossing j c p xs ps =
      Some (take m xs @ c # take (j - m) (drop m xs) @ drop (Suc j) xs, take m ps @ p # take (j - m) (drop m ps) @ drop (Suc j) ps)"
      "\<forall>i. m \<le> i \<and> i < j \<longrightarrow> c < xs ! i" "0 < m \<longrightarrow> xs ! (m - 1) \<le> c"
    using insert_crossing_split [OF assms(1,2)] by blast
  let ?a = "take m xs" and ?b = "take (j - m) (drop m xs)" and ?u = "take m ps" and ?v = "take (j - m) (drop m ps)"
  have ab: "take j xs = ?a @ ?b" "take j ps = ?u @ ?v"
    using m(1) take_add [of m "j - m"] by simp_all
  have len: "length ?a = m" "length ?b = j - m" "length ?u = m" "length ?v = j - m" using m(1) assms(1,2) by simp_all
  have lo: "x \<le> c" if mem: "x \<in> set ?a" for x
  proof -
    obtain i where "i < length ?a" "x = ?a ! i" using mem unfolding in_set_conv_nth by blast
    then have i: "i < m" "x = xs ! i" using len(1) by simp_all
    have "take j xs ! i \<le> take j xs ! (m - 1)" using assms m(1) i by (intro sorted_nth_mono) auto
    then show ?thesis using i m by simp
  qed
  have hi: "c < x" if mem: "x \<in> set ?b" for x
  proof -
    obtain i where "i < j - m" "x = ?b ! i" using mem len(2) unfolding in_set_conv_nth by auto
    then show ?thesis using m(1,3) assms(1) by simp
  qed
  have tk: "take (Suc j) (?a @ c # ?b @ drop (Suc j) xs) = ?a @ c # ?b"
    "take (Suc j) (?u @ p # ?v @ drop (Suc j) ps) = ?u @ p # ?v"
    "drop (Suc j) (?u @ p # ?v @ drop (Suc j) ps) = drop (Suc j) ps"
    using len m(1) by (simp_all add: Suc_diff_le)
  show thesis
  proof (rule that [OF m(2)])
    show "sorted (take (Suc j) (?a @ c # ?b @ drop (Suc j) xs))"
      using assms(3) lo hi unfolding tk ab sorted_append by (auto simp: less_imp_le intro: order_trans)
    show "mset (zip (take (Suc j) (?a @ c # ?b @ drop (Suc j) xs)) (take (Suc j) (?u @ p # ?v @ drop (Suc j) ps))) =
        add_mset (c, p) (mset (zip (take j xs) (take j ps)))"
      unfolding tk ab using len by (simp add: zip_append)
  qed (use tk(3) len m(1) assms(1,2) in simp_all)
qed


definition links_kept :: "edge list \<Rightarrow> jfloat list \<Rightarrow> jfloat list \<Rightarrow> bool" where
  "links_kept E es es' \<longleftrightarrow> length es' = length es \<and> (\<forall>k < length E. es' ! (5 * k + 4) = es ! (5 * k + 4))"

lemma fields_at_advance:
  assumes "fields_at es E cx" "k < length E"
  shows "fields_at (es[5 * k + 1 := v]) E (cx(k := v))" "links_kept E es (es[5 * k + 1 := v])"
proof -
  have ne: "5 * k + 1 \<noteq> 5 * i" "5 * k + 1 \<noteq> 5 * i + 2" "5 * k + 1 \<noteq> 5 * i + 3" "5 * k + 1 \<noteq> 5 * i + 4" for i
    by (rule notI, presburger)+
  have at: "es[5 * k + 1 := v] ! (5 * i) = es ! (5 * i)" "es[5 * k + 1 := v] ! (5 * i + 2) = es ! (5 * i + 2)"
    "es[5 * k + 1 := v] ! (5 * i + 3) = es ! (5 * i + 3)" "es[5 * k + 1 := v] ! (5 * i + 4) = es ! (5 * i + 4)" for i
    using ne [of i] by (simp_all only: nth_list_update_neq not_False_eq_True)
  have "5 * k + 1 < length es" using assms by (simp add: fields_at_def)
  then have "es[5 * k + 1 := v] ! (5 * i + 1) = (if i = k then v else es ! (5 * i + 1))" for i
    by (cases "i = k") simp_all
  then show "fields_at (es[5 * k + 1 := v]) E (cx(k := v))"
    using assms unfolding fields_at_def at by simp
  show "links_kept E es (es[5 * k + 1 := v])" unfolding links_kept_def at by simp
qed

lemma links_kept_trans: "links_kept E es es' \<Longrightarrow> links_kept E es' es'' \<Longrightarrow> links_kept E es es''"
  by (simp add: links_kept_def)

lemma sort_crossings_ok:
  assumes E: "small_edges ya yb E" "fields_at es E cx" and K: "take n ptrs = map ptr_of K" "distinct K" "\<forall>k \<in> set K. k < length E"
    and len: "length K = n" "n \<le> length xs" "n \<le> length ptrs"
  obtains es' xs' ptrs' where "sort_crossings (int n) es xs ptrs = Some (es', xs', ptrs')"
    "fields_at es' E (\<lambda>k. if k \<in> set K then fadd (cx k) (e_slope (E ! k)) else cx k)" "links_kept E es es'"
    "length xs' = length xs" "length ptrs' = length ptrs" "sorted (take n xs')"
    "mset (zip (take n xs') (take n ptrs')) = mset (map (\<lambda>k. (crossing_of (cx k) (e_up (E ! k)), ptr_of k)) K)"
proof -
  define inv where "inv i st \<longleftrightarrow> (case st of (es', xs', ps) \<Rightarrow>
      fields_at es' E (\<lambda>k. if k \<in> set (take (nat i) K) then fadd (cx k) (e_slope (E ! k)) else cx k) \<and> links_kept E es es' \<and>
      length xs' = length xs \<and> length ps = length ptrs \<and> drop (nat i) ps = drop (nat i) ptrs \<and> sorted (take (nat i) xs') \<and>
      mset (zip (take (nat i) xs') (take (nat i) ps)) =
        mset (map (\<lambda>k. (crossing_of (cx k) (e_up (E ! k)), ptr_of k)) (take (nat i) K)))" for i :: int and st
  have "\<exists>t. sort_crossings (int n) es xs ptrs = Some t \<and> inv (int n) t"
    unfolding sort_crossings_def
  proof (rule for_loop_inv)
    show "inv 0 (es, xs, ptrs)" using E(2) by (simp add: inv_def links_kept_def)
    fix i and st :: "jfloat list \<times> int list \<times> int list" assume i: "0 \<le> i" "i < int n" and inv: "inv i st"
    obtain es1 xs1 ps where st: "st = (es1, xs1, ps)" by (cases st) auto
    define j where "j = nat i"
    have j: "i = int j" "j < n" "nat (i + 1) = Suc j" using i by (auto simp: j_def nat_add_distrib)
    let ?cx = "\<lambda>k. if k \<in> set (take j K) then fadd (cx k) (e_slope (E ! k)) else cx k"
    have f: "fields_at es1 E ?cx" and l: "links_kept E es es1" and len1: "length xs1 = length xs" "length ps = length ptrs"
      and dr: "drop j ps = drop j ptrs" and so: "sorted (take j xs1)"
      and ms: "mset (zip (take j xs1) (take j ps)) = mset (map (\<lambda>k. (crossing_of (cx k) (e_up (E ! k)), ptr_of k)) (take j K))"
      using inv by (simp_all add: inv_def st j)
    define k where "k = K ! j"
    have k: "k < length E" "k \<notin> set (take j K)" "take (Suc j) K = take j K @ [k]"
    proof -
      show tk: "take (Suc j) K = take j K @ [k]" using len j by (simp add: k_def take_Suc_conv_app_nth)
      have "distinct (take (Suc j) K)" using K(2) by simp
      then show "k \<notin> set (take j K)" by (simp add: tk)
      show "k < length E" using K(3) len j by (simp add: k_def)
    qed
    have "ptrs ! j = take n ptrs ! j" using j by simp
    also have "\<dots> = ptr_of k" using j len by (simp add: K(1) k_def)
    finally have pj: "ps ! j = ptr_of k" using dr len1 len j by (metis hd_drop_conv_nth less_le_trans)
    note pf = ptr_fields [OF E(1) f refl k(1)]
    have up: "fp_less (fint 0) (fint (if e_up (E ! k) then 1 else 0)) = e_up (E ! k)" by (simp add: fp_less_fint)
    let ?v = "fadd (cx k) (e_slope (E ! k))"
    have k1: "5 * k + 2 < length es1" using f k(1) by (simp add: fields_at_def)
    have w: "wr es1 (ptr_of k + 1) v = Some (es1[5 * k + 1 := v])" for v
      using k1 by (simp add: wr_def ptr_of_def nat_add_distrib nat_mult_distrib)
    have adv: "fields_at (es1[5 * k + 1 := ?v]) E (?cx(k := ?v))" "links_kept E es1 (es1[5 * k + 1 := ?v])"
      using fields_at_advance [OF f k(1)] by blast+
    have o: "rd (es1[5 * k + 1 := ?v]) (ptr_of k + 2) = Some (fint (if e_up (E ! k) then 1 else 0))"
      using ptr_fields(7) [OF E(1) adv(1) refl k(1)] .
    obtain xs2 ps2 where ins: "insert_crossing j (crossing_of (cx k) (e_up (E ! k))) (ptr_of k) xs1 ps = Some (xs2, ps2)"
      "length xs2 = length xs1" "length ps2 = length ps" "sorted (take (Suc j) xs2)" "drop (Suc j) ps2 = drop (Suc j) ps"
      "mset (zip (take (Suc j) xs2) (take (Suc j) ps2)) =
         add_mset (crossing_of (cx k) (e_up (E ! k)), ptr_of k) (mset (zip (take j xs1) (take j ps)))"
    proof (rule insert_crossing_ok [of j xs1 ps])
      show "j < length xs1" "j < length ps" using len1 len j by simp_all
    qed (use so in blast)+
    have "drop (Suc j) ps = drop (Suc j) ptrs" using dr by (metis drop_drop plus_1_eq_Suc)
    moreover have "(\<lambda>i. if i \<in> set (take (Suc j) K) then fadd (cx i) (e_slope (E ! i)) else cx i) = ?cx(k := ?v)"
      using k by auto
    ultimately have "inv (i + 1) (es1[5 * k + 1 := ?v], xs2, ps2)"
      using ins adv(1) links_kept_trans [OF l adv(2)] len1 ms k(3) by (simp add: inv_def j(3))
    moreover have "rd ps i = Some (ptr_of k)" using pj j len len1 by simp
    ultimately show "\<exists>t'. (case st of (es, xings, ptrs) \<Rightarrow> do {
       ecur \<leftarrow> rd ptrs i;
       curx \<leftarrow> rd es (i32 (ecur + CURX));
       slope \<leftarrow> rd es (i32 (ecur + SLOPE));
       es \<leftarrow> wr es (i32 (ecur + CURX)) (fadd curx slope);
       orient \<leftarrow> rd es (i32 (ecur + ORIENT));
       let cross = i32 (2 * sample_ceil curx);
       let cross = (if fp_less (fint 0) orient then cross OR 1 else cross);
       (xings, ptrs) \<leftarrow> insert_crossing (nat i) cross ecur xings ptrs;
       Some (es, xings, ptrs)
     }) = Some t' \<and> inv (i + 1) t'"
      using k(2) ins(1) by (simp add: st pf(2-4,6,8) w o [folded Suc_eq_plus1] up j(1) crossing_of_def Let_def)
  qed simp
  then show thesis using that len by (auto simp: inv_def)
qed


section \<open>One sample row\<close>

lemma buckets_at_links:
  assumes "buckets_at es bs ya yb E" "links_kept E es es'" "5 * length E \<le> length es"
  shows "buckets_at es' bs ya yb E"
  unfolding buckets_at_def
proof (intro conjI allI impI)
  fix y assume y: "ya \<le> y \<and> y < yb"
  show "edge_chain es' (bs ! nat (2 * (y - ya))) (rev (starting E y))"
  proof (rule edge_chain_cong)
    show "edge_chain es (bs ! nat (2 * (y - ya))) (rev (starting E y))"
      using assms(1) y unfolding buckets_at_def by blast
    show "\<forall>k \<in> set (rev (starting E y)). 5 * k + 4 < length es' \<and> es' ! (5 * k + 4) = es ! (5 * k + 4)"
      using assms(2,3) by (force simp: links_kept_def dest: starting_lt)
  qed
qed (use assms(1) in \<open>auto simp: buckets_at_def\<close>)

lemma fields_at_cong: "(\<And>k. k < length E \<Longrightarrow> cx k = cx' k) \<Longrightarrow> fields_at es E cx \<Longrightarrow> fields_at es E cx'"
  by (simp add: fields_at_def)

lemma growPtrs_ok:
  assumes "edgePtrsSIZE this = int (length (edgePtrs this))" "n \<le> length (edgePtrs this)" "n + m < 2 ^ 24" "plenty alloc"
  obtains qs where "growPtrs alloc (int n) (int m) this = Some (this\<lparr>edgePtrs := qs, edgePtrsSIZE := int (length qs)\<rparr>)"
    "n + m \<le> length qs" "take n qs = take n (edgePtrs this)"
proof (cases "edgePtrsSIZE this < int n + int m")
  case True
  let ?new = "replicate (2 * (n + m)) (0 :: int)"
  let ?qs = "take n (edgePtrs this) @ drop n ?new"
  have i: "i32 (int n + int m) = int n + int m" "i32 ((int n + int m) * 2) = int (2 * (n + m))"
    using assms by (simp_all add: i32_small)
  have new: "new_int alloc (int (2 * (n + m))) = ?new"
    using assms(4) by (simp add: new_int_def plenty_def nat_mult_distrib nat_add_distrib del: of_nat_mult of_nat_add)
  have len: "length ?qs = 2 * (n + m)" using assms by simp
  have "System_arraycopy (edgePtrs this) 0 ?new 0 (int n) = Some ?qs"
    using System_arraycopy_eq [of "int n" "edgePtrs this" ?new] assms by simp
  then have "growPtrs alloc (int n) (int m) this = Some (this\<lparr>edgePtrs := ?qs, edgePtrsSIZE := int (length ?qs)\<rparr>)"
    using True unfolding growPtrs_def i new len Let_def by simp
  then show thesis using len assms by (intro that [of ?qs]) auto
next
  case False
  have "i32 (int n + int m) = int n + int m" using assms by (simp add: i32_small)
  then have "growPtrs alloc (int n) (int m) this =
      Some (this\<lparr>edgePtrs := edgePtrs this, edgePtrsSIZE := int (length (edgePtrs this))\<rparr>)"
    using False assms by (simp add: growPtrs_def)
  then show thesis using False assms by (intro that) auto
qed

lemma mset_image_list:
  assumes "mset xs = mset (map f zs)" "\<And>z. g (f z) = z"
  obtains ys where "xs = map f ys" "mset ys = mset zs"
proof (rule that [of "map g xs"])
  have "x = f (g x)" if "x \<in> set xs" for x
    using that mset_eq_setD [OF assms(1)] assms(2) by auto
  then show "xs = map f (map g xs)" by (simp add: map_idI)
  have "mset (map g xs) = image_mset g (mset (map f zs))" using assms(1) by simp
  then show "mset (map g xs) = mset zs" using assms(2) by (simp add: multiset.map_comp comp_def)
qed

lemma active_next:
  assumes "\<forall>e \<in> set E. e_first e < e_last e"
  shows "mset (active E y) = filter_mset (\<lambda>k. y < e_last (E ! k)) (mset (active E (y - 1))) + mset (starting E y)"
proof -
  have "filter_mset (\<lambda>k. e_first (E ! k) \<le> y \<and> y < e_last (E ! k)) M =
      filter_mset (\<lambda>k. y < e_last (E ! k)) (filter_mset (\<lambda>k. e_first (E ! k) \<le> y - 1 \<and> y - 1 < e_last (E ! k)) M) +
      filter_mset (\<lambda>k. e_first (E ! k) = y) M" if "set_mset M \<subseteq> {..<length E}" for M
    using that
  proof (induction M)
    case (add k M)
    then have "e_first (E ! k) < e_last (E ! k)" using assms by simp
    then show ?case using add by auto
  qed simp
  from this [of "mset [0..<length E]"] show ?thesis by (simp add: active_def starting_def lessThan_atLeast0)
qed

definition scan_state :: "int \<Rightarrow> int \<Rightarrow> edge list \<Rightarrow> int \<Rightarrow> prism_renderer \<Rightarrow> scanline_iterator \<Rightarrow> bool" where
  "scan_state ya yb E y rdr it \<longleftrightarrow>
     boundsMinY rdr = ya \<and> fields_at (edges rdr) E (scan_x E y) \<and> buckets_at (edges rdr) (edgeBuckets rdr) ya yb E \<and>
     nextY it = y \<and> edgePtrsSIZE it = int (length (edgePtrs it)) \<and> crossingsSIZE it = int (length (crossings it)) \<and>
     edgeCount it = int (length (active E (y - 1))) \<and> length (active E (y - 1)) \<le> length (edgePtrs it) \<and>
     mset (take (length (active E (y - 1))) (edgePtrs it)) = mset (map ptr_of (active E (y - 1)))"

lemma scan_x_next:
  assumes "k < length E" "\<forall>e \<in> set E. e_first e < e_last e"
  shows "scan_x E (y + 1) k =
    (if k \<in> set (active E y) then fadd (scan_x E y k) (e_slope (E ! k)) else scan_x E y k)"
proof -
  have e: "e_first (E ! k) < e_last (E ! k)" using assms by simp
  consider "y < e_first (E ! k)" | "e_first (E ! k) \<le> y" "y < e_last (E ! k)" | "e_last (E ! k) \<le> y" by linarith
  then show ?thesis
  proof cases
    case 2
    have "nat (y + 1 - e_first (E ! k)) = Suc (nat (y - e_first (E ! k)))" using 2 by linarith
    then show ?thesis using 2 assms(1) by (simp add: scan_x_def active_def edge_at_def)
  qed (use e in \<open>auto simp: scan_x_def active_def\<close>)
qed


text \<open>The edges that go on, in the order of the last row.\<close>

lemma going_on:
  assumes E: "small_edges ya yb E" and sc: "scan_state ya yb E y rdr it" and y: "ya \<le> y" "y < yb"
  obtains ptrs n where
    "(if odd (edgeBuckets rdr ! nat (2 * (y - ya) + 1)) then drop_finished (edges rdr) y (edgeCount it) (edgePtrs it)
      else Some (edgeCount it, edgePtrs it)) = Some (int n, ptrs)"
    "n \<le> length (edgePtrs it)" "length ptrs = length (edgePtrs it)"
    "mset (take n ptrs) = image_mset ptr_of (filter_mset (\<lambda>k. y < e_last (E ! k)) (mset (active E (y - 1))))"
proof -
  let ?A = "active E (y - 1)" and ?P = "\<lambda>p. y < e_last (edge_of E p)"
  let ?ps = "take (length ?A) (edgePtrs it)"
  have s: "edgeCount it = int (length ?A)" "length ?A \<le> length (edgePtrs it)" "mset ?ps = mset (map ptr_of ?A)"
    "fields_at (edges rdr) E (scan_x E y)"
    using sc by (simp_all add: scan_state_def)
  have set: "set ?ps = ptr_of ` set ?A" using mset_eq_setD [OF s(3)] by simp
  have flt: "mset (filter ?P ?ps) = image_mset ptr_of (filter_mset (\<lambda>k. y < e_last (E ! k)) (mset ?A))"
  proof -
    have "mset (filter ?P ?ps) = filter_mset ?P (image_mset ptr_of (mset ?A))" by (simp only: mset_filter s(3) mset_map)
    also have "\<dots> = image_mset ptr_of (filter_mset (\<lambda>k. ?P (ptr_of k)) (mset ?A))" by (simp add: filter_mset_image_mset)
    finally show ?thesis by simp
  qed
  have ye: "\<bar>y\<bar> < 2 ^ 24" using E y by (auto simp: small_edges_def row_range_def)
  show thesis
  proof (cases "odd (edgeBuckets rdr ! nat (2 * (y - ya) + 1))")
    case True
    have "ptrs_ok E ?ps" unfolding ptrs_ok_def set by (auto simp: active_def)
    then obtain ptrs' where "drop_finished (edges rdr) y (int (length ?A)) (edgePtrs it) = Some (int (length (filter ?P ?ps)), ptrs')"
      "take (length (filter ?P ?ps)) ptrs' = filter ?P ?ps" "length ptrs' = length (edgePtrs it)"
      using drop_finished_ok [OF E s(4) _ s(2) ye] by blast
    moreover have "length (filter ?P ?ps) \<le> length (edgePtrs it)"
      using length_filter_le [of ?P ?ps] by simp
    ultimately show thesis using True s(1) flt by (intro that [of "length (filter ?P ?ps)" ptrs']) simp_all
  next
    case False
    have "edgeBuckets rdr ! nat (2 * (y - ya) + 1) = 2 * int (length (starting E y)) + of_bool (\<exists>e \<in> set E. e_last e = y)"
      using sc y by (simp add: scan_state_def buckets_at_def)
    then have "\<not> (\<exists>e \<in> set E. e_last e = y)" using False by (auto split: if_splits)
    then have last: "e_last (E ! k) \<noteq> y" if "k < length E" for k using that nth_mem by blast
    have "filter ?P ?ps = ?ps"
    proof (intro filter_True ballI)
      fix p assume "p \<in> set ?ps"
      then obtain k where "p = ptr_of k" "k \<in> set ?A" unfolding set by blast
      then show "?P p" using last [of k] by (auto simp: active_def)
    qed
    then show thesis using False s flt by (intro that [of "length ?A" "edgePtrs it"]) simp_all
  qed
qed

lemma ScanlineIterator_next_ok:
  assumes E: "small_edges ya yb E" and sc: "scan_state ya yb E y rdr it" and y: "ya \<le> y" "y < yb" and al: "plenty alloc"
  obtains es it' where "ScanlineIterator_next alloc rdr it = Some (int (length (active E y)), rdr\<lparr>edges := es\<rparr>, it')"
    "scan_state ya yb E (y + 1) (rdr\<lparr>edges := es\<rparr>) it'" "sorted (take (length (active E y)) (crossings it'))"
    "mset (take (length (active E y)) (crossings it')) = mset (row_crossings E y)"
proof -
  let ?b = "edgeBuckets rdr"
  have s: "boundsMinY rdr = ya" "fields_at (edges rdr) E (scan_x E y)" "buckets_at (edges rdr) ?b ya yb E" "nextY it = y"
    "edgePtrsSIZE it = int (length (edgePtrs it))" "crossingsSIZE it = int (length (crossings it))"
    using sc by (simp_all add: scan_state_def)
  have rng: "row_range ya yb" "5 * int (length E) < 2 ^ 24" "\<forall>e \<in> set E. e_first e < e_last e"
    using E by (auto simp: small_edges_def)
  have ye: "\<bar>y\<bar> < 2 ^ 24" "\<bar>ya\<bar> < 2 ^ 24" "\<bar>yb\<bar> < 2 ^ 24" using rng(1) y by (auto simp: row_range_def)
  have bl: "int (length ?b) = 2 * (yb - ya) + 2" "edge_chain (edges rdr) (?b ! nat (2 * (y - ya))) (rev (starting E y))"
    "?b ! nat (2 * (y - ya) + 1) = 2 * int (length (starting E y)) + of_bool (\<exists>e \<in> set E. e_last e = y)"
    using s(3) y unfolding buckets_at_def by blast+
  have i: "i32 (y - ya) = y - ya" "i32 ((y - ya) * 2) = 2 * (y - ya)" "i32 ((y - ya) * 2 + 1) = 2 * (y - ya) + 1" "i32 (y + 1) = y + 1"
    using ye y by (simp_all add: i32_small abs_less_iff)
  have rb: "rd ?b (2 * (y - ya)) = Some (?b ! nat (2 * (y - ya)))" "rd ?b (2 * (y - ya) + 1) = Some (?b ! nat (2 * (y - ya) + 1))"
    using bl(1) y by (simp_all add: rd_def)
  have half: "drop_bit 1 (?b ! nat (2 * (y - ya) + 1)) = int (length (starting E y))"
    unfolding bl(3) by (simp add: drop_bit_eq_div)
  obtain n1 ptrs1 where g: "(if odd (?b ! nat (2 * (y - ya) + 1)) then drop_finished (edges rdr) y (edgeCount it) (edgePtrs it)
      else Some (edgeCount it, edgePtrs it)) = Some (int n1, ptrs1)"
    "n1 \<le> length (edgePtrs it)" "length ptrs1 = length (edgePtrs it)"
    "mset (take n1 ptrs1) = image_mset ptr_of (filter_mset (\<lambda>k. y < e_last (E ! k)) (mset (active E (y - 1))))"
    using going_on [OF E sc y] by blast
  let ?m = "length (starting E y)" and ?n = "length (active E y)"
  have act: "mset (take n1 ptrs1 @ map ptr_of (rev (starting E y))) = mset (map ptr_of (active E y))"
    unfolding mset_append mset_map mset_rev active_next [OF rng(3), of y] g(4) image_mset_union by simp
  have n: "n1 + ?m = ?n"
  proof -
    have "length (take n1 ptrs1 @ map ptr_of (rev (starting E y))) = ?n" using mset_eq_length [OF act] by simp
    then show ?thesis using g(2,3) by simp
  qed
  have nE: "?n \<le> length E" by (metis active_def length_filter_le length_upt minus_nat.diff_0)
  define it1 where "it1 = it\<lparr>nextY := y + 1, edgePtrs := ptrs1\<rparr>"
  obtain ptrs2 where gr: "growPtrs alloc (int n1) (int ?m) it1 = Some (it1\<lparr>edgePtrs := ptrs2, edgePtrsSIZE := int (length ptrs2)\<rparr>)"
    "n1 + ?m \<le> length ptrs2" "take n1 ptrs2 = take n1 ptrs1"
    using growPtrs_ok [of it1 n1 ?m alloc] s(5) g(2,3) al n nE rng(2) by (auto simp: it1_def)
  define ptrs3 where "ptrs3 = take n1 ptrs2 @ map ptr_of (rev (starting E y)) @ drop (n1 + ?m) ptrs2"
  have ap: "append_bucket (edges rdr) (?b ! nat (2 * (y - ya))) (int n1) ptrs2 = Some (int ?n, ptrs3)"
  proof -
    have "\<forall>k \<in> set (rev (starting E y)). 5 * int k + 5 < 2 ^ 24" using rng(2) by (auto dest!: starting_lt)
    then show ?thesis using append_bucket_ok [OF bl(2), of n1 ptrs2] gr(2) n by (simp add: ptrs3_def)
  qed
  have t3: "take ?n ptrs3 = take n1 ptrs1 @ map ptr_of (rev (starting E y))"
    unfolding n [symmetric] ptrs3_def using gr(2,3) g(2,3) by simp
  have l3: "length ptrs3 = length ptrs2" using gr(2) by (simp add: ptrs3_def)
  obtain K where K: "take ?n ptrs3 = map ptr_of K" "mset K = mset (active E y)"
    using mset_image_list [of "take ?n ptrs3" ptr_of "active E y" "\<lambda>p. nat (p div 5)"] act t3 by (auto simp: ptr_of_def)
  have Kd: "distinct K" "\<forall>k \<in> set K. k < length E" "length K = ?n" "set K = set (active E y)"
    using K(2) mset_eq_imp_distinct_iff [OF K(2)] mset_eq_setD [OF K(2)] mset_eq_length [OF K(2)] by (auto simp: active_def)
  define xs where "xs = (if length (crossings it) < ?n then replicate (length ptrs2) 0 else crossings it)"
  have xl: "?n \<le> length xs" using gr(2) n by (auto simp: xs_def)
  obtain es' xs' ptrs4 where so: "sort_crossings (int ?n) (edges rdr) xs ptrs3 = Some (es', xs', ptrs4)"
    "fields_at es' E (\<lambda>k. if k \<in> set K then fadd (scan_x E y k) (e_slope (E ! k)) else scan_x E y k)" "links_kept E (edges rdr) es'"
    "length xs' = length xs" "length ptrs4 = length ptrs3" "sorted (take ?n xs')"
    "mset (zip (take ?n xs') (take ?n ptrs4)) = mset (map (\<lambda>k. (crossing_of (scan_x E y k) (e_up (E ! k)), ptr_of k)) K)"
    using sort_crossings_ok [OF E s(2) K(1) Kd(1-3) xl] gr(2) n l3 by auto
  have ms: "mset (take ?n xs') = mset (row_crossings E y)" "mset (take ?n ptrs4) = mset (map ptr_of (active E y))"
  proof -
    have l: "length (take ?n xs') = length (take ?n ptrs4)" using so(4,5) xl l3 gr(2) n by simp
    have "mset (take ?n xs') = mset (map (\<lambda>k. crossing_of (scan_x E y k) (e_up (E ! k))) K)"
      using arg_cong [OF so(7), of "image_mset fst"] l by (simp flip: mset_map add: comp_def)
    also have "\<dots> = image_mset (\<lambda>k. crossing_of (scan_x E y k) (e_up (E ! k))) (mset (active E y))" using K(2) by simp
    also have "\<dots> = mset (row_crossings E y)"
      unfolding row_crossings_def mset_map
      by (intro image_mset_cong) (auto simp: active_def scan_x_def)
    finally show "mset (take ?n xs') = mset (row_crossings E y)" .
    show "mset (take ?n ptrs4) = mset (map ptr_of (active E y))"
    proof -
      have "mset (take ?n ptrs4) = mset (map ptr_of K)"
        using arg_cong [OF so(7), of "image_mset snd"] l by (simp flip: mset_map add: comp_def)
      then show ?thesis using K(2) by simp
    qed
  qed
  define it2 where "it2 = it1\<lparr>edgePtrs := ptrs4, edgePtrsSIZE := int (length ptrs2), edgeCount := int ?n, crossings := xs',
    crossingsSIZE := int (length xs)\<rparr>"
  have "ScanlineIterator_next alloc rdr it = Some (int ?n, rdr\<lparr>edges := es'\<rparr>, it2)"
  proof -
    have new: "new_int alloc (int (length ptrs2)) = replicate (length ptrs2) 0"
      using al by (simp add: new_int_def plenty_def)
    define it0 where "it0 = it\<lparr>nextY := y + 1\<rparr>"
    define it3 where "it3 = it1\<lparr>edgePtrs := ptrs2, edgePtrsSIZE := int (length ptrs2)\<rparr>"
    have f: "edgeCount it0 = edgeCount it" "edgePtrs it0 = edgePtrs it" "it0\<lparr>edgePtrs := ptrs1\<rparr> = it1" "edgePtrs it3 = ptrs2"
      by (simp_all add: it0_def it1_def it3_def)
    have cr: "(if crossingsSIZE (it3\<lparr>edgePtrs := ptrs3, edgeCount := int ?n\<rparr>) < int ?n
        then it3\<lparr>edgePtrs := ptrs3, edgeCount := int ?n,
                crossings := new_int alloc (edgePtrsSIZE (it3\<lparr>edgePtrs := ptrs3, edgeCount := int ?n\<rparr>)),
                crossingsSIZE := edgePtrsSIZE (it3\<lparr>edgePtrs := ptrs3, edgeCount := int ?n\<rparr>)\<rparr>
        else it3\<lparr>edgePtrs := ptrs3, edgeCount := int ?n\<rparr>) =
        it3\<lparr>edgePtrs := ptrs3, edgeCount := int ?n, crossings := xs, crossingsSIZE := int (length xs)\<rparr>"
      using s(6) by (auto simp: it3_def it1_def xs_def new)
    show ?thesis
      unfolding ScanlineIterator_next_def Let_def s(1,4) i it0_def [symmetric] f rb Option.bind_lunit g(1) prod.case half
        gr(1) it3_def [symmetric] ap cr
      using so(1) by (simp add: it3_def it2_def it1_def)
  qed
  moreover have "scan_state ya yb E (y + 1) (rdr\<lparr>edges := es'\<rparr>) it2"
  proof -
    have "fields_at es' E (scan_x E (y + 1))"
      using so(2) by (rule fields_at_cong [rotated]) (simp add: scan_x_next rng(3) Kd(4))
    moreover have "buckets_at es' ?b ya yb E"
      using buckets_at_links [OF s(3) so(3)] s(2) by (simp add: fields_at_def)
    ultimately show ?thesis
      using s(1) so(4,5) l3 gr(2) n ms(2) by (simp add: scan_state_def it1_def it2_def)
  qed
  moreover have "crossings it2 = xs'" by (simp add: it2_def)
  ultimately show thesis using so(6) ms by (intro that [of es' it2]) simp_all
qed

section \<open>The iterator\<close>

text \<open>
  C21: one step of the scan-line iterator. From a consistent state it returns the number of edges that cross the row, leaves
  their crossings sorted in the buffer and the state consistent for the next row; the buffers grow as they must.
\<close>

theorem ScanlineIterator_next_sorts:
  assumes "small_edges ya yb E" "scan_state ya yb E y rdr it" "ya \<le> y" "y < yb" "plenty alloc"
  shows "\<exists>es it'. ScanlineIterator_next alloc rdr it = Some (int (length (active E y)), rdr\<lparr>edges := es\<rparr>, it') \<and>
    scan_state ya yb E (y + 1) (rdr\<lparr>edges := es\<rparr>) it' \<and> take (length (active E y)) (crossings it') = sort (row_crossings E y)"
proof -
  obtain es it' where n: "ScanlineIterator_next alloc rdr it = Some (int (length (active E y)), rdr\<lparr>edges := es\<rparr>, it')"
    "scan_state ya yb E (y + 1) (rdr\<lparr>edges := es\<rparr>) it'" "sorted (take (length (active E y)) (crossings it'))"
    "mset (take (length (active E y)) (crossings it')) = mset (row_crossings E y)"
    using ScanlineIterator_next_ok [OF assms] .
  then show ?thesis using properties_for_sort [OF n(4,3)] by metis
qed

text \<open>Two upright edges, at columns three and one, from row zero to two.\<close>

definition two_edges :: "edge list" where
  "two_edges = [\<lparr>e_up = True, e_x = fint 3, e_slope = fint 0, e_first = 0, e_last = 2\<rparr>,
                \<lparr>e_up = False, e_x = fint 1, e_slope = fint 0, e_first = 0, e_last = 2\<rparr>]"

definition two_edges_store :: prism_renderer where
  "two_edges_store = Renderer_init\<lparr>boundsMaxY := 2, numEdges := 2, edgesSIZE := 10, edgeBucketsSIZE := 6,
     edges := [fint 2, fint 3, fint 1, fint 0, fint 0, fint 2, fint 1, fint 0, fint 0, fint 1],
     edgeBuckets := [6, 4, 0, 0, 0, 1], sampleRowMax := 2\<rparr>"

lemma two_edges_scan: "scan_state 0 2 two_edges 0 two_edges_store (ScanlineIterator_init (\<lambda>_. True) two_edges_store)"
proof -
  have x: "scan_x two_edges 0 0 = fint 3" "scan_x two_edges 0 1 = fint 1" by code_simp+
  have "fields_at (edges two_edges_store) two_edges (scan_x two_edges 0)"
    using x by (auto simp: fields_at_def two_edges_def two_edges_store_def less_Suc_eq numeral_eq_Suc)
  moreover have "buckets_at (edges two_edges_store) (edgeBuckets two_edges_store) 0 2 two_edges"
  proof -
    have "edge_chain (edges two_edges_store) 6 (rev (starting two_edges 0))" "edge_chain (edges two_edges_store) 0 (rev (starting two_edges 1))"
      "length (starting two_edges 0) = 2" "length (starting two_edges 1) = 0" by code_simp+
    moreover have "y = 0 \<or> y = 1" if "0 \<le> y \<and> y < 2" for y :: int using that by linarith
    ultimately show ?thesis by (fastforce simp: buckets_at_def two_edges_store_def two_edges_def)
  qed
  moreover have "active two_edges (- 1) = []" by code_simp
  ultimately show ?thesis
    by (simp add: scan_state_def ScanlineIterator_init_def ScanlineIterator_reset_def new_int_def two_edges_store_def Renderer_init_def Let_def)
qed

theorem ScanlineIterator_next_sorts_witness:
  "\<exists>es it'. ScanlineIterator_next (\<lambda>_. True) two_edges_store (ScanlineIterator_init (\<lambda>_. True) two_edges_store) =
     Some (2, two_edges_store\<lparr>edges := es\<rparr>, it') \<and> take 2 (crossings it') = [2, 7]"
proof -
  have "length (active two_edges 0) = 2" "sort (row_crossings two_edges 0) = [2, 7]" by code_simp+
  moreover have "small_edges 0 2 two_edges" "plenty (\<lambda>_. True)"
    by (simp_all add: small_edges_def row_range_def two_edges_def plenty_def)
  ultimately show ?thesis
    using ScanlineIterator_next_sorts [OF _ two_edges_scan, of "\<lambda>_. True"] by fastforce
qed

end
