(* ===== verification/Prism_Cover.thy ===== *)
theory Prism_Cover
  imports Prism_Scan
begin

text \<open>
  Coverage. \<open>inside\<close> says which samples of a row the path covers, by the winding number of the crossings before them.
  \<^verbatim>\<open>Renderer_produceAlphas\<close> stores covered spans as differences between neighbouring pixels; their prefix sums are the
  numbers of covered samples.
\<close>

section \<open>Prefix sums\<close>

definition psums :: "jint list \<Rightarrow> nat \<Rightarrow> int" where
  "psums a p = sum_list (take (Suc p) a)"

lemma sum_list_upd: "j < length a \<Longrightarrow> sum_list (a[j := v]) = sum_list a + (v - a ! j)" for v :: int
  by (induction a arbitrary: j) (auto split: nat.splits)

lemma psums_update:
  assumes "j < length a"
  shows "psums (a[j := v]) p = psums a p + (if j \<le> p then v - a ! j else 0)"
proof (cases "j \<le> p")
  case True
  then have "take (Suc p) (a[j := v]) = (take (Suc p) a)[j := v]" by (simp add: take_update_swap)
  then show ?thesis using assms True by (simp add: psums_def sum_list_upd)
next
  case False
  then show ?thesis by (simp add: psums_def)
qed

lemma wr_add_psums:
  assumes "0 \<le> j" "j < int (length a)"
  obtains a' where "wr_add a j d = Some a'" "length a' = length a"
    "\<And>p. i32 (psums a' p) = i32 (psums a p + (if j \<le> int p then d else 0))"
proof -
  let ?a = "a[nat j := i32 (a ! nat j + d)]"
  have "wr_add a j d = Some ?a" using assms by (simp add: wr_add_def)
  moreover have "i32 (psums ?a p) = i32 (psums a p + (if j \<le> int p then d else 0))" for p
  proof -
    have "psums ?a p = psums a p + (if j \<le> int p then i32 (a ! nat j + d) - a ! nat j else 0)"
      using psums_update [of "nat j" a "i32 (a ! nat j + d)" p] assms by (simp add: nat_le_iff)
    moreover have "i32 (psums a p + (i32 (a ! nat j + d) - a ! nat j)) = i32 (psums a p + d)"
      using i32_add_i32(2) [of "psums a p - a ! nat j" "a ! nat j + d"] by (simp add: algebra_simps)
    ultimately show ?thesis by simp
  qed
  ultimately show thesis by (intro that [of ?a]) simp_all
qed

fun wr_adds :: "jint list \<Rightarrow> (int \<times> int) list \<Rightarrow> jint list option" where
  "wr_adds a [] = Some a"
| "wr_adds a ((j, d) # jds) = Option.bind (wr_add a j d) (\<lambda>a. wr_adds a jds)"

lemma i32_cong_add: "i32 a = i32 b \<Longrightarrow> i32 (a + c) = i32 (b + c)"
  by (metis i32_add_i32(1))

lemma wr_adds_psums:
  assumes "\<forall>(j, d) \<in> set jds. 0 \<le> j \<and> j < int (length a)"
  shows "\<exists>a'. wr_adds a jds = Some a' \<and> length a' = length a \<and>
    (\<forall>p. i32 (psums a' p) = i32 (psums a p + (\<Sum>(j, d) \<leftarrow> jds. if j \<le> int p then d else 0)))"
  using assms
proof (induction jds arbitrary: a)
  case (Cons jd jds)
  obtain j d where jd: "jd = (j, d)" by fastforce
  obtain a1 where a1: "wr_add a j d = Some a1" "length a1 = length a"
    "\<And>p. i32 (psums a1 p) = i32 (psums a p + (if j \<le> int p then d else 0))"
    using Cons.prems wr_add_psums [of j a d] by (auto simp: jd)
  obtain a2 where a2: "wr_adds a1 jds = Some a2" "length a2 = length a1"
    "\<And>p. i32 (psums a2 p) = i32 (psums a1 p + (\<Sum>(j, d) \<leftarrow> jds. if j \<le> int p then d else 0))"
    using Cons.IH [of a1] Cons.prems a1(2) by auto
  show ?case
    using a1(1,2) a2 i32_cong_add [OF a1(3)] by (simp add: jd add.assoc)
qed simp

section \<open>One span of samples\<close>

definition globals_ok :: "raster_globals \<Rightarrow> bool" where
  "globals_ok g \<longleftrightarrow> 0 \<le> SUBPIXEL_LG_POSITIONS_X g \<and> 0 \<le> SUBPIXEL_LG_POSITIONS_Y g \<and>
     SUBPIXEL_LG_POSITIONS_X g + SUBPIXEL_LG_POSITIONS_Y g \<le> 20 \<and>
     SUBPIXEL_POSITIONS_X g = 2 ^ nat (SUBPIXEL_LG_POSITIONS_X g) \<and> SUBPIXEL_POSITIONS_Y g = 2 ^ nat (SUBPIXEL_LG_POSITIONS_Y g) \<and>
     SUBPIXEL_MASK_X g = SUBPIXEL_POSITIONS_X g - 1 \<and> SUBPIXEL_MASK_Y g = SUBPIXEL_POSITIONS_Y g - 1 \<and>
     alphaMax g = SUBPIXEL_POSITIONS_X g * SUBPIXEL_POSITIONS_Y g \<and> int (length (alphaMap g)) = alphaMax g + 1"

abbreviation (input) SX :: "raster_globals \<Rightarrow> int" where "SX \<equiv> SUBPIXEL_POSITIONS_X"
abbreviation (input) SY :: "raster_globals \<Rightarrow> int" where "SY \<equiv> SUBPIXEL_POSITIONS_Y"

lemma globals_pos: "globals_ok g \<Longrightarrow> 0 < SX g" "globals_ok g \<Longrightarrow> 0 < SY g" "globals_ok g \<Longrightarrow> SX g \<le> 2 ^ 20" "globals_ok g \<Longrightarrow> SY g \<le> 2 ^ 20"
proof -
  assume g: "globals_ok g"
  then show "0 < SX g" "0 < SY g" by (simp_all add: globals_ok_def)
  have "nat (SUBPIXEL_LG_POSITIONS_X g) \<le> 20" "nat (SUBPIXEL_LG_POSITIONS_Y g) \<le> 20" using g by (auto simp: globals_ok_def)
  then have "(2::int) ^ nat (SUBPIXEL_LG_POSITIONS_X g) \<le> 2 ^ 20" "(2::int) ^ nat (SUBPIXEL_LG_POSITIONS_Y g) \<le> 2 ^ 20"
    by (intro power_increasing; simp)+
  then show "SX g \<le> 2 ^ 20" "SY g \<le> 2 ^ 20" using g by (simp_all add: globals_ok_def)
qed

lemma sub_arith:
  assumes "globals_ok g"
  shows "drop_bit (nat (SUBPIXEL_LG_POSITIONS_X g)) x = x div SX g" "x AND SUBPIXEL_MASK_X g = x mod SX g"
    "drop_bit (nat (SUBPIXEL_LG_POSITIONS_Y g)) x = x div SY g" "x AND SUBPIXEL_MASK_Y g = x mod SY g"
    "push_bit (nat (SUBPIXEL_LG_POSITIONS_X g)) x = x * SX g"
proof -
  have "x AND (2 ^ n - 1) = x mod 2 ^ n" for n
    using take_bit_eq_mask [of n x] by (simp add: take_bit_eq_mod mask_eq_exp_minus_1)
  then show "drop_bit (nat (SUBPIXEL_LG_POSITIONS_X g)) x = x div SX g" "x AND SUBPIXEL_MASK_X g = x mod SX g"
    "drop_bit (nat (SUBPIXEL_LG_POSITIONS_Y g)) x = x div SY g" "x AND SUBPIXEL_MASK_Y g = x mod SY g"
    "push_bit (nat (SUBPIXEL_LG_POSITIONS_X g)) x = x * SX g"
    using assms by (simp_all add: globals_ok_def drop_bit_eq_div push_bit_eq_mult)
qed

definition overlap :: "int \<Rightarrow> int \<Rightarrow> int \<Rightarrow> nat \<Rightarrow> int" where
  "overlap S x0 x1 p = max 0 (min x1 ((int p + 1) * S) - max x0 (int p * S))"

lemma div_less_int: "0 < S \<Longrightarrow> x < w * S \<Longrightarrow> x div S < w" for S x w :: int
proof (rule ccontr)
  assume S: "0 < S" and x: "x < w * S" and "\<not> x div S < w"
  then have "w * S \<le> x div S * S" by (intro mult_right_mono) auto
  also have "\<dots> \<le> x" using S by (simp flip: minus_mod_eq_div_mult)
  finally show False using x by simp
qed

text \<open>A pixel lies before, around or after a position.\<close>

lemma pixel_cases:
  fixes S x :: int
  assumes "0 < S"
  obtains "int p < x div S" "int p * S + S \<le> x"
  | "int p = x div S" "int p * S = x - x mod S"
  | "x div S < int p" "x - x mod S + S \<le> int p * S"
proof -
  have m: "x div S * S = x - x mod S" by (simp add: minus_mod_eq_div_mult)
  have r: "0 \<le> x mod S" "x mod S < S" using assms by simp_all
  consider "int p + 1 \<le> x div S" | "int p = x div S" | "x div S + 1 \<le> int p" by linarith
  then show thesis
  proof cases
    case 1
    have "(int p + 1) * S \<le> x div S * S" using 1 assms by (intro mult_right_mono) auto
    then show thesis using that(1) 1 m r by (simp add: distrib_right)
  next
    case 2
    then show thesis using that(2) m by simp
  next
    case 3
    have "(x div S + 1) * S \<le> int p * S" using 3 assms by (intro mult_right_mono) auto
    then show thesis using that(3) 3 m by (simp add: distrib_right)
  qed
qed

lemma overlap_eq: "overlap S x0 x1 p = max 0 (min x1 (int p * S + S) - max x0 (int p * S))"
  by (simp add: overlap_def distrib_right)

lemma overlap_same:
  assumes S: "0 < S" and x: "x0 < x1" "x0 div S = (x1 - 1) div S"
  shows "overlap S x0 x1 p = (if int p = x0 div S then x1 - x0 else 0)"
proof -
  define r where "r = x0 mod S"
  define s where "s = (x1 - 1) mod S"
  have "x0 - r = x1 - 1 - s" unfolding r_def s_def minus_mod_eq_div_mult x(2) ..
  moreover have "0 \<le> r" "s < S" using S by (simp_all add: r_def s_def)
  ultimately have "x1 - 1 < x0 - r + S" "0 \<le> r" by linarith+
  moreover define P where "P = int p * S"
  moreover define d where "d = x0 div S"
  ultimately show ?thesis unfolding overlap_eq P_def [symmetric] d_def [symmetric]
    using x(1) by (cases rule: pixel_cases [OF S, of p x0, folded r_def P_def d_def]) (auto simp: max_def min_def)
qed

lemma overlap_apart:
  assumes S: "0 < S" and x: "x0 < x1" "x0 div S \<noteq> (x1 - 1) div S"
  shows "overlap S x0 x1 p =
    (if x0 div S \<le> int p then S - x0 mod S else 0) + (if x0 div S + 1 \<le> int p then x0 mod S else 0) +
    (if x1 div S \<le> int p then - (S - x1 mod S) else 0) + (if x1 div S + 1 \<le> int p then - (x1 mod S) else 0)"
proof -
  define r where "r = x0 mod S"
  define s where "s = x1 mod S"
  define m where "m = (x1 - 1) mod S"
  have r: "0 \<le> r" "r < S" "0 \<le> s" "s < S" "0 \<le> m" using S by (simp_all add: r_def s_def m_def)
  have "x0 div S \<le> (x1 - 1) div S" using S x(1) by (intro zdiv_mono1) auto
  then have lt: "x0 div S + 1 \<le> (x1 - 1) div S" using x(2) by linarith
  have "(x0 div S + 1) * S \<le> (x1 - 1) div S * S" using lt S by (intro mult_right_mono) auto
  then have "x0 - r + S \<le> x1 - 1 - m" unfolding r_def m_def minus_mod_eq_div_mult by (simp add: distrib_right)
  then have sep: "x0 - r + S \<le> x1 - 1" using r by linarith
  have le: "x0 div S + 1 \<le> x1 div S" using lt zdiv_mono1 [of "x1 - 1" x1 S] S by linarith
  define P where "P = int p * S"
  define d where "d = x0 div S"
  define e where "e = x1 div S"
  show ?thesis unfolding overlap_eq r_def [symmetric] s_def [symmetric] P_def [symmetric] d_def [symmetric] e_def [symmetric]
    by (cases rule: pixel_cases [OF S, of p x0, folded r_def P_def d_def];
        cases rule: pixel_cases [OF S, of p x1, folded s_def P_def e_def])
      (use r sep le [folded d_def e_def] x(1) in \<open>auto simp: max_def min_def\<close>)
qed

lemma add_span_ok:
  assumes g: "globals_ok g" and x: "0 \<le> x0" "x0 < x1" "x1 \<le> w * SX g" "w * SX g < 2 ^ 31" and a: "w + 2 \<le> int (length a)"
    "w < 2 ^ 31 - 2"
  obtains a' where "add_span g x0 x1 a = Some a'" "length a' = length a"
    "\<And>p. i32 (psums a' p) = i32 (psums a p + overlap (SX g) x0 x1 p)"
proof -
  note S = globals_pos(1) [OF g]
  let ?S = "SX g"
  have i: "i32 (x1 - 1) = x1 - 1" using x by (simp add: i32_small)
  have "x0 div ?S < w" "x1 div ?S < w + 1" using x S by (intro div_less_int; simp add: distrib_right)+
  then have q: "0 \<le> x0 div ?S" "x0 div ?S < w" "0 \<le> x1 div ?S" "x1 div ?S \<le> w"
    using x S by (simp_all add: pos_imp_zdiv_nonneg_iff)
  have i1: "i32 (x0 div ?S + 1) = x0 div ?S + 1" "i32 (x1 div ?S + 1) = x1 div ?S + 1"
    using q a by (simp_all add: i32_small)
  note concl = that
  have fin: thesis if "add_span g x0 x1 a = wr_adds a jds" "\<forall>(j, d) \<in> set jds. 0 \<le> j \<and> j < int (length a)"
    "\<And>p. (\<Sum>(j, d) \<leftarrow> jds. if j \<le> int p then d else 0) = overlap ?S x0 x1 p" for jds
    using wr_adds_psums [OF that(2)] that(1,3) by (auto intro: concl)
  show thesis
  proof (cases "x0 div ?S = (x1 - 1) div ?S")
    case True
    let ?jds = "[(x0 div ?S, x1 - x0), (x0 div ?S + 1, - (x1 - x0))]"
    show thesis
    proof (rule fin [of ?jds])
      show "add_span g x0 x1 a = wr_adds a ?jds"
        using True i1(1) by (simp add: add_span_def Let_def i sub_arith [OF g])
    qed (use q a overlap_same [OF S x(2) True] in auto)
  next
    case False
    let ?jds = "[(x0 div ?S, ?S - x0 mod ?S), (x0 div ?S + 1, x0 mod ?S), (x1 div ?S, - (?S - x1 mod ?S)), (x1 div ?S + 1, - (x1 mod ?S))]"
    show thesis
    proof (rule fin [of ?jds])
      show "add_span g x0 x1 a = wr_adds a ?jds"
        using False by (simp add: add_span_def Let_def i sub_arith [OF g] i1)
      show "(\<Sum>(j, d) \<leftarrow> ?jds. if j \<le> int p then d else 0) = overlap ?S x0 x1 p" for p
        unfolding overlap_apart [OF S x(2) False] by simp
    qed (use q a in auto)
  qed
qed


section \<open>The samples inside a path\<close>

text \<open>
  Every crossing at or before a sample turns the winding number by its orientation. A sample is inside when the
  winding number counts under the rule, the bits \<open>wm\<close> of it, and a crossing follows.
\<close>

definition orientation :: "jint \<Rightarrow> int" where
  "orientation c = 2 * (c AND 1) - 1"

definition winding :: "jint list \<Rightarrow> int \<Rightarrow> int" where
  "winding xs x = (\<Sum>c \<leftarrow> xs. if drop_bit 1 c \<le> x then orientation c else 0)"

definition inside :: "int \<Rightarrow> jint list \<Rightarrow> int \<Rightarrow> bool" where
  "inside wm xs x \<longleftrightarrow> winding xs x AND wm \<noteq> 0 \<and> (\<exists>c \<in> set xs. x < drop_bit 1 c)"

definition covered :: "int \<Rightarrow> jint list \<Rightarrow> int \<Rightarrow> int \<Rightarrow> int" where
  "covered wm xs a n = int (length (filter (inside wm xs) [a..a + n - 1]))"

lemma inside_mset:
  assumes "mset xs = mset ys"
  shows "inside wm xs = inside wm ys"
proof -
  have "winding xs x = winding ys x" for x
    by (simp only: winding_def sum_mset_sum_list [symmetric] mset_map assms)
  then show ?thesis using mset_eq_setD [OF assms] by (simp add: inside_def fun_eq_iff)
qed

definition inside_before :: "int \<Rightarrow> jint list \<Rightarrow> int \<Rightarrow> int \<Rightarrow> int \<Rightarrow> int" where
  "inside_before wm xs a n X = int (card {x \<in> {a..<a + n}. x < X \<and> inside wm xs x})"

lemma covered_card: "covered wm xs a n = int (card {x \<in> {a..<a + n}. inside wm xs x})"
proof -
  have "{x \<in> {a..<a + n}. inside wm xs x} = set (filter (inside wm xs) [a..a + n - 1])" by auto
  then show ?thesis unfolding covered_def by (simp only: distinct_card distinct_filter distinct_upto)
qed

lemma orientation_cases: "orientation c = 1 \<or> orientation c = - 1"
  by (cases "even c") (auto simp: orientation_def and_one_eq odd_iff_mod_2_eq_one)

text \<open>Between two neighbouring crossings.\<close>

lemma sorted_half: "sorted xs \<Longrightarrow> i \<le> j \<Longrightarrow> j < length xs \<Longrightarrow> drop_bit 1 (xs ! i) \<le> drop_bit 1 (xs ! j)" for xs :: "int list"
  by (simp add: drop_bit_eq_div sorted_nth_mono zdiv_mono1)

lemma winding_between:
  assumes "sorted xs" "i < length xs" "x < drop_bit 1 (xs ! i)" "0 < i \<Longrightarrow> drop_bit 1 (xs ! (i - 1)) \<le> x"
  shows "winding xs x = sum_list (map orientation (take i xs))"
proof -
  have l: "map (\<lambda>c. if drop_bit 1 c \<le> x then orientation c else 0) (take i xs) = map orientation (take i xs)"
  proof (rule map_cong [OF refl])
    fix c assume "c \<in> set (take i xs)"
    then obtain j where "j < i" "c = xs ! j" using assms(2) by (auto simp: in_set_conv_nth)
    then have "drop_bit 1 c \<le> x" using sorted_half [OF assms(1), of j "i - 1"] assms(2,4) by fastforce
    then show "(if drop_bit 1 c \<le> x then orientation c else 0) = orientation c" by simp
  qed
  have r: "map (\<lambda>c. if drop_bit 1 c \<le> x then orientation c else 0) (drop i xs) = map (\<lambda>c. 0) (drop i xs)"
  proof (rule map_cong [OF refl])
    fix c assume "c \<in> set (drop i xs)"
    then obtain j where "j < length (drop i xs)" "c = drop i xs ! j" unfolding in_set_conv_nth by blast
    then have "i + j < length xs" "c = xs ! (i + j)" by simp_all
    then have "\<not> drop_bit 1 c \<le> x" using sorted_half [OF assms(1), of i "i + j"] assms(3) by fastforce
    then show "(if drop_bit 1 c \<le> x then orientation c else 0) = 0" by simp
  qed
  have "winding xs x = sum_list (map (\<lambda>c. if drop_bit 1 c \<le> x then orientation c else 0) (take i xs @ drop i xs))"
    by (simp add: winding_def)
  also have "\<dots> = sum_list (map orientation (take i xs))" unfolding map_append l r by (simp add: sum_list_triv)
  finally show ?thesis .
qed

lemma inside_between:
  assumes "sorted xs" "i < length xs" "x < drop_bit 1 (xs ! i)" "0 < i \<Longrightarrow> drop_bit 1 (xs ! (i - 1)) \<le> x"
  shows "inside wm xs x \<longleftrightarrow> sum_list (map orientation (take i xs)) AND wm \<noteq> 0"
  using winding_between [OF assms] assms(2,3) nth_mem [OF assms(2)] by (auto simp: inside_def)

lemma card_int_interval: "int (card {x. l \<le> x \<and> x < u}) = max 0 (u - l)" for l u :: int
proof -
  have "{x. l \<le> x \<and> x < u} = {l..<u}" by auto
  then show ?thesis by simp
qed

definition reached :: "int \<Rightarrow> jint list \<Rightarrow> nat \<Rightarrow> int" where
  "reached b xs i = (if i = 0 then b else drop_bit 1 (xs ! (i - 1)))"

lemma inside_before_step:
  assumes "sorted xs" "i < length xs" "b \<le> a" "0 < n"
  shows "inside_before wm xs a n (drop_bit 1 (xs ! i)) = inside_before wm xs a n (reached b xs i) +
    (if sum_list (map orientation (take i xs)) AND wm \<noteq> 0
     then max 0 (min (drop_bit 1 (xs ! i)) (a + n) - max (reached b xs i) a) else 0)"
proof -
  let ?X = "drop_bit 1 (xs ! i)" and ?Y = "reached b xs i" and ?w = "sum_list (map orientation (take i xs)) AND wm"
  let ?A = "{x \<in> {a..<a + n}. x < ?Y \<and> inside wm xs x}"
  show ?thesis
  proof (cases "i = 0")
    case True
    have "\<not> inside wm xs x" if "x < ?X" for x using inside_between [OF assms(1,2) that] True by simp
    then have "{x \<in> {a..<a + n}. x < ?X \<and> inside wm xs x} = {}" by blast
    then have "inside_before wm xs a n ?X = 0" by (simp only: inside_before_def card.empty of_nat_0)
    moreover have "?A = {}" using True assms(3) by (auto simp: reached_def)
    then have "inside_before wm xs a n ?Y = 0" by (simp only: inside_before_def card.empty of_nat_0)
    ultimately show ?thesis using True by simp
  next
    case False
    then have Y: "?Y = drop_bit 1 (xs ! (i - 1))" by (simp add: reached_def)
    have YX: "?Y \<le> ?X" unfolding Y using assms(1,2) by (intro sorted_half) auto
    let ?B = "{x. max ?Y a \<le> x \<and> x < min ?X (a + n) \<and> ?w \<noteq> 0}"
    have "inside wm xs x \<longleftrightarrow> ?w \<noteq> 0" if "?Y \<le> x" "x < ?X" for x
      using inside_between [OF assms(1,2) that(2)] that(1) Y by simp
    then have "{x \<in> {a..<a + n}. x < ?X \<and> inside wm xs x} = ?A \<union> ?B" using YX by auto
    moreover have "?A \<inter> ?B = {}" by auto
    moreover have "finite ?A" "finite ?B" by (auto intro: finite_subset [of _ "{a..<a + n}"])
    ultimately have "inside_before wm xs a n ?X = inside_before wm xs a n ?Y + int (card ?B)"
      unfolding inside_before_def by (simp only: card_Un_disjoint of_nat_add)
    moreover have "int (card ?B) = (if ?w \<noteq> 0 then max 0 (min ?X (a + n) - max ?Y a) else 0)"
      using card_int_interval [of "max ?Y a" "min ?X (a + n)"] by (cases "?w = 0") auto
    ultimately show ?thesis by simp
  qed
qed

lemma inside_before_end:
  assumes "sorted xs" "xs \<noteq> []"
  shows "inside_before wm xs a n (drop_bit 1 (xs ! (length xs - 1))) = covered wm xs a n"
proof -
  have "x < drop_bit 1 (xs ! (length xs - 1))" if ins: "inside wm xs x" for x
  proof -
    obtain j where "j < length xs" "x < drop_bit 1 (xs ! j)" using ins by (auto simp: inside_def in_set_conv_nth)
    then show ?thesis using sorted_half [OF assms(1), of j "length xs - 1"] by fastforce
  qed
  then have "{x \<in> {a..<a + n}. x < drop_bit 1 (xs ! (length xs - 1)) \<and> inside wm xs x} = {x \<in> {a..<a + n}. inside wm xs x}" by blast
  then show ?thesis by (simp only: inside_before_def covered_card)
qed


section \<open>One sample row\<close>

text \<open>The box the mask covers, in samples: \<open>w\<close> pixels from \<open>b\<close> on.\<close>

definition box_ok :: "raster_globals \<Rightarrow> int \<Rightarrow> int \<Rightarrow> bool" where
  "box_ok g b w \<longleftrightarrow> globals_ok g \<and> 0 < w \<and> w < 2 ^ 31 - 2 \<and> - (2 ^ 31) \<le> b \<and> b + w * SX g < 2 ^ 31 \<and> w * SX g < 2 ^ 31"

lemma orientation_sum: "\<bar>sum_list (map orientation xs)\<bar> \<le> int (length xs)"
proof (induction xs)
  case (Cons c xs)
  then show ?case using orientation_cases [of c] by auto
qed simp

lemma span_overlap:
  assumes "0 < S" "int p < w" "b \<le> X'" "X' = max X b" "Y' = min Y (b + w * S)"
  shows "max 0 (min Y (b + int p * S + S) - max X (b + int p * S)) = (if X' < Y' then overlap S (X' - b) (Y' - b) p else 0)"
proof -
  have "(int p + 1) * S \<le> w * S" "0 \<le> int p * S" using assms by (auto intro: mult_right_mono)
  then have "int p * S + S \<le> w * S" "0 \<le> int p * S" by (simp_all add: distrib_right)
  then show ?thesis using assms(4,5) unfolding overlap_eq by (auto simp: max_def min_def)
qed

lemma accumulate_row_ok:
  assumes box: "box_ok g b w" and xs: "xs = take n xings" "n \<le> length xings" "sorted xs" "n < 2 ^ 24" and a: "w + 2 \<le> int (length a)"
  obtains a' where "accumulate_row g wm b (b + w * SX g) (int n) xings a = Some a'" "length a' = length a"
    "\<And>p. int p < w \<Longrightarrow> i32 (psums a' p) = i32 (psums a p + covered wm xs (b + int p * SX g) (SX g))"
proof -
  let ?S = "SX g"
  have g: "globals_ok g" and S: "0 < ?S" using box globals_pos by (auto simp: box_ok_def)
  have len: "length xs = n" using xs by simp
  define inv where "inv i st \<longleftrightarrow> (case st of (s, prev, al) \<Rightarrow> s = sum_list (map orientation (take (nat i) xs)) \<and>
      prev = reached b xs (nat i) \<and> length al = length a \<and>
      (\<forall>p. int p < w \<longrightarrow> i32 (psums al p) = i32 (psums a p + inside_before wm xs (b + int p * ?S) ?S (reached b xs (nat i)))))"
    for i :: int and st :: "int \<times> int \<times> int list"
  let ?body = "\<lambda>i (sum, prev, alpha). do {
       curxo \<leftarrow> rd xings i;
       let curx = drop_bit 1 curxo;
       let crorientation = 2 * (curxo AND 1) - 1;
       alpha \<leftarrow> (if sum AND wm \<noteq> 0 then
                   (let x0 = max prev b; x1 = min curx (b + w * ?S)
                    in if x0 < x1 then add_span g (i32 (x0 - b)) (i32 (x1 - b)) alpha else Some alpha)
                 else Some alpha);
       Some (i32 (sum + crorientation), curx, alpha)
     }"
  have "\<exists>t. for_loop (int n) ?body (0, b, a) = Some t \<and> inv (int n) t"
  proof (rule for_loop_inv)
    have "inside_before wm xs (b + int p * ?S) ?S b = 0" for p
    proof -
      have "0 \<le> int p * ?S" using S by simp
      then have "{x \<in> {b + int p * ?S..<b + int p * ?S + ?S}. x < b \<and> inside wm xs x} = {}" by auto
      then show ?thesis by (simp only: inside_before_def card.empty of_nat_0)
    qed
    then show "inv 0 (0, b, a)" by (simp add: inv_def reached_def)
  next
    fix i and st :: "int \<times> int \<times> int list" assume i: "0 \<le> i" "i < int n" and inv: "inv i st"
    obtain s prev al where st: "st = (s, prev, al)" by (cases st) auto
    define j where "j = nat i"
    have j: "i = int j" "j < n" "nat i = j" "nat (i + 1) = Suc j" using i by (auto simp: j_def nat_add_distrib)
    have I: "s = sum_list (map orientation (take j xs))" "prev = reached b xs j" "length al = length a"
      "\<And>p. int p < w \<Longrightarrow> i32 (psums al p) = i32 (psums a p + inside_before wm xs (b + int p * ?S) ?S (reached b xs j))"
      using inv by (auto simp: inv_def st j)
    have c: "rd xings i = Some (xs ! j)" using j xs by simp
    have tk: "take (Suc j) xs = take j xs @ [xs ! j]" using len j by (simp add: take_Suc_conv_app_nth)
    have s': "i32 (s + (2 * (xs ! j AND 1) - 1)) = sum_list (map orientation (take (Suc j) xs))"
    proof -
      have "s + (2 * (xs ! j AND 1) - 1) = sum_list (map orientation (take (Suc j) xs))" by (simp add: I(1) tk orientation_def)
      then show ?thesis using orientation_sum [of "take (Suc j) xs"] len j xs(4) by (simp add: i32_small)
    qed
    define X where "X = max prev b"
    define Y where "Y = min (drop_bit 1 (xs ! j)) (b + w * ?S)"
    define on where "on \<longleftrightarrow> s AND wm \<noteq> 0"
    obtain al' where al': "(if s AND wm \<noteq> 0 then if X < Y then add_span g (i32 (X - b)) (i32 (Y - b)) al else Some al else Some al) = Some al'"
      "length al' = length a"
      "\<And>p. i32 (psums al' p) = i32 (psums al p + (if on \<and> X < Y then overlap ?S (X - b) (Y - b) p else 0))"
    proof (cases "on \<and> X < Y")
      case True
      have x: "0 \<le> X - b" "X - b < Y - b" "Y - b \<le> w * ?S" "w * ?S < 2 ^ 31" "w < 2 ^ 31 - 2"
        using True box by (auto simp: X_def Y_def box_ok_def)
      have i: "i32 (X - b) = X - b" "i32 (Y - b) = Y - b" using x by (simp_all add: i32_small)
      obtain al1 where "add_span g (X - b) (Y - b) al = Some al1" "length al1 = length al"
        "\<And>p. i32 (psums al1 p) = i32 (psums al p + overlap ?S (X - b) (Y - b) p)"
        using add_span_ok [OF g x(1-4), of al] a I(3) x(5) by auto
      then show thesis using True I(3) by (intro that [of al1]) (auto simp: on_def i)
    next
      case False
      then show thesis using I(3) by (intro that [of al]) (auto simp: on_def)
    qed
    have "i32 (psums al' p) = i32 (psums a p + inside_before wm xs (b + int p * ?S) ?S (reached b xs (Suc j)))" if p: "int p < w" for p
    proof -
      have "b \<le> b + int p * ?S" using S by simp
      note st = inside_before_step [OF xs(3), of j b "b + int p * ?S" ?S wm, unfolded len, OF j(2) this S]
      have "max 0 (min (drop_bit 1 (xs ! j)) (b + int p * ?S + ?S) - max prev (b + int p * ?S)) =
          (if X < Y then overlap ?S (X - b) (Y - b) p else 0)"
        using span_overlap [OF S p, of b X prev Y "drop_bit 1 (xs ! j)"] by (simp add: X_def Y_def)
      then have "inside_before wm xs (b + int p * ?S) ?S (reached b xs (Suc j)) =
          inside_before wm xs (b + int p * ?S) ?S (reached b xs j) + (if on \<and> X < Y then overlap ?S (X - b) (Y - b) p else 0)"
        using st by (simp add: reached_def [of b xs "Suc j"] on_def I(1,2))
      then show ?thesis using al'(3) [of p] i32_cong_add [OF I(4) [OF p]] by (simp add: add.assoc)
    qed
    then have "inv (i + 1) (i32 (s + (2 * (xs ! j AND 1) - 1)), drop_bit 1 (xs ! j), al')"
      using al'(2) s' by (simp add: inv_def j(4) reached_def)
    then show "\<exists>t'. ?body i st = Some t' \<and> inv (i + 1) t'"
      unfolding st prod.case c Option.bind_lunit Let_def X_def [symmetric] Y_def [symmetric] al'(1) by simp
  qed simp
  then obtain s prev a' where l: "for_loop (int n) ?body (0, b, a) = Some (s, prev, a')" "inv (int n) (s, prev, a')" by auto
  show thesis
  proof (rule that)
    show "accumulate_row g wm b (b + w * ?S) (int n) xings a = Some a'"
      unfolding accumulate_row_def using l(1) by simp
    show "length a' = length a" using l(2) by (simp add: inv_def)
    show "i32 (psums a' p) = i32 (psums a p + covered wm xs (b + int p * ?S) ?S)" if p: "int p < w" for p
    proof (cases "n = 0")
      case True
      then have "xs = []" using len by simp
      then have "covered wm xs (b + int p * ?S) ?S = 0" "inside_before wm xs (b + int p * ?S) ?S b = 0"
        by (simp_all add: covered_card inside_before_def inside_def)
      then show ?thesis using l(2) p True by (simp add: inv_def reached_def)
    next
      case False
      then show ?thesis using l(2) p inside_before_end [OF xs(3)] len by (auto simp: inv_def reached_def)
    qed
  qed
qed


section \<open>One row of pixels\<close>

lemma psums_next: "i < length a \<Longrightarrow> psums a i = sum_list (take i a) + a ! i"
  by (simp add: psums_def take_Suc_conv_app_nth)

lemma psums_zero: "\<forall>i < n. a ! i = 0 \<Longrightarrow> p < n \<Longrightarrow> n \<le> length a \<Longrightarrow> psums a p = 0"
proof -
  assume "\<forall>i < n. a ! i = 0" "p < n" "n \<le> length a"
  then have "take (Suc p) a = replicate (Suc p) 0" by (intro nth_equalityI) (auto simp del: replicate_Suc)
  then show ?thesis by (simp add: psums_def sum_list_replicate)
qed

lemma setAndClear_ok:
  assumes w: "0 < ac_width ac" "ac_width ac \<le> int (length row)" and off: "0 \<le> off" "off = (py - originY ac) * ac_width ac"
    "off + ac_width ac \<le> int (length (alphas ac))" "int (length (alphas ac)) < 2 ^ 31"
    and C: "\<And>p. int p < ac_width ac \<Longrightarrow> i32 (psums row p) = i32 (C p) \<and> 0 \<le> C p \<and> C p < int (length (alphaMap g))"
      "int (length (alphaMap g)) < 2 ^ 31"
  obtains out row' where "setAndClearRelativeAlphas g py ac row = Some (ac\<lparr>alphas := out\<rparr>, row')"
    "length row' = length row" "\<And>p. int p < ac_width ac \<Longrightarrow> psums row' p = 0" "length out = length (alphas ac)"
    "\<And>q. q < length out \<Longrightarrow> out ! q = (if off \<le> int q \<and> int q < off + ac_width ac then alphaMap g ! nat (C (q - nat off)) else alphas ac ! q)"
proof -
  let ?w = "ac_width ac"
  define inv where "inv i st \<longleftrightarrow> (case st of (a, r, out) \<Rightarrow> a = i32 (sum_list (take (nat i) row)) \<and> length r = length row \<and>
      (\<forall>j < length row. r ! j = (if int j < i then 0 else row ! j)) \<and> length out = length (alphas ac) \<and>
      (\<forall>q < length out. out ! q = (if off \<le> int q \<and> int q < off + i then alphaMap g ! nat (C (q - nat off)) else alphas ac ! q)))"
    for i :: int and st :: "int \<times> int list \<times> int list"
  let ?body = "\<lambda>i (a, alphaRow, out). do {
       d \<leftarrow> rd alphaRow i;
       let a = i32 (a + d);
       alphaRow \<leftarrow> wr alphaRow i 0;
       v \<leftarrow> rd (alphaMap g) a;
       out \<leftarrow> wr out (i32 (off + i)) v;
       Some (a, alphaRow, out)
     }"
  have "\<exists>t. for_loop ?w ?body (0, row, alphas ac) = Some t \<and> inv ?w t"
  proof (rule for_loop_inv)
    show "inv 0 (0, row, alphas ac)" by (simp add: inv_def)
  next
    fix i and st :: "int \<times> int list \<times> int list" assume i: "0 \<le> i" "i < ?w" and inv: "inv i st"
    obtain a r out where st: "st = (a, r, out)" by (cases st) auto
    define j where "j = nat i"
    have j: "i = int j" "nat i = j" "nat (i + 1) = Suc j" using i by (auto simp: j_def nat_add_distrib)
    have I: "a = i32 (sum_list (take j row))" "length r = length row" "\<forall>k < length row. r ! k = (if k < j then 0 else row ! k)"
      "length out = length (alphas ac)"
      "\<forall>q < length out. out ! q = (if off \<le> int q \<and> int q < off + int j then alphaMap g ! nat (C (q - nat off)) else alphas ac ! q)"
      using inv by (auto simp: inv_def st j)
    have jl: "j < length row" using i w(2) j by simp
    have a': "i32 (a + row ! j) = C j"
    proof -
      have "i32 (a + row ! j) = i32 (psums row j)" using jl by (simp add: I(1) psums_next)
      also have "\<dots> = i32 (C j)" using C(1) [of j] i j by simp
      also have "\<dots> = C j" using C(1) [of j] C(2) i j by (intro i32_small) simp_all
      finally show ?thesis .
    qed
    have r: "rd r i = Some (row ! j)" "wr r i 0 = Some (r[j := 0])" using jl I(2,3) j by simp_all
    have m: "rd (alphaMap g) (C j) = Some (alphaMap g ! nat (C j))" using C(1) [of j] i j by simp
    have ix: "i32 (off + i) = off + i" using off i by (simp add: i32_small)
    have o: "wr out (off + i) v = Some (out[nat off + j := v])" for v
      using off i I(4) j by (simp add: wr_def nat_add_distrib)
    have ol: "nat off + j < length out" using off i I(4) j by linarith
    have "inv (i + 1) (C j, r[j := 0], out[nat off + j := alphaMap g ! nat (C j)])"
      unfolding inv_def prod.case j(3)
    proof (intro conjI allI impI)
      show "C j = i32 (sum_list (take (Suc j) row))" using a' jl by (simp add: I(1) take_Suc_conv_app_nth)
      fix q assume "q < length (out[nat off + j := alphaMap g ! nat (C j)])"
      then show "out[nat off + j := alphaMap g ! nat (C j)] ! q =
          (if off \<le> int q \<and> int q < off + (i + 1) then alphaMap g ! nat (C (q - nat off)) else alphas ac ! q)"
        using I(5) off(1) ol by (cases "q = nat off + j") (auto simp: j(1))
    qed (use I(2,3,4) jl in \<open>auto simp: nth_list_update j(1)\<close>)
    then show "\<exists>t'. ?body i st = Some t' \<and> inv (i + 1) t'"
      unfolding st prod.case r Option.bind_lunit Let_def a' m ix o by simp
  qed (use w in simp)
  then obtain a r out where l: "for_loop ?w ?body (0, row, alphas ac) = Some (a, r, out)" "inv ?w (a, r, out)" by auto
  have io: "i32 ((py - originY ac) * ?w) = off" using off w by (simp add: i32_small)
  show thesis
  proof (rule that [of out r])
    show "setAndClearRelativeAlphas g py ac row = Some (ac\<lparr>alphas := out\<rparr>, r)"
      unfolding setAndClearRelativeAlphas_def Let_def io using l(1) by (simp add: Let_def)
    show "psums r p = 0" if "int p < ?w" for p
      using l(2) that w by (intro psums_zero [of "nat ?w"]) (auto simp: inv_def)
  qed (use l(2) in \<open>auto simp: inv_def\<close>)
qed

end
