(* ===== verification/Prism_Alphas.thy ===== *)
theory Prism_Alphas
  imports Prism_Cover
begin

text \<open>
  The mask of an edge list. \<open>pixel_cover\<close> counts the samples of a pixel that lie inside the path; the loop over the sample
  rows leaves in every byte of the mask the entry of the alpha map at that count. The row of sums holds the samples
  of the pixel row seen so far (\<open>row_state\<close>), the mask the pixel rows that are finished (\<open>mask_rows\<close>).
\<close>

section \<open>Covered samples of a pixel\<close>

definition row_cover :: "raster_globals \<Rightarrow> int \<Rightarrow> edge list \<Rightarrow> int \<Rightarrow> int \<Rightarrow> int" where
  "row_cover g wm E px y = covered wm (row_crossings E y) (px * SUBPIXEL_POSITIONS_X g) (SUBPIXEL_POSITIONS_X g)"

text \<open>The number of samples of a pixel that lie inside.\<close>

definition pixel_cover :: "raster_globals \<Rightarrow> int \<Rightarrow> edge list \<Rightarrow> int \<Rightarrow> int \<Rightarrow> int" where
  "pixel_cover g wm E px py =
     (\<Sum>y \<leftarrow> [py * SUBPIXEL_POSITIONS_Y g..(py + 1) * SUBPIXEL_POSITIONS_Y g - 1]. row_cover g wm E px y)"

definition part_cover :: "raster_globals \<Rightarrow> int \<Rightarrow> edge list \<Rightarrow> int \<Rightarrow> int \<Rightarrow> int" where
  "part_cover g wm E px y = (\<Sum>y' \<in> {y div SY g * SY g..<y}. row_cover g wm E px y')"

lemma row_cover_bounds: "globals_ok g \<Longrightarrow> 0 \<le> row_cover g wm E px y \<and> row_cover g wm E px y \<le> SX g"
proof -
  assume "globals_ok g"
  then have "0 < SX g" by (rule globals_pos)
  moreover have "covered wm xs a n \<le> int (length [a..a + n - 1])" for xs a n
    unfolding covered_def using length_filter_le by (simp only: of_nat_le_iff)
  from this [of "row_crossings E y" "px * SX g" "SX g"] have "covered wm (row_crossings E y) (px * SX g) (SX g) \<le> int (nat (SX g))"
    by (simp add: length_upto)
  ultimately show ?thesis by (simp add: row_cover_def covered_def)
qed

lemma row_cover_outside:
  assumes "active E y = []"
  shows "row_cover g wm E px y = 0"
  using assms by (simp add: row_cover_def row_crossings_def covered_card inside_def)

lemma pixel_cover_sum: "pixel_cover g wm E px py = (\<Sum>y \<in> {py * SY g..<(py + 1) * SY g}. row_cover g wm E px y)"
proof -
  have "{py * SY g..<(py + 1) * SY g} = set [py * SY g..(py + 1) * SY g - 1]" by auto
  then show ?thesis unfolding pixel_cover_def by (simp only: sum_list_distinct_conv_sum_set distinct_upto)
qed

lemma pixel_cover_bounds:
  assumes "globals_ok g"
  shows "0 \<le> pixel_cover g wm E px py" "pixel_cover g wm E px py \<le> alphaMax g"
proof -
  show "0 \<le> pixel_cover g wm E px py" unfolding pixel_cover_sum using row_cover_bounds [OF assms] by (intro sum_nonneg) blast
  have "pixel_cover g wm E px py \<le> (\<Sum>y \<in> {py * SY g..<(py + 1) * SY g}. SX g)"
    unfolding pixel_cover_sum using row_cover_bounds [OF assms] by (intro sum_mono) blast
  also have "\<dots> = alphaMax g" using assms globals_pos(2) [OF assms] by (simp add: globals_ok_def distrib_right)
  finally show "pixel_cover g wm E px py \<le> alphaMax g" .
qed

text \<open>Rows of samples and rows of pixels.\<close>

lemma next_sample_row:
  fixes S y :: int
  assumes "0 < S"
  shows "y mod S = S - 1 \<Longrightarrow> (y + 1) div S = y div S + 1 \<and> y + 1 = (y div S + 1) * S"
    "y mod S \<noteq> S - 1 \<Longrightarrow> (y + 1) div S = y div S"
proof -
  define q where "q = y div S"
  define r where "r = y mod S"
  have y: "y = q * S + r" and r: "0 \<le> r" "r < S" using assms by (simp_all add: q_def r_def)
  show "(y + 1) div S = y div S + 1 \<and> y + 1 = (y div S + 1) * S" if "y mod S = S - 1"
  proof -
    have "r = S - 1" using that by (simp add: r_def)
    then have "y + 1 = (q + 1) * S" using y by (simp add: distrib_right)
    then show ?thesis using assms by (simp add: q_def)
  qed
  show "(y + 1) div S = y div S" if "y mod S \<noteq> S - 1"
  proof -
    have "y + 1 = q * S + (r + 1)" "0 \<le> r + 1" "r + 1 < S" using y r that [folded r_def] by simp_all
    moreover have "(q * S + (r + 1)) div S = q + (r + 1) div S" using assms by (intro div_mult_self3) simp
    ultimately have "(y + 1) div S = q" by (simp only: div_pos_pos_trivial add_0_right)
    then show ?thesis by (simp add: q_def)
  qed
qed

lemma part_cover_next:
  assumes "globals_ok g"
  shows "y mod SY g = SY g - 1 \<Longrightarrow> part_cover g wm E px y + row_cover g wm E px y = pixel_cover g wm E px (y div SY g)"
    "y mod SY g = SY g - 1 \<Longrightarrow> part_cover g wm E px (y + 1) = 0"
    "y mod SY g \<noteq> SY g - 1 \<Longrightarrow> part_cover g wm E px (y + 1) = part_cover g wm E px y + row_cover g wm E px y"
proof -
  note S = globals_pos(2) [OF assms]
  define P where "P = y div SY g * SY g"
  have le: "P \<le> y" using S by (simp add: P_def flip: minus_mod_eq_div_mult)
  have ins: "{P..<y + 1} = insert y {P..<y}" using le by auto
  have add: "(\<Sum>y' \<in> {P..<y + 1}. row_cover g wm E px y') = part_cover g wm E px y + row_cover g wm E px y"
    unfolding ins part_cover_def P_def [symmetric] by (simp add: add.commute)
  show "part_cover g wm E px y + row_cover g wm E px y = pixel_cover g wm E px (y div SY g)" if "y mod SY g = SY g - 1"
    unfolding add [symmetric] pixel_cover_sum P_def using next_sample_row(1) [OF S that] by simp
  show "part_cover g wm E px (y + 1) = 0" if "y mod SY g = SY g - 1"
    using next_sample_row(1) [OF S that] by (simp add: part_cover_def)
  show "part_cover g wm E px (y + 1) = part_cover g wm E px y + row_cover g wm E px y" if "y mod SY g \<noteq> SY g - 1"
    using add next_sample_row(2) [OF S that] by (simp add: part_cover_def P_def)
qed


section \<open>All sample rows\<close>

text \<open>The mask after the rows of pixels up to \<open>n\<close> of \<open>w\<close> pixels each.\<close>

definition mask_rows :: "raster_globals \<Rightarrow> int \<Rightarrow> edge list \<Rightarrow> int \<Rightarrow> int \<Rightarrow> int \<Rightarrow> int \<Rightarrow> jbyte list \<Rightarrow> jbyte list \<Rightarrow> bool" where
  "mask_rows g wm E ox oy w n out out' \<longleftrightarrow> length out' = length out \<and>
     (\<forall>q < length out. out' ! q =
        (if int q < n * w then alphaMap g ! nat (pixel_cover g wm E (ox + int q mod w) (oy + int q div w)) else out ! q))"

definition row_state :: "raster_globals \<Rightarrow> int \<Rightarrow> edge list \<Rightarrow> int \<Rightarrow> int \<Rightarrow> int \<Rightarrow> jint list \<Rightarrow> bool" where
  "row_state g wm E ox w y row \<longleftrightarrow> w + 2 \<le> int (length row) \<and>
     (\<forall>p. int p < w \<longrightarrow> i32 (psums row p) = i32 (part_cover g wm E (ox + int p) y))"

lemma mask_rows_step:
  assumes m: "mask_rows g wm E ox oy w n out out1" and w: "0 < w" and n: "0 \<le> n"
    and e: "length out2 = length out1" "\<And>q. q < length out2 \<Longrightarrow> out2 ! q =
      (if n * w \<le> int q \<and> int q < n * w + w
       then alphaMap g ! nat (pixel_cover g wm E (ox + int (q - nat (n * w))) (oy + n)) else out1 ! q)"
  shows "mask_rows g wm E ox oy w (n + 1) out out2"
proof -
  have "out2 ! q = (if int q < (n + 1) * w
      then alphaMap g ! nat (pixel_cover g wm E (ox + int q mod w) (oy + int q div w)) else out ! q)" if q: "q < length out" for q
  proof (cases "n * w \<le> int q \<and> int q < n * w + w")
    case True
    define r where "r = int q - n * w"
    have r: "int q = n * w + r" "0 \<le> r" "r < w" using True by (simp_all add: r_def)
    have "int q div w = n + r div w" "int q mod w = r mod w" unfolding r(1) using w by simp_all
    moreover have "int (q - nat (n * w)) = r" using r(1,2) n w by simp
    ultimately show ?thesis using True q e m r by (simp add: mask_rows_def distrib_right)
  next
    case False
    then have "int q < (n + 1) * w \<longleftrightarrow> int q < n * w" using w by (auto simp: distrib_right)
    then show ?thesis using False q e m by (auto simp: mask_rows_def)
  qed
  then show ?thesis using m e(1) by (simp add: mask_rows_def)
qed

text \<open>One turn of the loop.\<close>

lemma emit_row:
  assumes box: "box_ok g (ox * SX g) w" and ac: "ac_width ac = w" "originY ac = oy"
    and m: "mask_rows g wm E ox oy w n out (alphas ac)" and n: "0 \<le> n" "(n + 1) * w \<le> int (length out)" "int (length out) < 2 ^ 31"
    and row: "w + 2 \<le> int (length row)" "\<And>p. int p < w \<Longrightarrow> i32 (psums row p) = i32 (pixel_cover g wm E (ox + int p) (oy + n))"
  obtains out2 row' where "setAndClearRelativeAlphas g (oy + n) ac row = Some (ac\<lparr>alphas := out2\<rparr>, row')"
    "mask_rows g wm E ox oy w (n + 1) out out2" "length row' = length row" "\<And>p. int p < w \<Longrightarrow> psums row' p = 0"
proof -
  have g: "globals_ok g" and w: "0 < w" using box by (auto simp: box_ok_def)
  have l: "length (alphas ac) = length out" using m by (simp add: mask_rows_def)
  have am: "int (length (alphaMap g)) = alphaMax g + 1" "alphaMax g + 1 < 2 ^ 31"
  proof -
    have e: "alphaMax g = 2 ^ (nat (SUBPIXEL_LG_POSITIONS_X g) + nat (SUBPIXEL_LG_POSITIONS_Y g))"
      using g by (simp add: globals_ok_def power_add)
    have "0 \<le> SUBPIXEL_LG_POSITIONS_X g" "0 \<le> SUBPIXEL_LG_POSITIONS_Y g" "SUBPIXEL_LG_POSITIONS_X g + SUBPIXEL_LG_POSITIONS_Y g \<le> 20"
      using g by (simp_all add: globals_ok_def)
    then have "nat (SUBPIXEL_LG_POSITIONS_X g) + nat (SUBPIXEL_LG_POSITIONS_Y g) \<le> 20" by linarith
    then have "(2::int) ^ (nat (SUBPIXEL_LG_POSITIONS_X g) + nat (SUBPIXEL_LG_POSITIONS_Y g)) \<le> 2 ^ 20" by (rule power_increasing) simp
    then show "alphaMax g + 1 < 2 ^ 31" unfolding e by simp
  qed (use g in \<open>simp add: globals_ok_def\<close>)
  have nw: "0 \<le> n * w" "n * w + w \<le> int (length out)" using n w by (simp_all add: distrib_right)
  obtain out2 row' where s: "setAndClearRelativeAlphas g (oy + n) ac row = Some (ac\<lparr>alphas := out2\<rparr>, row')"
    "length row' = length row" "\<And>p. int p < ac_width ac \<Longrightarrow> psums row' p = 0" "length out2 = length (alphas ac)"
    "\<And>q. q < length out2 \<Longrightarrow> out2 ! q = (if n * w \<le> int q \<and> int q < n * w + ac_width ac
       then alphaMap g ! nat (pixel_cover g wm E (ox + int (q - nat (n * w))) (oy + n)) else alphas ac ! q)"
    using ac l nw n(3) w row am pixel_cover_bounds [OF g]
    by (rule_tac setAndClear_ok [of ac row "n * w" "oy + n" "\<lambda>p. pixel_cover g wm E (ox + int p) (oy + n)" g])
      (auto simp: less_le_trans)
  show thesis
  proof (rule that [OF s(1)])
    show "mask_rows g wm E ox oy w (n + 1) out out2"
      using mask_rows_step [OF m w n(1) s(4)] s(5) ac by simp
  qed (use s(2,3) ac in simp_all)
qed


lemma cover_row:
  assumes E: "small_edges ya yb E" and sc: "scan_state ya yb E y rdr it" and y: "ya \<le> y" "y < yb" and al: "plenty alloc"
    and box: "box_ok g (ox * SX g) w" and row: "row_state g wm E ox w y row"
  obtains n es it' row' where "ScanlineIterator_next alloc rdr it = Some (n, rdr\<lparr>edges := es\<rparr>, it')"
    "scan_state ya yb E (y + 1) (rdr\<lparr>edges := es\<rparr>) it'" "ScanlineIterator_curY it' = y"
    "accumulate_row g wm (ox * SX g) (ox * SX g + w * SX g) n (crossings it') row = Some row'" "length row' = length row"
    "\<And>p. int p < w \<Longrightarrow> i32 (psums row' p) = i32 (part_cover g wm E (ox + int p) y + row_cover g wm E (ox + int p) y)"
proof -
  let ?n = "length (active E y)"
  obtain es it' where nx: "ScanlineIterator_next alloc rdr it = Some (int ?n, rdr\<lparr>edges := es\<rparr>, it')"
    "scan_state ya yb E (y + 1) (rdr\<lparr>edges := es\<rparr>) it'" "sorted (take ?n (crossings it'))"
    "mset (take ?n (crossings it')) = mset (row_crossings E y)"
    using ScanlineIterator_next_ok [OF E sc y al] by blast
  have "length (take ?n (crossings it')) = ?n" using mset_eq_length [OF nx(4)] by (simp add: row_crossings_def)
  then have nl: "?n \<le> length (crossings it')" by simp
  have "?n \<le> length E" by (metis active_def length_filter_le length_upt minus_nat.diff_0)
  moreover have "5 * int (length E) < 2 ^ 24" using E by (simp add: small_edges_def)
  ultimately have n24: "?n < 2 ^ 24" by simp
  obtain row' where r: "accumulate_row g wm (ox * SX g) (ox * SX g + w * SX g) (int ?n) (crossings it') row = Some row'"
    "length row' = length row"
    "\<And>p. int p < w \<Longrightarrow> i32 (psums row' p) =
       i32 (psums row p + covered wm (take ?n (crossings it')) (ox * SX g + int p * SX g) (SX g))"
    using accumulate_row_ok [OF box refl nl nx(3) n24, of row wm] row by (auto simp: row_state_def)
  have "i32 (psums row' p) = i32 (part_cover g wm E (ox + int p) y + row_cover g wm E (ox + int p) y)" if p: "int p < w" for p
  proof -
    have "covered wm (take ?n (crossings it')) (ox * SX g + int p * SX g) (SX g) = row_cover g wm E (ox + int p) y"
      by (simp add: row_cover_def covered_def inside_mset [OF nx(4)] distrib_right)
    moreover have "i32 (psums row p) = i32 (part_cover g wm E (ox + int p) y)" using row p by (simp add: row_state_def)
    ultimately show ?thesis using r(3) [OF p] i32_cong_add by metis
  qed
  moreover have "ScanlineIterator_curY it' = y"
  proof -
    have "nextY it' = y + 1" using nx(2) by (simp add: scan_state_def)
    moreover have "\<bar>y\<bar> < 2 ^ 24" using E y by (auto simp: small_edges_def row_range_def)
    ultimately show ?thesis by (simp add: ScanlineIterator_curY_def i32_small abs_less_iff)
  qed
  ultimately show thesis using that nx(1,2) r(1,2) by blast
qed

lemma sample_rows_ok:
  assumes E: "small_edges ya yb E" and al: "plenty alloc" and box: "box_ok g (ox * SX g) w"
    and fit: "((y1 + SY g - 1) div SY g - oy) * w \<le> int (length out)" "int (length out) < 2 ^ 31" and y1: "y1 \<le> yb"
    and st: "scan_state ya yb E y rdr it" "sampleRowMax rdr = y1" "ya \<le> y" "y \<le> y1" "row_state g wm E ox w y row"
      "mask_rows g wm E ox oy w (y div SY g - oy) out (alphas ac)" "oy \<le> y div SY g" "ac_width ac = w" "originY ac = oy"
  shows "\<exists>rdr' ac' row'. sample_rows alloc g wm (ox * SX g) (ox * SX g + w * SX g) rdr it ac row yl =
      Some (if y < y1 then y1 - 1 else yl, rdr', ac', row') \<and> row_state g wm E ox w y1 row' \<and>
      mask_rows g wm E ox oy w (y1 div SY g - oy) out (alphas ac') \<and> ac_width ac' = w \<and> originY ac' = oy"
  using st
proof (induction "nat (y1 - y)" arbitrary: y rdr it ac row yl)
  case 0
  then have "y = y1" by simp
  then have "\<not> ScanlineIterator_hasNext rdr it" using 0 by (simp add: ScanlineIterator_hasNext_def scan_state_def)
  then show ?case using 0 \<open>y = y1\<close> by (subst sample_rows.simps) simp
next
  case (Suc k)
  note IH = Suc.hyps(1) and sc = Suc.prems(1)
  have lt: "y < y1" "y < yb" using Suc.hyps(2) y1 by linarith+
  have g: "globals_ok g" and w: "0 < w" using box by (auto simp: box_ok_def)
  note S = globals_pos(2) [OF g]
  have hn: "ScanlineIterator_hasNext rdr it" using lt(1) sc Suc.prems(2) by (simp add: ScanlineIterator_hasNext_def scan_state_def)
  obtain n es it' row1 where r: "ScanlineIterator_next alloc rdr it = Some (n, rdr\<lparr>edges := es\<rparr>, it')"
    "scan_state ya yb E (y + 1) (rdr\<lparr>edges := es\<rparr>) it'" "ScanlineIterator_curY it' = y"
    "accumulate_row g wm (ox * SX g) (ox * SX g + w * SX g) n (crossings it') row = Some row1" "length row1 = length row"
    "\<And>p. int p < w \<Longrightarrow> i32 (psums row1 p) = i32 (part_cover g wm E (ox + int p) y + row_cover g wm E (ox + int p) y)"
    using cover_row [OF E sc Suc.prems(3) lt(2) al box Suc.prems(5)] by blast
  have msk: "y AND SUBPIXEL_MASK_Y g = SUBPIXEL_MASK_Y g \<longleftrightarrow> y mod SY g = SY g - 1"
    using g by (simp add: sub_arith(4) [OF g]) (simp add: globals_ok_def)
  let ?rdr = "rdr\<lparr>edges := es\<rparr>"
  have k: "k = nat (y1 - (y + 1))" using Suc.hyps(2) by linarith
  obtain ac2 row2 where e: "(if y AND SUBPIXEL_MASK_Y g = SUBPIXEL_MASK_Y g
       then setAndClearRelativeAlphas g (drop_bit (nat (SUBPIXEL_LG_POSITIONS_Y g)) y) ac row1 else Some (ac, row1)) = Some (ac2, row2)"
    "row_state g wm E ox w (y + 1) row2" "mask_rows g wm E ox oy w ((y + 1) div SY g - oy) out (alphas ac2)"
    "oy \<le> (y + 1) div SY g" "ac_width ac2 = w" "originY ac2 = oy"
  proof (cases "y mod SY g = SY g - 1")
    case True
    let ?n = "y div SY g - oy"
    have n: "0 \<le> ?n" using Suc.prems(7) by simp
    have yd: "drop_bit (nat (SUBPIXEL_LG_POSITIONS_Y g)) y = oy + ?n" by (simp add: sub_arith(3) [OF g])
    have "y + 1 \<le> y1 + SY g - 1" using lt S by linarith
    then have "(y + 1) div SY g \<le> (y1 + SY g - 1) div SY g" using S by (intro zdiv_mono1) auto
    then have "(?n + 1) * w \<le> ((y1 + SY g - 1) div SY g - oy) * w"
      using next_sample_row(1) [OF S True] w by (intro mult_right_mono) auto
    then have fn: "(?n + 1) * w \<le> int (length out)" using fit(1) by linarith
    have rw: "w + 2 \<le> int (length row1)" using Suc.prems(5) r(5) by (simp add: row_state_def)
    have pc: "i32 (psums row1 p) = i32 (pixel_cover g wm E (ox + int p) (oy + ?n))" if "int p < w" for p
      using r(6) [OF that] part_cover_next(1) [OF g True] by simp
    obtain out2 row' where "setAndClearRelativeAlphas g (oy + ?n) ac row1 = Some (ac\<lparr>alphas := out2\<rparr>, row')"
      "mask_rows g wm E ox oy w (?n + 1) out out2" "length row' = length row1" "\<And>p. int p < w \<Longrightarrow> psums row' p = 0"
      using emit_row [OF box Suc.prems(8,9,6) n fn fit(2) rw pc] by blast
    then show thesis using True msk yd rw Suc.prems(8,9) n next_sample_row(1) [OF S True] part_cover_next(2) [OF g True]
      by (intro that [of "ac\<lparr>alphas := out2\<rparr>" row']) (auto simp: row_state_def algebra_simps)
  next
    case False
    then show thesis
      using msk r(5,6) Suc.prems(5-9) next_sample_row(2) [OF S False] part_cover_next(3) [OF g False]
      by (intro that [of ac row1]) (auto simp: row_state_def)
  qed
  have "\<exists>rdr' ac' row'. sample_rows alloc g wm (ox * SX g) (ox * SX g + w * SX g) ?rdr it' ac2 row2 y =
      Some (if y + 1 < y1 then y1 - 1 else y, rdr', ac', row') \<and> row_state g wm E ox w y1 row' \<and>
      mask_rows g wm E ox oy w (y1 div SY g - oy) out (alphas ac') \<and> ac_width ac' = w \<and> originY ac' = oy"
    using Suc.prems(2,3) lt by (intro IH [OF k r(2)] e(2-6)) auto
  moreover have "(if y + 1 < y1 then y1 - 1 else y) = y1 - 1" using lt by auto
  moreover have "sample_rows alloc g wm (ox * SX g) (ox * SX g + w * SX g) rdr it ac row yl =
      sample_rows alloc g wm (ox * SX g) (ox * SX g + w * SX g) ?rdr it' ac2 row2 y"
    by (subst sample_rows.simps) (simp only: hn if_True r Option.bind_lunit prod.case Let_def e(1))
  ultimately show ?case using lt(1) by simp
qed


section \<open>The mask of an edge list\<close>

lemma inactive_outside:
  assumes "edge_list ya yb E this"
  shows "y < sampleRowMin this \<Longrightarrow> active E y = []" "sampleRowMax this \<le> y \<Longrightarrow> active E y = []"
proof -
  have m: "sampleRowMin this = Min (insert yb (e_first ` set E))" "sampleRowMax this = Max (insert ya (e_last ` set E))"
    using assms by (auto simp: edge_list_def)
  have "sampleRowMin this \<le> e_first e" "e_last e \<le> sampleRowMax this" if "e \<in> set E" for e
    unfolding m using that by (auto intro: Min_le Max_ge)
  then have "sampleRowMin this \<le> e_first (E ! k)" "e_last (E ! k) \<le> sampleRowMax this" if "k < length E" for k
    using that by simp_all
  then show "y < sampleRowMin this \<Longrightarrow> active E y = []" "sampleRowMax this \<le> y \<Longrightarrow> active E y = []"
    by (force simp: active_def filter_empty_conv)+
qed

lemma edge_list_rows:
  assumes "edge_list ya yb E this" "E \<noteq> []"
  shows "ya \<le> sampleRowMin this" "sampleRowMin this < sampleRowMax this" "sampleRowMax this \<le> yb"
    "\<And>k. k < length E \<Longrightarrow> sampleRowMin this \<le> e_first (E ! k)"
proof -
  have r: "ya \<le> e_first e \<and> e_first e < e_last e \<and> e_last e \<le> yb" if "e \<in> set E" for e
    using assms(1) that by (simp add: edge_list_def edge_store_def)
  have m: "sampleRowMin this = Min (insert yb (e_first ` set E))" "sampleRowMax this = Max (insert ya (e_last ` set E))"
    using assms by (auto simp: edge_list_def)
  obtain e where e: "e \<in> set E" using assms(2) by (cases E) auto
  have "ya \<le> yb" using r [OF e] by linarith
  then show "ya \<le> sampleRowMin this" "sampleRowMax this \<le> yb" unfolding m using r by auto
  have "sampleRowMin this \<le> e_first e" "e_last e \<le> sampleRowMax this" unfolding m using e by (auto intro: Min_le Max_ge)
  then show "sampleRowMin this < sampleRowMax this" using r [OF e] by linarith
  show "sampleRowMin this \<le> e_first (E ! k)" if "k < length E" for k
    unfolding m using that by (intro Min_le) auto
qed

lemma scan_start:
  assumes "edge_list ya yb E this" "E \<noteq> []" "plenty alloc"
  shows "scan_state ya yb E (sampleRowMin this) this (ScanlineIterator_init alloc this)"
proof -
  let ?y = "sampleRowMin this"
  have "fields_at (edges this) E (\<lambda>k. e_x (E ! k))" using assms(1) by (simp add: edge_list_def edge_store_def)
  then have "fields_at (edges this) E (scan_x E ?y)"
  proof (rule fields_at_cong [rotated])
    fix k assume k: "k < length E"
    have "e_first (E ! k) < e_last (E ! k)" using assms(1) k by (simp add: edge_list_def edge_store_def)
    then have "max (e_first (E ! k)) (min ?y (e_last (E ! k))) = e_first (E ! k)" using edge_list_rows(4) [OF assms(1,2) k] by linarith
    then show "e_x (E ! k) = scan_x E ?y k" by (simp add: scan_x_def edge_at_def)
  qed
  moreover have "active E (?y - 1) = []" using inactive_outside(1) [OF assms(1)] by simp
  ultimately show ?thesis
    using assms by (simp add: scan_state_def edge_list_def edge_store_def ScanlineIterator_init_def ScanlineIterator_reset_def
      new_int_def plenty_def)
qed

lemma part_cover_start: "(\<And>y'. y' < y \<Longrightarrow> active E y' = []) \<Longrightarrow> part_cover g wm E px y = 0"
  by (simp add: part_cover_def row_cover_outside)

lemma part_cover_end:
  assumes g: "globals_ok g" and y: "(y - 1) mod SY g \<noteq> SY g - 1" and out: "\<And>y'. y \<le> y' \<Longrightarrow> active E y' = []"
  shows "part_cover g wm E px y = pixel_cover g wm E px (y div SY g)"
proof -
  note S = globals_pos(2) [OF g]
  define P where "P = y div SY g * SY g"
  have "y = P + y mod SY g" "0 \<le> y mod SY g" "y mod SY g < SY g" using S by (simp_all add: P_def)
  then have P: "P \<le> y" "y \<le> P + SY g" by linarith+
  have "pixel_cover g wm E px (y div SY g) = (\<Sum>y' \<in> {P..<P + SY g}. row_cover g wm E px y')"
    by (simp add: pixel_cover_sum P_def distrib_right)
  also have "{P..<P + SY g} = {P..<y} \<union> {y..<P + SY g}" using P by auto
  also have "(\<Sum>y' \<in> {P..<y} \<union> {y..<P + SY g}. row_cover g wm E px y') = (\<Sum>y' \<in> {P..<y}. row_cover g wm E px y')"
    by (subst sum.union_disjoint) (use out in \<open>auto simp: row_cover_outside\<close>)
  finally show ?thesis by (simp add: part_cover_def P_def)
qed

lemma Arrays_fill_zero:
  assumes "0 \<le> n" "n \<le> int (length a)"
  obtains a' where "Arrays_fill a 0 n (0::int) = Some a'" "length a' = length a" "\<forall>i < nat n. a' ! i = 0"
proof -
  have "\<exists>t. Arrays_fill a 0 n (0::int) = Some t \<and> length t = length a \<and> (\<forall>i < nat n. t ! i = 0)"
    unfolding Arrays_fill_def diff_zero
  proof (rule for_loop_inv [where P = "\<lambda>i t. length t = length a \<and> (\<forall>j < nat i. t ! j = 0)"])
    fix j t assume *: "0 \<le> j" "j < n" "length t = length a \<and> (\<forall>i < nat j. t ! i = (0::int))"
    then have "nat (j + 1) = Suc (nat j)" "nat j < length t" using assms by auto
    then show "\<exists>t'. wr t (0 + j) 0 = Some t' \<and> length t' = length a \<and> (\<forall>i < nat (j + 1). t' ! i = 0)"
      using * by (auto simp: nth_list_update less_Suc_eq)
  qed (use assms in auto)
  then show thesis using that by blast
qed

lemma Renderer_produceAlphas_ok:
  assumes el: "edge_list ya yb E this" and E: "small_edges ya yb E" "E \<noteq> []" and al: "plenty alloc" "length savedAlpha = 1024"
    and box: "box_ok g (ox * SX g) w"
    and ac: "originX ac = ox" "originY ac = oy" "ac_width ac = w" and oy: "oy = sampleRowMin this div SY g"
    and h: "h = (sampleRowMax this + SY g - 1) div SY g - oy" "h * w \<le> int (length (alphas ac))" "int (length (alphas ac)) < 2 ^ 31"
    and wm: "wm = (if windingRule this = WIND_EVEN_ODD then 1 else - 1)"
  obtains this' ac' where "Renderer_produceAlphas alloc savedAlpha g this ac = Some (this', ac')"
    "mask_rows g wm E ox oy w h (alphas ac) (alphas ac')"
proof -
  let ?y0 = "sampleRowMin this" and ?y1 = "sampleRowMax this"
  have g: "globals_ok g" and w: "0 < w" "w + 2 < 2 ^ 31" using box by (auto simp: box_ok_def)
  note S = globals_pos(2) [OF g] and rows = edge_list_rows [OF el E(2)]
  have i: "i32 (w + 2) = w + 2" "i32 (ox * SX g) = ox * SX g" "i32 (ox * SX g + w * SX g) = ox * SX g + w * SX g"
  proof -
    have b: "- (2 ^ 31) \<le> ox * SX g" "ox * SX g + w * SX g < 2 ^ 31" using box by (auto simp: box_ok_def)
    have "0 < w * SX g" using w globals_pos(1) [OF g] by simp
    then show "i32 (w + 2) = w + 2" "i32 (ox * SX g) = ox * SX g" "i32 (ox * SX g + w * SX g) = ox * SX g + w * SX g"
      using b w by (simp_all add: i32_small)
  qed
  define buf where "buf = (if 1024 < w + 2 then new_int alloc (w + 2) else savedAlpha)"
  have "w + 2 \<le> int (length buf)" using al w by (auto simp: buf_def new_int_def plenty_def)
  then obtain row where row: "Arrays_fill buf 0 (w + 2) 0 = Some row" "length row = length buf" "\<forall>i < nat (w + 2). row ! i = 0"
    using Arrays_fill_zero [of "w + 2" buf] w by auto
  have z: "psums row p = 0" if "int p < w" for p
    using row \<open>w + 2 \<le> int (length buf)\<close> that by (intro psums_zero [of "nat (w + 2)"]) auto
  have rs: "row_state g wm E ox w ?y0 row"
    using z row(2) \<open>w + 2 \<le> int (length buf)\<close> part_cover_start [OF inactive_outside(1) [OF el]] by (simp add: row_state_def)
  have mr: "mask_rows g wm E ox oy w (?y0 div SY g - oy) (alphas ac) (alphas ac)" by (simp add: mask_rows_def oy)
  obtain rdr' ac1 row1 where s: "sample_rows alloc g wm (ox * SX g) (ox * SX g + w * SX g) this (ScanlineIterator_init alloc this) ac row (boundsMinY this) =
      Some (?y1 - 1, rdr', ac1, row1)" "row_state g wm E ox w ?y1 row1"
    "mask_rows g wm E ox oy w (?y1 div SY g - oy) (alphas ac) (alphas ac1)" "ac_width ac1 = w" "originY ac1 = oy"
    using sample_rows_ok [OF E(1) al(1) box h(2) [unfolded h(1)] h(3) rows(3) scan_start [OF el E(2) al(1)] refl rows(1) _ rs mr, of "boundsMinY this"]
      oy ac rows(2) by auto
  have hh: "h = (?y1 - 1) div SY g + 1 - oy"
  proof -
    have "(?y1 + SY g - 1) div SY g = (?y1 - 1 + SY g) div SY g" by (simp add: algebra_simps)
    also have "\<dots> = (?y1 - 1) div SY g + 1" using S by (intro div_add_self2) simp
    finally show ?thesis by (simp add: h(1))
  qed
  have less: "(?y1 - 1) AND SUBPIXEL_MASK_Y g < SUBPIXEL_MASK_Y g \<longleftrightarrow> (?y1 - 1) mod SY g \<noteq> SY g - 1"
  proof -
    have "(?y1 - 1) mod SY g < SY g" using S by simp
    moreover have "SUBPIXEL_MASK_Y g = SY g - 1" using g by (simp add: globals_ok_def)
    ultimately show ?thesis unfolding sub_arith(4) [OF g] by linarith
  qed
  obtain ac2 row2 where fin: "(if (?y1 - 1) AND SUBPIXEL_MASK_Y g < SUBPIXEL_MASK_Y g
      then setAndClearRelativeAlphas g (drop_bit (nat (SUBPIXEL_LG_POSITIONS_Y g)) (?y1 - 1)) ac1 row1 else Some (ac1, row1)) = Some (ac2, row2)"
    "mask_rows g wm E ox oy w h (alphas ac) (alphas ac2)"
  proof (cases "(?y1 - 1) mod SY g = SY g - 1")
    case True
    then have "h = ?y1 div SY g - oy" using next_sample_row(1) [OF S True] hh by simp
    then show thesis using s(3) less True by (intro that [of ac1 row1]) simp_all
  next
    case False
    let ?n = "?y1 div SY g - oy"
    have e: "?y1 div SY g = (?y1 - 1) div SY g" using next_sample_row(2) [OF S False] by simp
    have n: "0 \<le> ?n" using zdiv_mono1 [of ?y0 ?y1 "SY g"] rows(2) S oy by simp
    have hn: "?n + 1 = h" using hh e by simp
    have fn: "(?n + 1) * w \<le> int (length (alphas ac))" using h(2) by (simp only: hn)
    have rw: "w + 2 \<le> int (length row1)" using s(2) by (simp add: row_state_def)
    have pc: "i32 (psums row1 p) = i32 (pixel_cover g wm E (ox + int p) (oy + ?n))" if "int p < w" for p
      using s(2) that part_cover_end [OF g False inactive_outside(2) [OF el]] by (simp add: row_state_def)
    obtain out2 row' where "setAndClearRelativeAlphas g (oy + ?n) ac1 row1 = Some (ac1\<lparr>alphas := out2\<rparr>, row')"
      "mask_rows g wm E ox oy w (?n + 1) (alphas ac) out2"
      using emit_row [OF box s(4,5,3) n fn h(3) rw pc] by blast
    then show thesis using False less e hn
      by (intro that [of "ac1\<lparr>alphas := out2\<rparr>" row']) (simp_all add: sub_arith(3) [OF g])
  qed
  show thesis
  proof (rule that [OF _ fin(2)])
    show "Renderer_produceAlphas alloc savedAlpha g this ac = Some (rdr', ac2)"
      unfolding Renderer_produceAlphas_def Let_def ac wm [symmetric] i sub_arith(5) [OF g] buf_def [symmetric] row(1) Option.bind_lunit
        s(1) prod.case fin(1) by simp
  qed
qed

end
