(* ===== verification/Prism_Setup.thy ===== *)
theory Prism_Setup
  imports Prism_Cover
begin

text \<open>
  The static variables of the rasteriser. \<^verbatim>\<open>Renderer_setup\<close> sets the number of sample positions and makes the alpha map for it,
  taking one of the two maps it keeps where it can.
\<close>

section \<open>The table of alphas\<close>

text \<open>The byte of a pixel of which \<open>i\<close> of \<open>n\<close> samples are covered: \<open>255 i / n\<close>, rounded to nearest.\<close>

definition alpha_table :: "int \<Rightarrow> jbyte list" where
  "alpha_table n = map (\<lambda>i. i8 ((i * 255 + n div 2) div n)) [0..n]"

lemma length_alpha_table: "0 \<le> n \<Longrightarrow> int (length (alpha_table n)) = n + 1"
  by (simp add: alpha_table_def)

lemma alpha_table_ends:
  assumes "0 < n"
  shows "alpha_table n ! 0 = 0" "alpha_table n ! nat n = i8 255"
proof -
  have "0 \<le> n div 2" "n div 2 < n" using assms by simp_all
  then have z: "n div 2 div n = 0" by (rule div_pos_pos_trivial)
  then show "alpha_table n ! 0 = 0" using assms by (simp add: alpha_table_def i8_def)
  have "(n * 255 + n div 2) div n = 255 + n div 2 div n" using assms by simp
  then show "alpha_table n ! nat n = i8 255" using assms z by (simp add: alpha_table_def)
qed

lemma fillAlphaMap_eq:
  assumes n: "0 < n" "n \<le> 2 ^ 20" and al: "alloc (n + 1)"
  shows "fillAlphaMap alloc n = Some (alpha_table n)"
proof -
  have "\<exists>t. fillAlphaMap alloc n = Some t \<and> int (length t) = n + 1 \<and> (\<forall>j < nat (n + 1). t ! j = alpha_table n ! j)"
    unfolding fillAlphaMap_def
  proof (rule for_loop_inv [where P = "\<lambda>i t. int (length t) = n + 1 \<and> (\<forall>j < nat i. t ! j = alpha_table n ! j)"])
    show "int (length (new_int alloc (n + 1))) = n + 1 \<and> (\<forall>j < nat 0. new_int alloc (n + 1) ! j = alpha_table n ! j)"
      using n al by (simp add: new_int_def)
  next
    fix i t assume i: "0 \<le> i" "i < n + 1" and t: "int (length t) = n + 1 \<and> (\<forall>j < nat i. t ! j = alpha_table n ! j)"
    have "c_div n 2 = Some (n div 2)" "0 \<le> n div 2" using n by (simp_all add: c_div_def)
    moreover have "i32 (i * 255 + n div 2) = i * 255 + n div 2" using n i by (intro i32_small) auto
    moreover have "c_div (i * 255 + n div 2) n = Some ((i * 255 + n div 2) div n)"
      using n i by (simp add: c_div_def sgn_if)
    moreover have "alpha_table n ! nat i = i8 ((i * 255 + n div 2) div n)" using i by (simp add: alpha_table_def)
    ultimately show "\<exists>t'. Option.bind (c_div n 2) (\<lambda>h. Option.bind (c_div (i32 (i * 255 + h)) n) (\<lambda>q. wr t i (i8 q))) = Some t' \<and>
        int (length t') = n + 1 \<and> (\<forall>j < nat (i + 1). t' ! j = alpha_table n ! j)"
      using i t by (auto simp: nat_add_distrib nth_list_update less_Suc_eq)
  qed (use n in simp)
  then obtain t where t: "fillAlphaMap alloc n = Some t" "int (length t) = n + 1" "\<forall>j < nat (n + 1). t ! j = alpha_table n ! j"
    by blast
  have "t = alpha_table n" using t n length_alpha_table [of n] by (intro nth_equalityI) auto
  then show ?thesis using t(1) by simp
qed

section \<open>The two maps\<close>

text \<open>Both maps are tables of their own size, or null.\<close>

definition maps_ok :: "raster_globals \<Rightarrow> bool" where
  "maps_ok g \<longleftrightarrow> (alphaMap g = [] \<or> alphaMap g = alpha_table (alphaMax g)) \<and>
     (altAlphaMap g = [] \<or> altAlphaMap g = alpha_table (altAlphaMax g))"

definition no_maps :: raster_globals where
  "no_maps = \<lparr>SUBPIXEL_LG_POSITIONS_X = 0, SUBPIXEL_LG_POSITIONS_Y = 0, SUBPIXEL_POSITIONS_X = 0, SUBPIXEL_POSITIONS_Y = 0,
     SUBPIXEL_MASK_X = 0, SUBPIXEL_MASK_Y = 0, alphaMap = [], alphaMax = 0, altAlphaMap = [], altAlphaMax = 0\<rparr>"

definition subpixels :: "raster_globals \<Rightarrow> jint list" where
  "subpixels g = [SUBPIXEL_LG_POSITIONS_X g, SUBPIXEL_LG_POSITIONS_Y g, SUBPIXEL_POSITIONS_X g, SUBPIXEL_POSITIONS_Y g,
     SUBPIXEL_MASK_X g, SUBPIXEL_MASK_Y g]"

lemma setMaxAlpha_ok:
  assumes "maps_ok g" "0 < n" "n \<le> 2 ^ 20" "alloc (n + 1)"
  shows "\<exists>g'. setMaxAlpha alloc n g = Some g' \<and> alphaMap g' = alpha_table n \<and> alphaMax g' = n \<and> maps_ok g' \<and> subpixels g' = subpixels g"
proof -
  have f: "fillAlphaMap alloc n = Some (alpha_table n)" using assms(2-4) by (rule fillAlphaMap_eq)
  consider "alphaMap g = []" | "alphaMap g \<noteq> []" "n = alphaMax g"
    | "alphaMap g \<noteq> []" "n \<noteq> alphaMax g" "altAlphaMap g \<noteq> []" "n = altAlphaMax g"
    | "alphaMap g \<noteq> []" "n \<noteq> alphaMax g" "altAlphaMap g = [] \<or> n \<noteq> altAlphaMax g" by blast
  then show ?thesis
    by cases (use assms(1) f in \<open>auto simp: setMaxAlpha_def maps_ok_def subpixels_def Let_def\<close>)
qed

text \<open>
  C22: setting the number of sample positions succeeds for up to twenty bits, whatever maps are kept from earlier calls. It
  leaves consistent static variables, and an alpha map that takes each number of covered samples to the nearest
  of 256 levels, from zero for none to 255 for all.
\<close>

theorem NativePiscesRasterizer_init_ok:
  assumes "maps_ok g" "0 \<le> lgx" "0 \<le> lgy" "lgx + lgy \<le> 20" "\<forall>s. re_alloc env s"
  shows "\<exists>g'. NativePiscesRasterizer_init env lgx lgy g = Some g' \<and> globals_ok g' \<and> maps_ok g' \<and>
    SUBPIXEL_LG_POSITIONS_X g' = lgx \<and> SUBPIXEL_LG_POSITIONS_Y g' = lgy \<and>
    alphaMap g' = alpha_table (2 ^ nat (lgx + lgy)) \<and> alphaMap g' ! 0 = 0 \<and> alphaMap g' ! (2 ^ nat (lgx + lgy)) = i8 255"
proof -
  let ?n = "(2::int) ^ nat (lgx + lgy)"
  have pw: "(2::int) ^ nat l \<le> 2 ^ 20" if "l \<le> 20" for l using that by (intro power_increasing) auto
  have n: "0 < ?n" "?n \<le> 2 ^ 20" using pw [OF assms(4)] by auto
  have small: "i32 p = p" "i32 (p - 1) = p - 1" if "0 < p" "p \<le> 2 ^ 20" for p using that by (simp_all add: i32_small)
  have i: "i32 (2 ^ nat lgx) = 2 ^ nat lgx" "i32 (2 ^ nat lgy) = 2 ^ nat lgy" "i32 (2 ^ nat lgx - 1) = 2 ^ nat lgx - 1"
    "i32 (2 ^ nat lgy - 1) = 2 ^ nat lgy - 1" "i32 ?n = ?n"
    using pw [of lgx] pw [of lgy] n assms(2-4) by (intro small; simp)+
  have m: "2 ^ nat lgx * 2 ^ nat lgy = ?n" using assms(2,3) by (simp add: nat_add_distrib power_add)
  define h where "h = g\<lparr>SUBPIXEL_LG_POSITIONS_X := lgx, SUBPIXEL_LG_POSITIONS_Y := lgy,
    SUBPIXEL_POSITIONS_X := 2 ^ nat lgx, SUBPIXEL_POSITIONS_Y := 2 ^ nat lgy,
    SUBPIXEL_MASK_X := 2 ^ nat lgx - 1, SUBPIXEL_MASK_Y := 2 ^ nat lgy - 1\<rparr>"
  have "maps_ok h" using assms(1) by (simp add: h_def maps_ok_def)
  then obtain g' where g': "setMaxAlpha (re_alloc env) ?n h = Some g'" "alphaMap g' = alpha_table ?n" "alphaMax g' = ?n" "maps_ok g'"
    "subpixels g' = subpixels h"
    using setMaxAlpha_ok [of h ?n] n assms(5) by blast
  have "globals_ok g'" "SUBPIXEL_LG_POSITIONS_X g' = lgx" "SUBPIXEL_LG_POSITIONS_Y g' = lgy"
    using g' assms(2-4) length_alpha_table [of ?n] m by (simp_all add: globals_ok_def subpixels_def h_def)
  moreover have "alpha_table ?n ! 0 = 0" "alpha_table ?n ! (2 ^ nat (lgx + lgy)) = i8 255"
    using alpha_table_ends [OF n(1)] by (simp_all add: nat_power_eq)
  moreover have "NativePiscesRasterizer_init env lgx lgy g = Some g'"
    using g'(1) assms(2-4) by (simp add: NativePiscesRasterizer_init_def Renderer_setup_def Let_def i m h_def)
  ultimately show ?thesis using g' by simp
qed

text \<open>An environment in which every request succeeds.\<close>

definition unlimited_env :: raster_env where
  "unlimited_env = \<lparr>re_alloc = (\<lambda>_. True), re_saved = replicate 1024 0, re_coords = True, re_commands = True, re_dashes = True,
     re_mask = True, re_class = True\<rparr>"

theorem NativePiscesRasterizer_init_ok_witness:
  "maps_ok no_maps \<and> (\<exists>g'. NativePiscesRasterizer_init unlimited_env 1 1 no_maps = Some g' \<and> globals_ok g' \<and>
     alphaMap g' = [0, 64, - 128, - 65, - 1])"
proof -
  have m: "maps_ok no_maps" by (simp add: maps_ok_def no_maps_def)
  moreover have "\<forall>s. re_alloc unlimited_env s" by (simp add: unlimited_env_def)
  moreover have "alpha_table (2 ^ nat (1 + 1)) = [0, 64, - 128, - 65, - 1]" by code_simp
  ultimately show ?thesis
    using NativePiscesRasterizer_init_ok [of no_maps 1 1 unlimited_env] by fastforce
qed

end
