(* ===== verification/Prism_Fill_Correct.thy ===== *)
theory Prism_Fill_Correct
  imports Prism_Alphas Prism_Setup
begin

text \<open>
  Filling a path, from the call Java makes to the bytes of its mask: the reading of the path, the edge list, the scan over
  the sample rows and the alpha map put together.
\<close>

section \<open>The bounds of the result\<close>

text \<open>The least box of pixels that holds the samples between the extreme columns and rows of the lines, within the clip.\<close>

definition out_bounds :: "raster_globals \<Rightarrow> int \<Rightarrow> int \<Rightarrow> int \<Rightarrow> int \<Rightarrow> line list \<Rightarrow> jint list" where
  "out_bounds g xa xb ya yb ls =
     (let (l, h) = extent ya yb ls; E = edges_of ya yb ls
      in [max (sample_ceil l) xa div SUBPIXEL_POSITIONS_X g,
          fold min (map e_first E) yb div SUBPIXEL_POSITIONS_Y g,
          (min (sample_ceil h) xb + SUBPIXEL_POSITIONS_X g - 1) div SUBPIXEL_POSITIONS_X g,
          (fold max (map e_last E) ya + SUBPIXEL_POSITIONS_Y g - 1) div SUBPIXEL_POSITIONS_Y g])"

text \<open>A clip whose samples have coordinates that floats hold exactly.\<close>

definition clip_ok :: "raster_globals \<Rightarrow> int \<Rightarrow> int \<Rightarrow> int \<Rightarrow> int \<Rightarrow> bool" where
  "clip_ok g x0 y0 x1 y1 \<longleftrightarrow> y0 \<le> y1 \<and>
     \<bar>x0 * SUBPIXEL_POSITIONS_X g\<bar> < 2 ^ 24 \<and> \<bar>x1 * SUBPIXEL_POSITIONS_X g\<bar> < 2 ^ 24 \<and>
     \<bar>y0 * SUBPIXEL_POSITIONS_Y g\<bar> < 2 ^ 24 \<and> \<bar>y1 * SUBPIXEL_POSITIONS_Y g\<bar> < 2 ^ 24"

lemma abs_mult_ge:
  fixes a S :: int
  assumes "0 < S"
  shows "\<bar>a\<bar> \<le> \<bar>a * S\<bar>"
proof -
  have "\<bar>a\<bar> * 1 \<le> \<bar>a\<bar> * S" using assms by (intro mult_left_mono) auto
  then show ?thesis using assms by (simp add: abs_mult)
qed

lemma sample_ceil_jint: "- (2 ^ 31) \<le> sample_ceil v" "sample_ceil v < 2 ^ 31"
  by (auto simp: sample_ceil_def fp_to_jint_def is_jint_def split: option.splits if_splits)

lemma out_bounds_drawn:
  assumes "drawn_lines ya yb ls this"
  shows "out_bounds g xa xb ya yb ls =
    [max (sample_ceil (edgeMinX this)) xa div SX g, sampleRowMin this div SY g,
     (min (sample_ceil (edgeMaxX this)) xb + SX g - 1) div SX g, (sampleRowMax this + SY g - 1) div SY g]"
proof -
  let ?E = "edges_of ya yb ls"
  have "extent ya yb ls = (edgeMinX this, edgeMaxX this)" using assms by (simp add: drawn_lines_def)
  moreover have "fold min (map e_first ?E) yb = sampleRowMin this" "fold max (map e_last ?E) ya = sampleRowMax this"
    using assms Min.set_eq_fold [of yb "map e_first ?E"] Max.set_eq_fold [of ya "map e_last ?E"]
    by (simp_all add: drawn_lines_def edge_list_def)
  ultimately show ?thesis by (simp add: out_bounds_def)
qed

lemma getOutputBounds_eq:
  assumes g: "globals_ok g" and d: "drawn_lines ya yb ls this" and y: "row_range ya yb"
    and x: "boundsMinX this = xa" "boundsMaxX this = xb" "\<bar>xb\<bar> < 2 ^ 24"
  shows "Renderer_getOutputBounds g this = out_bounds g xa xb ya yb ls"
proof -
  note S = globals_pos [OF g]
  have mk: "SUBPIXEL_MASK_X g = SX g - 1" "SUBPIXEL_MASK_Y g = SY g - 1" using g by (simp_all add: globals_ok_def)
  have "\<forall>e \<in> set (edges_of ya yb ls). e_last e \<le> yb" using d by (simp add: drawn_lines_def edge_list_def edge_store_def)
  moreover have "sampleRowMax this = Max (insert ya (e_last ` set (edges_of ya yb ls)))"
    using d by (simp add: drawn_lines_def edge_list_def)
  ultimately have "ya \<le> sampleRowMax this" "sampleRowMax this \<le> yb" using y by (auto simp: row_range_def)
  then have "i32 (sampleRowMax this + SUBPIXEL_MASK_Y g) = sampleRowMax this + SY g - 1"
    using S y by (auto simp: mk row_range_def i32_small abs_less_iff)
  moreover have "i32 (min (sample_ceil (edgeMaxX this)) xb + SUBPIXEL_MASK_X g) = min (sample_ceil (edgeMaxX this)) xb + SX g - 1"
    using S x sample_ceil_jint [of "edgeMaxX this"] by (auto simp: mk i32_small abs_less_iff min_def)
  ultimately show ?thesis
    by (simp add: Renderer_getOutputBounds_def out_bounds_drawn [OF d] getOutpixMinX_def getOutpixMaxX_def getOutpixMinY_def
      getOutpixMaxY_def getSubpixMinX_def getSubpixMaxX_def x sub_arith [OF g])
qed

section \<open>A new renderer\<close>

abbreviation (input) no_lines :: raster_abs where
  "no_lines \<equiv> ([], fint 0, fint 0, fint 0, fint 0)"

lemma clip_small:
  assumes "globals_ok g" "clip_ok g x0 y0 x1 y1"
  shows "\<bar>x0\<bar> < 2 ^ 24" "\<bar>x1\<bar> < 2 ^ 24" "\<bar>y0\<bar> < 2 ^ 24" "\<bar>y1\<bar> < 2 ^ 24"
  using assms(2) abs_mult_ge [OF globals_pos(1) [OF assms(1)], of x0] abs_mult_ge [OF globals_pos(1) [OF assms(1)], of x1]
    abs_mult_ge [OF globals_pos(2) [OF assms(1)], of y0] abs_mult_ge [OF globals_pos(2) [OF assms(1)], of y1]
  by (auto simp: clip_ok_def)

lemma reset_drawn:
  assumes g: "globals_ok g" and b: "clip_ok g x0 y0 x1 y1" and al: "plenty alloc"
  obtains this where
    "Renderer_reset alloc g x0 y0 (i32 (x1 - x0)) (i32 (y1 - y0)) rule Renderer_init = Some this"
    "raster_rel alloc (y0 * SY g) (y1 * SY g) (x0 * SX g, x1 * SX g, rule) no_lines this"
proof -
  note S = globals_pos [OF g]
  let ?ya = "y0 * SY g" and ?yb = "y1 * SY g"
  have i: "i32 (x1 - x0) = x1 - x0" "i32 (y1 - y0) = y1 - y0"
    using clip_small [OF g b] by (simp_all add: i32_small abs_less_iff)
  have j: "i32 (x0 * SX g) = x0 * SX g" "i32 (x1 * SX g) = x1 * SX g" "i32 ?ya = ?ya" "i32 ?yb = ?yb"
    "i32 (?yb - ?ya) = ?yb - ?ya" "i32 (?yb * 2 - ?ya * 2 + 2) = ?yb * 2 - ?ya * 2 + 2"
    using b by (simp_all add: clip_ok_def i32_small abs_less_iff)
  have r: "row_range ?ya ?yb" using b S by (simp add: clip_ok_def row_range_def mult_right_mono)
  then have "edge_list ?ya ?yb [] this" if "boundsMinY this = ?ya" "boundsMaxY this = ?yb" "numEdges this = 0"
      "edgesSIZE this = int (length (edges this))" "edgeBuckets this = replicate (nat ((?yb - ?ya) * 2 + 2)) 0"
      "sampleRowMin this = ?yb" "sampleRowMax this = ?ya" for this
    using that by (auto simp: edge_list_def edge_store_def fields_at_def buckets_at_def starting_def row_range_def)
  then show thesis
    using r al
    by (intro that) (auto simp: Renderer_reset_def Renderer_init_def Let_def i j drawn_lines_def edges_of_def map_filter_def
      extent_def new_int_def new_float_def plenty_def row_range_def)
qed


section \<open>From the path to the mask\<close>

lemma div_below:
  fixes a b S :: int
  assumes "0 < S" "b \<le> a * S"
  shows "(b + S - 1) div S \<le> a"
proof -
  have "(b + S - 1) div S \<le> (a * S + (S - 1)) div S" using assms by (intro zdiv_mono1) auto
  also have "\<dots> = a" using assms by (simp add: div_pos_pos_trivial)
  finally show ?thesis .
qed

lemma div_above:
  fixes a b S :: int
  assumes "0 < S" "a * S \<le> b"
  shows "a \<le> b div S"
  using zdiv_mono1 [OF assms(2,1)] assms(1) by simp

text \<open>The result of the common end of the entry points, for a renderer that holds the lines \<open>ls\<close>.\<close>

definition mask_result ::
    "raster_env \<Rightarrow> raster_globals \<Rightarrow> string \<Rightarrow> jint \<Rightarrow> edge list \<Rightarrow> jint list \<Rightarrow> jint list \<Rightarrow> jbyte list \<Rightarrow> raster_result \<Rightarrow> bool" where
  "mask_result env g detail rule E B bounds bytes r \<longleftrightarrow>
     rr_bounds r = B @ drop 4 bounds \<and>
     (if B ! 0 < B ! 2 \<and> B ! 1 < B ! 3 then
        (if int (length bytes) div (B ! 2 - B ! 0) < B ! 3 - B ! 1
         then rr_mask r = bytes \<and>
              rr_thrown r = Some (if re_class env then ArrayIndexOutOfBoundsException detail else NoClassDefFoundError)
         else rr_thrown r = None \<and>
              mask_rows g (if rule = WIND_EVEN_ODD then 1 else - 1) E (B ! 0) (B ! 1) (B ! 2 - B ! 0) (B ! 3 - B ! 1)
                bytes (rr_mask r))
      else rr_mask r = bytes \<and> rr_thrown r = None)"

definition raster_env_ok :: "raster_env \<Rightarrow> bool" where
  "raster_env_ok env \<longleftrightarrow> plenty (re_alloc env) \<and> length (re_saved env) = 1024 \<and> re_coords env \<and> re_commands env \<and> re_mask env"

lemma produce_mask_ok:
  assumes env: "raster_env_ok env" and g: "globals_ok g" and b: "clip_ok g x0 y0 x1 y1"
    and rel: "raster_rel alloc (y0 * SY g) (y1 * SY g) (x0 * SX g, x1 * SX g, rule) (ls, pos) this" and few: "few ls"
    and len: "int (length bytes) < 2 ^ 31"
  obtains r where "produce_mask env g detail this \<lparr>rr_bounds = bounds, rr_mask = bytes, rr_thrown = None\<rparr> = Some r"
    "mask_result env g detail rule (edges_of (y0 * SY g) (y1 * SY g) ls)
       (out_bounds g (x0 * SX g) (x1 * SX g) (y0 * SY g) (y1 * SY g) ls) bounds bytes r"
proof -
  note S = globals_pos [OF g]
  let ?ya = "y0 * SY g" and ?yb = "y1 * SY g" and ?xa = "x0 * SX g" and ?xb = "x1 * SX g"
  let ?E = "edges_of ?ya ?yb ls" and ?B = "out_bounds g ?xa ?xb ?ya ?yb ls"
  let ?r = "\<lparr>rr_bounds = bounds, rr_mask = bytes, rr_thrown = None\<rparr>"
  obtain px py sx sy where pos: "pos = (px, py, sx, sy)" by (cases pos) auto
  have d: "drawn_lines ?ya ?yb ls this" "row_range ?ya ?yb" "boundsMinX this = ?xa" "boundsMaxX this = ?xb" "windingRule this = rule"
    using rel by (simp_all add: pos)
  have B: "Renderer_getOutputBounds g this = ?B"
    using b by (intro getOutputBounds_eq [OF g d(1,2) d(3,4)]) (simp add: clip_ok_def)
  define bx0 by0 bx1 by1 where Bv: "bx0 = max (sample_ceil (edgeMinX this)) ?xa div SX g" "by0 = sampleRowMin this div SY g"
    "bx1 = (min (sample_ceil (edgeMaxX this)) ?xb + SX g - 1) div SX g" "by1 = (sampleRowMax this + SY g - 1) div SY g"
  have BB: "?B = [bx0, by0, bx1, by1]" by (simp add: out_bounds_drawn [OF d(1)] Bv)
  show thesis
  proof (cases "bx0 < bx1 \<and> by0 < by1")
    case False
    then show thesis
      by (intro that [of "?r\<lparr>rr_bounds := ?B @ drop 4 bounds\<rparr>"]) (auto simp: produce_mask_def B BB mask_result_def)
  next
    case True
    have el: "edge_list ?ya ?yb ?E this" using d(1) by (simp add: drawn_lines_def)
    have ne: "?E \<noteq> []"
    proof
      assume "?E = []"
      then have "sampleRowMin this = ?yb" "sampleRowMax this = ?ya" using el by (simp_all add: edge_list_def)
      then have "by0 = y1" "by1 \<le> y0" using S div_below [of "SY g" "y0 * SY g" y0] by (simp_all add: Bv)
      then show False using True b by (simp add: clip_ok_def)
    qed
    have small: "small_edges ?ya ?yb ?E"
      using el few d(2) length_edges_of [of ?ya ?yb ls] by (simp add: small_edges_def few_def edge_list_def edge_store_def)
    have xs: "x0 \<le> bx0" "bx1 \<le> x1" "y0 \<le> by0" "by1 \<le> y1"
      unfolding Bv using S edge_list_rows [OF el ne] by (intro div_above div_below; simp)+
    define w where "w = bx1 - bx0"
    have w: "0 < w" "w < 2 ^ 25" "i32 w = w" "i32 (by1 - by0) = by1 - by0"
    proof -
      have "\<bar>x0\<bar> < 2 ^ 24" "\<bar>x1\<bar> < 2 ^ 24" "\<bar>y0\<bar> < 2 ^ 24" "\<bar>y1\<bar> < 2 ^ 24" using clip_small [OF g b] by auto
      then show "0 < w" "w < 2 ^ 25" "i32 w = w" "i32 (by1 - by0) = by1 - by0"
        using True xs by (auto simp: w_def i32_small abs_less_iff)
    qed
    have box: "box_ok g (bx0 * SX g) w"
    proof -
      have "x0 * SX g \<le> bx0 * SX g" "bx1 * SX g \<le> x1 * SX g" using xs S by (simp_all add: mult_right_mono)
      then show ?thesis using w g b by (auto simp: box_ok_def w_def clip_ok_def left_diff_distrib abs_less_iff)
    qed
    let ?ac = "\<lparr>originX = bx0, originY = by0, ac_width = w, ac_height = by1 - by0, alphas = bytes\<rparr>"
    let ?r = "\<lparr>rr_bounds = ?B @ drop 4 bounds, rr_mask = bytes, rr_thrown = None\<rparr>"
    have q: "c_div (int (length bytes)) w = Some (int (length bytes) div w)"
      using w by (cases "bytes = []") (simp_all add: c_div_def)
    show thesis
    proof (cases "int (length bytes) div w < by1 - by0")
      case short: True
      show thesis
        by (rule that [of "Throw env (ArrayIndexOutOfBoundsException detail) ?r"])
          (use True short w in \<open>simp_all add: produce_mask_def B BB w_def [symmetric] q mask_result_def Throw_def Let_def\<close>)
    next
      case fits: False
      then have "(by1 - by0) * w \<le> int (length bytes) div w * w" using w by (intro mult_right_mono) auto
      also have "\<dots> \<le> int (length bytes)" using w by (simp flip: minus_mod_eq_div_mult)
      finally have hw: "(by1 - by0) * w \<le> int (length bytes)" .
      obtain this' ac' where p: "Renderer_produceAlphas (re_alloc env) (re_saved env) g this ?ac = Some (this', ac')"
        "mask_rows g (if windingRule this = WIND_EVEN_ODD then 1 else - 1) ?E bx0 by0 w (by1 - by0) bytes (alphas ac')"
        using Renderer_produceAlphas_ok [OF el small ne _ _ box, of "re_alloc env" "re_saved env" ?ac by0 "by1 - by0"] env Bv hw len
        by (auto simp: raster_env_ok_def)
      show thesis
        by (rule that [of "?r\<lparr>rr_mask := alphas ac'\<rparr>"])
          (use True fits w p env in \<open>simp_all add: produce_mask_def B BB w_def [symmetric] q mask_result_def Let_def d(5) raster_env_ok_def\<close>)
    qed
  qed
qed


text \<open>The lines of the calls, or nothing when a curve is never flattened.\<close>

definition path_lines :: "raster_globals \<Rightarrow> transformer \<Rightarrow> path_op list \<Rightarrow> line list option" where
  "path_lines g m ps = map_option fst (runs (raster_step g) (map (transformed (Transformer_init m) m) ps) no_lines)"

text \<open>Drawing a path: afterwards the renderer holds its lines.\<close>

lemma draw_path:
  assumes env: "raster_env_ok env" and g: "globals_ok g" and b: "clip_ok g (b ! 0) (b ! 1) (b ! 2) (b ! 3)"
    and path: "path_lines g m qs = Some ls" "few ls"
  obtains this this' pos where
    "Renderer_reset (re_alloc env) g (b ! 0) (b ! 1) (i32 (b ! 2 - b ! 0)) (i32 (b ! 3 - b ! 1)) rule Renderer_init = Some this"
    "runs (\<lambda>p. Renderer_consumer (re_alloc env) g (transformed (Transformer_init m) m p)) qs this = Some this'"
    "raster_rel (re_alloc env) (b ! 1 * SY g) (b ! 3 * SY g) (b ! 0 * SX g, b ! 2 * SX g, rule) (ls, pos) this'"
proof -
  let ?fr = "(b ! 0 * SX g, b ! 2 * SX g, rule)" and ?ya = "b ! 1 * SY g" and ?yb = "b ! 3 * SY g"
  let ?T = "transformed (Transformer_init m) m"
  have al: "plenty (re_alloc env)" using env by (simp add: raster_env_ok_def)
  obtain this where t: "Renderer_reset (re_alloc env) g (b ! 0) (b ! 1) (i32 (b ! 2 - b ! 0)) (i32 (b ! 3 - b ! 1)) rule Renderer_init = Some this"
    "raster_rel (re_alloc env) ?ya ?yb ?fr no_lines this"
    using reset_drawn [OF g b al] .
  obtain pos where a: "runs (raster_step g) (map ?T qs) no_lines = Some (ls, pos)" using path(1) by (auto simp: path_lines_def)
  obtain this' where t': "runs (Renderer_consumer (re_alloc env) g) (map ?T qs) this = Some this'"
    "raster_rel (re_alloc env) ?ya ?yb ?fr (ls, pos) this'"
    using raster.runs_simulates [OF t(2) a] path(2) by auto
  have "runs (\<lambda>p. Renderer_consumer (re_alloc env) g (?T p)) qs this = Some this'"
    using t'(1) runs_map [of "Renderer_consumer (re_alloc env) g" ?T] by metis
  then show thesis using that t(1) t'(2) by blast
qed

lemma fill_feed:
  assumes env: "raster_env_ok env" and g: "globals_ok g" and b: "4 \<le> length b" "clip_ok g (b ! 0) (b ! 1) (b ! 2) (b ! 3)"
    and len: "int (length coords) + 6 < 2 ^ 31" "numCommands \<le> int (length commands)"
    and parse: "parse_path (take (nat numCommands) commands) coords = (ps, failure)"
    and path: "path_lines g m (ps @ (if failure = None then [PathDone] else [])) = Some ls" "few ls"
  obtains this pos where
    "raster_rel (re_alloc env) (b ! 1 * SY g) (b ! 3 * SY g)
       (b ! 0 * SX g, b ! 2 * SX g, if nonzero then WIND_NON_ZERO else WIND_EVEN_ODD) (ls, pos) this"
    "produceFillAlphas env g (Some coords) (Some commands) numCommands nonzero m (Some b) (Some bytes) =
      (case failure of
         None \<Rightarrow> produce_mask env g ''maskArray'' this \<lparr>rr_bounds = b, rr_mask = bytes, rr_thrown = None\<rparr>
       | Some f \<Rightarrow> Some (report_failure env f \<lparr>rr_bounds = b, rr_mask = bytes, rr_thrown = None\<rparr>))"
proof -
  let ?rule = "if nonzero then WIND_NON_ZERO else WIND_EVEN_ODD" and ?T = "transformed (Transformer_init m) m"
  let ?qs = "ps @ (if failure = None then [PathDone] else [])"
  have al: "re_coords env" "re_commands env" using env by (simp_all add: raster_env_ok_def)
  obtain this this' pos where t: "Renderer_reset (re_alloc env) g (b ! 0) (b ! 1) (i32 (b ! 2 - b ! 0)) (i32 (b ! 3 - b ! 1)) ?rule Renderer_init = Some this"
    "runs (\<lambda>p. Renderer_consumer (re_alloc env) g (?T p)) ?qs this = Some this'"
    "raster_rel (re_alloc env) (b ! 1 * SY g) (b ! 3 * SY g) (b ! 0 * SX g, b ! 2 * SX g, ?rule) (ls, pos) this'"
    using draw_path [OF env g b(2) path] .
  then have f: "feedConsumer env (\<lambda>p. Renderer_consumer (re_alloc env) g (?T p)) coords (int (length coords))
      commands numCommands this = Some (failure, this')"
    using parse by (cases failure) (simp_all add: feedConsumer_eq [OF len al])
  have c: "check_arrays (Some coords) (Some commands) numCommands (Some b) (Some bytes) = None"
    using b(1) len(2) by (simp add: check_arrays_def)
  show thesis
    by (rule that [OF t(3)])
      (simp only: produceFillAlphas_def Let_def c option.case option.sel raster_result.simps t(1) f Option.bind_lunit prod.case)
qed

lemma snd_prefix_op [simp]: "snd (prefix_op p x) = snd x"
  by (cases x) simp

lemma parse_failure_nonempty: "snd (parse_path cmds cs) \<noteq> Some []"
  by (induction cmds cs rule: parse_path.induct) (simp_all split: list.split)

lemma mask_rows_map:
  "mask_rows g wm E ox oy w n out out' \<longleftrightarrow> out' = map (\<lambda>q.
     if int q < n * w then alphaMap g ! nat (pixel_cover g wm E (ox + int q mod w) (oy + int q div w)) else out ! q) [0..<length out]"
  by (auto simp: mask_rows_def intro: nth_equalityI)

lemma fill_mask:
  assumes "raster_env_ok env" "globals_ok g" "4 \<le> length b" "clip_ok g (b ! 0) (b ! 1) (b ! 2) (b ! 3)"
    "int (length coords) + 6 < 2 ^ 31" "numCommands \<le> int (length commands)" "int (length bytes) < 2 ^ 31"
    "parse_path (take (nat numCommands) commands) coords = (ps, None)" "path_lines g m (ps @ [PathDone]) = Some ls" "few ls"
  shows "\<exists>r. produceFillAlphas env g (Some coords) (Some commands) numCommands nonzero m (Some b) (Some bytes) = Some r \<and>
    mask_result env g ''maskArray'' (if nonzero then WIND_NON_ZERO else WIND_EVEN_ODD)
      (edges_of (b ! 1 * SUBPIXEL_POSITIONS_Y g) (b ! 3 * SUBPIXEL_POSITIONS_Y g) ls)
      (out_bounds g (b ! 0 * SUBPIXEL_POSITIONS_X g) (b ! 2 * SUBPIXEL_POSITIONS_X g)
        (b ! 1 * SUBPIXEL_POSITIONS_Y g) (b ! 3 * SUBPIXEL_POSITIONS_Y g) ls) b bytes r"
proof -
  obtain this pos where t: "raster_rel (re_alloc env) (b ! 1 * SY g) (b ! 3 * SY g)
       (b ! 0 * SX g, b ! 2 * SX g, if nonzero then WIND_NON_ZERO else WIND_EVEN_ODD) (ls, pos) this"
    "produceFillAlphas env g (Some coords) (Some commands) numCommands nonzero m (Some b) (Some bytes) =
      produce_mask env g ''maskArray'' this \<lparr>rr_bounds = b, rr_mask = bytes, rr_thrown = None\<rparr>"
    using fill_feed [OF assms(1-6,8) _ assms(10), of m nonzero bytes, unfolded option.case] assms(9) by (simp only: simp_thms if_True) blast
  then show ?thesis using produce_mask_ok [OF assms(1,2,4) t(1) assms(10,7)] by metis
qed

section \<open>A triangle\<close>

text \<open>Half of a square of two pixels, with two by two samples a pixel, for the witnesses.\<close>

definition two_by_two :: raster_globals where
  "two_by_two = \<lparr>SUBPIXEL_LG_POSITIONS_X = 1, SUBPIXEL_LG_POSITIONS_Y = 1, SUBPIXEL_POSITIONS_X = 2, SUBPIXEL_POSITIONS_Y = 2,
     SUBPIXEL_MASK_X = 1, SUBPIXEL_MASK_Y = 1, alphaMap = [0, 64, - 128, - 65, - 1], alphaMax = 4, altAlphaMap = [], altAlphaMax = 0\<rparr>"

definition unit_matrix :: transformer where
  "unit_matrix = \<lparr>t_mxx = fp_of_int F64 1, t_mxy = fp_zero F64 False, t_mxt = fp_zero F64 False,
     t_myx = fp_zero F64 False, t_myy = fp_of_int F64 1, t_myt = fp_zero F64 False\<rparr>"

definition triangle :: "path_op list" where
  "triangle = [MoveTo (fint 0) (fint 0), LineTo (fint 2) (fint 0), LineTo (fint 0) (fint 2), ClosePath]"

definition triangle_lines :: "line list" where
  "triangle_lines = (let z = fint 0; f = fint 4 in [(z, z, z, z), (z, z, f, z), (f, z, z, f), (z, f, z, z), (z, z, z, z)])"

lemma triangle_env: "raster_env_ok unlimited_env" "globals_ok two_by_two" "clip_ok two_by_two 0 0 3 3"
  by (simp_all add: raster_env_ok_def unlimited_env_def plenty_def globals_ok_def two_by_two_def clip_ok_def)

lemma triangle_parse: "parse_path (take (nat 4) [0, 1, 1, 4]) (map fint [0, 0, 2, 0, 0, 2]) = (triangle, None)"
  by (simp add: triangle_def)

lemma triangle_path: "path_lines two_by_two unit_matrix (triangle @ [PathDone]) = Some triangle_lines"
  by code_simp

lemma triangle_few: "few triangle_lines"
  by (simp add: few_def triangle_lines_def Let_def)

lemma triangle_bounds: "out_bounds two_by_two 0 6 0 6 triangle_lines = [0, 0, 2, 2]"
  by code_simp

lemma triangle_pixels:
  "map (\<lambda>(x, y). pixel_cover two_by_two (- 1) (edges_of 0 6 triangle_lines) x y) [(0, 0), (1, 0), (0, 1), (1, 1)] = [4, 1, 1, 0]"
  by code_simp

lemma triangle_mask:
  "mask_rows two_by_two (- 1) (edges_of 0 6 triangle_lines) 0 0 2 2 [7, 7, 7, 7, 7] m \<Longrightarrow> m = [- 1, 64, 64, 0, 7]"
  using triangle_pixels by (simp add: mask_rows_map two_by_two_def)

section \<open>Correctness of filling\<close>

text \<open>
  C5: filling a path, from the JNI call to the mask. When the path can be read, its curves are flattened and it has fewer than
  3355443 lines, the call returns; the bounds become the least box of pixels around the lines within the clip; if the box
  is empty nothing else happens; if the mask is too short for it an exception is thrown and the mask is left alone;
  otherwise every byte of the box is the entry of the alpha map at the number of samples of its pixel that lie
  inside the path by the winding rule, and every byte after the box is unchanged.
\<close>

theorem produceFillAlphas_correct:
  assumes "raster_env_ok env" "globals_ok g" "4 \<le> length b" "clip_ok g (b ! 0) (b ! 1) (b ! 2) (b ! 3)"
    "int (length coords) + 6 < 2 ^ 31" "numCommands \<le> int (length commands)" "int (length bytes) < 2 ^ 31"
    "parse_path (take (nat numCommands) commands) coords = (ps, None)" "path_lines g m (ps @ [PathDone]) = Some ls" "few ls"
  shows "\<exists>r. produceFillAlphas env g (Some coords) (Some commands) numCommands nonzero m (Some b) (Some bytes) = Some r \<and>
    mask_result env g ''maskArray'' (if nonzero then WIND_NON_ZERO else WIND_EVEN_ODD)
      (edges_of (b ! 1 * SUBPIXEL_POSITIONS_Y g) (b ! 3 * SUBPIXEL_POSITIONS_Y g) ls)
      (out_bounds g (b ! 0 * SUBPIXEL_POSITIONS_X g) (b ! 2 * SUBPIXEL_POSITIONS_X g)
        (b ! 1 * SUBPIXEL_POSITIONS_Y g) (b ! 3 * SUBPIXEL_POSITIONS_Y g) ls) b bytes r"
  by (rule fill_mask [OF assms])

theorem produceFillAlphas_correct_witness:
  "\<exists>r. produceFillAlphas unlimited_env two_by_two (Some (map fint [0, 0, 2, 0, 0, 2])) (Some [0, 1, 1, 4]) 4 True unit_matrix
     (Some [0, 0, 3, 3]) (Some [7, 7, 7, 7, 7]) = Some r \<and>
   rr_bounds r = [0, 0, 2, 2] \<and> rr_mask r = [- 1, 64, 64, 0, 7] \<and> rr_thrown r = None"
proof -
  have s: "SUBPIXEL_POSITIONS_X two_by_two = 2" "SUBPIXEL_POSITIONS_Y two_by_two = 2" by (simp_all add: two_by_two_def)
  have "\<exists>r. produceFillAlphas unlimited_env two_by_two (Some (map fint [0, 0, 2, 0, 0, 2])) (Some [0, 1, 1, 4]) 4 True unit_matrix
     (Some [0, 0, 3, 3]) (Some [7, 7, 7, 7, 7]) = Some r \<and>
     mask_result unlimited_env two_by_two ''maskArray'' 1 (edges_of 0 6 triangle_lines) [0, 0, 2, 2] [0, 0, 3, 3] [7, 7, 7, 7, 7] r"
    using produceFillAlphas_correct [of unlimited_env two_by_two "[0, 0, 3, 3]" "map fint [0, 0, 2, 0, 0, 2]" 4 "[0, 1, 1, 4]" "[7, 7, 7, 7, 7]"
        triangle unit_matrix triangle_lines True, OF triangle_env(1,2) _ _ _ _ _ triangle_parse triangle_path triangle_few]
      triangle_env(3) by (simp add: s triangle_bounds)
  then show ?thesis by (auto simp: mask_result_def dest: triangle_mask)
qed

text \<open>
  C25: a path with a segment that is none, or with too few coordinates, throws the exception its failure stands for, and
  leaves the bounds and the mask of the caller unchanged.
\<close>

theorem produceFillAlphas_bad_path:
  assumes "raster_env_ok env" "globals_ok g" "4 \<le> length b" "clip_ok g (b ! 0) (b ! 1) (b ! 2) (b ! 3)"
    "int (length coords) + 6 < 2 ^ 31" "numCommands \<le> int (length commands)"
    "parse_path (take (nat numCommands) commands) coords = (ps, Some f)" "path_lines g m ps = Some ls" "few ls"
  shows "produceFillAlphas env g (Some coords) (Some commands) numCommands nonzero m (Some b) (Some bytes) =
    Some \<lparr>rr_bounds = b, rr_mask = bytes,
          rr_thrown = Some (if \<not> re_class env then NoClassDefFoundError
                            else if hd f = CHR ''['' then ArrayIndexOutOfBoundsException (tl f) else InternalError f)\<rparr>"
proof -
  have "produceFillAlphas env g (Some coords) (Some commands) numCommands nonzero m (Some b) (Some bytes) =
      Some (report_failure env f \<lparr>rr_bounds = b, rr_mask = bytes, rr_thrown = None\<rparr>)"
    using fill_feed [OF assms(1-7) _ assms(9), of m nonzero bytes] assms(8) by auto
  then show ?thesis using parse_failure_nonempty [of "take (nat numCommands) commands" coords] assms(7) by (simp add: report_failure_def Throw_def)
qed


theorem produceFillAlphas_bad_path_witness:
  "produceFillAlphas unlimited_env two_by_two (Some [fint 0, fint 0]) (Some [0, 9]) 2 True unit_matrix (Some [0, 0, 3, 3]) (Some [7]) =
     Some \<lparr>rr_bounds = [0, 0, 3, 3], rr_mask = [7], rr_thrown = Some (InternalError ''unrecognized Path segment'')\<rparr>"
proof -
  have "path_lines two_by_two unit_matrix [MoveTo (fint 0) (fint 0)] = Some [(fint 0, fint 0, fint 0, fint 0)]" by code_simp
  then show ?thesis
    using produceFillAlphas_bad_path [of unlimited_env two_by_two "[0, 0, 3, 3]" "[fint 0, fint 0]" 2 "[0, 9]"
        "[MoveTo (fint 0) (fint 0)]" "''unrecognized Path segment''" unit_matrix "[(fint 0, fint 0, fint 0, fint 0)]" True "[7]"]
      triangle_env by (simp add: few_def unlimited_env_def)
qed


section \<open>Types of the results\<close>

definition is_jbyte :: "int \<Rightarrow> bool" where
  "is_jbyte v \<longleftrightarrow> - 128 \<le> v \<and> v < 128"

lemma is_jbyte_alpha_table: "v \<in> set (alpha_table n) \<Longrightarrow> is_jbyte v"
  by (auto simp: alpha_table_def i8_def is_jbyte_def signed_take_bit_int_greater_eq_minus_exp signed_take_bit_int_less_exp
      intro: order.trans [OF _ signed_take_bit_int_greater_eq_minus_exp] less_le_trans [OF signed_take_bit_int_less_exp])

lemma mask_rows_bytes:
  assumes "mask_rows g wm E ox oy w n out out'" "globals_ok g" "set (alphaMap g) \<subseteq> B" "set out \<subseteq> B"
  shows "set out' \<subseteq> B"
proof -
  have "nat (pixel_cover g wm E x y) < length (alphaMap g)" for x y
    using pixel_cover_bounds [OF assms(2)] assms(2) by (simp add: globals_ok_def nat_less_iff less_le_trans)
  then have "alphaMap g ! nat (pixel_cover g wm E x y) \<in> B" for x y using assms(3) by (meson nth_mem subsetD)
  then show ?thesis using assms(1,4) unfolding mask_rows_map by auto
qed

lemma edges_of_rows:
  assumes "e \<in> set (edges_of ya yb ls)"
  shows "ya \<le> e_first e" "e_first e < e_last e" "e_last e \<le> yb"
  using assms by (auto simp: edges_of_def map_filter_def Let_def not_le split: if_splits)

lemma is_jint_div:
  assumes "is_jint v" "0 < S"
  shows "is_jint (v div S)"
proof (cases "0 \<le> v")
  case True
  then have "0 \<le> v div S" "v div S \<le> v" using assms zdiv_mono2 [of v 1 S] by (simp_all add: pos_imp_zdiv_nonneg_iff)
  then show ?thesis using assms(1) by (simp add: is_jint_def)
next
  case False
  then have "v div S < 0" using assms by (simp add: neg_imp_zdiv_neg_iff pos_imp_zdiv_neg_iff)
  moreover have "v \<le> v div S"
    using div_above [of S v v] assms(2) False mult_left_mono_neg [of 1 S v] by simp
  ultimately show ?thesis using assms(1) by (simp add: is_jint_def)
qed

lemma out_bounds_jint:
  assumes g: "globals_ok g" and b: "clip_ok g x0 y0 x1 y1"
  shows "set (out_bounds g (x0 * SX g) (x1 * SX g) (y0 * SY g) (y1 * SY g) ls) \<subseteq> Collect is_jint"
proof -
  note S = globals_pos [OF g]
  let ?ya = "y0 * SY g" and ?yb = "y1 * SY g"
  let ?E = "edges_of ?ya ?yb ls"
  have y: "?ya \<le> ?yb" "\<bar>?ya\<bar> < 2 ^ 24" "\<bar>?yb\<bar> < 2 ^ 24" using b S by (simp_all add: clip_ok_def mult_right_mono)
  have "?ya \<le> fold min (map e_first ?E) ?yb \<and> fold min (map e_first ?E) ?yb \<le> ?yb"
    using y edges_of_rows [of _ ?ya ?yb ls] Min.set_eq_fold [of ?yb "map e_first ?E"] by (auto simp flip: Min.set_eq_fold)
  moreover have "?ya \<le> fold max (map e_last ?E) ?ya \<and> fold max (map e_last ?E) ?ya \<le> ?yb"
    using y edges_of_rows [of _ ?ya ?yb ls] by (auto simp flip: Max.set_eq_fold)
  ultimately have "is_jint (fold min (map e_first ?E) ?yb)" "is_jint (fold max (map e_last ?E) ?ya + SY g - 1)"
    using y S by (auto simp: is_jint_def abs_less_iff)
  moreover have "is_jint (max (sample_ceil l) (x0 * SX g))" "is_jint (min (sample_ceil h) (x1 * SX g) + SX g - 1)" for l h
    using sample_ceil_jint [of l] sample_ceil_jint [of h] b S by (auto simp: is_jint_def clip_ok_def abs_less_iff max_def min_def)
  ultimately show ?thesis using S by (auto simp: out_bounds_def is_jint_div Let_def split: prod.splits)
qed



end
