(* ===== verification/Prism_Stroke_Correct.thy ===== *)
theory Prism_Stroke_Correct
  imports Prism_Outline Prism_Chain Prism_Stroke Prism_Fill_Correct
begin

text \<open>
  Stroking, from the call in Java to the mask: the chain of dasher, stroker, transformer and scan converter does what running them one
  after the other on lists of calls does, so a stroked path is its outline, filled.
\<close>

section \<open>The chain\<close>

text \<open>The calls the stroker makes for a path.\<close>

definition dashed_path :: "raster_env \<Rightarrow> stroke_statics \<Rightarrow> stroke_style \<Rightarrow> path_op list \<Rightarrow> path_op list option" where
  "dashed_path env sa st ps =
     (case dashArray st of
        None \<Rightarrow> Some ps
      | Some dashes \<Rightarrow> do {
          dasher \<leftarrow> Dasher_init (dasher_env env sa) dashes (int (length dashes)) (dashphase st);
          dasher \<leftarrow> runs (Dasher_consumer (dasher_env env sa)) ps dasher;
          Some (da_calls dasher)
        })"

definition stroked_path :: "raster_env \<Rightarrow> stroke_statics \<Rightarrow> stroke_style \<Rightarrow> path_op list \<Rightarrow> path_op list option" where
  "stroked_path env sa st ps = do {
     qs \<leftarrow> dashed_path env sa st ps;
     stroker \<leftarrow> runs (Stroker_consumer (stroker_env env sa)) qs (new_stroker env sa st);
     Some (st_calls stroker)
   }"

lemma new_stroker_calls [simp]: "st_calls (new_stroker env sa st) = []"
  by (simp add: new_stroker_def Stroker_init_def Stroker_reset_def Let_def)

lemma Dasher_init_calls: "Dasher_init env dash n phase = Some d \<Longrightarrow> da_calls d = []"
  by (auto simp: Dasher_init_def Dasher_reset_def Let_def bind_eq_Some_conv split: if_splits)

lemma stroke_chain:
  assumes "runs (Stroker_consumer (stroker_env env sa)) qs (new_stroker env sa st) = Some s"
  shows "runs (through (Stroker_consumer (stroker_env env sa)) st_calls out) qs (new_stroker env sa st, o0) =
    map_option (\<lambda>o1. (s, o1)) (runs out (st_calls s) o0)"
  using sr.runs_through [OF assms, of "st_calls s"] by simp

lemma dash_chain:
  assumes "Dasher_init denv dash n phase = Some d0" "runs (Dasher_consumer denv) ps d0 = Some d"
  shows "runs (through (Dasher_consumer denv) da_calls out) ps (d0, o0) = map_option (\<lambda>o1. (d, o1)) (runs out (da_calls d) o0)"
  using dr.runs_through [OF assms(2), of "da_calls d"] Dasher_init_calls [OF assms(1)] by simp

lemma stroke_feed:
  assumes env: "raster_env_ok env" "re_dashes env" and g: "globals_ok g" and b: "4 \<le> length b" "clip_ok g (b ! 0) (b ! 1) (b ! 2) (b ! 3)"
    and len: "int (length coords) + 6 < 2 ^ 31" "numCommands \<le> int (length commands)"
    and parse: "parse_path (take (nat numCommands) commands) coords = (ps, failure)"
    and outl: "stroked_path env sa st (ps @ (if failure = None then [PathDone] else [])) = Some qs"
    and path: "path_lines g m qs = Some ls" "few ls"
  obtains this pos where
    "raster_rel (re_alloc env) (b ! 1 * SY g) (b ! 3 * SY g) (b ! 0 * SX g, b ! 2 * SX g, WIND_NON_ZERO) (ls, pos) this"
    "produceStrokeAlphas env sa g (Some coords) (Some commands) numCommands st m (Some b) (Some bytes) =
      (case failure of
         None \<Rightarrow> produce_mask env g ''Mask'' this \<lparr>rr_bounds = b, rr_mask = bytes, rr_thrown = None\<rparr>
       | Some f \<Rightarrow> Some (report_failure env f \<lparr>rr_bounds = b, rr_mask = bytes, rr_thrown = None\<rparr>))"
proof -
  let ?T = "transformed (Transformer_init m) m" and ?ps = "ps @ (if failure = None then [PathDone] else [])"
  let ?out = "\<lambda>p. Renderer_consumer (re_alloc env) g (?T p)"
  let ?stroke = "through (Stroker_consumer (stroker_env env sa)) st_calls ?out"
  have al: "re_coords env" "re_commands env" using env by (simp_all add: raster_env_ok_def)
  obtain this this' pos where t: "Renderer_reset (re_alloc env) g (b ! 0) (b ! 1) (i32 (b ! 2 - b ! 0)) (i32 (b ! 3 - b ! 1)) WIND_NON_ZERO Renderer_init = Some this"
    "runs ?out qs this = Some this'"
    "raster_rel (re_alloc env) (b ! 1 * SY g) (b ! 3 * SY g) (b ! 0 * SX g, b ! 2 * SX g, WIND_NON_ZERO) (ls, pos) this'"
    using draw_path [OF env(1) g b(2) path] .
  obtain ds s where ds: "dashed_path env sa st ?ps = Some ds"
    and s: "runs (Stroker_consumer (stroker_env env sa)) ds (new_stroker env sa st) = Some s" "st_calls s = qs"
    using outl by (auto simp: stroked_path_def bind_eq_Some_conv)
  have sk: "runs ?stroke ds (new_stroker env sa st, this) = Some (s, this')"
    using stroke_chain [OF s(1), of ?out this] t(2) s(2) by simp
  have feed: "feedConsumer env consume coords (int (length coords)) commands numCommands o0 = Some (failure, o1)"
    if "runs consume ?ps o0 = Some o1" for consume :: "path_op \<Rightarrow> 'o \<Rightarrow> 'o option" and o0 o1
    using parse that by (cases failure) (simp_all add: feedConsumer_eq [OF len al])
  have c: "check_arrays (Some coords) (Some commands) numCommands (Some b) (Some bytes) = None"
    using b(1) len(2) by (simp add: check_arrays_def)
  show thesis
  proof (cases "dashArray st")
    case None
    then have "runs ?stroke ?ps (new_stroker env sa st, this) = Some (s, this')" using sk ds by (simp add: dashed_path_def)
    from feed [OF this] show thesis
      by (intro that [OF t(3)])
        (simp only: produceStrokeAlphas_def Let_def c None option.case option.sel raster_result.simps t(1) Option.bind_lunit prod.case)
  next
    case (Some dashes)
    then obtain d0 d where d: "Dasher_init (dasher_env env sa) dashes (int (length dashes)) (dashphase st) = Some d0"
      "runs (Dasher_consumer (dasher_env env sa)) ?ps d0 = Some d" "da_calls d = ds"
      using ds by (auto simp: dashed_path_def bind_eq_Some_conv)
    have "runs (through (Dasher_consumer (dasher_env env sa)) da_calls ?stroke) ?ps (d0, new_stroker env sa st, this) = Some (d, s, this')"
      using dash_chain [OF d(1,2), of ?stroke "(new_stroker env sa st, this)"] d(3) sk by simp
    from feed [OF this] show thesis
      using env(2) by (intro that [OF t(3)])
        (simp only: produceStrokeAlphas_def Let_def c Some option.case option.sel raster_result.simps t(1) Option.bind_lunit prod.case
          d(1) not_True_eq_False if_False)
  qed
qed

section \<open>Correctness of stroking\<close>

text \<open>
  C6: stroking a path, dashed or not, from the JNI call to the mask: when dasher and stroker return the outline \<open>qs\<close> for the path, and
  the lines of the transformed outline are fewer than 3355443, the call returns, and bounds, mask and exception are those of filling
  that outline by the non-zero rule.
\<close>

theorem produceStrokeAlphas_correct:
  assumes "raster_env_ok env" "re_dashes env" "globals_ok g" "4 \<le> length b" "clip_ok g (b ! 0) (b ! 1) (b ! 2) (b ! 3)"
    "int (length coords) + 6 < 2 ^ 31" "numCommands \<le> int (length commands)" "int (length bytes) < 2 ^ 31"
    "parse_path (take (nat numCommands) commands) coords = (ps, None)"
    "stroked_path env sa st (ps @ [PathDone]) = Some qs" "path_lines g m qs = Some ls" "few ls"
  shows "\<exists>r. produceStrokeAlphas env sa g (Some coords) (Some commands) numCommands st m (Some b) (Some bytes) = Some r \<and>
    mask_result env g ''Mask'' WIND_NON_ZERO
      (edges_of (b ! 1 * SUBPIXEL_POSITIONS_Y g) (b ! 3 * SUBPIXEL_POSITIONS_Y g) ls)
      (out_bounds g (b ! 0 * SUBPIXEL_POSITIONS_X g) (b ! 2 * SUBPIXEL_POSITIONS_X g)
        (b ! 1 * SUBPIXEL_POSITIONS_Y g) (b ! 3 * SUBPIXEL_POSITIONS_Y g) ls) b bytes r"
proof -
  obtain this pos where t: "raster_rel (re_alloc env) (b ! 1 * SY g) (b ! 3 * SY g) (b ! 0 * SX g, b ! 2 * SX g, WIND_NON_ZERO) (ls, pos) this"
    "produceStrokeAlphas env sa g (Some coords) (Some commands) numCommands st m (Some b) (Some bytes) =
      produce_mask env g ''Mask'' this \<lparr>rr_bounds = b, rr_mask = bytes, rr_thrown = None\<rparr>"
    using stroke_feed [OF assms(1-7,9) _ assms(11,12), of sa st bytes, unfolded option.case] assms(10) by (simp only: simp_thms if_True) blast
  then show ?thesis using produce_mask_ok [OF assms(1,3,5) t(1) assms(12,8)] by metis
qed

text \<open>A horizontal line, two units wide, in dashes of one unit.\<close>

definition no_math :: math_lib where
  "no_math = \<lparr>lm_acos = (\<lambda>x. x), lm_cos = (\<lambda>x. x), lm_pow = (\<lambda>x y. x)\<rparr>"

definition some_statics :: stroke_statics where
  "some_statics = \<lparr>sa_math = no_math, sa_nan = 0, sa_middle = replicate 88 NaN, sa_lp = replicate 8 NaN, sa_rp = replicate 8 NaN,
     sa_subdivTs = replicate 10 NaN\<rparr>"

definition dashed_style :: stroke_style where
  "dashed_style = \<lparr>linewidth = fint 2, linecap = 0, linejoin = 0, miterlimit = fint 10, dashArray = Some [fint 1, fint 1], dashphase = fint 0\<rparr>"

definition dashed_outline :: "path_op list" where
  "dashed_outline = (let z = fint 0; one = fint 1; two = fint 2 in
     [MoveTo two z, LineTo two z, LineTo (fint 3) z, LineTo (fint 3) two, LineTo two two, ClosePath,
      MoveTo z z, LineTo z z, LineTo one z, LineTo one two, LineTo z two, ClosePath, PathDone])"

lemma dashed_stroke:
  "stroked_path unlimited_env some_statics dashed_style [MoveTo (fint 0) (fint 1), LineTo (fint 4) (fint 1), PathDone] = Some dashed_outline"
  by code_simp

definition dashed_lines :: "line list" where
  "dashed_lines = (let z = fint 0; two = fint 2; four = fint 4; six = fint 6 in
     [(z, z, z, z), (four, z, four, z), (four, z, six, z), (six, z, six, four), (six, four, four, four), (four, four, four, z),
      (four, z, four, z), (z, z, z, z), (z, z, two, z), (two, z, two, four), (two, four, z, four), (z, four, z, z), (z, z, z, z)])"

lemma dashed_stroke_lines: "path_lines two_by_two unit_matrix dashed_outline = Some dashed_lines"
  by code_simp

lemma dashed_stroke_few: "few dashed_lines"
  by (simp add: few_def dashed_lines_def Let_def)

lemma dashed_stroke_bounds: "out_bounds two_by_two 0 8 0 8 dashed_lines = [0, 0, 3, 2]"
  by code_simp

lemma dashed_stroke_pixels:
  "map (\<lambda>(x, y). pixel_cover two_by_two (- 1) (edges_of 0 8 dashed_lines) x y) [(0, 0), (1, 0), (2, 0), (0, 1), (1, 1), (2, 1)] =
    [4, 0, 4, 4, 0, 4]"
  by code_simp

lemma dashed_stroke_mask:
  "mask_rows two_by_two (- 1) (edges_of 0 8 dashed_lines) 0 0 3 2 [7, 7, 7, 7, 7, 7, 7] m \<Longrightarrow> m = [- 1, 0, - 1, - 1, 0, - 1, 7]"
  using dashed_stroke_pixels by (simp add: mask_rows_map two_by_two_def)

lemma dashed_stroke_parse:
  "parse_path (take (nat 2) [0, 1]) (map fint [0, 1, 4, 1]) = ([MoveTo (fint 0) (fint 1), LineTo (fint 4) (fint 1)], None)"
  by simp

lemma dashed_stroke_env: "clip_ok two_by_two 0 0 4 4" "re_dashes unlimited_env"
  by (simp_all add: unlimited_env_def two_by_two_def clip_ok_def)

theorem produceStrokeAlphas_correct_witness:
  "\<exists>r. produceStrokeAlphas unlimited_env some_statics two_by_two (Some (map fint [0, 1, 4, 1])) (Some [0, 1]) 2 dashed_style unit_matrix
     (Some [0, 0, 4, 4]) (Some [7, 7, 7, 7, 7, 7, 7]) = Some r \<and>
   rr_bounds r = [0, 0, 3, 2] \<and> rr_mask r = [- 1, 0, - 1, - 1, 0, - 1, 7] \<and> rr_thrown r = None"
proof -
  have s: "SUBPIXEL_POSITIONS_X two_by_two = 2" "SUBPIXEL_POSITIONS_Y two_by_two = 2" by (simp_all add: two_by_two_def)
  have "\<exists>r. produceStrokeAlphas unlimited_env some_statics two_by_two (Some (map fint [0, 1, 4, 1])) (Some [0, 1]) 2 dashed_style unit_matrix
     (Some [0, 0, 4, 4]) (Some [7, 7, 7, 7, 7, 7, 7]) = Some r \<and>
     mask_result unlimited_env two_by_two ''Mask'' 1 (edges_of 0 8 dashed_lines) [0, 0, 3, 2] [0, 0, 4, 4] [7, 7, 7, 7, 7, 7, 7] r"
    using produceStrokeAlphas_correct [of unlimited_env two_by_two "[0, 0, 4, 4]" "map fint [0, 1, 4, 1]" 2 "[0, 1]" "[7, 7, 7, 7, 7, 7, 7]"
        "[MoveTo (fint 0) (fint 1), LineTo (fint 4) (fint 1)]" some_statics dashed_style dashed_outline unit_matrix dashed_lines,
        OF triangle_env(1) dashed_stroke_env(2) triangle_env(2) _ _ _ _ _ dashed_stroke_parse _ dashed_stroke_lines dashed_stroke_few]
      dashed_stroke_env(1) dashed_stroke by (simp add: s dashed_stroke_bounds)
  then show ?thesis by (auto simp: mask_result_def dest: dashed_stroke_mask)
qed

end
