(* ===== verification/Prism_Dash_Limits.thy ===== *)
theory Prism_Dash_Limits
  imports Prism_Dasher Prism_Subdivide Prism_Roots Prism_Edges
begin

text \<open>
  Where the dasher does not end or leaves its arrays: dashes that are too short for the length of the line, and curves with a coordinate
  that is no number.
\<close>

section \<open>Dashes that make no progress\<close>

lemma goTo_dash: "goTo alloc pts off type d = Some d' \<Longrightarrow> da_dash d' = da_dash d"
  by (auto simp: goTo_def store_first_def emitSeg_def call_def bind_eq_Some_conv Let_def split: if_splits)

lemma next_dash_props: "next_dash d = Some d' \<Longrightarrow> da_dash d' = da_dash d \<and> da_phase d' = fint 0"
  by (auto simp: next_dash_def bind_eq_Some_conv)

definition no_progress :: "jfloat \<Rightarrow> jfloat \<Rightarrow> bool" where
  "no_progress len d \<longleftrightarrow> fp_less (fsub d (fint 0)) len \<and> fsub len (fsub d (fint 0)) = len"

lemma dash_line_stuck:
  assumes "\<forall>d \<in> set (da_dash this). no_progress len d" "da_phase this = fint 0"
  shows "dash_line env x1 y1 cx cy len this = None"
proof (rule ccontr)
  assume "dash_line env x1 y1 cx cy len this \<noteq> None"
  then obtain r where "dash_line env x1 y1 cx cy len this = Some r" by auto
  then have "\<not> ((\<forall>d \<in> set (da_dash this). no_progress len d) \<and> da_phase this = fint 0)"
  proof (rule dash_line.raw_induct [where P = "\<lambda>env x1 y1 cx cy len this r.
      \<not> ((\<forall>d \<in> set (da_dash this). no_progress len d) \<and> da_phase this = fint 0)", rotated], goal_cases)
    case (1 f env x1 y1 cx cy len this r)
    show ?case
    proof
      assume a: "(\<forall>d \<in> set (da_dash this). no_progress len d) \<and> da_phase this = fint 0"
      obtain d where d: "rd (da_dash this) (da_idx this) = Some d" using 1(2) by (auto simp: bind_eq_Some_conv)
      then have "d \<in> set (da_dash this)" by (auto simp: rd_eq_Some_iff)
      then have p: "no_progress len d" using a by blast
      then have n: "\<not> fp_le len (fsub d (fint 0))" by (auto simp: no_progress_def fp_le_def fp_eq_def dest: fp_less_asym)
      obtain pts t u where u: "goTo (de_alloc env) pts 0 4 (this\<lparr>da_curCurvepts := pts\<rparr>) = Some t" "next_dash t = Some u"
        "f env x1 y1 cx cy (fsub len (fsub d (fint 0))) u = Some r"
        using 1(2) d n a by (auto simp: bind_eq_Some_conv Let_def split: prod.splits if_splits)
      then have "da_dash u = da_dash this" "da_phase u = fint 0" using goTo_dash next_dash_props by fastforce+
      then show False using 1(1) [OF u(3)] a p by (simp add: no_progress_def)
    qed
  qed
  then show False using assms by blast
qed

text \<open>
  C29: dashing a straight line never ends when every dash is shorter than the line and so short that the remaining length, a \<^verbatim>\<open>jfloat\<close>,
  does not change when the dash is taken off.
\<close>

theorem Dasher_LineTo_hangs:
  assumes "\<not> fp_eq (Helpers_linelen (da_x0 this) (da_y0 this) x1 y1) (fint 0)" "da_phase this = fint 0"
    and "\<forall>d \<in> set (da_dash this). no_progress (Helpers_linelen (da_x0 this) (da_y0 this) x1 y1) d"
  shows "Dasher_LineTo env x1 y1 this = None"
  using dash_line_stuck [OF assms(3,2)] assms(1) by (simp add: Dasher_LineTo_def Helpers_linelen_def Let_def)

definition tiny_dashes :: dasher where
  "tiny_dashes = \<lparr>da_dash = [fp_literal F32 1 7], da_numdashes = 1, da_startPhase = fint 0, da_startDashOn = True, da_startIdx = 0,
     da_starting = True, da_needsMoveTo = True, da_idx = 0, da_dashOn = True, da_phase = fint 0, da_sx = fint 0, da_sy = fint 0,
     da_x0 = fint 0, da_y0 = fint 0, da_curCurvepts = replicate 16 (fint 0), da_firstSegmentsBufferSIZE = 7,
     da_firstSegmentsBuffer = replicate 7 (fint 0), da_firstSegidx = 0, da_li = LI_zero, da_calls = []\<rparr>"

definition any_dash_env :: dash_env where
  "any_dash_env = \<lparr>de_alloc = (\<lambda>_. True), de_math = \<lparr>lm_acos = (\<lambda>x. x), lm_cos = (\<lambda>x. x), lm_pow = (\<lambda>x y. x)\<rparr>\<rparr>"

theorem Dasher_LineTo_hangs_witness:
  "Option.bind (Dasher_init any_dash_env [fp_literal F32 1 7] 1 (fint 0)) (Dasher_MoveTo (fint 0) (fint 0)) = Some tiny_dashes \<and>
   Dasher_LineTo any_dash_env (fint 4) (fint 0) tiny_dashes = None"
proof
  show "Option.bind (Dasher_init any_dash_env [fp_literal F32 1 7] 1 (fint 0)) (Dasher_MoveTo (fint 0) (fint 0)) = Some tiny_dashes"
    by code_simp
  have "\<not> fp_eq (Helpers_linelen (da_x0 tiny_dashes) (da_y0 tiny_dashes) (fint 4) (fint 0)) (fint 0)" by code_simp
  moreover have "da_phase tiny_dashes = fint 0" by (simp add: tiny_dashes_def)
  moreover have "\<forall>d \<in> set (da_dash tiny_dashes). no_progress (Helpers_linelen (da_x0 tiny_dashes) (da_y0 tiny_dashes) (fint 4) (fint 0)) d"
    by code_simp
  ultimately show "Dasher_LineTo any_dash_env (fint 4) (fint 0) tiny_dashes = None" by (rule Dasher_LineTo_hangs)
qed

section \<open>Halving a curve\<close>

text \<open>The right half takes the place of the curve, the left half goes to the next row.\<close>

lemma subdivideCubic_rows:
  assumes "length ps = 4" "8 \<le> length rest"
  shows "Helpers_subdivideCubic (pre @ flat ps @ rest) (int (length pre)) (int (length pre) + 8) (int (length pre)) =
    Some (pre @ flat (right_part midpoint ps) @ flat (left_part midpoint ps) @ drop 8 rest)"
proof -
  obtain x0 y0 x1 y1 x2 y2 x3 y3 where ps: "ps = [(x0, y0), (x1, y1), (x2, y2), (x3, y3)]"
    using points_of_type [OF assms(1)] .
  obtain a b c d e f g h r where rest: "rest = a # b # c # d # e # f # g # h # r"
    using assms(2) by (auto simp: eval_nat_numeral Suc_le_length_iff)
  show ?thesis
    by (simp add: Helpers_subdivideCubic_def ps rest in_place Let_def left_part_def right_part_def midpoint_def fp_add_comm del: rd_Some wr_Some)
qed

lemma subdivideCubic_last_row:
  assumes "length ps = 4"
  shows "Helpers_subdivideCubic (pre @ flat ps) (int (length pre)) (int (length pre) + 8) (int (length pre)) = None"
proof -
  obtain x0 y0 x1 y1 x2 y2 x3 y3 where ps: "ps = [(x0, y0), (x1, y1), (x2, y2), (x3, y3)]"
    using points_of_type [OF assms] .
  show ?thesis
    by (simp add: Helpers_subdivideCubic_def ps in_place wr_def del: rd_Some wr_Some)
qed

section \<open>Coordinates that are no numbers\<close>

lemma nan_right [simp]: "fp_add F x NaN = NaN" "fp_mul F x NaN = NaN"
  by (cases x; simp)+

lemma nan_less [simp]: "\<not> fp_less x NaN"
  by (cases x) simp_all

lemma nan_sub [simp]: "fp_sub F NaN x = NaN" "fp_sub F x NaN = NaN"
  by (simp_all add: fp_sub_def)

lemma linelen_nan [simp]:
  "Helpers_linelen NaN y1 x2 y2 = NaN" "Helpers_linelen x1 NaN x2 y2 = NaN"
  "Helpers_linelen x1 y1 NaN y2 = NaN" "Helpers_linelen x1 y1 x2 NaN = NaN"
  by (simp_all add: Helpers_linelen_def fsqrt_def)

lemma left_part_nan:
  assumes "length ps = 4" "NaN \<in> set (flat ps)"
  shows "NaN \<in> set (flat (left_part midpoint ps))"
proof -
  obtain x0 y0 x1 y1 x2 y2 x3 y3 where ps: "ps = [(x0, y0), (x1, y1), (x2, y2), (x3, y3)]"
    using points_of_type [OF assms(1)] .
  show ?thesis
    using assms(2) by (auto simp: ps left_part_def midpoint_def)
qed

definition on_cubic :: "nat \<Rightarrow> jfloat list \<Rightarrow> point list \<Rightarrow> jfloat list \<Rightarrow> length_iterator \<Rightarrow> bool" where
  "on_cubic l pre ps rest this \<longleftrightarrow>
     li_recCurveStack this = pre @ flat ps @ rest \<and> length pre = 8 * l \<and> length ps = 4 \<and> length pre + 8 + length rest = 40 \<and>
     li_recLevel this = int l \<and> li_curveType this = 8 \<and> length (li_curLeafCtrlPolyLengths this) = 3 \<and> length (li_sides this) = 4"

lemma for_loop_3: "for_loop 3 body s = Option.bind (body 0 s) (\<lambda>s. Option.bind (body 1 s) (body 2))"
  by (auto simp: for_loop_def eval_nat_numeral split: option.splits bind_splits)

lemma LIonLeaf_nan:
  assumes on: "on_cubic l pre ps rest this" and nan: "NaN \<in> set (flat ps)"
  shows "\<exists>lens. LIonLeaf this = Some (if l = 4 then NaN else fint (- 1), this\<lparr>li_curLeafCtrlPolyLengths := lens\<rparr>) \<and> length lens = 3"
proof -
  obtain x0 y0 x1 y1 x2 y2 x3 y3 where ps: "ps = [(x0, y0), (x1, y1), (x2, y2), (x3, y3)]"
    using points_of_type [of ps] on unfolding on_cubic_def by blast
  obtain a b c where lens: "li_curLeafCtrlPolyLengths this = [a, b, c]"
    using on by (auto simp: on_cubic_def eval_nat_numeral length_Suc_conv)
  have st: "li_recCurveStack this = pre @ [x0, y0, x1, y1, x2, y2, x3, y3] @ rest" "li_recLevel this * 8 = int (length pre)"
    "li_curveType this = 8" "li_recLevel this = 4 \<longleftrightarrow> l = 4"
    using on ps by (auto simp: on_cubic_def)
  have polyLen: "fadd (fadd (fadd (fint 0) (Helpers_linelen x0 y0 x1 y1)) (Helpers_linelen x1 y1 x2 y2)) (Helpers_linelen x2 y2 x3 y3) = NaN"
    using nan by (auto simp: ps)
  show ?thesis
    unfolding LIonLeaf_def st
    by (intro exI [of _ "[Helpers_linelen x0 y0 x1 y1, Helpers_linelen x1 y1 x2 y2, Helpers_linelen x2 y2 x3 y3]"])
      (simp add: for_loop_3 in_place lens Let_def polyLen st(4) del: rd_Some wr_Some)
qed

lemma LIgoLeft_nan:
  assumes "on_cubic l pre ps rest this" "NaN \<in> set (flat ps)"
  shows "LIgoLeft this = None"
  using assms
proof (induction "4 - l" arbitrary: l pre ps rest this)
  case (Suc k)
  then have l: "l < 4" by simp
  obtain lens where leaf: "LIonLeaf this = Some (fint (- 1), this\<lparr>li_curLeafCtrlPolyLengths := lens\<rparr>)" "length lens = 3"
    using LIonLeaf_nan [OF Suc.prems] l by auto
  have not_leaf: "\<not> fp_le (fint 0) (fint (- 1))" by code_simp
  have on: "length pre = 8 * l" "length ps = 4" "8 \<le> length rest" "li_recCurveStack this = pre @ flat ps @ rest" "li_recLevel this = int l"
    "li_curveType this = 8" "length (li_sides this) = 4"
    using Suc.prems(1) l by (auto simp: on_cubic_def)
  let ?st = "pre @ flat (right_part midpoint ps) @ flat (left_part midpoint ps) @ drop 8 rest"
  let ?next = "this\<lparr>li_curLeafCtrlPolyLengths := lens, li_recCurveStack := ?st, li_sides := (li_sides this)[l := LEFT], li_recLevel := int l + 1\<rparr>"
  have sub: "Helpers_subdivide (li_recCurveStack this) (int l * 8) ((int l + 1) * 8) (int l * 8) 8 = Some ?st"
    using subdivideCubic_rows [of ps rest pre] on by (simp add: Helpers_subdivide_def algebra_simps)
  have nx: "on_cubic (Suc l) (pre @ flat (right_part midpoint ps)) (left_part midpoint ps) (drop 8 rest) ?next"
    using Suc.prems(1) leaf(2) on by (auto simp: on_cubic_def flat_length)
  have "LIgoLeft ?next = None"
    using Suc.hyps(1) [OF _ nx left_part_nan [OF on(2) Suc.prems(2)]] Suc.hyps(2) by simp
  then show ?case
    using sub on l by (subst LIgoLeft.simps) (simp add: leaf(1) not_leaf Let_def)
next
  case 0
  then have "4 \<le> l" "8 * l + length rest = 32" by (simp_all add: on_cubic_def)
  then have l: "l = 4" "length rest = 0" by linarith+
  then have "rest = []" "length ps = 4" "length pre = 32" "li_recCurveStack this = pre @ flat ps" "li_recLevel this = 4" "li_curveType this = 8"
    using 0 by (simp_all add: on_cubic_def)
  then show ?case
    using l(1)
    using LIonLeaf_nan [OF 0(2,3)] subdivideCubic_last_row [of ps pre]
    by (subst LIgoLeft.simps) (auto simp: fp_le_def fp_eq_def Helpers_subdivide_def Let_def)
qed

text \<open>
  C30: dashing a cubic curve with a coordinate that is not a number writes past the last row of the iterator: the test for a leaf fails
  at the deepest level, because the length of the leaf is not a number either.
\<close>

theorem Dasher_CurveTo_overflows:
  assumes "NaN \<in> {da_x0 this, da_y0 this, x1, y1, x2, y2, x3, y3}" "length (da_curCurvepts this) = 16"
    "length (li_recCurveStack (da_li this)) = 40" "length (li_sides (da_li this)) = 4" "length (li_curLeafCtrlPolyLengths (da_li this)) = 3"
  shows "Dasher_CurveTo env x1 y1 x2 y2 x3 y3 this = None"
proof -
  let ?row = "[da_x0 this, da_y0 this, x1, y1, x2, y2, x3, y3]"
  let ?ps = "[(da_x0 this, da_y0 this), (x1, y1), (x2, y2), (x3, y3)]"
  define pts where "pts = ?row @ drop 8 (da_curCurvepts this)"
  have pts: "wr_all (da_curCurvepts this) 0 ?row = Some pts" using assms(2) by (simp add: wr_all_eq pts_def eval_nat_numeral del: wr_all.simps)
  have point: "pointCurve pts 8 = Some False"
    using assms(1) by (auto simp: pointCurve_def for_loop_def eval_nat_numeral pts_def rd_Cons fp_eq_def simp del: rd_Some)
  have copy: "System_arraycopy pts 0 (li_recCurveStack (da_li this)) 0 8 = Some (?row @ drop 8 (li_recCurveStack (da_li this)))"
    using System_arraycopy_eq [of 8 pts "li_recCurveStack (da_li this)"] assms(2,3) by (simp add: pts_def)
  have "LIinitializeIterationOnCurve pts 8 (da_li this) = None"
    using LIgoLeft_nan [of 0 "[]" ?ps "drop 8 (li_recCurveStack (da_li this))"] assms
    by (auto simp: LIinitializeIterationOnCurve_def copy Let_def on_cubic_def)
  then show ?thesis by (simp add: Dasher_CurveTo_def pts somethingTo_def point del: wr_all.simps)
qed

theorem Dasher_CurveTo_overflows_witness:
  "Dasher_CurveTo any_dash_env NaN (fint 1) (fint 2) (fint 1) (fint 3) (fint 0) tiny_dashes = None"
  using Dasher_CurveTo_overflows [of tiny_dashes NaN "fint 1" "fint 2" "fint 1" "fint 3" "fint 0" any_dash_env]
  by (simp add: tiny_dashes_def LI_zero_def Let_def)

end
