(* ===== verification/Spec2Isabelle.thy ===== *)
theory Spec2Isabelle
  imports Pisces_Session Pisces_Dispatch Pisces_Math Media_Color Prism_Stroke_Correct Prism_Dash_Limits
begin

text \<open>
  A verification of the native C code that draws JavaFX scenes without a graphics card.

  \<^bold>\<open>The program.\<close> Three parts of the repository are covered.

  \<^item> The Pisces renderer, \<^verbatim>\<open>src/modules/javafx.graphics/src/main/native-prism-sw\<close>. Java creates a renderer on a surface of 32-bit
    premultiplied pixels, sets clip, colour, composite rule, gradient, texture and mask, and draws rectangles, images, masks and
    rows of coverage. Setters only record what changed; the next drawing call validates the state and picks a blitter.
  \<^item> The Prism rasteriser, \<^verbatim>\<open>src/modules/javafx.graphics/src/main/native-prism\<close>. Java hands over a path, a transform and a
    clip; the path is read command by command and goes through a chain of path consumers (dasher, stroker, transformer, scan
    converter), and the scan converter writes the mask of coverage that Pisces then draws.
  \<^item> The portable colour conversion of the media module, \<^verbatim>\<open>src/modules/javafx.media/src/main/native/jfxmedia/Utils/ColorConverter.c\<close>.

  \<^bold>\<open>How the model is written.\<close> Structures are records with the fields of the C structures, the arrays they point to are lists in
  those records, a \<^verbatim>\<open>jint\<close> or \<^verbatim>\<open>jlong\<close> is an integer with the wrap-around written out (\<open>i32\<close>, \<open>i64\<close>), a \<^verbatim>\<open>jfloat\<close> or
  \<^verbatim>\<open>double\<close> is a value of the type of binary floating-point numbers of \<open>Soft_Float\<close> (sign, exponent, mantissa, infinities, NaN),
  where every operation rounds to nearest, ties to even; sums are not fused with products, and conversions to integers and shifts
  are those of x86-64. Every read and write of an array goes through \<open>rd\<close> and \<open>wr\<close>, which yield \<open>None\<close> out of bounds, so
  \<open>f x = Some y\<close> says that the code stays in its arrays, divides by nothing that is zero, dispatches through no null pointer and
  returns. Exceptions thrown into Java are values of the result. Loops with a bound are \<open>for_loop\<close>, \<open>ptr_loop\<close> or functions with a
  termination proof. Loops whose end depends on floating-point values are \<open>partial_function (option)\<close>, for which not returning is \<open>None\<close>
  too: \<open>mod_loop\<close>; \<open>quad_count\<close>, \<open>dec_loop\<close>, \<open>inc_loop\<close>, \<open>curve_loop\<close>, \<open>sample_rows\<close>; \<open>phase_up\<close>, \<open>phase_down\<close>,
  \<open>dash_line\<close>, \<open>dash_curve\<close>, \<open>emit_first\<close>, \<open>LIgoLeft\<close>, \<open>advance_leaves\<close>. There is no fuel; the two counters that bound a
  recursion are the code's own, the hundred rounds of \<open>false_position\<close> and the number of curves on the stack in \<open>pop_all\<close>.
  What the code takes from outside the repository is a parameter: whether an allocation, the pinning of a Java array or the
  look-up of a class succeeds (\<open>jni_env\<close>, \<open>raster_env\<close>), \<^verbatim>\<open>pow\<close>, \<^verbatim>\<open>acos\<close>, \<^verbatim>\<open>cos\<close> and \<^verbatim>\<open>sin\<close> of the C library
  (\<open>math_lib\<close> and arguments), the format of \<^verbatim>\<open>long double\<close>, the bits of a NaN, and what static arrays hold before their first use
  (\<open>stroke_statics\<close>).

  \<^bold>\<open>Shared theories.\<close> \<open>Pisces_Prelude\<close> has the integers, the array access and the loops with the rules to reason about them;
  \<open>Soft_Float\<close> the floating-point arithmetic.

  \<^bold>\<open>Pisces.\<close>
  \<^item> \<open>Pisces_Blend\<close>, \<open>Pisces_Blit\<close>: \<^verbatim>\<open>PiscesBlit.c\<close>, every blend, blit, line and clear routine and the gamma tables.
    \<open>Pisces_Span\<close> has the notion of a span and the locale of a pixel kernel; \<open>Pisces_Blit_Correct\<close> (locales \<open>aa_blitter\<close> and
    \<open>mask_blitter\<close>, interpreted for every rule) and \<open>Pisces_Line_Correct\<close> show that each blitter draws exactly its span, stays in
    its buffers, clears the coverage it consumed and keeps pixels premultiplied, and on which inputs the plain source rule does not.
  \<^item> \<open>Pisces_Paint\<close>: \<^verbatim>\<open>PiscesPaint.c\<close>, gradients and textures in all transform and repeat modes. \<open>Pisces_Paint_Correct\<close>
    and \<open>Pisces_Texture_Correct\<close> (locale \<open>row_generator\<close>) show that paint is generated inside its buffers for any geometry, NaN and
    infinities included, and that the copying fast path of translated textures is the pixel by pixel sampling.
  \<^item> \<open>Pisces_Transform\<close>, \<open>Pisces_Renderer\<close>: \<^verbatim>\<open>PiscesTransform.c\<close>, \<^verbatim>\<open>PiscesRenderer.h\<close>, \<^verbatim>\<open>PiscesRenderer.inl\<close>, the
    renderer with its setters and the selection of routines. \<open>Pisces_Validate\<close> and \<open>Pisces_Dispatch\<close> show that lazy validation
    always ends in the routines of the modes set last.
  \<^item> \<open>Pisces_JNI\<close>: \<^verbatim>\<open>JPiscesRenderer.c\<close>, \<^verbatim>\<open>JAbstractSurface.c\<close>, \<^verbatim>\<open>JJavaSurface.c\<close>, \<^verbatim>\<open>PiscesSurface.inl\<close>, \<^verbatim>\<open>JNIUtil.c\<close> and
    \<^verbatim>\<open>PiscesSysutils.c\<close>, the calls Java makes. \<open>Pisces_Fill_Correct\<close>, \<open>Pisces_Mask_Correct\<close>, \<open>Pisces_Row_Correct\<close> and
    \<open>Pisces_JNI_Correct\<close> (locales \<open>line_drawer\<close> and \<open>mask_drawer\<close>) give for each call the pixels it draws, and its error
    behaviour. \<open>Pisces_Session\<close> states what Java may call and what it sees, as a specification on a canvas, and shows that the calls
    simulate it: every sequence of legal calls returns and never draws outside the clip.
  \<^item> \<open>Pisces_Math\<close>: \<^verbatim>\<open>PiscesMath.c\<close>, fixed-point trigonometry.

  \<^bold>\<open>Prism.\<close>
  \<^item> \<open>Prism_Path\<close>: \<^verbatim>\<open>PathConsumer.h\<close>, \<^verbatim>\<open>Transformer.c\<close>. A call of a consumer is a value of \<open>path_op\<close>, and a consumer
    is a function from a call and a state to a state.
  \<^item> \<open>Prism_Renderer\<close>, \<open>Prism_Raster\<close>: \<^verbatim>\<open>Renderer.c\<close> with its scan-line iterator, and the entry points of
    \<^verbatim>\<open>NativePiscesRasterizer.c\<close> for filled paths. The proofs follow the data: \<open>Prism_Edges\<close> relates the array of edges and its
    buckets to a list of edges; \<open>Prism_Flatten\<close> lists the lines of a call and states the contract of a consumer (locale
    \<open>path_consumer\<close>); \<open>Prism_Feed\<close> parses the two arrays of a path; \<open>Prism_Scan\<close> shows that the iterator returns the sorted
    crossings of a row; \<open>Prism_Cover\<close> and \<open>Prism_Alphas\<close> turn crossings into samples inside the path, by its winding rule, and
    samples into bytes; \<open>Prism_Setup\<close> has the static variables and the alpha map; \<open>Prism_Fill_Correct\<close> puts them together, from the
    call to the mask.
  \<^item> \<open>Prism_Curve\<close>: \<^verbatim>\<open>Helpers.c\<close>, \<^verbatim>\<open>Curve.c\<close>, roots and subdivision. \<open>Prism_Roots\<close> shows that the sort in place sorts, the
    filter in place filters and the stroker gets at most ten parameters, sorted and strictly inside the curve; \<open>Prism_Subdivide\<close>
    that subdivision is the construction of de Casteljau.
  \<^item> \<open>Prism_Stroker\<close>: \<^verbatim>\<open>Stroker.c\<close>. \<open>Prism_Stack\<close> (locale \<open>seg_stack\<close>) shows the round trip of its stack, \<open>Prism_Outline\<close> that
    any calls give closed outlines, and what the outline of a polyline is.
  \<^item> \<open>Prism_Dasher\<close>: \<^verbatim>\<open>Dasher.c\<close> with its length iterator. \<open>Prism_Dash_Limits\<close> shows two inputs it does not handle.
  \<^item> \<open>Prism_Stroke\<close>: the entry point for stroked paths. \<open>Prism_Relay\<close> (locale \<open>relay\<close>) shows that a chain of consumers that pass
    calls on does what running them one after the other on lists of calls does, \<open>Prism_Chain\<close> interprets it for stroker and dasher, and
    \<open>Prism_Stroke_Correct\<close> shows that a stroked path is its outline, filled.

  \<^bold>\<open>Media.\<close> \<open>Media_Tables\<close> has the tables of \<^verbatim>\<open>ColorConverter.c\<close>, checked against their documentation; \<open>Media_Color\<close> the
  conversions, which turn exactly the frame into saturated pixels.

  \<^bold>\<open>Bounds.\<close> The theorems on masks ask that the path has fewer than 3355443 lines, because the scan converter keeps indices into
  its edge array, five floats to an edge, in floats, which are exact up to \<open>2 ^ 24\<close>; that the clip times the sample positions is
  below \<open>2 ^ 24\<close> for the same reason; and that there are at most \<open>2 ^ 20\<close> samples to a pixel. The stroker puts at most 25 segments on
  its stack per call, and the stack is followed up to \<open>2 ^ 24\<close> segments, which keeps its sizes inside a \<^verbatim>\<open>jint\<close>.

  \<^bold>\<open>Not modelled.\<close> The SSE2 colour conversions (compiler intrinsics), the functions that only free memory, functions nothing calls
  (\<^verbatim>\<open>Helpers_evalCubic\<close>, \<^verbatim>\<open>Helpers_evalQuad\<close>, \<^verbatim>\<open>Helpers_polyLineLength\<close>, \<^verbatim>\<open>xat\<close>, \<^verbatim>\<open>yat\<close>, \<^verbatim>\<open>dxat\<close>, \<^verbatim>\<open>dyat\<close>), the look-up
  of Java fields, and \<^verbatim>\<open>JTransform.c\<close>, which copies six fields. The media progress buffers and the other GStreamer elements run on the
  threads, locks and pads of a vendored framework, and the windowing, font, GPU and image-loading code consists of calls into the
  platform. The vendored libraries and WebKit are third-party code, and the Java modules are outside this development; of them only the
  argument check of \<^verbatim>\<open>AbstractSurface.java\<close> is modelled, because two theorems compare it with the native check.
\<close>

end
